(* ===== verification/OrdMap.thy ===== *)
theory OrdMap
  imports Prelude "HOL-Library.List_Lexorder" "HOL-Library.Char_ord"
begin

text \<open>
  The ordered associative containers of the program: \<open>std::map\<close> (HTTP headers,
  \<open>libs/Web/Web.h\<close>) and \<open>QMap\<close> (partition map, JSON objects). Both hold one value per key
  and are iterated in ascending key order, so the data is an association list sorted by key.
  The locale states the contract the clients rely on; the interpretation discharges it for the
  association lists.
\<close>

type_synonym ('k, 'v) ordmap = "('k \<times> 'v) list"

fun om_insert :: "'k::linorder \<Rightarrow> 'v \<Rightarrow> ('k, 'v) ordmap \<Rightarrow> ('k, 'v) ordmap" where
  "om_insert k v [] = [(k, v)]"
| "om_insert k v ((k', v') # m) =
     (if k < k' then (k, v) # (k', v') # m
      else if k = k' then (k, v) # m
      else (k', v') # om_insert k v m)"

definition om_find :: "('k, 'v) ordmap \<Rightarrow> 'k \<Rightarrow> 'v option" where
  "om_find m k = map_of m k"

definition om_contains :: "('k, 'v) ordmap \<Rightarrow> 'k \<Rightarrow> bool" where
  "om_contains m k \<longleftrightarrow> om_find m k \<noteq> None"

definition om_keys :: "('k, 'v) ordmap \<Rightarrow> 'k list" where
  "om_keys m = map fst m"

definition om_values :: "('k, 'v) ordmap \<Rightarrow> 'v list" where
  "om_values m = map snd m"

definition om_wf :: "('k::linorder, 'v) ordmap \<Rightarrow> bool" where
  "om_wf m \<longleftrightarrow> sorted_wrt (<) (om_keys m)"

section \<open>The contract of an ordered map\<close>

locale ordered_map =
  fixes empty :: "'m"
    and insert :: "'k::linorder \<Rightarrow> 'v \<Rightarrow> 'm \<Rightarrow> 'm"
    and find :: "'m \<Rightarrow> 'k \<Rightarrow> 'v option"
    and keys :: "'m \<Rightarrow> 'k list"
    and wf :: "'m \<Rightarrow> bool"
  assumes wf_empty: "wf empty"
    and wf_insert: "wf m \<Longrightarrow> wf (insert k v m)"
    and find_empty: "find empty k = None"
    and find_insert: "wf m \<Longrightarrow> find (insert k v m) k' = (if k' = k then Some v else find m k')"
    and keys_sorted: "wf m \<Longrightarrow> sorted_wrt (<) (keys m)"
    and keys_find: "wf m \<Longrightarrow> k \<in> set (keys m) \<longleftrightarrow> find m k \<noteq> None"
begin

lemma keys_insert_set: "wf m \<Longrightarrow> set (keys (insert k v m)) = {k} \<union> set (keys m)"
  using keys_find [OF wf_insert] keys_find by (auto simp: find_insert split: if_splits)

lemma keys_distinct: "wf m \<Longrightarrow> distinct (keys m)"
  using keys_sorted strict_sorted_iff by blast

lemma last_key_max: "wf m \<Longrightarrow> k \<in> set (keys m) \<Longrightarrow> k \<le> last (keys m)"
proof -
  assume w: "wf m" and k: "k \<in> set (keys m)"
  have s: "sorted (keys m)" using keys_sorted [OF w] strict_sorted_iff by blast
  from k obtain i where i: "i < length (keys m)" "keys m ! i = k" by (meson in_set_conv_nth)
  then have "keys m ! i \<le> keys m ! (length (keys m) - 1)" by (intro sorted_nth_mono [OF s]) auto
  then show "k \<le> last (keys m)" using i by (metis last_conv_nth length_0_conv less_nat_zero_code)
qed

lemma beyond_last_fresh: "wf m \<Longrightarrow> keys m = [] \<or> last (keys m) < k \<Longrightarrow> find m k = None"
  using last_key_max keys_find by (metis leD list.set(1) empty_iff)

lemma insert_overwrites: "wf m \<Longrightarrow> find (insert k v (insert k u m)) = find (insert k v m)"
  by (auto simp: find_insert wf_insert fun_eq_iff)

end

section \<open>The association lists satisfy it\<close>

lemma om_insert_keys: "set (om_keys (om_insert k v m)) = {k} \<union> set (om_keys m)"
  by (induction k v m rule: om_insert.induct) (auto simp: om_keys_def)

lemma om_insert_wf: "om_wf m \<Longrightarrow> om_wf (om_insert k v m)"
proof (induction k v m rule: om_insert.induct)
  case (1 k v)
  then show ?case by (simp add: om_wf_def om_keys_def)
next
  case (2 k v k' v' m)
  have IH: "\<not> k < k' \<Longrightarrow> k \<noteq> k' \<Longrightarrow> om_wf (om_insert k v m)"
    using 2 by (simp add: om_wf_def om_keys_def)
  from "2.prems" show ?case
    using IH om_insert_keys [of k v m] by (auto simp: om_wf_def om_keys_def)
qed

lemma om_find_insert: "om_wf m \<Longrightarrow> om_find (om_insert k v m) k' = (if k' = k then Some v else om_find m k')"
proof (induction k v m rule: om_insert.induct)
  case (1 k v)
  then show ?case by (simp add: om_find_def)
next
  case (2 k v k1 v1 m)
  then show ?case
    by (auto simp: om_find_def om_wf_def om_keys_def)
qed

lemma om_wf_Nil [simp]: "om_wf []"
  by (simp add: om_wf_def om_keys_def)

lemma om_find_Nil [simp]: "om_find [] k = None"
  by (simp add: om_find_def)

lemma om_find_keys: "k \<in> set (om_keys m) \<longleftrightarrow> om_find m k \<noteq> None"
  by (simp add: om_find_def om_keys_def map_of_eq_None_iff)

interpretation om: ordered_map "[]" om_insert om_find om_keys om_wf
  by unfold_locales (simp_all add: om_find_insert om_insert_wf om_find_keys, simp add: om_wf_def)

lemma om_contains_insert: "om_wf m \<Longrightarrow> om_contains (om_insert k v m) k' \<longleftrightarrow> k' = k \<or> om_contains m k'"
  by (simp add: om_contains_def om_find_insert)

lemma om_values_find: "om_wf m \<Longrightarrow> v \<in> set (om_values m) \<longleftrightarrow> (\<exists>k. om_find m k = Some v)"
proof -
  assume "om_wf m"
  then have "distinct (map fst m)" using om.keys_distinct by (simp add: om_keys_def)
  then show ?thesis by (auto simp: om_values_def om_find_def image_iff) force+
qed

end
