(* ===== verification/SysUtil.thy ===== *)
theory SysUtil
  imports Prelude
begin

text \<open>
  \<open>recovery/Utility_Sys.cpp\<close>: mounting and file access, over an explicit world. The world keeps
  the files visible under each path and the log of everything the program did to the system.
  What the system answers (exit codes, outputs, what a command does to the visible files, whether
  a write succeeds and what it stores) is code outside the repository, so it is a parameter: a
  record of functions of the log so far. A directory or a device node is a path with a content.
\<close>

type_synonym files = "string \<Rightarrow> string option"

datatype event =
    Execute string            \<comment> \<open>\<open>QProcess::execute\<close>, waits for the exit code\<close>
  | Start string string       \<comment> \<open>\<open>QProcess::start\<close> with this standard input, then waits\<close>
  | StartIn string "string list" "(string \<times> string) list"
                              \<comment> \<open>a program with arguments and environment in a directory\<close>
  | Spawn string              \<comment> \<open>\<open>QProcess::start\<close>, left running\<close>
  | MkDir string
  | WriteFile string string
  | AppendFile string string
  | RemoveFile string
  | PatchFile string nat string \<comment> \<open>seek and write inside a file\<close>
  | Sync
  | Sleep nat                 \<comment> \<open>microseconds\<close>
  | Reboot
  | SendBytes string          \<comment> \<open>written to a socket\<close>

record world =
  w_files :: files
  w_log :: "event list"

record env =
  e_exit :: "event list \<Rightarrow> int"
  e_output :: "event list \<Rightarrow> string"
  e_effect :: "event list \<Rightarrow> files \<Rightarrow> files"
  e_mkdir_ok :: "event list \<Rightarrow> bool"
  e_open_write :: "event list \<Rightarrow> string \<Rightarrow> bool"
  e_write_ok :: "event list \<Rightarrow> bool"
  e_stored :: "event list \<Rightarrow> string \<Rightarrow> string"

section \<open>Primitive calls\<close>

definition log_event :: "event \<Rightarrow> world \<Rightarrow> world" where
  "log_event e w = w\<lparr>w_log := w_log w @ [e]\<rparr>"

definition file_exists :: "world \<Rightarrow> string \<Rightarrow> bool" where
  "file_exists w p \<longleftrightarrow> w_files w p \<noteq> None"

definition execute :: "env \<Rightarrow> string \<Rightarrow> world \<Rightarrow> int \<times> world" where
  "execute E cmd w =
     (let l = w_log w @ [Execute cmd]
      in (e_exit E l, w\<lparr>w_log := l, w_files := e_effect E l (w_files w)\<rparr>))"

definition start_wait :: "env \<Rightarrow> string \<Rightarrow> string \<Rightarrow> world \<Rightarrow> int \<times> string \<times> world" where
  "start_wait E cmd inp w =
     (let l = w_log w @ [Start cmd inp]
      in (e_exit E l, e_output E l, w\<lparr>w_log := l, w_files := e_effect E l (w_files w)\<rparr>))"

definition spawn :: "env \<Rightarrow> string \<Rightarrow> world \<Rightarrow> world" where
  "spawn E cmd w =
     (let l = w_log w @ [Spawn cmd]
      in w\<lparr>w_log := l, w_files := e_effect E l (w_files w)\<rparr>)"

definition make_dir :: "env \<Rightarrow> string \<Rightarrow> world \<Rightarrow> world" where
  "make_dir E d w =
     (let l = w_log w @ [MkDir d]
      in w\<lparr>w_log := l, w_files := (if e_mkdir_ok E l then (w_files w)(d \<mapsto> []) else w_files w)\<rparr>)"

definition write_file :: "env \<Rightarrow> string \<Rightarrow> string \<Rightarrow> world \<Rightarrow> bool \<times> world" where
  "write_file E p d w =
     (let l = w_log w @ [WriteFile p d]
      in if e_write_ok E l
         then (True, w\<lparr>w_log := l, w_files := (w_files w)(p \<mapsto> e_stored E l d)\<rparr>)
         else (False, w\<lparr>w_log := l, w_files := (w_files w)(p \<mapsto> [])\<rparr>))"

definition append_file :: "env \<Rightarrow> string \<Rightarrow> string \<Rightarrow> world \<Rightarrow> world" where
  "append_file E p d w =
     (if \<not> e_open_write E (w_log w) p then w
      else
        let l = w_log w @ [AppendFile p d];
            old = (case w_files w p of None \<Rightarrow> [] | Some c \<Rightarrow> c)
        in w\<lparr>w_log := l,
             w_files := (w_files w)(p \<mapsto> (if e_write_ok E l then old @ e_stored E l d else old))\<rparr>)"

definition start_in :: "env \<Rightarrow> string \<Rightarrow> string list \<Rightarrow> (string \<times> string) list \<Rightarrow> world \<Rightarrow> int \<times> world" where
  "start_in E dir args vars w =
     (let l = w_log w @ [StartIn dir args vars]
      in (e_exit E l, w\<lparr>w_log := l, w_files := e_effect E l (w_files w)\<rparr>))"

text \<open>Opening with \<open>WriteOnly\<close> truncates; the code ignores both results.\<close>

definition overwrite_file :: "env \<Rightarrow> string \<Rightarrow> string \<Rightarrow> world \<Rightarrow> world" where
  "overwrite_file E p d w = (if \<not> e_open_write E (w_log w) p then w else snd (write_file E p d w))"

text \<open>A write inside a device; the effect includes the kernel reading the partition table again.\<close>

definition patch_file :: "env \<Rightarrow> string \<Rightarrow> nat \<Rightarrow> string \<Rightarrow> world \<Rightarrow> world" where
  "patch_file E p off d w =
     (let l = w_log w @ [PatchFile p off d]
      in w\<lparr>w_log := l, w_files := e_effect E l (w_files w)\<rparr>)"

definition remove_file :: "env \<Rightarrow> string \<Rightarrow> world \<Rightarrow> bool \<times> world" where
  "remove_file E p w =
     (let l = w_log w @ [RemoveFile p]
      in if e_write_ok E l
         then (True, w\<lparr>w_log := l, w_files := (w_files w)(p := None)\<rparr>)
         else (False, w\<lparr>w_log := l\<rparr>))"

section \<open>Utility::Sys\<close>

definition SETTINGS_PARTITION :: string where "SETTINGS_PARTITION = ''/dev/mmcblk0p5''"
definition SETTINGS_DIR :: string where "SETTINGS_DIR = ''/settings''"
definition SYSTEMS_PARTITION :: string where "SYSTEMS_PARTITION = ''/dev/mmcblk0p1''"
definition SYSTEMS_DIR :: string where "SYSTEMS_DIR = ''/mnt''"
definition DEFAULT_BOOT_PARTITION_FILE :: string where
  "DEFAULT_BOOT_PARTITION_FILE = ''/settings/default_boot_partition''"

definition getFileContents :: "world \<Rightarrow> string \<Rightarrow> string" where
  "getFileContents w p = (case w_files w p of None \<Rightarrow> [] | Some c \<Rightarrow> c)"

definition putFileContents :: "env \<Rightarrow> string \<Rightarrow> string \<Rightarrow> world \<Rightarrow> bool \<times> world" where
  "putFileContents E p d w =
     (if file_exists w p \<or> \<not> e_open_write E (w_log w) p then (False, w)
      else write_file E p d w)"

definition partitionIsMounted :: "env \<Rightarrow> string \<Rightarrow> string \<Rightarrow> world \<Rightarrow> bool \<times> world" where
  "partitionIsMounted E part dir w =
     (let (rc, w1) = execute E (''mount | grep '' @ part @ (if dir \<noteq> [] then '' on '' @ dir else [])) w
      in (rc = 0, w1))"

definition mountPartition :: "env \<Rightarrow> string \<Rightarrow> string \<Rightarrow> string \<Rightarrow> world \<Rightarrow> bool \<times> world" where
  "mountPartition E part dir args w =
     (let w1 = (if \<not> file_exists w dir then make_dir E dir w else w);
          (mounted, w2) = partitionIsMounted E part dir w1
      in if mounted then (True, w2)
         else if file_exists w2 part \<and> file_exists w2 dir then
           let (rc, w3) = execute E (''mount '' @ args @ '' '' @ part @ '' '' @ dir) w2
           in (rc = 0, w3)
         else (False, w2))"

definition unmountPartition :: "env \<Rightarrow> string \<Rightarrow> world \<Rightarrow> bool \<times> world" where
  "unmountPartition E dir w = (let (rc, w1) = execute E (''umount '' @ dir) w in (rc = 0, w1))"

definition remountPartition :: "env \<Rightarrow> string \<Rightarrow> string \<Rightarrow> world \<Rightarrow> bool \<times> world" where
  "remountPartition E dir args w =
     (let (mounted, w1) = partitionIsMounted E dir [] w
      in if \<not> mounted then (False, w1)
         else if file_exists w1 dir then
           let (rc, w2) = (if args \<noteq> [] then execute E (''mount -o remount,'' @ args @ '' '' @ dir) w1
                           else execute E (''mount -o remount '' @ dir) w1)
           in (rc = 0, w2)
         else (False, w1))"

definition mountSystemsPartition :: "env \<Rightarrow> world \<Rightarrow> bool \<times> world" where
  "mountSystemsPartition E w = mountPartition E SYSTEMS_PARTITION SYSTEMS_DIR ''-t vfat'' w"

definition unmountSystemsPartition :: "env \<Rightarrow> world \<Rightarrow> bool \<times> world" where
  "unmountSystemsPartition E w = unmountPartition E SYSTEMS_DIR w"

definition mountSettingsPartition :: "env \<Rightarrow> world \<Rightarrow> bool \<times> world" where
  "mountSettingsPartition E w = mountPartition E SETTINGS_PARTITION SETTINGS_DIR ''-t ext4'' w"

definition unmountSettingsPartition :: "env \<Rightarrow> world \<Rightarrow> bool \<times> world" where
  "unmountSettingsPartition E w = unmountPartition E SETTINGS_DIR w"

section \<open>Logs only grow\<close>

definition extends :: "world \<Rightarrow> world \<Rightarrow> bool" where
  "extends w w' \<longleftrightarrow> (\<exists>es. w_log w' = w_log w @ es)"

named_theorems ext_intros \<open>every operation extends the log\<close>

lemma extends_refl [simp, ext_intros]: "extends w w"
  by (simp add: extends_def)

lemma extends_trans [trans]: "extends a b \<Longrightarrow> extends b c \<Longrightarrow> extends a c"
  by (auto simp: extends_def)

lemma log_event_extends [ext_intros]: "extends w (log_event e w)"
  by (simp add: extends_def log_event_def)

lemma execute_log [simp]: "w_log (snd (execute E c w)) = w_log w @ [Execute c]"
  by (simp add: execute_def Let_def)

lemma start_wait_log [simp]: "w_log (snd (snd (start_wait E c i w))) = w_log w @ [Start c i]"
  by (simp add: start_wait_def Let_def)

lemma spawn_log [simp]: "w_log (spawn E c w) = w_log w @ [Spawn c]"
  by (simp add: spawn_def Let_def)

lemma make_dir_log [simp]: "w_log (make_dir E d w) = w_log w @ [MkDir d]"
  by (simp add: make_dir_def Let_def)

lemma write_file_log [simp]: "w_log (snd (write_file E p d w)) = w_log w @ [WriteFile p d]"
  by (simp add: write_file_def Let_def)

lemma remove_file_log [simp]: "w_log (snd (remove_file E p w)) = w_log w @ [RemoveFile p]"
  by (simp add: remove_file_def Let_def)

lemma partitionIsMounted_log:
  "w_log (snd (partitionIsMounted E p d w)) =
     w_log w @ [Execute (''mount | grep '' @ p @ (if d \<noteq> [] then '' on '' @ d else []))]"
  by (simp add: partitionIsMounted_def split: prod.split) (metis execute_log snd_conv)

text \<open>An existing file is never overwritten by \<open>putFileContents\<close>.\<close>

lemma putFileContents_existing: "file_exists w p \<Longrightarrow> putFileContents E p d w = (False, w)"
  by (simp add: putFileContents_def)

lemma putFileContents_other:
  "q \<noteq> p \<Longrightarrow> w_files (snd (putFileContents E p d w)) q = w_files w q"
  by (simp add: putFileContents_def write_file_def Let_def)

lemma putFileContents_ok:
  assumes "fst (putFileContents E p d w)"
  shows "w_files w p = None"
    and "w_files (snd (putFileContents E p d w)) p = Some (e_stored E (w_log w @ [WriteFile p d]) d)"
  using assms
  by (auto simp: putFileContents_def write_file_def file_exists_def Let_def split: if_splits)

text \<open>A successful mount leaves evidence in the log: either the probe or the mount succeeded.\<close>

lemma mountPartition_ok:
  assumes "fst (mountPartition E part dir args w)"
  shows "\<exists>pre. e_exit E (w_log w @ pre) = 0 \<and> w_log (snd (mountPartition E part dir args w)) = w_log w @ pre"
proof -
  define w1 where "w1 = (if \<not> file_exists w dir then make_dir E dir w else w)"
  have l1: "\<exists>p. w_log w1 = w_log w @ p" by (auto simp: w1_def)
  obtain m w2 where m: "partitionIsMounted E part dir w1 = (m, w2)" by fastforce
  have l2: "w_log w2 = w_log w1 @ [Execute (''mount | grep '' @ part @ (if dir \<noteq> [] then '' on '' @ dir else []))]"
    using partitionIsMounted_log [of E part dir w1] m by simp
  have m': "m \<longleftrightarrow> e_exit E (w_log w2) = 0"
    using m l2 by (auto simp: partitionIsMounted_def execute_def Let_def)
  show ?thesis
  proof (cases m)
    case True
    then have "mountPartition E part dir args w = (True, w2)"
      using m by (simp add: mountPartition_def w1_def [symmetric] Let_def)
    with True m' l1 l2 show ?thesis by force
  next
    case False
    with assms m have e: "file_exists w2 part \<and> file_exists w2 dir"
      by (auto simp: mountPartition_def w1_def [symmetric] Let_def split: if_splits)
    then have "mountPartition E part dir args w =
        (let (rc, w3) = execute E (''mount '' @ args @ '' '' @ part @ '' '' @ dir) w2 in (rc = 0, w3))"
      using m False by (simp add: mountPartition_def w1_def [symmetric] Let_def)
    with assms l1 l2 show ?thesis by (force simp: execute_def Let_def)
  qed
qed

end
