(* ===== verification/JsonUtil.thy ===== *)
theory JsonUtil
  imports OrdMap SysUtil
begin

text \<open>
  \<open>recovery/Utility.h\<close> (\<open>parseEntry\<close>) and \<open>recovery/Utility_Json.cpp\<close>. A JSON value is a
  \<open>QVariant\<close>; its conversions and the QJson parser and serializer are third-party code, so the
  type of values is a type variable and the conversions are a record of functions.
\<close>

type_synonym 'v json = "(string, 'v) ordmap"

record 'v qv =
  can_bytes :: "'v \<Rightarrow> bool"
  to_bytes :: "'v \<Rightarrow> string"
  can_string :: "'v \<Rightarrow> bool"
  to_string :: "'v \<Rightarrow> string"
  can_int :: "'v \<Rightarrow> bool"
  to_int :: "'v \<Rightarrow> int"
  can_bool :: "'v \<Rightarrow> bool"
  to_bool :: "'v \<Rightarrow> bool"
  can_strlist :: "'v \<Rightarrow> bool"
  to_strlist :: "'v \<Rightarrow> string list"
  can_list :: "'v \<Rightarrow> bool"
  to_list :: "'v \<Rightarrow> 'v list"
  can_map :: "'v \<Rightarrow> bool"
  to_map :: "'v \<Rightarrow> 'v json"
  qv_invalid :: 'v
  qv_parse :: "string \<Rightarrow> bool \<times> 'v"              \<comment> \<open>\<open>QJson::Parser::parse\<close> with its \<open>ok\<close> flag\<close>
  qv_serialize :: "'v \<Rightarrow> bool \<times> string"         \<comment> \<open>\<open>QJson::Serializer::serialize\<close>\<close>
  from_string :: "string \<Rightarrow> 'v"
  from_int :: "int \<Rightarrow> 'v"
  from_bool :: "bool \<Rightarrow> 'v"
  from_list :: "'v list \<Rightarrow> 'v"
  from_map :: "'v json \<Rightarrow> 'v"

text \<open>\<open>parseEntry<T>\<close>: the flag it returns and the new content of \<open>*target\<close>.\<close>

definition parseEntry :: "('v \<Rightarrow> bool) \<Rightarrow> ('v \<Rightarrow> 't) \<Rightarrow> 'v json \<Rightarrow> string \<Rightarrow> 't \<Rightarrow> bool \<Rightarrow> bool \<times> 't" where
  "parseEntry can val source key target optional =
     (if om_contains source key then
        (case om_find source key of
           Some v \<Rightarrow> if can v then (True, val v) else (False, target)
         | None \<Rightarrow> (False, target))
      else if optional then (True, target) else (False, target))"

definition parseJson :: "'v qv \<Rightarrow> string \<Rightarrow> 'v json" where
  "parseJson Q s = (let (ok, v) = qv_parse Q s in if \<not> ok then [] else to_map Q v)"

definition loadFromFile :: "'v qv \<Rightarrow> world \<Rightarrow> string \<Rightarrow> 'v" where
  "loadFromFile Q w filename =
     (case w_files w filename of
        None \<Rightarrow> qv_invalid Q
      | Some c \<Rightarrow> (let (ok, v) = qv_parse Q c in if \<not> ok then qv_invalid Q else v))"

definition saveToFile :: "'v qv \<Rightarrow> env \<Rightarrow> string \<Rightarrow> 'v \<Rightarrow> world \<Rightarrow> bool \<times> world" where
  "saveToFile Q E filename json w =
     (if \<not> e_open_write E (w_log w) filename then (False, w)
      else let (ok, s) = qv_serialize Q json;
               (_, w') = write_file E filename s w
           in (ok, w'))"

lemma parseEntry_found:
  "om_find m k = Some v \<Longrightarrow> can v \<Longrightarrow> parseEntry can val m k t opt = (True, val v)"
  by (simp add: parseEntry_def om_contains_def)

lemma parseEntry_wrong_type:
  "om_find m k = Some v \<Longrightarrow> \<not> can v \<Longrightarrow> parseEntry can val m k t opt = (False, t)"
  by (simp add: parseEntry_def om_contains_def)

lemma parseEntry_missing: "om_find m k = None \<Longrightarrow> parseEntry can val m k t opt = (opt, t)"
  by (simp add: parseEntry_def om_contains_def)

lemmas parseEntry_cases = parseEntry_found parseEntry_wrong_type parseEntry_missing

text \<open>A failed parse leaves the target alone; a success either leaves it (optional, absent) or converts.\<close>

lemma parseEntry_False: "parseEntry can val m k t opt = (False, t') \<Longrightarrow> t' = t"
  by (auto simp: parseEntry_def split: if_splits option.splits)

lemma parseEntry_True:
  "parseEntry can val m k t opt = (True, t') \<Longrightarrow>
     (om_find m k = None \<and> opt \<and> t' = t) \<or> (\<exists>v. om_find m k = Some v \<and> can v \<and> t' = val v)"
  by (auto simp: parseEntry_def om_contains_def split: if_splits option.splits)

lemma parseEntry_required:
  "parseEntry can val m k t False = (True, t') \<longleftrightarrow> (\<exists>v. om_find m k = Some v \<and> can v \<and> t' = val v)"
  by (auto simp: parseEntry_def om_contains_def split: if_splits option.splits)

end
