(* ===== verification/PartInfo.thy ===== *)
theory PartInfo
  imports JsonUtil
begin

text \<open>
  \<open>recovery/PartitionInfo.h\<close>, \<open>PartitionInfo.cpp\<close>: the description of one partition, its two
  constructors, and mounting. Objects are shared through pointers (the list of an OS and the
  partition map of the installer), so they live in a heap and a pointer is an index into it.
\<close>

record pinfo =
  p_fstype :: string
  p_mkfsOptions :: string
  p_label :: string
  p_partitionDevice :: string
  p_partitionType :: string
  p_tarball :: string
  p_mountedDir :: string
  p_partitionSizeNominal :: int
  p_requiresPartitionNumber :: int
  p_offset :: int
  p_uncompressedTarballSize :: int
  p_partitionSizeSectors :: int
  p_emptyFS :: bool
  p_wantMaximised :: bool
  p_active :: bool
  p_valid :: bool

type_synonym ptr = nat
type_synonym heap = "pinfo list"

definition endSector :: "pinfo \<Rightarrow> int" where
  "endSector p = p_offset p + p_partitionSizeSectors p"

text \<open>
  The members the constructor from JSON initialises. \<open>_partitionSizeSectors\<close> and \<open>_valid\<close> are
  not in its initialiser list: \<open>_valid\<close> is assigned in the body, the size keeps an
  indeterminate value, the argument \<open>junk\<close>.
\<close>

definition pinfo_init :: "string \<Rightarrow> int \<Rightarrow> pinfo" where
  "pinfo_init tarball junk =
     \<lparr>p_fstype = [], p_mkfsOptions = [], p_label = [], p_partitionDevice = [], p_partitionType = [],
      p_tarball = tarball, p_mountedDir = [], p_partitionSizeNominal = 0,
      p_requiresPartitionNumber = 0, p_offset = 0, p_uncompressedTarballSize = 0,
      p_partitionSizeSectors = junk, p_emptyFS = False, p_wantMaximised = False,
      p_active = False, p_valid = False\<rparr>"

definition defaultPartitionType :: "string \<Rightarrow> string" where
  "defaultPartitionType fs =
     (if contains_ci fs ''fat'' then ''0c''
      else if contains_ci fs ''swap'' then ''82''
      else if contains_ci fs ''ntfs'' then ''07''
      else ''83'')"

definition parsePartitionInfo :: "'v qv \<Rightarrow> 'v json \<Rightarrow> pinfo \<Rightarrow> bool \<times> pinfo" where
  "parsePartitionInfo Q m p0 =
     (let bytes = parseEntry (can_bytes Q) (to_bytes Q) m;
          int = parseEntry (can_int Q) (to_int Q) m;
          bool = parseEntry (can_bool Q) (to_bool Q) m;
          (ok, fs) = bytes ''filesystem_type'' (p_fstype p0) False
      in if \<not> ok then (False, p0)
         else
           let p1 = p0\<lparr>p_fstype := fs\<rparr>;
               (okt, pt) = bytes ''partition_type'' (p_partitionType p1) False;
               p2 = p1\<lparr>p_partitionType := (if okt then pt else defaultPartitionType fs)\<rparr>;
               p3 = p2\<lparr>p_mkfsOptions := snd (bytes ''mkfs_options'' (p_mkfsOptions p2) True)\<rparr>;
               p4 = p3\<lparr>p_label := snd (bytes ''label'' (p_label p3) True)\<rparr>;
               p5 = p4\<lparr>p_offset := snd (int ''offset_in_sectors'' (p_offset p4) True)\<rparr>;
               p6 = p5\<lparr>p_partitionSizeNominal :=
                      snd (int ''partition_size_nominal'' (p_partitionSizeNominal p5) True)\<rparr>;
               p7 = p6\<lparr>p_requiresPartitionNumber :=
                      snd (int ''requires_partition_number'' (p_requiresPartitionNumber p6) True)\<rparr>;
               p8 = p7\<lparr>p_uncompressedTarballSize :=
                      snd (int ''uncompressed_tarball_size'' (p_uncompressedTarballSize p7) True)\<rparr>;
               p9 = p8\<lparr>p_wantMaximised := snd (bool ''want_maximised'' (p_wantMaximised p8) True)\<rparr>;
               p10 = p9\<lparr>p_emptyFS := snd (bool ''empty_fs'' (p_emptyFS p9) True)\<rparr>;
               p11 = p10\<lparr>p_active := snd (bool ''active'' (p_active p10) True)\<rparr>
           in (True, p11))"

definition mkPartitionInfo :: "'v qv \<Rightarrow> int \<Rightarrow> 'v json \<Rightarrow> string \<Rightarrow> pinfo" where
  "mkPartitionInfo Q junk m tarball =
     (let (ok, p) = parsePartitionInfo Q m (pinfo_init tarball junk) in p\<lparr>p_valid := ok\<rparr>)"

text \<open>
  The second constructor (system partitions). It leaves \<open>_partitionSizeNominal\<close>,
  \<open>_uncompressedTarballSize\<close>, \<open>_emptyFS\<close>, \<open>_wantMaximised\<close> and \<open>_valid\<close>
  uninitialised: they are those of the argument \<open>junk\<close>.
\<close>

definition mkSystemPartition :: "pinfo \<Rightarrow> int \<Rightarrow> int \<Rightarrow> int \<Rightarrow> string \<Rightarrow> pinfo" where
  "mkSystemPartition junk nr off sectors ptype =
     junk\<lparr>p_fstype := [], p_mkfsOptions := [], p_label := [], p_partitionDevice := [],
          p_partitionType := ptype, p_tarball := [], p_mountedDir := [],
          p_requiresPartitionNumber := nr, p_offset := off, p_partitionSizeSectors := sectors,
          p_active := False\<rparr>"

definition pi_mountPartition :: "env \<Rightarrow> pinfo \<Rightarrow> string \<Rightarrow> string \<Rightarrow> world \<Rightarrow> bool \<times> pinfo \<times> world" where
  "pi_mountPartition E p dir args w =
     (if p_mountedDir p \<noteq> [] then (False, p, w)
      else if p_partitionDevice p = [] then (False, p, w)
      else
        let mountCMD = (if p_fstype p = ''ntfs'' then ''/sbin/mount.ntfs-3g '' else ''mount '')
        in if file_exists w dir \<and> file_exists w (p_partitionDevice p) then
             let (rc, w1) = execute E (mountCMD @ '' '' @ args @ '' '' @ p_partitionDevice p @ '' '' @ dir) w
             in if rc = 0 then (True, p\<lparr>p_mountedDir := dir\<rparr>, w1) else (False, p, w1)
           else (False, p, w))"

definition pi_unmountPartition :: "env \<Rightarrow> pinfo \<Rightarrow> world \<Rightarrow> bool \<times> pinfo \<times> world" where
  "pi_unmountPartition E p w =
     (if p_mountedDir p \<noteq> [] then
        let (rc, w1) = execute E (''umount '' @ p_mountedDir p) w
        in if rc = 0 then (True, p\<lparr>p_mountedDir := []\<rparr>, w1) else (False, p, w1)
      else (True, p, w))"

section \<open>Facts\<close>

lemma parseEntry_required_fst:
  "fst (parseEntry can val m k t False) \<longleftrightarrow> (\<exists>v. om_find m k = Some v \<and> can v)"
  by (cases "om_find m k") (auto simp: parseEntry_def om_contains_def)

lemma parsePartitionInfo_fst:
  "fst (parsePartitionInfo Q m p) \<longleftrightarrow>
     fst (parseEntry (can_bytes Q) (to_bytes Q) m ''filesystem_type'' (p_fstype p) False)"
  by (simp add: parsePartitionInfo_def Let_def case_prod_unfold)

lemma parsePartitionInfo_ok_iff:
  "fst (parsePartitionInfo Q m p) \<longleftrightarrow> (\<exists>v. om_find m ''filesystem_type'' = Some v \<and> can_bytes Q v)"
  by (simp add: parsePartitionInfo_fst parseEntry_required_fst)

lemma mkPartitionInfo_valid:
  "p_valid (mkPartitionInfo Q j m t) \<longleftrightarrow> (\<exists>v. om_find m ''filesystem_type'' = Some v \<and> can_bytes Q v)"
  by (simp add: mkPartitionInfo_def case_prod_unfold parsePartitionInfo_ok_iff Let_def)

lemma mkPartitionInfo_frame:
  "p_tarball (mkPartitionInfo Q j m t) = t"
  "p_mountedDir (mkPartitionInfo Q j m t) = []"
  "p_partitionDevice (mkPartitionInfo Q j m t) = []"
  by (simp_all add: mkPartitionInfo_def parsePartitionInfo_def pinfo_init_def Let_def case_prod_unfold)

lemma mkPartitionInfo_fstype:
  assumes "om_find m ''filesystem_type'' = Some v" and "can_bytes Q v"
  shows "p_fstype (mkPartitionInfo Q j m t) = to_bytes Q v"
  using assms
  by (simp add: mkPartitionInfo_def parsePartitionInfo_def Let_def case_prod_unfold parseEntry_found)

lemma mkPartitionInfo_default_type:
  assumes "om_find m ''filesystem_type'' = Some v" and "can_bytes Q v"
    and "om_find m ''partition_type'' = None"
  shows "p_partitionType (mkPartitionInfo Q j m t) = defaultPartitionType (to_bytes Q v)"
  using assms
  by (simp add: mkPartitionInfo_def parsePartitionInfo_def Let_def case_prod_unfold
      parseEntry_found parseEntry_missing)

text \<open>Mounting twice is refused, and a mount can be undone.\<close>

lemma mount_then_mount:
  assumes "fst (pi_mountPartition E p dir args w)" and "dir \<noteq> []"
  defines "p1 \<equiv> fst (snd (pi_mountPartition E p dir args w))"
  shows "pi_mountPartition E p1 dir2 args2 w' = (False, p1, w')"
  using assms by (auto simp: pi_mountPartition_def execute_def Let_def split: if_splits)

lemma mount_then_unmount:
  assumes "pi_mountPartition E p dir args w = (True, p1, w1)" and "dir \<noteq> []"
    and "pi_unmountPartition E p1 w2 = (True, p2, w3)"
  shows "p2 = p"
  using assms by (auto simp: pi_mountPartition_def pi_unmountPartition_def execute_def Let_def split: if_splits)

end
