(* ===== verification/Install.thy ===== *)
theory Install
  imports PartInfo "HOL-Library.Multiset"
begin

text \<open>
  The planning half of \<open>recovery/InstallManager.cpp\<close>: \<open>prepareImage\<close>, \<open>checkImage\<close>,
  \<open>checkPartition\<close> and \<open>calculateSpaceRequirements\<close>. The members of \<open>InstallManager\<close> are a
  record; the \<open>PartitionInfo\<close> objects live in the heap \<open>im_heap\<close>. Sizes are C \<open>int\<close>s, modelled
  as integers.
\<close>

definition PARTITION_ALIGNMENT :: int where "PARTITION_ALIGNMENT = 8192"
definition PARTITION_GAP :: int where "PARTITION_GAP = 2"
definition RISCOS_OFFSET :: int where "RISCOS_OFFSET = 1760"
definition RISCOS_SECTOR_OFFSET :: int where "RISCOS_SECTOR_OFFSET = RISCOS_OFFSET * 2048"

record imst =
  im_extraSpacePerPartition :: int
  im_part :: int
  im_totalnominalsize :: int
  im_totaluncompressedsize :: int
  im_numparts :: int
  im_numexpandparts :: int
  im_startSector :: int
  im_totalSectors :: int
  im_availableMB :: int
  im_partitionMap :: "(int, ptr) ordmap"
  im_heap :: heap

definition im_get :: "imst \<Rightarrow> ptr \<Rightarrow> pinfo" where
  "im_get s p = im_heap s ! p"

definition im_set :: "ptr \<Rightarrow> (pinfo \<Rightarrow> pinfo) \<Rightarrow> imst \<Rightarrow> imst" where
  "im_set p f s = s\<lparr>im_heap := (im_heap s)[p := f (im_get s p)]\<rparr>"

text \<open>
  The constructor: the sizes are read from sysfs as \<open>qulonglong\<close> (the conversion \<open>toull\<close> is
  Qt's) and stored into \<open>int\<close> members, which keeps the low 32 bits.
\<close>

definition to_i32 :: "int \<Rightarrow> int" where
  "to_i32 x = sint (of_int x :: 32 word)"

definition mkInstallManager :: "(string \<Rightarrow> nat) \<Rightarrow> world \<Rightarrow> heap \<Rightarrow> imst" where
  "mkInstallManager toull w h =
     (let start = to_i32 ((int (toull (trimmed (getFileContents w ''/sys/class/block/mmcblk0p5/start'')))
                  + int (toull (trimmed (getFileContents w ''/sys/class/block/mmcblk0p5/size'')))) mod 2 ^ 64);
          tot = to_i32 (int (toull (trimmed (getFileContents w ''/sys/class/block/mmcblk0/size''))))
      in \<lparr>im_extraSpacePerPartition = 0, im_part = 5, im_totalnominalsize = 0,
          im_totaluncompressedsize = 0, im_numparts = 0, im_numexpandparts = 0,
          im_startSector = start, im_totalSectors = tot,
          im_availableMB = (tot - start) sdiv 2048, im_partitionMap = [], im_heap = h\<rparr>)"

definition InstallManager_init :: "(string \<Rightarrow> nat) \<Rightarrow> env \<Rightarrow> heap \<Rightarrow> world \<Rightarrow> imst \<times> world" where
  "InstallManager_init toull E h w =
     (let s = mkInstallManager toull w h;
          (_, w1) = mountSystemsPartition E w;
          w2 = (if \<not> file_exists w1 ''/mnt2'' then make_dir E ''/mnt2'' w1 else w1)
      in (s, w2))"

section \<open>Checking the partitions of an image\<close>

definition requiredPart :: "imst \<Rightarrow> pinfo \<Rightarrow> int" where
  "requiredPart s p =
     (if p_requiresPartitionNumber p = 0 then
        (if im_partitionMap s = [] then 6 else max (last (om_keys (im_partitionMap s))) 5 + 1)
      else p_requiresPartitionNumber p)"

text \<open>
  \<open>checkPartition\<close>. The argument \<open>overhead\<close> is the C computation
  \<open>(int) (a + 0.01 * b)\<close> in double precision; its result only reaches a log message.
\<close>

definition checkPartition :: "(int \<Rightarrow> int \<Rightarrow> int) \<Rightarrow> ptr \<Rightarrow> imst \<Rightarrow> bool \<times> imst" where
  "checkPartition overhead pp s0 =
     (let p = im_get s0 pp;
          s1 = s0\<lparr>im_numparts := im_numparts s0 + 1\<rparr>;
          s2 = (if p_wantMaximised p then s1\<lparr>im_numexpandparts := im_numexpandparts s1 + 1\<rparr> else s1);
          s3 = s2\<lparr>im_totalnominalsize := im_totalnominalsize s2 + p_partitionSizeNominal p,
                  im_totaluncompressedsize := im_totaluncompressedsize s2 + p_uncompressedTarballSize p\<rparr>;
          s4 = (if p_fstype p = ''ext4'' then
                  s3\<lparr>im_totaluncompressedsize :=
                       overhead (im_totaluncompressedsize s3) (im_totalnominalsize s3)\<rparr>
                else s3);
          reqPart = requiredPart s4 p
      in if om_contains (im_partitionMap s4) reqPart then (False, s4)
         else if reqPart = 1 \<or> reqPart = 5 then (False, s4)
         else if (reqPart = 2 \<and> om_contains (im_partitionMap s4) 4) \<or>
                 (reqPart = 4 \<and> om_contains (im_partitionMap s4) 2) then (False, s4)
         else
           let s5 = im_set pp (\<lambda>q. q\<lparr>p_partitionDevice := ''/dev/mmcblk0p'' @ int_str reqPart\<rparr>) s4;
               s6 = s5\<lparr>im_partitionMap := om_insert reqPart pp (im_partitionMap s5)\<rparr>;
               s7 = (if p_wantMaximised p \<or> (p_partitionSizeNominal p * 2048) smod PARTITION_ALIGNMENT \<noteq> 0
                     then s6\<lparr>im_totalnominalsize := im_totalnominalsize s6 + PARTITION_ALIGNMENT sdiv 2048\<rparr>
                     else s6)
           in (True, s7))"

fun checkPartitions :: "(int \<Rightarrow> int \<Rightarrow> int) \<Rightarrow> ptr list \<Rightarrow> imst \<Rightarrow> bool \<times> imst" where
  "checkPartitions ov [] s = (True, s)"
| "checkPartitions ov (p # ps) s =
     (let (ok, s') = checkPartition ov p s in if \<not> ok then (False, s') else checkPartitions ov ps s')"

definition checkImage :: "(int \<Rightarrow> int \<Rightarrow> int) \<Rightarrow> string \<Rightarrow> ptr list \<Rightarrow> imst \<Rightarrow> bool \<times> imst" where
  "checkImage ov name parts s =
     (if parts = [] then (False, s)
      else if contains_ci name ''risc'' then
        (if im_startSector s > RISCOS_SECTOR_OFFSET - 2048 then (False, s)
         else
           let s1 = s\<lparr>im_totalnominalsize :=
                        im_totalnominalsize s + (RISCOS_SECTOR_OFFSET - im_startSector s) sdiv 2048\<rparr>;
               s2 = im_set (hd parts) (\<lambda>q. q\<lparr>p_requiresPartitionNumber := 6, p_offset := RISCOS_SECTOR_OFFSET\<rparr>) s1;
               s3 = im_set (last parts) (\<lambda>q. q\<lparr>p_requiresPartitionNumber := 7\<rparr>) s2
           in checkPartitions ov parts s3)
      else checkPartitions ov parts s)"

section \<open>Laying the partitions out\<close>

definition moveFirst :: "int \<Rightarrow> imst \<Rightarrow> ptr list \<Rightarrow> ptr list" where
  "moveFirst n s ps =
     (if ps \<noteq> [] \<and> p_requiresPartitionNumber (im_get s (hd ps)) = n then tl ps @ [hd ps] else ps)"

definition logBeforePrim :: "imst \<Rightarrow> ptr list" where
  "logBeforePrim s = moveFirst 4 s (moveFirst 3 s (moveFirst 2 s (om_values (im_partitionMap s))))"

text \<open>The start of a partition: its fixed offset, or the next aligned sector after the gap.\<close>

definition alignUp :: "int \<Rightarrow> int" where
  "alignUp off =
     (if off smod PARTITION_ALIGNMENT \<noteq> 0
      then off + (PARTITION_ALIGNMENT - off smod PARTITION_ALIGNMENT) else off)"

definition placeOffset :: "int \<Rightarrow> pinfo \<Rightarrow> int option" where
  "placeOffset off p =
     (if p_offset p \<noteq> 0 then (if p_offset p \<le> off then None else Some (p_offset p))
      else Some (alignUp (off + PARTITION_GAP)))"

definition placeSize :: "int \<Rightarrow> int \<Rightarrow> bool \<Rightarrow> int \<Rightarrow> pinfo \<Rightarrow> int" where
  "placeSize extra tot isLast off p =
     (let partsizeMB = p_partitionSizeNominal p + (if p_wantMaximised p then extra else 0);
          n0 = partsizeMB * 2048
      in if isLast then
           let spaceleft = tot - off - n0
           in if spaceleft > 0 \<and> p_wantMaximised p then n0 + spaceleft else n0
         else
           let n1 = (if n0 smod PARTITION_ALIGNMENT = 0 \<and> p_fstype p \<noteq> ''raw'' then n0 - PARTITION_GAP else n0)
           in if p_wantMaximised p \<and> (n1 + PARTITION_GAP) smod PARTITION_ALIGNMENT \<noteq> 0
              then n1 + (PARTITION_ALIGNMENT - (n1 + PARTITION_GAP) smod PARTITION_ALIGNMENT)
              else n1)"

fun layoutLoop :: "ptr \<Rightarrow> ptr list \<Rightarrow> int \<Rightarrow> imst \<Rightarrow> bool \<times> imst" where
  "layoutLoop lastp [] off s = (True, s)"
| "layoutLoop lastp (p # ps) off s =
     (case placeOffset off (im_get s p) of
        None \<Rightarrow> (False, s)
      | Some o1 \<Rightarrow>
          let s1 = im_set p (\<lambda>q. q\<lparr>p_offset := o1\<rparr>) s;
              n = placeSize (im_extraSpacePerPartition s1) (im_totalSectors s1) (p = lastp) o1 (im_get s1 p);
              s2 = im_set p (\<lambda>q. q\<lparr>p_partitionSizeSectors := n\<rparr>) s1
          in layoutLoop lastp ps (o1 + n) s2)"

definition calculateSpaceRequirements :: "imst \<Rightarrow> bool \<times> imst" where
  "calculateSpaceRequirements s =
     (let s1 = (if im_numexpandparts s \<noteq> 0 then
                  s\<lparr>im_extraSpacePerPartition :=
                      (im_availableMB s - im_totalnominalsize s) sdiv im_numexpandparts s\<rparr>
                else s)
      in if im_totalnominalsize s1 > im_availableMB s1 then (False, s1)
         else let ps = logBeforePrim s1
              in layoutLoop (last ps) ps (im_startSector s1) s1)"

definition prepareImage :: "(int \<Rightarrow> int \<Rightarrow> int) \<Rightarrow> string \<Rightarrow> ptr list \<Rightarrow> imst \<Rightarrow> bool \<times> imst" where
  "prepareImage ov name parts s =
     (let (ok, s1) = checkImage ov name parts s
      in if \<not> ok then (False, s1)
         else let (ok2, s2) = calculateSpaceRequirements s1
              in if \<not> ok2 then (False, s2) else (True, s2))"

end
