(* ===== verification/WebMsg.thy ===== *)
theory WebMsg
  imports OrdMap
begin

text \<open>
  \<open>recovery/libs/Web/Web.h\<close>, \<open>Web.cpp\<close>: an HTTP message, its textual form, its parser and the
  blocking read from a socket. What a socket delivers is the list of outcomes of the successive
  \<open>select\<close>/\<open>read\<close> rounds; after the list nothing arrives any more and \<open>select\<close> keeps timing
  out.
\<close>

section \<open>Splitting\<close>

fun split :: "string \<Rightarrow> char \<Rightarrow> string list" where
  "split [] sep = [[]]"
| "split (c # s) sep =
     (if c = sep then [] # split s sep
      else (case split s sep of [] \<Rightarrow> [[c]] | t # ts \<Rightarrow> (c # t) # ts))"

fun join :: "char \<Rightarrow> string list \<Rightarrow> string" where
  "join sep [] = []"
| "join sep [t] = t"
| "join sep (t # ts) = t @ sep # join sep ts"

lemma split_not_Nil [simp]: "split s sep \<noteq> []"
  by (cases s) (auto split: list.splits)

lemma join_Cons: "ts \<noteq> [] \<Longrightarrow> join sep (t # ts) = t @ sep # join sep ts"
  by (cases ts) auto

lemma join_split [simp]: "join sep (split s sep) = s"
proof (induction s)
  case (Cons c s)
  then show ?case
    by (cases "split s sep") (auto simp: join_Cons split: list.splits, (metis append_Cons join.simps(2) join_Cons)?)
qed simp

lemma split_no_sep: "\<forall>t \<in> set (split s sep). sep \<notin> set t"
proof (induction s)
  case (Cons c s)
  then show ?case by (cases "split s sep") auto
qed simp

lemma split_token: "sep \<notin> set t \<Longrightarrow> split t sep = [t]"
  by (induction t) auto

lemma split_append: "sep \<notin> set t \<Longrightarrow> split (t @ sep # s) sep = t # split s sep"
  by (induction t) auto

lemma split_join: "ts \<noteq> [] \<Longrightarrow> \<forall>t \<in> set ts. sep \<notin> set t \<Longrightarrow> split (join sep ts) sep = ts"
proof (induction sep ts rule: join.induct)
  case (3 sep t u us)
  then show ?case using split_append [of sep t "join sep (u # us)"] by simp
qed (auto simp: split_token)

lemma length_split: "length (split s sep) = Suc (length (filter (\<lambda>c. c = sep) s))"
proof (induction s)
  case (Cons c s)
  then show ?case by (cases "split s sep") auto
qed simp

section \<open>Messages\<close>

text \<open>\<open>CR\<close>, \<open>LF\<close> and the terminating \<open>NUL\<close> of C strings.\<close>

definition CR :: char where "CR = CHR 0x0D"
definition LF :: char where "LF = CHR 0x0A"
definition NUL :: char where "NUL = CHR 0x00"

record message =
  headerLine :: string
  header :: "(string, string) ordmap"
  body :: string

definition empty_message :: message where
  "empty_message = \<lparr>headerLine = [], header = [], body = []\<rparr>"

section \<open>Parsing\<close>

text \<open>\<open>getline\<close> until the stream ends: a last line without terminator counts if it is not empty.\<close>

definition getlines :: "string \<Rightarrow> string list" where
  "getlines s = (let ts = split s LF in if last ts = [] then butlast ts else ts)"

definition parseHeaderLine :: "string \<Rightarrow> message \<Rightarrow> bool \<times> message" where
  "parseHeaderLine line m =
     (let v = split line (CHR '':'') in
      if length v \<ge> 2 then
        let key = v ! 0;
            value = foldl (\<lambda>a t. a @ '':'' @ t) (v ! 1) (drop 2 v);
            value' = (if value \<noteq> [] \<and> hd value = CHR '' '' then tl value else value)
        in (True, m\<lparr>header := om_insert key value' (header m)\<rparr>)
      else (True, m))"

definition parseBodyLine :: "string \<Rightarrow> message \<Rightarrow> bool \<times> message" where
  "parseBodyLine line m = (True, m\<lparr>body := body m @ line @ [LF]\<rparr>)"

fun parseLines :: "string list \<Rightarrow> bool \<Rightarrow> bool \<Rightarrow> message \<Rightarrow> bool \<times> message" where
  "parseLines [] inHeader methodLine m = (\<not> inHeader, m)"
| "parseLines (l # ls) inHeader methodLine m =
     (if inHeader then
        (if methodLine then parseLines ls True False (m\<lparr>headerLine := l\<rparr>)
         else if \<not> (l = [CR]) then
           (let (ok, m') = parseHeaderLine l m
            in if \<not> ok then (False, m') else parseLines ls True False m')
         else parseLines ls False methodLine m)
      else
        (let (ok, m') = parseBodyLine l m
         in if \<not> ok then (False, m') else parseLines ls False methodLine m'))"

definition parseReceive :: "string \<Rightarrow> bool \<Rightarrow> message \<Rightarrow> bool \<times> message" where
  "parseReceive buffer skipHeader m = parseLines (getlines buffer) (\<not> skipHeader) True m"

section \<open>Sending\<close>

definition cstr :: "string \<Rightarrow> string" where
  "cstr s = takeWhile (\<lambda>c. c \<noteq> NUL) s"

definition HEADER_BUFFER :: nat where "HEADER_BUFFER = 4096"
definition BUFFER_SIZE :: nat where "BUFFER_SIZE = 4096"

definition CRLF :: string where "CRLF = [CR, LF]"

definition headerText :: "message \<Rightarrow> string" where
  "headerText m = cstr (headerLine m) @ CRLF @
     concat (map (\<lambda>(k, v). cstr k @ '': '' @ cstr v @ CRLF) (header m)) @ CRLF"

text \<open>
  \<open>send\<close>: \<open>sprintf\<close> and \<open>strcat\<close> write the header and its terminating NUL into a stack buffer of
  \<open>HEADER_BUFFER\<close> bytes without a bound. \<open>None\<close> is the overflow of that buffer (undefined
  behaviour); otherwise the two strings passed to \<open>write\<close>.
\<close>

definition send :: "message \<Rightarrow> (string \<times> string) option" where
  "send m = (if length (headerText m) + 1 > HEADER_BUFFER then None
             else Some (headerText m, cstr (body m)))"

definition sendOk :: "int \<Rightarrow> int \<Rightarrow> bool" where
  "sendOk t1 t2 \<longleftrightarrow> \<not> (t1 + t2 \<le> 0)"

section \<open>Reading from the socket\<close>

datatype round = SelectError | Timeout | ReadError | Chunk string

text \<open>
  What \<open>bufferString->append(buffer)\<close> appends: the C string in the zeroed static buffer. A full
  buffer without NUL has no terminator, so the append runs into the memory behind it, \<open>behind\<close>.
\<close>

definition appended :: "string \<Rightarrow> string \<Rightarrow> string" where
  "appended behind c =
     (if BUFFER_SIZE \<le> length c \<and> NUL \<notin> set c then c @ cstr behind else cstr c)"

fun readReceive :: "string \<Rightarrow> round list \<Rightarrow> string \<Rightarrow> int \<Rightarrow> bool \<times> string \<times> int \<times> round list" where
  "readReceive behind [] buf n = (True, buf, n, [])"
| "readReceive behind (SelectError # r) buf n = (False, buf, n - 1, r)"
| "readReceive behind (Timeout # r) buf n = (True, buf, n, r)"
| "readReceive behind (ReadError # r) buf n = (False, buf, n - 1, r)"
| "readReceive behind (Chunk c # r) buf n =
     (if c = [] then (True, buf, n, r)
      else readReceive behind r (buf @ appended behind c) (n + int (length c)))"

lemma readReceive_shorter:
  "readReceive behind rs buf n = (ok, buf', n', rs') \<Longrightarrow> length rs' < length rs \<or> rs = []"
  by (induction behind rs buf n rule: readReceive.induct) (auto split: if_splits)

lemma readReceive_length: "length (snd (snd (snd (readReceive behind rs buf n)))) \<le> length rs"
  by (induction behind rs buf n rule: readReceive.induct) auto

text \<open>\<open>std::stoi\<close>: leading blanks, a sign, digits; \<open>None\<close> is the exception it throws.\<close>

definition stoi :: "string \<Rightarrow> int option" where
  "stoi s0 =
     (let s = dropWhile is_space s0;
          neg = (s \<noteq> [] \<and> hd s = CHR ''-'');
          s1 = (if s \<noteq> [] \<and> (hd s = CHR ''-'' \<or> hd s = CHR ''+'') then tl s else s);
          ds = takeWhile is_digit s1;
          v = (if neg then - int (digits_val ds) else int (digits_val ds))
      in if ds = [] then None
         else if v < - (2 ^ 31) \<or> 2 ^ 31 \<le> v then None else Some v)"

datatype recv_result =
    Hang            \<comment> \<open>the loop never leaves\<close>
  | Throw           \<comment> \<open>an exception of \<open>stoi\<close> leaves the function\<close>
  | Done bool message int "round list"

text \<open>The \<open>do \<dots> while\<close> that reads the rest of a message.\<close>

function continueRead :: "string \<Rightarrow> int \<Rightarrow> round list \<Rightarrow> string \<Rightarrow> int \<Rightarrow> (bool \<times> string \<times> int \<times> round list) option" where
  "continueRead behind msize rs buf n =
     (case readReceive behind rs buf n of (ok, buf', n', rs') \<Rightarrow>
        if \<not> ok then Some (False, buf', n', rs')
        else if msize \<noteq> -1 \<and> n' < msize then
          (if rs = [] then None else continueRead behind msize rs' buf' n')
        else Some (True, buf', n', rs'))"
  by pat_completeness auto
termination
  by (relation "measure (\<lambda>(b, s, rs, buf, n). length rs)") (auto dest: readReceive_shorter [OF sym])

declare continueRead.simps [simp del]

definition continueMessage :: message where
  "continueMessage = empty_message\<lparr>headerLine := ''HTTP/1.0 100 Continue''\<rparr>"

definition receive :: "string \<Rightarrow> round list \<Rightarrow> recv_result" where
  "receive behind rs =
     (case readReceive behind rs [] 0 of (ok, buf, n, rs1) \<Rightarrow>
        if \<not> ok then Done False empty_message n rs1
        else
          case parseReceive buf False empty_message of (okp, m) \<Rightarrow>
            if \<not> okp then Done False m n rs1
            else
              let expect = (om_find (header m) ''Expect'' = Some (''100-continue'' @ [CR]));
                  finish = (\<lambda>msize m1.
                         case continueRead behind msize rs1 [] n of
                           None \<Rightarrow> Hang
                         | Some (ok2, buf2, n2, rs2) \<Rightarrow>
                             if \<not> ok2 then Done False m1 n2 rs2
                             else case parseReceive buf2 True m1 of (okq, m2) \<Rightarrow> Done okq m2 n2 rs2)
              in case om_find (header m) ''Content-Length'' of
                        None \<Rightarrow> if expect then finish (-1) m else Done True m n rs1
                      | Some cl \<Rightarrow>
                          case stoi cl of
                            None \<Rightarrow> Throw
                          | Some len \<Rightarrow>
                              if len > n then finish len (m\<lparr>body := butlast (body m)\<rparr>)
                              else if expect then finish (-1) m
                              else Done True m n rs1)"

end
