(* ===== verification/WebClient.thy ===== *)
theory WebClient
  imports WebMsg
begin

text \<open>
  \<open>recovery/libs/Web/WebClient.h\<close>, \<open>WebClient.cpp\<close>: the blocking HTTP GET. The network is a
  function from host and port to a connection (\<open>openSocket\<close>: name lookup, \<open>socket\<close>,
  \<open>connect\<close>), and from the connection and the bytes sent to the read rounds that follow.
\<close>

record net =
  net_resolve :: "string \<Rightarrow> bool"              \<comment> \<open>\<open>gethostbyname\<close> finds the host\<close>
  net_socket :: "string \<Rightarrow> int"                \<comment> \<open>\<open>socket\<close>\<close>
  net_connect :: "string \<Rightarrow> nat \<Rightarrow> int"
  net_written :: "string \<Rightarrow> int \<times> int"          \<comment> \<open>results of the two \<open>write\<close> calls\<close>
  net_reply :: "string \<Rightarrow> nat \<Rightarrow> string \<Rightarrow> round list"
  net_behind :: string                         \<comment> \<open>memory behind the static read buffer\<close>

datatype get_result =
    GetHang | GetThrow
  | OutOfRange     \<comment> \<open>\<open>urlVector[1]\<close> of a vector of length 1, or a header overflow: undefined behaviour\<close>
  | Got string

definition splitURL :: "string \<Rightarrow> (string \<times> string) option" where
  "splitURL url =
     (let v = split url (CHR ''/'') in
      if length v < 2 then None
      else Some (v ! 0, foldl (\<lambda>a t. a @ ''/'' @ t) (''/'' @ v ! 1) (drop 2 v)))"

definition openSocket :: "net \<Rightarrow> string \<Rightarrow> nat \<Rightarrow> int" where
  "openSocket N host port =
     (if \<not> net_resolve N host then -1
      else let sock = net_socket N host
           in if sock = -1 then -1
              else if net_connect N host port = -1 then -1
              else sock)"

definition requestMessage :: "string \<Rightarrow> string \<Rightarrow> string \<Rightarrow> string \<Rightarrow> message" where
  "requestMessage meth path host acc =
     (let h1 = om_insert ''Host'' host [];
          h2 = om_insert ''User-Agent'' ''NOOBS4IoT 0.1a'' h1;
          h3 = om_insert ''Accept'' acc h2
      in \<lparr>headerLine = meth @ '' '' @ path @ '' HTTP/1.1'', header = h3, body = []\<rparr>)"

record client_response =
  cr_message :: message
  cr_code :: int
  cr_phrase :: string

text \<open>\<open>receiveResponse\<close>: \<open>Inl\<close> carries the ways not to return normally.\<close>

definition receiveResponse :: "string \<Rightarrow> round list \<Rightarrow> get_result + client_response option" where
  "receiveResponse behind rs =
     (case receive behind rs of
        Hang \<Rightarrow> Inl GetHang
      | Throw \<Rightarrow> Inl GetThrow
      | Done ok m n rest \<Rightarrow>
          if \<not> ok then Inr None
          else
            let v = split (headerLine m) (CHR '' '')
            in if length v \<noteq> 3 then Inr None
               else if v ! 0 \<noteq> ''HTTP/1.1'' then Inr None
               else case stoi (v ! 1) of
                      None \<Rightarrow> Inl GetThrow
                    | Some c \<Rightarrow> Inr (Some \<lparr>cr_message = m, cr_code = c, cr_phrase = butlast (v ! 2)\<rparr>))"

definition get_host :: "net \<Rightarrow> string \<Rightarrow> string \<Rightarrow> nat \<Rightarrow> get_result" where
  "get_host N host path port =
     (let sock = openSocket N host port
      in if sock < 0 then Got []
         else case send (requestMessage ''GET'' path host ''*/*'') of
                None \<Rightarrow> OutOfRange
              | Some (h, b) \<Rightarrow>
                  let (t1, t2) = net_written N h
                  in if \<not> sendOk t1 t2 then Got []
                     else case receiveResponse (net_behind N) (net_reply N host port (h @ b)) of
                            Inl e \<Rightarrow> e
                          | Inr None \<Rightarrow> Got []
                          | Inr (Some r) \<Rightarrow> Got (body (cr_message r)))"

text \<open>
  The prefixes are compared with \<open>strncmp\<close> on the C string; \<open>url\<close> is a reference parameter, so
  the caller's string loses its \<open>http://\<close> too (no caller uses it afterwards).
\<close>

definition get_url :: "net \<Rightarrow> string \<Rightarrow> get_result" where
  "get_url N url =
     (if starts_with url ''https://'' \<and> \<not> starts_with url ''http://'' then Got []
      else
        let url' = (if starts_with url ''http://'' then drop (length ''http://'') url else url)
        in case splitURL url' of
             None \<Rightarrow> OutOfRange
           | Some (host, path) \<Rightarrow> get_host N host path 80)"

end
