(* ===== verification/OsInfo.thy ===== *)
theory OsInfo
  imports Install WebClient
begin

text \<open>
  \<open>recovery/OSInfo.h\<close>, \<open>OSInfo.cpp\<close> and the sample entry of \<open>Utility_Debug.cpp\<close>: the
  description of an operating system, built from a JSON entry and three downloads. Its partitions
  are allocated on the heap of partition descriptions. A download that does not come back (it
  hangs, throws or runs into undefined behaviour) ends the construction: \<open>Inl\<close>.
\<close>

record osinfo =
  os_folder :: string
  os_flavour :: string
  os_name :: string
  os_description :: string
  os_version :: string
  os_releaseDate :: string
  os_tarballs :: "string list"
  os_bootable :: bool
  os_valid :: bool
  os_supported :: bool
  os_riscosOffset :: int
  os_partitions :: "ptr list"
  os_partitionSetupScript :: string

definition OS_PARTITION_SETUP_PATH :: string where
  "OS_PARTITION_SETUP_PATH = ''/tmp/partition_setup.sh''"

text \<open>The members before the body of the constructor: flags and offset are indeterminate.\<close>

definition osinfo_init :: "osinfo \<Rightarrow> osinfo" where
  "osinfo_init junk =
     junk\<lparr>os_folder := [], os_flavour := [], os_name := [], os_description := [], os_version := [],
          os_releaseDate := [], os_tarballs := [], os_partitions := [], os_partitionSetupScript := []\<rparr>"

definition downloadRessource :: "net \<Rightarrow> string \<Rightarrow> get_result + string" where
  "downloadRessource N url =
     (case get_url N (cstr url) of
        Got response \<Rightarrow> Inr (if response = [] then [] else cstr response)
      | e \<Rightarrow> Inl e)"

definition parseName :: "'v qv \<Rightarrow> 'v json \<Rightarrow> osinfo \<Rightarrow> bool \<times> osinfo" where
  "parseName Q m os =
     (let (ok, n) = parseEntry (can_string Q) (to_string Q) m ''name'' (os_name os) False
      in if ok then (True, os\<lparr>os_name := n\<rparr>)
         else let (ok2, n2) = parseEntry (can_string Q) (to_string Q) m ''os_name'' n False
              in (ok2, os\<lparr>os_name := n2\<rparr>))"

definition parseBootable :: "'v qv \<Rightarrow> 'v json \<Rightarrow> osinfo \<Rightarrow> osinfo" where
  "parseBootable Q m os =
     (let (ok, b) = parseEntry (can_bool Q) (to_bool Q) m ''bootable'' (os_bootable os) False
      in os\<lparr>os_bootable := (if ok then b else \<not> contains_ci (os_name os) ''Data Partition'')\<rparr>)"

definition parseRiscos :: "'v qv \<Rightarrow> 'v json \<Rightarrow> osinfo \<Rightarrow> osinfo" where
  "parseRiscos Q m os =
     (if contains_ci (os_name os) ''risc'' then
        let (ok, i) = parseEntry (can_int Q) (to_int Q) m ''riscos_offset'' (os_riscosOffset os) False
        in os\<lparr>os_riscosOffset := (if ok then i else RISCOS_OFFSET)\<rparr>
      else os)"

definition parseSupported :: "'v qv \<Rightarrow> world \<Rightarrow> 'v json \<Rightarrow> osinfo \<Rightarrow> osinfo" where
  "parseSupported Q w m os =
     (let model = getFileContents w ''/proc/device-tree/model'';
          (ok, models) = parseEntry (can_strlist Q) (to_strlist Q) m ''supported_models'' [] True
      in os\<lparr>os_supported := ok \<and> foldl (\<lambda>s n. s \<or> contains_ci model n) True models\<rparr>)"

definition parseOSInfo :: "'v qv \<Rightarrow> net \<Rightarrow> string \<Rightarrow> osinfo \<Rightarrow> get_result + bool \<times> osinfo" where
  "parseOSInfo Q N url os =
     (case downloadRessource N url of
        Inl e \<Rightarrow> Inl e
      | Inr reply \<Rightarrow>
          let m = parseJson Q reply;
              str = parseEntry (can_string Q) (to_string Q) m;
              o1 = os\<lparr>os_name := snd (str ''name'' (os_name os) True)\<rparr>;
              (okb, b) = parseEntry (can_bool Q) (to_bool Q) m ''bootable'' (os_bootable o1) True;
              o2 = o1\<lparr>os_bootable := b\<rparr>
          in if okb \<and> \<not> b then Inr (False, o2)
             else
               let o3 = o2\<lparr>os_version := snd (str ''version'' (os_version o2) True)\<rparr>;
                   o4 = o3\<lparr>os_description := snd (str ''description'' (os_description o3) True)\<rparr>;
                   o5 = o4\<lparr>os_releaseDate := snd (str ''release_date'' (os_releaseDate o4) True)\<rparr>
               in Inr (True, o5))"

text \<open>
  The loop over the partition entries; \<open>ts\<close> are the tarballs from index \<open>i\<close> on. An entry that
  does not parse leaves its object on the heap, outside the list.
\<close>

fun parseParts :: "'v qv \<Rightarrow> int \<Rightarrow> 'v list \<Rightarrow> string list \<Rightarrow> ptr list \<Rightarrow> heap \<Rightarrow> bool \<times> ptr list \<times> heap" where
  "parseParts Q junk [] ts ps h = (True, ps, h)"
| "parseParts Q junk (v # vs) ts ps h =
     (if can_map Q v then
        let p = mkPartitionInfo Q junk (to_map Q v) (hd ts)
        in if p_valid p then parseParts Q junk vs (tl ts) (ps @ [length h]) (h @ [p])
           else (False, ps, h @ [p])
      else (False, ps, h))"

definition OSInfo_parsePartitionInfo ::
  "'v qv \<Rightarrow> net \<Rightarrow> int \<Rightarrow> string \<Rightarrow> osinfo \<Rightarrow> heap \<Rightarrow> get_result + bool \<times> osinfo \<times> heap" where
  "OSInfo_parsePartitionInfo Q N junk url os h =
     (case downloadRessource N url of
        Inl e \<Rightarrow> Inl e
      | Inr reply \<Rightarrow>
          let (ok, vs) = parseEntry (can_list Q) (to_list Q) (parseJson Q reply) ''partitions'' [] False
          in if \<not> ok then Inr (False, os, h)
             else if length vs < length (os_tarballs os) then Inr (False, os, h)
             else
               let ts = os_tarballs os @ replicate (length vs - length (os_tarballs os)) [];
                   (okp, ps, h') = parseParts Q junk vs ts (os_partitions os) h
               in Inr (okp, os\<lparr>os_tarballs := ts, os_partitions := ps\<rparr>, h'))"

definition parseSetup :: "'v qv \<Rightarrow> net \<Rightarrow> 'v json \<Rightarrow> osinfo \<Rightarrow> get_result + bool \<times> osinfo" where
  "parseSetup Q N m os =
     (let (ok, url) = parseEntry (can_string Q) (to_string Q) m ''partition_setup'' [] True
      in if \<not> ok then Inr (False, os)
         else if url = [] then Inr (True, os)
         else case downloadRessource N url of
                Inl e \<Rightarrow> Inl e
              | Inr s \<Rightarrow> Inr (s \<noteq> [], os\<lparr>os_partitionSetupScript := s\<rparr>))"

definition parseOS ::
  "'v qv \<Rightarrow> net \<Rightarrow> int \<Rightarrow> world \<Rightarrow> 'v json \<Rightarrow> osinfo \<Rightarrow> heap \<Rightarrow> get_result + bool \<times> osinfo \<times> heap" where
  "parseOS Q N junk w m os h =
     (let (okn, o1) = parseName Q m os
      in if \<not> okn then Inr (False, o1, h)
         else
           let o2 = parseBootable Q m o1
           in if \<not> os_bootable o2 then Inr (False, o2, h)
              else
                let o3 = parseSupported Q w m (parseRiscos Q m o2)
                in if \<not> os_supported o3 then Inr (False, o3, h)
                   else
                     let (okt, ts) = parseEntry (can_strlist Q) (to_strlist Q) m ''tarballs'' (os_tarballs o3) False;
                         o4 = o3\<lparr>os_tarballs := ts\<rparr>;
                         (oki, url) = parseEntry (can_string Q) (to_string Q) m ''os_info'' [] False
                     in if \<not> okt then Inr (False, o4, h)
                        else if \<not> oki then Inr (False, o4, h)
                        else case parseOSInfo Q N url o4 of
                            Inl e \<Rightarrow> Inl e
                          | Inr (False, o5) \<Rightarrow> Inr (False, o5, h)
                          | Inr (True, o5) \<Rightarrow>
                              let (okp, url2) = parseEntry (can_string Q) (to_string Q) m ''partitions_info'' url False
                              in if \<not> okp then Inr (False, o5, h)
                                 else case OSInfo_parsePartitionInfo Q N junk url2 o5 h of
                                     Inl e \<Rightarrow> Inl e
                                   | Inr (False, o6, h') \<Rightarrow> Inr (False, o6, h')
                                   | Inr (True, o6, h') \<Rightarrow>
                                       (case parseSetup Q N m o6 of
                                          Inl e \<Rightarrow> Inl e
                                        | Inr (ok, o7) \<Rightarrow> Inr (ok, o7, h')))"

definition mkOSInfo ::
  "'v qv \<Rightarrow> net \<Rightarrow> int \<Rightarrow> osinfo \<Rightarrow> world \<Rightarrow> 'v json \<Rightarrow> heap \<Rightarrow> get_result + osinfo \<times> heap" where
  "mkOSInfo Q N junk junkos w m h =
     (case parseOS Q N junk w m (osinfo_init junkos) h of
        Inl e \<Rightarrow> Inl e
      | Inr (ok, os, h') \<Rightarrow> Inr (os\<lparr>os_valid := ok\<rparr>, h'))"

definition vPartitionList :: "'v qv \<Rightarrow> heap \<Rightarrow> osinfo \<Rightarrow> 'v list" where
  "vPartitionList Q h os = map (\<lambda>p. from_string Q (p_partitionDevice (h ! p))) (os_partitions os)"

definition getRaspbianJSON :: "'v qv \<Rightarrow> 'v json" where
  "getRaspbianJSON Q =
     (let str = from_string Q;
          m1 = om_insert ''description'' (str ''A community-created port of Debian jessie for the Raspberry Pi'') [];
          m2 = om_insert ''feature_level'' (from_int Q 35120124) m1;
          m3 = om_insert ''icon'' (str ''http://downloads.raspberrypi.org/raspbian/Raspbian.png'') m2;
          m4 = om_insert ''marketing_info'' (str ''http://downloads.raspberrypi.org/raspbian/marketing.tar'') m3;
          m5 = om_insert ''nominal_size'' (from_int Q 3615) m4;
          m6 = om_insert ''os_info'' (str ''http://downloads.raspberrypi.org/raspbian/os.json'') m5;
          m7 = om_insert ''os_name'' (str ''Raspbian'') m6;
          m8 = om_insert ''partition_setup'' (str ''http://downloads.raspberrypi.org/raspbian/partition_setup.sh'') m7;
          m9 = om_insert ''partitions_info'' (str ''http://downloads.raspberrypi.org/raspbian/partitions.json'') m8;
          m10 = om_insert ''release_date'' (str ''2016-05-27'') m9;
          m11 = om_insert ''supported_hex_revisions''
                  (str ''2,3,4,5,6,7,8,9,d,e,f,10,11,12,14,19,1040,1041,0092,0093,2082'') m10;
          m12 = om_insert ''supported_models'' (from_list Q (map str [''Pi Model'', ''Pi 2'', ''Pi Zero'', ''Pi 3''])) m11
      in om_insert ''tarballs''
           (from_list Q (map str [''http://downloads.raspberrypi.org/raspbian/boot.tar.xz'',
                                  ''http://downloads.raspberrypi.org/raspbian/root.tar.xz''])) m12)"

section \<open>What a valid description promises\<close>

text \<open>The loop pairs the entries with the tarballs and appends one object per entry.\<close>

lemma parseParts_ok:
  assumes "parseParts Q junk vs ts ps h = (True, ps', h')" and "length ts = length vs"
  shows "ps' = ps @ [length h..<length h + length vs] \<and>
    h' = h @ map2 (\<lambda>v t. mkPartitionInfo Q junk (to_map Q v) t) vs ts \<and>
    (\<forall>p \<in> set (drop (length h) h'). p_valid p)"
  using assms
proof (induction Q junk vs ts ps h rule: parseParts.induct)
  case (2 Q junk v vs ts ps h)
  then obtain t ts' where ts: "ts = t # ts'" by (cases ts) auto
  let ?p = "mkPartitionInfo Q junk (to_map Q v) t"
  have v: "can_map Q v" "p_valid ?p" "parseParts Q junk vs ts' (ps @ [length h]) (h @ [?p]) = (True, ps', h')"
    using "2.prems"(1) by (auto simp: ts Let_def split: if_splits)
  then show ?case
    using "2.IH" [OF v(1) refl] "2.prems"(2) by (cases vs) (auto simp: ts upt_conv_Cons simp del: upt_Suc)
qed simp

definition os_ready :: "heap \<Rightarrow> osinfo \<Rightarrow> heap \<Rightarrow> bool" where
  "os_ready h os h' \<longleftrightarrow>
     os_bootable os \<and> os_partitions os = [length h..<length h'] \<and>
     take (length h) h' = h \<and> (\<forall>p \<in> set (drop (length h) h'). p_valid p) \<and>
     map p_tarball (drop (length h) h') = os_tarballs os"

lemma map2_tarball:
  "length ts = length vs \<Longrightarrow>
     map p_tarball (map2 (\<lambda>v t. mkPartitionInfo Q junk (to_map Q v) t) vs ts) = ts"
  by (induction ts vs rule: list_induct2) (simp_all add: mkPartitionInfo_frame)

lemma OSInfo_parsePartitionInfo_ok:
  assumes "OSInfo_parsePartitionInfo Q N junk url os h = Inr (True, os', h')"
    and "os_partitions os = []" and "os_bootable os"
  shows "os_ready h os' h'"
proof -
  obtain reply vs where d: "downloadRessource N url = Inr reply"
      "parseEntry (can_list Q) (to_list Q) (parseJson Q reply) ''partitions'' [] False = (True, vs)"
      "\<not> length vs < length (os_tarballs os)"
    using assms(1) by (auto simp: OSInfo_parsePartitionInfo_def Let_def split: sum.splits prod.splits if_splits)
  define ts where "ts = os_tarballs os @ replicate (length vs - length (os_tarballs os)) []"
  have len: "length ts = length vs" using d(3) by (simp add: ts_def)
  obtain ps where p: "parseParts Q junk vs ts [] h = (True, ps, h')"
      "os' = os\<lparr>os_tarballs := ts, os_partitions := ps\<rparr>"
    using assms(1,2) d by (auto simp: OSInfo_parsePartitionInfo_def Let_def ts_def split: prod.splits)
  show ?thesis
    using parseParts_ok [OF p(1) len] p(2) assms(3) len map2_tarball [OF len]
    by (simp add: os_ready_def)
qed

lemma parseEntry_failed: "\<not> fst (parseEntry can val m k t opt) \<Longrightarrow> snd (parseEntry can val m k t opt) = t"
  by (auto simp: parseEntry_def split: option.splits)

lemma parseOSInfo_ok:
  assumes "parseOSInfo Q N url os = Inr (True, os')" and "os_bootable os"
  shows "os_bootable os' \<and> os_partitions os' = os_partitions os"
  using assms
  by (auto simp: parseOSInfo_def Let_def case_prod_unfold parseEntry_failed split: sum.splits if_splits)

lemma parseSetup_ok:
  assumes "parseSetup Q N m os = Inr (ok, os')"
  shows "\<exists>s. os' = os\<lparr>os_partitionSetupScript := s\<rparr>"
proof -
  have "\<exists>s. os = os\<lparr>os_partitionSetupScript := s\<rparr>" by (rule exI [of _ "os_partitionSetupScript os"]) simp
  then show ?thesis
    using assms by (auto simp: parseSetup_def Let_def split: sum.splits prod.splits if_splits)
qed

lemma os_ready_setup [simp]: "os_ready h (os\<lparr>os_partitionSetupScript := s\<rparr>) h' = os_ready h os h'"
  by (simp add: os_ready_def)

lemma parse_frames [simp]:
  "os_partitions (snd (parseName Q m os)) = os_partitions os"
  "os_partitions (parseBootable Q m os) = os_partitions os"
  "os_partitions (parseRiscos Q m os) = os_partitions os"
  "os_partitions (parseSupported Q w m os) = os_partitions os"
  "os_bootable (parseRiscos Q m os) = os_bootable os"
  "os_bootable (parseSupported Q w m os) = os_bootable os"
  by (simp_all add: parseName_def parseBootable_def parseRiscos_def parseSupported_def Let_def case_prod_unfold)

lemma parseOS_ok:
  assumes "parseOS Q N junk w m os h = Inr (True, os', h')" and "os_partitions os = []"
  shows "os_ready h os' h'"
proof -
  define o1 where "o1 = snd (parseName Q m os)"
  define o2 where "o2 = parseBootable Q m o1"
  define o3 where "o3 = parseSupported Q w m (parseRiscos Q m o2)"
  define o4 where "o4 = o3\<lparr>os_tarballs := snd (parseEntry (can_strlist Q) (to_strlist Q) m ''tarballs'' (os_tarballs o3) False)\<rparr>"
  define url where "url = snd (parseEntry (can_string Q) (to_string Q) m ''os_info'' [] False)"
  define url2 where "url2 = snd (parseEntry (can_string Q) (to_string Q) m ''partitions_info'' url False)"
  note ds = o1_def [symmetric] o2_def [symmetric] o3_def [symmetric] o4_def [symmetric]
    url_def [symmetric] url2_def [symmetric]
  have b: "os_bootable o2"
    using assms(1) by (auto simp: parseOS_def Let_def case_prod_unfold ds split: if_splits)
  obtain o5 where o5: "parseOSInfo Q N url o4 = Inr (True, o5)"
    using assms(1)
    by (auto simp: parseOS_def Let_def case_prod_unfold ds split: if_splits sum.splits bool.splits)
  obtain o6 where o6: "OSInfo_parsePartitionInfo Q N junk url2 o5 h = Inr (True, o6, h')"
      "parseSetup Q N m o6 = Inr (True, os')"
    using assms(1) o5
    by (auto simp: parseOS_def Let_def case_prod_unfold ds split: if_splits sum.splits bool.splits)
  have "os_bootable o4 \<and> os_partitions o4 = []"
    using b assms(2) by (simp add: o4_def o3_def o2_def o1_def)
  then have "os_bootable o5 \<and> os_partitions o5 = []" using parseOSInfo_ok [OF o5] by simp
  then have "os_ready h o6 h'" using OSInfo_parsePartitionInfo_ok [OF o6(1)] by simp
  then show ?thesis using parseSetup_ok [OF o6(2)] by auto
qed

lemma mkOSInfo_valid_ready:
  assumes "mkOSInfo Q N junk junkos w m h = Inr (os, h')" and "os_valid os"
  shows "os_ready h os h'"
proof -
  obtain os1 where p: "parseOS Q N junk w m (osinfo_init junkos) h = Inr (True, os1, h')"
      "os = os1\<lparr>os_valid := True\<rparr>"
    using assms by (auto simp: mkOSInfo_def split: sum.splits)
  have "os_ready h os1 h'" by (rule parseOS_ok [OF p(1)]) (simp add: osinfo_init_def)
  then show ?thesis by (simp add: p(2) os_ready_def)
qed

text \<open>C7: A description that passed the constructor is bootable, its partitions are fresh objects in
  the order of their entries, all of them valid, one for each tarball, and no object that existed
  before has changed.
\<close>

theorem mkOSInfo_ready:
  assumes "mkOSInfo Q N junk junkos w m h = Inr (os, h')" and "os_valid os"
  shows "os_ready h os h'"
  using assms by (rule mkOSInfo_valid_ready)

text \<open>A sample: values are strings, every download answers with one entry of type \<open>ext4\<close>.\<close>

definition demoQ :: "string qv" where
  "demoQ = \<lparr>can_bytes = (\<lambda>_. True), to_bytes = id, can_string = (\<lambda>_. True), to_string = id,
     can_int = (\<lambda>_. False), to_int = (\<lambda>_. 0), can_bool = (\<lambda>_. False), to_bool = (\<lambda>_. False),
     can_strlist = (\<lambda>_. True), to_strlist = (\<lambda>s. [s]), can_list = (\<lambda>_. True), to_list = (\<lambda>s. [s]),
     can_map = (\<lambda>_. True),
     to_map = (\<lambda>s. if s = ''P'' then [(''partitions'', ''L'')] else [(''filesystem_type'', ''ext4'')]),
     qv_invalid = [], qv_parse = (\<lambda>_. (True, ''P'')), qv_serialize = (\<lambda>s. (True, s)),
     from_string = id, from_int = (\<lambda>_. []), from_bool = (\<lambda>_. []), from_list = concat, from_map = (\<lambda>_. [])\<rparr>"

definition demoNet :: net where
  "demoNet = \<lparr>net_resolve = (\<lambda>_. True), net_socket = (\<lambda>_. 3), net_connect = (\<lambda>_ _. 0),
     net_written = (\<lambda>h. (int (length h), 0)),
     net_reply = (\<lambda>_ _ _. [Chunk (''HTTP/1.1 200 OK'' @ CRLF @ CRLF @ ''P'')]), net_behind = []\<rparr>"

definition demoEntry :: "string json" where
  "demoEntry = [(''name'', ''Demo''), (''os_info'', ''h/i''), (''partitions_info'', ''h/p''), (''tarballs'', ''t.gz'')]"

theorem mkOSInfo_ready_witness:
  "\<exists>os h'. mkOSInfo demoQ demoNet 0 (osinfo.make [] [] [] [] [] [] [] False False False 0 [] [])
      \<lparr>w_files = (\<lambda>_. None), w_log = []\<rparr> demoEntry [] = Inr (os, h') \<and> os_ready [] os h'"
proof -
  let ?r = "mkOSInfo demoQ demoNet 0 (osinfo.make [] [] [] [] [] [] [] False False False 0 [] [])
      \<lparr>w_files = (\<lambda>_. None), w_log = []\<rparr> demoEntry []"
  have "(case ?r of Inl _ \<Rightarrow> False | Inr (os, h') \<Rightarrow> os_valid os)" by code_simp
  then obtain os h' where r: "?r = Inr (os, h')" "os_valid os" by (auto split: sum.splits)
  from r(1) mkOSInfo_ready [OF r] show ?thesis by blast
qed

text \<open>
  The model of the board plays no role: the flag is set before the listed models are looked at.
\<close>

lemma parseSupported_any_model:
  "os_supported (parseSupported Q w m os) \<longleftrightarrow>
     (\<forall>v. om_find m ''supported_models'' = Some v \<longrightarrow> can_strlist Q v)"
proof -
  have "foldl (\<lambda>s n. s \<or> contains_ci model n) True models" for model models
    by (induction models) auto
  then show ?thesis
    by (cases "om_find m ''supported_models''")
      (auto simp: parseSupported_def Let_def parseEntry_def om_contains_def split: prod.splits)
qed

end
