(* ===== verification/BootPart.thy ===== *)
theory BootPart
  imports OsInfo
begin

text \<open>
  The boot partition in \<open>recovery/BootManager.cpp\<close>: the three overloads of
  \<open>setDefaultBootPartition\<close>, \<open>bootIntoPartition\<close> and the list of installed systems. The
  conversion \<open>QString::toInt\<close> is a parameter.
\<close>

definition MMC_PREFIX :: string where "MMC_PREFIX = ''/dev/mmcblk0p''"

definition setDefaultBootPartition :: "env \<Rightarrow> string \<Rightarrow> world \<Rightarrow> bool \<times> world" where
  "setDefaultBootPartition E dev w =
     (if \<not> starts_with dev MMC_PREFIX then (False, w)
      else
        let w1 = (if file_exists w DEFAULT_BOOT_PARTITION_FILE
                  then snd (remove_file E DEFAULT_BOOT_PARTITION_FILE w) else w)
        in putFileContents E DEFAULT_BOOT_PARTITION_FILE dev w1)"

definition setDefaultBootPartition_part :: "env \<Rightarrow> pinfo \<Rightarrow> world \<Rightarrow> bool \<times> world" where
  "setDefaultBootPartition_part E p w =
     (if p_partitionDevice p = [] then (False, w)
      else setDefaultBootPartition E (p_partitionDevice p) w)"

definition setDefaultBootPartition_os :: "env \<Rightarrow> heap \<Rightarrow> osinfo \<Rightarrow> world \<Rightarrow> bool \<times> world" where
  "setDefaultBootPartition_os E h os w =
     (if os_partitions os = [] then (False, w)
      else setDefaultBootPartition_part E (h ! hd (os_partitions os)) w)"

definition REBOOT_2709 :: string where "REBOOT_2709 = ''/sys/module/bcm2709/parameters/reboot_part''"
definition REBOOT_2708 :: string where "REBOOT_2708 = ''/sys/module/bcm2708/parameters/reboot_part''"

definition rebootDev :: "world \<Rightarrow> string option" where
  "rebootDev w =
     (if file_exists w REBOOT_2709 then Some REBOOT_2709
      else if file_exists w REBOOT_2708 then Some REBOOT_2708
      else None)"

definition bootIntoPartition :: "(string \<Rightarrow> int option) \<Rightarrow> env \<Rightarrow> string \<Rightarrow> world \<Rightarrow> world" where
  "bootIntoPartition toInt E dev w =
     (let part = (if dev = [] then getFileContents w DEFAULT_BOOT_PARTITION_FILE else dev)
      in if \<not> starts_with part MMC_PREFIX then w
         else case toInt (replace_all MMC_PREFIX [] part) of
                None \<Rightarrow> w
              | Some n \<Rightarrow>
                  (case rebootDev w of
                     None \<Rightarrow> w
                   | Some f \<Rightarrow>
                       let w1 = overwrite_file E f (int_str n @ ''\<newline>'') w;
                           (_, w2) = execute E ''ifdown -a'' w1;
                           (_, w3) = execute E ''umount -ar'' w2
                       in log_event Reboot (log_event Sync w3)))"

definition getInstalledOS :: "'v qv \<Rightarrow> world \<Rightarrow> 'v list" where
  "getInstalledOS Q w =
     (if file_exists w ''/settings/installed_os.json''
      then to_list Q (loadFromFile Q w ''/settings/installed_os.json'') else [])"

definition hasInstalledOS :: "'v qv \<Rightarrow> world \<Rightarrow> bool" where
  "hasInstalledOS Q w \<longleftrightarrow> length (getInstalledOS Q w) > 0"

section \<open>From the setting to the reboot\<close>

lemma int_str_chars: "c \<in> set (int_str n) \<Longrightarrow> is_digit c \<or> c = CHR ''-''"
  using nat_str_digits by (auto simp: int_str_def split: if_splits)

lemma replace_all_prefix: "p \<noteq> [] \<Longrightarrow> replace_all p r (p @ s) = r @ replace_all p r s"
  by (cases p) (simp_all add: starts_with_def)

lemma replace_all_none: "CHR ''/'' \<notin> set s \<Longrightarrow> replace_all MMC_PREFIX [] s = s"
proof (induction s)
  case (Cons c s)
  then have "\<not> starts_with (c # s) MMC_PREFIX" by (auto simp: starts_with_def MMC_PREFIX_def)
  with Cons show ?case by simp
qed simp

lemma replace_all_device: "replace_all MMC_PREFIX [] (MMC_PREFIX @ int_str n) = int_str n"
proof -
  have "CHR ''/'' \<notin> set (int_str n)" using int_str_chars [of "CHR ''/''" n] by (auto simp: is_digit_def)
  then have r: "replace_all MMC_PREFIX [] (int_str n) = int_str n" by (rule replace_all_none)
  have "MMC_PREFIX \<noteq> []" by (simp add: MMC_PREFIX_def)
  then show ?thesis using r by (simp add: replace_all_prefix)
qed

lemma setDefaultBootPartition_stored:
  assumes "setDefaultBootPartition E dev w = (True, w')" and "\<And>l d. e_stored E l d = d"
  shows "starts_with dev MMC_PREFIX" and "getFileContents w' DEFAULT_BOOT_PARTITION_FILE = dev"
proof -
  show p: "starts_with dev MMC_PREFIX"
    using assms(1) by (auto simp: setDefaultBootPartition_def split: if_splits)
  define w1 where "w1 = (if file_exists w DEFAULT_BOOT_PARTITION_FILE
      then snd (remove_file E DEFAULT_BOOT_PARTITION_FILE w) else w)"
  have run: "putFileContents E DEFAULT_BOOT_PARTITION_FILE dev w1 = (True, w')"
    using assms(1) p by (simp add: setDefaultBootPartition_def w1_def Let_def)
  then show "getFileContents w' DEFAULT_BOOT_PARTITION_FILE = dev"
    using putFileContents_ok(2) [of E DEFAULT_BOOT_PARTITION_FILE dev w1] assms(2)
    by (simp add: getFileContents_def)
qed

definition boot_events :: "string \<Rightarrow> int \<Rightarrow> event list" where
  "boot_events f n =
     [WriteFile f (int_str n @ ''\<newline>''), Execute ''ifdown -a'', Execute ''umount -ar'', Sync, Reboot]"

lemma bootIntoPartition_log:
  "w_log (bootIntoPartition toInt E dev w) = w_log w \<or>
   (\<exists>n f. toInt (replace_all MMC_PREFIX [] (if dev = [] then getFileContents w DEFAULT_BOOT_PARTITION_FILE else dev)) = Some n \<and>
      rebootDev w = Some f \<and>
      w_log (bootIntoPartition toInt E dev w) =
        w_log w @ (if e_open_write E (w_log w) f then boot_events f n else tl (boot_events f n)))"
  by (auto simp: bootIntoPartition_def Let_def overwrite_file_def write_file_def execute_def log_event_def
      boot_events_def split: option.split)

text \<open>C6: After a partition has been accepted as default boot partition, a reboot without argument
  writes exactly its number to the reboot parameter of the firmware, shuts the system down in
  order and reboots.
\<close>

theorem default_partition_boots:
  assumes "setDefaultBootPartition E (MMC_PREFIX @ int_str n) w = (True, w')"
    and honest: "\<And>l d. e_stored E l d = d" and toInt: "toInt (int_str n) = Some n"
    and "rebootDev w' = Some f" and "e_open_write E (w_log w') f"
  shows "w_log (bootIntoPartition toInt E [] w') = w_log w' @ boot_events f n"
proof -
  have g: "getFileContents w' DEFAULT_BOOT_PARTITION_FILE = MMC_PREFIX @ int_str n"
    by (rule setDefaultBootPartition_stored [OF assms(1) honest])
  show ?thesis
    using assms(3-5)
    by (auto simp: bootIntoPartition_def g replace_all_device overwrite_file_def write_file_def Let_def
        execute_def log_event_def boot_events_def)
qed

definition demoEnv :: env where
  "demoEnv = \<lparr>e_exit = (\<lambda>_. 0), e_output = (\<lambda>_. []), e_effect = (\<lambda>_ fs. fs), e_mkdir_ok = (\<lambda>_. True),
     e_open_write = (\<lambda>_ _. True), e_write_ok = (\<lambda>_. True), e_stored = (\<lambda>_ d. d)\<rparr>"

definition demoWorld :: world where
  "demoWorld = \<lparr>w_files = (\<lambda>p. if p = REBOOT_2709 then Some [] else None), w_log = []\<rparr>"

theorem default_partition_boots_witness:
  "w_log (bootIntoPartition stoi demoEnv [] (snd (setDefaultBootPartition demoEnv ''/dev/mmcblk0p6'' demoWorld))) =
     [WriteFile DEFAULT_BOOT_PARTITION_FILE ''/dev/mmcblk0p6''] @ boot_events REBOOT_2709 6"
proof -
  have d: "MMC_PREFIX @ int_str 6 = ''/dev/mmcblk0p6''" by code_simp
  have s: "setDefaultBootPartition demoEnv (MMC_PREFIX @ int_str 6) demoWorld =
      (True, snd (setDefaultBootPartition demoEnv ''/dev/mmcblk0p6'' demoWorld))"
    unfolding d prod_eq_iff by simp code_simp
  let ?w = "snd (setDefaultBootPartition demoEnv ''/dev/mmcblk0p6'' demoWorld)"
  have "e_stored demoEnv l x = x" for l x by (simp add: demoEnv_def)
  moreover have "stoi (int_str 6) = Some 6" "rebootDev ?w = Some REBOOT_2709"
      "e_open_write demoEnv (w_log ?w) REBOOT_2709"
      "w_log ?w = [WriteFile DEFAULT_BOOT_PARTITION_FILE ''/dev/mmcblk0p6'']"
    by code_simp+
  ultimately show ?thesis using default_partition_boots [OF s] by simp
qed

end
