(* ===== verification/InstallLayout.thy ===== *)
theory InstallLayout
  imports Install
begin

text \<open>
  What the layout loop of \<open>calculateSpaceRequirements\<close> computes: a refinement to a pure plan
  (offsets and sizes, without the heap), and the ordering, alignment and space bounds of a plan.
\<close>

section \<open>The loop as a pure plan\<close>

fun layoutPlan :: "int \<Rightarrow> int \<Rightarrow> int \<Rightarrow> pinfo list \<Rightarrow> (int \<times> int) list option" where
  "layoutPlan extra tot off [] = Some []"
| "layoutPlan extra tot off (p # ps) =
     (case placeOffset off p of
        None \<Rightarrow> None
      | Some o1 \<Rightarrow>
          let n = placeSize extra tot (ps = []) o1 p
          in case layoutPlan extra tot (o1 + n) ps of None \<Rightarrow> None | Some r \<Rightarrow> Some ((o1, n) # r))"

definition placed :: "pinfo \<Rightarrow> int \<times> int \<Rightarrow> pinfo" where
  "placed p x = p\<lparr>p_offset := fst x, p_partitionSizeSectors := snd x\<rparr>"

lemma im_set_simps [simp]:
  "im_extraSpacePerPartition (im_set p f s) = im_extraSpacePerPartition s"
  "im_totalnominalsize (im_set p f s) = im_totalnominalsize s"
  "im_numexpandparts (im_set p f s) = im_numexpandparts s"
  "im_numparts (im_set p f s) = im_numparts s"
  "im_startSector (im_set p f s) = im_startSector s"
  "im_totalSectors (im_set p f s) = im_totalSectors s"
  "im_availableMB (im_set p f s) = im_availableMB s"
  "im_partitionMap (im_set p f s) = im_partitionMap s"
  "length (im_heap (im_set p f s)) = length (im_heap s)"
  by (simp_all add: im_set_def)

lemma im_get_set: "p < length (im_heap s) \<Longrightarrow> im_get (im_set p f s) q = (if q = p then f (im_get s p) else im_get s q)"
  by (simp add: im_get_def im_set_def)

lemma im_set_heap_only: "im_set p f s = s\<lparr>im_heap := im_heap (im_set p f s)\<rparr>"
  by (simp add: im_set_def)

lemma placeSize_offset [simp]: "placeSize e t l o1 (p\<lparr>p_offset := x\<rparr>) = placeSize e t l o1 p"
  unfolding placeSize_def Let_def by simp

text \<open>One round of the loop: the partition is placed, nothing else changes.\<close>

lemma layoutLoop_round:
  assumes "p < length (im_heap s)" and "(p = l) = (ps = [])"
    and "placeOffset off (im_get s p) = Some o1"
    and "n = placeSize (im_extraSpacePerPartition s) (im_totalSectors s) (ps = []) o1 (im_get s p)"
  shows "\<exists>s2. layoutLoop l (p # ps) off s = layoutLoop l ps (o1 + n) s2 \<and>
           s2 = s\<lparr>im_heap := im_heap s2\<rparr> \<and> length (im_heap s2) = length (im_heap s) \<and>
           (\<forall>q. im_get s2 q = (if q = p then placed (im_get s p) (o1, n) else im_get s q))"
proof -
  define s1 where "s1 = im_set p (\<lambda>q. q\<lparr>p_offset := o1\<rparr>) s"
  define s2 where "s2 = im_set p (\<lambda>q. q\<lparr>p_partitionSizeSectors := n\<rparr>) s1"
  have g1: "im_get s1 p = (im_get s p)\<lparr>p_offset := o1\<rparr>" using assms(1) by (simp add: s1_def im_get_set)
  have "im_get s2 q = (if q = p then placed (im_get s p) (o1, n) else im_get s q)" for q
    using assms(1) by (simp add: s2_def s1_def im_get_set placed_def)
  moreover have "layoutLoop l (p # ps) off s = layoutLoop l ps (o1 + n) s2"
    by (simp add: assms(2,3) Let_def s1_def [symmetric] s2_def g1) (simp add: s1_def assms(4))
  moreover have "s2 = s\<lparr>im_heap := im_heap s2\<rparr>" "length (im_heap s2) = length (im_heap s)"
    by (simp_all add: s2_def s1_def im_set_def)
  ultimately show ?thesis by blast
qed

lemma heap_only_trans:
  "s2 = s\<lparr>im_heap := im_heap s2\<rparr> \<Longrightarrow> s' = s2\<lparr>im_heap := im_heap s'\<rparr> \<Longrightarrow> s' = s\<lparr>im_heap := im_heap s'\<rparr>"
  by (metis imst.surjective imst.update_convs(11))

lemma heap_only_fields:
  "s2 = s\<lparr>im_heap := h\<rparr> \<Longrightarrow>
     im_extraSpacePerPartition s2 = im_extraSpacePerPartition s \<and> im_totalSectors s2 = im_totalSectors s"
  by simp

definition layoutDone :: "ptr list \<Rightarrow> imst \<Rightarrow> (int \<times> int) list \<Rightarrow> imst \<Rightarrow> bool" where
  "layoutDone ps s xs s' \<longleftrightarrow>
     s' = s\<lparr>im_heap := im_heap s'\<rparr> \<and> length (im_heap s') = length (im_heap s) \<and>
     length xs = length ps \<and> map (im_get s') ps = map2 placed (map (im_get s) ps) xs \<and>
     (\<forall>q. q \<notin> set ps \<longrightarrow> im_get s' q = im_get s q)"

lemma layoutLoop_refines:
  assumes "distinct ps" and "set ps \<subseteq> {..<length (im_heap s)}" and "ps \<noteq> [] \<Longrightarrow> l = last ps"
  shows "case layoutPlan (im_extraSpacePerPartition s) (im_totalSectors s) off (map (im_get s) ps) of
      None \<Rightarrow> \<not> fst (layoutLoop l ps off s)
    | Some xs \<Rightarrow> \<exists>s'. layoutLoop l ps off s = (True, s') \<and> layoutDone ps s xs s'"
  using assms
proof (induction ps arbitrary: off s)
  case Nil
  then show ?case by (simp add: layoutDone_def)
next
  case (Cons p ps)
  show ?case
  proof (cases "placeOffset off (im_get s p)")
    case None
    then show ?thesis by simp
  next
    case (Some o1)
    define n where "n = placeSize (im_extraSpacePerPartition s) (im_totalSectors s) (ps = []) o1 (im_get s p)"
    have last: "(p = l) = (ps = [])" using Cons.prems(1,3) by auto
    obtain s2 where run: "layoutLoop l (p # ps) off s = layoutLoop l ps (o1 + n) s2"
      and h: "s2 = s\<lparr>im_heap := im_heap s2\<rparr>" "length (im_heap s2) = length (im_heap s)"
      and g: "\<forall>q. im_get s2 q = (if q = p then placed (im_get s p) (o1, n) else im_get s q)"
      using layoutLoop_round [OF _ last Some n_def] Cons.prems(2) by auto
    have same: "map (im_get s2) ps = map (im_get s) ps" using Cons.prems(1) g by auto
    note IH = Cons.IH [of s2 "o1 + n", unfolded same]
    have IH': "case layoutPlan (im_extraSpacePerPartition s) (im_totalSectors s) (o1 + n) (map (im_get s) ps) of
        None \<Rightarrow> \<not> fst (layoutLoop l ps (o1 + n) s2)
      | Some xs \<Rightarrow> \<exists>s'. layoutLoop l ps (o1 + n) s2 = (True, s') \<and> layoutDone ps s2 xs s'"
      using IH Cons.prems heap_only_fields [OF h(1)] h(2) by auto
    show ?thesis
    proof (cases "layoutPlan (im_extraSpacePerPartition s) (im_totalSectors s) (o1 + n) (map (im_get s) ps)")
      case None
      then show ?thesis using IH' run Some by (simp add: n_def Let_def)
    next
      case (Some ys)
      with IH' obtain s' where s': "layoutLoop l ps (o1 + n) s2 = (True, s')" "layoutDone ps s2 ys s'" by auto
      have "im_get s' p = placed (im_get s p) (o1, n)"
        using s'(2) Cons.prems(1) g by (simp add: layoutDone_def)
      then have "layoutDone (p # ps) s ((o1, n) # ys) s'"
        using s'(2) g same h(2) heap_only_trans [OF h(1)] unfolding layoutDone_def by auto
      then show ?thesis using run s'(1) Some \<open>placeOffset off (im_get s p) = Some o1\<close> by (simp add: n_def Let_def)
    qed
  qed
qed

section \<open>Ordering of a plan\<close>

lemma smod_bounds: "-8192 < (x::int) smod 8192" "x smod 8192 < 8192"
  using smod_int_range [of 8192 x] by auto

lemma alignUp_ge: "off \<le> alignUp off"
  using smod_bounds [of off] by (simp add: alignUp_def PARTITION_ALIGNMENT_def)

lemma smod_pos: "0 \<le> (x::int) \<Longrightarrow> x smod 8192 = x mod 8192"
  by (simp add: signed_modulo_int_def sgn_if)

lemma alignUp_cases:
  assumes "0 \<le> off"
  obtains k where "alignUp off = 8192 * k" and "off \<le> alignUp off" and "alignUp off < off + 8192"
proof -
  have q: "off = 8192 * (off div 8192) + off mod 8192" by simp
  have m: "0 \<le> off mod 8192" "off mod 8192 < 8192" by simp_all
  have a: "alignUp off = (if off mod 8192 \<noteq> 0 then off + (8192 - off mod 8192) else off)"
    using assms by (simp add: alignUp_def PARTITION_ALIGNMENT_def smod_pos)
  show thesis
  proof (cases "off mod 8192 = 0")
    case True
    then show thesis using a q that [of "off div 8192"] by simp
  next
    case False
    then have a2: "alignUp off = off + (8192 - off mod 8192)" using a by simp
    also have "\<dots> = 8192 * (off div 8192 + 1)" by (simp add: minus_mod_eq_mult_div [symmetric])
    finally have "alignUp off = 8192 * (off div 8192 + 1)" .
    then show thesis using a2 m False that [of "off div 8192 + 1"] by simp
  qed
qed

lemma alignUp_mono_mult: "0 \<le> off \<Longrightarrow> off \<le> 8192 * k \<Longrightarrow> alignUp off \<le> 8192 * k"
proof (erule alignUp_cases)
  fix k' assume "off \<le> 8192 * k" "alignUp off = 8192 * k'" "alignUp off < off + 8192"
  then have "8192 * k' < 8192 * (k + 1)" by simp
  then have "k' < k + 1" by (simp only: mult_less_cancel_left_pos)
  with \<open>alignUp off = 8192 * k'\<close> show ?thesis by simp
qed

lemma alignUp_mult: "0 \<le> off \<Longrightarrow> 8192 dvd alignUp off"
  by (erule alignUp_cases) simp

lemma alignUp_lt: "0 \<le> off \<Longrightarrow> alignUp off < off + 8192"
  by (erule alignUp_cases)

lemma placeOffset_gt: "placeOffset off p = Some o1 \<Longrightarrow> off < o1"
  using alignUp_ge [of "off + 2"]
  by (auto simp: placeOffset_def PARTITION_GAP_def split: if_splits)

lemma placeSize_pos:
  assumes "1 \<le> p_partitionSizeNominal p" and "0 \<le> extra"
  shows "0 < placeSize extra tot l off p"
proof -
  have "2048 \<le> (p_partitionSizeNominal p + (if p_wantMaximised p then extra else 0)) * 2048"
    using assms by auto
  then show ?thesis
    using smod_bounds by (auto simp: placeSize_def Let_def PARTITION_ALIGNMENT_def PARTITION_GAP_def add_pos_pos)
qed

fun orderedFrom :: "int \<Rightarrow> (int \<times> int) list \<Rightarrow> bool" where
  "orderedFrom off [] \<longleftrightarrow> True"
| "orderedFrom off ((o1, n) # xs) \<longleftrightarrow> off < o1 \<and> 0 < n \<and> orderedFrom (o1 + n) xs"

lemma layoutPlan_ordered:
  assumes "layoutPlan extra tot off ps = Some xs" and "0 \<le> extra"
    and "\<forall>p \<in> set ps. 1 \<le> p_partitionSizeNominal p"
  shows "orderedFrom off xs"
  using assms
  by (induction ps arbitrary: off xs)
    (auto simp: Let_def placeOffset_gt placeSize_pos split: option.splits)

lemma orderedFrom_lower: "orderedFrom off xs \<Longrightarrow> x \<in> set xs \<Longrightarrow> off < fst x"
proof (induction off xs rule: orderedFrom.induct)
  case (2 off o1 n xs)
  then show ?case by fastforce
qed simp

lemma orderedFrom_sorted:
  "orderedFrom off xs \<Longrightarrow> sorted_wrt (\<lambda>a b. fst a + snd a < fst b) xs"
  by (induction off xs rule: orderedFrom.induct) (auto dest: orderedFrom_lower)

section \<open>Space bounds\<close>

text \<open>
  The MiB that \<open>checkPartition\<close> books for a partition, in sectors, with its share of the extra
  space; and the partitions for which the booking is enough: sizes in whole MiB, not placed at a
  fixed offset and not \<open>raw\<close> (a raw partition is not shrunk, so the gap behind it is not
  booked).
\<close>

definition booked :: "pinfo \<Rightarrow> int" where
  "booked p = p_partitionSizeNominal p +
     (if p_wantMaximised p \<or> (p_partitionSizeNominal p * 2048) smod PARTITION_ALIGNMENT \<noteq> 0 then 4 else 0)"

definition share :: "int \<Rightarrow> pinfo \<Rightarrow> int" where
  "share extra p = (if p_wantMaximised p then extra else 0)"

definition floating :: "pinfo \<Rightarrow> bool" where
  "floating p \<longleftrightarrow> p_offset p = 0 \<and> p_fstype p \<noteq> ''raw'' \<and> 1 \<le> p_partitionSizeNominal p"

lemma smod_8192_mult: "(2048 * x) smod 8192 = 0 \<longleftrightarrow> 4 dvd (x::int)"
proof -
  have "(2048 * x) smod 8192 = 0 \<longleftrightarrow> (8192::int) dvd 2048 * x"
    by (simp add: signed_modulo_int_def dvd_eq_mod_eq_0 [symmetric] sgn_if)
  also have "\<dots> \<longleftrightarrow> (2048 * 4 :: int) dvd 2048 * x" by simp
  also have "\<dots> \<longleftrightarrow> 4 dvd x" by (subst dvd_mult_cancel_left) simp
  finally show ?thesis .
qed

text \<open>
  A partition that is not the last one, started at the aligned sector \<open>b\<close>: the next aligned start
  is within what was booked.
\<close>

lemma placeSize_next:
  assumes f: "floating p" and b: "8192 dvd b" "0 \<le> b" and e: "0 \<le> extra"
  shows "alignUp (b + placeSize extra tot False b p + 2) \<le> b + 2048 * (booked p + share extra p)"
    and "0 < placeSize extra tot False b p"
proof -
  define m where "m = p_partitionSizeNominal p + share extra p"
  define n where "n = placeSize extra tot False b p"
  have m: "1 \<le> m" using f e by (auto simp: m_def floating_def share_def)
  have n0: "(p_partitionSizeNominal p + (if p_wantMaximised p then extra else 0)) * 2048 = 2048 * m"
    by (simp add: m_def share_def)
  have n: "n = (let n1 = (if 4 dvd m then 2048 * m - 2 else 2048 * m)
      in if p_wantMaximised p \<and> (n1 + 2) smod 8192 \<noteq> 0 then n1 + (8192 - (n1 + 2) smod 8192) else n1)"
    using f n0 smod_8192_mult [of m]
    unfolding n_def placeSize_def n0 Let_def PARTITION_ALIGNMENT_def PARTITION_GAP_def floating_def by simp
  show "0 < placeSize extra tot False b p"
    using f e by (auto intro: placeSize_pos simp: floating_def)
  obtain c where c: "b = 8192 * c" using b(1) by blast
  show "alignUp (b + placeSize extra tot False b p + 2) \<le> b + 2048 * (booked p + share extra p)"
    unfolding n_def [symmetric]
  proof (cases "4 dvd m")
    case True
    then have "n = 2048 * m - 2" using n smod_8192_mult [of m] by (simp add: Let_def)
    moreover have "8192 dvd b + 2048 * m" using True b(1) by (auto elim!: dvdE)
    then have "alignUp (b + 2048 * m) = b + 2048 * m"
      using b(2) m by (simp add: alignUp_def PARTITION_ALIGNMENT_def smod_pos)
    ultimately show "alignUp (b + n + 2) \<le> b + 2048 * (booked p + share extra p)"
      by (simp add: booked_def m_def)
  next
    case False
    have four: "booked p = p_partitionSizeNominal p + 4"
      using False smod_8192_mult [of "p_partitionSizeNominal p"]
      by (auto simp: booked_def m_def share_def PARTITION_ALIGNMENT_def mult.commute)
    have nn: "0 \<le> 2048 * m + 2" using m by simp
    obtain k where k: "alignUp (2048 * m + 2) = 8192 * k" "2048 * m + 2 \<le> 8192 * k" "8192 * k < 2048 * m + 2 + 8192"
      by (rule alignUp_cases [OF nn]) simp
    have "2048 * (4 * k) < 2048 * (m + 5)" using k(3) by simp
    then have "4 * k < m + 5" by (simp only: mult_less_cancel_left_pos)
    then have le: "8192 * k \<le> 2048 * (m + 4)" by simp
    have up: "8192 * k = (if (2048 * m + 2) smod 8192 \<noteq> 0
        then 2048 * m + 2 + (8192 - (2048 * m + 2) smod 8192) else 2048 * m + 2)"
      unfolding k(1) [symmetric] alignUp_def PARTITION_ALIGNMENT_def ..
    have "n + 2 \<le> 8192 * k"
    proof (cases "p_wantMaximised p \<and> (2048 * m + 2) smod 8192 \<noteq> 0")
      case True
      then have "n = 2048 * m + (8192 - (2048 * m + 2) smod 8192)"
        using n False by (simp add: Let_def)
      then show ?thesis using up True by simp
    next
      case w: False
      then have "n = 2048 * m" using n False by (auto simp: Let_def)
      then show ?thesis using k(2) by simp
    qed
    moreover have "0 < n" using f e by (auto intro: placeSize_pos simp: n_def floating_def)
    ultimately have "b + n + 2 \<le> 8192 * (c + k)" and "0 \<le> b + n + 2" using c b(2) by simp_all
    then have "alignUp (b + n + 2) \<le> 8192 * (c + k)"
      by (intro alignUp_mono_mult)
    then show "alignUp (b + n + 2) \<le> b + 2048 * (booked p + share extra p)"
      using le c four by (simp add: m_def algebra_simps)
  qed
qed

lemma placeSize_last:
  assumes "floating p" and "0 \<le> extra"
  shows "b + placeSize extra tot True b p \<le> max tot (b + 2048 * (booked p + share extra p))"
    and "0 < placeSize extra tot True b p"
proof -
  have "b + (p_partitionSizeNominal p + share extra p) * 2048 \<le> b + 2048 * (booked p + share extra p)"
    by (simp add: booked_def)
  then show "b + placeSize extra tot True b p \<le> max tot (b + 2048 * (booked p + share extra p))"
    unfolding placeSize_def Let_def share_def [symmetric] by auto
  show "0 < placeSize extra tot True b p"
    using assms by (auto intro: placeSize_pos simp: floating_def)
qed

lemma cost_nonneg: "floating p \<Longrightarrow> 0 \<le> extra \<Longrightarrow> 0 \<le> booked p + share extra p"
  by (auto simp: booked_def share_def floating_def)

definition planCost :: "int \<Rightarrow> pinfo list \<Rightarrow> int" where
  "planCost extra ps = (\<Sum>p\<leftarrow>ps. booked p + share extra p)"

lemma planCost_nonneg: "\<forall>p \<in> set ps. floating p \<Longrightarrow> 0 \<le> extra \<Longrightarrow> 0 \<le> planCost extra ps"
  unfolding planCost_def by (rule sum_list_nonneg) (auto simp: cost_nonneg)

lemma floating_placeOffset: "floating p \<Longrightarrow> placeOffset off p = Some (alignUp (off + 2))"
  by (simp add: floating_def placeOffset_def PARTITION_GAP_def)

lemma layoutPlan_floating:
  "\<forall>p \<in> set ps. floating p \<Longrightarrow> \<exists>xs. layoutPlan extra tot off ps = Some xs"
proof (induction ps arbitrary: off)
  case (Cons p ps)
  then show ?case
    by (auto simp: floating_placeOffset Let_def split: option.splits)
qed simp

lemma layoutPlan_fits:
  assumes "layoutPlan extra tot off ps = Some xs" and "\<forall>p \<in> set ps. floating p"
    and "0 \<le> extra" and "0 \<le> off" and "x \<in> set xs"
  shows "fst x + snd x \<le> max tot (alignUp (off + 2) + 2048 * planCost extra ps)"
  using assms
proof (induction ps arbitrary: off xs)
  case Nil
  then show ?case by simp
next
  case (Cons p ps)
  define b where "b = alignUp (off + 2)"
  define n where "n = placeSize extra tot (ps = []) b p"
  have fp: "floating p" and fps: "\<forall>p \<in> set ps. floating p" using Cons.prems(2) by auto
  have b: "8192 dvd b" "0 \<le> b" using Cons.prems(4) alignUp_mult [of "off + 2"] alignUp_ge [of "off + 2"]
    by (auto simp: b_def)
  from Cons.prems(1) obtain ys where ys: "layoutPlan extra tot (b + n) ps = Some ys" and xs: "xs = (b, n) # ys"
    by (auto simp: floating_placeOffset [OF fp] b_def n_def Let_def split: option.splits)
  show ?case
  proof (cases "ps = []")
    case True
    then show ?thesis
      using Cons.prems(3,5) ys xs placeSize_last(1) [OF fp, of extra b tot]
      by (simp add: n_def planCost_def b_def)
  next
    case False
    then have nx: "alignUp (b + n + 2) \<le> b + 2048 * (booked p + share extra p)" and np: "0 < n"
      using placeSize_next [OF fp b Cons.prems(3), of tot] by (simp_all add: n_def)
    have pc: "planCost extra (p # ps) = booked p + share extra p + planCost extra ps"
      by (simp add: planCost_def)
    show ?thesis
    proof (cases "x = (b, n)")
      case True
      have "b + n \<le> alignUp (b + n + 2)" using alignUp_ge [of "b + n + 2"] by simp
      then show ?thesis using True nx pc planCost_nonneg [OF fps Cons.prems(3)] by (simp add: b_def [symmetric])
    next
      case False
      then have "x \<in> set ys" using Cons.prems(5) xs by simp
      then have "fst x + snd x \<le> max tot (alignUp (b + n + 2) + 2048 * planCost extra ps)"
        using Cons.IH [OF ys fps Cons.prems(3)] b(2) np by simp
      then show ?thesis using nx pc by (simp add: b_def [symmetric])
    qed
  qed
qed

end
