(* ===== verification/InstallCheck.thy ===== *)
theory InstallCheck
  imports InstallLayout
begin

text \<open>
  What the checks of \<open>InstallManager\<close> establish before anything is written: the invariant of the
  partition map under \<open>checkPartition\<close>, the bookkeeping of sizes, and from both the correctness of
  a prepared layout.
\<close>

section \<open>The partition map invariant\<close>

definition map_inv :: "imst \<Rightarrow> bool" where
  "map_inv s \<longleftrightarrow>
     om_wf (im_partitionMap s) \<and>
     \<not> om_contains (im_partitionMap s) 1 \<and> \<not> om_contains (im_partitionMap s) 5 \<and>
     \<not> (om_contains (im_partitionMap s) 2 \<and> om_contains (im_partitionMap s) 4) \<and>
     (\<forall>k p. om_find (im_partitionMap s) k = Some p \<longrightarrow>
        p < length (im_heap s) \<and> p_partitionDevice (im_get s p) = ''/dev/mmcblk0p'' @ int_str k)"

text \<open>The state a successful \<open>checkPartition\<close> ends in, as one update.\<close>

definition checked :: "(int \<Rightarrow> int \<Rightarrow> int) \<Rightarrow> ptr \<Rightarrow> int \<Rightarrow> imst \<Rightarrow> imst" where
  "checked ov pp k s =
     (let p = im_get s pp in
      s\<lparr>im_numparts := im_numparts s + 1,
        im_numexpandparts := im_numexpandparts s + (if p_wantMaximised p then 1 else 0),
        im_totalnominalsize := im_totalnominalsize s + booked p,
        im_totaluncompressedsize :=
          (let u = im_totaluncompressedsize s + p_uncompressedTarballSize p
           in if p_fstype p = ''ext4'' then ov u (im_totalnominalsize s + p_partitionSizeNominal p) else u),
        im_partitionMap := om_insert k pp (im_partitionMap s),
        im_heap := (im_heap s)[pp := p\<lparr>p_partitionDevice := ''/dev/mmcblk0p'' @ int_str k\<rparr>]\<rparr>)"

definition acceptable :: "imst \<Rightarrow> int \<Rightarrow> bool" where
  "acceptable s k \<longleftrightarrow>
     \<not> om_contains (im_partitionMap s) k \<and> k \<noteq> 1 \<and> k \<noteq> 5 \<and>
     \<not> (k = 2 \<and> om_contains (im_partitionMap s) 4) \<and> \<not> (k = 4 \<and> om_contains (im_partitionMap s) 2)"

lemma requiredPart_cong:
  "im_partitionMap s' = im_partitionMap s \<Longrightarrow> requiredPart s' p = requiredPart s p"
  by (simp add: requiredPart_def)

definition counted :: "(int \<Rightarrow> int \<Rightarrow> int) \<Rightarrow> ptr \<Rightarrow> imst \<Rightarrow> imst" where
  "counted ov pp s =
     (let p = im_get s pp;
          u = im_totaluncompressedsize s + p_uncompressedTarballSize p;
          t = im_totalnominalsize s + p_partitionSizeNominal p
      in s\<lparr>im_numparts := im_numparts s + 1,
           im_numexpandparts := im_numexpandparts s + (if p_wantMaximised p then 1 else 0),
           im_totalnominalsize := t,
           im_totaluncompressedsize := (if p_fstype p = ''ext4'' then ov u t else u)\<rparr>)"

lemma counted_simps [simp]:
  "im_partitionMap (counted ov pp s) = im_partitionMap s"
  "im_heap (counted ov pp s) = im_heap s"
  "requiredPart (counted ov pp s) p = requiredPart s p"
  by (simp_all add: counted_def Let_def requiredPart_def)

lemma checkPartition_counted:
  "checkPartition ov pp s =
     (let p = im_get s pp; k = requiredPart s p; s4 = counted ov pp s in
      if \<not> acceptable s k then (False, s4)
      else (True, s4\<lparr>im_partitionMap := om_insert k pp (im_partitionMap s),
                     im_heap := (im_heap s)[pp := p\<lparr>p_partitionDevice := ''/dev/mmcblk0p'' @ int_str k\<rparr>],
                     im_totalnominalsize := im_totalnominalsize s + booked p\<rparr>))"
proof -
  define s4 where "s4 = counted ov pp s"
  have c: "(let s1 = s\<lparr>im_numparts := im_numparts s + 1\<rparr>;
          s2 = (if p_wantMaximised (im_get s pp) then s1\<lparr>im_numexpandparts := im_numexpandparts s1 + 1\<rparr> else s1);
          s3 = s2\<lparr>im_totalnominalsize := im_totalnominalsize s2 + p_partitionSizeNominal (im_get s pp),
                  im_totaluncompressedsize := im_totaluncompressedsize s2 + p_uncompressedTarballSize (im_get s pp)\<rparr>
      in (if p_fstype (im_get s pp) = ''ext4'' then
            s3\<lparr>im_totaluncompressedsize := ov (im_totaluncompressedsize s3) (im_totalnominalsize s3)\<rparr>
          else s3)) = s4"
    by (cases s) (simp add: s4_def counted_def Let_def im_get_def)
  have t: "im_totalnominalsize s4 = im_totalnominalsize s + p_partitionSizeNominal (im_get s pp)"
    by (simp add: s4_def counted_def Let_def)
  have m: "im_partitionMap s4 = im_partitionMap s" "im_heap s4 = im_heap s"
      "requiredPart s4 p = requiredPart s p" for p
    by (simp_all add: s4_def)
  show ?thesis
    unfolding checkPartition_def c [unfolded Let_def, symmetric, THEN sym] s4_def [symmetric]
    using c t m
    by (simp add: Let_def im_set_def im_get_def acceptable_def booked_def PARTITION_ALIGNMENT_def)
qed

lemma checkPartition_fst: "fst (checkPartition ov pp s) \<longleftrightarrow> acceptable s (requiredPart s (im_get s pp))"
  by (simp add: checkPartition_counted Let_def)

lemma checkPartition_snd:
  "fst (checkPartition ov pp s) \<Longrightarrow>
     snd (checkPartition ov pp s) = checked ov pp (requiredPart s (im_get s pp)) s"
  unfolding checkPartition_fst
  by (simp add: checkPartition_counted checked_def counted_def Let_def)

lemma checkPartition_ok:
  "checkPartition ov pp s = (True, s') \<longleftrightarrow>
     acceptable s (requiredPart s (im_get s pp)) \<and> s' = checked ov pp (requiredPart s (im_get s pp)) s"
  using checkPartition_fst [of ov pp s] checkPartition_snd [of ov pp s]
  by (metis fst_conv prod.exhaust_sel snd_conv)

lemma checked_get:
  "pp < length (im_heap s) \<Longrightarrow>
     im_get (checked ov pp k s) q =
       (if q = pp then (im_get s pp)\<lparr>p_partitionDevice := ''/dev/mmcblk0p'' @ int_str k\<rparr> else im_get s q)"
  by (simp add: checked_def im_get_def Let_def)

lemma checked_simps [simp]:
  "im_partitionMap (checked ov pp k s) = om_insert k pp (im_partitionMap s)"
  "im_totalnominalsize (checked ov pp k s) = im_totalnominalsize s + booked (im_get s pp)"
  "im_numexpandparts (checked ov pp k s) = im_numexpandparts s + (if p_wantMaximised (im_get s pp) then 1 else 0)"
  "im_startSector (checked ov pp k s) = im_startSector s"
  "im_totalSectors (checked ov pp k s) = im_totalSectors s"
  "im_availableMB (checked ov pp k s) = im_availableMB s"
  "im_extraSpacePerPartition (checked ov pp k s) = im_extraSpacePerPartition s"
  "length (im_heap (checked ov pp k s)) = length (im_heap s)"
  by (simp_all add: checked_def Let_def)

lemma checked_map_inv:
  assumes inv: "map_inv s" and ok: "acceptable s k" and pp: "pp < length (im_heap s)"
    and fresh: "pp \<notin> set (om_values (im_partitionMap s))"
  shows "map_inv (checked ov pp k s)"
proof -
  have w: "om_wf (im_partitionMap s)" using inv by (simp add: map_inv_def)
  have old: "p \<noteq> pp" if "om_find (im_partitionMap s) j = Some p" for j p
    using that fresh om_values_find [OF w] by metis
  show ?thesis
    unfolding map_inv_def checked_simps om_contains_insert [OF w] om_find_insert [OF w]
    using inv ok pp om_insert_wf [OF w] old
    by (auto simp: map_inv_def acceptable_def checked_get split: if_splits)
qed

section \<open>Bookkeeping over all partitions of an image\<close>

lemma om_insert_fresh_mset:
  "om_find m k = None \<Longrightarrow> mset (om_insert k v m) = add_mset (k, v) (mset m)"
  by (induction k v m rule: om_insert.induct) (auto simp: om_find_def split: if_splits)

lemma om_values_insert_fresh:
  "om_find m k = None \<Longrightarrow> mset (om_values (om_insert k v m)) = add_mset v (mset (om_values m))"
  unfolding om_values_def by (simp only: mset_map om_insert_fresh_mset) simp

definition sameButDevice :: "pinfo \<Rightarrow> pinfo \<Rightarrow> bool" where
  "sameButDevice p q \<longleftrightarrow> q = p\<lparr>p_partitionDevice := p_partitionDevice q\<rparr>"

lemma sameButDevice_simps:
  "sameButDevice p q \<Longrightarrow> booked q = booked p \<and> share e q = share e p \<and> floating q = floating p \<and>
     p_offset q = p_offset p \<and> p_requiresPartitionNumber q = p_requiresPartitionNumber p \<and>
     p_wantMaximised q = p_wantMaximised p"
  by (cases p; cases q) (simp add: sameButDevice_def booked_def share_def floating_def)

definition checkDone :: "ptr list \<Rightarrow> imst \<Rightarrow> imst \<Rightarrow> bool" where
  "checkDone cs s s' \<longleftrightarrow>
     mset (om_values (im_partitionMap s')) = mset (om_values (im_partitionMap s)) + mset cs \<and>
     im_totalnominalsize s' = im_totalnominalsize s + (\<Sum>p\<leftarrow>cs. booked (im_get s p)) \<and>
     im_numexpandparts s' = im_numexpandparts s + (\<Sum>p\<leftarrow>cs. if p_wantMaximised (im_get s p) then 1 else 0) \<and>
     im_startSector s' = im_startSector s \<and> im_totalSectors s' = im_totalSectors s \<and>
     im_availableMB s' = im_availableMB s \<and> length (im_heap s') = length (im_heap s) \<and>
     im_extraSpacePerPartition s' = im_extraSpacePerPartition s \<and>
     (\<forall>q. sameButDevice (im_get s q) (im_get s' q))"

lemma sameButDevice_trans: "sameButDevice a b \<Longrightarrow> sameButDevice b c \<Longrightarrow> sameButDevice a c"
  unfolding sameButDevice_def by (metis pinfo.surjective pinfo.update_convs(4))

lemma checkPartitions_done:
  assumes "checkPartitions ov cs s = (True, s')" and "distinct cs" and "set cs \<subseteq> {..<length (im_heap s)}"
    and "map_inv s" and "set cs \<inter> set (om_values (im_partitionMap s)) = {}"
  shows "map_inv s' \<and> checkDone cs s s'"
  using assms
proof (induction cs arbitrary: s)
  case Nil
  then show ?case by (simp add: checkDone_def sameButDevice_def)
next
  case (Cons p cs)
  define k where "k = requiredPart s (im_get s p)"
  define s1 where "s1 = checked ov p k s"
  from Cons.prems(1) have acc: "acceptable s k" and run: "checkPartitions ov cs s1 = (True, s')"
    by (auto simp: k_def s1_def checkPartition_ok Let_def split: prod.splits if_splits)
  have pin: "p < length (im_heap s)" and fresh: "p \<notin> set (om_values (im_partitionMap s))"
    using Cons.prems(3,5) by auto
  have fk: "om_find (im_partitionMap s) k = None" using acc by (simp add: acceptable_def om_contains_def)
  have mv: "mset (om_values (im_partitionMap s1)) = add_mset p (mset (om_values (im_partitionMap s)))"
    by (simp add: s1_def om_values_insert_fresh [OF fk])
  have inv1: "map_inv s1" unfolding s1_def by (rule checked_map_inv [OF Cons.prems(4) acc pin fresh])
  have "set (om_values (im_partitionMap s1)) = insert p (set (om_values (im_partitionMap s)))"
    using mv by (metis set_mset_add_mset_insert set_mset_mset)
  then have "map_inv s' \<and> checkDone cs s1 s'"
    using Cons.prems(2,3,5) inv1 run by (intro Cons.IH) (auto simp: s1_def)
  moreover have g: "im_get s1 q = im_get s q" if "q \<in> set cs" for q
    using that Cons.prems(2) checked_get [OF pin] by (auto simp: s1_def)
  moreover have "sameButDevice (im_get s q) (im_get s1 q)" for q
    using checked_get [OF pin] by (auto simp: s1_def sameButDevice_def)
  ultimately show ?case
    using mv unfolding checkDone_def by (auto simp: s1_def intro: sameButDevice_trans cong: map_cong)
qed

section \<open>Numbers in the map\<close>

text \<open>A partition stands at the number it asks for, or at a number from 6 on when it asks for none.\<close>

definition numbered :: "imst \<Rightarrow> bool" where
  "numbered s \<longleftrightarrow>
     (\<forall>k p. om_find (im_partitionMap s) k = Some p \<longrightarrow>
        p_requiresPartitionNumber (im_get s p) = k \<and> k \<noteq> 0 \<or>
        p_requiresPartitionNumber (im_get s p) = 0 \<and> 6 \<le> k)"

lemma requiredPart_number:
  "p_requiresPartitionNumber p = requiredPart s p \<and> requiredPart s p \<noteq> 0 \<or>
   p_requiresPartitionNumber p = 0 \<and> 6 \<le> requiredPart s p"
  by (auto simp: requiredPart_def)

lemma checked_numbered:
  assumes "numbered s" and "om_wf (im_partitionMap s)" and "pp < length (im_heap s)"
  shows "numbered (checked ov pp (requiredPart s (im_get s pp)) s)"
proof -
  have "p_requiresPartitionNumber (im_get (checked ov pp k s) q) = p_requiresPartitionNumber (im_get s q)" for k q
    using assms(3) by (simp add: checked_get)
  then show ?thesis
    using assms(1) requiredPart_number [of "im_get s pp" s]
    unfolding numbered_def checked_simps om_find_insert [OF assms(2)] by (auto split: if_splits)
qed

lemma checkPartitions_numbered:
  assumes "checkPartitions ov cs s = (True, s')" and "numbered s" and "om_wf (im_partitionMap s)"
    and "set cs \<subseteq> {..<length (im_heap s)}"
  shows "numbered s'"
  using assms
proof (induction cs arbitrary: s)
  case (Cons p cs)
  define s1 where "s1 = checked ov p (requiredPart s (im_get s p)) s"
  have "checkPartitions ov cs s1 = (True, s')"
    using Cons.prems(1) by (auto simp: s1_def checkPartition_ok Let_def split: prod.splits if_splits)
  moreover have "numbered s1" using checked_numbered Cons.prems(2-4) by (auto simp: s1_def)
  ultimately show ?case using Cons.prems(3,4) by (intro Cons.IH [of s1]) (auto simp: s1_def om_insert_wf)
qed simp

end
