(* ===== verification/InstallPlan.thy ===== *)
theory InstallPlan
  imports InstallCheck
begin

text \<open>
  The guarantees of \<open>prepareImage\<close> as a whole: the checked partitions are laid out in disjoint,
  aligned regions behind the settings partition, inside the card; a full card is refused; and the
  case the space bookkeeping misses (a \<open>raw\<close> partition).
\<close>

section \<open>From the checks to the layout\<close>

lemma moveFirst_mset: "mset (moveFirst n s ps) = mset ps"
  by (cases ps) (auto simp: moveFirst_def)

lemma logBeforePrim_mset: "mset (logBeforePrim s) = mset (om_values (im_partitionMap s))"
  by (simp add: logBeforePrim_def moveFirst_mset)

definition freshInstaller :: "imst \<Rightarrow> bool" where
  "freshInstaller s \<longleftrightarrow>
     im_partitionMap s = [] \<and> im_totalnominalsize s = 0 \<and> im_numexpandparts s = 0 \<and>
     im_extraSpacePerPartition s = 0 \<and> 0 \<le> im_startSector s \<and>
     im_availableMB s = (im_totalSectors s - im_startSector s) sdiv 2048"

definition floatingImage :: "imst \<Rightarrow> ptr list \<Rightarrow> bool" where
  "floatingImage s parts \<longleftrightarrow>
     distinct parts \<and> set parts \<subseteq> {..<length (im_heap s)} \<and> (\<forall>p \<in> set parts. floating (im_get s p))"

lemma freshInstaller_inv: "freshInstaller s \<Longrightarrow> map_inv s"
  by (simp add: freshInstaller_def map_inv_def om_contains_def)

lemma sdiv_nonneg: "0 \<le> (a::int) \<Longrightarrow> 0 < b \<Longrightarrow> a sdiv b = a div b"
  by (simp add: signed_divide_int_def sgn_if)

text \<open>What a successful \<open>prepareImage\<close> has computed: the plan of some order of the partitions.\<close>

definition preparedPlan :: "imst \<Rightarrow> ptr list \<Rightarrow> imst \<Rightarrow> ptr list \<Rightarrow> int \<Rightarrow> (int \<times> int) list \<Rightarrow> bool" where
  "preparedPlan s parts s' ps extra xs \<longleftrightarrow>
     distinct ps \<and> set ps = set parts \<and> length xs = length ps \<and> 0 \<le> extra \<and>
     logBeforePrim s' = ps \<and> map_inv s' \<and> numbered s' \<and>
     (\<forall>p. p_requiresPartitionNumber (im_get s' p) = p_requiresPartitionNumber (im_get s p)) \<and>
     (\<exists>qs. layoutPlan extra (im_totalSectors s) (im_startSector s) qs = Some xs \<and>
        length qs = length ps \<and> (\<forall>q \<in> set qs. floating q) \<and>
        planCost extra qs \<le> im_availableMB s \<and>
        (\<forall>i < length ps. im_get s' (ps ! i) = placed (qs ! i) (xs ! i)))"

lemma planCost_split: "planCost e qs = (\<Sum>q\<leftarrow>qs. booked q) + (\<Sum>q\<leftarrow>qs. share e q)"
  by (simp add: planCost_def sum_list_addf)

lemma share_sum: "(\<Sum>q\<leftarrow>qs. share e q) = e * (\<Sum>q\<leftarrow>qs. if p_wantMaximised q then 1 else 0)"
  by (induction qs) (auto simp: share_def algebra_simps)

lemma checkDone_cost:
  assumes "checkDone parts s s1" and "freshInstaller s" and "mset ps = mset parts"
  shows "planCost e (map (im_get s1) ps) = im_totalnominalsize s1 + e * im_numexpandparts s1"
proof -
  have sb: "sameButDevice (im_get s p) (im_get s1 p)" for p
    using assms(1) by (simp add: checkDone_def)
  have "(\<Sum>p\<leftarrow>ps. booked (im_get s1 p)) = (\<Sum>p\<leftarrow>parts. booked (im_get s p))"
    using sameButDevice_simps [OF sb] assms(3) by (metis (no_types, lifting) map_eq_conv mset_map sum_mset_sum_list)
  moreover have "(\<Sum>p\<leftarrow>ps. share e (im_get s1 p)) = (\<Sum>p\<leftarrow>parts. share e (im_get s p))"
    using sameButDevice_simps [OF sb] assms(3) by (metis (no_types, lifting) map_eq_conv mset_map sum_mset_sum_list)
  ultimately show ?thesis
    using assms(1,2) by (simp add: planCost_split o_def checkDone_def freshInstaller_def share_sum [of e "map (im_get s) parts", unfolded map_map o_def])
qed

lemma checkImage_plain:
  "\<not> contains_ci name ''risc'' \<Longrightarrow> checkImage ov name parts s = (True, s1) \<longleftrightarrow>
     parts \<noteq> [] \<and> checkPartitions ov parts s = (True, s1)"
  by (auto simp: checkImage_def)

lemma booked_pos: "floating p \<Longrightarrow> 1 \<le> booked p"
  by (auto simp: booked_def floating_def)

text \<open>The layout leaves numbers, devices and the map alone.\<close>

lemma layoutDone_frame:
  assumes "layoutDone ps s xs s'"
  shows "im_partitionMap s' = im_partitionMap s"
    and "length (im_heap s') = length (im_heap s)"
    and "p_requiresPartitionNumber (im_get s' q) = p_requiresPartitionNumber (im_get s q)"
    and "p_partitionDevice (im_get s' q) = p_partitionDevice (im_get s q)"
proof -
  have h: "s' = s\<lparr>im_heap := im_heap s'\<rparr>" using assms by (simp add: layoutDone_def)
  then show "im_partitionMap s' = im_partitionMap s" by (metis imst.select_convs(10) imst.surjective imst.update_convs(11))
  show "length (im_heap s') = length (im_heap s)" using assms by (simp add: layoutDone_def)
  have "\<exists>x. im_get s' q = placed (im_get s q) x \<or> im_get s' q = im_get s q"
  proof (cases "q \<in> set ps")
    case True
    then obtain i where i: "i < length ps" "ps ! i = q" by (auto simp: in_set_conv_nth)
    have "map (im_get s') ps ! i = map2 placed (map (im_get s) ps) xs ! i" "length xs = length ps"
      using assms by (simp_all add: layoutDone_def)
    with i have "im_get s' q = placed (im_get s q) (xs ! i)" by auto
    then show ?thesis by blast
  qed (use assms in \<open>auto simp: layoutDone_def\<close>)
  then show "p_requiresPartitionNumber (im_get s' q) = p_requiresPartitionNumber (im_get s q)"
    "p_partitionDevice (im_get s' q) = p_partitionDevice (im_get s q)"
    by (auto simp: placed_def)
qed

lemma prepareImage_plan:
  assumes run: "prepareImage ov name parts s = (True, s')" and fresh: "freshInstaller s"
    and fl: "floatingImage s parts" and plain: "\<not> contains_ci name ''risc''"
  shows "\<exists>ps extra xs. preparedPlan s parts s' ps extra xs"
proof -
  obtain s1 where ck: "parts \<noteq> []" "checkPartitions ov parts s = (True, s1)"
    and calc: "calculateSpaceRequirements s1 = (True, s')"
    using run checkImage_plain [OF plain, of ov parts s] by (auto simp: prepareImage_def split: prod.splits if_splits)
  have dn: "map_inv s1" "checkDone parts s s1"
    using checkPartitions_done [OF ck(2)] fl fresh freshInstaller_inv [OF fresh]
    by (auto simp: floatingImage_def freshInstaller_def om_values_def)
  have sb: "sameButDevice (im_get s p) (im_get s1 p)" for p using dn(2) by (simp add: checkDone_def)
  define e where "e = (if im_numexpandparts s1 \<noteq> 0
      then (im_availableMB s1 - im_totalnominalsize s1) sdiv im_numexpandparts s1
      else im_extraSpacePerPartition s1)"
  define s2 where "s2 = s1\<lparr>im_extraSpacePerPartition := e\<rparr>"
  have s2: "s2 = (if im_numexpandparts s1 \<noteq> 0 then s1\<lparr>im_extraSpacePerPartition :=
      (im_availableMB s1 - im_totalnominalsize s1) sdiv im_numexpandparts s1\<rparr> else s1)"
    by (simp add: s2_def e_def)
  define ps where "ps = logBeforePrim s2"
  have sp: "im_totalnominalsize s1 \<le> im_availableMB s1"
    and loop: "layoutLoop (last ps) ps (im_startSector s2) s2 = (True, s')"
    using calc unfolding calculateSpaceRequirements_def s2 [symmetric] Let_def ps_def [symmetric]
    by (auto simp: s2_def split: if_splits)
  have e2: "im_extraSpacePerPartition s2 = e" by (simp add: s2_def)
  have g2: "im_get s2 = im_get s1" by (simp add: s2_def im_get_def fun_eq_iff)
  have ps: "mset ps = mset parts"
    using dn(2) fresh
    by (simp add: ps_def logBeforePrim_mset s2_def checkDone_def freshInstaller_def om_values_def)
  have dps: "distinct ps" "set ps = set parts"
    using ps fl by (metis floatingImage_def mset_eq_imp_distinct_iff) (metis ps mset_eq_setD)
  have flp: "\<forall>q \<in> set (map (im_get s1) ps). floating q"
    using fl dps(2) sameButDevice_simps [OF sb] by (auto simp: floatingImage_def)
  have n0: "0 \<le> im_numexpandparts s1"
    using dn(2) fresh by (auto simp: checkDone_def freshInstaller_def intro!: sum_list_nonneg)
  have e0: "0 \<le> e" and ele: "e * im_numexpandparts s1 \<le> im_availableMB s1 - im_totalnominalsize s1"
  proof -
    have d: "im_numexpandparts s1 \<noteq> 0 \<Longrightarrow>
        e = (im_availableMB s1 - im_totalnominalsize s1) div im_numexpandparts s1"
      using n0 sp sdiv_nonneg by (simp add: e_def)
    have z: "im_numexpandparts s1 = 0 \<Longrightarrow> e = 0"
      using dn(2) fresh by (simp add: e_def checkDone_def freshInstaller_def)
    show "0 \<le> e" using d z n0 sp by (cases "im_numexpandparts s1 = 0") (auto simp: pos_imp_zdiv_nonneg_iff)
    show "e * im_numexpandparts s1 \<le> im_availableMB s1 - im_totalnominalsize s1"
      using d z n0 sp by (cases "im_numexpandparts s1 = 0") (auto simp: minus_mod_eq_div_mult [symmetric])
  qed
  obtain xs where xs: "layoutPlan e (im_totalSectors s2) (im_startSector s2) (map (im_get s1) ps) = Some xs"
    using layoutPlan_floating [OF flp] by blast
  have "set ps \<subseteq> {..<length (im_heap s2)}"
    using fl dps(2) dn(2) by (auto simp: s2_def floatingImage_def checkDone_def)
  then have ld: "layoutDone ps s2 xs s'"
    using layoutLoop_refines [OF dps(1), of s2 "last ps" "im_startSector s2", unfolded g2 e2] xs loop
    by (simp add: e2)
  have cost: "planCost e (map (im_get s1) ps) \<le> im_availableMB s1"
    using checkDone_cost [OF dn(2) fresh ps] ele by simp
  have "im_get s' (ps ! i) = placed (map (im_get s1) ps ! i) (xs ! i)" if "i < length ps" for i
    using ld that unfolding layoutDone_def g2
    by (metis (no_types, lifting) length_map length_zip min.idem nth_map nth_zip case_prod_conv)
  moreover have "p_requiresPartitionNumber (im_get s' p) = p_requiresPartitionNumber (im_get s p)" for p
    using layoutDone_frame(3) [OF ld] sameButDevice_simps [OF sb] g2 by simp
  moreover have "ps = logBeforePrim s' \<and> map_inv s' \<and> numbered s'"
  proof -
    have "numbered s1"
      using checkPartitions_numbered [OF ck(2)] fl fresh by (auto simp: numbered_def freshInstaller_def floatingImage_def)
    then show ?thesis
      using layoutDone_frame [OF ld] dn(1)
      by (simp add: ps_def s2_def logBeforePrim_def moveFirst_def numbered_def map_inv_def im_get_def)
  qed
  ultimately have "preparedPlan s parts s' ps e xs"
    unfolding preparedPlan_def
    using dps e0 ld xs flp cost dn(2)
    by (intro conjI exI [of _ "map (im_get s1) ps"]) (auto simp: layoutDone_def checkDone_def s2_def)
  then show ?thesis by blast
qed

lemma sorted_wrt_pair:
  "sorted_wrt P xs \<Longrightarrow> i < length xs \<Longrightarrow> j < length xs \<Longrightarrow> i \<noteq> j \<Longrightarrow> P (xs ! i) (xs ! j) \<or> P (xs ! j) (xs ! i)"
  by (metis linorder_neqE_nat sorted_wrt_nth_less)

lemma preparedPlan_at:
  assumes "preparedPlan s parts s' ps extra xs" and "p \<in> set parts"
  obtains i where "i < length xs" "ps ! i = p" "p_offset (im_get s' p) = fst (xs ! i)"
    "endSector (im_get s' p) = fst (xs ! i) + snd (xs ! i)"
proof -
  have "p \<in> set ps" using assms by (simp add: preparedPlan_def)
  then obtain i where i: "i < length ps" "ps ! i = p" by (auto simp: in_set_conv_nth)
  with assms(1) have g: "\<exists>q. im_get s' p = placed q (xs ! i)" by (auto simp: preparedPlan_def)
  have "i < length xs" using i assms(1) by (simp add: preparedPlan_def)
  then show thesis using that i g by (auto simp: placed_def endSector_def)
qed

lemma layoutPlan_aligned:
  "layoutPlan extra tot off ps = Some xs \<Longrightarrow> \<forall>q \<in> set ps. floating q \<Longrightarrow> 0 \<le> extra \<Longrightarrow> 0 \<le> off \<Longrightarrow>
     \<forall>x \<in> set xs. 8192 dvd fst x"
proof (induction ps arbitrary: off xs)
  case (Cons p ps)
  define b where "b = alignUp (off + 2)"
  define n where "n = placeSize extra tot (ps = []) b p"
  have fp: "floating p" using Cons.prems(2) by simp
  have b: "8192 dvd b" "0 \<le> b" using Cons.prems(4) alignUp_mult [of "off + 2"] alignUp_ge [of "off + 2"]
    by (auto simp: b_def)
  have n: "0 < n" unfolding n_def using fp Cons.prems(3) by (auto intro: placeSize_pos simp: floating_def)
  from Cons.prems(1) obtain ys where ys: "layoutPlan extra tot (b + n) ps = Some ys" and xs: "xs = (b, n) # ys"
    by (auto simp: floating_placeOffset [OF fp] b_def n_def Let_def split: option.splits)
  show ?case using Cons.IH [OF ys _ Cons.prems(3)] Cons.prems(2) b n xs by auto
qed simp

section \<open>Properties\<close>




text \<open>When the nominal sizes exceed the free space, the preparation fails and no partition is
  moved or resized.\<close>

theorem calculateSpaceRequirements_too_big:
  assumes "im_availableMB s < im_totalnominalsize s"
  shows "\<not> fst (calculateSpaceRequirements s) \<and> im_heap (snd (calculateSpaceRequirements s)) = im_heap s"
  using assms by (auto simp: calculateSpaceRequirements_def Let_def)

section \<open>Concrete installations\<close>

text \<open>An 8 GB card prepared by \<open>PreSetup\<close>, and a boot and a root partition as Raspbian has them.\<close>

definition demoPart :: "string \<Rightarrow> int \<Rightarrow> bool \<Rightarrow> pinfo" where
  "demoPart fs mb want = (pinfo_init ''http://h/x.tar.xz'' 0)
     \<lparr>p_fstype := fs, p_partitionSizeNominal := mb, p_wantMaximised := want, p_valid := True\<rparr>"

definition demoCard :: "int \<Rightarrow> int \<Rightarrow> heap \<Rightarrow> imst" where
  "demoCard start tot h =
     \<lparr>im_extraSpacePerPartition = 0, im_part = 5, im_totalnominalsize = 0,
      im_totaluncompressedsize = 0, im_numparts = 0, im_numexpandparts = 0,
      im_startSector = start, im_totalSectors = tot, im_availableMB = (tot - start) sdiv 2048,
      im_partitionMap = [], im_heap = h\<rparr>"

definition demoRaspbian :: imst where
  "demoRaspbian = demoCard 204798 15523840 [demoPart ''FAT'' 60 False, demoPart ''ext4'' 3400 True]"

lemma demoRaspbian_ok:
  "prepareImage (\<lambda>a b. a) ''Raspbian'' [0, 1] demoRaspbian =
     (True, snd (prepareImage (\<lambda>a b. a) ''Raspbian'' [0, 1] demoRaspbian))"
  "freshInstaller demoRaspbian" "floatingImage demoRaspbian [0, 1]" "\<not> contains_ci ''Raspbian'' ''risc''"
  by code_simp+




theorem calculateSpaceRequirements_too_big_witness:
  "\<not> fst (calculateSpaceRequirements ((demoCard 204798 15523840 [])\<lparr>im_totalnominalsize := 9000\<rparr>))"
  using calculateSpaceRequirements_too_big [of "(demoCard 204798 15523840 [])\<lparr>im_totalnominalsize := 9000\<rparr>"]
  by (simp add: demoCard_def)

text \<open>The space check does not cover \<open>raw\<close> partitions: they are not shrunk to make room for the
  next partition's boot record, and the gap behind them is not booked. Two raw partitions that
  are accepted can end behind the last sector of the card.\<close>

theorem prepareImage_raw_overruns:
  "\<exists>s s'. freshInstaller s \<and> 8192 dvd im_startSector s + PARTITION_GAP \<and> 2048 dvd im_totalSectors s \<and>
     prepareImage (\<lambda>a b. a) ''image'' [0, 1] s = (True, s') \<and> im_totalSectors s < endSector (im_get s' 1)"
proof -
  define s where "s = demoCard 8190 24576 [demoPart ''raw'' 4 False, demoPart ''raw'' 4 False]"
  have f: "freshInstaller s" "8192 dvd im_startSector s + PARTITION_GAP" "2048 dvd im_totalSectors s"
    unfolding s_def by code_simp+
  have "fst (prepareImage (\<lambda>a b. a) ''image'' [0, 1] s)" unfolding s_def by code_simp
  moreover have "im_totalSectors s < endSector (im_get (snd (prepareImage (\<lambda>a b. a) ''image'' [0, 1] s)) 1)"
    unfolding s_def by code_simp
  ultimately show ?thesis using f by (metis prod.collapse)
qed

end
