(* ===== verification/InstallWrite.thy ===== *)
theory InstallWrite
  imports BootPart InstallPlan
begin

text \<open>
  The writing half of the installer: \<open>recovery/InstallManager_Utility.cpp\<close> and, of
  \<open>InstallManager.cpp\<close>, \<open>partitionSDCard\<close>, \<open>writeImage\<close> and \<open>installOS\<close>. Every external
  program is an event of the world; \<open>QString::toInt\<close> and the reader of the settings file
  \<open>noobs.conf\<close> (\<open>QSettings\<close>: content and key to a value) are parameters.
\<close>

definition toInt0 :: "(string \<Rightarrow> int option) \<Rightarrow> string \<Rightarrow> int" where
  "toInt0 toInt s = (case toInt s of None \<Rightarrow> 0 | Some i \<Rightarrow> i)"

section \<open>The partition table\<close>

definition tableLine :: "pinfo \<Rightarrow> string" where
  "tableLine p =
     int_str (p_offset p) @ '','' @ int_str (p_partitionSizeSectors p) @ '','' @ p_partitionType p @
     (if p_active p then '' *'' else [])"

definition partitionTable :: "(int, pinfo) ordmap \<Rightarrow> string" where
  "partitionTable m =
     concat (map (\<lambda>i. case om_find m i of
                        Some p \<Rightarrow> tableLine p @ ''\<newline>''
                      | None \<Rightarrow> ''0,0\<newline>'') [1..last (om_keys m)])"

text \<open>The clone of the partition map with the system partitions added.\<close>

definition systemMap :: "pinfo \<Rightarrow> int \<Rightarrow> int \<Rightarrow> int \<Rightarrow> int \<Rightarrow> (int, pinfo) ordmap \<Rightarrow> (int, pinfo) ordmap" where
  "systemMap junk startP1 sizeP1 startP5 sizeP5 m =
     (let startExtended = startP1 + sizeP1;
          m1 = om_insert 1 (mkSystemPartition junk 1 startP1 sizeP1 ''0E'') m;
          m2 = om_insert 5 (mkSystemPartition junk 5 startP5 sizeP5 ''L'') m1;
          sizeExtended = endSector (last (om_values m2)) - startExtended
      in if \<not> om_contains m2 2
         then om_insert 2 (mkSystemPartition junk 2 startExtended sizeExtended ''E'') m2
         else om_insert 4 (mkSystemPartition junk 4 startExtended sizeExtended ''E'') m2)"

definition im_pmap :: "imst \<Rightarrow> (int, pinfo) ordmap" where
  "im_pmap s = map (\<lambda>(k, p). (k, im_get s p)) (im_partitionMap s)"

definition writePartitionTable ::
  "(string \<Rightarrow> int option) \<Rightarrow> env \<Rightarrow> pinfo \<Rightarrow> imst \<Rightarrow> world \<Rightarrow> bool \<times> world" where
  "writePartitionTable toInt E junk s w =
     (let sys = (\<lambda>f. toInt0 toInt (trimmed (getFileContents w f)));
          startP1 = sys ''/sys/class/block/mmcblk0p1/start'';
          sizeP1 = sys ''/sys/class/block/mmcblk0p1/size'';
          startP5 = sys ''/sys/class/block/mmcblk0p5/start'';
          sizeP5 = sys ''/sys/class/block/mmcblk0p5/size''
      in if startP1 = 0 \<or> sizeP1 = 0 \<or> startP5 = 0 \<or> sizeP5 = 0 then (False, w)
         else
           let table = partitionTable (systemMap junk startP1 sizeP1 startP5 sizeP5 (im_pmap s));
               (_, w1) = unmountPartition E SYSTEMS_DIR w;
               (_, w2) = unmountPartition E SETTINGS_DIR w1;
               (rc, _, w3) = start_wait E ''/sbin/sfdisk -uS /dev/mmcblk0'' table w2;
               w4 = log_event (Sleep 500000) (log_event Sync w3);
               (_, w5) = execute E ''/usr/sbin/partprobe'' w4;
               w6 = log_event (Sleep 500000) w5;
               (_, w7) = mountSystemsPartition E w6;
               (_, w8) = mountSettingsPartition E w7
           in (rc = 0, w8))"

section \<open>File systems and images\<close>

definition runTool :: "env \<Rightarrow> string \<Rightarrow> world \<Rightarrow> bool \<times> world" where
  "runTool E cmd w = (let (rc, _, w1) = start_wait E cmd [] w in (rc = 0, w1))"

definition mkfsCommand :: "string \<Rightarrow> string \<Rightarrow> string \<Rightarrow> string \<Rightarrow> string" where
  "mkfsCommand device fstype label mkfsopt =
     (if fstype = ''fat'' \<or> fstype = ''FAT'' then
        ''/sbin/mkfs.fat '' @ (if label \<noteq> [] then ''-n '' @ label @ '' '' else [])
      else if fstype = ''ext4'' then
        ''/usr/sbin/mkfs.ext4 '' @ (if label \<noteq> [] then ''-L '' @ label @ '' '' else [])
      else if fstype = ''ntfs'' then
        ''/sbin/mkfs.ntfs --fast '' @ (if label \<noteq> [] then ''-L '' @ label @ '' '' else [])
      else []) @
     (if mkfsopt \<noteq> [] then mkfsopt @ '' '' else []) @ device"

definition mkfs :: "env \<Rightarrow> string \<Rightarrow> string \<Rightarrow> string \<Rightarrow> string \<Rightarrow> world \<Rightarrow> bool \<times> world" where
  "mkfs E device fstype label mkfsopt w = runTool E (mkfsCommand device fstype label mkfsopt) w"

definition isLabelAvailable :: "env \<Rightarrow> string \<Rightarrow> world \<Rightarrow> bool \<times> world" where
  "isLabelAvailable E label w = (let (rc, w1) = execute E (''/sbin/findfs LABEL='' @ label) w in (rc \<noteq> 0, w1))"

definition isURL :: "string \<Rightarrow> bool" where
  "isURL s \<longleftrightarrow> starts_with s ''http:'' \<or> starts_with s ''https:''"

text \<open>The front of the pipeline that \<open>untar\<close>, \<open>dd\<close> and \<open>partclone_restore\<close> build alike.\<close>

definition unpackCommand :: "string \<Rightarrow> string option" where
  "unpackCommand f =
     (let fetch = ''sh -o pipefail -c \"'' @
            (if isURL f then ''wget --no-verbose --tries=inf -O- '' @ f @ '' | '' else []);
          tool = (if ends_with f ''.gz'' then Some ''gzip -dc''
                  else if ends_with f ''.xz'' then Some ''xz -dc''
                  else if ends_with f ''.bz2'' then Some ''bzip2 -dc''
                  else if ends_with f ''.lzo'' then Some ''lzop -dc''
                  else if ends_with f ''.zip'' then Some ''unzip -p''
                  else None)
      in map_option (\<lambda>t. fetch @ t @ (if \<not> isURL f then '' '' @ f else [])) tool)"

definition untar :: "env \<Rightarrow> string \<Rightarrow> world \<Rightarrow> bool \<times> world" where
  "untar E tarball w =
     (case unpackCommand tarball of
        None \<Rightarrow> (False, w)
      | Some c \<Rightarrow> runTool E (c @ '' | tar x -C /mnt2 '' @ ''\"'') w)"

definition dd :: "env \<Rightarrow> string \<Rightarrow> string \<Rightarrow> world \<Rightarrow> bool \<times> world" where
  "dd E img device w =
     (case unpackCommand img of
        None \<Rightarrow> (False, w)
      | Some c \<Rightarrow> runTool E (c @ '' | dd of='' @ device @ '' conv=fsync obs=4M\"'') w)"

definition partclone_restore :: "env \<Rightarrow> string \<Rightarrow> string \<Rightarrow> world \<Rightarrow> bool \<times> world" where
  "partclone_restore E img device w =
     (case unpackCommand img of
        None \<Rightarrow> (False, w)
      | Some c \<Rightarrow> runTool E (c @ '' | partclone.restore -q -s - -o '' @ device @ '' \"'') w)"

definition setting :: "(string \<Rightarrow> string \<Rightarrow> 'v option) \<Rightarrow> world \<Rightarrow> string \<Rightarrow> 'v \<Rightarrow> 'v" where
  "setting ini w key dflt =
     (case ini (getFileContents w ''/settings/noobs.conf'') key of None \<Rightarrow> dflt | Some v \<Rightarrow> v)"

definition dispOptions :: "int \<Rightarrow> string" where
  "dispOptions videomode =
     (if videomode = 0 then ''hdmi_force_hotplug=1'' @ CRLF
      else if videomode = 1 then
        ''hdmi_ignore_edid=0xa5000080'' @ CRLF @ ''hdmi_force_hotplug=1'' @ CRLF @ ''hdmi_group=2'' @ CRLF @
        ''hdmi_mode=4'' @ CRLF
      else if videomode = 2 then ''hdmi_ignore_hotplug=1'' @ CRLF @ ''sdtv_mode=2'' @ CRLF
      else if videomode = 3 then ''hdmi_ignore_hotplug=1'' @ CRLF @ ''sdtv_mode=0'' @ CRLF
      else [])"

definition patchConfigTxt :: "'v qv \<Rightarrow> (string \<Rightarrow> string \<Rightarrow> 'v option) \<Rightarrow> env \<Rightarrow> world \<Rightarrow> world" where
  "patchConfigTxt Q ini E w =
     (let videomode = to_int Q (setting ini w ''display_mode'' (from_int Q 0))
      in append_file E ''/mnt2/config.txt''
           (CRLF @ ''# NOOBS Auto-generated Settings:'' @ CRLF @ dispOptions videomode) w)"

definition blkid :: "env \<Rightarrow> string \<Rightarrow> string \<Rightarrow> world \<Rightarrow> string \<times> world" where
  "blkid E tag part w =
     (let (rc, out, w1) = start_wait E (''/sbin/blkid -s '' @ tag @ '' -o value '' @ part) [] w
      in (if rc = 0 then trimmed out else [], w1))"

definition getLabel :: "env \<Rightarrow> string \<Rightarrow> world \<Rightarrow> string \<times> world" where
  "getLabel E part w = blkid E ''LABEL'' part w"

definition getUUID :: "env \<Rightarrow> string \<Rightarrow> world \<Rightarrow> string \<times> world" where
  "getUUID E part w = blkid E ''UUID'' part w"

section \<open>Writing one image\<close>

fun tryLabels :: "env \<Rightarrow> string \<Rightarrow> nat list \<Rightarrow> world \<Rightarrow> world" where
  "tryLabels E label [] w = w"
| "tryLabels E label (i # is) w =
     (let (free, w1) = isLabelAvailable E (label @ nat_str i) w
      in if free then w1 else tryLabels E label is w1)"

text \<open>
  The check of the label. \<open>label()\<close> returns a copy, so \<open>label().clear()\<close> and the assignment to
  \<open>label()\<close> change a temporary: only the calls of \<open>findfs\<close> remain.
\<close>

definition checkLabel :: "env \<Rightarrow> string \<Rightarrow> world \<Rightarrow> world" where
  "checkLabel E label w =
     (if length label > 15 then w
      else let (free, w1) = isLabelAvailable E label w
           in if free then w1 else tryLabels E label [0..<10] w1)"

definition extractTarball :: "env \<Rightarrow> pinfo \<Rightarrow> world \<Rightarrow> bool \<times> pinfo \<times> world" where
  "extractTarball E p w =
     (let (okm, p1, w1) = pi_mountPartition E p ''/mnt2'' [] w
      in if \<not> okm then (False, p1, w1)
         else let (oku, w2) = untar E (p_tarball p1) w1;
                  (_, p2, w3) = pi_unmountPartition E p1 w2
              in (oku, p2, w3))"

definition writePartition :: "env \<Rightarrow> pinfo \<Rightarrow> world \<Rightarrow> bool \<times> pinfo \<times> world" where
  "writePartition E p w0 =
     (let w = checkLabel E (p_label p) w0
      in if p_fstype p = ''raw'' then
           (let (ok, w1) = dd E (p_tarball p) (p_partitionDevice p) w in (ok, p, w1))
         else if starts_with (p_fstype p) ''partclone'' then
           (let (ok, w1) = partclone_restore E (p_tarball p) (p_partitionDevice p) w in (ok, p, w1))
         else if p_fstype p \<noteq> ''unformatted'' then
           (let (ok, w1) = mkfs E (p_partitionDevice p) (p_fstype p) (p_label p) (p_mkfsOptions p) w
            in if \<not> ok then (False, p, w1)
               else if p_emptyFS p then (True, p, w1)
               else if p_tarball p = [] then (True, p, w1)
               else extractTarball E p w1)
         else (True, p, w))"

fun writePartitions :: "env \<Rightarrow> ptr list \<Rightarrow> heap \<Rightarrow> world \<Rightarrow> bool \<times> heap \<times> world" where
  "writePartitions E [] h w = (True, h, w)"
| "writePartitions E (p # ps) h w =
     (let (ok, q, w1) = writePartition E (h ! p) w
      in if \<not> ok then (False, h[p := q], w1) else writePartitions E ps (h[p := q]) w1)"

definition osConfig :: "'v qv \<Rightarrow> (string \<Rightarrow> string \<Rightarrow> 'v option) \<Rightarrow> world \<Rightarrow> heap \<Rightarrow> osinfo \<Rightarrow> 'v json" where
  "osConfig Q ini w h os =
     (let str = from_string Q;
          m1 = om_insert ''flavour'' (str (os_flavour os)) [];
          m2 = om_insert ''release_date'' (str (os_releaseDate os)) m1;
          m3 = om_insert ''imagefolder'' (str (os_folder os)) m2;
          m4 = om_insert ''description'' (str (os_description os)) m3;
          m5 = om_insert ''videomode'' (from_int Q (to_int Q (setting ini w ''display_mode'' (from_int Q 0)))) m4;
          m6 = om_insert ''partitions'' (from_list Q (vPartitionList Q h os)) m5;
          m7 = om_insert ''language'' (str (to_string Q (setting ini w ''language'' (str ''en'')))) m6
      in om_insert ''keyboard'' (str (to_string Q (setting ini w ''keyboard_layout'' (str ''gb'')))) m7)"

definition installedEntry :: "'v qv \<Rightarrow> heap \<Rightarrow> osinfo \<Rightarrow> 'v" where
  "installedEntry Q h os =
     (let str = from_string Q;
          m1 = om_insert ''name'' (str (os_flavour os)) [];
          m2 = om_insert ''description'' (str (os_description os)) m1;
          m3 = om_insert ''folder'' (str (os_folder os)) m2;
          m4 = om_insert ''release_date'' (str (os_releaseDate os)) m3;
          m5 = om_insert ''partitions'' (from_list Q (vPartitionList Q h os)) m4
      in from_map Q (om_insert ''bootable'' (from_bool Q (os_bootable os)) m5))"

text \<open>The arguments and the environment of the setup script, gathered partition by partition.\<close>

fun scriptArgs :: "env \<Rightarrow> nat \<Rightarrow> string list \<Rightarrow> string list \<Rightarrow> (string, string) ordmap \<Rightarrow> world \<Rightarrow>
    string list \<times> (string, string) ordmap \<times> world" where
  "scriptArgs E nr [] args vars w = (args, vars, w)"
| "scriptArgs E nr (part # parts) args vars w =
     (let (uuid, w1) = getUUID E part w;
          (label, w2) = getLabel E part w1;
          id = (if label \<noteq> [] then ''LABEL='' @ label else ''UUID='' @ uuid)
      in scriptArgs E (nr + 1) parts
           (args @ ['' part'' @ nat_str nr @ ''='' @ part, '' id'' @ nat_str nr @ ''='' @ id])
           (om_insert (''id'' @ nat_str nr) id (om_insert (''part'' @ nat_str nr) part vars)) w2)"

definition runSetupScript :: "env \<Rightarrow> heap \<Rightarrow> osinfo \<Rightarrow> world \<Rightarrow> bool \<times> world" where
  "runSetupScript E h os w =
     (if os_partitionSetupScript os = [] then (True, w)
      else
        let (okw, w1) = putFileContents E OS_PARTITION_SETUP_PATH (os_partitionSetupScript os) w
        in if \<not> okw then (False, w1)
           else
             let (args, vars, w2) =
                   scriptArgs E 1 (map (\<lambda>p. p_partitionDevice (h ! p)) (os_partitions os))
                     [OS_PARTITION_SETUP_PATH] [(''PATH'', ''/bin:/usr/bin:/sbin:/usr/sbin'')] w1;
                 (rc, w3) = start_in E ''/mnt2'' (''/bin/sh'' # args) vars w2
             in if rc \<noteq> 0 then (False, w3)
                else remove_file E OS_PARTITION_SETUP_PATH w3)"

text \<open>
  The installer while it writes: the plan with the partition objects, the list
  \<open>_installed_os\<close> and the world. \<open>checkImage\<close> has refused images without partitions, so the
  list has a first element.
\<close>

record 'v iwst =
  iw_im :: imst
  iw_installed :: "'v list"
  iw_world :: world

definition iw_heap :: "'v iwst \<Rightarrow> heap" where "iw_heap t = im_heap (iw_im t)"

definition iw_update :: "heap \<Rightarrow> world \<Rightarrow> 'v iwst \<Rightarrow> 'v iwst" where
  "iw_update h w t = t\<lparr>iw_im := (iw_im t)\<lparr>im_heap := h\<rparr>, iw_world := w\<rparr>"

definition writeImage ::
  "'v qv \<Rightarrow> (string \<Rightarrow> string \<Rightarrow> 'v option) \<Rightarrow> env \<Rightarrow> osinfo \<Rightarrow> 'v iwst \<Rightarrow> bool \<times> 'v iwst" where
  "writeImage Q ini E os t =
     (case writePartitions E (os_partitions os) (iw_heap t) (iw_world t) of (ok1, h1, w1) \<Rightarrow>
        if \<not> ok1 then (False, iw_update h1 w1 t)
        else
          let first = hd (os_partitions os);
              (ok2, p, w2) = pi_mountPartition E (h1 ! first) ''/mnt2'' [] w1;
              h2 = h1[first := p]
          in if \<not> ok2 then (False, iw_update h2 w2 t)
             else
               let (ok3, w3) = saveToFile Q E ''/mnt2/os_config.json'' (from_map Q (osConfig Q ini w2 h2 os)) w2
               in if \<not> ok3 then (False, iw_update h2 w3 t)
                  else
                    let (ok4, w4) = runSetupScript E h2 os (patchConfigTxt Q ini E w3)
                    in if \<not> ok4 then (False, iw_update h2 w4 t)
                       else
                         let (_, w5) = unmountPartition E ''/mnt2'' w4;
                             l = iw_installed t @ [installedEntry Q h2 os];
                             (ok6, w6) = saveToFile Q E ''/settings/installed_os.json'' (from_list Q l) w5
                         in (ok6, (iw_update h2 w6 t)\<lparr>iw_installed := l\<rparr>))"

section \<open>The whole installation\<close>

fun zeroPartitions :: "env \<Rightarrow> pinfo list \<Rightarrow> world \<Rightarrow> bool \<times> world" where
  "zeroPartitions E [] w = (True, w)"
| "zeroPartitions E (p # ps) w =
     (if p_partitionSizeSectors p \<noteq> 0 then
        let (rc, w1) = execute E (''/bin/dd count=1 bs=512 if=/dev/zero of='' @ p_partitionDevice p) w
        in if rc \<noteq> 0 then (False, w1) else zeroPartitions E ps w1
      else zeroPartitions E ps w)"

definition partitionSDCard ::
  "(string \<Rightarrow> int option) \<Rightarrow> env \<Rightarrow> pinfo \<Rightarrow> imst \<Rightarrow> world \<Rightarrow> bool \<times> world" where
  "partitionSDCard toInt E junk s w =
     (let f = ''/settings/installed_os.json'';
          w1 = (if file_exists w f then snd (remove_file E f w) else w);
          (ok, w2) = writePartitionTable toInt E junk s w1
      in if \<not> ok then (False, w2)
         else zeroPartitions E (om_values (im_pmap s)) w2)"

definition installOS ::
  "'v qv \<Rightarrow> (string \<Rightarrow> string \<Rightarrow> 'v option) \<Rightarrow> (string \<Rightarrow> int option) \<Rightarrow> (int \<Rightarrow> int \<Rightarrow> int) \<Rightarrow> env \<Rightarrow> pinfo \<Rightarrow>
     osinfo \<Rightarrow> 'v iwst \<Rightarrow> bool \<times> 'v iwst" where
  "installOS Q ini toInt ov E junk os t =
     (case prepareImage ov (os_name os) (os_partitions os) (iw_im t) of (ok1, s1) \<Rightarrow>
        let t1 = t\<lparr>iw_im := s1\<rparr> in
        if \<not> ok1 then (False, t1)
        else
          case partitionSDCard toInt E junk s1 (iw_world t) of (ok2, w2) \<Rightarrow>
            let t2 = t1\<lparr>iw_world := w2\<rparr> in
            if \<not> ok2 then (False, t2)
            else
              case writeImage Q ini E os t2 of (_, t3) \<Rightarrow>
                case setDefaultBootPartition_os E (iw_heap t3) os (iw_world t3) of (_, w4) \<Rightarrow>
                  (True, t3\<lparr>iw_world := log_event Sync w4\<rparr>))"

section \<open>Several images at once\<close>

text \<open>
  The overloads for lists iterate with \<open>foreach (OSInfo os, list)\<close>, that is over copies. A copy
  shares the pointers to its partitions, and its destructor deletes them at the end of its round.
  The argument \<open>freed\<close> collects what has been deleted; \<open>None\<close> is an access to a deleted object.
\<close>

fun checkImages :: "(int \<Rightarrow> int \<Rightarrow> int) \<Rightarrow> osinfo list \<Rightarrow> ptr list \<Rightarrow> imst \<Rightarrow> (bool \<times> ptr list \<times> imst) option" where
  "checkImages ov [] freed s = Some (True, freed, s)"
| "checkImages ov (os # oss) freed s =
     (if \<exists>p \<in> set (os_partitions os). p \<in> set freed then None
      else
        let (ok, s1) = checkImage ov (os_name os) (os_partitions os) s;
            freed1 = freed @ os_partitions os
        in if \<not> ok then Some (False, freed1, s1) else checkImages ov oss freed1 s1)"

definition prepareImages :: "(int \<Rightarrow> int \<Rightarrow> int) \<Rightarrow> osinfo list \<Rightarrow> imst \<Rightarrow> (bool \<times> ptr list \<times> imst) option" where
  "prepareImages ov oss s =
     (case checkImages ov oss [] s of
        None \<Rightarrow> None
      | Some (False, freed, s1) \<Rightarrow> Some (False, freed, s1)
      | Some (True, freed, s1) \<Rightarrow>
          if im_totalnominalsize s1 \<le> im_availableMB s1 \<and>
             (\<exists>p \<in> set (om_values (im_partitionMap s1)). p \<in> set freed) then None
          else let (ok, s2) = calculateSpaceRequirements s1 in Some (ok, freed, s2))"

fun writeImages ::
  "'v qv \<Rightarrow> (string \<Rightarrow> string \<Rightarrow> 'v option) \<Rightarrow> env \<Rightarrow> osinfo list \<Rightarrow> ptr list \<Rightarrow> 'v iwst \<Rightarrow> (bool \<times> 'v iwst) option" where
  "writeImages Q ini E [] freed t = Some (True, t)"
| "writeImages Q ini E (os # oss) freed t =
     (if \<exists>p \<in> set (os_partitions os). p \<in> set freed then None
      else
        let (ok, t1) = writeImage Q ini E os t
        in if \<not> ok then Some (False, t1) else writeImages Q ini E oss (freed @ os_partitions os) t1)"

text \<open>The first image is read again at the end; with an empty list \<open>os.first()\<close> is undefined.\<close>

definition installOS_list ::
  "'v qv \<Rightarrow> (string \<Rightarrow> string \<Rightarrow> 'v option) \<Rightarrow> (string \<Rightarrow> int option) \<Rightarrow> (int \<Rightarrow> int \<Rightarrow> int) \<Rightarrow> env \<Rightarrow> pinfo \<Rightarrow>
     osinfo list \<Rightarrow> 'v iwst \<Rightarrow> (bool \<times> 'v iwst) option" where
  "installOS_list Q ini toInt ov E junk oss t =
     (case prepareImages ov oss (iw_im t) of
        None \<Rightarrow> None
      | Some (False, freed, s1) \<Rightarrow> Some (False, t\<lparr>iw_im := s1\<rparr>)
      | Some (True, freed, s1) \<Rightarrow>
          (case partitionSDCard toInt E junk s1 (iw_world t) of (ok2, w2) \<Rightarrow>
            let t2 = t\<lparr>iw_im := s1, iw_world := w2\<rparr> in
            if \<not> ok2 then Some (False, t2)
            else case writeImages Q ini E oss freed t2 of
                   None \<Rightarrow> None
                 | Some (_, t3) \<Rightarrow>
                     if oss = [] \<or> os_partitions (hd oss) \<noteq> [] then None
                     else case setDefaultBootPartition_os E (iw_heap t3) (hd oss) (iw_world t3) of (_, w4) \<Rightarrow>
                            Some (True, t3\<lparr>iw_world := log_event Sync w4\<rparr>)))"

end
