(* ===== verification/InstallTable.thy ===== *)
theory InstallTable
  imports InstallWrite
begin

text \<open>
  What the installer writes to the card: the partition table handed to \<open>sfdisk\<close> is the plan of
  \<open>prepareImage\<close> with an extended partition around all logical partitions; when it is written;
  and what the result of \<open>installOS\<close> says.
\<close>

section \<open>Logical partitions come first\<close>

definition reqOf :: "imst \<Rightarrow> ptr \<Rightarrow> int" where
  "reqOf s p = p_requiresPartitionNumber (im_get s p)"

lemma moveFirst_skip: "\<forall>p \<in> set ps. reqOf s p \<noteq> n \<Longrightarrow> moveFirst n s ps = ps"
  by (cases ps) (auto simp: moveFirst_def reqOf_def)

lemma moveFirst_hit: "reqOf s p = n \<Longrightarrow> moveFirst n s (p # ps) = ps @ [p]"
  by (simp add: moveFirst_def reqOf_def)

lemma primary_numbers:
  assumes "sorted_wrt (<) ks" and "set ks \<subseteq> {2, 3, 4 :: int}" and "\<not> (2 \<in> set ks \<and> 4 \<in> set ks)"
  shows "ks \<in> {[], [2], [3], [4], [2, 3], [3, 4]}"
proof (cases ks)
  case (Cons a as)
  then show ?thesis using assms by (cases as; cases "tl as") auto
qed simp

lemma logBeforePrim_order:
  fixes A B :: "(int \<times> ptr) list"
  assumes m: "im_partitionMap s = A @ B"
    and ka: "map fst A \<in> {[], [2], [3], [4], [2, 3], [3, 4]}"
    and ra: "\<forall>(k, p) \<in> set A. reqOf s p = k" and rb: "\<forall>(k, p) \<in> set B. reqOf s p = 0 \<or> 6 \<le> reqOf s p"
  shows "\<exists>prims. logBeforePrim s = map snd B @ prims \<and> set prims = snd ` set A"
proof -
  have b: "reqOf s p \<noteq> 2 \<and> reqOf s p \<noteq> 3 \<and> reqOf s p \<noteq> 4" if "p \<in> set (map snd B)" for p
    using that rb by fastforce
  have v: "om_values (im_partitionMap s) = map snd A @ map snd B" by (simp add: m om_values_def)
  from ka consider "A = []" | p where "A = [(2, p)]" | p where "A = [(3, p)]" | p where "A = [(4, p)]"
    | p q where "A = [(2, p), (3, q)]" | p q where "A = [(3, p), (4, q)]"
    by (auto simp: map_eq_Cons_conv)
  then show ?thesis
  proof cases
    case 1
    then show ?thesis using b by (simp add: logBeforePrim_def v moveFirst_skip)
  next
    case 2
    then show ?thesis using b ra by (simp add: logBeforePrim_def v moveFirst_hit moveFirst_skip)
  next
    case 3
    then show ?thesis using b ra by (simp add: logBeforePrim_def v moveFirst_hit moveFirst_skip)
  next
    case 4
    then show ?thesis using b ra by (simp add: logBeforePrim_def v moveFirst_hit moveFirst_skip)
  next
    case 5
    then show ?thesis using b ra by (auto simp: logBeforePrim_def v moveFirst_hit moveFirst_skip)
  next
    case 6
    then show ?thesis using b ra by (auto simp: logBeforePrim_def v moveFirst_hit moveFirst_skip)
  qed
qed

lemma sorted_split:
  assumes "sorted_wrt (<) (map fst m)"
  shows "m = filter (\<lambda>(k, _). k < (c::int)) m @ filter (\<lambda>(k, _). \<not> k < c) m"
  using assms
proof (induction m)
  case (Cons x m)
  obtain k v where x: "x = (k, v)" by force
  show ?case
  proof (cases "k < c")
    case False
    then have "filter (\<lambda>(k, _). k < c) m = []" using Cons.prems by (fastforce simp: x filter_empty_conv)
    with Cons False show ?thesis by (auto simp: x filter_id_conv)
  qed (use Cons in \<open>auto simp: x\<close>)
qed simp

lemma om_find_in: "om_wf m \<Longrightarrow> om_find m k = Some v \<longleftrightarrow> (k, v) \<in> set m"
  unfolding om_wf_def om_keys_def om_find_def
  by (metis map_of_eq_Some_iff strict_sorted_iff)

text \<open>In the order of the layout all logical partitions, by number, precede the primary ones.\<close>

lemma layout_order:
  assumes "map_inv s" and "numbered s" and "\<forall>p \<in> set (om_values (im_partitionMap s)). 0 \<le> reqOf s p"
  obtains A B prims where "im_partitionMap s = A @ B" and "logBeforePrim s = map snd B @ prims"
    and "set prims = snd ` set A" and "\<forall>(k, p) \<in> set A. k \<in> {2, 3, 4}" and "\<forall>(k, p) \<in> set B. 6 \<le> k"
proof -
  let ?m = "im_partitionMap s"
  have wf: "om_wf ?m" using assms(1) by (simp add: map_inv_def)
  define A where "A = filter (\<lambda>(k, _). k < 5) ?m"
  define B where "B = filter (\<lambda>(k, _). \<not> k < 5) ?m"
  have m: "?m = A @ B" unfolding A_def B_def
    using wf by (intro sorted_split) (simp add: om_wf_def om_keys_def)
  have num: "(reqOf s p = k \<and> k \<noteq> 0 \<or> reqOf s p = 0 \<and> 6 \<le> k) \<and> 0 \<le> reqOf s p \<and> k \<noteq> 1 \<and> k \<noteq> 5"
    if "(k, p) \<in> set ?m" for k p
  proof -
    have f: "om_find ?m k = Some p" using that om_find_in [OF wf] by simp
    have "p \<in> set (om_values ?m)" using that by (force simp: om_values_def)
    then show ?thesis using f assms by (auto simp: numbered_def reqOf_def map_inv_def om_contains_def)
  qed
  have a: "\<forall>(k, p) \<in> set A. reqOf s p = k \<and> k \<in> {2, 3, 4}"
  proof (clarify)
    fix k p assume "(k, p) \<in> set A"
    then have "(k, p) \<in> set ?m" "k < 5" by (auto simp: A_def)
    with num [of k p] show "reqOf s p = k \<and> k \<in> {2, 3, 4}" by auto
  qed
  have b: "\<forall>(k, p) \<in> set B. (reqOf s p = 0 \<or> 6 \<le> reqOf s p) \<and> 6 \<le> k"
  proof (clarify)
    fix k p assume "(k, p) \<in> set B"
    then have "(k, p) \<in> set ?m" "\<not> k < 5" by (auto simp: B_def)
    with num [of k p] show "(reqOf s p = 0 \<or> 6 \<le> reqOf s p) \<and> 6 \<le> k" by auto
  qed
  have "sorted_wrt (<) (map fst A)" using wf m by (simp add: om_wf_def om_keys_def sorted_wrt_append)
  moreover have "set (map fst A) \<subseteq> {2, 3, 4}" using a by auto
  moreover have "\<not> (2 \<in> set (map fst A) \<and> 4 \<in> set (map fst A))"
  proof
    assume "2 \<in> set (map fst A) \<and> 4 \<in> set (map fst A)"
    then have "2 \<in> set (om_keys ?m)" "4 \<in> set (om_keys ?m)" using m by (auto simp: om_keys_def)
    then show False using assms(1) by (simp add: map_inv_def om_contains_def om_find_keys)
  qed
  ultimately have k: "map fst A \<in> {[], [2], [3], [4], [2, 3], [3, 4]}" by (rule primary_numbers)
  have "\<forall>(k, p) \<in> set A. reqOf s p = k" "\<forall>(k, p) \<in> set B. reqOf s p = 0 \<or> 6 \<le> reqOf s p"
    using a b by blast+
  from logBeforePrim_order [OF m k this]
  obtain prims where "logBeforePrim s = map snd B @ prims" "set prims = snd ` set A" by blast
  then show thesis by (rule that [OF m]) (use a b in blast)+
qed

section \<open>The plan in the order of the layout\<close>

definition before :: "imst \<Rightarrow> ptr \<Rightarrow> ptr \<Rightarrow> bool" where
  "before s p q \<longleftrightarrow> endSector (im_get s p) < p_offset (im_get s q)"

lemma orderedFrom_pos: "orderedFrom off xs \<Longrightarrow> \<forall>x \<in> set xs. 0 < snd x"
  by (induction off xs rule: orderedFrom.induct) auto

lemma preparedPlan_before:
  assumes "preparedPlan s parts s' ps extra xs"
  shows "sorted_wrt (before s') ps"
    and "p \<in> set ps \<Longrightarrow> im_startSector s < p_offset (im_get s' p) \<and> p_offset (im_get s' p) < endSector (im_get s' p)"
proof -
  have ord: "orderedFrom (im_startSector s) xs" and len: "length xs = length ps"
    using assms layoutPlan_ordered unfolding preparedPlan_def floating_def by blast+
  have at: "p_offset (im_get s' (ps ! i)) = fst (xs ! i)"
      "endSector (im_get s' (ps ! i)) = fst (xs ! i) + snd (xs ! i)" if "i < length ps" for i
    using assms that by (auto simp: preparedPlan_def placed_def endSector_def)
  show "sorted_wrt (before s') ps"
    using orderedFrom_sorted [OF ord] len at by (auto simp: sorted_wrt_iff_nth_less before_def)
  have pos: "\<forall>x \<in> set xs. 0 < snd x" by (rule orderedFrom_pos [OF ord])
  show "im_startSector s < p_offset (im_get s' p) \<and> p_offset (im_get s' p) < endSector (im_get s' p)"
    if mem: "p \<in> set ps"
  proof -
    obtain i where i: "i < length ps" "ps ! i = p" using mem by (auto simp: in_set_conv_nth)
    then have "xs ! i \<in> set xs" using len by simp
    then show ?thesis using at [OF i(1)] i(2) orderedFrom_lower [OF ord] pos by auto
  qed
qed

lemma sorted_pairs:
  assumes "(k, p) \<in> set m" and "(j, q) \<in> set m" and "(k::int) < j"
    and "sorted_wrt R (map snd m)" and "sorted_wrt (<) (map fst m)"
  shows "R p q"
proof -
  obtain a b where a: "a < length m" "m ! a = (k, p)" and b: "b < length m" "m ! b = (j, q)"
    using assms(1,2) by (auto simp: in_set_conv_nth)
  have "\<not> b < a" "a \<noteq> b"
    using assms(3) sorted_wrt_nth_less [OF assms(5), of b a] a b by auto
  then show ?thesis using sorted_wrt_nth_less [OF assms(4), of a b] a b by simp
qed

lemma om_last: "om_wf m \<Longrightarrow> m \<noteq> [] \<Longrightarrow> om_find m (last (om_keys m)) = Some (last (om_values m))"
  by (auto simp: om_find_in om_keys_def om_values_def last_map)

lemma im_pmap_find: "om_find (im_pmap s) k = map_option (im_get s) (om_find (im_partitionMap s) k)"
  unfolding im_pmap_def om_find_def by (induction "im_partitionMap s") (auto simp: map_of_map)

lemma im_pmap_wf: "om_wf (im_pmap s) = om_wf (im_partitionMap s)"
  by (simp add: im_pmap_def om_wf_def om_keys_def o_def case_prod_unfold)

section \<open>The extended partition\<close>

text \<open>
  The table with the two fixed system partitions, the number of the extended partition and the
  extended partition.
\<close>

definition fixedParts :: "pinfo \<Rightarrow> int \<Rightarrow> int \<Rightarrow> int \<Rightarrow> int \<Rightarrow> (int, pinfo) ordmap \<Rightarrow> (int, pinfo) ordmap" where
  "fixedParts junk s1 n1 s5 n5 m =
     om_insert 5 (mkSystemPartition junk 5 s5 n5 ''L'') (om_insert 1 (mkSystemPartition junk 1 s1 n1 ''0E'') m)"

definition extNumber :: "(int, pinfo) ordmap \<Rightarrow> int" where
  "extNumber m = (if om_find m 2 = None then 2 else 4)"

definition extPart :: "pinfo \<Rightarrow> int \<Rightarrow> int \<Rightarrow> int \<Rightarrow> int \<Rightarrow> (int, pinfo) ordmap \<Rightarrow> pinfo" where
  "extPart junk s1 n1 s5 n5 m =
     mkSystemPartition junk (extNumber m) (s1 + n1)
       (endSector (last (om_values (fixedParts junk s1 n1 s5 n5 m))) - (s1 + n1)) ''E''"

lemma fixedParts_find:
  assumes "om_wf m"
  shows "om_find (fixedParts junk s1 n1 s5 n5 m) =
      (om_find m)(1 \<mapsto> mkSystemPartition junk 1 s1 n1 ''0E'', 5 \<mapsto> mkSystemPartition junk 5 s5 n5 ''L'')"
    and "om_wf (fixedParts junk s1 n1 s5 n5 m)"
  unfolding fixedParts_def by (auto simp: om_find_insert om_insert_wf assms fun_eq_iff)

lemma systemMap_eq:
  assumes "om_wf m"
  shows "systemMap junk s1 n1 s5 n5 m =
    om_insert (extNumber m) (extPart junk s1 n1 s5 n5 m) (fixedParts junk s1 n1 s5 n5 m)"
proof -
  have "om_contains (fixedParts junk s1 n1 s5 n5 m) 2 \<longleftrightarrow> om_find m 2 \<noteq> None"
    by (simp add: om_contains_def fixedParts_find [OF assms])
  then show ?thesis
    unfolding systemMap_def fixedParts_def [symmetric] Let_def by (simp add: extNumber_def extPart_def)
qed

lemma systemMap_find:
  assumes "om_wf m"
  shows "om_find (systemMap junk s1 n1 s5 n5 m) =
      (om_find m)(1 \<mapsto> mkSystemPartition junk 1 s1 n1 ''0E'', 5 \<mapsto> mkSystemPartition junk 5 s5 n5 ''L'',
        extNumber m \<mapsto> extPart junk s1 n1 s5 n5 m)"
    and "om_wf (systemMap junk s1 n1 s5 n5 m)"
  unfolding systemMap_eq [OF assms]
  using fixedParts_find [OF assms, of junk s1 n1 s5 n5] by (auto simp: om_find_insert om_insert_wf fun_eq_iff)

text \<open>The last value of the fixed table: the last logical partition, or the settings partition.\<close>

lemma fixedParts_last:
  assumes wf: "om_wf m"
  obtains K where "5 \<le> K" and "om_find (fixedParts junk s1 n1 s5 n5 m) K = Some (last (om_values (fixedParts junk s1 n1 s5 n5 m)))"
    and "\<And>k p. om_find (fixedParts junk s1 n1 s5 n5 m) k = Some p \<Longrightarrow> k \<le> K"
proof -
  let ?f = "fixedParts junk s1 n1 s5 n5 m"
  note f = fixedParts_find [OF wf, of junk s1 n1 s5 n5]
  have ne: "?f \<noteq> []" using f(1) by (auto simp: fun_eq_iff om_find_def split: if_splits)
  have le: "k \<le> last (om_keys ?f)" if "om_find ?f k = Some p" for k p
    using om.last_key_max [OF f(2)] that by (simp add: om_find_keys)
  have "5 \<le> last (om_keys ?f)" by (rule le) (simp add: f(1))
  then show thesis using that om_last [OF f(2) ne] le by blast
qed

text \<open>The sectors of the planned partitions by their numbers.\<close>

definition spread :: "int \<Rightarrow> (int, pinfo) ordmap \<Rightarrow> bool" where
  "spread start m \<longleftrightarrow>
     (\<forall>k p. om_find m k = Some p \<longrightarrow> start < p_offset p \<and> p_offset p < endSector p \<and> k \<in> {2, 3, 4} \<union> {6..}) \<and>
     (\<forall>k p j q. om_find m k = Some p \<and> om_find m j = Some q \<and> 6 \<le> k \<and> (k < j \<or> j < 5) \<longrightarrow>
        endSector p < p_offset q)"

lemma prepareImage_spread:
  assumes run: "prepareImage ov name parts s = (True, s')" and fresh: "freshInstaller s"
    and fl: "floatingImage s parts" and plain: "\<not> contains_ci name ''risc''"
    and req: "\<forall>p \<in> set parts. 0 \<le> reqOf s p"
  shows "map_inv s' \<and> spread (im_startSector s) (im_pmap s')"
proof -
  obtain ps extra xs where pp: "preparedPlan s parts s' ps extra xs"
    using prepareImage_plan [OF run fresh fl plain] by blast
  have inv: "map_inv s'" "numbered s'" "logBeforePrim s' = ps" "set ps = set parts"
    using pp by (simp_all add: preparedPlan_def)
  have wf: "om_wf (im_partitionMap s')" using inv(1) by (simp add: map_inv_def)
  have vals: "set (om_values (im_partitionMap s')) = set ps"
    using logBeforePrim_mset [of s'] inv(3) by (metis set_mset_mset)
  have r': "reqOf s' p = reqOf s p" if "p \<in> set parts" for p
    using pp by (simp add: reqOf_def preparedPlan_def)
  obtain A B prims where ab: "im_partitionMap s' = A @ B" "ps = map snd B @ prims"
      "set prims = snd ` set A" "\<forall>(k, p) \<in> set A. k \<in> {2, 3, 4}" "\<forall>(k, p) \<in> set B. 6 \<le> k"
    using layout_order [OF inv(1,2)] req r' vals inv(3,4) by metis
  have bef: "sorted_wrt (before s') (map snd B)" "\<forall>p \<in> set (map snd B). \<forall>q \<in> set prims. before s' p q"
    using preparedPlan_before(1) [OF pp] by (simp_all add: ab(2) sorted_wrt_append)
  have keys: "sorted_wrt (<) (map fst B)"
    using wf ab(1) by (simp add: om_wf_def om_keys_def sorted_wrt_append)
  have log: "before s' p q" if "(k, p) \<in> set B" "(j, q) \<in> set B" "k < j" for k p j q
    using that bef(1) keys by (rule sorted_pairs)
  have find: "om_find (im_pmap s') k = Some p \<longleftrightarrow> (\<exists>pt. ((k, pt) \<in> set A \<or> (k, pt) \<in> set B) \<and> p = im_get s' pt)"
    for k p using om_find_in [OF wf] by (auto simp: im_pmap_find ab(1))
  show ?thesis unfolding spread_def find
  proof (intro conjI allI impI inv(1), goal_cases)
    case (1 k p) then show ?case using preparedPlan_before(2) [OF pp] ab(2,3) by force
  next
    case (2 k p) then show ?case using preparedPlan_before(2) [OF pp] ab(2,3) by force
  next
    case (3 k p) then show ?case using ab(4,5) by fastforce
  next
    case (4 k p j q)
    then obtain pt qt where "(k, pt) \<in> set B" "p = im_get s' pt" "q = im_get s' qt"
        "(j, qt) \<in> set A \<or> (j, qt) \<in> set B" "6 \<le> k" "k < j \<or> j < 5"
      using ab(4) by fastforce
    moreover have "qt \<in> set prims" if "(j, qt) \<in> set A" using that ab(3) by force
    moreover have "j < 5 \<Longrightarrow> (j, qt) \<notin> set B" "k < j \<Longrightarrow> 6 \<le> k \<Longrightarrow> (j, qt) \<notin> set A" using ab(4,5) by fastforce+
    ultimately have "before s' pt qt" using log bef(2) by fastforce
    then show ?case by (simp add: before_def \<open>p = _\<close> \<open>q = _\<close>)
  qed
qed

lemma mkSystemPartition_simps [simp]:
  "p_offset (mkSystemPartition junk nr off n t) = off"
  "endSector (mkSystemPartition junk nr off n t) = off + n"
  "p_partitionType (mkSystemPartition junk nr off n t) = t"
  "p_active (mkSystemPartition junk nr off n t) = False"
  "p_partitionSizeSectors (mkSystemPartition junk nr off n t) = n"
  by (simp_all add: mkSystemPartition_def endSector_def)

lemma extPart_simps [simp]:
  "p_offset (extPart junk s1 n1 s5 n5 m) = s1 + n1"
  "p_partitionType (extPart junk s1 n1 s5 n5 m) = ''E''"
  "endSector (extPart junk s1 n1 s5 n5 m) = endSector (last (om_values (fixedParts junk s1 n1 s5 n5 m)))"
  by (simp_all add: extPart_def)

lemma spread_number: "spread start m \<Longrightarrow> om_find m k = Some p \<Longrightarrow> k \<in> {2, 3, 4} \<union> {6..}"
  unfolding spread_def by blast

text \<open>Where the extended partition ends: no logical partition ends later, no primary one starts earlier.\<close>

lemma extPart_end:
  fixes s1 n1 s5 n5 :: int and junk :: pinfo
  assumes wf: "om_wf m" and sp: "spread (s5 + n5) m"
  defines "z \<equiv> endSector (extPart junk s1 n1 s5 n5 m)"
  shows "s5 + n5 \<le> z" and "om_find m k = Some p \<Longrightarrow> 6 \<le> k \<Longrightarrow> endSector p \<le> z"
    and "om_find m k = Some p \<Longrightarrow> k < 5 \<Longrightarrow> z < p_offset p"
proof -
  let ?f = "fixedParts junk s1 n1 s5 n5 m"
  obtain K where K: "5 \<le> K" "om_find ?f K = Some (last (om_values ?f))"
      "\<And>k p. om_find ?f k = Some p \<Longrightarrow> k \<le> K"
    using fixedParts_last [OF wf] by blast
  have old: "om_find ?f k = Some p" if "om_find m k = Some p" for k p
  proof -
    have "k \<noteq> 1 \<and> k \<noteq> 5" using spread_number [OF sp that] by auto
    then show ?thesis using that fixedParts_find(1) [OF wf] by simp
  qed
  obtain L where L: "om_find ?f K = Some L" "z = endSector L" using K(2) by (simp add: z_def)
  then have z: "z = s5 + n5 \<and> K = 5 \<or> (\<exists>q. om_find m K = Some q \<and> z = endSector q \<and> 6 \<le> K)"
    using K(1) fixedParts_find(1) [OF wf] by (auto split: if_splits)
  have start: "s5 + n5 < p_offset p \<and> p_offset p < endSector p" if "om_find m k = Some p" for k p
    using that sp by (auto simp: spread_def)
  have ord: "endSector p < p_offset q"
    if "om_find m k = Some p" "om_find m j = Some q" "6 \<le> k" "k < j \<or> j < 5" for k p j q
    using that sp unfolding spread_def by blast
  show "s5 + n5 \<le> z" using z start by force
  show "endSector p \<le> z" if "om_find m k = Some p" "6 \<le> k"
    using z that K(3) [OF old [OF that(1)]] start ord [OF that(1) _ that(2)] by (cases "k = K") fastforce+
  show "z < p_offset p" if "om_find m k = Some p" "k < 5"
    using z that start [OF that(1)] ord [OF _ that(1)] by auto
qed



section \<open>The text of the table\<close>

lemma split_lines:
  "\<forall>l \<in> set ls. c \<notin> set l \<Longrightarrow> split (concat (map (\<lambda>l. l @ [c]) ls)) c = ls @ [[]]"
  by (induction ls) (auto simp: split_append)

definition numberLine :: "(int, pinfo) ordmap \<Rightarrow> int \<Rightarrow> string" where
  "numberLine m i = (case om_find m i of Some p \<Rightarrow> tableLine p | None \<Rightarrow> ''0,0'')"

lemma partitionTable_alt:
  "partitionTable m = concat (map (\<lambda>l. l @ ''\<newline>'') (map (numberLine m) [1..last (om_keys m)]))"
  unfolding partitionTable_def numberLine_def
  by (rule arg_cong [where f = concat]) (auto split: option.splits)

definition cleanType :: "pinfo \<Rightarrow> bool" where
  "cleanType p \<longleftrightarrow> CHR ''\<newline>'' \<notin> set (p_partitionType p) \<and> CHR '','' \<notin> set (p_partitionType p)"

lemma int_str_clean [simp]: "CHR '','' \<notin> set (int_str i)" "CHR ''\<newline>'' \<notin> set (int_str i)"
  using int_str_chars [of _ i] by (force simp: is_digit_def)+

lemma tableLine_clean: "cleanType p \<Longrightarrow> CHR ''\<newline>'' \<notin> set (tableLine p)"
  by (auto simp: tableLine_def cleanType_def)

lemma tableLine_split:
  assumes "cleanType p"
  shows "split (tableLine p) (CHR '','') =
    [int_str (p_offset p), int_str (p_partitionSizeSectors p),
     p_partitionType p @ (if p_active p then '' *'' else [])]"
proof -
  have "CHR '','' \<notin> set (p_partitionType p @ (if p_active p then '' *'' else []))"
    using assms by (simp add: cleanType_def)
  from split_token [OF this] show ?thesis
    unfolding tableLine_def append_Cons append_Nil append_assoc
    by (simp only: split_append int_str_clean not_False_eq_True)
qed

text \<open>The text handed to \<open>sfdisk\<close> has one line for each number up to the last partition, and the
  line of a partition consists of its first sector, its size and its type.
\<close>

theorem partitionTable_line:
  assumes "om_wf m" and "\<forall>p \<in> set (om_values m). cleanType p" and "om_find m k = Some p" and "1 \<le> k"
  defines "ls \<equiv> split (partitionTable m) (CHR ''\<newline>'')"
  shows "length ls = nat (last (om_keys m)) + 1 \<and>
    split (ls ! nat (k - 1)) (CHR '','') =
      [int_str (p_offset p), int_str (p_partitionSizeSectors p),
       p_partitionType p @ (if p_active p then '' *'' else [])]"
proof -
  let ?ns = "map (numberLine m) [1..last (om_keys m)]"
  have clean: "\<forall>l \<in> set ?ns. CHR ''\<newline>'' \<notin> set l"
    using assms(2) om_values_find [OF assms(1)] tableLine_clean
    by (fastforce simp: numberLine_def split: option.splits)
  have ls: "ls = ?ns @ [[]]"
    unfolding ls_def partitionTable_alt using split_lines [OF clean] by simp
  have k: "k \<le> last (om_keys m)"
    using om.last_key_max [OF assms(1)] assms(3) by (simp add: om_find_keys)
  then have "ls ! nat (k - 1) = tableLine p"
    using assms(3,4) by (simp add: ls nth_append numberLine_def)
  moreover have "cleanType p" using assms(2,3) om_values_find [OF assms(1), of p] by blast
  moreover have "length ls = nat (last (om_keys m)) + 1" by (simp add: ls)
  ultimately show ?thesis using tableLine_split by simp
qed

theorem partitionTable_line_witness:
  "split (split (partitionTable [(1, mkSystemPartition (demoPart [] 0 False) 1 1 9 ''0E''),
       (3, mkSystemPartition (demoPart [] 0 False) 3 24 16 ''83'')]) (CHR ''\<newline>'') ! 2) (CHR '','') =
     [''24'', ''16'', ''83'']"
proof -
  let ?m = "[(1 :: int, mkSystemPartition (demoPart [] 0 False) 1 1 9 ''0E''),
       (3, mkSystemPartition (demoPart [] 0 False) 3 24 16 ''83'')]"
  let ?p = "mkSystemPartition (demoPart [] 0 False) 3 24 16 ''83''"
  have m: "om_wf ?m" "\<forall>p \<in> set (om_values ?m). cleanType p" "om_find ?m 3 = Some ?p" "1 \<le> (3 :: int)"
    by (simp_all add: om_wf_def om_keys_def om_values_def cleanType_def om_find_def)
  have n: "nat (3 - 1) = 2" by simp
  have i: "int_str 24 = ''24''" "int_str 16 = ''16''" by code_simp+
  have p: "p_offset ?p = 24" "p_partitionSizeSectors ?p = 16" "p_partitionType ?p = ''83''" "\<not> p_active ?p"
    by simp_all
  show ?thesis
    using conjunct2 [OF partitionTable_line [OF m]] unfolding n p(1-3) i
    by (simp only: p(4) if_False append_Nil2)
qed

end
