(* ===== verification/InstallRun.thy ===== *)
theory InstallRun
  imports InstallTable
begin

text \<open>
  The course of an installation: which commands receive the partition table and when, what the
  result of \<open>installOS\<close> depends on, and the overload for several images.
\<close>

section \<open>Operations that write no table\<close>

text \<open>
  The log grows by events none of which feeds a program with input. \<open>sfdisk\<close> is the only program
  that reads its standard input.
\<close>

definition quiet_event :: "event \<Rightarrow> bool" where
  "quiet_event e \<longleftrightarrow> (\<forall>c i. e = Start c i \<longrightarrow> i = [])"

definition quiet :: "world \<Rightarrow> world \<Rightarrow> bool" where
  "quiet w w' \<longleftrightarrow> (\<exists>es. w_log w' = w_log w @ es \<and> (\<forall>e \<in> set es. quiet_event e))"

named_theorems quiet_ops \<open>operations that write no table\<close>

lemma quiet_refl [simp, quiet_ops]: "quiet w w"
  by (simp add: quiet_def)

lemma quiet_trans [trans]: "quiet a b \<Longrightarrow> quiet b c \<Longrightarrow> quiet a c"
  unfolding quiet_def by (metis Un_iff append_assoc set_append)

lemma quiet_step: "w_log w' = w_log w @ [e] \<Longrightarrow> quiet_event e \<Longrightarrow> quiet w w'"
  by (auto simp: quiet_def)

lemma quiet_primitives [quiet_ops]:
  "quiet w (snd (execute E c w))"
  "quiet w (snd (snd (start_wait E c [] w)))"
  "quiet w (make_dir E d w)"
  "quiet w (snd (write_file E p d w))"
  "quiet w (snd (remove_file E p w))"
  "quiet w (snd (start_in E d args vars w))"
  "quiet w (append_file E p d w)"
  "quiet w (log_event Sync w)"
  "quiet w (log_event (Sleep n) w)"
  by (auto intro!: quiet_step simp: quiet_event_def start_in_def append_file_def log_event_def Let_def)

lemma quiet_execute: "execute E c w = (rc, w') \<Longrightarrow> quiet w w'"
  using quiet_primitives(1) [of w E c] by simp

lemma quiet_start: "start_wait E c [] w = (rc, out, w') \<Longrightarrow> quiet w w'"
  using quiet_primitives(2) [of w E c] by simp

lemma quiet_put [quiet_ops]: "quiet w (snd (putFileContents E p d w))"
  by (simp add: putFileContents_def quiet_ops)

lemma quiet_save [quiet_ops]: "quiet w (snd (saveToFile Q E f v w))"
  using quiet_primitives(4) by (simp add: saveToFile_def Let_def case_prod_unfold)

lemma quiet_runTool [quiet_ops]: "quiet w (snd (runTool E c w))"
  by (auto simp: runTool_def split: prod.split intro: quiet_start)

lemma quiet_unmount [quiet_ops]: "quiet w (snd (unmountPartition E d w))"
  by (auto simp: unmountPartition_def split: prod.split intro: quiet_execute)

lemma quiet_mount [quiet_ops]: "quiet w (snd (mountPartition E part dir args w))"
proof -
  have a: "quiet w (if \<not> file_exists w dir then make_dir E dir w else w)"
    using quiet_primitives(3) by simp
  have b: "quiet u (snd (partitionIsMounted E part dir u))" for u
    by (auto simp: partitionIsMounted_def split: prod.split intro: quiet_execute)
  show ?thesis
    unfolding mountPartition_def Let_def case_prod_unfold
    using a quiet_trans [OF a b] quiet_trans [OF quiet_trans [OF a b] quiet_primitives(1)] by simp
qed

lemma quiet_tools [quiet_ops]:
  "quiet w (snd (mkfs E dev fs l opt w))" "quiet w (snd (untar E f w))" "quiet w (snd (dd E f dev w))"
  "quiet w (snd (partclone_restore E f dev w))" "quiet w (snd (isLabelAvailable E l w))"
  "quiet w (patchConfigTxt Q ini E w)" "quiet w (snd (getUUID E part w))" "quiet w (snd (getLabel E part w))"
  using quiet_runTool quiet_primitives
  by (auto simp: mkfs_def untar_def dd_def partclone_restore_def isLabelAvailable_def patchConfigTxt_def
      getUUID_def getLabel_def blkid_def Let_def case_prod_unfold split: option.split)

lemma quiet_pi_mount [quiet_ops]:
  "quiet w (snd (snd (pi_mountPartition E p dir args w)))" "quiet w (snd (snd (pi_unmountPartition E p w)))"
  using quiet_primitives(1) by (simp_all add: pi_mountPartition_def pi_unmountPartition_def Let_def case_prod_unfold)

lemma quiet_tryLabels: "quiet w (tryLabels E l js w)"
  by (induction js arbitrary: w)
    (auto simp: case_prod_unfold Let_def intro: quiet_tools quiet_trans [OF quiet_tools(5)])

lemma quiet_checkLabel [quiet_ops]: "quiet w (checkLabel E l w)"
  by (auto simp: checkLabel_def case_prod_unfold Let_def intro: quiet_tools quiet_trans [OF quiet_tools(5)] quiet_tryLabels)

lemma quiet_extract [quiet_ops]: "quiet w (snd (snd (extractTarball E p w)))"
  unfolding extractTarball_def Let_def case_prod_unfold
  by (auto intro: quiet_pi_mount quiet_trans [OF quiet_trans [OF quiet_pi_mount(1) quiet_tools(2)] quiet_pi_mount(2)])

lemma quiet_writePartition [quiet_ops]: "quiet w (snd (snd (writePartition E p w)))"
  unfolding writePartition_def Let_def case_prod_unfold
  by (auto intro: quiet_checkLabel quiet_trans [OF quiet_checkLabel] quiet_tools
      quiet_trans [OF quiet_trans [OF quiet_checkLabel quiet_tools(1)] quiet_extract])

lemma quiet_writePartitions [quiet_ops]: "quiet w (snd (snd (writePartitions E ps h w)))"
  by (induction ps arbitrary: h w)
    (auto simp: case_prod_unfold Let_def intro: quiet_writePartition quiet_trans [OF quiet_writePartition])

lemma quiet_scriptArgs [quiet_ops]: "quiet w (snd (snd (scriptArgs E nr parts args vars w)))"
proof (induction parts arbitrary: nr args vars w)
  case (Cons part parts)
  show ?case
    unfolding scriptArgs.simps Let_def case_prod_unfold
    by (rule quiet_trans [OF quiet_trans [OF quiet_tools(7) quiet_tools(8)] Cons.IH])
qed simp

lemma quiet_setup [quiet_ops]: "quiet w (snd (runSetupScript E h os w))"
  unfolding runSetupScript_def Let_def case_prod_unfold
  by (auto intro: quiet_put quiet_primitives quiet_trans [OF quiet_trans [OF quiet_put quiet_scriptArgs] quiet_primitives(6)]
      quiet_trans [OF quiet_trans [OF quiet_trans [OF quiet_put quiet_scriptArgs] quiet_primitives(6)] quiet_primitives(5)])

lemma quiet_zero [quiet_ops]: "quiet w (snd (zeroPartitions E ps w))"
  by (induction ps arbitrary: w)
    (auto simp: case_prod_unfold Let_def intro: quiet_primitives quiet_trans [OF quiet_primitives(1)])

lemma quiet_default [quiet_ops]: "quiet w (snd (setDefaultBootPartition_os E h os w))"
  unfolding setDefaultBootPartition_os_def setDefaultBootPartition_part_def setDefaultBootPartition_def Let_def
  by (auto intro: quiet_put quiet_trans [OF quiet_primitives(5) quiet_put])

lemma iw_update_world [simp]: "iw_world (iw_update h w t) = w"
  by (simp add: iw_update_def)

lemma quiet_writeImage [quiet_ops]: "quiet (iw_world t) (iw_world (snd (writeImage Q ini E os t)))"
proof -
  let ?r1 = "writePartitions E (os_partitions os) (iw_heap t) (iw_world t)"
  let ?w1 = "snd (snd ?r1)"
  let ?p = "fst (snd ?r1) ! hd (os_partitions os)"
  let ?w2 = "snd (snd (pi_mountPartition E ?p ''/mnt2'' [] ?w1))"
  have 1: "quiet (iw_world t) ?w1" by (rule quiet_ops)
  have 2: "quiet (iw_world t) ?w2" by (rule quiet_trans [OF 1 quiet_pi_mount(1)])
  have 3: "quiet (iw_world t) (snd (saveToFile Q E f v ?w2))" for f v by (rule quiet_trans [OF 2 quiet_save])
  have 4: "quiet (iw_world t) (snd (runSetupScript E h os (patchConfigTxt Q ini E (snd (saveToFile Q E f v ?w2)))))" for f v h
    by (rule quiet_trans [OF quiet_trans [OF 3 quiet_tools(6)] quiet_setup])
  have 5: "quiet (iw_world t) (snd (saveToFile Q E g x (snd (unmountPartition E d
      (snd (runSetupScript E h os (patchConfigTxt Q ini E (snd (saveToFile Q E f v ?w2)))))))))" for f v h g x d
    by (rule quiet_trans [OF quiet_trans [OF 4 quiet_unmount] quiet_save])
  show ?thesis
    unfolding writeImage_def Let_def case_prod_unfold using 1 2 3 4 5 by simp
qed

section \<open>One table, and only for a plan\<close>

definition sysNumber :: "(string \<Rightarrow> int option) \<Rightarrow> world \<Rightarrow> string \<Rightarrow> int" where
  "sysNumber toInt w f = toInt0 toInt (trimmed (getFileContents w (''/sys/class/block/'' @ f)))"

definition plannedTable :: "(string \<Rightarrow> int option) \<Rightarrow> pinfo \<Rightarrow> imst \<Rightarrow> world \<Rightarrow> string" where
  "plannedTable toInt junk s w =
     partitionTable (systemMap junk (sysNumber toInt w ''mmcblk0p1/start'') (sysNumber toInt w ''mmcblk0p1/size'')
       (sysNumber toInt w ''mmcblk0p5/start'') (sysNumber toInt w ''mmcblk0p5/size'') (im_pmap s))"

text \<open>The log grows by quiet events and at most one run of \<open>sfdisk\<close>, with the table \<open>i\<close>.\<close>

definition oneTable :: "string \<Rightarrow> world \<Rightarrow> world \<Rightarrow> bool" where
  "oneTable i w w' \<longleftrightarrow>
     (\<exists>u v. quiet w u \<and> w_log v = w_log u @ [Start ''/sbin/sfdisk -uS /dev/mmcblk0'' i] \<and> quiet v w')"

lemma oneTable_quiet: "oneTable i w w' \<Longrightarrow> quiet w' w'' \<Longrightarrow> oneTable i w w''"
  unfolding oneTable_def using quiet_trans by blast

lemma quiet_oneTable: "quiet w0 w \<Longrightarrow> oneTable i w w' \<Longrightarrow> oneTable i w0 w'"
  unfolding oneTable_def using quiet_trans by blast

lemma oneTable_start:
  "quiet w u \<Longrightarrow> quiet (snd (snd (start_wait E ''/sbin/sfdisk -uS /dev/mmcblk0'' i u))) w' \<Longrightarrow> oneTable i w w'"
  unfolding oneTable_def by (metis start_wait_log)

text \<open>The four numbers the table is built around could be read.\<close>

definition cardReadable :: "(string \<Rightarrow> int option) \<Rightarrow> world \<Rightarrow> bool" where
  "cardReadable toInt w \<longleftrightarrow>
     sysNumber toInt w ''mmcblk0p1/start'' \<noteq> 0 \<and> sysNumber toInt w ''mmcblk0p1/size'' \<noteq> 0 \<and>
     sysNumber toInt w ''mmcblk0p5/start'' \<noteq> 0 \<and> sysNumber toInt w ''mmcblk0p5/size'' \<noteq> 0"

text \<open>The log of a step that writes the table if the card can be read.\<close>

definition tableRun :: "(string \<Rightarrow> int option) \<Rightarrow> pinfo \<Rightarrow> imst \<Rightarrow> world \<Rightarrow> world \<Rightarrow> bool" where
  "tableRun toInt junk s w w' \<longleftrightarrow>
     (if cardReadable toInt w then oneTable (plannedTable toInt junk s w) w w' else quiet w w')"

lemma tableRun_quiet: "tableRun toInt junk s w w' \<Longrightarrow> quiet w' w'' \<Longrightarrow> tableRun toInt junk s w w''"
  unfolding tableRun_def by (auto intro: quiet_trans oneTable_quiet)

lemma writePartitionTable_run: "tableRun toInt junk s w (snd (writePartitionTable toInt E junk s w))"
proof -
  let ?i = "plannedTable toInt junk s w"
  let ?u = "snd (unmountPartition E SETTINGS_DIR (snd (unmountPartition E SYSTEMS_DIR w)))"
  let ?v = "snd (snd (start_wait E ''/sbin/sfdisk -uS /dev/mmcblk0'' ?i ?u))"
  let ?x = "snd (execute E ''/usr/sbin/partprobe'' (log_event (Sleep 500000) (log_event Sync ?v)))"
  let ?z = "snd (mountSettingsPartition E (snd (mountSystemsPartition E (log_event (Sleep 500000) ?x))))"
  have u: "quiet w ?u" by (rule quiet_trans [OF quiet_unmount quiet_unmount])
  have "quiet ?v ?x"
    by (rule quiet_trans [OF quiet_trans [OF quiet_primitives(8) quiet_primitives(9)] quiet_primitives(1)])
  moreover have "quiet ?x ?z"
    unfolding mountSettingsPartition_def mountSystemsPartition_def
    by (rule quiet_trans [OF quiet_trans [OF quiet_primitives(9) quiet_mount] quiet_mount])
  ultimately have "oneTable ?i w ?z" using oneTable_start [OF u] quiet_trans by blast
  moreover have "snd (writePartitionTable toInt E junk s w) = (if cardReadable toInt w then ?z else w)"
    unfolding writePartitionTable_def cardReadable_def plannedTable_def sysNumber_def Let_def case_prod_unfold
    by simp
  ultimately show ?thesis by (simp add: tableRun_def)
qed

lemma sysNumber_other:
  assumes "\<And>f. w_files w' (''/sys/class/block/'' @ f) = w_files w (''/sys/class/block/'' @ f)"
  shows "plannedTable toInt junk s w' = plannedTable toInt junk s w" "cardReadable toInt w' = cardReadable toInt w"
  using assms by (simp_all add: plannedTable_def cardReadable_def sysNumber_def getFileContents_def)

lemma partitionSDCard_run: "tableRun toInt junk s w (snd (partitionSDCard toInt E junk s w))"
proof -
  let ?f = "''/settings/installed_os.json''"
  define w1 where "w1 = (if file_exists w ?f then snd (remove_file E ?f w) else w)"
  let ?r = "writePartitionTable toInt E junk s w1"
  have q: "quiet w w1" by (simp add: w1_def quiet_primitives(5))
  have "w_files w1 (''/sys/class/block/'' @ f) = w_files w (''/sys/class/block/'' @ f)" for f
    by (simp add: w1_def remove_file_def Let_def)
  note t = sysNumber_other [of w1 w, OF this]
  have r: "tableRun toInt junk s w (snd ?r)"
    using writePartitionTable_run [of toInt junk s w1 E] quiet_trans [OF q] quiet_oneTable [OF q]
    unfolding tableRun_def t by auto
  show ?thesis
    unfolding partitionSDCard_def Let_def w1_def [symmetric] case_prod_unfold
    using r tableRun_quiet [OF r quiet_zero] by simp
qed

section \<open>Properties of an installation\<close>

text \<open>C5: An installation of an image that cannot be prepared does nothing to the system. Otherwise,
  if the sizes of the system partitions can be read, it hands exactly one text to \<open>sfdisk\<close>, the
  table of the prepared plan, and no input to any other program.
\<close>

theorem installOS_table:
  "case prepareImage ov (os_name os) (os_partitions os) (iw_im t) of (ok, s1) \<Rightarrow>
     let w = iw_world t; w' = iw_world (snd (installOS Q ini toInt ov E junk os t))
     in if \<not> ok then w' = w
        else if cardReadable toInt w then oneTable (plannedTable toInt junk s1 w) w w'
        else quiet w w'"
proof -
  obtain ok1 s1 where p: "prepareImage ov (os_name os) (os_partitions os) (iw_im t) = (ok1, s1)" by force
  obtain ok2 w2 where c: "partitionSDCard toInt E junk s1 (iw_world t) = (ok2, w2)" by force
  define t2 where "t2 = t\<lparr>iw_im := s1, iw_world := w2\<rparr>"
  define t3 where "t3 = snd (writeImage Q ini E os t2)"
  define w4 where "w4 = snd (setDefaultBootPartition_os E (iw_heap t3) os (iw_world t3))"
  have "quiet (iw_world t2) (iw_world t3)" unfolding t3_def by (rule quiet_writeImage)
  moreover have "quiet (iw_world t3) w4" unfolding w4_def by (rule quiet_default)
  ultimately have q: "quiet w2 (log_event Sync w4)"
    using quiet_primitives(8) [of w4] quiet_trans by (simp add: t2_def)
  have r: "tableRun toInt junk s1 (iw_world t) w2"
    using partitionSDCard_run [of toInt junk s1 "iw_world t" E] c by simp
  have "iw_world (snd (installOS Q ini toInt ov E junk os t)) =
      (if \<not> ok1 then iw_world t else if \<not> ok2 then w2 else log_event Sync w4)"
    unfolding installOS_def p c t2_def [symmetric] case_prod_conv Let_def
    by (simp add: t3_def w4_def t2_def case_prod_unfold)
  then show ?thesis
    using r tableRun_quiet [OF r q] by (simp add: p tableRun_def)
qed


section \<open>Several images\<close>

lemma checkPartitions_values:
  "checkPartitions ov ps s = (True, s') \<Longrightarrow> om_wf (im_partitionMap s) \<Longrightarrow>
     om_wf (im_partitionMap s') \<and>
     set (om_values (im_partitionMap s')) = set ps \<union> set (om_values (im_partitionMap s))"
proof (induction ps arbitrary: s)
  case (Cons p ps)
  define k where "k = requiredPart s (im_get s p)"
  have acc: "acceptable s k" and run: "checkPartitions ov ps (checked ov p k s) = (True, s')"
    using Cons.prems(1) by (auto simp: k_def checkPartition_ok Let_def split: prod.splits if_splits)
  have "om_find (im_partitionMap s) k = None" using acc by (simp add: acceptable_def om_contains_def)
  then have "set (om_values (im_partitionMap (checked ov p k s))) = insert p (set (om_values (im_partitionMap s)))"
    using om_values_insert_fresh by (metis checked_simps(1) set_mset_add_mset_insert set_mset_mset)
  then show ?case using Cons.IH [OF run] Cons.prems(2) by (auto simp: om_insert_wf)
qed simp

lemma checkImage_values:
  assumes "checkImage ov name ps s = (True, s')" and "om_wf (im_partitionMap s)"
  shows "ps \<noteq> [] \<and> om_wf (im_partitionMap s') \<and>
    set (om_values (im_partitionMap s')) = set ps \<union> set (om_values (im_partitionMap s))"
  using assms checkPartitions_values [of ov ps _ s']
  by (auto simp: checkImage_def Let_def split: if_splits)

lemma checkImages_values:
  assumes "checkImages ov oss freed s = Some (True, freed', s')" and "om_wf (im_partitionMap s)"
    and "oss \<noteq> []"
  shows "\<exists>p \<in> set freed'. p \<in> set (om_values (im_partitionMap s'))"
  using assms
proof (induction oss arbitrary: freed s)
  case (Cons os oss)
  obtain s1 where s1: "checkImage ov (os_name os) (os_partitions os) s = (True, s1)"
      "checkImages ov oss (freed @ os_partitions os) s1 = Some (True, freed', s')"
    using Cons.prems(1) by (auto simp: Let_def split: if_splits prod.splits)
  note v = checkImage_values [OF s1(1) Cons.prems(2)]
  show ?case
  proof (cases "oss = []")
    case True
    then have "freed' = freed @ os_partitions os" "s' = s1" using s1(2) by auto
    with v show ?thesis by (cases "os_partitions os") auto
  next
    case False
    then show ?thesis using Cons.IH [OF s1(2)] v by blast
  qed
qed simp

text \<open>The preparation of several images never succeeds: it is refused, or it reads partition
  objects that the copies in its loop have deleted.
\<close>

theorem prepareImages_never_ok:
  assumes "oss \<noteq> []" and "im_partitionMap s = []"
  shows "\<not> (\<exists>freed s'. prepareImages ov oss s = Some (True, freed, s'))"
proof
  assume "\<exists>freed s'. prepareImages ov oss s = Some (True, freed, s')"
  then obtain freed s1 where c: "checkImages ov oss [] s = Some (True, freed, s1)"
      "\<not> (im_totalnominalsize s1 \<le> im_availableMB s1 \<and> (\<exists>p \<in> set (om_values (im_partitionMap s1)). p \<in> set freed))"
      "fst (calculateSpaceRequirements s1)"
    by (auto simp: prepareImages_def split: option.splits bool.splits if_splits prod.splits)
  then have "im_availableMB s1 < im_totalnominalsize s1"
    using checkImages_values [OF c(1)] assms by auto
  with c(3) show False by (auto simp: calculateSpaceRequirements_def Let_def split: if_splits)
qed

theorem prepareImages_never_ok_witness:
  "prepareImages (\<lambda>a b. a) [osinfo.make [] [] ''Raspbian'' [] [] [] [] True True True 0 [0, 1] []] demoRaspbian = None \<and>
   \<not> (\<exists>freed s'. prepareImages (\<lambda>a b. a)
        [osinfo.make [] [] ''Raspbian'' [] [] [] [] True True True 0 [0, 1] []] demoRaspbian = Some (True, freed, s'))"
proof
  show "prepareImages (\<lambda>a b. a) [osinfo.make [] [] ''Raspbian'' [] [] [] [] True True True 0 [0, 1] []] demoRaspbian = None"
    by code_simp
  have "im_partitionMap demoRaspbian = []" by (simp add: demoRaspbian_def demoCard_def)
  then show "\<not> (\<exists>freed s'. prepareImages (\<lambda>a b. a)
        [osinfo.make [] [] ''Raspbian'' [] [] [] [] True True True 0 [0, 1] []] demoRaspbian = Some (True, freed, s'))"
    using prepareImages_never_ok by blast
qed

end
