(* ===== verification/PreSetup.thy ===== *)
theory PreSetup
  imports InstallRun
begin

text \<open>
  \<open>recovery/PreSetup.h\<close>, \<open>PreSetup.cpp\<close>: the first partitioning of the card, the clean-up of the
  kernel command line and the start of the network. The arithmetic on \<open>double\<close> that turns the
  size of the boot files into the new size of the rescue partition (\<open>x*1.024/1000 + 100\<close>) is the
  parameter \<open>rescueSize\<close>. The waiting loops are given the number of rounds the system takes.
\<close>

definition SETTINGS_PARTITION_SIZE :: int where "SETTINGS_PARTITION_SIZE = 32 * 2048 - PARTITION_GAP"
definition RISCOS_BLOB_FILENAME :: string where "RISCOS_BLOB_FILENAME = ''/mnt/riscos-boot.bin''"
definition RISCOS_BLOB_SECTOR_OFFSET :: int where "RISCOS_BLOB_SECTOR_OFFSET = 1"

definition sizeofBootFilesInKB :: "(string \<Rightarrow> int option) \<Rightarrow> env \<Rightarrow> world \<Rightarrow> int \<times> world" where
  "sizeofBootFilesInKB toInt E w =
     (let (_, out, w1) = start_wait E ''du -s /mnt'' [] w
      in (toInt0 toInt (hd (split out (CHR 0x09))), w1))"

text \<open>
  The table of the fresh card. \<open>startOfSettings\<close> is aligned like the partitions of an image.
\<close>

definition startOfSettings :: "int \<Rightarrow> int \<Rightarrow> int" where
  "startOfSettings startOur sizeOur = alignUp (startOur + sizeOur + PARTITION_GAP)"

definition freshTable :: "int \<Rightarrow> int \<Rightarrow> string" where
  "freshTable startOur sizeOur =
     int_str startOur @ '','' @ int_str sizeOur @ '',0E\<newline>'' @
     int_str (startOur + sizeOur) @ '',,E\<newline>'' @
     ''0,0\<newline>'' @ ''0,0\<newline>'' @
     int_str (startOfSettings startOur sizeOur) @ '','' @ int_str SETTINGS_PARTITION_SIZE @ '',L\<newline>''"

definition newRescueStart :: "int \<Rightarrow> int" where
  "newRescueStart start = (if start < 2048 \<or> start smod 2048 \<noteq> 0 then PARTITION_ALIGNMENT else start)"

definition resizePartitions ::
  "(string \<Rightarrow> int option) \<Rightarrow> (int \<Rightarrow> int) \<Rightarrow> env \<Rightarrow> world \<Rightarrow> bool \<times> world" where
  "resizePartitions toInt rescueSize E w =
     (let sys = (\<lambda>u f. toInt0 toInt (trimmed (getFileContents u f)));
          start0 = sys w ''/sys/class/block/mmcblk0p1/start'';
          (kb, w1) = sizeofBootFilesInKB toInt E w;
          newSize = rescueSize kb;
          (oku, w2) = unmountSystemsPartition E w1
      in if \<not> oku then (False, w2)
         else if \<not> file_exists w2 ''/dev/mmcblk0p1'' then (False, w2)
         else
           let w3 = log_event (Sleep 500000) (patch_file E ''/dev/mmcblk0'' 462 (replicate (16 * 3) NUL) w2);
               (rcp, _, w4) = start_wait E (''/usr/sbin/parted --script /dev/mmcblk0 resize 1 '' @
                   int_str (newRescueStart start0) @ ''s '' @ int_str newSize @ ''M'') [] w3
           in if rcp \<noteq> 0 then (False, w4)
              else
                let w5 = log_event (Sleep 500000) w4;
                    startOur = sys w5 ''/sys/class/block/mmcblk0p1/start'';
                    sizeOur = sys w5 ''/sys/class/block/mmcblk0p1/size'';
                    (rcs, _, w6) = start_wait E ''/sbin/sfdisk -uS /dev/mmcblk0'' (freshTable startOur sizeOur) w5
                in if rcs \<noteq> 0 then (False, w6)
                   else
                     let w7 = log_event (Sleep 500000) w6;
                         w8 = (if \<not> file_exists w7 ''/dev/mmcblk0p1''
                               then log_event (Sleep 500000) (snd (execute E ''/usr/sbin/partprobe'' w7)) else w7);
                         (_, w9) = execute E ''/sbin/mlabel p:RECOVERY'' w8
                     in mountSystemsPartition E w9)"

definition formatSettingsPartition :: "env \<Rightarrow> world \<Rightarrow> bool \<times> world" where
  "formatSettingsPartition E w =
     (let (rc, w1) = execute E (''/usr/sbin/mkfs.ext4 -L SETTINGS '' @ SETTINGS_PARTITION) w in (rc = 0, w1))"

definition writeRiscOSblob :: "env \<Rightarrow> world \<Rightarrow> bool \<times> world" where
  "writeRiscOSblob E w =
     (let (rc, w1) = execute E (''/bin/dd conv=fsync bs=512 if='' @ RISCOS_BLOB_FILENAME @ '' of=/dev/mmcblk0 seek='' @
          int_str RISCOS_BLOB_SECTOR_OFFSET) w in (rc = 0, w1))"

text \<open>
  Waiting for the card: \<open>rounds\<close> naps until the device node is there; \<open>arrive\<close> is what has become
  visible by then.
\<close>

definition waitForCard :: "nat \<Rightarrow> (files \<Rightarrow> files) \<Rightarrow> world \<Rightarrow> world" where
  "waitForCard rounds arrive w =
     (if file_exists w ''/dev/mmcblk0'' then w
      else (fold (\<lambda>_. log_event (Sleep 100)) [0..<rounds] w)\<lparr>w_files := arrive (w_files w)\<rparr>)"

definition checkAndPrepareSDCard ::
  "(string \<Rightarrow> int option) \<Rightarrow> (int \<Rightarrow> int) \<Rightarrow> nat \<Rightarrow> (files \<Rightarrow> files) \<Rightarrow> env \<Rightarrow> world \<Rightarrow> bool \<times> world" where
  "checkAndPrepareSDCard toInt rescueSize rounds arrive E w0 =
     (let w = waitForCard rounds arrive w0
      in if file_exists w ''/dev/mmcblk0p2'' \<or> file_exists w SETTINGS_PARTITION then (True, w)
         else
           let (ok1, w1) = mountSystemsPartition E w
           in if \<not> ok1 then (False, w1)
              else
                let (ok2, w2) = resizePartitions toInt rescueSize E w1
                in if \<not> ok2 then (False, w2)
                   else
                     let (ok3, w3) = formatSettingsPartition E w2
                     in if \<not> ok3 then (False, w3)
                        else
                          let (ok4, w4) = (if file_exists w3 RISCOS_BLOB_FILENAME then writeRiscOSblob E w3 else (True, w3))
                          in if \<not> ok4 then (False, w4)
                             else
                               let (_, w5) = unmountSystemsPartition E w4;
                                   w6 = overwrite_file E ''/proc/sys/vm/drop_caches'' ''3\<newline>'' (log_event Sync w5);
                                   (ok7, w7) = mountSystemsPartition E w6
                               in if \<not> ok7 then (False, w7)
                                  else (True, snd (unmountPartition E SYSTEMS_DIR w7)))"

text \<open>
  The command line is read, cleaned, written and read again. \<open>QFile::open(ReadOnly)\<close> succeeds when
  the file exists.
\<close>

definition RUNINSTALLER :: string where "RUNINSTALLER = ''runinstaller''"

definition cleanLine :: "string \<Rightarrow> string" where
  "cleanLine l = trimmed (replace_all RUNINSTALLER [] (trimmed l))"

definition clearCMDline :: "env \<Rightarrow> world \<Rightarrow> bool \<times> world" where
  "clearCMDline E w =
     (let (_, w1) = mountSystemsPartition E w;
          f = (if \<not> file_exists w1 ''/mnt/recovery.cmdline'' then ''/mnt/cmdline.txt'' else ''/mnt/recovery.cmdline'')
      in case w_files w1 f of
           None \<Rightarrow> (False, w1)
         | Some content \<Rightarrow>
             let line = cleanLine content
             in if \<not> e_open_write E (w_log w1) f then (False, w1)
                else let (_, w2) = write_file E f line w1
                     in (getFileContents w2 f = line, w2))"

text \<open>Addresses other than the two loopback ones count as being online.\<close>

datatype host_address = LocalHost | LocalHostIPv6 | OtherAddress string

definition isOnline :: "host_address list \<Rightarrow> bool" where
  "isOnline addresses \<longleftrightarrow> (\<exists>a \<in> set addresses. a \<noteq> LocalHost \<and> a \<noteq> LocalHostIPv6)"

text \<open>
  The loop that waits for the network, over the addresses seen in each round; \<open>None\<close>: the list ends
  before the system is online.
\<close>

fun waitOnline :: "host_address list list \<Rightarrow> world \<Rightarrow> world option" where
  "waitOnline [] w = None"
| "waitOnline (as # rest) w = (if isOnline as then Some w else waitOnline rest (log_event (Sleep 5000000) w))"

definition startNetworking :: "env \<Rightarrow> host_address list list \<Rightarrow> world \<Rightarrow> world option" where
  "startNetworking E nets w =
     (let (_, w1) = execute E ''/etc/init.d/S30dbus start'' w;
          w2 = spawn E (''/sbin/dhcpcd --noarp -e wpa_supplicant_conf=/settings/wpa_supplicant.conf --denyinterfaces '' @
                 ''\"*_ap\"'') w1
      in waitOnline nets w2)"

section \<open>Facts\<close>

text \<open>The settings partition of a fresh card starts on a 4 MiB boundary behind the extended
  partition's first sectors and ends two sectors before the next boundary, as the plans of the
  installer need it.
\<close>

theorem freshTable_settings:
  assumes "0 \<le> startOur" and "0 \<le> sizeOur"
  shows "startOur + sizeOur < startOfSettings startOur sizeOur \<and>
    PARTITION_ALIGNMENT dvd startOfSettings startOur sizeOur \<and>
    8192 dvd startOfSettings startOur sizeOur + SETTINGS_PARTITION_SIZE + PARTITION_GAP"
proof -
  have a: "8192 dvd startOfSettings startOur sizeOur"
    using alignUp_mult assms by (simp add: startOfSettings_def PARTITION_GAP_def)
  moreover have "startOur + sizeOur < startOfSettings startOur sizeOur"
    using alignUp_ge [of "startOur + sizeOur + PARTITION_GAP"] by (simp add: startOfSettings_def PARTITION_GAP_def)
  moreover have "8192 dvd startOfSettings startOur sizeOur + 65536" using a by (intro dvd_add) simp_all
  ultimately show ?thesis
    by (simp add: PARTITION_ALIGNMENT_def SETTINGS_PARTITION_SIZE_def PARTITION_GAP_def)
qed

theorem freshTable_settings_witness:
  "8192 + 140000 < startOfSettings 8192 140000 \<and> PARTITION_ALIGNMENT dvd startOfSettings 8192 140000 \<and>
   8192 dvd startOfSettings 8192 140000 + SETTINGS_PARTITION_SIZE + PARTITION_GAP"
  using freshTable_settings [of 8192 140000] by simp

section \<open>Cleaning the command line\<close>

text \<open>A pattern without blanks never reaches over a blank.\<close>

lemma starts_with_blank:
  assumes "CHR '' '' \<notin> set p" and "starts_with (w @ CHR '' '' # s) p"
  shows "starts_with w p"
proof (cases "length p \<le> length w")
  case True
  then show ?thesis using assms(2) by (simp add: starts_with_def)
next
  case False
  then have "p ! length w = (w @ CHR '' '' # s) ! length w"
    using assms(2) unfolding starts_with_def by (metis linorder_not_less nth_take)
  then have "CHR '' '' \<in> set p" using False by (metis linorder_not_less nth_append_length nth_mem)
  then show ?thesis using assms(1) by simp
qed

lemma starts_with_more: "starts_with w p \<Longrightarrow> starts_with (w @ s) p"
  unfolding starts_with_iff by (metis append_assoc)

lemma replace_all_blank:
  assumes "CHR '' '' \<notin> set p"
  shows "replace_all p [] (w @ CHR '' '' # s) = replace_all p [] w @ CHR '' '' # replace_all p [] s"
proof (induction w rule: length_induct)
  case (1 w)
  show ?case
  proof (cases w)
    case Nil
    have "\<not> (p \<noteq> [] \<and> starts_with (CHR '' '' # s) p)"
      using starts_with_blank [OF assms, of "[]" s] by (auto simp: starts_with_def)
    then show ?thesis using Nil by auto
  next
    case (Cons c u)
    show ?thesis
    proof (cases "p \<noteq> [] \<and> starts_with w p")
      case True
      then have "length (drop (length p) w) < length w" by (simp add: Cons)
      moreover have "starts_with (w @ CHR '' '' # s) p" using True starts_with_more by blast
      moreover have "length p \<le> length w" using True by (metis starts_with_iff length_append le_add1)
      moreover from this have "drop (length p) (w @ CHR '' '' # s) = drop (length p) w @ CHR '' '' # s" by simp
      ultimately show ?thesis using 1 True unfolding Cons append_Cons
        by (simp only: replace_all.simps if_True simp_thms append_Nil)
    next
      case False
      then have "\<not> (p \<noteq> [] \<and> starts_with (w @ CHR '' '' # s) p)" using starts_with_blank [OF assms] by blast
      then show ?thesis using 1 False by (auto simp: Cons)
    qed
  qed
qed

lemma replace_all_absent: "\<not> contains_str w p \<Longrightarrow> replace_all p r w = w"
  by (induction w) auto

lemma contains_str_blank:
  assumes "CHR '' '' \<notin> set p" and "p \<noteq> []"
  shows "contains_str (w @ CHR '' '' # s) p \<longleftrightarrow> contains_str w p \<or> contains_str s p"
proof (induction w)
  case Nil
  have "\<not> starts_with (CHR '' '' # s) p"
    using starts_with_blank [OF assms(1), of "[]" s] assms(2) by (auto simp: starts_with_def)
  then show ?case using assms(2) by simp
next
  case (Cons c w)
  have "starts_with (c # w @ CHR '' '' # s) p \<longleftrightarrow> starts_with (c # w) p"
    using starts_with_blank [OF assms(1), of "c # w" s] starts_with_more [of "c # w" p] by auto
  then show ?case using Cons by auto
qed

lemma replace_all_clears:
  assumes "CHR '' '' \<notin> set p" and "p \<noteq> []"
    and "\<forall>w \<in> set ws. w = p \<or> \<not> contains_str w p"
  shows "\<not> contains_str (replace_all p [] (join (CHR '' '') ws)) p"
  using assms(3)
proof (induction ws)
  case (Cons w ws)
  have w: "\<not> contains_str (replace_all p [] w) p"
    using Cons.prems replace_all_absent [of w p] replace_all_prefix [OF assms(2), of "[]" "[]"] assms(2) by auto
  show ?case
  proof (cases "ws = []")
    case False
    then show ?thesis
      using Cons w by (simp add: join_Cons replace_all_blank [OF assms(1)] contains_str_blank [OF assms(1,2)])
  qed (use w in simp)
qed (use assms(2) in simp)

lemma contains_trimmed: "contains_str (trimmed s) p \<Longrightarrow> contains_str s p"
  using trimmed_infix [of s] unfolding contains_str_iff by (metis append_assoc)

definition cmdlineFile :: "world \<Rightarrow> string" where
  "cmdlineFile w = (if \<not> file_exists w ''/mnt/recovery.cmdline'' then ''/mnt/cmdline.txt'' else ''/mnt/recovery.cmdline'')"

text \<open>When \<open>clearCMDline\<close> reports success, the command line on the card is the old one without
  the word \<open>runinstaller\<close>: the next boot does not enter the installer again.
\<close>

theorem clearCMDline_clears:
  assumes "clearCMDline E w = (True, w')"
  defines "w1 \<equiv> snd (mountSystemsPartition E w)"
  assumes words: "\<forall>v \<in> set (split (trimmed (getFileContents w1 (cmdlineFile w1))) (CHR '' '')).
      v = RUNINSTALLER \<or> \<not> contains_str v RUNINSTALLER"
  shows "getFileContents w' (cmdlineFile w1) = cleanLine (getFileContents w1 (cmdlineFile w1)) \<and>
    \<not> contains_str (getFileContents w' (cmdlineFile w1)) RUNINSTALLER"
proof -
  have ok: "getFileContents w' (cmdlineFile w1) = cleanLine (getFileContents w1 (cmdlineFile w1))"
    using assms(1) unfolding clearCMDline_def w1_def [symmetric] case_prod_unfold Let_def cmdlineFile_def [symmetric]
    by (auto simp: getFileContents_def split: option.splits if_splits)
  have "CHR '' '' \<notin> set RUNINSTALLER" "RUNINSTALLER \<noteq> []" by (simp_all add: RUNINSTALLER_def)
  then have "\<not> contains_str (cleanLine (getFileContents w1 (cmdlineFile w1))) RUNINSTALLER"
    using replace_all_clears [OF _ _ words] contains_trimmed unfolding cleanLine_def by fastforce
  with ok show ?thesis by simp
qed

definition demoBoot :: world where
  "demoBoot = \<lparr>w_files = (\<lambda>p. if p = ''/mnt/cmdline.txt'' then Some ''quiet runinstaller silent''
                else if p \<in> {''/mnt'', ''/dev/mmcblk0p1''} then Some [] else None), w_log = []\<rparr>"

theorem clearCMDline_clears_witness:
  "\<not> contains_str (getFileContents (snd (clearCMDline demoEnv demoBoot)) ''/mnt/cmdline.txt'') RUNINSTALLER"
proof -
  let ?w1 = "snd (mountSystemsPartition demoEnv demoBoot)"
  have "clearCMDline demoEnv demoBoot = (True, snd (clearCMDline demoEnv demoBoot))"
    unfolding prod_eq_iff by simp code_simp
  moreover have "\<forall>v \<in> set (split (trimmed (getFileContents ?w1 (cmdlineFile ?w1))) (CHR '' '')).
      v = RUNINSTALLER \<or> \<not> contains_str v RUNINSTALLER"
    by code_simp
  moreover have "cmdlineFile ?w1 = ''/mnt/cmdline.txt''" by code_simp
  ultimately show ?thesis using clearCMDline_clears by fastforce
qed

end
