(* ===== verification/WebServer.thy ===== *)
theory WebServer
  imports WebMsg
begin

text \<open>
  \<open>recovery/libs/Web/WebServer.h\<close>, \<open>WebServer.cpp\<close>: request line, responses, the routing
  table and the accept loop. A callback is a function on the state of the program; what it writes
  itself to the socket is part of its effect.
\<close>

record request =
  rq_message :: message
  rq_method :: string
  rq_path :: string

record response =
  rs_message :: message
  rs_code :: int
  rs_phrase :: string
  rs_type :: string
  rs_date :: string

type_synonym 's callback = "request \<Rightarrow> response \<Rightarrow> 's \<Rightarrow> response \<times> 's"

record 's route =
  rt_path :: string
  rt_method :: string
  rt_callback :: "'s callback"

definition mkResponse :: "string \<Rightarrow> response" where
  "mkResponse date = \<lparr>rs_message = empty_message, rs_code = 200, rs_phrase = ''OK'',
     rs_type = ''text/plain'', rs_date = date\<rparr>"

definition setResponse :: "int \<Rightarrow> string \<Rightarrow> string \<Rightarrow> response \<Rightarrow> response" where
  "setResponse code phrase text r =
     r\<lparr>rs_phrase := phrase, rs_code := code, rs_type := ''text/plain'',
       rs_message := (rs_message r)\<lparr>body := text\<rparr>\<rparr>"

text \<open>The outcome of \<open>receiveRequest\<close>, with the request line taken apart.\<close>

datatype req_result = ReqHang | ReqThrow | ReqBad | ReqOk request

definition receiveRequest :: "string \<Rightarrow> round list \<Rightarrow> req_result" where
  "receiveRequest behind rs =
     (case receive behind rs of
        Hang \<Rightarrow> ReqHang
      | Throw \<Rightarrow> ReqThrow
      | Done ok m n rest \<Rightarrow>
          if \<not> ok then ReqBad
          else
            let v = split (headerLine m) (CHR '' '')
            in if length v \<noteq> 3 then ReqBad
               else if v ! 2 \<noteq> ''HTTP/1.1'' @ [CR] then ReqBad
               else ReqOk \<lparr>rq_message = m, rq_method = v ! 0, rq_path = v ! 1\<rparr>)"

definition responseMessage :: "response \<Rightarrow> message" where
  "responseMessage r =
     (let m = rs_message r;
          h1 = om_insert ''Server'' ''NOOBS4IoT 0.1a'' (header m);
          h2 = om_insert ''Date'' (rs_date r) h1;
          h3 = om_insert ''Content-Type'' (rs_type r) h2;
          h4 = om_insert ''Content-Length'' (nat_str (length (cstr (body m)))) h3
      in m\<lparr>headerLine := ''HTTP/1.0 '' @ int_str (rs_code r) @ '' '' @ rs_phrase r, header := h4\<rparr>)"

definition sendResponse :: "response \<Rightarrow> (string \<times> string) option" where
  "sendResponse r = send (responseMessage r)"

definition addRoute :: "string \<Rightarrow> string \<Rightarrow> 's callback \<Rightarrow> 's route list \<Rightarrow> 's route list" where
  "addRoute path meth cb rts = rts @ [\<lparr>rt_path = path, rt_method = meth, rt_callback = cb\<rparr>]"

definition get_route :: "string \<Rightarrow> 's callback \<Rightarrow> 's route list \<Rightarrow> 's route list" where
  "get_route path cb = addRoute path ''GET'' cb"

definition post_route :: "string \<Rightarrow> 's callback \<Rightarrow> 's route list \<Rightarrow> 's route list" where
  "post_route path cb = addRoute path ''POST'' cb"

definition all_route :: "string \<Rightarrow> 's callback \<Rightarrow> 's route list \<Rightarrow> 's route list" where
  "all_route path cb = addRoute path ''ALL'' cb"

definition route_matches :: "request \<Rightarrow> 's route \<Rightarrow> bool" where
  "route_matches q r \<longleftrightarrow> rt_path r = rq_path q \<and> (rt_method r = rq_method q \<or> rt_method r = ''ALL'')"

fun matchRoute :: "'s route list \<Rightarrow> request \<Rightarrow> response \<Rightarrow> 's \<Rightarrow> bool \<times> response \<times> 's" where
  "matchRoute [] q p s = (False, p, s)"
| "matchRoute (r # rts) q p s =
     (if route_matches q r then (let (p', s') = rt_callback r q p s in (True, p', s'))
      else matchRoute rts q p s)"

text \<open>
  One round of the accept loop on an accepted connection. \<open>None\<close>: the server does not come
  back to \<open>accept\<close> (it hangs, or an exception or the header overflow ends it). Otherwise the bytes
  written at the end and the new state.
\<close>

definition serveOne :: "string \<Rightarrow> string \<Rightarrow> 's route list \<Rightarrow> round list \<Rightarrow> 's \<Rightarrow> ((string \<times> string) \<times> 's) option" where
  "serveOne behind date rts rs s =
     (let resp = mkResponse date;
          answer = (\<lambda>p s'. map_option (\<lambda>out. (out, s')) (sendResponse p))
      in case receiveRequest behind rs of
           ReqHang \<Rightarrow> None
         | ReqThrow \<Rightarrow> None
         | ReqBad \<Rightarrow> answer (setResponse 400 ''Bad Request'' ''Bad Request'' resp) s
         | ReqOk q \<Rightarrow>
             case matchRoute rts q resp s of (ok, p, s') \<Rightarrow>
               if ok then answer p s'
               else answer (setResponse 404 ''Not Found'' ''Not found'' p) s')"

text \<open>
  The accept loop. \<open>_stopServer\<close> is set to false on entry and never set again, so the loop runs as
  long as connections come; the list holds the outcomes of \<open>accept\<close> (\<open>None\<close>: it failed).
\<close>

fun serveAll :: "string \<Rightarrow> string \<Rightarrow> 's route list \<Rightarrow> round list option list \<Rightarrow> 's \<Rightarrow> 's option" where
  "serveAll behind date rts [] s = Some s"
| "serveAll behind date rts (None # cs) s = serveAll behind date rts cs s"
| "serveAll behind date rts (Some rs # cs) s =
     (case serveOne behind date rts rs s of None \<Rightarrow> None | Some (out, s') \<Rightarrow> serveAll behind date rts cs s')"

end
