(* ===== verification/BootManager.thy ===== *)
theory BootManager
  imports PreSetup WebServer
begin

text \<open>
  \<open>recovery/BootManager.h\<close>, \<open>BootManager.cpp\<close>: the decision between booting and setup mode, the
  four REST handlers, the local menu and \<open>run\<close>, which composes every other part. The state of
  the program is the world, the heap of partition objects and whether the program has ended.
\<close>

datatype halt =
    Exited                 \<comment> \<open>\<open>exit(0)\<close>\<close>
  | Rebooted               \<comment> \<open>\<open>reboot\<close> was called\<close>
  | Stuck get_result       \<comment> \<open>a download does not come back\<close>
  | HeaderOverflow         \<comment> \<open>the header buffer of a response overflows\<close>

record pst =
  ps_world :: world
  ps_heap :: heap
  ps_halt :: "halt option"

text \<open>What the program takes from Qt, QJson, the compiler and the system.\<close>

record 'v params =
  pa_qv :: "'v qv"
  pa_ini :: "string \<Rightarrow> string \<Rightarrow> 'v option"
  pa_toInt :: "string \<Rightarrow> int option"
  pa_toull :: "string \<Rightarrow> nat"
  pa_overhead :: "int \<Rightarrow> int \<Rightarrow> int"
  pa_rescueSize :: "int \<Rightarrow> int"
  pa_net :: net
  pa_env :: env
  pa_junkSize :: int
  pa_junkPart :: pinfo
  pa_junkOS :: osinfo

definition halt_with :: "halt \<Rightarrow> pst \<Rightarrow> pst" where
  "halt_with r s = s\<lparr>ps_halt := Some r\<rparr>"

section \<open>Handlers\<close>

definition reboot_now :: "'v params \<Rightarrow> string \<Rightarrow> pst \<Rightarrow> pst" where
  "reboot_now P dev s =
     (let w = bootIntoPartition (pa_toInt P) (pa_env P) dev (ps_world s)
      in s\<lparr>ps_world := w, ps_halt := (if w_log w \<noteq> [] \<and> last (w_log w) = Reboot then Some Rebooted else ps_halt s)\<rparr>)"

text \<open>\<open>sendResponse\<close> from inside a handler: the bytes go to the socket before it returns.\<close>

definition send_now :: "response \<Rightarrow> pst \<Rightarrow> pst" where
  "send_now p s =
     (case sendResponse p of
        None \<Rightarrow> halt_with HeaderOverflow s
      | Some (h, b) \<Rightarrow> s\<lparr>ps_world := log_event (SendBytes (h @ b)) (ps_world s)\<rparr>)"

definition setDefaultBootPartitionREST :: "'v params \<Rightarrow> pst callback" where
  "setDefaultBootPartitionREST P q p s =
     (let b = body (rq_message q);
          (ok, w) = setDefaultBootPartition (pa_env P) (cstr b) (ps_world s);
          s1 = s\<lparr>ps_world := w\<rparr>
      in if ok then (setResponse 200 ''OK'' (''Successfully set default partition to '' @ b @ ''\<newline>'') p, s1)
         else (setResponse 400 ''Bad Request''
                 (''Unable to set default partition to '' @ b @ '', partition does not exist\<newline>'') p, s1))"

text \<open>A new \<open>InstallManager\<close> and one installation with it; the object is never deleted.\<close>

definition runInstall :: "'v params \<Rightarrow> osinfo \<Rightarrow> pst \<Rightarrow> bool \<times> pst" where
  "runInstall P os s =
     (let (im, w1) = InstallManager_init (pa_toull P) (pa_env P) (ps_heap s) (ps_world s);
          (ok, t) = installOS (pa_qv P) (pa_ini P) (pa_toInt P) (pa_overhead P) (pa_env P) (pa_junkPart P) os
                      \<lparr>iw_im = im, iw_installed = [], iw_world = w1\<rparr>
      in (ok, s\<lparr>ps_world := iw_world t, ps_heap := iw_heap t\<rparr>))"

definition installOSREST :: "'v params \<Rightarrow> pst callback" where
  "installOSREST P q p s =
     (let json = parseJson (pa_qv P) (cstr (body (rq_message q)));
          refuse = setResponse 400 ''Bad Request'' ''Unable to install OS\<newline>'' p
      in if length json \<le> 0 then (refuse, s)
         else case mkOSInfo (pa_qv P) (pa_net P) (pa_junkSize P) (pa_junkOS P) (ps_world s) json (ps_heap s) of
                Inl e \<Rightarrow> (p, halt_with (Stuck e) s)
              | Inr (os, h) \<Rightarrow>
                  let s1 = s\<lparr>ps_heap := h\<rparr> in
                  if \<not> os_valid os then (refuse, s1)
                  else
                    let (ok, s2) = runInstall P os s1
                    in if \<not> ok then (setResponse 500 ''Internal Server Error'' ''Unable to install OS\<newline>'' p, s2)
                       else if om_contains (header (rq_message q)) ''AutoReboot'' then
                         let p1 = setResponse 200 ''OK'' ''Successfully installed OS and rebooting now!\<newline>'' p
                         in (p1, reboot_now P [] (send_now p1 s2))
                       else (setResponse 200 ''OK'' ''Successfully installed OS\<newline>'' p, s2))"

definition rebootToDefaultPartition :: "'v params \<Rightarrow> pst callback" where
  "rebootToDefaultPartition P q p s =
     (let p1 = setResponse 200 ''OK'' ''Reboot into default partition now\<newline>'' p
      in (p1, reboot_now P [] (send_now p1 s)))"

definition exitToShell :: "pst callback" where
  "exitToShell q p s =
     (let p1 = setResponse 200 ''OK'' ''Exit to recovery shell now\<newline>'' p
      in (p1, halt_with Exited (send_now p1 s)))"

definition restRoutes :: "'v params \<Rightarrow> pst route list" where
  "restRoutes P =
     post_route ''/exit'' exitToShell
       (post_route ''/reboot'' (rebootToDefaultPartition P)
         (post_route ''/bootPartition'' (setDefaultBootPartitionREST P)
           (post_route ''/os'' (installOSREST P) [])))"

text \<open>
  The accept loop of the server on these routes, until the program ends. \<open>None\<close>: the server itself
  hangs or dies (see \<open>serveOne\<close>).
\<close>

fun serveREST :: "'v params \<Rightarrow> string \<Rightarrow> string \<Rightarrow> round list option list \<Rightarrow> pst \<Rightarrow> pst option" where
  "serveREST P behind date [] s = Some s"
| "serveREST P behind date (c # cs) s =
     (if ps_halt s \<noteq> None then Some s
      else case c of
             None \<Rightarrow> serveREST P behind date cs s
           | Some rs \<Rightarrow>
               case serveOne behind date (restRoutes P) rs s of
                 None \<Rightarrow> None
               | Some (_, s') \<Rightarrow> serveREST P behind date cs s')"

section \<open>The boot decision\<close>

definition eq_ci :: "string \<Rightarrow> string \<Rightarrow> bool" where
  "eq_ci a b \<longleftrightarrow> map to_lower a = map to_lower b"

text \<open>The loop over the arguments: the flag \<open>runinstaller\<close>, the member \<open>webserver\<close> and the world.\<close>

fun bootArgs :: "env \<Rightarrow> string list \<Rightarrow> bool \<Rightarrow> bool \<Rightarrow> world \<Rightarrow> bool \<times> bool \<times> world" where
  "bootArgs E [] ri web w = (ri, web, w)"
| "bootArgs E (a # args) ri web w =
     (if eq_ci a ''-runinstaller'' then bootArgs E args True web w
      else if eq_ci a ''-partition'' then
        bootArgs E args ri web (if args \<noteq> [] then snd (setDefaultBootPartition E (hd args) w) else w)
      else if eq_ci a ''-no-webserver'' then bootArgs E args ri False w
      else bootArgs E args ri web w)"

definition bootCheck :: "'v qv \<Rightarrow> env \<Rightarrow> string list \<Rightarrow> bool \<Rightarrow> world \<Rightarrow> bool \<times> bool \<times> world" where
  "bootCheck Q E args web0 w =
     (let (ri, web, w1) = bootArgs E args False web0 w
      in if ri then (False, web, w1)
         else if \<not> hasInstalledOS Q w1 then (False, web, w1)
         else (True, web, w1))"

section \<open>The menu and the whole program\<close>

text \<open>
  The menu over the numbers and lines that are typed. Selection 4 has no \<open>break\<close>: it leaves the
  menu like selection 5. The list may end first: the program then waits for input.
\<close>

definition installRaspbian :: "'v params \<Rightarrow> pst \<Rightarrow> pst" where
  "installRaspbian P s =
     (let (im, w1) = InstallManager_init (pa_toull P) (pa_env P) (ps_heap s) (ps_world s);
          s1 = s\<lparr>ps_world := w1\<rparr>
      in case mkOSInfo (pa_qv P) (pa_net P) (pa_junkSize P) (pa_junkOS P) w1 (getRaspbianJSON (pa_qv P)) (ps_heap s1) of
           Inl e \<Rightarrow> halt_with (Stuck e) s1
         | Inr (os, h) \<Rightarrow>
             if \<not> os_valid os then s1\<lparr>ps_heap := h\<rparr>
             else
               let (_, t) = installOS (pa_qv P) (pa_ini P) (pa_toInt P) (pa_overhead P) (pa_env P) (pa_junkPart P) os
                              \<lparr>iw_im = im\<lparr>im_heap := h\<rparr>, iw_installed = [], iw_world = w1\<rparr>
               in s1\<lparr>ps_world := iw_world t, ps_heap := iw_heap t\<rparr>)"

fun local_menu :: "'v params \<Rightarrow> (int \<times> string) list \<Rightarrow> pst \<Rightarrow> pst option" where
  "local_menu P [] s = (if ps_halt s \<noteq> None then Some s else None)"
| "local_menu P ((n, line) # inp) s =
     (if ps_halt s \<noteq> None then Some s
      else if n = 1 then local_menu P inp (reboot_now P [] s)
      else if n = 2 then local_menu P inp (reboot_now P line s)
      else if n = 3 then
        local_menu P inp (s\<lparr>ps_world := snd (setDefaultBootPartition (pa_env P) line (ps_world s))\<rparr>)
      else if n = 4 then Some (installRaspbian P s)
      else if n = 5 then Some s
      else local_menu P inp s)"

text \<open>
  What the program meets while it runs: the rounds until the card is there and what is visible then,
  the addresses per network round, the connections and what is typed.
\<close>

record course =
  co_args :: "string list"
  co_rounds :: nat
  co_arrive :: "files \<Rightarrow> files"
  co_nets :: "host_address list list"
  co_conns :: "round list option list"
  co_behind :: string
  co_date :: string
  co_typed :: "(int \<times> string) list"

definition setupMode :: "'v params \<Rightarrow> course \<Rightarrow> bool \<Rightarrow> pst \<Rightarrow> pst option" where
  "setupMode P C web s =
     (let (_, w1) = checkAndPrepareSDCard (pa_toInt P) (pa_rescueSize P) (co_rounds C) (co_arrive C) (pa_env P) (ps_world s);
          (_, w2) = clearCMDline (pa_env P) w1
      in case startNetworking (pa_env P) (co_nets C) w2 of
           None \<Rightarrow> None
         | Some w3 \<Rightarrow>
             let (_, w4) = mountSettingsPartition (pa_env P) w3;
                 s1 = s\<lparr>ps_world := w4\<rparr>
             in if web then serveREST P (co_behind C) (co_date C) (co_conns C) s1
                else local_menu P (co_typed C) s1)"

text \<open>
  \<open>run\<close>. Both results that would end it early (\<open>mountSettingsPartition\<close>, whose test is inverted,
  and \<open>checkAndPrepareSDCard\<close>) only emit a signal, and the function goes on.
\<close>

definition run :: "'v params \<Rightarrow> course \<Rightarrow> pst \<Rightarrow> pst option" where
  "run P C s =
     (let (_, w1) = mountSettingsPartition (pa_env P) (ps_world s);
          (boot, web, w2) = bootCheck (pa_qv P) (pa_env P) (co_args C) True w1;
          s1 = s\<lparr>ps_world := w2\<rparr>
      in if boot then Some (reboot_now P [] s1) else setupMode P C web s1)"

section \<open>Properties\<close>

lemma bootArgs_flag:
  "fst (bootArgs E args ri web w) \<longleftrightarrow> ri \<or> (\<exists>a \<in> set args. eq_ci a ''-runinstaller'')"
  by (induction E args ri web w rule: bootArgs.induct) auto

text \<open>The boot check chooses a boot exactly when no argument asks for the installer and the list
  of installed systems, as it is after the arguments have been processed, is not empty.
\<close>

theorem bootCheck_decides:
  "fst (bootCheck Q E args web w) \<longleftrightarrow>
     \<not> (\<exists>a \<in> set args. eq_ci a ''-runinstaller'') \<and> hasInstalledOS Q (snd (snd (bootCheck Q E args web w)))"
  using bootArgs_flag [of E args False web w] by (auto simp: bootCheck_def case_prod_unfold Let_def)

text \<open>A request that is not a \<open>POST\<close> to one of the four registered paths is answered with 404 and
  changes nothing.
\<close>

theorem unknown_request_harmless:
  assumes "receiveRequest behind rs = ReqOk q"
    and "\<not> (rq_method q = ''POST'' \<and> rq_path q \<in> {''/os'', ''/bootPartition'', ''/reboot'', ''/exit''})"
  shows "serveOne behind date (restRoutes P) rs s =
    map_option (\<lambda>out. (out, s)) (sendResponse (setResponse 404 ''Not Found'' ''Not found'' (mkResponse date)))"
proof -
  have "matchRoute (restRoutes P) q p s = (False, p, s)" for p
    using assms(2) by (auto simp: restRoutes_def post_route_def addRoute_def route_matches_def)
  then show ?thesis by (simp add: serveOne_def assms(1))
qed

lemma demo_request: "receiveRequest [] [Chunk (''GET /os HTTP/1.1'' @ CRLF @ CRLF)] =
    ReqOk \<lparr>rq_message = \<lparr>headerLine = ''GET /os HTTP/1.1'' @ [CR], header = [], body = []\<rparr>,
           rq_method = ''GET'', rq_path = ''/os''\<rparr>"
  by code_simp

definition demoParams :: "string params" where
  "demoParams = \<lparr>pa_qv = demoQ\<lparr>qv_parse := (\<lambda>x. (True, if x = ''os'' then ''E'' else ''P'')),
        to_map := (\<lambda>v. if v = ''E'' then demoEntry else to_map demoQ v)\<rparr>,
     pa_ini = (\<lambda>_ _. None), pa_toInt = (\<lambda>_. None), pa_toull = (\<lambda>_. 0), pa_overhead = (\<lambda>a _. a),
     pa_rescueSize = (\<lambda>a. a), pa_net = demoNet, pa_env = demoEnv, pa_junkSize = 0,
     pa_junkPart = demoPart [] 0 False,
     pa_junkOS = osinfo.make [] [] [] [] [] [] [] False False False 0 [] []\<rparr>"

definition demoState :: pst where
  "demoState = \<lparr>ps_world = \<lparr>w_files = (\<lambda>_. None), w_log = []\<rparr>, ps_heap = [], ps_halt = None\<rparr>"

theorem unknown_request_harmless_witness:
  "serveOne [] [] (restRoutes demoParams) [Chunk (''GET /os HTTP/1.1'' @ CRLF @ CRLF)] demoState =
    map_option (\<lambda>out. (out, demoState)) (sendResponse (setResponse 404 ''Not Found'' ''Not found'' (mkResponse [])))"
  by (rule unknown_request_harmless [OF demo_request]) simp

text \<open>C8: A request to install changes the system only when its JSON text describes a valid operating
  system, whose partitions are then fresh, valid and paired with the tarballs.
\<close>

theorem installOSREST_needs_valid:
  assumes "installOSREST P q p s = (p', s')" and "ps_world s' \<noteq> ps_world s"
  shows "\<exists>os h. mkOSInfo (pa_qv P) (pa_net P) (pa_junkSize P) (pa_junkOS P) (ps_world s)
        (parseJson (pa_qv P) (cstr (body (rq_message q)))) (ps_heap s) = Inr (os, h) \<and>
      os_valid os \<and> os_ready (ps_heap s) os h"
proof -
  let ?r = "mkOSInfo (pa_qv P) (pa_net P) (pa_junkSize P) (pa_junkOS P) (ps_world s)
      (parseJson (pa_qv P) (cstr (body (rq_message q)))) (ps_heap s)"
  obtain os h where r: "?r = Inr (os, h)" "os_valid os"
    using assms
    by (cases ?r) (auto simp: installOSREST_def Let_def halt_with_def split: if_splits prod.splits)
  then show ?thesis using mkOSInfo_valid_ready [OF r] by blast
qed

theorem installOSREST_needs_valid_witness:
  "\<exists>os h. mkOSInfo (pa_qv demoParams) demoNet 0 (pa_junkOS demoParams) (ps_world demoState) demoEntry [] = Inr (os, h) \<and>
     os_valid os \<and> os_ready [] os h"
proof -
  let ?q = "\<lparr>rq_message = \<lparr>headerLine = [], header = [], body = ''os''\<rparr>, rq_method = ''POST'', rq_path = ''/os''\<rparr>"
  let ?r = "installOSREST demoParams ?q (mkResponse []) demoState"
  have "w_log (ps_world (snd ?r)) \<noteq> []" by code_simp
  then have w: "ps_world (snd ?r) \<noteq> ps_world demoState" by (auto simp: demoState_def)
  have p: "parseJson (pa_qv demoParams) (cstr (body (rq_message ?q))) = demoEntry" by code_simp
  have d: "pa_net demoParams = demoNet" "pa_junkSize demoParams = 0" "ps_heap demoState = []"
    by (simp_all add: demoParams_def demoState_def)
  from installOSREST_needs_valid [OF prod.collapse [symmetric] w] show ?thesis unfolding p d .
qed

end
