(* ===== verification/WebFacts.thy ===== *)
theory WebFacts
  imports WebServer WebClient
begin

text \<open>
  Properties of the HTTP layer: what is sent is parsed back, requests reach the first matching
  route, URLs are taken apart without loss, and when reading a message returns.
\<close>

section \<open>Header lines\<close>

lemma foldl_join: "foldl (\<lambda>a t. a @ [sep] @ t) t ts = join sep (t # ts)"
proof (induction ts arbitrary: t)
  case (Cons u us)
  have "join sep ((t @ sep # u) # us) = t @ sep # join sep (u # us)" for us
    by (cases us) auto
  then show ?case using Cons by simp
qed simp

lemma parseHeaderLine_colon:
  assumes "CHR '':'' \<notin> set k"
  shows "parseHeaderLine (k @ '': '' @ v) m = (True, m\<lparr>header := om_insert k v (header m)\<rparr>)"
proof -
  have s: "split (k @ '': '' @ v) (CHR '':'') = k # split (CHR '' '' # v) (CHR '':'')"
    using split_append [OF assms, of "CHR '' '' # v"] by simp
  obtain t ts where t: "split (CHR '' '' # v) (CHR '':'') = t # ts"
    by (meson list.exhaust split_not_Nil)
  have "foldl (\<lambda>a t. a @ '':'' @ t) t ts = CHR '' '' # v"
    using foldl_join [of "CHR '':''" t ts] join_split [of "CHR '':''" "CHR '' '' # v"] t by simp
  then show ?thesis unfolding parseHeaderLine_def s t by (simp add: Let_def)
qed

text \<open>A line the sender can write: no line feed, no NUL.\<close>

definition plain_line :: "string \<Rightarrow> bool" where
  "plain_line s \<longleftrightarrow> LF \<notin> set s \<and> NUL \<notin> set s"

definition plain_header :: "(string, string) ordmap \<Rightarrow> bool" where
  "plain_header h \<longleftrightarrow> om_wf h \<and> (\<forall>(k, v) \<in> set h. plain_line k \<and> plain_line v \<and> CHR '':'' \<notin> set k)"

lemma cstr_plain: "plain_line s \<Longrightarrow> cstr s = s"
  by (auto simp: cstr_def plain_line_def takeWhile_eq_all_conv)

lemma CR_LF [simp]: "CR \<noteq> LF" "LF \<noteq> CR" "CR \<noteq> NUL" "LF \<noteq> NUL"
  by (simp_all add: CR_def LF_def NUL_def)

lemma getlines_line: "LF \<notin> set l \<Longrightarrow> getlines (l @ LF # s) = l # getlines s"
  using split_not_Nil [of s LF] by (auto simp: getlines_def split_append Let_def)

lemma getlines_nil [simp]: "getlines [] = []"
  by (simp add: getlines_def)

definition headerLines :: "(string, string) ordmap \<Rightarrow> string" where
  "headerLines h = concat (map (\<lambda>(k, v). k @ '': '' @ v @ CRLF) h)"

lemma headerText_plain:
  assumes "plain_line (headerLine m)" and "plain_header (header m)"
  shows "headerText m = headerLine m @ [CR] @ LF # headerLines (header m) @ [CR] @ [LF]"
proof -
  have "concat (map (\<lambda>(k, v). cstr k @ '': '' @ cstr v @ CRLF) (header m)) = headerLines (header m)"
    unfolding headerLines_def
    by (rule arg_cong [where f = concat], rule map_cong) (use assms(2) in \<open>auto simp: plain_header_def cstr_plain\<close>)
  then show ?thesis
    using assms(1) unfolding headerText_def by (simp add: cstr_plain CRLF_def)
qed

lemma colon_CR: "CHR '':'' \<noteq> CR" "CHR '' '' \<noteq> LF" "CHR '':'' \<noteq> LF"
  by (simp_all add: CR_def LF_def)

text \<open>Inserting keys in ascending order rebuilds an ordered map.\<close>

lemma om_insert_last:
  "\<forall>x \<in> set (om_keys m). x < k \<Longrightarrow> om_insert k v m = m @ [(k, v)]"
  by (induction k v m rule: om_insert.induct) (auto simp: om_keys_def)

lemma parse_headers:
  assumes "plain_header h" and "om_wf (header m @ map (\<lambda>(k, v). (k, v @ [CR])) h)"
  shows "parseLines (getlines (headerLines h @ s)) True False m =
     parseLines (getlines s) True False (m\<lparr>header := header m @ map (\<lambda>(k, v). (k, v @ [CR])) h\<rparr>)"
  using assms
proof (induction h arbitrary: m)
  case Nil
  then show ?case by (simp add: headerLines_def)
next
  case (Cons kv h)
  obtain k v where kv: "kv = (k, v)" by fastforce
  have p: "plain_line k" "plain_line v" "CHR '':'' \<notin> set k"
    using Cons.prems(1) kv by (auto simp: plain_header_def)
  have ph: "plain_header h"
    using Cons.prems(1) by (auto simp: plain_header_def om_wf_def om_keys_def)
  define l where "l = k @ '': '' @ v @ [CR]"
  have e: "headerLines (kv # h) @ s = l @ LF # (headerLines h @ s)"
    by (simp add: headerLines_def kv CRLF_def l_def)
  have nl: "LF \<notin> set l" using p by (auto simp: l_def plain_line_def LF_def CR_def)
  have ne: "l \<noteq> [CR]" using colon_CR by (cases k) (auto simp: l_def)
  have ins: "om_insert k (v @ [CR]) (header m) = header m @ [(k, v @ [CR])]"
    using Cons.prems(2) kv by (intro om_insert_last) (auto simp: om_wf_def om_keys_def sorted_wrt_append)
  have ph1: "parseHeaderLine l m = (True, m\<lparr>header := header m @ [(k, v @ [CR])]\<rparr>)"
    using parseHeaderLine_colon [OF p(3), of "v @ [CR]" m] ins by (simp add: l_def)
  show ?case
    unfolding e getlines_line [OF nl]
    using ne ph1 Cons.IH [OF ph, of "m\<lparr>header := header m @ [(k, v @ [CR])]\<rparr>"] Cons.prems(2) kv by simp
qed

lemma parse_body: "parseLines ls False ml m = (True, m\<lparr>body := body m @ concat (map (\<lambda>l. l @ [LF]) ls)\<rparr>)"
  by (induction ls arbitrary: m) (auto simp: parseBodyLine_def)

section \<open>Properties\<close>

text \<open>C10: What \<open>send\<close> writes is read back by \<open>parseReceive\<close>: the start line and every header field
  are recovered (each with the carriage return \<open>getline\<close> leaves at its end), and the body is
  recovered line by line with a line feed after every line.\<close>

theorem send_parse_roundtrip:
  assumes "plain_line (headerLine m)" and "plain_header (header m)" and "send m = Some (h, b)"
  shows "parseReceive (h @ b) False empty_message =
    (True, \<lparr>headerLine = headerLine m @ [CR],
            header = map (\<lambda>(k, v). (k, v @ [CR])) (header m),
            body = concat (map (\<lambda>l. l @ [LF]) (getlines (cstr (body m))))\<rparr>)"
proof -
  have hb: "h = headerText m" "b = cstr (body m)" using assms(3) by (auto simp: send_def split: if_splits)
  have l1: "LF \<notin> set (headerLine m @ [CR])" using assms(1) by (simp add: plain_line_def)
  have wf: "om_wf (map (\<lambda>(k, v). (k, v @ [CR])) (header m))"
    using assms(2) by (simp add: plain_header_def om_wf_def om_keys_def case_prod_unfold o_def)
  define m1 where "m1 = empty_message\<lparr>headerLine := headerLine m @ [CR]\<rparr>"
  have e: "h @ b = (headerLine m @ [CR]) @ LF # (headerLines (header m) @ [CR] @ LF # b)"
    using headerText_plain [OF assms(1,2)] hb(1) by simp
  have "parseReceive (h @ b) False empty_message =
      parseLines (getlines (headerLines (header m) @ [CR] @ LF # b)) True False m1"
    unfolding parseReceive_def e getlines_line [OF l1] m1_def by simp
  also have "\<dots> = parseLines (getlines ([CR] @ LF # b)) True False
      (m1\<lparr>header := map (\<lambda>(k, v). (k, v @ [CR])) (header m)\<rparr>)"
    using parse_headers [OF assms(2), of m1] wf by (simp add: m1_def empty_message_def)
  also have "\<dots> = parseLines (getlines b) False False
      (m1\<lparr>header := map (\<lambda>(k, v). (k, v @ [CR])) (header m)\<rparr>)"
    using getlines_line [of "[CR]" b] by simp
  finally show ?thesis by (simp add: parse_body m1_def empty_message_def hb(2))
qed

theorem send_parse_roundtrip_witness:
  "parseReceive (''GET / HTTP/1.1'' @ CRLF @ ''Host: h'' @ CRLF @ CRLF) False empty_message =
     (True, \<lparr>headerLine = ''GET / HTTP/1.1'' @ [CR], header = [(''Host'', ''h'' @ [CR])], body = []\<rparr>)"
proof -
  define m where "m = \<lparr>headerLine = ''GET / HTTP/1.1'', header = [(''Host'', ''h'')], body = []\<rparr>"
  have "plain_line (headerLine m)" "plain_header (header m)"
      "send m = Some (''GET / HTTP/1.1'' @ CRLF @ ''Host: h'' @ CRLF @ CRLF, [])"
    unfolding m_def by code_simp+
  from send_parse_roundtrip [OF this] show ?thesis by (simp add: m_def cstr_def)
qed

subsection \<open>When \<open>receive\<close> returns\<close>

fun delivered :: "round list \<Rightarrow> int" where
  "delivered [] = 0"
| "delivered (Chunk c # r) = int (length c) + delivered r"
| "delivered (_ # r) = delivered r"

fun errors :: "round list \<Rightarrow> bool" where
  "errors [] = False"
| "errors (SelectError # r) = True"
| "errors (ReadError # r) = True"
| "errors (_ # r) = errors r"

lemma delivered_nonneg: "0 \<le> delivered rs"
  by (induction rs rule: delivered.induct) auto

lemma readReceive_count:
  "readReceive behind rs buf n = (True, buf', n', rs') \<Longrightarrow> n' + delivered rs' = n + delivered rs"
  by (induction behind rs buf n rule: readReceive.induct) (auto split: if_splits)

lemma readReceive_no_errors:
  "\<not> errors rs \<Longrightarrow> readReceive behind rs buf n = (ok, buf', n', rs') \<Longrightarrow> ok \<and> \<not> errors rs'"
  by (induction behind rs buf n rule: readReceive.induct) (auto split: if_splits)

lemma continueRead_None:
  "continueRead behind msize rs buf n = None \<Longrightarrow> msize \<noteq> -1 \<and> n + delivered rs < msize"
proof (induction behind msize rs buf n rule: continueRead.induct)
  case (1 behind msize rs buf n)
  obtain ok buf' n' rs' where r: "readReceive behind rs buf n = (ok, buf', n', rs')" by (metis prod_cases4)
  from "1.prems" have ok: "ok" and lt: "msize \<noteq> -1" "n' < msize"
    by (auto simp: continueRead.simps [of behind msize rs] r split: if_splits)
  have c: "n' + delivered rs' = n + delivered rs" using readReceive_count [of behind rs buf n buf' n' rs'] r ok by simp
  show ?case
  proof (cases "rs = []")
    case True
    then show ?thesis using lt r by auto
  next
    case False
    then have "continueRead behind msize rs' buf' n' = None"
      using "1.prems" lt ok by (auto simp: continueRead.simps [of behind msize rs] r split: if_splits)
    then show ?thesis using "1.IH" [OF r [symmetric] refl refl] ok lt False c by simp
  qed
qed

lemma continueRead_starved:
  "\<not> errors rs \<Longrightarrow> msize \<noteq> -1 \<Longrightarrow> n + delivered rs < msize \<Longrightarrow> continueRead behind msize rs buf n = None"
proof (induction behind msize rs buf n rule: continueRead.induct)
  case (1 behind msize rs buf n)
  obtain ok buf' n' rs' where r: "readReceive behind rs buf n = (ok, buf', n', rs')" by (metis prod_cases4)
  have ok: "ok" "\<not> errors rs'" using readReceive_no_errors [OF "1.prems"(1) r] by auto
  have c: "n' + delivered rs' = n + delivered rs" using readReceive_count [of behind rs buf n buf' n' rs'] r ok by simp
  have lt: "n' < msize" using c "1.prems"(3) delivered_nonneg [of rs'] by linarith
  have "rs \<noteq> [] \<Longrightarrow> continueRead behind msize rs' buf' n' = None"
    using "1.IH" [OF r [symmetric] refl refl] ok lt "1.prems" c by simp
  then show ?case
    using ok lt "1.prems"(2) by (simp add: continueRead.simps [of behind msize rs] r)
qed

text \<open>A message read so far: the first round, its parse, and the declared length.\<close>

definition announces :: "string \<Rightarrow> round list \<Rightarrow> int \<Rightarrow> int \<Rightarrow> bool" where
  "announces behind rs n len \<longleftrightarrow>
     (\<exists>buf rs1 m cl. readReceive behind rs [] 0 = (True, buf, n, rs1) \<and>
        parseReceive buf False empty_message = (True, m) \<and>
        om_find (header m) ''Expect'' = None \<and>
        om_find (header m) ''Content-Length'' = Some cl \<and> stoi cl = Some len)"


text \<open>The length check compares the declared body length with the bytes of header and body
  together. When the header and a part of the body already make up that many bytes, \<open>receive\<close>
  reports success without reading the rest of the body.\<close>

theorem receive_stops_early:
  assumes "announces behind rs n len" and "len \<le> n"
  shows "\<exists>m rest. receive behind rs = Done True m n rest \<and>
           (\<exists>buf. readReceive behind rs [] 0 = (True, buf, n, rest))"
  using assms by (auto simp: announces_def receive_def Let_def split: option.splits prod.splits)

definition demoPost :: string where
  "demoPost = ''POST /os HTTP/1.1'' @ CRLF @ ''Content-Length: 20'' @ CRLF @ CRLF @ ''{''"

lemma demoPost_announces: "announces [] [Chunk demoPost, Timeout, Chunk ''1234567890123456789''] 42 20"
proof -
  have a: "readReceive [] [Chunk demoPost, Timeout, Chunk ''1234567890123456789''] [] 0 =
      (True, demoPost, 42, [Chunk ''1234567890123456789''])"
    by code_simp
  have b: "fst (parseReceive demoPost False empty_message)"
      "om_find (header (snd (parseReceive demoPost False empty_message))) ''Expect'' = None"
      "om_find (header (snd (parseReceive demoPost False empty_message))) ''Content-Length'' = Some (''20'' @ [CR])"
      "stoi (''20'' @ [CR]) = Some 20"
    by code_simp+
  have p: "parseReceive demoPost False empty_message = (True, snd (parseReceive demoPost False empty_message))"
    using b(1) by (cases "parseReceive demoPost False empty_message") auto
  show ?thesis unfolding announces_def using a p b(2-4) by blast
qed

theorem receive_stops_early_witness:
  "\<exists>m rest. receive [] [Chunk demoPost, Timeout, Chunk ''1234567890123456789''] = Done True m 42 rest \<and>
     (\<exists>buf. readReceive [] [Chunk demoPost, Timeout, Chunk ''1234567890123456789''] [] 0 = (True, buf, 42, rest))"
  by (rule receive_stops_early [OF demoPost_announces]) simp

definition demoShort :: string where
  "demoShort = ''POST /os HTTP/1.1'' @ CRLF @ ''Content-Length: 999'' @ CRLF @ CRLF"

lemma demoShort_announces: "announces [] [Chunk demoShort] 42 999"
proof -
  have a: "readReceive [] [Chunk demoShort] [] 0 = (True, demoShort, 42, [])" by code_simp
  have b: "fst (parseReceive demoShort False empty_message)"
      "om_find (header (snd (parseReceive demoShort False empty_message))) ''Expect'' = None"
      "om_find (header (snd (parseReceive demoShort False empty_message))) ''Content-Length'' = Some (''999'' @ [CR])"
      "stoi (''999'' @ [CR]) = Some 999"
    by code_simp+
  have p: "parseReceive demoShort False empty_message = (True, snd (parseReceive demoShort False empty_message))"
    using b(1) by (cases "parseReceive demoShort False empty_message") auto
  show ?thesis unfolding announces_def using a p b(2-4) by blast
qed


subsection \<open>Routing\<close>

text \<open>A request is handled by the callback of the first route, in registration order, whose path
  is the request's and whose method is the request's or \<open>ALL\<close>; without such a route nothing runs.\<close>

theorem matchRoute_first:
  "matchRoute rts q p s =
     (case find (route_matches q) rts of
        None \<Rightarrow> (False, p, s)
      | Some r \<Rightarrow> (True, fst (rt_callback r q p s), snd (rt_callback r q p s)))"
  by (induction rts) (auto simp: case_prod_unfold Let_def)

subsection \<open>URLs\<close>

lemma foldl_join_slash: "foldl (\<lambda>a t. a @ ''/'' @ t) (''/'' @ t) ts = CHR ''/'' # join (CHR ''/'') (t # ts)"
  using foldl_join [of "CHR ''/''" "''/'' @ t" ts] join_Cons [of ts "CHR ''/''" t] by (cases ts) auto

text \<open>A URL is split into its host and the whole remaining path, slashes included; the only
  input refused is one without a slash after the host.\<close>

theorem splitURL_spec:
  "splitURL url = Some (host, path) \<longleftrightarrow>
     (CHR ''/'' \<notin> set host \<and> (\<exists>rest. path = CHR ''/'' # rest \<and> url = host @ path))"
proof
  assume s: "splitURL url = Some (host, path)"
  obtain h t ts where v: "split url (CHR ''/'') = h # t # ts"
    using s by (cases "split url (CHR ''/'')"; cases "tl (split url (CHR ''/''))") (auto simp: splitURL_def Let_def)
  then have hp: "host = h" "path = CHR ''/'' # join (CHR ''/'') (t # ts)"
    using s foldl_join_slash [of t ts] by (simp_all add: splitURL_def)
  have "url = h @ CHR ''/'' # join (CHR ''/'') (t # ts)"
    using join_split [of "CHR ''/''" url] v by simp
  moreover have "CHR ''/'' \<notin> set h" using split_no_sep [of url "CHR ''/''"] v by simp
  ultimately show "CHR ''/'' \<notin> set host \<and> (\<exists>rest. path = CHR ''/'' # rest \<and> url = host @ path)"
    using hp by simp
next
  assume a: "CHR ''/'' \<notin> set host \<and> (\<exists>rest. path = CHR ''/'' # rest \<and> url = host @ path)"
  then obtain rest where r: "path = CHR ''/'' # rest" "url = host @ CHR ''/'' # rest" by auto
  obtain t ts where t: "split rest (CHR ''/'') = t # ts" by (meson list.exhaust split_not_Nil)
  have "split url (CHR ''/'') = host # t # ts" using a r t by (simp add: split_append)
  moreover have "join (CHR ''/'') (t # ts) = rest" using join_split [of "CHR ''/''" rest] t by simp
  ultimately show "splitURL url = Some (host, path)"
    using foldl_join_slash [of t ts] r(1) by (simp add: splitURL_def)
qed

end
