(* ===== verification/KTypes.thy ===== *)
theory KTypes
  imports Prelude
begin

text \<open>
  \<open>buildroot/support/kconfig/expr.h\<close>: tristate values, dependency expressions, symbols and
  properties. A pointer to a symbol is a reference into the symbol table; the four static
  symbols of \<open>symbol.c\<close> have references of their own. A dependency expression is a tree of the
  six node types the parser builds (\<open>E_LIST\<close> and \<open>E_RANGE\<close> only occur as the value of a property,
  which is the type \<open>pexpr\<close>), and \<open>NULL\<close> is \<open>None\<close>.
\<close>

unbundle bit_operations_syntax

section \<open>Tristates\<close>

datatype tristate = TNo | TMod | TYes

fun tri_nat :: "tristate \<Rightarrow> nat" where
  "tri_nat TNo = 0"
| "tri_nat TMod = 1"
| "tri_nat TYes = 2"

lemma tri_nat_inj [simp]: "tri_nat a = tri_nat b \<longleftrightarrow> a = b"
  by (cases a; cases b) auto

instantiation tristate :: linorder
begin

definition less_eq_tristate :: "tristate \<Rightarrow> tristate \<Rightarrow> bool" where
  "less_eq_tristate a b \<longleftrightarrow> tri_nat a \<le> tri_nat b"

definition less_tristate :: "tristate \<Rightarrow> tristate \<Rightarrow> bool" where
  "less_tristate a b \<longleftrightarrow> tri_nat a < tri_nat b"

instance
  by standard (auto simp: less_eq_tristate_def less_tristate_def)

end

lemmas tri_order = less_eq_tristate_def less_tristate_def

definition EXPR_OR :: "tristate \<Rightarrow> tristate \<Rightarrow> tristate" where
  "EXPR_OR d1 d2 = (if d1 > d2 then d1 else d2)"

definition EXPR_AND :: "tristate \<Rightarrow> tristate \<Rightarrow> tristate" where
  "EXPR_AND d1 d2 = (if d1 < d2 then d1 else d2)"

fun EXPR_NOT :: "tristate \<Rightarrow> tristate" where
  "EXPR_NOT TNo = TYes"
| "EXPR_NOT TMod = TMod"
| "EXPR_NOT TYes = TNo"

lemma EXPR_NOT_minus: "tri_nat (EXPR_NOT d) = 2 - tri_nat d"
  by (cases d) auto

named_theorems tri_simps \<open>the lattice of tristates\<close>

lemma tri_AND_simps [tri_simps, simp]:
  "EXPR_AND TYes a = a" "EXPR_AND a TYes = a" "EXPR_AND TNo a = TNo" "EXPR_AND a TNo = TNo" "EXPR_AND a a = a"
  by (cases a; simp add: EXPR_AND_def tri_order)+

lemma tri_OR_simps [tri_simps, simp]:
  "EXPR_OR TNo a = a" "EXPR_OR a TNo = a" "EXPR_OR TYes a = TYes" "EXPR_OR a TYes = TYes" "EXPR_OR a a = a"
  by (cases a; simp add: EXPR_OR_def tri_order)+

lemma tri_assoc [tri_simps]:
  "EXPR_AND (EXPR_AND a b) c = EXPR_AND a (EXPR_AND b c)"
  "EXPR_OR (EXPR_OR a b) c = EXPR_OR a (EXPR_OR b c)"
  by (cases a; cases b; cases c; simp add: EXPR_AND_def EXPR_OR_def tri_order)+

lemma tri_commute [tri_simps]:
  "EXPR_AND a b = EXPR_AND b a" "EXPR_AND a (EXPR_AND b c) = EXPR_AND b (EXPR_AND a c)"
  "EXPR_OR a b = EXPR_OR b a" "EXPR_OR a (EXPR_OR b c) = EXPR_OR b (EXPR_OR a c)"
  by (cases a; cases b; cases c; simp add: EXPR_AND_def EXPR_OR_def tri_order)+

lemma tri_de_morgan:
  "EXPR_NOT (EXPR_AND a b) = EXPR_OR (EXPR_NOT a) (EXPR_NOT b)"
  "EXPR_NOT (EXPR_OR a b) = EXPR_AND (EXPR_NOT a) (EXPR_NOT b)"
  by (cases a; cases b; simp add: EXPR_AND_def EXPR_OR_def tri_order)+

lemma tri_not_not [simp]: "EXPR_NOT (EXPR_NOT a) = a"
  by (cases a) auto

lemma tri_min_max: "EXPR_AND a b = min a b" "EXPR_OR a b = max a b"
  by (cases a; cases b; simp add: EXPR_AND_def EXPR_OR_def tri_order min_def max_def)+

definition tri_of_bool :: "bool \<Rightarrow> tristate" where
  "tri_of_bool b = (if b then TYes else TNo)"

lemma tri_of_bool_simps [simp]:
  "tri_of_bool True = TYes" "tri_of_bool False = TNo"
  "tri_of_bool b = TYes \<longleftrightarrow> b" "tri_of_bool b = TNo \<longleftrightarrow> \<not> b" "tri_of_bool b \<noteq> TMod"
  "EXPR_NOT (tri_of_bool b) = tri_of_bool (\<not> b)"
  by (simp_all add: tri_of_bool_def)

section \<open>Symbols, expressions, properties\<close>

datatype sref = SymYes | SymMod | SymNo | SymEmpty | Sym nat

datatype expr_type = T_NONE | T_OR | T_AND | T_NOT | T_EQUAL | T_UNEQUAL | T_LIST | T_SYMBOL | T_RANGE

datatype expr =
    E_OR expr expr
  | E_AND expr expr
  | E_NOT expr
  | E_EQUAL sref sref
  | E_UNEQUAL sref sref
  | E_SYMBOL sref

fun etype :: "expr \<Rightarrow> expr_type" where
  "etype (E_OR _ _) = T_OR"
| "etype (E_AND _ _) = T_AND"
| "etype (E_NOT _) = T_NOT"
| "etype (E_EQUAL _ _) = T_EQUAL"
| "etype (E_UNEQUAL _ _) = T_UNEQUAL"
| "etype (E_SYMBOL _) = T_SYMBOL"

datatype pexpr = PExpr expr | PList "sref list" | PRange sref sref

datatype symbol_type = S_UNKNOWN | S_BOOLEAN | S_TRISTATE | S_INT | S_HEX | S_STRING | S_OTHER

datatype prop_type =
    P_UNKNOWN | P_PROMPT | P_COMMENT | P_MENU | P_DEFAULT | P_CHOICE | P_SELECT | P_RANGE | P_ENV | P_SYMBOL

text \<open>The \<open>void *val\<close> of a symbol value: a string, or for a choice the selected symbol.\<close>

datatype symval = VNull | VStr string | VSym sref

record property =
  p_kind :: prop_type
  p_text :: "string option"
  p_vis_expr :: "expr option"
  p_vis_tri :: tristate
  p_expr :: "pexpr option"
  p_menu :: "nat option"

record symbol =
  s_name :: "string option"
  s_type :: symbol_type
  s_val :: symval
  s_tri :: tristate
  s_def :: "(symval \<times> tristate) list"     \<comment> \<open>\<open>def[S_DEF_COUNT]\<close>\<close>
  s_visible :: tristate
  s_flags :: "32 word"
  s_prop :: "property list"
  s_dir_expr :: "expr option"
  s_dir_tri :: tristate
  s_rev_expr :: "expr option"
  s_rev_tri :: tristate

definition SYMBOL_CONST :: "32 word" where "SYMBOL_CONST = 0x0001"
definition SYMBOL_CHECK :: "32 word" where "SYMBOL_CHECK = 0x0008"
definition SYMBOL_CHOICE :: "32 word" where "SYMBOL_CHOICE = 0x0010"
definition SYMBOL_CHOICEVAL :: "32 word" where "SYMBOL_CHOICEVAL = 0x0020"
definition SYMBOL_VALID :: "32 word" where "SYMBOL_VALID = 0x0080"
definition SYMBOL_OPTIONAL :: "32 word" where "SYMBOL_OPTIONAL = 0x0100"
definition SYMBOL_WRITE :: "32 word" where "SYMBOL_WRITE = 0x0200"
definition SYMBOL_CHANGED :: "32 word" where "SYMBOL_CHANGED = 0x0400"
definition SYMBOL_AUTO :: "32 word" where "SYMBOL_AUTO = 0x1000"
definition SYMBOL_CHECKED :: "32 word" where "SYMBOL_CHECKED = 0x2000"
definition SYMBOL_WARNED :: "32 word" where "SYMBOL_WARNED = 0x8000"
definition SYMBOL_DEF :: "32 word" where "SYMBOL_DEF = 0x10000"
definition SYMBOL_DEF_USER :: "32 word" where "SYMBOL_DEF_USER = 0x10000"
definition SYMBOL_DEF_AUTO :: "32 word" where "SYMBOL_DEF_AUTO = 0x20000"
definition SYMBOL_NEED_SET_CHOICE_VALUES :: "32 word" where "SYMBOL_NEED_SET_CHOICE_VALUES = 0x100000"

lemmas flag_defs = SYMBOL_CONST_def SYMBOL_CHECK_def SYMBOL_CHOICE_def SYMBOL_CHOICEVAL_def SYMBOL_VALID_def
  SYMBOL_OPTIONAL_def SYMBOL_WRITE_def SYMBOL_CHANGED_def SYMBOL_AUTO_def SYMBOL_CHECKED_def SYMBOL_WARNED_def
  SYMBOL_DEF_def SYMBOL_DEF_USER_def SYMBOL_DEF_AUTO_def SYMBOL_NEED_SET_CHOICE_VALUES_def

definition has_flag :: "32 word \<Rightarrow> symbol \<Rightarrow> bool" where
  "has_flag f s \<longleftrightarrow> s_flags s AND f \<noteq> 0"

definition set_flag :: "32 word \<Rightarrow> symbol \<Rightarrow> symbol" where
  "set_flag f s = s\<lparr>s_flags := s_flags s OR f\<rparr>"

definition clear_flag :: "32 word \<Rightarrow> symbol \<Rightarrow> symbol" where
  "clear_flag f s = s\<lparr>s_flags := s_flags s AND NOT f\<rparr>"

definition static_symbol :: "string \<Rightarrow> tristate \<Rightarrow> 32 word \<Rightarrow> symbol" where
  "static_symbol n t f =
     \<lparr>s_name = Some n, s_type = S_UNKNOWN, s_val = VStr n, s_tri = t, s_def = replicate 4 (VNull, TNo),
      s_visible = TNo, s_flags = f, s_prop = [], s_dir_expr = None, s_dir_tri = TNo,
      s_rev_expr = None, s_rev_tri = TNo\<rparr>"

definition symbol_yes :: symbol where
  "symbol_yes = static_symbol ''y'' TYes (SYMBOL_CONST OR SYMBOL_VALID)"
definition symbol_mod :: symbol where
  "symbol_mod = static_symbol ''m'' TMod (SYMBOL_CONST OR SYMBOL_VALID)"
definition symbol_no :: symbol where
  "symbol_no = static_symbol ''n'' TNo (SYMBOL_CONST OR SYMBOL_VALID)"
definition symbol_empty :: symbol where
  "symbol_empty = static_symbol [] TNo SYMBOL_VALID"

type_synonym symtab = "sref \<Rightarrow> symbol"

text \<open>The size that bounds the recursions over expressions, and the nesting depth.\<close>

fun esize :: "expr \<Rightarrow> nat" where
  "esize (E_OR l r) = esize l + esize r + 1"
| "esize (E_AND l r) = esize l + esize r + 1"
| "esize (E_NOT e) = esize e + 1"
| "esize _ = 1"

lemma esize_pos [simp]: "0 < esize e"
  by (cases e) auto

lemma esize_ge1 [simp]: "Suc 0 \<le> esize e"
  by (cases e) auto

end
