(* ===== verification/KExpr.thy ===== *)
theory KExpr
  imports KTypes
begin

text \<open>
  \<open>buildroot/support/kconfig/expr.c\<close>, the rewriting half: copying, equality of expressions up to
  reordering (\<open>expr_eq\<close> and the elimination of common operands it is built on), removal of
  constants, normalisation, the joining of two operands, extraction of common operands and the
  rewriting of comparisons. Functions that update an expression through a pointer return the
  new expression. \<open>T\<close> is the symbol table the code reads types and flags from.

  The global \<open>trans_count\<close> is saved and restored by \<open>expr_eq\<close>, so it is visible only to
  \<open>expr_eliminate_dups\<close> (theory \<open>KDups\<close>).
\<close>

section \<open>Allocation and copying\<close>

fun expr_alloc_and :: "expr option \<Rightarrow> expr option \<Rightarrow> expr option" where
  "expr_alloc_and None e2 = e2"
| "expr_alloc_and (Some a) None = Some a"
| "expr_alloc_and (Some a) (Some b) = Some (E_AND a b)"

fun expr_alloc_or :: "expr option \<Rightarrow> expr option \<Rightarrow> expr option" where
  "expr_alloc_or None e2 = e2"
| "expr_alloc_or (Some a) None = Some a"
| "expr_alloc_or (Some a) (Some b) = Some (E_OR a b)"

fun expr_copy :: "expr \<Rightarrow> expr" where
  "expr_copy (E_SYMBOL s) = E_SYMBOL s"
| "expr_copy (E_NOT e) = E_NOT (expr_copy e)"
| "expr_copy (E_EQUAL a b) = E_EQUAL a b"
| "expr_copy (E_UNEQUAL a b) = E_UNEQUAL a b"
| "expr_copy (E_AND l r) = E_AND (expr_copy l) (expr_copy r)"
| "expr_copy (E_OR l r) = E_OR (expr_copy l) (expr_copy r)"

lemma expr_copy_id [simp]: "expr_copy e = e"
  by (induction e) auto

fun expr_is_yes :: "expr option \<Rightarrow> bool" where
  "expr_is_yes None = True"
| "expr_is_yes (Some e) = (e = E_SYMBOL SymYes)"

fun expr_is_no :: "expr option \<Rightarrow> bool" where
  "expr_is_no None = False"
| "expr_is_no (Some e) = (e = E_SYMBOL SymNo)"

section \<open>Nodes of one operator\<close>

text \<open>\<open>e->type == type\<close> for \<open>type\<close> one of \<open>E_OR\<close>, \<open>E_AND\<close>, with the two operands.\<close>

fun parts :: "expr_type \<Rightarrow> expr \<Rightarrow> (expr \<times> expr) option" where
  "parts T_OR (E_OR l r) = Some (l, r)"
| "parts T_AND (E_AND l r) = Some (l, r)"
| "parts _ _ = None"

definition node :: "expr_type \<Rightarrow> expr \<Rightarrow> expr \<Rightarrow> expr" where
  "node t l r = (if t = T_OR then E_OR l r else E_AND l r)"

definition unit_expr :: "expr_type \<Rightarrow> expr" where
  "unit_expr t = (if t = T_OR then E_SYMBOL SymNo else E_SYMBOL SymYes)"

lemma parts_Some: "parts t e = Some (l, r) \<Longrightarrow> e = node t l r \<and> (t = T_OR \<or> t = T_AND)"
  by (cases "(t, e)" rule: parts.cases) (auto simp: node_def)

lemma parts_node: "t = T_OR \<or> t = T_AND \<Longrightarrow> parts t (node t l r) = Some (l, r)"
  by (auto simp: node_def)

lemma parts_size: "parts t e = Some (l, r) \<Longrightarrow> esize e = esize l + esize r + 1"
  by (cases "(t, e)" rule: parts.cases) auto

lemma parts_unit [simp]: "parts t (unit_expr t') = None"
  by (cases t) (auto simp: unit_expr_def)

lemma parts_symbol [simp]: "parts t (E_SYMBOL s) = None"
  by (cases t) auto

lemma esize_node [simp]: "esize (node t l r) = esize l + esize r + 1"
  by (simp add: node_def)

lemma esize_unit [simp]: "esize (unit_expr t) = 1"
  by (simp add: unit_expr_def)

section \<open>Removing common operands\<close>

definition same_yn :: "expr \<Rightarrow> expr \<Rightarrow> bool" where
  "same_yn e1 e2 \<longleftrightarrow> e1 = e2 \<and> (e1 = E_SYMBOL SymYes \<or> e1 = E_SYMBOL SymNo)"

text \<open>
  \<open>__expr_eliminate_eq\<close>, with the comparison of two operands as a parameter \<open>eq\<close>: it is
  \<open>expr_eq\<close>, which calls this function on operands again.
\<close>

function eliminate_eq_rec :: "(expr \<Rightarrow> expr \<Rightarrow> bool) \<Rightarrow> expr_type \<Rightarrow> expr \<Rightarrow> expr \<Rightarrow> expr \<times> expr" where
  "eliminate_eq_rec eq t e1 e2 =
     (case parts t e1 of
        Some (l, r) \<Rightarrow>
          (case eliminate_eq_rec eq t l e2 of (l', x) \<Rightarrow>
           case eliminate_eq_rec eq t r x of (r', y) \<Rightarrow> (node t l' r', y))
      | None \<Rightarrow>
          (case parts t e2 of
             Some (l, r) \<Rightarrow>
               (case eliminate_eq_rec eq t e1 l of (x, l') \<Rightarrow>
                case eliminate_eq_rec eq t x r of (y, r') \<Rightarrow> (y, node t l' r'))
           | None \<Rightarrow>
               if same_yn e1 e2 then (e1, e2)
               else if \<not> eq e1 e2 then (e1, e2)
               else (unit_expr t, unit_expr t)))"
  by pat_completeness auto

lemma eliminate_eq_rec_size_dom:
  "eliminate_eq_rec_dom (eq, t, e1, e2) \<Longrightarrow>
     esize (fst (eliminate_eq_rec eq t e1 e2)) \<le> esize e1 \<and> esize (snd (eliminate_eq_rec eq t e1 e2)) \<le> esize e2"
proof (induction eq t e1 e2 rule: eliminate_eq_rec.pinduct)
  case (1 eq t e1 e2)
  show ?case
  proof (cases "parts t e1")
    case (Some lr)
    obtain l r where lr: "parts t e1 = Some (l, r)" using Some by (cases lr) auto
    obtain l' x where a: "eliminate_eq_rec eq t l e2 = (l', x)" by fastforce
    obtain r' y where b: "eliminate_eq_rec eq t r x = (r', y)" by fastforce
    have "esize l' \<le> esize l \<and> esize x \<le> esize e2" using "1.IH"(3) [OF lr refl] a by simp
    moreover have "esize r' \<le> esize r \<and> esize y \<le> esize x" using "1.IH"(4) [OF lr refl a [symmetric]] b by simp
    ultimately show ?thesis
      using parts_size [OF lr] by (simp add: eliminate_eq_rec.psimps [OF "1.hyps"] lr a b)
  next
    case None
    show ?thesis
    proof (cases "parts t e2")
      case (Some lr)
      obtain l r where lr: "parts t e2 = Some (l, r)" using Some by (cases lr) auto
      obtain x l' where a: "eliminate_eq_rec eq t e1 l = (x, l')" by fastforce
      obtain y r' where b: "eliminate_eq_rec eq t x r = (y, r')" by fastforce
      have "esize l' \<le> esize l \<and> esize x \<le> esize e1" using "1.IH"(1) [OF None lr refl] a by simp
      moreover have "esize r' \<le> esize r \<and> esize y \<le> esize x" using "1.IH"(2) [OF None lr refl a [symmetric]] b by simp
      ultimately show ?thesis
        using parts_size [OF lr] by (simp add: eliminate_eq_rec.psimps [OF "1.hyps"] None lr a b)
    next
      case None2: None
      show ?thesis by (simp add: eliminate_eq_rec.psimps [OF "1.hyps"] None None2)
    qed
  qed
qed

lemma eliminate_eq_rec_total: "All eliminate_eq_rec_dom"
proof (rule "eliminate_eq_rec.termination" [where R = "measure (\<lambda>(eq, t, e1, e2). esize e1 + esize e2)"], goal_cases)
  case (3 eq t e1 e2 x2 l r x l')
  then show ?case using eliminate_eq_rec_size_dom [of eq t e1 l] parts_size [of t e2 l r]
    by (auto dest: sym)
next
  case (5 eq t e1 e2 x2 l r l' x)
  then show ?case using eliminate_eq_rec_size_dom [of eq t l e2] parts_size [of t e1 l r]
    by (auto dest: sym)
qed (auto dest!: parts_size)

termination eliminate_eq_rec
  by (rule eliminate_eq_rec_total)

declare eliminate_eq_rec.simps [simp del]

lemma eliminate_eq_rec_size:
  "eliminate_eq_rec eq t e1 e2 = (x, y) \<Longrightarrow> esize x \<le> esize e1 \<and> esize y \<le> esize e2"
  using eliminate_eq_rec_size_dom [of eq t e1 e2] eliminate_eq_rec_total by simp

text \<open>Unfolding it branch by branch.\<close>

lemma elim_left:
  "parts t e1 = Some (l, r) \<Longrightarrow> eliminate_eq_rec eq t l e2 = (l', x) \<Longrightarrow> eliminate_eq_rec eq t r x = (r', y) \<Longrightarrow>
     eliminate_eq_rec eq t e1 e2 = (node t l' r', y)"
  by (subst eliminate_eq_rec.simps) simp

lemma elim_right:
  "parts t e1 = None \<Longrightarrow> parts t e2 = Some (l, r) \<Longrightarrow> eliminate_eq_rec eq t e1 l = (x, l') \<Longrightarrow>
     eliminate_eq_rec eq t x r = (y, r') \<Longrightarrow> eliminate_eq_rec eq t e1 e2 = (y, node t l' r')"
  by (subst eliminate_eq_rec.simps) simp

lemma elim_leaf:
  "parts t e1 = None \<Longrightarrow> parts t e2 = None \<Longrightarrow>
     eliminate_eq_rec eq t e1 e2 =
       (if same_yn e1 e2 \<or> \<not> eq e1 e2 then (e1, e2) else (unit_expr t, unit_expr t))"
  by (subst eliminate_eq_rec.simps) simp

text \<open>The induction every fact about it uses: operands of the left side, of the right side, a pair of leaves.\<close>

lemma elim_induct [consumes 1, case_names left right leaf]:
  assumes "eliminate_eq_rec eq t e1 e2 = (a, b)"
    and left: "\<And>e1 e2 l r l' x r' y. parts t e1 = Some (l, r) \<Longrightarrow>
        eliminate_eq_rec eq t l e2 = (l', x) \<Longrightarrow> eliminate_eq_rec eq t r x = (r', y) \<Longrightarrow>
        P l e2 l' x \<Longrightarrow> P r x r' y \<Longrightarrow> P e1 e2 (node t l' r') y"
    and right: "\<And>e1 e2 l r x l' y r'. parts t e1 = None \<Longrightarrow> parts t e2 = Some (l, r) \<Longrightarrow>
        eliminate_eq_rec eq t e1 l = (x, l') \<Longrightarrow> eliminate_eq_rec eq t x r = (y, r') \<Longrightarrow>
        P e1 l x l' \<Longrightarrow> P x r y r' \<Longrightarrow> P e1 e2 y (node t l' r')"
    and leaf: "\<And>e1 e2. parts t e1 = None \<Longrightarrow> parts t e2 = None \<Longrightarrow>
        P e1 e2 e1 e2 \<and> (\<not> same_yn e1 e2 \<longrightarrow> eq e1 e2 \<longrightarrow> P e1 e2 (unit_expr t) (unit_expr t))"
  shows "P e1 e2 a b"
  using assms(1)
proof (induction "esize e1 + esize e2" arbitrary: e1 e2 a b rule: less_induct)
  case less
  note IH = less.hyps
  show ?case
  proof (cases "parts t e1")
    case (Some lr)
    obtain l r where lr: "parts t e1 = Some (l, r)" using Some by (cases lr) auto
    obtain l' x where a: "eliminate_eq_rec eq t l e2 = (l', x)" by fastforce
    obtain r' y where b: "eliminate_eq_rec eq t r x = (r', y)" by fastforce
    have "esize x \<le> esize e2" using eliminate_eq_rec_size [OF a] by simp
    then have "P l e2 l' x" "P r x r' y" using IH [OF _ a] IH [OF _ b] parts_size [OF lr] by auto
    then show ?thesis using left [OF lr a b] elim_left [OF lr a b] less.prems by simp
  next
    case None
    show ?thesis
    proof (cases "parts t e2")
      case (Some lr)
      obtain l r where lr: "parts t e2 = Some (l, r)" using Some by (cases lr) auto
      obtain x l' where a: "eliminate_eq_rec eq t e1 l = (x, l')" by fastforce
      obtain y r' where b: "eliminate_eq_rec eq t x r = (y, r')" by fastforce
      have "esize x \<le> esize e1" using eliminate_eq_rec_size [OF a] by simp
      then have "P e1 l x l'" "P x r y r'" using IH [OF _ a] IH [OF _ b] parts_size [OF lr] by auto
      then show ?thesis using right [OF None lr a b] elim_right [OF None lr a b] less.prems by simp
    next
      case None2: None
      show ?thesis using leaf [OF None None2] elim_leaf [OF None None2, of eq] less.prems
        by (auto split: if_splits)
    qed
  qed
qed

text \<open>The roots of the chosen operator stay.\<close>

lemma elim_roots:
  "eliminate_eq_rec eq t e1 e2 = (a, b) \<Longrightarrow>
     (parts t e1 \<noteq> None \<longrightarrow> parts t a \<noteq> None) \<and> (parts t e2 \<noteq> None \<longrightarrow> parts t b \<noteq> None)"
  by (induction rule: elim_induct) (auto dest!: parts_Some simp: parts_node)


section \<open>Removing constants\<close>

fun and_yn :: "expr \<Rightarrow> expr \<Rightarrow> expr" where
  "and_yn l r =
     (if l = E_SYMBOL SymNo then E_SYMBOL SymNo
      else if l = E_SYMBOL SymYes then r
      else if r = E_SYMBOL SymNo then E_SYMBOL SymNo
      else if r = E_SYMBOL SymYes then l
      else E_AND l r)"

fun or_yn :: "expr \<Rightarrow> expr \<Rightarrow> expr" where
  "or_yn l r =
     (if l = E_SYMBOL SymNo then r
      else if l = E_SYMBOL SymYes then E_SYMBOL SymYes
      else if r = E_SYMBOL SymNo then l
      else if r = E_SYMBOL SymYes then E_SYMBOL SymYes
      else E_OR l r)"

fun expr_eliminate_yn :: "expr \<Rightarrow> expr" where
  "expr_eliminate_yn (E_AND l r) = and_yn (expr_eliminate_yn l) (expr_eliminate_yn r)"
| "expr_eliminate_yn (E_OR l r) = or_yn (expr_eliminate_yn l) (expr_eliminate_yn r)"
| "expr_eliminate_yn e = e"

declare and_yn.simps [simp del] or_yn.simps [simp del]

section \<open>Equality of expressions\<close>

definition and_or :: "expr \<Rightarrow> bool" where
  "and_or e \<longleftrightarrow> etype e = T_OR \<or> etype e = T_AND"

text \<open>\<open>expr_eliminate_eq\<close>, for the comparison \<open>eq\<close>: first by the operator of the left expression, then,
  when the operators differ, by that of the right one.\<close>

definition eliminate_eq :: "(expr \<Rightarrow> expr \<Rightarrow> bool) \<Rightarrow> expr \<Rightarrow> expr \<Rightarrow> expr \<times> expr" where
  "eliminate_eq eq e1 e2 =
     (case (if and_or e1 then eliminate_eq_rec eq (etype e1) e1 e2 else (e1, e2)) of (a, b) \<Rightarrow>
      case (if etype a \<noteq> etype b \<and> and_or b then eliminate_eq_rec eq (etype b) a b else (a, b)) of (c, d) \<Rightarrow>
        (expr_eliminate_yn c, expr_eliminate_yn d))"

definition same_symbol :: "expr \<Rightarrow> expr \<Rightarrow> bool" where
  "same_symbol e1 e2 \<longleftrightarrow> e1 = e2 \<and> etype e1 = T_SYMBOL"

text \<open>
  \<open>expr_eq\<close> with a bound on the nesting of its calls. The bound \<open>esize e1 + esize e2\<close> used below
  is never reached: \<open>expr_eq_unfold\<close> shows that \<open>expr_eq\<close> satisfies the code's own recursion.
\<close>

fun expr_eq_n :: "nat \<Rightarrow> expr \<Rightarrow> expr \<Rightarrow> bool" where
  "expr_eq_n 0 e1 e2 = False"
| "expr_eq_n (Suc n) (E_NOT a) (E_NOT b) = expr_eq_n n a b"
| "expr_eq_n (Suc n) (E_AND a b) (E_AND c d) =
     (case eliminate_eq (expr_eq_n n) (E_AND a b) (E_AND c d) of (x, y) \<Rightarrow> same_symbol x y)"
| "expr_eq_n (Suc n) (E_OR a b) (E_OR c d) =
     (case eliminate_eq (expr_eq_n n) (E_OR a b) (E_OR c d) of (x, y) \<Rightarrow> same_symbol x y)"
| "expr_eq_n (Suc n) e1 e2 = (e1 = e2)"

definition expr_eq :: "expr \<Rightarrow> expr \<Rightarrow> bool" where
  "expr_eq e1 e2 = expr_eq_n (esize e1 + esize e2) e1 e2"

definition expr_eliminate_eq :: "expr option \<Rightarrow> expr option \<Rightarrow> expr option \<times> expr option" where
  "expr_eliminate_eq ep1 ep2 =
     (case (ep1, ep2) of
        (Some e1, Some e2) \<Rightarrow> (case eliminate_eq expr_eq e1 e2 of (a, b) \<Rightarrow> (Some a, Some b))
      | _ \<Rightarrow> (ep1, ep2))"

text \<open>The result of an elimination depends on the comparison only below the sizes of its arguments.\<close>

lemma eliminate_eq_rec_cong:
  "eliminate_eq_rec eq t e1 e2 = (a, b) \<Longrightarrow>
     \<forall>x y. esize x \<le> esize e1 \<longrightarrow> esize y \<le> esize e2 \<longrightarrow> eq x y = eq' x y \<Longrightarrow>
     eliminate_eq_rec eq' t e1 e2 = (a, b)"
proof (induction "esize e1 + esize e2" arbitrary: e1 e2 a b rule: less_induct)
  case less
  note IH = less.hyps and agree = less.prems(2)
  show ?case
  proof (cases "parts t e1")
    case (Some lr)
    obtain l r where lr: "parts t e1 = Some (l, r)" using Some by (cases lr) auto
    obtain l' x where a: "eliminate_eq_rec eq t l e2 = (l', x)" by fastforce
    obtain r' y where b: "eliminate_eq_rec eq t r x = (r', y)" by fastforce
    have le: "esize x \<le> esize e2" using eliminate_eq_rec_size [OF a] by simp
    have "eliminate_eq_rec eq' t l e2 = (l', x)"
      by (rule IH [OF _ a]) (use agree parts_size [OF lr] in auto)
    moreover have "eliminate_eq_rec eq' t r x = (r', y)"
      by (rule IH [OF _ b]) (use agree parts_size [OF lr] le in auto)
    ultimately show ?thesis using elim_left [OF lr] elim_left [OF lr a b] less.prems(1) by simp
  next
    case None
    show ?thesis
    proof (cases "parts t e2")
      case (Some lr)
      obtain l r where lr: "parts t e2 = Some (l, r)" using Some by (cases lr) auto
      obtain x l' where a: "eliminate_eq_rec eq t e1 l = (x, l')" by fastforce
      obtain y r' where b: "eliminate_eq_rec eq t x r = (y, r')" by fastforce
      have le: "esize x \<le> esize e1" using eliminate_eq_rec_size [OF a] by simp
      have "eliminate_eq_rec eq' t e1 l = (x, l')"
        by (rule IH [OF _ a]) (use agree parts_size [OF lr] in auto)
      moreover have "eliminate_eq_rec eq' t x r = (y, r')"
        by (rule IH [OF _ b]) (use agree parts_size [OF lr] le in auto)
      ultimately show ?thesis using elim_right [OF None lr] elim_right [OF None lr a b] less.prems(1) by simp
    next
      case None2: None
      show ?thesis using elim_leaf [OF None None2] less.prems(1) agree by simp
    qed
  qed
qed

lemma parts_etype: "etype e = t \<Longrightarrow> t = T_OR \<or> t = T_AND \<Longrightarrow> \<exists>l r. parts t e = Some (l, r)"
  by (cases e) auto

lemma parts_not_None_etype: "parts t e \<noteq> None \<Longrightarrow> etype e = t"
  by (cases "(t, e)" rule: parts.cases) auto

text \<open>On two expressions of one operator the leaves that are compared are smaller than the pair.\<close>

lemma eliminate_eq_same:
  assumes t: "etype e1 = t" "etype e2 = t" "t = T_OR \<or> t = T_AND"
    and agree: "\<And>x y. esize x + esize y < esize e1 + esize e2 \<Longrightarrow> eq x y = eq' x y"
  shows "eliminate_eq eq e1 e2 = eliminate_eq eq' e1 e2"
proof -
  obtain l r where lr: "parts t e1 = Some (l, r)" using parts_etype t by metis
  obtain l' x where a: "eliminate_eq_rec eq t l e2 = (l', x)" by fastforce
  obtain r' y where b: "eliminate_eq_rec eq t r x = (r', y)" by fastforce
  have le: "esize x \<le> esize e2" using eliminate_eq_rec_size [OF a] by simp
  note sz = parts_size [OF lr]
  have "eliminate_eq_rec eq' t l e2 = (l', x)"
    by (rule eliminate_eq_rec_cong [OF a]) (use agree sz in auto)
  moreover have "eliminate_eq_rec eq' t r x = (r', y)"
    by (rule eliminate_eq_rec_cong [OF b]) (use agree sz le in auto)
  ultimately have e: "eliminate_eq_rec eq t e1 e2 = eliminate_eq_rec eq' t e1 e2"
    using elim_left [OF lr] a b by metis
  obtain c d where cd: "eliminate_eq_rec eq' t e1 e2 = (c, d)" by fastforce
  have "parts t e1 \<noteq> None" "parts t e2 \<noteq> None" using parts_etype [OF t(1,3)] parts_etype [OF t(2,3)] by auto
  then have "etype c = t" "etype d = t" using elim_roots [OF cd] parts_not_None_etype by auto
  then show ?thesis using e cd t by (simp add: eliminate_eq_def and_or_def)
qed

lemma expr_eq_n_enough:
  "esize e1 + esize e2 \<le> n \<Longrightarrow> esize e1 + esize e2 \<le> m \<Longrightarrow> expr_eq_n n e1 e2 = expr_eq_n m e1 e2"
proof (induction n arbitrary: m e1 e2)
  case 0
  then show ?case using esize_pos [of e1] by simp
next
  case (Suc n)
  obtain k where m: "m = Suc k" using Suc.prems(2) esize_pos [of e1] by (cases m) auto
  have IH: "esize x + esize y < esize e1 + esize e2 \<Longrightarrow> expr_eq_n n x y = expr_eq_n k x y" for x y
    using Suc m by auto
  show ?case
    using IH eliminate_eq_same [of e1 "etype e1" e2 "expr_eq_n n" "expr_eq_n k"]
    by (cases "(Suc n, e1, e2)" rule: expr_eq_n.cases) (auto simp: m and_or_def)
qed


section \<open>Normalisation\<close>

text \<open>
  \<open>expr_transform\<close>. The operands are transformed first (the first \<open>switch\<close>), then the node. The
  recursive calls on the rewritten node are on terms that are smaller in \<open>weight\<close>, which counts a
  negation double.
\<close>

definition transform_EQUAL :: "symtab \<Rightarrow> sref \<Rightarrow> sref \<Rightarrow> expr" where
  "transform_EQUAL T a b =
     (if s_type (T a) \<noteq> S_BOOLEAN then E_EQUAL a b
      else if b = SymNo then E_NOT (E_SYMBOL a)
      else if b = SymMod then E_SYMBOL SymNo
      else if b = SymYes then E_SYMBOL a
      else E_EQUAL a b)"

definition transform_UNEQUAL :: "symtab \<Rightarrow> sref \<Rightarrow> sref \<Rightarrow> expr" where
  "transform_UNEQUAL T a b =
     (if s_type (T a) \<noteq> S_BOOLEAN then E_UNEQUAL a b
      else if b = SymNo then E_SYMBOL a
      else if b = SymMod then E_SYMBOL SymYes
      else if b = SymYes then E_NOT (E_SYMBOL a)
      else E_UNEQUAL a b)"

fun transform_NOT_SYMBOL :: "sref \<Rightarrow> expr" where
  "transform_NOT_SYMBOL SymYes = E_SYMBOL SymNo"
| "transform_NOT_SYMBOL SymMod = E_SYMBOL SymMod"
| "transform_NOT_SYMBOL SymNo = E_SYMBOL SymYes"
| "transform_NOT_SYMBOL s = E_NOT (E_SYMBOL s)"

fun weight :: "expr \<Rightarrow> nat" where
  "weight (E_OR l r) = weight l + weight r + 1"
| "weight (E_AND l r) = weight l + weight r + 1"
| "weight (E_NOT e) = 2 * weight e"
| "weight (E_EQUAL _ _) = 2"
| "weight (E_UNEQUAL _ _) = 2"
| "weight (E_SYMBOL _) = 1"

function expr_transform :: "symtab \<Rightarrow> expr \<Rightarrow> expr" where
  "expr_transform T (E_SYMBOL s) = E_SYMBOL s"
| "expr_transform T (E_EQUAL a b) = transform_EQUAL T a b"
| "expr_transform T (E_UNEQUAL a b) = transform_UNEQUAL T a b"
| "expr_transform T (E_AND l r) = E_AND (expr_transform T l) (expr_transform T r)"
| "expr_transform T (E_OR l r) = E_OR (expr_transform T l) (expr_transform T r)"
| "expr_transform T (E_NOT e) =
     (case expr_transform T e of
        E_NOT x \<Rightarrow> expr_transform T x
      | E_EQUAL a b \<Rightarrow> E_UNEQUAL a b
      | E_UNEQUAL a b \<Rightarrow> E_EQUAL a b
      | E_OR a b \<Rightarrow> expr_transform T (E_AND (E_NOT a) (E_NOT b))
      | E_AND a b \<Rightarrow> expr_transform T (E_OR (E_NOT a) (E_NOT b))
      | E_SYMBOL s \<Rightarrow> transform_NOT_SYMBOL s)"
  by pat_completeness auto

lemma weight_pos [simp]: "0 < weight e"
  by (induction e) auto

lemma weight_compare [simp]: "weight (transform_EQUAL T a b) \<le> 2" "weight (transform_UNEQUAL T a b) \<le> 2"
  by (simp_all add: transform_EQUAL_def transform_UNEQUAL_def)

lemma weight_not_symbol [simp]: "weight (transform_NOT_SYMBOL s) \<le> 2"
  by (cases s) auto

lemma expr_transform_weight_dom: "expr_transform_dom (T, e) \<Longrightarrow> weight (expr_transform T e) \<le> weight e"
proof (induction T e rule: expr_transform.pinduct)
  case (6 T e)
  note psimp = expr_transform.psimps(6) [OF "6.hyps"]
  have pos: "0 < weight e" by simp
  show ?case
  proof (cases "expr_transform T e")
    case (E_OR a b)
    then show ?thesis using "6.IH"(1) "6.IH"(2) [OF E_OR] by (simp add: psimp)
  next
    case (E_AND a b)
    then show ?thesis using "6.IH"(1) "6.IH"(3) [OF E_AND] by (simp add: psimp)
  next
    case (E_NOT x)
    then show ?thesis using "6.IH"(1) "6.IH"(4) [OF E_NOT] by (simp add: psimp)
  next
    case (E_SYMBOL s)
    have "weight (transform_NOT_SYMBOL s) \<le> 2 * weight e" using weight_not_symbol [of s] pos by linarith
    then show ?thesis using E_SYMBOL by (simp add: psimp)
  qed (use "6.IH"(1) pos in \<open>simp_all add: psimp\<close>)
qed (simp_all add: expr_transform.psimps add_mono)

termination expr_transform
proof (relation "measure (\<lambda>(T, e). weight e)", goal_cases)
  case (7 T e a b)
  then show ?case using expr_transform_weight_dom [of T e] by simp
next
  case (8 T e a b)
  then show ?case using expr_transform_weight_dom [of T e] by simp
next
  case (9 T e x)
  then have "2 * weight x \<le> weight e" using expr_transform_weight_dom [of T e] by simp
  then have "weight x < 2 * weight e" using weight_pos [of x] by linarith
  then show ?case by simp
qed simp_all

text \<open>\<open>expr_trans_bool\<close>. (The comment above it says \<open>bool FOO!=n => FOO\<close>; the code tests \<open>S_TRISTATE\<close>.)\<close>

fun expr_trans_bool :: "symtab \<Rightarrow> expr \<Rightarrow> expr" where
  "expr_trans_bool T (E_AND l r) = E_AND (expr_trans_bool T l) (expr_trans_bool T r)"
| "expr_trans_bool T (E_OR l r) = E_OR (expr_trans_bool T l) (expr_trans_bool T r)"
| "expr_trans_bool T (E_NOT e) = E_NOT (expr_trans_bool T e)"
| "expr_trans_bool T (E_UNEQUAL a b) =
     (if s_type (T a) = S_TRISTATE \<and> b = SymNo then E_SYMBOL a else E_UNEQUAL a b)"
| "expr_trans_bool T e = e"


section \<open>Joining two operands\<close>

text \<open>The symbol an operand is about: for the left operand, also below a negation of a comparison.\<close>

fun join_sym1 :: "expr \<Rightarrow> sref option" where
  "join_sym1 (E_EQUAL a _) = Some a"
| "join_sym1 (E_UNEQUAL a _) = Some a"
| "join_sym1 (E_SYMBOL a) = Some a"
| "join_sym1 (E_NOT (E_EQUAL a _)) = Some a"
| "join_sym1 (E_NOT (E_UNEQUAL a _)) = Some a"
| "join_sym1 (E_NOT (E_SYMBOL a)) = Some a"
| "join_sym1 _ = None"

fun join_sym2 :: "expr \<Rightarrow> sref option" where
  "join_sym2 (E_EQUAL a _) = Some a"
| "join_sym2 (E_UNEQUAL a _) = Some a"
| "join_sym2 (E_SYMBOL a) = Some a"
| "join_sym2 (E_NOT (E_SYMBOL a)) = Some a"
| "join_sym2 _ = None"

definition joinable :: "symtab \<Rightarrow> expr \<Rightarrow> expr \<Rightarrow> sref option" where
  "joinable T e1 e2 =
     (case (join_sym1 e1, join_sym2 e2) of
        (Some s1, Some s2) \<Rightarrow>
          if s1 \<noteq> s2 then None
          else if s_type (T s1) \<noteq> S_BOOLEAN \<and> s_type (T s1) \<noteq> S_TRISTATE then None
          else Some s1
      | _ \<Rightarrow> None)"

definition both :: "sref \<Rightarrow> sref \<Rightarrow> sref \<Rightarrow> sref \<Rightarrow> bool" where
  "both x y a b \<longleftrightarrow> (x = a \<and> y = b) \<or> (x = b \<and> y = a)"

fun not_of_symbol :: "expr \<Rightarrow> bool" where
  "not_of_symbol (E_NOT (E_SYMBOL _)) = True"
| "not_of_symbol _ = False"

definition join_or_eqs :: "symtab \<Rightarrow> sref \<Rightarrow> sref \<Rightarrow> sref \<Rightarrow> expr option" where
  "join_or_eqs T s x y =
     (if s_type (T s) \<noteq> S_TRISTATE then None
      else if both x y SymYes SymMod then Some (E_UNEQUAL s SymNo)
      else if both x y SymYes SymNo then Some (E_UNEQUAL s SymMod)
      else if both x y SymMod SymNo then Some (E_UNEQUAL s SymYes)
      else None)"

definition join_or_rule :: "symtab \<Rightarrow> sref \<Rightarrow> expr \<Rightarrow> expr \<Rightarrow> expr option" where
  "join_or_rule T s e1 e2 =
     (case (e1, e2) of
        (E_EQUAL _ x, E_EQUAL _ y) \<Rightarrow> join_or_eqs T s x y
      | _ \<Rightarrow>
          if s_type (T s) = S_BOOLEAN \<and>
             (not_of_symbol e1 \<and> etype e2 = T_SYMBOL \<or> not_of_symbol e2 \<and> etype e1 = T_SYMBOL)
          then Some (E_SYMBOL SymYes) else None)"

definition expr_join_or :: "symtab \<Rightarrow> expr \<Rightarrow> expr \<Rightarrow> expr option" where
  "expr_join_or T e1 e2 =
     (if expr_eq e1 e2 then Some (expr_copy e1)
      else case joinable T e1 e2 of None \<Rightarrow> None | Some s \<Rightarrow> join_or_rule T s e1 e2)"

text \<open>\<open>(a='b') && (a!='c') -> 'b'='c' ? 'n' : a='b'\<close>, for constants only.\<close>

definition join_eq_uneq :: "symtab \<Rightarrow> sref \<Rightarrow> sref \<Rightarrow> sref \<Rightarrow> expr option" where
  "join_eq_uneq T s b c =
     (if s_type (T s) = S_TRISTATE \<and> has_flag SYMBOL_CONST (T c) \<and> has_flag SYMBOL_CONST (T b)
      then Some (if b \<noteq> c then E_EQUAL s b else E_SYMBOL SymNo) else None)"

definition join_sym_eq :: "sref \<Rightarrow> sref \<Rightarrow> expr option" where
  "join_sym_eq s y = (if y = SymYes then Some (E_EQUAL s SymYes) else None)"

definition join_sym_uneq :: "sref \<Rightarrow> sref \<Rightarrow> expr option" where
  "join_sym_uneq s y =
     (if y = SymNo then Some (E_SYMBOL s) else if y = SymMod then Some (E_EQUAL s SymYes) else None)"

definition join_uneqs :: "symtab \<Rightarrow> sref \<Rightarrow> sref \<Rightarrow> sref \<Rightarrow> expr option" where
  "join_uneqs T s x y =
     (if s_type (T s) \<noteq> S_TRISTATE then None
      else if both x y SymYes SymNo then Some (E_EQUAL s SymMod)
      else if both x y SymYes SymMod then Some (E_EQUAL s SymNo)
      else if both x y SymMod SymNo then Some (E_EQUAL s SymYes)
      else None)"

definition join_and_rule :: "symtab \<Rightarrow> sref \<Rightarrow> expr \<Rightarrow> expr \<Rightarrow> expr option" where
  "join_and_rule T s e1 e2 =
     (case (e1, e2) of
        (E_SYMBOL _, E_EQUAL _ y) \<Rightarrow> join_sym_eq s y
      | (E_EQUAL _ y, E_SYMBOL _) \<Rightarrow> join_sym_eq s y
      | (E_SYMBOL _, E_UNEQUAL _ y) \<Rightarrow> join_sym_uneq s y
      | (E_UNEQUAL _ y, E_SYMBOL _) \<Rightarrow> join_sym_uneq s y
      | (E_EQUAL _ b, E_UNEQUAL _ c) \<Rightarrow> join_eq_uneq T s b c
      | (E_UNEQUAL _ c, E_EQUAL _ b) \<Rightarrow> join_eq_uneq T s b c
      | (E_UNEQUAL _ x, E_UNEQUAL _ y) \<Rightarrow> join_uneqs T s x y
      | _ \<Rightarrow> None)"

definition expr_join_and :: "symtab \<Rightarrow> expr \<Rightarrow> expr \<Rightarrow> expr option" where
  "expr_join_and T e1 e2 =
     (if expr_eq e1 e2 then Some (expr_copy e1)
      else case joinable T e1 e2 of None \<Rightarrow> None | Some s \<Rightarrow> join_and_rule T s e1 e2)"

section \<open>Occurrence of a symbol\<close>

fun contains_symbol :: "expr \<Rightarrow> sref \<Rightarrow> bool" where
  "contains_symbol (E_AND l r) s \<longleftrightarrow> contains_symbol l s \<or> contains_symbol r s"
| "contains_symbol (E_OR l r) s \<longleftrightarrow> contains_symbol l s \<or> contains_symbol r s"
| "contains_symbol (E_SYMBOL a) s \<longleftrightarrow> a = s"
| "contains_symbol (E_EQUAL a b) s \<longleftrightarrow> a = s \<or> b = s"
| "contains_symbol (E_UNEQUAL a b) s \<longleftrightarrow> a = s \<or> b = s"
| "contains_symbol (E_NOT e) s \<longleftrightarrow> contains_symbol e s"

fun expr_contains_symbol :: "expr option \<Rightarrow> sref \<Rightarrow> bool" where
  "expr_contains_symbol None s = False"
| "expr_contains_symbol (Some e) s = contains_symbol e s"

fun depends_symbol :: "expr \<Rightarrow> sref \<Rightarrow> bool" where
  "depends_symbol (E_AND l r) s \<longleftrightarrow> depends_symbol l s \<or> depends_symbol r s"
| "depends_symbol (E_SYMBOL a) s \<longleftrightarrow> a = s"
| "depends_symbol (E_EQUAL a b) s \<longleftrightarrow> a = s \<and> (b = SymYes \<or> b = SymMod)"
| "depends_symbol (E_UNEQUAL a b) s \<longleftrightarrow> a = s \<and> b = SymNo"
| "depends_symbol _ s = False"

fun expr_depends_symbol :: "expr option \<Rightarrow> sref \<Rightarrow> bool" where
  "expr_depends_symbol None s = False"
| "expr_depends_symbol (Some e) s = depends_symbol e s"

section \<open>Extracting common operands\<close>

text \<open>
  \<open>expr_extract_eq\<close>: the common operands are collected in \<open>ep\<close> and replaced by the unit on both
  sides. Once the left side is no node of the operator it never becomes one again, so the descent
  into the right side need not repeat the test of the left side.
\<close>

lemma parts_smaller: "parts t e = Some (l, r) \<Longrightarrow> esize l < esize e \<and> esize r < esize e"
  by (drule parts_size) simp

function extract_right :: "expr_type \<Rightarrow> expr option \<Rightarrow> expr \<Rightarrow> expr \<Rightarrow> expr option \<times> expr \<times> expr" where
  "extract_right t ep e1 e2 =
     (case parts t e2 of
        Some (l, r) \<Rightarrow>
          (case extract_right t ep e1 l of (ep1, x, l') \<Rightarrow>
           case extract_right t ep1 x r of (ep2, y, r') \<Rightarrow> (ep2, y, node t l' r'))
      | None \<Rightarrow>
          if expr_eq e1 e2
          then (Some (case ep of None \<Rightarrow> e1 | Some p \<Rightarrow> node t p e1), unit_expr t, unit_expr t)
          else (ep, e1, e2))"
  by pat_completeness auto
termination
  by (relation "measure (\<lambda>(t, ep, e1, e2). esize e2)") (auto dest: parts_smaller)

function expr_extract_eq :: "expr_type \<Rightarrow> expr option \<Rightarrow> expr \<Rightarrow> expr \<Rightarrow> expr option \<times> expr \<times> expr" where
  "expr_extract_eq t ep e1 e2 =
     (case parts t e1 of
        Some (l, r) \<Rightarrow>
          (case expr_extract_eq t ep l e2 of (ep1, l', x) \<Rightarrow>
           case expr_extract_eq t ep1 r x of (ep2, r', y) \<Rightarrow> (ep2, node t l' r', y))
      | None \<Rightarrow> extract_right t ep e1 e2)"
  by pat_completeness auto
termination
  by (relation "measure (\<lambda>(t, ep, e1, e2). esize e1)") (auto dest: parts_smaller)

declare extract_right.simps [simp del] expr_extract_eq.simps [simp del]

definition extract_eq_yn :: "expr_type \<Rightarrow> expr \<Rightarrow> expr \<Rightarrow> expr option \<times> expr \<times> expr" where
  "extract_eq_yn t e1 e2 =
     (case expr_extract_eq t None e1 e2 of
        (None, a, b) \<Rightarrow> (None, a, b)
      | (Some p, a, b) \<Rightarrow> (Some p, expr_eliminate_yn a, expr_eliminate_yn b))"

definition expr_extract_eq_and :: "expr \<Rightarrow> expr \<Rightarrow> expr option \<times> expr \<times> expr" where
  "expr_extract_eq_and = extract_eq_yn T_AND"

definition expr_extract_eq_or :: "expr \<Rightarrow> expr \<Rightarrow> expr option \<times> expr \<times> expr" where
  "expr_extract_eq_or = extract_eq_yn T_OR"

section \<open>Rewriting a comparison\<close>

definition not_if_uneq :: "expr_type \<Rightarrow> expr \<Rightarrow> expr" where
  "not_if_uneq ty e = (if ty = T_UNEQUAL then E_NOT e else e)"

definition comp_expr :: "expr_type \<Rightarrow> sref \<Rightarrow> sref \<Rightarrow> expr" where
  "comp_expr ty a b = (if ty = T_EQUAL then E_EQUAL a b else E_UNEQUAL a b)"

text \<open>\<open>expr_trans_compare\<close> on an expression; \<open>ty\<close> is \<open>E_EQUAL\<close> or \<open>E_UNEQUAL\<close>. For \<open>m\<close>, a conjunction
  or disjunction is left as it is.\<close>

definition trans_compare_leaf :: "expr \<Rightarrow> expr_type \<Rightarrow> sref \<Rightarrow> expr option" where
  "trans_compare_leaf e ty s =
     (if ty = T_EQUAL then
        (if s = SymYes then Some e
         else if s = SymMod then Some (E_SYMBOL SymNo)
         else if s = SymNo then Some (E_NOT e) else None)
      else
        (if s = SymYes then Some (E_NOT e)
         else if s = SymMod then Some (E_SYMBOL SymYes)
         else if s = SymNo then Some e else None))"

definition alloc_both :: "(expr \<Rightarrow> expr \<Rightarrow> expr) \<Rightarrow> expr option \<Rightarrow> expr option \<Rightarrow> expr option" where
  "alloc_both f a b = (case (a, b) of (Some x, Some y) \<Rightarrow> Some (f x y) | _ \<Rightarrow> None)"

fun trans_compare :: "expr \<Rightarrow> expr_type \<Rightarrow> sref \<Rightarrow> expr option" where
  "trans_compare (E_AND l r) ty s =
     map_option (not_if_uneq ty)
       (if s = SymYes then alloc_both E_AND (trans_compare l T_EQUAL s) (trans_compare r T_EQUAL s)
        else if s = SymNo then alloc_both E_OR (trans_compare l T_EQUAL s) (trans_compare r T_EQUAL s)
        else Some (E_AND l r))"
| "trans_compare (E_OR l r) ty s =
     map_option (not_if_uneq ty)
       (if s = SymYes then alloc_both E_OR (trans_compare l T_EQUAL s) (trans_compare r T_EQUAL s)
        else if s = SymNo then alloc_both E_AND (trans_compare l T_EQUAL s) (trans_compare r T_EQUAL s)
        else Some (E_OR l r))"
| "trans_compare (E_NOT e) ty s = trans_compare e (if ty = T_EQUAL then T_UNEQUAL else T_EQUAL) s"
| "trans_compare (E_EQUAL a b) ty s = trans_compare_leaf (E_EQUAL a b) ty s"
| "trans_compare (E_UNEQUAL a b) ty s = trans_compare_leaf (E_UNEQUAL a b) ty s"
| "trans_compare (E_SYMBOL a) ty s = Some (comp_expr ty a s)"

fun expr_trans_compare :: "expr option \<Rightarrow> expr_type \<Rightarrow> sref \<Rightarrow> expr option" where
  "expr_trans_compare None ty s = Some (not_if_uneq ty (E_SYMBOL s))"
| "expr_trans_compare (Some e) ty s = trans_compare e ty s"

section \<open>Values\<close>

text \<open>\<open>expr_calc_value\<close> on symbols whose values are calculated: \<open>tri\<close> reads \<open>curr.tri\<close> and \<open>str\<close> is
  \<open>sym_get_string_value\<close>.\<close>

fun expr_value :: "(sref \<Rightarrow> tristate) \<Rightarrow> (sref \<Rightarrow> string) \<Rightarrow> expr \<Rightarrow> tristate" where
  "expr_value tri str (E_SYMBOL s) = tri s"
| "expr_value tri str (E_AND l r) = EXPR_AND (expr_value tri str l) (expr_value tri str r)"
| "expr_value tri str (E_OR l r) = EXPR_OR (expr_value tri str l) (expr_value tri str r)"
| "expr_value tri str (E_NOT e) = EXPR_NOT (expr_value tri str e)"
| "expr_value tri str (E_EQUAL a b) = (if str a = str b then TYes else TNo)"
| "expr_value tri str (E_UNEQUAL a b) = (if str a = str b then TNo else TYes)"

section \<open>Printing\<close>

definition expr_compare_type :: "expr_type \<Rightarrow> expr_type \<Rightarrow> int" where
  "expr_compare_type t1 t2 =
     (if t1 = t2 then 0
      else if t1 \<in> {T_EQUAL, T_UNEQUAL} \<and> t2 = T_NOT then 1
      else if t1 \<in> {T_EQUAL, T_UNEQUAL, T_NOT} \<and> t2 = T_AND then 1
      else if t1 \<in> {T_EQUAL, T_UNEQUAL, T_NOT, T_AND} \<and> t2 = T_OR then 1
      else if t1 \<in> {T_EQUAL, T_UNEQUAL, T_NOT, T_AND, T_OR} \<and> t2 = T_LIST then 1
      else if t1 \<in> {T_EQUAL, T_UNEQUAL, T_NOT, T_AND, T_OR, T_LIST} \<and> t2 = T_NONE then 1
      else -1)"

text \<open>The calls of the callback \<open>fn\<close>: the symbol it is given, if any, and the text.\<close>

type_synonym ptoken = "sref option \<times> string"

definition sym_token :: "symtab \<Rightarrow> sref \<Rightarrow> ptoken" where
  "sym_token T s = (case s_name (T s) of Some n \<Rightarrow> (Some s, n) | None \<Rightarrow> (None, ''<choice>''))"

definition right_token :: "symtab \<Rightarrow> sref \<Rightarrow> ptoken" where
  "right_token T s = (Some s, case s_name (T s) of Some n \<Rightarrow> n | None \<Rightarrow> [])"

definition parens :: "expr_type \<Rightarrow> expr_type \<Rightarrow> ptoken list \<Rightarrow> ptoken list" where
  "parens prev t ts =
     (if expr_compare_type prev t > 0 then [(None, ''('')] @ ts @ [(None, '')'')] else ts)"

fun print_expr :: "symtab \<Rightarrow> expr \<Rightarrow> expr_type \<Rightarrow> ptoken list" where
  "print_expr T (E_SYMBOL s) prev = parens prev T_SYMBOL [sym_token T s]"
| "print_expr T (E_NOT e) prev = parens prev T_NOT ((None, ''!'') # print_expr T e T_NOT)"
| "print_expr T (E_EQUAL a b) prev = parens prev T_EQUAL [sym_token T a, (None, ''=''), right_token T b]"
| "print_expr T (E_UNEQUAL a b) prev = parens prev T_UNEQUAL [sym_token T a, (None, ''!=''), right_token T b]"
| "print_expr T (E_OR l r) prev =
     parens prev T_OR (print_expr T l T_OR @ [(None, '' || '')] @ print_expr T r T_OR)"
| "print_expr T (E_AND l r) prev =
     parens prev T_AND (print_expr T l T_AND @ [(None, '' && '')] @ print_expr T r T_AND)"

fun print_list :: "symtab \<Rightarrow> sref list \<Rightarrow> ptoken list" where
  "print_list T [] = []"
| "print_list T [s] = [right_token T s]"
| "print_list T (s # ss) = right_token T s # (None, '' ^ '') # print_list T ss"

fun expr_print :: "symtab \<Rightarrow> pexpr option \<Rightarrow> expr_type \<Rightarrow> ptoken list" where
  "expr_print T None prev = [(None, ''y'')]"
| "expr_print T (Some (PExpr e)) prev = print_expr T e prev"
| "expr_print T (Some (PList ss)) prev = parens prev T_LIST (print_list T ss)"
| "expr_print T (Some (PRange a b)) prev =
     parens prev T_RANGE [(None, ''[''), right_token T a, (None, '' ''), right_token T b, (None, '']'')]"

definition expr_fprint :: "symtab \<Rightarrow> pexpr option \<Rightarrow> string" where
  "expr_fprint T e = concat (map snd (expr_print T e T_NONE))"

section \<open>Growable strings\<close>

text \<open>The growable strings of \<open>util.c\<close>: \<open>gs_len\<close> is the number of bytes allocated for the text \<open>gs_s\<close>
  and its terminator.\<close>

record gstr =
  gs_len :: nat
  gs_s :: string
  gs_max_width :: nat

definition str_new :: gstr where "str_new = \<lparr>gs_len = 64, gs_s = [], gs_max_width = 0\<rparr>"

definition str_assign :: "string \<Rightarrow> gstr" where
  "str_assign s = \<lparr>gs_len = length s + 1, gs_s = s, gs_max_width = 0\<rparr>"

definition str_append :: "gstr \<Rightarrow> string option \<Rightarrow> gstr" where
  "str_append gs s =
     (case s of
        None \<Rightarrow> gs
      | Some t \<Rightarrow>
          (let l = length (gs_s gs) + length t + 1
           in gs\<lparr>gs_len := (if l > gs_len gs then l else gs_len gs), gs_s := gs_s gs @ t\<rparr>))"

text \<open>\<open>str_printf\<close> of a formatted text cuts it to a buffer of 10000 bytes.\<close>

definition str_printf :: "gstr \<Rightarrow> string \<Rightarrow> gstr" where
  "str_printf gs formatted = str_append gs (Some (take 9999 formatted))"

definition str_get :: "gstr \<Rightarrow> string" where "str_get gs = gs_s gs"

text \<open>\<open>expr_gstr_print\<close>: with a \<open>max_width\<close>, a token that does not fit
  on the current line starts a new one behind a backslash. \<open>str\<close> is \<open>sym_get_string_value\<close>.\<close>

text \<open>The length of the last line, counted from its line feed (\<open>strrchr\<close>) when there is one.\<close>

definition last_line_length :: "string \<Rightarrow> nat" where
  "last_line_length s =
     (let tl = takeWhile (\<lambda>c. c \<noteq> CHR 0x0A) (rev s)
      in if CHR 0x0A \<in> set s then length tl + 1 else length s)"

definition expr_print_gstr_helper :: "symtab \<Rightarrow> (sref \<Rightarrow> string) \<Rightarrow> gstr \<Rightarrow> ptoken \<Rightarrow> gstr" where
  "expr_print_gstr_helper T str g tok =
     (case tok of (so, txt) \<Rightarrow>
        let extra = length txt + (case so of None \<Rightarrow> 0 | Some s \<Rightarrow> 4 + length (str s));
            g1 = (if gs_max_width g \<noteq> 0 \<and> last_line_length (gs_s g) + extra > gs_max_width g
                  then str_append g (Some [CHR 0x5C, CHR 0x0A]) else g);
            g2 = str_append g1 (Some txt)
        in case so of
             None \<Rightarrow> g2
           | Some s \<Rightarrow> if s_type (T s) \<noteq> S_UNKNOWN then str_printf g2 ('' [='' @ str s @ '']'') else g2)"

definition expr_gstr_print :: "symtab \<Rightarrow> (sref \<Rightarrow> string) \<Rightarrow> pexpr option \<Rightarrow> gstr \<Rightarrow> gstr" where
  "expr_gstr_print T str e g = foldl (expr_print_gstr_helper T str) g (expr_print T e T_NONE)"

end
