(* ===== verification/KDups.thy ===== *)
theory KDups
  imports KExpr
begin

text \<open>
  \<open>expr.c\<close>: \<open>expr_eliminate_dups1\<close>, \<open>expr_eliminate_dups2\<close>, \<open>expr_eliminate_dups\<close> and
  \<open>expr_simplify_unmet_dep\<close>. Both passes are called on one expression twice (\<open>&e, &e\<close>) and update
  it through two pointers into it. With \<open>type\<close> the operator of the expression, the first pointer
  visits the operands of the \<open>type\<close> spine (its \<open>leaves\<close>), and for each of them the second pointer visits
  the spine again: its leaves (first pass), or all its nodes, children first (second pass, which
  has no \<open>return\<close> behind the descent). Updates only replace leaves, and never by a node of
  \<open>type\<close>, so the spine keeps its shape and a pointer is the number of a leaf, counted from the left.
\<close>

section \<open>The spine of an operator\<close>

function leaves :: "expr_type \<Rightarrow> expr \<Rightarrow> expr list" where
  "leaves t e = (case parts t e of None \<Rightarrow> [e] | Some (l, r) \<Rightarrow> leaves t l @ leaves t r)"
  by pat_completeness auto
termination
  by (relation "measure (\<lambda>(t, e). esize e)") (auto dest: parts_smaller)

text \<open>The spine with its leaves replaced by the first elements of a list.\<close>

function refill :: "expr_type \<Rightarrow> expr \<Rightarrow> expr list \<Rightarrow> expr" where
  "refill t e ls =
     (case parts t e of
        None \<Rightarrow> hd ls
      | Some (l, r) \<Rightarrow> node t (refill t l ls) (refill t r (drop (length (leaves t l)) ls)))"
  by pat_completeness auto
termination
  by (relation "measure (\<lambda>(t, e, ls). esize e)") (auto dest: parts_smaller)

text \<open>The nodes of the spine, children first, each with the number of its first leaf.\<close>

function spine :: "expr_type \<Rightarrow> nat \<Rightarrow> expr \<Rightarrow> (nat \<times> expr) list" where
  "spine t n e =
     (case parts t e of
        None \<Rightarrow> [(n, e)]
      | Some (l, r) \<Rightarrow> spine t n l @ spine t (n + length (leaves t l)) r @ [(n, e)])"
  by pat_completeness auto
termination
  by (relation "measure (\<lambda>(t, n, e). esize e)") (auto dest: parts_smaller)

declare leaves.simps [simp del] refill.simps [simp del] spine.simps [simp del]

section \<open>The first pass: joining two operands\<close>

definition dups1_pair ::
  "(expr_type \<Rightarrow> expr \<Rightarrow> expr \<times> nat) \<Rightarrow> symtab \<Rightarrow> expr_type \<Rightarrow> expr list \<times> nat \<Rightarrow> nat \<times> nat \<Rightarrow> expr list \<times> nat" where
  "dups1_pair rec T t st ij =
     (case (st, ij) of ((ls, c), (i, j)) \<Rightarrow>
        if i = j then (ls, c)
        else
          case (if and_or (ls ! i) then rec (etype (ls ! i)) (ls ! i) else (ls ! i, 0)) of (e1, c1) \<Rightarrow>
            let ls1 = ls[i := e1]
            in case (if t = T_OR then expr_join_or T e1 (ls1 ! j) else expr_join_and T e1 (ls1 ! j)) of
                 None \<Rightarrow> (ls1, c + c1)
               | Some tmp \<Rightarrow> (ls1[i := unit_expr t, j := tmp], c + c1 + 1))"

definition index_pairs :: "nat \<Rightarrow> (nat \<times> nat) list" where
  "index_pairs k = concat (map (\<lambda>i. map (\<lambda>j. (i, j)) [0..<k]) [0..<k])"

text \<open>The nesting of the operators bounds the recursion; the result counts \<open>trans_count++\<close>.\<close>

fun dups1_n :: "nat \<Rightarrow> symtab \<Rightarrow> expr_type \<Rightarrow> expr \<Rightarrow> expr \<times> nat" where
  "dups1_n 0 T t e = (e, 0)"
| "dups1_n (Suc n) T t e =
     (case foldl (dups1_pair (dups1_n n T) T t) (leaves t e, 0) (index_pairs (length (leaves t e))) of
        (ls, c) \<Rightarrow> (refill t e ls, c))"

definition expr_eliminate_dups1 :: "symtab \<Rightarrow> expr_type \<Rightarrow> expr \<Rightarrow> expr \<times> nat" where
  "expr_eliminate_dups1 T t e = dups1_n (esize e) T t e"

section \<open>The second pass: an operand against the negation of others\<close>

text \<open>\<open>(FOO || BAR) && (!FOO && !BAR) -> n\<close> and \<open>(FOO && BAR) || (!FOO || !BAR) -> y\<close>.\<close>

definition cancels :: "symtab \<Rightarrow> expr \<Rightarrow> expr \<Rightarrow> bool" where
  "cancels T e1 e2 =
     (let tmp1 = expr_transform T (E_NOT (expr_copy e1))
      in if etype e1 = T_OR
         then expr_is_yes (Some (fst (snd (expr_extract_eq_and tmp1 (expr_copy e2)))))
         else expr_is_no (Some (fst (snd (expr_extract_eq_or tmp1 (expr_copy e2))))))"

definition dups2_pair ::
  "(expr_type \<Rightarrow> expr \<Rightarrow> expr \<times> nat) \<Rightarrow> symtab \<Rightarrow> expr_type \<Rightarrow> expr list \<times> nat \<Rightarrow> nat \<times> nat \<times> expr \<Rightarrow> expr list \<times> nat" where
  "dups2_pair rec T t st nd =
     (case (st, nd) of ((ls, c), (i, n, sh)) \<Rightarrow>
        if (n = i \<and> parts t sh = None) \<or> \<not> and_or (ls ! i) then (ls, c)
        else
          case rec (etype (ls ! i)) (ls ! i) of (e1, c1) \<Rightarrow>
            let ls1 = ls[i := e1]
            in if cancels T e1 (refill t sh (drop n ls1))
               then (ls1[i := (if etype e1 = T_OR then E_SYMBOL SymNo else E_SYMBOL SymYes)], c + c1 + 1)
               else (ls1, c + c1))"

definition index_nodes :: "expr_type \<Rightarrow> expr \<Rightarrow> (nat \<times> nat \<times> expr) list" where
  "index_nodes t e = concat (map (\<lambda>i. map (\<lambda>nd. (i, nd)) (spine t 0 e)) [0..<length (leaves t e)])"

fun dups2_n :: "nat \<Rightarrow> symtab \<Rightarrow> expr_type \<Rightarrow> expr \<Rightarrow> expr \<times> nat" where
  "dups2_n 0 T t e = (e, 0)"
| "dups2_n (Suc n) T t e =
     (case foldl (dups2_pair (dups2_n n T) T t) (leaves t e, 0) (index_nodes t e) of
        (ls, c) \<Rightarrow> (refill t e ls, c))"

definition expr_eliminate_dups2 :: "symtab \<Rightarrow> expr_type \<Rightarrow> expr \<Rightarrow> expr \<times> nat" where
  "expr_eliminate_dups2 T t e = dups2_n (esize e) T t e"

section \<open>The loop\<close>

definition dups_round :: "symtab \<Rightarrow> expr \<Rightarrow> expr \<times> nat" where
  "dups_round T e =
     (if and_or e then
        (case expr_eliminate_dups1 T (etype e) e of (a, c1) \<Rightarrow>
         case expr_eliminate_dups2 T (etype e) a of (b, c2) \<Rightarrow> (b, c1 + c2))
      else (e, 0))"

section \<open>Leaves of the spine\<close>

lemma leaf_simps [simp]:
  "parts t e = None \<Longrightarrow> leaves t e = [e]"
  "parts t e = None \<Longrightarrow> refill t e ls = hd ls"
  "parts t e = None \<Longrightarrow> spine t n e = [(n, e)]"
  by (simp_all add: leaves.simps refill.simps spine.simps)

lemma node_simps [simp]:
  "parts t e = Some (l, r) \<Longrightarrow> leaves t e = leaves t l @ leaves t r"
  "parts t e = Some (l, r) \<Longrightarrow> refill t e ls = node t (refill t l ls) (refill t r (drop (length (leaves t l)) ls))"
  "parts t e = Some (l, r) \<Longrightarrow> spine t n e = spine t n l @ spine t (n + length (leaves t l)) r @ [(n, e)]"
  by (subst leaves.simps refill.simps spine.simps, simp)+

lemma spine_induct [case_names leaf node]:
  assumes "\<And>e. parts t e = None \<Longrightarrow> P e"
    and "\<And>e l r. parts t e = Some (l, r) \<Longrightarrow> P l \<Longrightarrow> P r \<Longrightarrow> P e"
  shows "P e"
proof (induction e rule: measure_induct_rule [of esize])
  case (less e)
  then show ?case using assms parts_smaller by (cases "parts t e") force+
qed

lemma leaves_length_pos [simp]: "0 < length (leaves t e)"
  by (induction e rule: spine_induct [of t]) auto

lemma leaves_length_ge1 [simp]: "Suc 0 \<le> length (leaves t e)"
  using leaves_length_pos [of t e] by linarith

lemma leaves_leaf: "l \<in> set (leaves t e) \<Longrightarrow> parts t l = None"
  by (induction e rule: spine_induct [of t]) auto

lemma leaves_size: "l \<in> set (leaves t e) \<Longrightarrow> esize l \<le> esize e"
  by (induction e rule: spine_induct [of t]) (fastforce dest: parts_size)+

lemma leaves_smaller: "l \<in> set (leaves t e) \<Longrightarrow> parts t e = Some (a, b) \<Longrightarrow> esize l < esize e"
  using leaves_size [of l t a] leaves_size [of l t b] parts_size [of t e a b] by auto

lemma leaves_two: "parts t e = Some (a, b) \<Longrightarrow> 2 \<le> length (leaves t e)"
  using add_mono [OF leaves_length_ge1 [of t a] leaves_length_ge1 [of t b]] by simp

lemma refill_same: "refill t e (leaves t e @ xs) = e"
  by (induction e arbitrary: xs rule: spine_induct [of t]) (auto dest: parts_Some)

lemma refill_root: "parts t e \<noteq> None \<Longrightarrow> parts t (refill t e ls) \<noteq> None"
  by (auto dest!: parts_Some simp: parts_node)

lemma refill_size:
  "length (leaves t e) \<le> length ls \<Longrightarrow>
     esize (refill t e ls) + 1 = sum_list (map esize (take (length (leaves t e)) ls)) + length (leaves t e)"
proof (induction e arbitrary: ls rule: spine_induct [of t])
  case (leaf e)
  then show ?case by (cases ls) auto
next
  case (node e l r)
  have "esize (refill t l ls) + 1 = sum_list (map esize (take (length (leaves t l)) ls)) + length (leaves t l)"
    using node.IH(1) [of ls] node.prems node.hyps by simp
  moreover have "esize (refill t r (drop (length (leaves t l)) ls)) + 1 =
      sum_list (map esize (take (length (leaves t r)) (drop (length (leaves t l)) ls))) + length (leaves t r)"
    using node.IH(2) [of "drop (length (leaves t l)) ls"] node.prems node.hyps by simp
  ultimately show ?case using node.hyps by (simp add: take_add)
qed

lemma esize_leaves: "esize e + 1 = sum_list (map esize (leaves t e)) + length (leaves t e)"
  using refill_size [of t e "leaves t e"] refill_same [of t e "[]"] by simp

lemma spine_range: "(m, sh) \<in> set (spine t n e) \<Longrightarrow> n \<le> m \<and> m + length (leaves t sh) \<le> n + length (leaves t e)"
  by (induction e arbitrary: n rule: spine_induct [of t]) fastforce+

lemma and_or_parts: "and_or e \<longleftrightarrow> parts (etype e) e \<noteq> None"
  by (cases e) (auto simp: and_or_def)

lemma and_or_partsD: "and_or e \<Longrightarrow> \<exists>l r. parts (etype e) e = Some (l, r)"
  by (cases e) (auto simp: and_or_def)


lemma foldl_invariant:
  "I s \<Longrightarrow> (\<And>s x. I s \<Longrightarrow> x \<in> set xs \<Longrightarrow> I (f s x)) \<Longrightarrow> I (foldl f s xs)"
  by (induction xs arbitrary: s) auto

lemma foldl_same:
  "I s \<Longrightarrow> (\<And>s x. I s \<Longrightarrow> x \<in> set xs \<Longrightarrow> I (f s x) \<and> f s x = g s x) \<Longrightarrow> foldl f s xs = foldl g s xs"
proof (induction xs arbitrary: s)
  case (Cons x xs)
  then have g: "I (g s x)" "f s x = g s x" by (metis list.set_intros(1))+
  have "foldl f (g s x) xs = foldl g (g s x) xs"
    by (rule Cons.IH [OF g(1)]) (metis Cons.prems(2) list.set_intros(2))
  then show ?case using g by simp
qed simp

lemma index_pairs_bound: "(i, j) \<in> set (index_pairs k) \<Longrightarrow> i < k \<and> j < k"
  by (auto simp: index_pairs_def)

lemma index_nodes_bound: "(i, nd) \<in> set (index_nodes t e) \<Longrightarrow> i < length (leaves t e) \<and> nd \<in> set (spine t 0 e)"
  by (auto simp: index_nodes_def)

section \<open>One step of a pass\<close>

text \<open>The two steps with their intermediate results named.\<close>

definition inner :: "(expr_type \<Rightarrow> expr \<Rightarrow> expr \<times> nat) \<Rightarrow> expr \<Rightarrow> expr \<times> nat" where
  "inner rec e = (if and_or e then rec (etype e) e else (e, 0))"

lemma dups1_pair_cases:
  assumes "dups1_pair rec T t (ls, c) (i, j) = (ls', c')"
  obtains (same) "i = j" "ls' = ls" "c' = c"
  | (kept) e1 c1 where "i \<noteq> j" "inner rec (ls ! i) = (e1, c1)" "ls' = ls[i := e1]" "c' = c + c1"
  | (joined) e1 c1 tmp where "i \<noteq> j" "inner rec (ls ! i) = (e1, c1)"
      "(if t = T_OR then expr_join_or T e1 (ls ! j) else expr_join_and T e1 (ls ! j)) = Some tmp"
      "ls' = ls[i := unit_expr t, j := tmp]" "c' = c + c1 + 1"
proof -
  obtain e1 c1 where e: "inner rec (ls ! i) = (e1, c1)" by fastforce
  show ?thesis
  proof (cases "i = j")
    case True
    then show ?thesis using assms same by (simp add: dups1_pair_def)
  next
    case False
    define q where "q = (if t = T_OR then expr_join_or T e1 (ls ! j) else expr_join_and T e1 (ls ! j))"
    have "(ls', c') = (case q of None \<Rightarrow> (ls[i := e1], c + c1)
        | Some tmp \<Rightarrow> (ls[i := e1, i := unit_expr t, j := tmp], c + c1 + 1))"
      using assms False e nth_list_update_neq [OF False, of ls e1]
      unfolding dups1_pair_def inner_def q_def by (simp only: prod.case if_False Let_def)
    then show ?thesis using False e kept joined unfolding q_def by (cases q) (auto simp: q_def)
  qed
qed

lemma dups2_pair_cases:
  assumes "dups2_pair rec T t (ls, c) (i, n, sh) = (ls', c')"
  obtains (same) "ls' = ls" "c' = c"
  | (kept) e1 c1 where "and_or (ls ! i)" "rec (etype (ls ! i)) (ls ! i) = (e1, c1)" "ls' = ls[i := e1]" "c' = c + c1"
  | (cancelled) e1 c1 where "and_or (ls ! i)" "rec (etype (ls ! i)) (ls ! i) = (e1, c1)"
      "cancels T e1 (refill t sh (drop n (ls[i := e1])))"
      "ls' = ls[i := (if etype e1 = T_OR then E_SYMBOL SymNo else E_SYMBOL SymYes)]" "c' = c + c1 + 1"
proof (cases "(n = i \<and> parts t sh = None) \<or> \<not> and_or (ls ! i)")
  case True
  then show ?thesis using assms same by (auto simp: dups2_pair_def)
next
  case False
  obtain e1 c1 where e: "rec (etype (ls ! i)) (ls ! i) = (e1, c1)" by fastforce
  show ?thesis
    using assms False e kept cancelled
    by (cases "cancels T e1 (refill t sh (drop n (ls[i := e1])))") (auto simp: dups2_pair_def Let_def)
qed

section \<open>The passes do not grow the expression\<close>

definition shrinks :: "(expr_type \<Rightarrow> expr \<Rightarrow> expr \<times> nat) \<Rightarrow> bool" where
  "shrinks rec \<longleftrightarrow> (\<forall>e. and_or e \<longrightarrow> esize (fst (rec (etype e) e)) \<le> esize e)"

lemma shrinksD: "shrinks rec \<Longrightarrow> and_or e \<Longrightarrow> rec (etype e) e = (x, c) \<Longrightarrow> esize x \<le> esize e"
  unfolding shrinks_def by (metis fst_conv)

lemma join_size:
  "expr_join_or T a b = Some e \<Longrightarrow> esize e \<le> esize a"
  "expr_join_and T a b = Some e \<Longrightarrow> esize e \<le> esize a"
  using esize_ge1 [of a]
  by (auto simp: expr_join_or_def expr_join_and_def join_or_rule_def join_and_rule_def join_or_eqs_def join_uneqs_def
      join_sym_eq_def join_sym_uneq_def join_eq_uneq_def split: if_splits option.splits expr.splits)

definition small :: "nat \<Rightarrow> nat \<Rightarrow> nat \<Rightarrow> expr list \<times> nat \<Rightarrow> bool" where
  "small k B S st \<longleftrightarrow> length (fst st) = k \<and> (\<forall>l \<in> set (fst st). esize l \<le> B) \<and> sum_list (map esize (fst st)) \<le> S"

lemma sum_list_update_le:
  fixes xs :: "nat list"
  shows "i < length xs \<Longrightarrow> sum_list (xs[i := y]) + xs ! i = sum_list xs + y"
  by (induction xs arbitrary: i) (auto split: nat.splits)

lemma small_update:
  assumes "small k B S (ls, c)" "i < k" "esize e \<le> esize (ls ! i)"
  shows "small k B S (ls[i := e], c')"
proof -
  have l: "length ls = k" "\<forall>l \<in> set ls. esize l \<le> B" "sum_list (map esize ls) \<le> S"
    using assms(1) by (simp_all add: small_def)
  then have "esize e \<le> B" using assms(2,3) by (metis nth_mem order_trans)
  then have b: "\<forall>l \<in> set (ls[i := e]). esize l \<le> B" using l(2) set_update_subset_insert [of ls i e] by auto
  have "sum_list ((map esize ls)[i := esize e]) + map esize ls ! i = sum_list (map esize ls) + esize e"
    by (rule sum_list_update_le) (use l assms in simp)
  then have "sum_list (map esize (ls[i := e])) \<le> S" using l assms by (simp add: map_update)
  then show ?thesis using l(1) b by (simp add: small_def)
qed

text \<open>A join: one operand becomes the unit, the other one no larger than the first was.\<close>

lemma small_join:
  assumes "small k B S (ls, c)" "i < k" "j < k" "i \<noteq> j" "esize u = 1" "esize e \<le> esize (ls ! i)"
  shows "small k B S (ls[i := u, j := e], c')"
proof -
  have l: "length ls = k" "\<forall>l \<in> set ls. esize l \<le> B" "sum_list (map esize ls) \<le> S"
    using assms(1) by (simp_all add: small_def)
  have ij: "esize (ls ! i) \<le> B" "esize (ls ! j) \<le> B" using l assms(2,3) by simp_all
  have ue: "esize u \<le> B" "esize e \<le> B" using ij assms(5,6) esize_ge1 [of "ls ! i"] by linarith+
  have "set (ls[i := u, j := e]) \<subseteq> insert e (insert u (set ls))"
    using set_update_subset_insert [of "ls[i := u]" j e] set_update_subset_insert [of ls i u] by blast
  then have b: "\<forall>l \<in> set (ls[i := u, j := e]). esize l \<le> B" using l(2) ue by blast
  define xs where "xs = map esize ls"
  have x: "length xs = k" "xs ! i = esize (ls ! i)" "xs ! j = esize (ls ! j)" "sum_list xs \<le> S"
    using l assms(2,3) by (simp_all add: xs_def)
  have "sum_list (xs[i := 1]) + xs ! i = sum_list xs + 1"
    by (rule sum_list_update_le) (use x assms(2) in simp)
  moreover have "sum_list (xs[i := 1, j := esize e]) + xs[i := 1] ! j = sum_list (xs[i := 1]) + esize e"
    by (rule sum_list_update_le) (use x assms(3) in simp)
  moreover have "xs[i := 1] ! j = esize (ls ! j)" using x assms(4) by simp
  ultimately have "sum_list (xs[i := 1, j := esize e]) \<le> S"
    using x(2,4) assms(6) esize_ge1 [of "ls ! j"] by linarith
  then show ?thesis using l(1) b assms(5) by (simp add: small_def xs_def map_update)
qed

lemma inner_size: "shrinks rec \<Longrightarrow> esize (fst (inner rec e)) \<le> esize e"
  by (simp add: shrinks_def inner_def)

lemma dups1_pair_small:
  assumes "shrinks rec" "small k B S st" "fst ij < k" "snd ij < k"
  shows "small k B S (dups1_pair rec T t st ij)"
proof -
  obtain ls c i j where st: "st = (ls, c)" "ij = (i, j)" by fastforce
  obtain ls' c' where r: "dups1_pair rec T t (ls, c) (i, j) = (ls', c')" by fastforce
  from r show ?thesis
  proof (cases rule: dups1_pair_cases)
    case same
    then show ?thesis using assms(2) st r by (simp add: small_def)
  next
    case (kept e1 c1)
    then show ?thesis using small_update [of k B S ls c i e1] inner_size [OF assms(1), of "ls ! i"] assms st r by simp
  next
    case (joined e1 c1 tmp)
    have e1: "esize e1 \<le> esize (ls ! i)" using inner_size [OF assms(1), of "ls ! i"] joined(2) by simp
    have "esize tmp \<le> esize e1" using joined(3) join_size by (auto split: if_splits)
    then have "small k B S (ls[i := unit_expr t, j := tmp], c')"
      using small_join [of k B S ls c i j "unit_expr t" tmp] assms st joined(1) e1 by simp
    then show ?thesis using st r joined(4) by simp
  qed
qed

lemma dups2_pair_small:
  assumes "shrinks rec" "small k B S st" "fst nd < k"
  shows "small k B S (dups2_pair rec T t st nd)"
proof -
  obtain ls c i n sh where st: "st = (ls, c)" "nd = (i, n, sh)" by (metis surj_pair)
  obtain ls' c' where r: "dups2_pair rec T t (ls, c) (i, n, sh) = (ls', c')" by fastforce
  from r show ?thesis
  proof (cases rule: dups2_pair_cases)
    case same
    then show ?thesis using assms(2) st r by (simp add: small_def)
  next
    case (kept e1 c1)
    then have "esize e1 \<le> esize (ls ! i)" using shrinksD [OF assms(1)] by blast
    then show ?thesis using small_update [of k B S ls c i e1] assms st r kept by simp
  next
    case (cancelled e1 c1)
    then show ?thesis using small_update [of k B S ls c i] assms st r by simp
  qed
qed

lemma small_leaves: "small (length (leaves t e)) (esize e) (esize e + 1 - length (leaves t e)) (leaves t e, 0)"
  using leaves_size esize_leaves [of e t] by (auto simp: small_def)

lemma small_refill:
  assumes "small (length (leaves t e)) B (esize e + 1 - length (leaves t e)) (ls, c)"
  shows "esize (refill t e ls) \<le> esize e"
  using assms refill_size [of t e ls] esize_leaves [of e t] by (auto simp: small_def)

lemma dups1_n_shrinks: "shrinks (dups1_n n T)"
proof (induction n)
  case (Suc n)
  show ?case unfolding shrinks_def
  proof (intro allI impI)
    fix e assume "and_or e"
    define t k B S where "t = etype e" "k = length (leaves t e)" "B = esize e" "S = esize e + 1 - length (leaves t e)"
    have "small k B S (foldl (dups1_pair (dups1_n n T) T t) (leaves t e, 0) (index_pairs k))"
      by (rule foldl_invariant) (use small_leaves [of t e] dups1_pair_small [OF Suc] index_pairs_bound in
        \<open>auto simp: t_k_B_S_def\<close>)
    then show "esize (fst (dups1_n (Suc n) T (etype e) e)) \<le> esize e"
      using small_refill by (auto simp: t_k_B_S_def split: prod.splits)
  qed
qed (simp add: shrinks_def)

lemma dups2_n_shrinks: "shrinks (dups2_n n T)"
proof (induction n)
  case (Suc n)
  show ?case unfolding shrinks_def
  proof (intro allI impI)
    fix e assume "and_or e"
    define t k B S where "t = etype e" "k = length (leaves t e)" "B = esize e" "S = esize e + 1 - length (leaves t e)"
    have "small k B S (foldl (dups2_pair (dups2_n n T) T t) (leaves t e, 0) (index_nodes t e))"
      by (rule foldl_invariant) (use small_leaves [of t e] dups2_pair_small [OF Suc] index_nodes_bound in
        \<open>auto simp: t_k_B_S_def\<close>)
    then show "esize (fst (dups2_n (Suc n) T (etype e) e)) \<le> esize e"
      using small_refill by (auto simp: t_k_B_S_def split: prod.splits)
  qed
qed (simp add: shrinks_def)


text \<open>The bound on the nesting is never reached.\<close>

lemma dups1_n_enough:
  "and_or e \<Longrightarrow> esize e \<le> n \<Longrightarrow> esize e \<le> m \<Longrightarrow> dups1_n n T (etype e) e = dups1_n m T (etype e) e"
proof (induction n arbitrary: m e)
  case 0
  then show ?case using esize_pos [of e] by simp
next
  case (Suc n)
  obtain q where m: "m = Suc q" using Suc.prems(3) esize_pos [of e] by (cases m) auto
  define t k B S where "t = etype e" "k = length (leaves t e)" "B = esize e - 1" "S = sum_list (map esize (leaves t e))"
  obtain a b where ab: "parts t e = Some (a, b)" using and_or_partsD [OF Suc.prems(1)] t_k_B_S_def(1) by auto
  have st: "small k B S (leaves t e, 0)"
    using leaves_smaller [OF _ ab] by (fastforce simp: small_def t_k_B_S_def)
  have agree: "inner (dups1_n n T) l = inner (dups1_n q T) l" if "esize l \<le> B" for l
    using Suc.IH [of l q] Suc.prems that m esize_pos [of e] by (auto simp: inner_def t_k_B_S_def)
  have "dups1_pair (dups1_n n T) T t s ij = dups1_pair (dups1_n q T) T t s ij"
    if "small k B S s" "ij \<in> set (index_pairs k)" for s ij
  proof -
    obtain ls c i j where s: "s = (ls, c)" "ij = (i, j)" by fastforce
    have "esize (ls ! i) \<le> B" using that s index_pairs_bound [of i j k] by (simp add: small_def)
    then show ?thesis using agree [of "ls ! i"] s unfolding inner_def by (auto simp: dups1_pair_def)
  qed
  then have "foldl (dups1_pair (dups1_n n T) T t) (leaves t e, 0) (index_pairs k) =
      foldl (dups1_pair (dups1_n q T) T t) (leaves t e, 0) (index_pairs k)"
    by (intro foldl_same [of "small k B S"]) (use st dups1_pair_small [OF dups1_n_shrinks] index_pairs_bound in auto)
  then show ?case by (simp add: m t_k_B_S_def)
qed

lemma dups2_n_enough:
  "and_or e \<Longrightarrow> esize e \<le> n \<Longrightarrow> esize e \<le> m \<Longrightarrow> dups2_n n T (etype e) e = dups2_n m T (etype e) e"
proof (induction n arbitrary: m e)
  case 0
  then show ?case using esize_pos [of e] by simp
next
  case (Suc n)
  obtain q where m: "m = Suc q" using Suc.prems(3) esize_pos [of e] by (cases m) auto
  define t k B S where "t = etype e" "k = length (leaves t e)" "B = esize e - 1" "S = sum_list (map esize (leaves t e))"
  obtain a b where ab: "parts t e = Some (a, b)" using and_or_partsD [OF Suc.prems(1)] t_k_B_S_def(1) by auto
  have st: "small k B S (leaves t e, 0)"
    using leaves_smaller [OF _ ab] by (fastforce simp: small_def t_k_B_S_def)
  have agree: "dups2_n n T (etype l) l = dups2_n q T (etype l) l" if "esize l \<le> B" "and_or l" for l
    using Suc.IH [of l q] Suc.prems that m esize_pos [of e] by (auto simp: t_k_B_S_def)
  have "dups2_pair (dups2_n n T) T t s nd = dups2_pair (dups2_n q T) T t s nd"
    if "small k B S s" "nd \<in> set (index_nodes t e)" for s nd
  proof -
    obtain ls c i h sh where s: "s = (ls, c)" "nd = (i, h, sh)" by (metis surj_pair)
    have "esize (ls ! i) \<le> B" using that s index_nodes_bound [of i "(h, sh)" t e] by (simp add: small_def t_k_B_S_def)
    then show ?thesis using agree [of "ls ! i"] s by (auto simp: dups2_pair_def)
  qed
  then have "foldl (dups2_pair (dups2_n n T) T t) (leaves t e, 0) (index_nodes t e) =
      foldl (dups2_pair (dups2_n q T) T t) (leaves t e, 0) (index_nodes t e)"
    by (intro foldl_same [of "small k B S"])
      (use st dups2_pair_small [OF dups2_n_shrinks] index_nodes_bound in \<open>auto simp: t_k_B_S_def\<close>)
  then show ?case by (simp add: m t_k_B_S_def)
qed

section \<open>A pass that counts leaves a constant operand behind\<close>

definition yn_const :: "expr \<Rightarrow> bool" where
  "yn_const e \<longleftrightarrow> e = E_SYMBOL SymYes \<or> e = E_SYMBOL SymNo"

fun has_yn :: "expr \<Rightarrow> bool" where
  "has_yn (E_AND l r) \<longleftrightarrow> yn_const l \<or> yn_const r \<or> has_yn l \<or> has_yn r"
| "has_yn (E_OR l r) \<longleftrightarrow> yn_const l \<or> yn_const r \<or> has_yn l \<or> has_yn r"
| "has_yn _ \<longleftrightarrow> False"

definition hyn :: "expr \<Rightarrow> bool" where
  "hyn e \<longleftrightarrow> yn_const e \<or> has_yn e"

lemma hyn_node: "hyn (node t l r) \<longleftrightarrow> hyn l \<or> hyn r"
  by (auto simp: hyn_def node_def yn_const_def)

lemma hyn_unit [simp]: "hyn (unit_expr t)" "hyn (E_SYMBOL SymYes)" "hyn (E_SYMBOL SymNo)"
  by (simp_all add: hyn_def yn_const_def unit_expr_def)

lemma and_yn_size: "esize (and_yn l r) \<le> esize l + esize r + 1"
    "yn_const l \<or> yn_const r \<Longrightarrow> esize (and_yn l r) < esize l + esize r + 1"
  and or_yn_size: "esize (or_yn l r) \<le> esize l + esize r + 1"
    "yn_const l \<or> yn_const r \<Longrightarrow> esize (or_yn l r) < esize l + esize r + 1"
  by (auto simp: and_yn.simps or_yn.simps yn_const_def)

lemma yn_const_yn: "yn_const e \<Longrightarrow> yn_const (expr_eliminate_yn e)"
  by (auto simp: yn_const_def)

lemma eliminate_yn_size: "esize (expr_eliminate_yn e) \<le> esize e"
proof (induction e rule: expr_eliminate_yn.induct)
  case (1 l r)
  then show ?case using and_yn_size(1) [of "expr_eliminate_yn l" "expr_eliminate_yn r"] by simp
next
  case (2 l r)
  then show ?case using or_yn_size(1) [of "expr_eliminate_yn l" "expr_eliminate_yn r"] by simp
qed auto

lemma has_yn_shrinks: "has_yn e \<Longrightarrow> esize (expr_eliminate_yn e) < esize e"
proof (induction e rule: expr_eliminate_yn.induct)
  case (1 l r)
  note s = eliminate_yn_size [of l] eliminate_yn_size [of r]
  show ?case
    using 1 and_yn_size [of "expr_eliminate_yn l" "expr_eliminate_yn r"] s yn_const_yn [of l] yn_const_yn [of r]
    by (simp, linarith)
next
  case (2 l r)
  note s = eliminate_yn_size [of l] eliminate_yn_size [of r]
  show ?case
    using 2 or_yn_size [of "expr_eliminate_yn l" "expr_eliminate_yn r"] s yn_const_yn [of l] yn_const_yn [of r]
    by (simp, linarith)
qed auto

lemma ex_less_add: "(\<exists>k < n + m. P k) \<longleftrightarrow> (\<exists>k < n. P k) \<or> (\<exists>k < m. P (n + k))" for n m :: nat
proof
  assume "\<exists>k < n + m. P k"
  then obtain k where k: "k < n + m" "P k" by blast
  then have "k < n \<or> k - n < m \<and> n + (k - n) = k" by linarith
  then show "(\<exists>k < n. P k) \<or> (\<exists>k < m. P (n + k))" using k by metis
qed (auto intro: trans_less_add1 exI [of _ "n + _"])

lemma hyn_refill:
  "length (leaves t e) \<le> length ls \<Longrightarrow> hyn (refill t e ls) \<longleftrightarrow> (\<exists>k < length (leaves t e). hyn (ls ! k))"
proof (induction e arbitrary: ls rule: spine_induct [of t])
  case (leaf e)
  then show ?case by (cases ls) auto
next
  case (node e l r)
  define n where "n = length (leaves t l)"
  have "hyn (refill t l ls) \<longleftrightarrow> (\<exists>k < n. hyn (ls ! k))"
    using node.IH(1) [of ls] node.prems node.hyps by (simp add: n_def)
  moreover have "hyn (refill t r (drop n ls)) \<longleftrightarrow> (\<exists>k < length (leaves t r). hyn (ls ! (n + k)))"
    using node.IH(2) [of "drop n ls"] node.prems node.hyps by (simp add: n_def)
  moreover have "(\<exists>k < n + length (leaves t r). hyn (ls ! k)) \<longleftrightarrow>
      (\<exists>k < n. hyn (ls ! k)) \<or> (\<exists>k < length (leaves t r). hyn (ls ! (n + k)))"
    by (rule ex_less_add)
  ultimately show ?case using node.hyps by (simp add: hyn_node n_def)
qed

definition counts_yn :: "(expr_type \<Rightarrow> expr \<Rightarrow> expr \<times> nat) \<Rightarrow> bool" where
  "counts_yn rec \<longleftrightarrow> (\<forall>e. and_or e \<longrightarrow> hyn e \<or> 0 < snd (rec (etype e) e) \<longrightarrow> hyn (fst (rec (etype e) e)))"

lemma counts_ynD: "counts_yn rec \<Longrightarrow> and_or e \<Longrightarrow> rec (etype e) e = (x, c) \<Longrightarrow> hyn e \<or> 0 < c \<Longrightarrow> hyn x"
  unfolding counts_yn_def by (metis fst_conv snd_conv)

definition marked :: "nat \<Rightarrow> bool \<Rightarrow> expr list \<times> nat \<Rightarrow> bool" where
  "marked k h st \<longleftrightarrow> length (fst st) = k \<and> (h \<or> 0 < snd st \<longrightarrow> (\<exists>i < k. hyn (fst st ! i)))"

lemma marked_set: "length ls = k \<Longrightarrow> i < k \<Longrightarrow> hyn e \<Longrightarrow> marked k h (ls[i := e], c)"
  by (auto simp: marked_def)

lemma marked_keep:
  assumes "marked k h (ls, c)" "i < k" "hyn (ls ! i) \<or> 0 < c1 \<longrightarrow> hyn e1"
  shows "marked k h (ls[i := e1], c + c1)"
proof (cases "hyn e1")
  case True
  then show ?thesis using assms by (intro marked_set) (auto simp: marked_def)
next
  case False
  then have "\<not> hyn (ls ! i)" "c1 = 0" using assms(3) by auto
  then show ?thesis using assms(1) unfolding marked_def
    by (metis add_0_right fst_conv length_list_update nth_list_update_neq snd_conv)
qed

lemma inner_counts: "counts_yn rec \<Longrightarrow> inner rec e = (e1, c1) \<Longrightarrow> hyn e \<or> 0 < c1 \<longrightarrow> hyn e1"
  using counts_ynD [of rec e e1 c1] by (auto simp: inner_def split: if_splits)

lemma dups1_pair_marked:
  assumes "counts_yn rec" "marked k h st" "fst ij < k" "snd ij < k"
  shows "marked k h (dups1_pair rec T t st ij)"
proof -
  obtain ls c i j where st: "st = (ls, c)" "ij = (i, j)" by fastforce
  have l: "length ls = k" using assms(2) st by (simp add: marked_def)
  obtain ls' c' where r: "dups1_pair rec T t (ls, c) (i, j) = (ls', c')" by fastforce
  from r show ?thesis
  proof (cases rule: dups1_pair_cases)
    case same
    then show ?thesis using assms(2) st r by simp
  next
    case (kept e1 c1)
    then show ?thesis using marked_keep [of k h ls c i c1 e1] inner_counts [OF assms(1) kept(2)] assms st r by simp
  next
    case (joined e1 c1 tmp)
    have "marked k h ((ls[j := tmp])[i := unit_expr t], c')" by (rule marked_set) (use l assms(3) st in auto)
    then show ?thesis using st r joined by (simp add: list_update_swap)
  qed
qed

lemma dups2_pair_marked:
  assumes "counts_yn rec" "marked k h st" "fst nd < k"
  shows "marked k h (dups2_pair rec T t st nd)"
proof -
  obtain ls c i n sh where st: "st = (ls, c)" "nd = (i, n, sh)" by (metis surj_pair)
  have l: "length ls = k" using assms(2) st by (simp add: marked_def)
  obtain ls' c' where r: "dups2_pair rec T t (ls, c) (i, n, sh) = (ls', c')" by fastforce
  from r show ?thesis
  proof (cases rule: dups2_pair_cases)
    case same
    then show ?thesis using assms(2) st r by simp
  next
    case (kept e1 c1)
    then have "hyn (ls ! i) \<or> 0 < c1 \<longrightarrow> hyn e1" using counts_ynD [OF assms(1)] by blast
    then show ?thesis using marked_keep [of k h ls c i c1 e1] assms st r kept by simp
  next
    case (cancelled e1 c1)
    then show ?thesis using marked_set [of ls k i] l assms st r by simp
  qed
qed

lemma marked_leaves: "marked (length (leaves t e)) (hyn e) (leaves t e, 0)"
  using hyn_refill [of t e "leaves t e"] refill_same [of t e "[]"] by (simp add: marked_def)

lemma marked_refill: "marked (length (leaves t e)) h (ls, c) \<Longrightarrow> h \<or> 0 < c \<Longrightarrow> hyn (refill t e ls)"
  using hyn_refill [of t e ls] by (simp add: marked_def)

lemma dups1_n_counts: "counts_yn (dups1_n n T)"
proof (induction n)
  case (Suc n)
  have m: "marked (length (leaves t e)) (hyn e)
      (foldl (dups1_pair (dups1_n n T) T t) (leaves t e, 0) (index_pairs (length (leaves t e))))" for t e
    by (rule foldl_invariant) (use marked_leaves dups1_pair_marked [OF Suc] index_pairs_bound in auto)
  show ?case unfolding counts_yn_def
  proof (intro allI impI)
    fix e assume h: "hyn e \<or> 0 < snd (dups1_n (Suc n) T (etype e) e)"
    obtain ls c where f: "foldl (dups1_pair (dups1_n n T) T (etype e)) (leaves (etype e) e, 0) (index_pairs (length (leaves (etype e) e))) = (ls, c)"
      by fastforce
    show "hyn (fst (dups1_n (Suc n) T (etype e) e))"
      using m [of "etype e" e] marked_refill [of "etype e" e "hyn e" ls c] h f by simp
  qed
qed (simp add: counts_yn_def)

lemma dups2_n_counts: "counts_yn (dups2_n n T)"
proof (induction n)
  case (Suc n)
  have m: "marked (length (leaves t e)) (hyn e)
      (foldl (dups2_pair (dups2_n n T) T t) (leaves t e, 0) (index_nodes t e))" for t e
    by (rule foldl_invariant) (use marked_leaves dups2_pair_marked [OF Suc] index_nodes_bound in auto)
  show ?case unfolding counts_yn_def
  proof (intro allI impI)
    fix e assume h: "hyn e \<or> 0 < snd (dups2_n (Suc n) T (etype e) e)"
    obtain ls c where f: "foldl (dups2_pair (dups2_n n T) T (etype e)) (leaves (etype e) e, 0) (index_nodes (etype e) e) = (ls, c)"
      by fastforce
    show "hyn (fst (dups2_n (Suc n) T (etype e) e))"
      using m [of "etype e" e] marked_refill [of "etype e" e "hyn e" ls c] h f by simp
  qed
qed (simp add: counts_yn_def)

lemma dups1_root: "and_or e \<Longrightarrow> etype (fst (expr_eliminate_dups1 T (etype e) e)) = etype e"
proof -
  assume a: "and_or e"
  have "parts (etype e) (refill (etype e) e ls) \<noteq> None" for ls using refill_root a and_or_parts by blast
  then have "etype (refill (etype e) e ls) = etype e" for ls using parts_not_None_etype by blast
  then show ?thesis using esize_pos [of e] unfolding expr_eliminate_dups1_def
    by (cases "esize e") (auto split: prod.splits)
qed

text \<open>A round that changed something leaves an expression that \<open>expr_eliminate_yn\<close> shrinks.\<close>

lemma dups_round_shrinks:
  assumes "dups_round T e = (e', c)" and "c \<noteq> 0"
  shows "esize (expr_eliminate_yn e') < esize e"
proof -
  have a: "and_or e" using assms by (auto simp: dups_round_def split: if_splits)
  obtain x c1 where x: "expr_eliminate_dups1 T (etype e) e = (x, c1)" by fastforce
  obtain y c2 where y: "expr_eliminate_dups2 T (etype e) x = (y, c2)" by fastforce
  have e': "e' = y" "c = c1 + c2" using assms(1) a x y by (auto simp: dups_round_def)
  have tx: "etype x = etype e" using dups1_root [OF a] x by (metis fst_conv)
  then have ax: "and_or x" using a by (simp add: and_or_def)
  have x': "dups1_n (esize e) T (etype e) e = (x, c1)" using x by (simp add: expr_eliminate_dups1_def)
  have y': "dups2_n (esize x) T (etype x) x = (y, c2)" using y tx by (simp add: expr_eliminate_dups2_def)
  have "0 < c1 \<Longrightarrow> hyn x" using counts_ynD [OF dups1_n_counts a x'] by blast
  then have "hyn y" using counts_ynD [OF dups2_n_counts ax y'] e'(2) assms(2) by blast
  moreover have "esize y \<le> esize e"
    using shrinksD [OF dups1_n_shrinks a x'] shrinksD [OF dups2_n_shrinks ax y'] by simp
  moreover have "2 \<le> esize e" using a by (cases e) (auto simp: and_or_def trans_le_add1)
  ultimately show ?thesis using has_yn_shrinks [of y] e'(1) by (auto simp: hyn_def yn_const_def)
qed

text \<open>\<open>expr_eliminate_dups\<close>, the loop over the rounds.\<close>

function expr_eliminate_dups :: "symtab \<Rightarrow> expr \<Rightarrow> expr" where
  "expr_eliminate_dups T e =
     (case dups_round T e of (e', c) \<Rightarrow>
        if c = 0 then e' else expr_eliminate_dups T (expr_eliminate_yn e'))"
  by pat_completeness auto
termination
  by (relation "measure (\<lambda>(T, e). esize e)") (auto intro: dups_round_shrinks [OF sym])

declare expr_eliminate_dups.simps [simp del]

section \<open>The reason of an unmet dependency\<close>

text \<open>
  \<open>expr_get_leftmost_symbol\<close> follows \<open>left.expr\<close> down to a symbol. Below a comparison \<open>left\<close> is a
  symbol, not an expression: the read is undefined behaviour, \<open>None\<close>.
\<close>

fun leftmost_symbol :: "expr \<Rightarrow> expr option" where
  "leftmost_symbol (E_SYMBOL s) = Some (E_SYMBOL s)"
| "leftmost_symbol (E_NOT e) = leftmost_symbol e"
| "leftmost_symbol (E_AND l r) = leftmost_symbol l"
| "leftmost_symbol (E_OR l r) = leftmost_symbol l"
| "leftmost_symbol _ = None"

text \<open>\<open>Some None\<close> is a returned \<open>NULL\<close>.\<close>

fun expr_simplify_unmet_dep :: "symtab \<Rightarrow> expr \<Rightarrow> expr option \<Rightarrow> expr option option" where
  "expr_simplify_unmet_dep T (E_OR l r) e2 =
     (case (expr_simplify_unmet_dep T l e2, expr_simplify_unmet_dep T r e2) of
        (Some a, Some b) \<Rightarrow> Some (expr_alloc_and a b)
      | _ \<Rightarrow> None)"
| "expr_simplify_unmet_dep T (E_AND l r) e2 =
     (case expr_alloc_and (Some (E_AND l r)) e2 of
        None \<Rightarrow> None
      | Some e \<Rightarrow>
          if \<not> expr_eq (expr_eliminate_dups T e) (E_AND l r)
          then map_option Some (leftmost_symbol (E_AND l r)) else Some None)"
| "expr_simplify_unmet_dep T e1 e2 = map_option Some (leftmost_symbol e1)"

end
