(* ===== verification/KValue.thy ===== *)
theory KValue
  imports KExpr
begin

text \<open>
  What the rewriting of \<open>expr.c\<close> means: the value of an expression under the values of the symbols.
  The locale is the contract between \<open>expr.c\<close> and \<open>symbol.c\<close>: what \<open>expr.c\<close> relies on of the types,
  tristate values and strings of symbols. It is interpreted on the symbol table at the end.
\<close>

section \<open>Bounds of values\<close>

lemma le_EXPR_AND [simp]: "c \<le> EXPR_AND a b \<longleftrightarrow> c \<le> a \<and> c \<le> b"
  by (simp add: tri_min_max)

lemma EXPR_OR_le [simp]: "EXPR_OR a b \<le> c \<longleftrightarrow> a \<le> c \<and> b \<le> c"
  by (simp add: tri_min_max)

lemma TNo_le [simp]: "TNo \<le> c" and le_TYes [simp]: "c \<le> TYes"
  by (cases c; simp add: tri_order)+

lemma le_TNo [simp]: "c \<le> TNo \<longleftrightarrow> c = TNo" and TYes_le [simp]: "TYes \<le> c \<longleftrightarrow> c = TYes"
  by (cases c; simp add: tri_order)+

text \<open>A value seen from the side of one operator: lower bounds of a conjunction, upper bounds of a
  disjunction.\<close>

definition bounds :: "expr_type \<Rightarrow> tristate \<Rightarrow> tristate \<Rightarrow> bool" where
  "bounds t c x \<longleftrightarrow> (if t = T_OR then x \<le> c else c \<le> x)"

lemma bounds_eqI: "(\<And>c. bounds t c x = bounds t c y) \<Longrightarrow> x = y"
  unfolding bounds_def by (metis order.antisym order.refl)

definition opv :: "expr_type \<Rightarrow> tristate \<Rightarrow> tristate \<Rightarrow> tristate" where
  "opv t = (if t = T_OR then EXPR_OR else EXPR_AND)"

lemma bounds_opv [simp]: "bounds t c (opv t a b) \<longleftrightarrow> bounds t c a \<and> bounds t c b"
  by (simp add: bounds_def opv_def)

lemma value_node [simp]:
  "expr_value tri str (node t l r) = opv t (expr_value tri str l) (expr_value tri str r)"
  by (simp add: node_def opv_def)

lemma opv_assoc: "opv t (opv t a b) c = opv t a (opv t b c)"
  and opv_commute: "opv t a b = opv t b a"
  and opv_left_commute: "opv t a (opv t b c) = opv t b (opv t a c)"
  by (rule bounds_eqI [of t]; auto)+

lemmas opv_ac = opv_assoc opv_commute opv_left_commute

lemma value_compare_cases: "(if P then TYes else TNo) = TMod \<longleftrightarrow> False" "(if P then TNo else TYes) = TMod \<longleftrightarrow> False"
  by auto

section \<open>Expressions over bool and tristate symbols\<close>

text \<open>Every operand is a bool or tristate symbol or a comparison; no symbol has the value \<open>m\<close>.\<close>

fun logical_expr :: "symtab \<Rightarrow> expr \<Rightarrow> bool" where
  "logical_expr T (E_SYMBOL s) \<longleftrightarrow> s_type (T s) = S_BOOLEAN \<or> s_type (T s) = S_TRISTATE"
| "logical_expr T (E_NOT e) \<longleftrightarrow> logical_expr T e"
| "logical_expr T (E_AND l r) \<longleftrightarrow> logical_expr T l \<and> logical_expr T r"
| "logical_expr T (E_OR l r) \<longleftrightarrow> logical_expr T l \<and> logical_expr T r"
| "logical_expr T _ \<longleftrightarrow> True"

fun two_valued :: "(sref \<Rightarrow> tristate) \<Rightarrow> expr \<Rightarrow> bool" where
  "two_valued tri (E_SYMBOL s) \<longleftrightarrow> tri s \<noteq> TMod"
| "two_valued tri (E_NOT e) \<longleftrightarrow> two_valued tri e"
| "two_valued tri (E_AND l r) \<longleftrightarrow> two_valued tri l \<and> two_valued tri r"
| "two_valued tri (E_OR l r) \<longleftrightarrow> two_valued tri l \<and> two_valued tri r"
| "two_valued tri _ \<longleftrightarrow> True"

lemma two_valued_value: "two_valued tri e \<Longrightarrow> expr_value tri str e \<noteq> TMod"
proof (induction e)
  case (E_OR l r)
  then show ?case by (cases "expr_value tri str l"; cases "expr_value tri str r") auto
next
  case (E_AND l r)
  then show ?case by (cases "expr_value tri str l"; cases "expr_value tri str r") auto
next
  case (E_NOT e)
  then show ?case by (cases "expr_value tri str e") auto
qed auto

section \<open>The contract of symbol values\<close>

definition tri_name :: "tristate \<Rightarrow> string" where
  "tri_name v = (case v of TNo \<Rightarrow> ''n'' | TMod \<Rightarrow> ''m'' | TYes \<Rightarrow> ''y'')"

lemma tri_name_inj [simp]: "tri_name a = tri_name b \<longleftrightarrow> a = b"
  by (cases a; cases b) (auto simp: tri_name_def)

locale symbol_values =
  fixes tab :: "'st \<Rightarrow> symtab"
    and tri :: "'st \<Rightarrow> sref \<Rightarrow> tristate"
    and str :: "'st \<Rightarrow> sref \<Rightarrow> string"
    and settled :: "'st \<Rightarrow> bool"
  assumes constants: "settled w \<Longrightarrow> tri w SymYes = TYes \<and> tri w SymMod = TMod \<and> tri w SymNo = TNo"
    and constant_names: "settled w \<Longrightarrow> str w SymYes = ''y'' \<and> str w SymMod = ''m'' \<and> str w SymNo = ''n''"
    and boolean: "settled w \<Longrightarrow> s_type (tab w s) = S_BOOLEAN \<Longrightarrow> tri w s \<noteq> TMod"
    and logical: "settled w \<Longrightarrow> s_type (tab w s) = S_BOOLEAN \<or> s_type (tab w s) = S_TRISTATE \<Longrightarrow>
          str w s = tri_name (tri w s)"
    and const_distinct: "settled w \<Longrightarrow> has_flag SYMBOL_CONST (tab w a) \<Longrightarrow> has_flag SYMBOL_CONST (tab w b) \<Longrightarrow>
          a \<noteq> b \<Longrightarrow> str w a \<noteq> str w b"
begin

abbreviation val :: "'st \<Rightarrow> expr \<Rightarrow> tristate" where
  "val w \<equiv> expr_value (tri w) (str w)"

lemma const_simps:
  assumes "settled w"
  shows "tri w SymYes = TYes" "tri w SymMod = TMod" "tri w SymNo = TNo"
    "str w SymYes = tri_name TYes" "str w SymMod = tri_name TMod" "str w SymNo = tri_name TNo"
  using constants [OF assms] constant_names [OF assms] by (simp_all add: tri_name_def)

lemma val_unit: "settled w \<Longrightarrow> bounds t c (val w (unit_expr t))"
  by (simp add: unit_expr_def bounds_def const_simps)

lemma opv_unit: "settled w \<Longrightarrow> opv t (val w (unit_expr t)) x = x"
  by (rule bounds_eqI [of t]) (simp add: val_unit)

lemma opv_unit2: "settled w \<Longrightarrow> opv t x (val w (unit_expr t)) = x"
  by (rule bounds_eqI [of t]) (simp add: val_unit)

lemma eliminate_yn_value: "settled w \<Longrightarrow> val w (expr_eliminate_yn e) = val w e"
proof (induction e rule: expr_eliminate_yn.induct)
  case (1 l r)
  then have "val w (and_yn (expr_eliminate_yn l) (expr_eliminate_yn r)) = EXPR_AND (val w l) (val w r)"
    by (auto simp: and_yn.simps const_simps dest: sym)
  then show ?case by simp
next
  case (2 l r)
  then have "val w (or_yn (expr_eliminate_yn l) (expr_eliminate_yn r)) = EXPR_OR (val w l) (val w r)"
    by (auto simp: or_yn.simps const_simps dest: sym)
  then show ?case by simp
qed auto

lemma transform_compare_value:
  assumes "settled w"
  shows "val w (transform_EQUAL (tab w) a b) = val w (E_EQUAL a b)"
    and "val w (transform_UNEQUAL (tab w) a b) = val w (E_UNEQUAL a b)"
proof -
  have "s_type (tab w a) = S_BOOLEAN \<Longrightarrow> tri w a = TYes \<or> tri w a = TNo"
    using boolean [OF assms] by (cases "tri w a") auto
  then show "val w (transform_EQUAL (tab w) a b) = val w (E_EQUAL a b)"
    "val w (transform_UNEQUAL (tab w) a b) = val w (E_UNEQUAL a b)"
    using logical [OF assms, of a]
    by (auto simp: transform_EQUAL_def transform_UNEQUAL_def const_simps [OF assms])
qed

lemma transform_value: "settled w \<Longrightarrow> val w (expr_transform (tab w) e) = val w e"
proof (induction "tab w" e rule: expr_transform.induct)
  case (6 e)
  have IH: "val w (expr_transform (tab w) e) = val w e" using 6 by simp
  show ?case
  proof (cases "expr_transform (tab w) e")
    case (E_SYMBOL s)
    then show ?thesis using IH const_simps [OF "6.prems"] by (cases s) (auto dest: sym)
  qed (use IH 6 in \<open>auto simp: tri_de_morgan dest: sym\<close>)
qed (simp_all add: transform_compare_value)

text \<open>Removing common operands takes the same factor from both sides.\<close>

lemma elim_value:
  assumes "settled w" and sound: "\<And>x y. eq x y \<Longrightarrow> val w x = val w y"
    and "eliminate_eq_rec eq t e1 e2 = (a, b)"
  shows "\<exists>c. val w e1 = opv t c (val w a) \<and> val w e2 = opv t c (val w b)"
  using assms(3)
proof (induction rule: elim_induct)
  case (left e1 e2 l r l' x r' y)
  then obtain c1 c2 where c: "val w l = opv t c1 (val w l')" "val w e2 = opv t c1 (val w x)"
      "val w r = opv t c2 (val w r')" "val w x = opv t c2 (val w y)" by blast
  have "val w e1 = opv t (opv t c1 c2) (val w (node t l' r'))"
    using parts_Some [OF left(1)] c by (simp add: opv_ac)
  moreover have "val w e2 = opv t (opv t c1 c2) (val w y)" using c by (simp add: opv_ac)
  ultimately show ?case by blast
next
  case (right e1 e2 l r x l' y r')
  then obtain c1 c2 where c: "val w e1 = opv t c1 (val w x)" "val w l = opv t c1 (val w l')"
      "val w x = opv t c2 (val w y)" "val w r = opv t c2 (val w r')" by blast
  have "val w e2 = opv t (opv t c1 c2) (val w (node t l' r'))"
    using parts_Some [OF right(2)] c by (simp add: opv_ac)
  moreover have "val w e1 = opv t (opv t c1 c2) (val w y)" using c by (simp add: opv_ac)
  ultimately show ?case by blast
next
  case (leaf e1 e2)
  have "val w e1 = opv t (val w e1) (val w (unit_expr t))" "val w e2 = opv t (val w (unit_expr t)) (val w e2)"
    "val w e1 = opv t (val w (unit_expr t)) (val w e1)"
    using opv_unit [OF assms(1)] opv_commute by metis+
  then show ?case using sound by metis
qed

lemma eliminate_eq_value:
  assumes "settled w" and sound: "\<And>x y. eq x y \<Longrightarrow> val w x = val w y"
    and e: "eliminate_eq eq e1 e2 = (a, b)" and "val w a = val w b"
  shows "val w e1 = val w e2"
proof -
  obtain x y where xy: "(if and_or e1 then eliminate_eq_rec eq (etype e1) e1 e2 else (e1, e2)) = (x, y)"
    by fastforce
  obtain p q where pq: "(if etype x \<noteq> etype y \<and> and_or y then eliminate_eq_rec eq (etype y) x y else (x, y)) = (p, q)"
    by fastforce
  have "a = expr_eliminate_yn p" "b = expr_eliminate_yn q"
    using e xy pq by (simp_all add: eliminate_eq_def)
  then have "val w p = val w q" using assms(4) eliminate_yn_value [OF assms(1)] by simp
  then have "val w x = val w y" using pq elim_value [OF assms(1) sound] by (metis fst_conv snd_conv)
  then show ?thesis using xy elim_value [OF assms(1) sound] by (metis fst_conv snd_conv)
qed

lemma same_symbol_val: "same_symbol x y \<Longrightarrow> val w x = val w y"
  by (simp add: same_symbol_def)

lemma expr_eq_n_value: "settled w \<Longrightarrow> expr_eq_n n e1 e2 \<Longrightarrow> val w e1 = val w e2"
proof (induction n arbitrary: e1 e2)
  case (Suc n)
  have S: "\<And>x y. expr_eq_n n x y \<Longrightarrow> val w x = val w y" using Suc by blast
  have E: "val w e1 = val w e2" if "eliminate_eq (expr_eq_n n) e1 e2 = (x, y)" "same_symbol x y" for x y
    using eliminate_eq_value [OF Suc.prems(1) S that(1) same_symbol_val [OF that(2)]] .
  show ?case
    using Suc.prems S E
    by (cases "(Suc n, e1, e2)" rule: expr_eq_n.cases) (auto split: prod.splits)
qed simp

lemma expr_eq_value: "settled w \<Longrightarrow> expr_eq e1 e2 \<Longrightarrow> val w e1 = val w e2"
  unfolding expr_eq_def by (rule expr_eq_n_value)

text \<open>Joining two operands.\<close>

lemma join_or_eqs_Some:
  "join_or_eqs T s u y = Some x \<Longrightarrow>
     both u y SymYes SymMod \<and> x = E_UNEQUAL s SymNo \<or> both u y SymYes SymNo \<and> x = E_UNEQUAL s SymMod \<or>
     both u y SymMod SymNo \<and> x = E_UNEQUAL s SymYes"
  by (simp add: join_or_eqs_def split: if_splits)

lemma join_uneqs_Some:
  "join_uneqs T s u y = Some x \<Longrightarrow>
     both u y SymYes SymNo \<and> x = E_EQUAL s SymMod \<or> both u y SymYes SymMod \<and> x = E_EQUAL s SymNo \<or>
     both u y SymMod SymNo \<and> x = E_EQUAL s SymYes"
  by (simp add: join_uneqs_def split: if_splits)

lemma joinable_SomeD:
  assumes "joinable T e1 e2 = Some s"
  shows "join_sym1 e1 = Some s" "join_sym2 e2 = Some s" "s_type (T s) = S_BOOLEAN \<or> s_type (T s) = S_TRISTATE"
  using assms by (auto simp: joinable_def split: option.splits if_splits)

lemma join_or_value:
  assumes "settled w" and "expr_join_or (tab w) e1 e2 = Some e"
  shows "val w e = EXPR_OR (val w e1) (val w e2)"
proof (cases "expr_eq e1 e2")
  case True
  then show ?thesis using assms expr_eq_value [OF assms(1) True] by (simp add: expr_join_or_def)
next
  case False
  then obtain s where j: "joinable (tab w) e1 e2 = Some s" and r: "join_or_rule (tab w) s e1 e2 = Some e"
    using assms(2) by (auto simp: expr_join_or_def split: option.splits)
  note j' = joinable_SomeD [OF j]
  have v: "str w s = tri_name (tri w s)" using logical [OF assms(1) j'(3)] .
  have b: "s_type (tab w s) = S_BOOLEAN \<Longrightarrow> tri w s = TYes \<or> tri w s = TNo"
    using boolean [OF assms(1)] by (cases "tri w s") auto
  note c = const_simps [OF assms(1)]
  have eqs: "join_or_eqs (tab w) s u y = Some x \<Longrightarrow>
      val w x = EXPR_OR (val w (E_EQUAL s u)) (val w (E_EQUAL s y))" for x u y
    by (drule join_or_eqs_Some, unfold both_def, elim disjE conjE; cases "tri w s"; simp add: v c)
  show ?thesis
  proof (cases "\<exists>x y. e1 = E_EQUAL s x \<and> e2 = E_EQUAL s y")
    case True
    then show ?thesis using r eqs by (auto simp: join_or_rule_def)
  next
    case False
    then have "s_type (tab w s) = S_BOOLEAN" "e = E_SYMBOL SymYes"
        "e1 = E_NOT (E_SYMBOL s) \<and> e2 = E_SYMBOL s \<or> e1 = E_SYMBOL s \<and> e2 = E_NOT (E_SYMBOL s)"
      using r j'(1,2) by (cases e1; cases e2; auto simp: join_or_rule_def split: if_splits elim!: not_of_symbol.elims)+
    then show ?thesis using b by (auto simp: c)
  qed
qed

lemma join_and_value:
  assumes "settled w" and "expr_join_and (tab w) e1 e2 = Some e"
  shows "val w e = EXPR_AND (val w e1) (val w e2)"
proof (cases "expr_eq e1 e2")
  case True
  then show ?thesis using assms expr_eq_value [OF assms(1) True] by (simp add: expr_join_and_def)
next
  case False
  then obtain s where j: "joinable (tab w) e1 e2 = Some s" and r: "join_and_rule (tab w) s e1 e2 = Some e"
    using assms(2) by (auto simp: expr_join_and_def split: option.splits)
  note j' = joinable_SomeD [OF j]
  have v: "str w s = tri_name (tri w s)" using logical [OF assms(1) j'(3)] .
  note c = const_simps [OF assms(1)] and d = const_distinct [OF assms(1)]
  have "join_sym_eq s y = Some x \<Longrightarrow> val w x = EXPR_AND (tri w s) (val w (E_EQUAL s y))" for x y
    by (cases "tri w s") (auto simp: join_sym_eq_def v c split: if_splits)
  moreover have "join_sym_uneq s y = Some x \<Longrightarrow> val w x = EXPR_AND (tri w s) (val w (E_UNEQUAL s y))" for x y
    by (cases "tri w s") (auto simp: join_sym_uneq_def v c split: if_splits)
  moreover have "join_eq_uneq (tab w) s b u = Some x \<Longrightarrow>
      val w x = EXPR_AND (val w (E_EQUAL s b)) (val w (E_UNEQUAL s u))" for x b u
    using d [of u b] by (auto simp: join_eq_uneq_def c split: if_splits)
  moreover have "join_uneqs (tab w) s u y = Some x \<Longrightarrow>
      val w x = EXPR_AND (val w (E_UNEQUAL s u)) (val w (E_UNEQUAL s y))" for x u y
    by (drule join_uneqs_Some, unfold both_def, elim disjE conjE; cases "tri w s"; simp add: v c)
  ultimately have rules: "join_sym_eq s y = Some e \<Longrightarrow> val w e = EXPR_AND (tri w s) (val w (E_EQUAL s y))"
      "join_sym_uneq s y = Some e \<Longrightarrow> val w e = EXPR_AND (tri w s) (val w (E_UNEQUAL s y))"
      "join_eq_uneq (tab w) s y u = Some e \<Longrightarrow> val w e = EXPR_AND (val w (E_EQUAL s y)) (val w (E_UNEQUAL s u))"
      "join_uneqs (tab w) s u y = Some e \<Longrightarrow> val w e = EXPR_AND (val w (E_UNEQUAL s u)) (val w (E_UNEQUAL s y))"
    for u y by blast+
  note comm = tri_commute(1)
  show ?thesis
  proof (cases e1)
    case E1: (E_EQUAL a x)
    then show ?thesis using r j'(1,2) rules comm by (cases e2) (simp_all add: join_and_rule_def)
  next
    case E1: (E_UNEQUAL a x)
    then show ?thesis using r j'(1,2) rules comm by (cases e2) (simp_all add: join_and_rule_def)
  next
    case E1: (E_SYMBOL a)
    then show ?thesis using r j'(1,2) rules by (cases e2) (simp_all add: join_and_rule_def)
  qed (use r in \<open>simp_all add: join_and_rule_def\<close>)
qed

text \<open>Extracting common operands: both sides are the extracted part joined with what is left.\<close>

definition val_opt :: "'st \<Rightarrow> expr_type \<Rightarrow> expr option \<Rightarrow> tristate" where
  "val_opt w t ep = (case ep of None \<Rightarrow> val w (unit_expr t) | Some p \<Rightarrow> val w p)"

lemma extract_right_value:
  "settled w \<Longrightarrow> extract_right t ep e1 e2 = (ep', a, b) \<Longrightarrow>
     opv t (val_opt w t ep) (val w e1) = opv t (val_opt w t ep') (val w a) \<and>
     opv t (val_opt w t ep) (val w e2) = opv t (val_opt w t ep') (val w b)"
proof (induction t ep e1 e2 arbitrary: ep' a b rule: extract_right.induct)
  case (1 t ep e1 e2)
  show ?case
  proof (cases "parts t e2")
    case None
    show ?thesis
    proof (cases "expr_eq e1 e2")
      case True
      then show ?thesis
        using "1.prems" None expr_eq_value [OF "1.prems"(1) True] opv_unit [OF "1.prems"(1), of t] opv_unit2 [OF "1.prems"(1), of t]
        by (auto simp: extract_right.simps [of t ep e1 e2] val_opt_def split: option.splits)
    next
      case False
      then show ?thesis using "1.prems" None by (simp add: extract_right.simps [of t ep e1 e2])
    qed
  next
    case (Some lr)
    obtain l r where lr: "parts t e2 = Some (l, r)" using Some by (cases lr) auto
    obtain ep1 x l' where A: "extract_right t ep e1 l = (ep1, x, l')" by (metis prod_cases3)
    obtain ep2 y r' where B: "extract_right t ep1 x r = (ep2, y, r')" by (metis prod_cases3)
    have R: "ep' = ep2" "a = y" "b = node t l' r'"
      using "1.prems"(2) lr A B by (simp_all add: extract_right.simps [of t ep e1 e2])
    have IH1: "opv t (val_opt w t ep) (val w e1) = opv t (val_opt w t ep1) (val w x) \<and>
        opv t (val_opt w t ep) (val w l) = opv t (val_opt w t ep1) (val w l')"
      by (rule "1.IH"(1) [OF lr refl "1.prems"(1) A])
    have IH2: "opv t (val_opt w t ep1) (val w x) = opv t (val_opt w t ep2) (val w y) \<and>
        opv t (val_opt w t ep1) (val w r) = opv t (val_opt w t ep2) (val w r')"
      by (rule "1.IH"(2) [OF lr refl A [symmetric] refl "1.prems"(1) B])
    have "opv t (val_opt w t ep) (val w e2) = opv t (val_opt w t ep2) (val w (node t l' r'))"
      using parts_Some [OF lr] IH1 IH2 by (simp add: opv_assoc [symmetric]) (simp add: opv_ac)
    then show ?thesis using R IH1 IH2 by simp
  qed
qed

lemma extract_eq_value:
  "settled w \<Longrightarrow> expr_extract_eq t ep e1 e2 = (ep', a, b) \<Longrightarrow>
     opv t (val_opt w t ep) (val w e1) = opv t (val_opt w t ep') (val w a) \<and>
     opv t (val_opt w t ep) (val w e2) = opv t (val_opt w t ep') (val w b)"
proof (induction t ep e1 e2 arbitrary: ep' a b rule: expr_extract_eq.induct)
  case (1 t ep e1 e2)
  show ?case
  proof (cases "parts t e1")
    case None
    then show ?thesis using "1.prems" extract_right_value by (simp add: expr_extract_eq.simps [of t ep e1 e2])
  next
    case (Some lr)
    obtain l r where lr: "parts t e1 = Some (l, r)" using Some by (cases lr) auto
    obtain ep1 l' x where A: "expr_extract_eq t ep l e2 = (ep1, l', x)" by (metis prod_cases3)
    obtain ep2 r' y where B: "expr_extract_eq t ep1 r x = (ep2, r', y)" by (metis prod_cases3)
    have R: "ep' = ep2" "a = node t l' r'" "b = y"
      using "1.prems"(2) lr A B by (simp_all add: expr_extract_eq.simps [of t ep e1 e2])
    have IH1: "opv t (val_opt w t ep) (val w l) = opv t (val_opt w t ep1) (val w l') \<and>
        opv t (val_opt w t ep) (val w e2) = opv t (val_opt w t ep1) (val w x)"
      by (rule "1.IH"(1) [OF lr refl "1.prems"(1) A])
    have IH2: "opv t (val_opt w t ep1) (val w r) = opv t (val_opt w t ep2) (val w r') \<and>
        opv t (val_opt w t ep1) (val w x) = opv t (val_opt w t ep2) (val w y)"
      by (rule "1.IH"(2) [OF lr refl A [symmetric] refl "1.prems"(1) B])
    have "opv t (val_opt w t ep) (val w e1) = opv t (val_opt w t ep2) (val w (node t l' r'))"
      using parts_Some [OF lr] IH1 IH2 by (simp add: opv_assoc [symmetric]) (simp add: opv_ac)
    then show ?thesis using R IH1 IH2 by simp
  qed
qed

lemma extract_eq_yn_value:
  assumes "settled w" and "extract_eq_yn t e1 e2 = (p, a, b)"
  shows "val w e1 = opv t (val_opt w t p) (val w a) \<and> val w e2 = opv t (val_opt w t p) (val w b)"
proof -
  obtain a' b' where e: "expr_extract_eq t None e1 e2 = (p, a', b')"
    using assms(2) by (auto simp: extract_eq_yn_def split: prod.splits option.splits)
  have "val w a = val w a'" "val w b = val w b'"
    using assms e eliminate_yn_value by (auto simp: extract_eq_yn_def split: option.splits)
  then show ?thesis using extract_eq_value [OF assms(1) e] opv_unit [OF assms(1)] by (simp add: val_opt_def)
qed

text \<open>An expression that depends on a symbol is \<open>n\<close> whenever the symbol is.\<close>

lemma depends_value:
  assumes "settled w" "s_type (tab w s) = S_BOOLEAN \<or> s_type (tab w s) = S_TRISTATE" "tri w s = TNo"
  shows "depends_symbol e s \<Longrightarrow> val w e = TNo"
  using const_simps [OF assms(1)] logical [OF assms(1,2)] assms(3)
  by (induction e s rule: depends_symbol.induct) auto

text \<open>A comparison with \<open>y\<close> or \<open>n\<close> pushed into an expression without the value \<open>m\<close>.\<close>

lemma trans_compare_value:
  assumes "settled w" "logical_expr (tab w) e" "two_valued (tri w) e" "c = SymYes \<or> c = SymNo"
  shows "\<exists>x. trans_compare e ty c = Some x \<and>
     val w x = tri_of_bool ((val w e = tri w c) = (ty = T_EQUAL)) \<or> ty \<noteq> T_EQUAL \<and> ty \<noteq> T_UNEQUAL"
  using assms(2,3)
proof (induction e arbitrary: ty)
  case (E_OR l r)
  note nm = two_valued_value [of "tri w" l "str w"] two_valued_value [of "tri w" r "str w"]
  show ?case using E_OR.IH(1) [of T_EQUAL] E_OR.IH(2) [of T_EQUAL] E_OR.prems nm assms(4)
    by (cases "val w l"; cases "val w r")
      (auto simp: alloc_both_def not_if_uneq_def const_simps [OF assms(1)])
next
  case (E_AND l r)
  note nm = two_valued_value [of "tri w" l "str w"] two_valued_value [of "tri w" r "str w"]
  show ?case using E_AND.IH(1) [of T_EQUAL] E_AND.IH(2) [of T_EQUAL] E_AND.prems nm assms(4)
    by (cases "val w l"; cases "val w r")
      (auto simp: alloc_both_def not_if_uneq_def const_simps [OF assms(1)])
next
  case (E_NOT e)
  note nm = two_valued_value [of "tri w" e "str w"]
  show ?case using E_NOT.IH [of T_EQUAL] E_NOT.IH [of T_UNEQUAL] E_NOT.prems nm assms(4)
    by (cases "val w e") (auto simp: const_simps [OF assms(1)])
next
  case (E_SYMBOL s)
  then show ?case using logical [OF assms(1), of s] assms(4)
    by (auto simp: comp_expr_def const_simps [OF assms(1)] tri_of_bool_def)
qed (use assms(4) in \<open>auto simp: trans_compare_leaf_def const_simps [OF assms(1)] tri_of_bool_def\<close>)

end

end
