(* ===== verification/KDupsFacts.thy ===== *)
theory KDupsFacts
  imports KDups KValue
begin

text \<open>
  The elimination of duplicates keeps the value of an expression. The first pass does so for
  every value of the symbols; the second pass, which replaces \<open>(a || b) && (!a && !b)\<close> by \<open>n\<close>, only
  when no operand has the value \<open>m\<close>.
\<close>

lemma all_less_add: "(\<forall>k < n + m. P k) \<longleftrightarrow> (\<forall>k < n. P k) \<and> (\<forall>k < m. P (n + k))" for n m :: nat
  using ex_less_add [of n m "\<lambda>k. \<not> P k"] by auto

lemma two_valued_node: "two_valued tr (node t l r) \<longleftrightarrow> two_valued tr l \<and> two_valued tr r"
  by (simp add: node_def)

lemma two_valued_leaves: "two_valued tr e \<longleftrightarrow> (\<forall>l \<in> set (leaves t e). two_valued tr l)"
proof (induction e rule: spine_induct [of t])
  case (node e l r)
  then show ?case using parts_Some [OF node.hyps] by (auto simp: two_valued_node)
qed simp

lemma two_valued_refill:
  "length (leaves t e) \<le> length ls \<Longrightarrow> \<forall>l \<in> set ls. two_valued tr l \<Longrightarrow> two_valued tr (refill t e ls)"
proof (induction e arbitrary: ls rule: spine_induct [of t])
  case (leaf e)
  then show ?case by (cases ls) auto
next
  case (node e l r)
  have "\<forall>a \<in> set (drop (length (leaves t l)) ls). two_valued tr a" using node.prems(2) by (meson in_set_dropD)
  then show ?case using node.IH node.prems node.hyps by (simp add: two_valued_node)
qed

lemma update_all: "\<forall>l \<in> set ls. P l \<Longrightarrow> P e \<Longrightarrow> \<forall>l \<in> set (ls[i := e]). P l"
  using set_update_subset_insert [of ls i e] by blast

lemma dups1_n_root: "and_or e \<Longrightarrow> dups1_n n T (etype e) e = (x, c) \<Longrightarrow> etype x = etype e"
  and dups2_n_root: "and_or e \<Longrightarrow> dups2_n n T (etype e) e = (x, c) \<Longrightarrow> etype x = etype e"
proof -
  assume a: "and_or e"
  have "parts (etype e) (refill (etype e) e ls) \<noteq> None" for ls using refill_root a and_or_parts by blast
  then have r: "etype (refill (etype e) e ls) = etype e" for ls using parts_not_None_etype by blast
  show "dups1_n n T (etype e) e = (x, c) \<Longrightarrow> etype x = etype e"
    using r by (cases n) (auto split: prod.splits)
  show "dups2_n n T (etype e) e = (x, c) \<Longrightarrow> etype x = etype e"
    using r by (cases n) (auto split: prod.splits)
qed

context symbol_values
begin

lemma refill_bounds:
  "length (leaves t e) \<le> length ls \<Longrightarrow>
     bounds t c (val w (refill t e ls)) \<longleftrightarrow> (\<forall>k < length (leaves t e). bounds t c (val w (ls ! k)))"
proof (induction e arbitrary: ls rule: spine_induct [of t])
  case (leaf e)
  then show ?case by (cases ls) auto
next
  case (node e l r)
  define n where "n = length (leaves t l)"
  have "bounds t c (val w (refill t l ls)) \<longleftrightarrow> (\<forall>k < n. bounds t c (val w (ls ! k)))"
    using node.IH(1) [of ls] node.prems node.hyps by (simp add: n_def)
  moreover have "bounds t c (val w (refill t r (drop n ls))) \<longleftrightarrow>
      (\<forall>k < length (leaves t r). bounds t c (val w (ls ! (n + k))))"
    using node.IH(2) [of "drop n ls"] node.prems node.hyps by (simp add: n_def)
  ultimately show ?case using node.hyps by (simp add: n_def [symmetric] all_less_add)
qed

text \<open>The value of the leaves together.\<close>

definition holds_value :: "'st \<Rightarrow> expr_type \<Rightarrow> nat \<Rightarrow> tristate \<Rightarrow> expr list \<times> nat \<Rightarrow> bool" where
  "holds_value w t k v st \<longleftrightarrow>
     length (fst st) = k \<and> (\<forall>c. (\<forall>i < k. bounds t c (val w (fst st ! i))) \<longleftrightarrow> bounds t c v)"

lemma holds_value_leaves: "holds_value w t (length (leaves t e)) (val w e) (leaves t e, 0)"
  using refill_bounds [of t e "leaves t e"] refill_same [of t e "[]"] by (simp add: holds_value_def)

lemma holds_value_refill: "holds_value w t (length (leaves t e)) v (ls, c) \<Longrightarrow> val w (refill t e ls) = v"
  using refill_bounds [of t e ls] by (intro bounds_eqI [of t]) (simp add: holds_value_def)

lemma holds_value_same:
  "holds_value w t k v (ls, c) \<Longrightarrow> val w e1 = val w (ls ! i) \<Longrightarrow> holds_value w t k v (ls[i := e1], c')"
proof -
  assume h: "holds_value w t k v (ls, c)" and e: "val w e1 = val w (ls ! i)"
  have "val w (ls[i := e1] ! j) = val w (ls ! j)" if "j < length ls" for j
    using e that by (cases "j = i") auto
  then show ?thesis using h by (simp add: holds_value_def)
qed

lemma holds_value_join:
  assumes h: "holds_value w t k v (ls, c)" and "settled w" "i < k" "j < k" "i \<noteq> j"
    and e: "val w e = opv t (val w (ls ! i)) (val w (ls ! j))"
  shows "holds_value w t k v (ls[i := unit_expr t, j := e], c')"
proof -
  have len: "length ls = k" using h by (simp add: holds_value_def)
  have "(\<forall>m < k. bounds t b (val w (ls[i := unit_expr t, j := e] ! m))) \<longleftrightarrow> (\<forall>m < k. bounds t b (val w (ls ! m)))" for b
  proof -
    have "bounds t b (val w (ls[i := unit_expr t, j := e] ! m)) \<longleftrightarrow>
        (if m = j then bounds t b (val w (ls ! i)) \<and> bounds t b (val w (ls ! j))
         else m = i \<or> bounds t b (val w (ls ! m)))" if "m < k" for m
      using that len e val_unit [OF assms(2)] assms(5) by (cases "m = i"; cases "m = j") auto
    then show ?thesis using assms(3-5) by (metis (full_types))
  qed
  then show ?thesis using h by (simp add: holds_value_def)
qed

definition keeps_value :: "'st \<Rightarrow> (expr_type \<Rightarrow> expr \<Rightarrow> expr \<times> nat) \<Rightarrow> bool" where
  "keeps_value w rec \<longleftrightarrow> (\<forall>e. and_or e \<longrightarrow> val w (fst (rec (etype e) e)) = val w e)"

lemma inner_keeps: "keeps_value w rec \<Longrightarrow> inner rec e = (e1, c1) \<Longrightarrow> val w e1 = val w e"
  by (auto simp: keeps_value_def inner_def split: if_splits)

lemma dups1_pair_value:
  assumes "settled w" "keeps_value w rec" "holds_value w t k v st" "fst ij < k" "snd ij < k"
  shows "holds_value w t k v (dups1_pair rec (tab w) t st ij)"
proof -
  obtain ls c i j where st: "st = (ls, c)" "ij = (i, j)" by fastforce
  obtain ls' c' where r: "dups1_pair rec (tab w) t (ls, c) (i, j) = (ls', c')" by fastforce
  from r show ?thesis
  proof (cases rule: dups1_pair_cases)
    case same
    then show ?thesis using assms(3) st r by simp
  next
    case (kept e1 c1)
    then show ?thesis using holds_value_same [of w t k v ls c e1 i] inner_keeps [OF assms(2) kept(2)] assms st r by simp
  next
    case (joined e1 c1 tmp)
    have "val w tmp = opv t (val w e1) (val w (ls ! j))"
      using joined(3) join_or_value [OF assms(1)] join_and_value [OF assms(1)] by (auto simp: opv_def split: if_splits)
    then have "val w tmp = opv t (val w (ls ! i)) (val w (ls ! j))" using inner_keeps [OF assms(2) joined(2)] by simp
    then show ?thesis using holds_value_join [of w t k v ls c i j tmp] assms st r joined by simp
  qed
qed

lemma dups1_n_value: "settled w \<Longrightarrow> keeps_value w (dups1_n n (tab w))"
proof (induction n)
  case (Suc n)
  have h: "holds_value w t (length (leaves t e)) (val w e)
      (foldl (dups1_pair (dups1_n n (tab w)) (tab w) t) (leaves t e, 0) (index_pairs (length (leaves t e))))" for t e
    by (rule foldl_invariant)
      (use holds_value_leaves dups1_pair_value [OF Suc.prems Suc.IH] Suc.prems index_pairs_bound in auto)
  show ?case unfolding keeps_value_def
  proof (intro allI impI)
    fix e
    obtain ls c where f: "foldl (dups1_pair (dups1_n n (tab w)) (tab w) (etype e)) (leaves (etype e) e, 0)
        (index_pairs (length (leaves (etype e) e))) = (ls, c)" by fastforce
    show "val w (fst (dups1_n (Suc n) (tab w) (etype e) e)) = val w e"
      using h [of "etype e" e] holds_value_refill [of w "etype e" e] f by simp
  qed
qed (simp add: keeps_value_def)

lemma dups1_value: "settled w \<Longrightarrow> and_or e \<Longrightarrow> val w (fst (expr_eliminate_dups1 (tab w) (etype e) e)) = val w e"
  using dups1_n_value by (simp add: keeps_value_def expr_eliminate_dups1_def)


text \<open>The second pass.\<close>

lemma cancels_value:
  assumes "settled w" "cancels (tab w) e1 e2"
  shows "etype e1 = T_OR \<Longrightarrow> val w e2 \<le> EXPR_NOT (val w e1)"
    and "etype e1 \<noteq> T_OR \<Longrightarrow> EXPR_NOT (val w e1) \<le> val w e2"
proof -
  define n where "n = expr_transform (tab w) (E_NOT e1)"
  have n: "val w n = EXPR_NOT (val w e1)" unfolding n_def using transform_value [OF assms(1), of "E_NOT e1"] by (simp only: expr_value.simps)
  show "val w e2 \<le> EXPR_NOT (val w e1)" if o: "etype e1 = T_OR"
  proof -
    obtain p a b where x: "extract_eq_yn T_AND n e2 = (p, a, b)" by (metis prod_cases3)
    have "a = E_SYMBOL SymYes" using assms(2) o x by (simp add: cancels_def n_def Let_def expr_extract_eq_and_def)
    then show ?thesis using extract_eq_yn_value [OF assms(1) x] n const_simps [OF assms(1)]
      by (simp add: opv_def tri_min_max)
  qed
  show "EXPR_NOT (val w e1) \<le> val w e2" if o: "etype e1 \<noteq> T_OR"
  proof -
    obtain p a b where x: "extract_eq_yn T_OR n e2 = (p, a, b)" by (metis prod_cases3)
    have "a = E_SYMBOL SymNo" using assms(2) o x by (simp add: cancels_def n_def Let_def expr_extract_eq_or_def)
    then show ?thesis using extract_eq_yn_value [OF assms(1) x] n const_simps [OF assms(1)]
      by (simp add: opv_def tri_min_max)
  qed
qed

definition absorber :: "expr \<Rightarrow> expr" where
  "absorber e = (if etype e = T_OR then E_SYMBOL SymNo else E_SYMBOL SymYes)"

lemma absorber_bounds:
  assumes "settled w" "and_or e" "t = T_OR \<or> t = T_AND" "etype e \<noteq> t" "bounds t c (val w (absorber e))"
  shows "bounds t c x"
  using assms by (auto simp: absorber_def bounds_def and_or_def const_simps)

lemma cancels_bounds:
  assumes "settled w" "and_or e1" "t = T_OR \<or> t = T_AND" "etype e1 \<noteq> t" "cancels (tab w) e1 e2"
    and "val w e1 \<noteq> TMod" "bounds t c (val w e1)" "bounds t c (val w e2)"
  shows "bounds t c x"
proof (cases "etype e1 = T_OR")
  case True
  then have "c \<le> EXPR_NOT (val w e1)" "c \<le> val w e1"
    using cancels_value(1) [OF assms(1,5)] assms by (auto simp: bounds_def)
  then have "c = TNo" using assms(6) by (cases "val w e1") auto
  then show ?thesis using assms(3,4) True by (auto simp: bounds_def)
next
  case False
  then have t: "t = T_OR" using assms by (auto simp: and_or_def)
  have "EXPR_NOT (val w e1) \<le> c" "val w e1 \<le> c"
    using cancels_value(2) [OF assms(1,5) False] assms(7,8) t by (auto simp: bounds_def)
  then have "c = TYes" using assms(6) by (cases "val w e1") auto
  then show ?thesis using t by (auto simp: bounds_def)
qed

definition plain_leaves :: "'st \<Rightarrow> expr_type \<Rightarrow> expr list \<times> nat \<Rightarrow> bool" where
  "plain_leaves w t st \<longleftrightarrow> (\<forall>l \<in> set (fst st). parts t l = None \<and> two_valued (tri w) l)"

definition keeps_two_valued :: "'st \<Rightarrow> (expr_type \<Rightarrow> expr \<Rightarrow> expr \<times> nat) \<Rightarrow> bool" where
  "keeps_two_valued w rec \<longleftrightarrow> (\<forall>e. and_or e \<longrightarrow> two_valued (tri w) e \<longrightarrow>
     two_valued (tri w) (fst (rec (etype e) e)) \<and> val w (fst (rec (etype e) e)) = val w e \<and>
     etype (fst (rec (etype e) e)) = etype e)"

lemma keeps_two_valuedD:
  assumes "keeps_two_valued w rec" "and_or e" "two_valued (tri w) e" "rec (etype e) e = (x, c)"
  shows "two_valued (tri w) x" "val w x = val w e" "etype x = etype e"
  using assms unfolding keeps_two_valued_def by (metis fst_conv)+

lemma parts_None_etype: "and_or e \<Longrightarrow> parts t e = None \<longleftrightarrow> etype e \<noteq> t"
  by (cases e; cases t) (auto simp: and_or_def)

lemma cancel_value:
  assumes "settled w" "t = T_OR \<or> t = T_AND" and h: "holds_value w t k v (ls, c)" and "i < k"
    and nd: "n + length (leaves t sh) \<le> k"
    and e1: "and_or e1" "etype e1 \<noteq> t" "val w e1 = val w (ls ! i)" "val w e1 \<noteq> TMod"
    and x: "cancels (tab w) e1 (refill t sh (drop n (ls[i := e1])))"
  shows "holds_value w t k v (ls[i := absorber e1], c')"
proof -
  define ls1 where "ls1 = ls[i := e1]"
  have len: "length ls = k" using h by (simp add: holds_value_def)
  have h1: "(\<forall>m < k. bounds t b (val w (ls1 ! m))) \<longleftrightarrow> bounds t b v" for b
    using holds_value_same [OF h e1(3)] by (simp add: holds_value_def ls1_def)
  have "bounds t b (val w (refill t sh (drop n ls1)))" if "\<forall>m < k. bounds t b (val w (ls1 ! m))" for b
    using refill_bounds [of t sh "drop n ls1" b w] that nd len by (simp add: ls1_def)
  then have all: "bounds t b y" if "\<forall>m < k. bounds t b (val w (ls1 ! m))" for b y
    using cancels_bounds [OF assms(1) e1(1) assms(2) e1(2) x e1(4)] that assms(4) len
    by (metis ls1_def nth_list_update_eq)
  have "(\<forall>m < k. bounds t b (val w (ls[i := absorber e1] ! m))) \<longleftrightarrow> bounds t b v" for b
  proof
    assume "\<forall>m < k. bounds t b (val w (ls[i := absorber e1] ! m))"
    then have "bounds t b (val w (absorber e1))" using assms(4) len by (metis nth_list_update_eq)
    then show "bounds t b v" by (rule absorber_bounds [OF assms(1) e1(1) assms(2) e1(2)])
  next
    assume "bounds t b v"
    then show "\<forall>m < k. bounds t b (val w (ls[i := absorber e1] ! m))" using h1 all by blast
  qed
  then show ?thesis using len by (simp add: holds_value_def)
qed

lemma dups2_pair_value:
  assumes "settled w" "t = T_OR \<or> t = T_AND" "keeps_two_valued w rec"
    and "holds_value w t k v st \<and> plain_leaves w t st" "fst nd < k"
    and "fst (snd nd) + length (leaves t (snd (snd nd))) \<le> k"
  shows "holds_value w t k v (dups2_pair rec (tab w) t st nd) \<and> plain_leaves w t (dups2_pair rec (tab w) t st nd)"
proof -
  obtain ls c i n sh where st: "st = (ls, c)" "nd = (i, n, sh)" by (metis surj_pair)
  have h: "holds_value w t k v (ls, c)" "\<forall>l \<in> set ls. parts t l = None \<and> two_valued (tri w) l"
    using assms(4) st by (auto simp: plain_leaves_def)
  then have i: "i < length ls" "ls ! i \<in> set ls" using assms(5) st by (auto simp: holds_value_def)
  have upd: "plain_leaves w t (ls[i := e], c')" if "parts t e = None" "two_valued (tri w) e" for e c'
    using update_all [OF h(2), of e i] that by (simp add: plain_leaves_def)
  obtain ls' c' where r: "dups2_pair rec (tab w) t (ls, c) (i, n, sh) = (ls', c')" by fastforce
  from r show ?thesis
  proof (cases rule: dups2_pair_cases)
    case same
    then show ?thesis using assms(4) st r by simp
  next
    case (kept e1 c1)
    have two: "two_valued (tri w) (ls ! i)" using h(2) i(2) by blast
    note k = keeps_two_valuedD [OF assms(3) kept(1) two kept(2)]
    have "parts t e1 = None" using parts_None_etype kept(1) k(3) h(2) i(2) by (metis and_or_def)
    then show ?thesis using holds_value_same [OF h(1), of e1 i] k upd st r kept by simp
  next
    case (cancelled e1 c1)
    have two: "two_valued (tri w) (ls ! i)" using h(2) i(2) by blast
    note k = keeps_two_valuedD [OF assms(3) cancelled(1) two cancelled(2)]
    have ao: "and_or e1" using cancelled(1) k(3) by (simp add: and_or_def)
    have ty: "etype e1 \<noteq> t" using parts_None_etype cancelled(1) k(3) h(2) i(2) by metis
    have "holds_value w t k v (ls[i := absorber e1], c')"
      by (rule cancel_value [OF assms(1,2) h(1) _ _ ao ty k(2) two_valued_value [OF k(1)] cancelled(3)])
        (use assms st in auto)
    moreover have "two_valued (tri w) (absorber e1)" "parts t (absorber e1) = None"
      using const_simps [OF assms(1)] by (auto simp: absorber_def)
    ultimately show ?thesis using upd st r cancelled(4) by (simp add: absorber_def)
  qed
qed

lemma dups2_n_value: "settled w \<Longrightarrow> keeps_two_valued w (dups2_n n (tab w))"
proof (induction n)
  case (Suc n)
  note IH = Suc.IH [OF Suc.prems]
  show ?case unfolding keeps_two_valued_def
  proof (intro allI impI)
    fix e assume a: "and_or e" and two: "two_valued (tri w) e"
    define t where "t = etype e"
    have t: "t = T_OR \<or> t = T_AND" using a by (auto simp: and_or_def t_def)
    define f where "f = foldl (dups2_pair (dups2_n n (tab w)) (tab w) t) (leaves t e, 0) (index_nodes t e)"
    have "\<forall>l \<in> set (leaves t e). two_valued (tri w) l" using two by (rule iffD1 [OF two_valued_leaves])
    then have st: "plain_leaves w t (leaves t e, 0)" using leaves_leaf unfolding plain_leaves_def fst_conv by blast
    have "holds_value w t (length (leaves t e)) (val w e) f \<and> plain_leaves w t f"
      unfolding f_def
    proof (rule foldl_invariant)
      fix s nd assume h: "holds_value w t (length (leaves t e)) (val w e) s \<and> plain_leaves w t s"
        and nd: "nd \<in> set (index_nodes t e)"
      have b: "fst nd < length (leaves t e)" "(fst (snd nd), snd (snd nd)) \<in> set (spine t 0 e)"
        using nd index_nodes_bound [of "fst nd" "snd nd" t e] by simp_all
      show "holds_value w t (length (leaves t e)) (val w e) (dups2_pair (dups2_n n (tab w)) (tab w) t s nd) \<and>
          plain_leaves w t (dups2_pair (dups2_n n (tab w)) (tab w) t s nd)"
        by (rule dups2_pair_value [OF Suc.prems t IH h b(1)]) (use spine_range [OF b(2)] in simp)
    qed (use holds_value_leaves st in blast)
    moreover obtain ls c where ls: "f = (ls, c)" by fastforce
    ultimately have h: "holds_value w t (length (leaves t e)) (val w e) (ls, c)" "plain_leaves w t (ls, c)" by auto
    have res: "dups2_n (Suc n) (tab w) (etype e) e = (refill t e ls, c)" using ls by (simp add: f_def t_def)
    have "two_valued (tri w) (refill t e ls)"
      using two_valued_refill [of t e ls "tri w"] h by (simp add: plain_leaves_def holds_value_def)
    then show "two_valued (tri w) (fst (dups2_n (Suc n) (tab w) (etype e) e)) \<and>
        val w (fst (dups2_n (Suc n) (tab w) (etype e) e)) = val w e \<and>
        etype (fst (dups2_n (Suc n) (tab w) (etype e) e)) = etype e"
      unfolding res using holds_value_refill [OF h(1)] dups2_n_root [OF a res] by simp
  qed
qed (simp add: keeps_two_valued_def)


text \<open>The first pass and the removal of constants introduce no \<open>m\<close> either.\<close>

lemma join_two_valued:
  assumes "settled w" "two_valued (tri w) e1" "two_valued (tri w) e2"
  shows "expr_join_or T e1 e2 = Some e \<Longrightarrow> two_valued (tri w) e"
    and "expr_join_and T e1 e2 = Some e \<Longrightarrow> two_valued (tri w) e"
proof -
  note c = const_simps [OF assms(1)]
  show "expr_join_or T e1 e2 = Some e \<Longrightarrow> two_valued (tri w) e"
    using assms(2) c by (auto simp: expr_join_or_def join_or_rule_def join_or_eqs_def split: if_splits option.splits expr.splits)
  have "joinable T e1 e2 = Some s \<Longrightarrow> join_and_rule T s e1 e2 = Some e \<Longrightarrow> two_valued (tri w) e" for s
    using assms(2,3) c joinable_SomeD [of T e1 e2 s]
    by (cases e1; cases e2)
      (auto simp: join_and_rule_def join_sym_eq_def join_sym_uneq_def join_eq_uneq_def join_uneqs_def split: if_splits)
  then show "expr_join_and T e1 e2 = Some e \<Longrightarrow> two_valued (tri w) e"
    using assms(2) by (auto simp: expr_join_and_def split: if_splits option.splits)
qed

definition two_valued_pass :: "'st \<Rightarrow> (expr_type \<Rightarrow> expr \<Rightarrow> expr \<times> nat) \<Rightarrow> bool" where
  "two_valued_pass w rec \<longleftrightarrow>
     (\<forall>e. and_or e \<longrightarrow> two_valued (tri w) e \<longrightarrow> two_valued (tri w) (fst (rec (etype e) e)))"

definition two_leaves :: "'st \<Rightarrow> nat \<Rightarrow> expr list \<times> nat \<Rightarrow> bool" where
  "two_leaves w k st \<longleftrightarrow> length (fst st) = k \<and> (\<forall>l \<in> set (fst st). two_valued (tri w) l)"

lemma dups1_pair_two:
  assumes "settled w" "two_valued_pass w rec" "two_leaves w k st" "fst ij < k" "snd ij < k"
  shows "two_leaves w k (dups1_pair rec T t st ij)"
proof -
  obtain ls c i j where st: "st = (ls, c)" "ij = (i, j)" by fastforce
  have l: "length ls = k" "\<forall>l \<in> set ls. two_valued (tri w) l" using assms(3) st by (auto simp: two_leaves_def)
  have in2: "two_valued (tri w) e1" if "inner rec (ls ! i) = (e1, c1)" for e1 c1
    using that assms(2,4) l st unfolding inner_def two_valued_pass_def
    by (metis fst_conv nth_mem)
  obtain ls' c' where r: "dups1_pair rec T t (ls, c) (i, j) = (ls', c')" by fastforce
  from r show ?thesis
  proof (cases rule: dups1_pair_cases)
    case same
    then show ?thesis using assms(3) st r by simp
  next
    case (kept e1 c1)
    then show ?thesis using update_all [OF l(2) in2 [OF kept(2)], of i] l st r by (simp add: two_leaves_def)
  next
    case (joined e1 c1 tmp)
    have "two_valued (tri w) (ls ! j)" using l assms(5) st by simp
    note j2 = join_two_valued [OF assms(1) in2 [OF joined(2)] this, of T tmp]
    have "two_valued (tri w) tmp" by (cases "t = T_OR") (use joined(3) j2 in simp_all)
    moreover have "two_valued (tri w) (unit_expr t)" using const_simps [OF assms(1)] by (simp add: unit_expr_def)
    ultimately show ?thesis
      using update_all [OF update_all [OF l(2), of "unit_expr t" i], of tmp j] l st r joined(4) by (simp add: two_leaves_def)
  qed
qed

lemma dups1_n_two: "settled w \<Longrightarrow> two_valued_pass w (dups1_n n T)"
proof (induction n)
  case (Suc n)
  note IH = Suc.IH [OF Suc.prems]
  show ?case unfolding two_valued_pass_def
  proof (intro allI impI)
    fix e assume two: "two_valued (tri w) e"
    define t where "t = etype e"
    have "\<forall>l \<in> set (leaves t e). two_valued (tri w) l" using two by (rule iffD1 [OF two_valued_leaves])
    then have st: "two_leaves w (length (leaves t e)) (leaves t e, 0)" by (simp add: two_leaves_def)
    obtain ls c where f: "foldl (dups1_pair (dups1_n n T) T t) (leaves t e, 0) (index_pairs (length (leaves t e))) = (ls, c)"
      by fastforce
    have "two_leaves w (length (leaves t e))
        (foldl (dups1_pair (dups1_n n T) T t) (leaves t e, 0) (index_pairs (length (leaves t e))))"
    proof (rule foldl_invariant)
      fix s ij assume h: "two_leaves w (length (leaves t e)) s" and ij: "ij \<in> set (index_pairs (length (leaves t e)))"
      have "fst ij < length (leaves t e) \<and> snd ij < length (leaves t e)"
        using ij index_pairs_bound [of "fst ij" "snd ij"] by simp
      then show "two_leaves w (length (leaves t e)) (dups1_pair (dups1_n n T) T t s ij)"
        using dups1_pair_two [OF Suc.prems IH h] by blast
    qed (rule st)
    then show "two_valued (tri w) (fst (dups1_n (Suc n) T (etype e) e))"
      using two_valued_refill [of t e ls "tri w"] f by (simp add: two_leaves_def t_def)
  qed
qed (simp add: two_valued_pass_def)

lemma eliminate_yn_two: "settled w \<Longrightarrow> two_valued (tri w) e \<Longrightarrow> two_valued (tri w) (expr_eliminate_yn e)"
  by (induction e rule: expr_eliminate_yn.induct) (auto simp: and_yn.simps or_yn.simps const_simps)

lemma dups_round_value:
  assumes "settled w" "two_valued (tri w) e" "dups_round (tab w) e = (e', c)"
  shows "val w e' = val w e \<and> two_valued (tri w) e'"
proof (cases "and_or e")
  case False
  then show ?thesis using assms by (simp add: dups_round_def)
next
  case True
  obtain x c1 where x: "dups1_n (esize e) (tab w) (etype e) e = (x, c1)" by fastforce
  obtain y c2 where y: "dups2_n (esize x) (tab w) (etype e) x = (y, c2)" by fastforce
  have e': "e' = y" using assms(3) True x y
    by (auto simp: dups_round_def expr_eliminate_dups1_def expr_eliminate_dups2_def)
  have tx: "etype x = etype e" "and_or x" using dups1_n_root [OF True x] True by (simp_all add: and_or_def)
  have vx: "val w x = val w e" using dups1_n_value [OF assms(1)] True x unfolding keeps_value_def by (metis fst_conv)
  have twx: "two_valued (tri w) x"
    using dups1_n_two [OF assms(1)] True x assms(2) unfolding two_valued_pass_def by (metis fst_conv)
  show ?thesis using keeps_two_valuedD [OF dups2_n_value [OF assms(1)] tx(2) twx, of "esize x" y c2] y tx(1) vx e'
    by simp
qed

lemma dups_value: "settled w \<Longrightarrow> two_valued (tri w) e \<Longrightarrow> val w (expr_eliminate_dups (tab w) e) = val w e"
proof (induction "tab w" e rule: expr_eliminate_dups.induct)
  case (1 e)
  obtain e' c where r: "dups_round (tab w) e = (e', c)" by fastforce
  note v = dups_round_value [OF "1.prems" r]
  show ?case
  proof (cases "c = 0")
    case True
    then show ?thesis using r v by (simp add: expr_eliminate_dups.simps [of "tab w" e])
  next
    case False
    have "val w (expr_eliminate_dups (tab w) (expr_eliminate_yn e')) = val w (expr_eliminate_yn e')"
      using "1.hyps" [OF r [symmetric] False "1.prems"(1)] eliminate_yn_two "1.prems"(1) v by blast
    then show ?thesis
      using False r v eliminate_yn_value [OF "1.prems"(1)] by (simp add: expr_eliminate_dups.simps [of "tab w" e])
  qed
qed

end

end
