(* ===== verification/KTable.thy ===== *)
theory KTable
  imports KDupsFacts
begin

text \<open>
  The symbol table of \<open>buildroot/support/kconfig/symbol.c\<close> as a state: the symbols (the four static ones
  first), the chains of \<open>symbol_hash\<close>, \<open>modules_sym\<close>, \<open>modules_val\<close> and what else the symbol
  functions write. The functions that only read a calculated symbol are here, with the
  interpretation of the contract of \<open>KValue\<close> on them.
\<close>

record kst =
  ks_syms :: "symbol list"
  ks_hash :: "nat \<Rightarrow> sref list"              \<comment> \<open>the chains, newest symbol first\<close>
  ks_modules :: "sref option"
  ks_modules_val :: tristate
  ks_defconfig_list :: "sref option"        \<comment> \<open>\<open>sym_defconfig_list\<close>\<close>
  ks_env_list :: "sref list"                \<comment> \<open>\<open>sym_env_list\<close>, newest first\<close>
  ks_menu_changed :: "nat list"             \<comment> \<open>menus with \<open>MENU_CHANGED\<close>\<close>
  ks_change_count :: nat
  ks_warnings :: "string list"
  ks_conf_filename :: string                \<comment> \<open>\<open>conf_filename\<close>, \<open>conf_lineno\<close>, \<open>conf_warnings\<close>, \<open>conf_unsaved\<close>\<close>
  ks_conf_lineno :: nat
  ks_conf_warnings :: nat
  ks_conf_unsaved :: nat

fun sref_idx :: "sref \<Rightarrow> nat" where
  "sref_idx SymYes = 0"
| "sref_idx SymMod = 1"
| "sref_idx SymNo = 2"
| "sref_idx SymEmpty = 3"
| "sref_idx (Sym i) = i + 4"

lemma sref_idx_inj [simp]: "sref_idx a = sref_idx b \<longleftrightarrow> a = b"
  by (cases a; cases b) auto

definition sref_of :: "nat \<Rightarrow> sref" where
  "sref_of i = (if i = 0 then SymYes else if i = 1 then SymMod else if i = 2 then SymNo
     else if i = 3 then SymEmpty else Sym (i - 4))"

lemma sref_of_idx [simp]: "sref_of (sref_idx r) = r"
  by (cases r) (auto simp: sref_of_def)

lemma sref_idx_of [simp]: "sref_idx (sref_of i) = i"
  by (auto simp: sref_of_def)

text \<open>A reference behind the table is never followed by the code; it reads as an empty symbol.\<close>

definition sym_at :: "kst \<Rightarrow> symtab" where
  "sym_at st r = (if sref_idx r < length (ks_syms st) then ks_syms st ! sref_idx r else symbol_empty)"

definition sym_upd :: "sref \<Rightarrow> (symbol \<Rightarrow> symbol) \<Rightarrow> kst \<Rightarrow> kst" where
  "sym_upd r f st = st\<lparr>ks_syms := (ks_syms st)[sref_idx r := f (sym_at st r)]\<rparr>"

definition kst_init :: kst where
  "kst_init = \<lparr>ks_syms = [symbol_yes, symbol_mod, symbol_no, symbol_empty], ks_hash = (\<lambda>_. []), ks_modules = None,
     ks_modules_val = TNo, ks_defconfig_list = None, ks_env_list = [], ks_menu_changed = [], ks_change_count = 0, ks_warnings = [], ks_conf_filename = [], ks_conf_lineno = 0, ks_conf_warnings = 0, ks_conf_unsaved = 0\<rparr>"

lemma sym_at_upd [simp]:
  "sym_at (sym_upd r f st) r' = (if r' = r \<and> sref_idx r < length (ks_syms st) then f (sym_at st r) else sym_at st r')"
  by (cases "sref_idx r < length (ks_syms st)") (auto simp: sym_at_def sym_upd_def nth_list_update list_update_beyond)

lemma length_sym_upd [simp]: "length (ks_syms (sym_upd r f st)) = length (ks_syms st)"
  by (simp add: sym_upd_def)

lemma sym_upd_frame [simp]:
  "ks_hash (sym_upd r f st) = ks_hash st" "ks_modules (sym_upd r f st) = ks_modules st"
  "ks_modules_val (sym_upd r f st) = ks_modules_val st" "ks_menu_changed (sym_upd r f st) = ks_menu_changed st"
  by (simp_all add: sym_upd_def)

section \<open>Reading a symbol\<close>

definition sym_get_tristate_value :: "kst \<Rightarrow> sref \<Rightarrow> tristate" where
  "sym_get_tristate_value st r = s_tri (sym_at st r)"

definition sym_is_choice :: "symbol \<Rightarrow> bool" where "sym_is_choice s = has_flag SYMBOL_CHOICE s"
definition sym_is_choice_value :: "symbol \<Rightarrow> bool" where "sym_is_choice_value s = has_flag SYMBOL_CHOICEVAL s"
definition sym_is_optional :: "symbol \<Rightarrow> bool" where "sym_is_optional s = has_flag SYMBOL_OPTIONAL s"
definition sym_has_value :: "symbol \<Rightarrow> bool" where "sym_has_value s = has_flag SYMBOL_DEF_USER s"

definition sym_is_changable :: "kst \<Rightarrow> sref \<Rightarrow> bool" where
  "sym_is_changable st r \<longleftrightarrow> s_visible (sym_at st r) > s_rev_tri (sym_at st r)"

fun val_str :: "symval \<Rightarrow> string" where
  "val_str (VStr s) = s"
| "val_str _ = []"

definition modules_tri :: "kst \<Rightarrow> tristate" where
  "modules_tri st = (case ks_modules st of None \<Rightarrow> TNo | Some m \<Rightarrow> s_tri (sym_at st m))"

text \<open>\<open>sym_get_string_value\<close> of calculated symbols.\<close>

definition sym_get_string_value :: "kst \<Rightarrow> sref \<Rightarrow> string" where
  "sym_get_string_value st r =
     (let s = sym_at st r
      in if s_type s = S_BOOLEAN \<or> s_type s = S_TRISTATE then
           (case s_tri s of
              TNo \<Rightarrow> ''n''
            | TMod \<Rightarrow> (if modules_tri st = TNo then ''n'' else ''m'')
            | TYes \<Rightarrow> ''y'')
         else val_str (s_val s))"

definition sym_get_type :: "kst \<Rightarrow> sref \<Rightarrow> symbol_type" where
  "sym_get_type st r =
     (let s = sym_at st r
      in if s_type s = S_TRISTATE then
           (if sym_is_choice_value s \<and> s_visible s = TYes then S_BOOLEAN
            else if ks_modules_val st = TNo then S_BOOLEAN
            else S_TRISTATE)
         else s_type s)"

section \<open>Settled tables\<close>

text \<open>
  What a table is after its symbols have been calculated: the static constants are intact, a bool is
  never \<open>m\<close>, a tristate is \<open>m\<close> only with modules enabled, and two constants have different strings
  (\<open>sym_lookup\<close> returns the same symbol for the same constant).
\<close>

definition static_ok :: "kst \<Rightarrow> bool" where
  "static_ok st \<longleftrightarrow> length (ks_syms st) \<ge> 4 \<and>
     (\<forall>(r, t, n) \<in> {(SymYes, TYes, ''y''), (SymMod, TMod, ''m''), (SymNo, TNo, ''n'')}.
        s_tri (sym_at st r) = t \<and> s_val (sym_at st r) = VStr n \<and> s_type (sym_at st r) = S_UNKNOWN)"

definition logical_ok :: "kst \<Rightarrow> symbol \<Rightarrow> bool" where
  "logical_ok st s \<longleftrightarrow>
     (s_type s = S_BOOLEAN \<longrightarrow> s_tri s \<noteq> TMod) \<and>
     (s_type s = S_TRISTATE \<longrightarrow> s_tri s = TMod \<longrightarrow> modules_tri st \<noteq> TNo)"

definition const_strings :: "kst \<Rightarrow> string list" where
  "const_strings st = map (\<lambda>i. sym_get_string_value st (sref_of i))
     (filter (\<lambda>i. has_flag SYMBOL_CONST (ks_syms st ! i)) [0..<length (ks_syms st)])"

definition settled_table :: "kst \<Rightarrow> bool" where
  "settled_table st \<longleftrightarrow> static_ok st \<and> (\<forall>s \<in> set (ks_syms st). logical_ok st s) \<and> distinct (const_strings st)"

lemma symbol_empty_simps [simp]: "s_type symbol_empty = S_UNKNOWN" "\<not> has_flag SYMBOL_CONST symbol_empty"
  by (simp_all add: symbol_empty_def static_symbol_def has_flag_def flag_defs)

lemma sym_at_in: "s_type (sym_at st r) \<noteq> S_UNKNOWN \<or> has_flag SYMBOL_CONST (sym_at st r) \<Longrightarrow>
    sref_idx r < length (ks_syms st) \<and> sym_at st r = ks_syms st ! sref_idx r"
  by (auto simp: sym_at_def split: if_splits)

lemma settled_logical:
  assumes "settled_table st" "s_type (sym_at st r) = S_BOOLEAN \<or> s_type (sym_at st r) = S_TRISTATE"
  shows "logical_ok st (sym_at st r)"
  using assms sym_at_in [of st r] by (auto simp: settled_table_def)

lemma const_strings_inj:
  assumes "distinct (const_strings st)" "has_flag SYMBOL_CONST (sym_at st a)" "has_flag SYMBOL_CONST (sym_at st b)"
    and "sym_get_string_value st a = sym_get_string_value st b"
  shows "a = b"
proof -
  define ks where "ks = filter (\<lambda>i. has_flag SYMBOL_CONST (ks_syms st ! i)) [0..<length (ks_syms st)]"
  have i: "inj_on (\<lambda>i. sym_get_string_value st (sref_of i)) (set ks)"
    using assms(1) by (simp add: const_strings_def ks_def distinct_map)
  have "sref_idx a \<in> set ks" "sref_idx b \<in> set ks"
    using assms(2,3) sym_at_in [of st a] sym_at_in [of st b] by (auto simp: ks_def)
  then show ?thesis using inj_onD [OF i, of "sref_idx a" "sref_idx b"] assms(4) by simp
qed

interpretation kv: symbol_values sym_at sym_get_tristate_value sym_get_string_value settled_table
proof
  fix w :: kst assume s: "settled_table w"
  then have st: "static_ok w" by (simp add: settled_table_def)
  then show "sym_get_tristate_value w SymYes = TYes \<and> sym_get_tristate_value w SymMod = TMod \<and> sym_get_tristate_value w SymNo = TNo"
    by (simp add: static_ok_def sym_get_tristate_value_def)
  from st show "sym_get_string_value w SymYes = ''y'' \<and> sym_get_string_value w SymMod = ''m'' \<and> sym_get_string_value w SymNo = ''n''"
    by (simp add: static_ok_def sym_get_string_value_def)
  show "sym_get_tristate_value w r \<noteq> TMod" if "s_type (sym_at w r) = S_BOOLEAN" for r
    using settled_logical [OF s] that by (simp add: logical_ok_def sym_get_tristate_value_def)
  show "sym_get_string_value w r = tri_name (sym_get_tristate_value w r)"
    if "s_type (sym_at w r) = S_BOOLEAN \<or> s_type (sym_at w r) = S_TRISTATE" for r
    using settled_logical [OF s that] that
    by (cases "s_tri (sym_at w r)")
      (auto simp: sym_get_string_value_def sym_get_tristate_value_def logical_ok_def tri_name_def Let_def)
  show "sym_get_string_value w a \<noteq> sym_get_string_value w b"
    if "has_flag SYMBOL_CONST (sym_at w a)" "has_flag SYMBOL_CONST (sym_at w b)" "a \<noteq> b" for a b
    using const_strings_inj [of w a b] that s by (auto simp: settled_table_def)
qed

text \<open>\<open>expr_calc_value\<close> in a settled table.\<close>

definition calc_value :: "kst \<Rightarrow> expr \<Rightarrow> tristate" where
  "calc_value st e = expr_value (sym_get_tristate_value st) (sym_get_string_value st) e"

end
