(* ===== verification/KExprFacts.thy ===== *)
theory KExprFacts
  imports KTable
begin

text \<open>
  The properties of \<open>expr.c\<close>, on the symbol table: what the rewriting keeps of the value
  \<open>expr_calc_value\<close> computes, and where it does not.
\<close>

lemma expr_eq_unfold_NOT: "expr_eq (E_NOT a) (E_NOT b) = expr_eq a b"
  using expr_eq_n_enough [of a b "Suc (esize a + esize b)" "esize a + esize b"]
  by (simp add: expr_eq_def)

text \<open>A table for the examples: a bool, two tristates and a string, with modules enabled.\<close>

definition demo_symbol :: "string \<Rightarrow> symbol_type \<Rightarrow> symval \<Rightarrow> tristate \<Rightarrow> symbol" where
  "demo_symbol n ty v t = (static_symbol n t SYMBOL_VALID)\<lparr>s_type := ty, s_val := v\<rparr>"

definition demo_table :: kst where
  "demo_table = kst_init\<lparr>ks_syms := ks_syms kst_init @
     [demo_symbol ''A'' S_BOOLEAN (VStr ''y'') TYes, demo_symbol ''B'' S_TRISTATE (VStr ''m'') TMod,
      demo_symbol ''C'' S_TRISTATE (VStr ''n'') TNo, demo_symbol ''S'' S_STRING (VStr ''text'') TNo],
     ks_modules := Some (Sym 0)\<rparr>"

lemma demo_table_settled: "settled_table demo_table"
  by code_simp

abbreviation "sA \<equiv> Sym 0"
abbreviation "sB \<equiv> Sym 1"
abbreviation "sC \<equiv> Sym 2"

section \<open>Properties\<close>

text \<open>C12: \<open>expr_transform\<close> keeps the value of every expression in a settled symbol table.\<close>

theorem expr_transform_value:
  assumes "settled_table st"
  shows "calc_value st (expr_transform (sym_at st) e) = calc_value st e"
  using kv.transform_value [OF assms] by (simp add: calc_value_def)

theorem expr_transform_value_witness:
  "calc_value demo_table (expr_transform (sym_at demo_table) (E_NOT (E_OR (E_EQUAL sA SymNo) (E_NOT (E_SYMBOL sB))))) =
     calc_value demo_table (E_NOT (E_OR (E_EQUAL sA SymNo) (E_NOT (E_SYMBOL sB)))) \<and>
   expr_transform (sym_at demo_table) (E_NOT (E_OR (E_EQUAL sA SymNo) (E_NOT (E_SYMBOL sB)))) =
     E_AND (E_SYMBOL sA) (E_SYMBOL sB)"
proof
  show "expr_transform (sym_at demo_table) (E_NOT (E_OR (E_EQUAL sA SymNo) (E_NOT (E_SYMBOL sB)))) =
     E_AND (E_SYMBOL sA) (E_SYMBOL sB)" by code_simp
qed (rule expr_transform_value [OF demo_table_settled])

text \<open>\<open>expr_eq\<close> satisfies its own recursion: the bound on its nesting is never reached, so two
  conjunctions (and likewise two disjunctions) are equal exactly when the elimination of common
  operands, which calls \<open>expr_eq\<close> again, reduces both to the same constant.\<close>

theorem expr_eq_recursion:
  "expr_eq (E_AND a b) (E_AND c d) =
     (case eliminate_eq expr_eq (E_AND a b) (E_AND c d) of (x, y) \<Rightarrow> same_symbol x y) \<and>
   expr_eq (E_OR a b) (E_OR c d) =
     (case eliminate_eq expr_eq (E_OR a b) (E_OR c d) of (x, y) \<Rightarrow> same_symbol x y)"
proof -
  have same: "eliminate_eq (expr_eq_n n) e1 e2 = eliminate_eq expr_eq e1 e2"
    if "esize e1 + esize e2 = Suc n" "etype e1 = t" "etype e2 = t" "t = T_OR \<or> t = T_AND" for e1 e2 n t
    by (rule eliminate_eq_same [OF that(2-4)])
      (use that(1) expr_eq_n_enough in \<open>auto simp: expr_eq_def\<close>)
  show ?thesis
    using same [of "E_AND a b" "E_AND c d" _ T_AND] same [of "E_OR a b" "E_OR c d" _ T_OR]
    by (simp add: expr_eq_def)
qed

text \<open>C16: Expressions that \<open>expr_eq\<close> reports equal have the same value in every settled table.\<close>

theorem expr_eq_sound:
  assumes "settled_table st" and "expr_eq e1 e2"
  shows "calc_value st e1 = calc_value st e2"
  using kv.expr_eq_value [OF assms] by (simp add: calc_value_def)

theorem expr_eq_sound_witness:
  "calc_value demo_table (E_AND (E_SYMBOL sA) (E_AND (E_SYMBOL sB) (E_SYMBOL sC))) =
     calc_value demo_table (E_AND (E_AND (E_SYMBOL sC) (E_SYMBOL sA)) (E_SYMBOL sB))"
proof -
  have "expr_eq (E_AND (E_SYMBOL sA) (E_AND (E_SYMBOL sB) (E_SYMBOL sC)))
      (E_AND (E_AND (E_SYMBOL sC) (E_SYMBOL sA)) (E_SYMBOL sB))" by code_simp
  from expr_eq_sound [OF demo_table_settled this] show ?thesis .
qed

text \<open>Whatever \<open>expr_join_or\<close> and \<open>expr_join_and\<close> put in place of two operands has the value of the
  disjunction, respectively conjunction, of the operands.\<close>

theorem expr_join_value:
  assumes "settled_table st"
  shows "(\<forall>e. expr_join_or (sym_at st) e1 e2 = Some e \<longrightarrow> calc_value st e = calc_value st (E_OR e1 e2)) \<and>
    (\<forall>e. expr_join_and (sym_at st) e1 e2 = Some e \<longrightarrow> calc_value st e = calc_value st (E_AND e1 e2))"
  using kv.join_or_value [OF assms] kv.join_and_value [OF assms] by (simp add: calc_value_def)

theorem expr_join_value_witness:
  "expr_join_and (sym_at demo_table) (E_UNEQUAL sB SymYes) (E_UNEQUAL sB SymNo) = Some (E_EQUAL sB SymMod) \<and>
   calc_value demo_table (E_EQUAL sB SymMod) = calc_value demo_table (E_AND (E_UNEQUAL sB SymYes) (E_UNEQUAL sB SymNo))"
proof -
  have "expr_join_and (sym_at demo_table) (E_UNEQUAL sB SymYes) (E_UNEQUAL sB SymNo) = Some (E_EQUAL sB SymMod)"
    by code_simp
  with expr_join_value [OF demo_table_settled] show ?thesis by blast
qed

text \<open>C15: \<open>expr_eliminate_dups\<close>, the loop that joins operands until nothing changes (it always ends, its
  definition is total), keeps the value of an expression without the value \<open>m\<close>.\<close>

theorem expr_eliminate_dups_value:
  assumes "settled_table st" and "two_valued (sym_get_tristate_value st) e"
  shows "calc_value st (expr_eliminate_dups (sym_at st) e) = calc_value st e"
  using kv.dups_value [OF assms] by (simp add: calc_value_def)

theorem expr_eliminate_dups_value_witness:
  "expr_eliminate_dups (sym_at demo_table) (E_AND (E_SYMBOL sA) (E_AND (E_SYMBOL sC) (E_SYMBOL sA))) =
     E_AND (E_SYMBOL sC) (E_SYMBOL sA) \<and>
   calc_value demo_table (expr_eliminate_dups (sym_at demo_table) (E_AND (E_SYMBOL sA) (E_AND (E_SYMBOL sC) (E_SYMBOL sA)))) =
     calc_value demo_table (E_AND (E_SYMBOL sA) (E_AND (E_SYMBOL sC) (E_SYMBOL sA)))"
proof
  show "expr_eliminate_dups (sym_at demo_table) (E_AND (E_SYMBOL sA) (E_AND (E_SYMBOL sC) (E_SYMBOL sA))) =
     E_AND (E_SYMBOL sC) (E_SYMBOL sA)" by code_simp
  have "two_valued (sym_get_tristate_value demo_table) (E_AND (E_SYMBOL sA) (E_AND (E_SYMBOL sC) (E_SYMBOL sA)))"
    by code_simp
  from expr_eliminate_dups_value [OF demo_table_settled this]
  show "calc_value demo_table (expr_eliminate_dups (sym_at demo_table) (E_AND (E_SYMBOL sA) (E_AND (E_SYMBOL sC) (E_SYMBOL sA)))) =
     calc_value demo_table (E_AND (E_SYMBOL sA) (E_AND (E_SYMBOL sC) (E_SYMBOL sA)))" .
qed

text \<open>With the value \<open>m\<close> it does not: \<open>(B || C) && (!B && !C)\<close> is \<open>m\<close> for \<open>B = m\<close>, \<open>C = n\<close>, and
  \<open>expr_eliminate_dups\<close> makes it \<open>n\<close>.\<close>

theorem expr_eliminate_dups_loses_m:
  "\<exists>st e. settled_table st \<and> calc_value st e = TMod \<and> calc_value st (expr_eliminate_dups (sym_at st) e) = TNo"
proof (intro exI conjI)
  define e where "e = E_AND (E_OR (E_SYMBOL sB) (E_SYMBOL sC)) (E_AND (E_NOT (E_SYMBOL sB)) (E_NOT (E_SYMBOL sC)))"
  show "calc_value demo_table e = TMod" unfolding e_def by code_simp
  show "calc_value demo_table (expr_eliminate_dups (sym_at demo_table) e) = TNo" unfolding e_def by code_simp
qed (rule demo_table_settled)

text \<open>\<open>expr_depends_symbol\<close> is right: an expression that depends on a bool or tristate symbol is \<open>n\<close>
  whenever the symbol is \<open>n\<close>.\<close>

theorem expr_depends_symbol_sound:
  assumes "settled_table st" and "s_type (sym_at st s) = S_BOOLEAN \<or> s_type (sym_at st s) = S_TRISTATE"
    and "sym_get_tristate_value st s = TNo" and "expr_depends_symbol (Some e) s"
  shows "calc_value st e = TNo"
  using kv.depends_value [OF assms(1-3)] assms(4) by (simp add: calc_value_def)

theorem expr_depends_symbol_sound_witness:
  "calc_value demo_table (E_AND (E_SYMBOL sA) (E_UNEQUAL sC SymNo)) = TNo"
proof -
  have "s_type (sym_at demo_table sC) = S_BOOLEAN \<or> s_type (sym_at demo_table sC) = S_TRISTATE"
    "sym_get_tristate_value demo_table sC = TNo"
    "expr_depends_symbol (Some (E_AND (E_SYMBOL sA) (E_UNEQUAL sC SymNo))) sC" by code_simp+
  from expr_depends_symbol_sound [OF demo_table_settled this] show ?thesis .
qed

text \<open>\<open>expr_trans_compare\<close> with \<open>y\<close> or \<open>n\<close> always yields an expression, and on expressions over
  bool and tristate symbols without the value \<open>m\<close> that expression says whether the comparison
  holds.\<close>

theorem expr_trans_compare_value:
  assumes "settled_table st" and "logical_expr (sym_at st) e" and "two_valued (sym_get_tristate_value st) e"
    and "c = SymYes \<or> c = SymNo" and "ty = T_EQUAL \<or> ty = T_UNEQUAL"
  shows "\<exists>x. expr_trans_compare (Some e) ty c = Some x \<and>
    calc_value st x = tri_of_bool ((calc_value st e = sym_get_tristate_value st c) = (ty = T_EQUAL))"
  using kv.trans_compare_value [OF assms(1-4), of ty] assms(5) by (auto simp: calc_value_def)

theorem expr_trans_compare_value_witness:
  "\<exists>x. expr_trans_compare (Some (E_AND (E_SYMBOL sA) (E_NOT (E_SYMBOL sC)))) T_UNEQUAL SymNo = Some x \<and>
     calc_value demo_table x = TYes"
proof -
  define e where "e = E_AND (E_SYMBOL sA) (E_NOT (E_SYMBOL sC))"
  have "logical_expr (sym_at demo_table) e" "two_valued (sym_get_tristate_value demo_table) e"
    "calc_value demo_table e = TYes" "sym_get_tristate_value demo_table SymNo = TNo"
    unfolding e_def by code_simp+
  then show ?thesis
    using expr_trans_compare_value [OF demo_table_settled, of e SymNo T_UNEQUAL] by (simp add: e_def)
qed

text \<open>For a tristate the comparison is not kept: \<open>!B = y\<close> becomes \<open>B != y\<close>, which is \<open>y\<close> for
  \<open>B = m\<close> although \<open>!B\<close> is \<open>m\<close>; and \<open>(B && A) = m\<close> becomes \<open>B && A\<close>.\<close>

theorem expr_trans_compare_wrong_for_m:
  "\<exists>st. settled_table st \<and>
     (\<exists>e x. expr_trans_compare (Some e) T_EQUAL SymYes = Some x \<and> calc_value st e = TMod \<and> calc_value st x = TYes) \<and>
     (\<exists>e. expr_trans_compare (Some e) T_EQUAL SymMod = Some e \<and> calc_value st e = TMod)"
proof (intro exI conjI)
  show "expr_trans_compare (Some (E_NOT (E_SYMBOL sB))) T_EQUAL SymYes = Some (E_UNEQUAL sB SymYes)" by code_simp
  show "calc_value demo_table (E_NOT (E_SYMBOL sB)) = TMod" by code_simp
  show "calc_value demo_table (E_UNEQUAL sB SymYes) = TYes" by code_simp
  show "expr_trans_compare (Some (E_AND (E_SYMBOL sB) (E_SYMBOL sA))) T_EQUAL SymMod =
      Some (E_AND (E_SYMBOL sB) (E_SYMBOL sA))" by code_simp
  show "calc_value demo_table (E_AND (E_SYMBOL sB) (E_SYMBOL sA)) = TMod" by code_simp
qed (rule demo_table_settled)

end
