(* ===== verification/KSymbol.thy ===== *)
theory KSymbol
  imports KTable
begin

text \<open>
  \<open>buildroot/support/kconfig/symbol.c\<close>, the calculation of symbol values: visibility, defaults, choices,
  ranges and \<open>sym_calc_value\<close>, which calls itself through the expressions of a symbol. An operation
  takes the state and returns a result with the new state (\<open>Ret\<close>), stops on a \<open>NULL\<close> pointer it
  follows (\<open>Crash\<close>), or runs out of the bound on nested calls (\<open>NoFuel\<close>), which
  \<open>KSymbolFacts\<close> shows not to happen with a bound larger than the number of symbols left to
  calculate. The nested call \<open>sym_calc_value\<close> is the parameter \<open>calc\<close> of the helpers.
\<close>

datatype 'a kres = Ret 'a kst | Crash | NoFuel

type_synonym 'a km = "kst \<Rightarrow> 'a kres"

definition kret :: "'a \<Rightarrow> 'a km" where "kret x = (\<lambda>st. Ret x st)"

definition kbind :: "'a km \<Rightarrow> ('a \<Rightarrow> 'b km) \<Rightarrow> 'b km" where
  "kbind m f = (\<lambda>st. case m st of Ret x st' \<Rightarrow> f x st' | Crash \<Rightarrow> Crash | NoFuel \<Rightarrow> NoFuel)"

definition kseq :: "unit km \<Rightarrow> 'b km \<Rightarrow> 'b km" where
  "kseq m m' = kbind m (\<lambda>_. m')"

definition kget :: "(kst \<Rightarrow> 'a) \<Rightarrow> 'a km" where "kget f = (\<lambda>st. Ret (f st) st)"

definition kmod :: "(kst \<Rightarrow> kst) \<Rightarrow> unit km" where "kmod f = (\<lambda>st. Ret () (f st))"

definition kcrash :: "'a km" where "kcrash = (\<lambda>st. Crash)"

definition kwhen :: "bool \<Rightarrow> unit km \<Rightarrow> unit km" where
  "kwhen b m = (if b then m else kret ())"

fun kfor :: "'a list \<Rightarrow> ('a \<Rightarrow> unit km) \<Rightarrow> unit km" where
  "kfor [] f = kret ()"
| "kfor (x # xs) f = kseq (f x) (kfor xs f)"

definition ksym :: "sref \<Rightarrow> symbol km" where "ksym r = kget (\<lambda>st. sym_at st r)"

definition kupd :: "sref \<Rightarrow> (symbol \<Rightarrow> symbol) \<Rightarrow> unit km" where "kupd r f = kmod (sym_upd r f)"

section \<open>Small operations\<close>

definition sym_set_changed :: "sref \<Rightarrow> unit km" where
  "sym_set_changed r =
     kseq (kupd r (set_flag SYMBOL_CHANGED))
          (kmod (\<lambda>st. st\<lparr>ks_menu_changed := ks_menu_changed st @ List.map_filter p_menu (s_prop (sym_at st r))\<rparr>))"

definition all_symbols :: "kst \<Rightarrow> sref list" where
  "all_symbols st = filter (\<lambda>r. s_type (sym_at st r) \<noteq> S_OTHER)
     (concat (map (ks_hash st) [0..<9973]))"

definition sym_set_all_changed :: "unit km" where
  "sym_set_all_changed = kbind (kget all_symbols) (\<lambda>rs. kfor rs sym_set_changed)"

fun prop_get_symbol :: "property \<Rightarrow> sref option" where
  "prop_get_symbol p = (case p_expr p of Some (PExpr (E_SYMBOL s)) \<Rightarrow> Some s | _ \<Rightarrow> None)"

declare prop_get_symbol.simps [simp del]

definition choice_list :: "property \<Rightarrow> sref list" where
  "choice_list p = (case p_expr p of Some (PList ss) \<Rightarrow> ss | _ \<Rightarrow> [])"

definition sym_get_choice_prop :: "symbol \<Rightarrow> property option" where
  "sym_get_choice_prop s = find (\<lambda>p. p_kind p = P_CHOICE) (s_prop s)"

definition sym_get_env_prop :: "symbol \<Rightarrow> property option" where
  "sym_get_env_prop s = find (\<lambda>p. p_kind p = P_ENV) (s_prop s)"

text \<open>The choice symbol of a choice value.\<close>

definition choice_of :: "sref \<Rightarrow> sref km" where
  "choice_of r =
     kbind (ksym r) (\<lambda>s. case sym_get_choice_prop s of
       None \<Rightarrow> kcrash
     | Some p \<Rightarrow> (case prop_get_symbol p of None \<Rightarrow> kcrash | Some c \<Rightarrow> kret c))"

text \<open>The values of a choice symbol.\<close>

definition choice_values :: "sref \<Rightarrow> sref list km" where
  "choice_values r =
     kbind (ksym r) (\<lambda>s. case sym_get_choice_prop s of None \<Rightarrow> kcrash | Some p \<Rightarrow> kret (choice_list p))"

section \<open>Values of expressions\<close>

definition get_string :: "(sref \<Rightarrow> unit km) \<Rightarrow> sref \<Rightarrow> string km" where
  "get_string calc r =
     kbind (ksym r) (\<lambda>s.
       if (s_type s = S_BOOLEAN \<or> s_type s = S_TRISTATE) \<and> s_tri s = TMod then
         kbind (kget ks_modules) (\<lambda>mo. case mo of
           None \<Rightarrow> kcrash
         | Some m \<Rightarrow> kseq (calc m) (kbind (ksym m) (\<lambda>ms. kret (if s_tri ms = TNo then ''n'' else ''m''))))
       else kget (\<lambda>st. sym_get_string_value st r))"

fun expr_calc :: "(sref \<Rightarrow> unit km) \<Rightarrow> expr \<Rightarrow> tristate km" where
  "expr_calc calc (E_SYMBOL s) = kseq (calc s) (kbind (ksym s) (\<lambda>x. kret (s_tri x)))"
| "expr_calc calc (E_AND l r) = kbind (expr_calc calc l) (\<lambda>a. kbind (expr_calc calc r) (\<lambda>b. kret (EXPR_AND a b)))"
| "expr_calc calc (E_OR l r) = kbind (expr_calc calc l) (\<lambda>a. kbind (expr_calc calc r) (\<lambda>b. kret (EXPR_OR a b)))"
| "expr_calc calc (E_NOT e) = kbind (expr_calc calc e) (\<lambda>a. kret (EXPR_NOT a))"
| "expr_calc calc (E_EQUAL a b) =
     kseq (calc a) (kseq (calc b) (kbind (get_string calc a) (\<lambda>x. kbind (get_string calc b) (\<lambda>y.
       kret (if x = y then TYes else TNo)))))"
| "expr_calc calc (E_UNEQUAL a b) =
     kseq (calc a) (kseq (calc b) (kbind (get_string calc a) (\<lambda>x. kbind (get_string calc b) (\<lambda>y.
       kret (if x = y then TNo else TYes)))))"

fun expr_calc_value :: "(sref \<Rightarrow> unit km) \<Rightarrow> expr option \<Rightarrow> tristate km" where
  "expr_calc_value calc None = kret TYes"
| "expr_calc_value calc (Some e) = expr_calc calc e"

text \<open>The value of the expression of a property (a list or a range has none: the code prints a message).\<close>

definition prop_expr_value :: "(sref \<Rightarrow> unit km) \<Rightarrow> property \<Rightarrow> tristate km" where
  "prop_expr_value calc p =
     (case p_expr p of None \<Rightarrow> kret TYes | Some (PExpr e) \<Rightarrow> expr_calc calc e | _ \<Rightarrow> kret TNo)"

section \<open>Visible properties\<close>

definition set_prop_tri :: "nat \<Rightarrow> tristate \<Rightarrow> symbol \<Rightarrow> symbol" where
  "set_prop_tri k v s = s\<lparr>s_prop := (s_prop s)[k := (s_prop s ! k)\<lparr>p_vis_tri := v\<rparr>]\<rparr>"

text \<open>\<open>prop->visible.tri = expr_calc_value(prop->visible.expr)\<close>, and the new value.\<close>

definition prop_visible :: "(sref \<Rightarrow> unit km) \<Rightarrow> sref \<Rightarrow> nat \<Rightarrow> tristate km" where
  "prop_visible calc r k =
     kbind (ksym r) (\<lambda>s. kbind (expr_calc_value calc (p_vis_expr (s_prop s ! k))) (\<lambda>v.
       kseq (kupd r (set_prop_tri k v)) (kret v)))"

definition prop_indices :: "(property \<Rightarrow> bool) \<Rightarrow> symbol \<Rightarrow> nat list" where
  "prop_indices P s = filter (\<lambda>k. P (s_prop s ! k)) [0..<length (s_prop s)]"

fun first_visible :: "(sref \<Rightarrow> unit km) \<Rightarrow> sref \<Rightarrow> nat list \<Rightarrow> property option km" where
  "first_visible calc r [] = kret None"
| "first_visible calc r (k # ks) =
     kbind (prop_visible calc r k) (\<lambda>v.
       if v \<noteq> TNo then kbind (ksym r) (\<lambda>s. kret (Some (s_prop s ! k))) else first_visible calc r ks)"

definition sym_get_default_prop :: "(sref \<Rightarrow> unit km) \<Rightarrow> sref \<Rightarrow> property option km" where
  "sym_get_default_prop calc r =
     kbind (ksym r) (\<lambda>s. first_visible calc r (prop_indices (\<lambda>p. p_kind p = P_DEFAULT) s))"

definition sym_get_range_prop :: "(sref \<Rightarrow> unit km) \<Rightarrow> sref \<Rightarrow> property option km" where
  "sym_get_range_prop calc r =
     kbind (ksym r) (\<lambda>s. first_visible calc r (prop_indices (\<lambda>p. p_kind p = P_RANGE) s))"

section \<open>Numbers\<close>

definition xdigit_val :: "char \<Rightarrow> nat option" where
  "xdigit_val c =
     (let n = of_char c :: nat
      in if 48 \<le> n \<and> n \<le> 57 then Some (n - 48)
         else if 65 \<le> n \<and> n \<le> 70 then Some (n - 55)
         else if 97 \<le> n \<and> n \<le> 102 then Some (n - 87)
         else None)"

fun digits_base :: "nat \<Rightarrow> nat \<Rightarrow> string \<Rightarrow> nat" where
  "digits_base b a [] = a"
| "digits_base b a (c # s) =
     (case xdigit_val c of Some d \<Rightarrow> (if d < b then digits_base b (b * a + d) s else a) | None \<Rightarrow> a)"

text \<open>\<open>strtoll(s, NULL, base)\<close> for base 10 and 16, saturating at the ends of \<open>long long\<close>.\<close>

definition strtoll :: "string \<Rightarrow> nat \<Rightarrow> int" where
  "strtoll s b =
     (let s1 = dropWhile (\<lambda>c. c = CHR '' '' \<or> (9 \<le> (of_char c :: nat) \<and> (of_char c :: nat) \<le> 13)) s;
          neg = (take 1 s1 = ''-'');
          s2 = (if take 1 s1 = ''-'' \<or> take 1 s1 = ''+'' then tl s1 else s1);
          s3 = (if b = 16 \<and> (take 2 s2 = ''0x'' \<or> take 2 s2 = ''0X'') then drop 2 s2 else s2);
          v = int (digits_base b 0 s3)
      in if neg then max (- v) (- (2 ^ 63)) else min v (2 ^ 63 - 1))"

definition hex_digit :: "nat \<Rightarrow> char" where
  "hex_digit d = (if d < 10 then char_of (48 + d) else char_of (87 + d))"

fun hex_str :: "nat \<Rightarrow> string" where
  "hex_str n = (if n < 16 then [hex_digit n] else hex_str (n div 16) @ [hex_digit (n mod 16)])"

declare hex_str.simps [simp del]

definition range_base :: "symbol_type \<Rightarrow> nat option" where
  "range_base ty = (if ty = S_INT then Some 10 else if ty = S_HEX then Some 16 else None)"

definition sym_get_range_val :: "(sref \<Rightarrow> unit km) \<Rightarrow> sref \<Rightarrow> nat \<Rightarrow> int km" where
  "sym_get_range_val calc r base =
     kseq (calc r) (kbind (ksym r) (\<lambda>s.
       kret (strtoll (val_str (s_val s)) (case range_base (s_type s) of Some b \<Rightarrow> b | None \<Rightarrow> base))))"

definition range_str :: "symbol_type \<Rightarrow> int \<Rightarrow> string" where
  "range_str ty v = (if ty = S_INT then int_str v else ''0x'' @ hex_str (nat (v mod 2 ^ 64)))"

text \<open>\<open>sym_validate_range\<close>: a value below the range becomes its lower bound, one above its upper bound.\<close>

definition sym_validate_range :: "(sref \<Rightarrow> unit km) \<Rightarrow> sref \<Rightarrow> unit km" where
  "sym_validate_range calc r =
     kbind (ksym r) (\<lambda>s. case range_base (s_type s) of
       None \<Rightarrow> kret ()
     | Some base \<Rightarrow>
         kbind (sym_get_range_prop calc r) (\<lambda>po. case po of
           None \<Rightarrow> kret ()
         | Some p \<Rightarrow> (case p_expr p of
             Some (PRange lo hi) \<Rightarrow>
               kbind (ksym r) (\<lambda>s1. let val = strtoll (val_str (s_val s1)) base in
                 kbind (sym_get_range_val calc lo base) (\<lambda>v1.
                   kbind (if val \<ge> v1 then sym_get_range_val calc hi base else kret v1) (\<lambda>v2.
                     if val \<ge> v1 \<and> val \<le> v2 then kret ()
                     else kupd r (\<lambda>x. x\<lparr>s_val := VStr (range_str (s_type s) v2)\<rparr>))))
           | _ \<Rightarrow> kcrash)))"

section \<open>Visibility\<close>

fun prompts_visible :: "(sref \<Rightarrow> unit km) \<Rightarrow> sref \<Rightarrow> nat list \<Rightarrow> tristate \<Rightarrow> tristate km" where
  "prompts_visible calc r [] t = kret t"
| "prompts_visible calc r (k # ks) t =
     kbind (prop_visible calc r k) (\<lambda>v. prompts_visible calc r ks (EXPR_OR t v))"

definition change_if :: "sref \<Rightarrow> (symbol \<Rightarrow> tristate) \<Rightarrow> (tristate \<Rightarrow> symbol \<Rightarrow> symbol) \<Rightarrow> tristate \<Rightarrow> unit km" where
  "change_if r get put v =
     kbind (ksym r) (\<lambda>s. kwhen (get s \<noteq> v) (kseq (kupd r (put v)) (sym_set_changed r)))"

definition sym_calc_visibility :: "(sref \<Rightarrow> unit km) \<Rightarrow> sref \<Rightarrow> unit km" where
  "sym_calc_visibility calc r =
     kbind (ksym r) (\<lambda>s0.
     kbind (prompts_visible calc r (prop_indices (\<lambda>p. p_text p \<noteq> None) s0) TNo) (\<lambda>t.
     kbind (kget ks_modules_val) (\<lambda>mv.
     let t1 = (if t = TMod \<and> (s_type s0 \<noteq> S_TRISTATE \<or> mv = TNo) then TYes else t) in
     kseq (change_if r s_visible (\<lambda>v s. s\<lparr>s_visible := v\<rparr>) t1)
     (kbind (ksym r) (\<lambda>s.
       if sym_is_choice_value s then kret ()
       else
         kbind (expr_calc_value calc (s_dir_expr s)) (\<lambda>d.
         kseq (change_if r s_dir_tri (\<lambda>v s. s\<lparr>s_dir_tri := v\<rparr>) (if d = TMod then TYes else d))
         (kbind (case s_rev_expr s of None \<Rightarrow> kret TNo | Some e \<Rightarrow> expr_calc calc e) (\<lambda>v.
          kbind (kget (\<lambda>st. sym_get_type st r)) (\<lambda>ty.
            change_if r s_rev_tri (\<lambda>v s. s\<lparr>s_rev_tri := v\<rparr>) (if v = TMod \<and> ty = S_BOOLEAN then TYes else v))))))))))"

section \<open>Choices\<close>

fun default_choice :: "(sref \<Rightarrow> unit km) \<Rightarrow> sref \<Rightarrow> nat list \<Rightarrow> sref option km" where
  "default_choice calc r [] = kret None"
| "default_choice calc r (k # ks) =
     kbind (prop_visible calc r k) (\<lambda>v.
       if v = TNo then default_choice calc r ks
       else kbind (ksym r) (\<lambda>s. case prop_get_symbol (s_prop s ! k) of
              None \<Rightarrow> kcrash
            | Some d \<Rightarrow> kbind (ksym d) (\<lambda>ds. if s_visible ds \<noteq> TNo then kret (Some d) else default_choice calc r ks)))"

definition sym_choice_default :: "(sref \<Rightarrow> unit km) \<Rightarrow> sref \<Rightarrow> sref option km" where
  "sym_choice_default calc r =
     kbind (ksym r) (\<lambda>s.
     kbind (default_choice calc r (prop_indices (\<lambda>p. p_kind p = P_DEFAULT) s)) (\<lambda>d. case d of
       Some x \<Rightarrow> kret (Some x)
     | None \<Rightarrow> kbind (choice_values r) (\<lambda>vs. kget (\<lambda>st. find (\<lambda>v. s_visible (sym_at st v) \<noteq> TNo) vs))))"

fun choice_flags :: "(sref \<Rightarrow> unit km) \<Rightarrow> sref list \<Rightarrow> 32 word \<Rightarrow> 32 word km" where
  "choice_flags calc [] fl = kret fl"
| "choice_flags calc (d # ds) fl =
     kseq (sym_calc_visibility calc d)
       (kbind (ksym d) (\<lambda>s. choice_flags calc ds (if s_visible s \<noteq> TNo then fl AND s_flags s else fl)))"

definition sym_calc_choice :: "(sref \<Rightarrow> unit km) \<Rightarrow> sref \<Rightarrow> sref option km" where
  "sym_calc_choice calc r =
     kbind (ksym r) (\<lambda>s0.
     kbind (choice_values r) (\<lambda>vs.
     kbind (choice_flags calc vs (s_flags s0)) (\<lambda>fl.
     kseq (kupd r (\<lambda>s. s\<lparr>s_flags := s_flags s AND (fl OR NOT SYMBOL_DEF_USER)\<rparr>))
     (kbind (ksym r) (\<lambda>s.
      kbind (case fst (s_def s ! 0) of VSym d \<Rightarrow> kbind (ksym d) (\<lambda>ds. kret (if s_visible ds \<noteq> TNo then Some d else None))
             | _ \<Rightarrow> kret None) (\<lambda>u. case u of
        Some d \<Rightarrow> kret (Some d)
      | None \<Rightarrow> kbind (sym_choice_default calc r) (\<lambda>d.
          kseq (kwhen (d = None) (kupd r (\<lambda>s. s\<lparr>s_tri := TNo\<rparr>))) (kret d))))))))"

text \<open>\<open>set_all_choice_values\<close> of \<open>confdata.c\<close>.\<close>

definition set_def_tri :: "nat \<Rightarrow> tristate \<Rightarrow> symbol \<Rightarrow> symbol" where
  "set_def_tri d v s = s\<lparr>s_def := (s_def s)[d := (fst (s_def s ! d), v)]\<rparr>"

definition set_def_val :: "nat \<Rightarrow> symval \<Rightarrow> symbol \<Rightarrow> symbol" where
  "set_def_val d v s = s\<lparr>s_def := (s_def s)[d := (v, snd (s_def s ! d))]\<rparr>"

definition set_all_choice_values :: "sref \<Rightarrow> unit km" where
  "set_all_choice_values r =
     kbind (choice_values r) (\<lambda>vs.
     kseq (kfor vs (\<lambda>v. kbind (ksym v) (\<lambda>s. kwhen (\<not> sym_has_value s) (kupd v (set_def_tri 0 TNo)))))
     (kseq (kupd r (set_flag SYMBOL_DEF_USER))
       (kupd r (clear_flag (SYMBOL_VALID OR SYMBOL_NEED_SET_CHOICE_VALUES)))))"


section \<open>The value of a symbol\<close>

definition name_str :: "string option \<Rightarrow> string" where
  "name_str n = (case n of Some x \<Rightarrow> x | None \<Rightarrow> ''(null)'')"

definition warn_unmet :: "sref \<Rightarrow> unit km" where
  "warn_unmet r =
     kbind (ksym r) (\<lambda>s. case s_rev_expr s of
       None \<Rightarrow> kcrash
     | Some rexp \<Rightarrow>
         kbind (kget (\<lambda>st. expr_simplify_unmet_dep (sym_at st) rexp (s_dir_expr s))) (\<lambda>q. case q of
           None \<Rightarrow> kcrash
         | Some e \<Rightarrow> kmod (\<lambda>st. st\<lparr>ks_warnings := ks_warnings st @
             [''warning: ('' @ expr_fprint (sym_at st) (map_option PExpr e) @ '') selects '' @ name_str (s_name s) @
              '' which has unmet direct dependencies ('' @ expr_fprint (sym_at st) (map_option PExpr (s_dir_expr s)) @ '')'']\<rparr>)))"

definition write_flag :: "sref \<Rightarrow> unit km" where
  "write_flag r = kupd r (set_flag SYMBOL_WRITE)"

text \<open>A bool or tristate: the member of a choice, the user's value limited by the visibility, or the first
  visible default; never below what a \<open>select\<close> demands.\<close>

definition default_tristate :: "(sref \<Rightarrow> unit km) \<Rightarrow> sref \<Rightarrow> tristate km" where
  "default_tristate calc r =
     kbind (sym_get_default_prop calc r) (\<lambda>po. case po of
       None \<Rightarrow> kret TNo
     | Some p \<Rightarrow> kseq (write_flag r) (kbind (prop_expr_value calc p) (\<lambda>v. kret (EXPR_AND v (p_vis_tri p)))))"

definition plain_tristate :: "(sref \<Rightarrow> unit km) \<Rightarrow> sref \<Rightarrow> tristate km" where
  "plain_tristate calc r =
     kbind (ksym r) (\<lambda>s.
     kseq (kwhen (s_visible s \<noteq> TNo) (write_flag r))
     (kbind
       (if s_visible s \<noteq> TNo \<and> sym_has_value s then kret (EXPR_AND (snd (s_def s ! 0)) (s_visible s))
        else kseq (kwhen (s_rev_tri s \<noteq> TNo) (write_flag r))
               (if \<not> sym_is_choice s then default_tristate calc r else kret TNo))
       (\<lambda>new. kbind (ksym r) (\<lambda>s1.
          kseq (kwhen (s_dir_tri s1 = TNo \<and> s_rev_tri s1 \<noteq> TNo) (warn_unmet r))
          (kret (EXPR_OR new (s_rev_tri s1)))))))"

definition calc_tristate :: "(sref \<Rightarrow> unit km) \<Rightarrow> sref \<Rightarrow> tristate km" where
  "calc_tristate calc r =
     kbind (ksym r) (\<lambda>s.
     kbind
       (if sym_is_choice_value s \<and> s_visible s = TYes
        then kbind (choice_of r) (\<lambda>c. kbind (ksym c) (\<lambda>cs. kret (if s_val cs = VSym r then TYes else TNo)))
        else plain_tristate calc r)
       (\<lambda>v. kbind (kget (\<lambda>st. sym_get_type st r)) (\<lambda>ty. kret (if v = TMod \<and> ty = S_BOOLEAN then TYes else v))))"

definition calc_string :: "(sref \<Rightarrow> unit km) \<Rightarrow> sref \<Rightarrow> symval km" where
  "calc_string calc r =
     kbind (ksym r) (\<lambda>s.
     kseq (kwhen (s_visible s \<noteq> TNo) (write_flag r))
     (if s_visible s \<noteq> TNo \<and> sym_has_value s then kret (fst (s_def s ! 0))
      else kbind (sym_get_default_prop calc r) (\<lambda>po. case po of
             None \<Rightarrow> kret (VStr [])
           | Some p \<Rightarrow> (case prop_get_symbol p of
               None \<Rightarrow> kret (VStr [])
             | Some d \<Rightarrow> kseq (write_flag r) (kseq (calc d) (kbind (ksym d) (\<lambda>ds. kret (s_val ds))))))))"

text \<open>The new value \<open>newval\<close> of a symbol of one of the five proper types.\<close>

definition calc_newval :: "(sref \<Rightarrow> unit km) \<Rightarrow> sref \<Rightarrow> (symval \<times> tristate) km" where
  "calc_newval calc r =
     kbind (kget (\<lambda>st. sym_get_type st r)) (\<lambda>ty.
       if ty = S_BOOLEAN \<or> ty = S_TRISTATE then kbind (calc_tristate calc r) (\<lambda>v. kret (VStr ''n'', v))
       else kbind (calc_string calc r) (\<lambda>v. kret (v, TNo)))"

definition set_curr :: "symval \<times> tristate \<Rightarrow> symbol \<Rightarrow> symbol" where
  "set_curr v s = s\<lparr>s_val := fst v, s_tri := snd v\<rparr>"

text \<open>What follows the assignment of \<open>sym->curr\<close>.\<close>

definition finish_changed :: "sref \<Rightarrow> symval \<times> tristate \<Rightarrow> unit km" where
  "finish_changed r old =
     kbind (ksym r) (\<lambda>s. kwhen ((s_val s, s_tri s) \<noteq> old)
       (kseq (sym_set_changed r)
         (kbind (kget ks_modules) (\<lambda>mo. kwhen (mo = Some r)
           (kseq sym_set_all_changed (kmod (\<lambda>st. st\<lparr>ks_modules_val := s_tri (sym_at st r)\<rparr>)))))))"

definition finish_choice :: "sref \<Rightarrow> unit km" where
  "finish_choice r =
     kbind (ksym r) (\<lambda>s0. kwhen (sym_is_choice s0)
       (kbind (choice_values r) (\<lambda>vs. kfor vs (\<lambda>v.
          kbind (ksym r) (\<lambda>s. kbind (ksym v) (\<lambda>cs.
            kseq (kwhen (has_flag SYMBOL_WRITE s \<and> s_visible cs \<noteq> TNo) (write_flag v))
                 (kwhen (has_flag SYMBOL_CHANGED s) (sym_set_changed v))))))))"

definition finish_flags :: "sref \<Rightarrow> unit km" where
  "finish_flags r =
     kbind (ksym r) (\<lambda>s.
     kseq (kwhen (has_flag SYMBOL_AUTO s) (kupd r (clear_flag SYMBOL_WRITE)))
       (kwhen (has_flag SYMBOL_NEED_SET_CHOICE_VALUES s) (set_all_choice_values r)))"

definition calc_rest :: "(sref \<Rightarrow> unit km) \<Rightarrow> sref \<Rightarrow> symbol \<Rightarrow> unit km" where
  "calc_rest calc r s0 =
     (let old = (s_val s0, s_tri s0);
          zero = (if s_type s0 = S_BOOLEAN \<or> s_type s0 = S_TRISTATE then (VStr ''n'', TNo) else (VStr [], TNo))
      in if s_type s0 = S_UNKNOWN \<or> s_type s0 = S_OTHER
         then kupd r (set_curr (case s_name s0 of Some n \<Rightarrow> VStr n | None \<Rightarrow> VNull, TNo))
         else
           kseq (kwhen (\<not> sym_is_choice_value s0) (kupd r (clear_flag SYMBOL_WRITE)))
           (kseq (sym_calc_visibility calc r)
           (kseq (kupd r (set_curr zero))
           (kbind (calc_newval calc r) (\<lambda>new.
            kseq (kupd r (set_curr new))
            (kseq (kwhen (sym_is_choice s0 \<and> snd new = TYes)
                     (kbind (sym_calc_choice calc r) (\<lambda>d.
                        kupd r (\<lambda>s. s\<lparr>s_val := (case d of Some x \<Rightarrow> VSym x | None \<Rightarrow> VNull)\<rparr>))))
            (kseq (sym_validate_range calc r)
            (kseq (finish_changed r old)
            (kseq (finish_choice r) (finish_flags r))))))))))"

definition calc_body :: "(sref \<Rightarrow> unit km) \<Rightarrow> sref \<Rightarrow> unit km" where
  "calc_body calc r =
     kbind (ksym r) (\<lambda>s0. kseq (kupd r (set_flag SYMBOL_VALID)) (calc_rest calc r s0))"

fun sym_calc_value :: "nat \<Rightarrow> sref \<Rightarrow> unit km" where
  "sym_calc_value 0 r = (\<lambda>st. NoFuel)"
| "sym_calc_value (Suc n) r =
     kbind (ksym r) (\<lambda>s.
       if has_flag SYMBOL_VALID s then kret ()
       else
         kseq (kwhen (sym_is_choice_value s \<and> has_flag SYMBOL_NEED_SET_CHOICE_VALUES s)
                 (kseq (kupd r (clear_flag SYMBOL_NEED_SET_CHOICE_VALUES))
                   (kbind (choice_of r) (sym_calc_value n))))
              (calc_body (sym_calc_value n) r))"

text \<open>What is left to do: symbols to calculate and pending choice requests.\<close>

definition cost :: "symbol \<Rightarrow> nat" where
  "cost s = (if has_flag SYMBOL_VALID s then 0 else 1) + (if has_flag SYMBOL_NEED_SET_CHOICE_VALUES s then 1 else 0)"

definition todo :: "kst \<Rightarrow> nat" where
  "todo st = sum_list (map cost (ks_syms st))"

text \<open>The call with a bound that is enough (\<open>KSymbolFacts\<close>).\<close>

definition sym_calc :: "sref \<Rightarrow> unit km" where
  "sym_calc r = (\<lambda>st. sym_calc_value (Suc (todo st)) r st)"

end
