(* ===== verification/KSymbolFacts.thy ===== *)
theory KSymbolFacts
  imports KSymbol KExprFacts
begin

text \<open>
  The calculation of symbol values ends, and keeps the table in order: the nesting of
  \<open>sym_calc_value\<close> is bounded by the symbols that are still to be calculated, types never change, a bool
  never becomes \<open>m\<close> and the static constants stay what they are.
\<close>

section \<open>Invariants of operations\<close>

text \<open>An operation keeps \<open>I\<close>, does not run out of nested calls, and its result satisfies \<open>R\<close>.\<close>

definition keeps :: "(kst \<Rightarrow> bool) \<Rightarrow> 'a km \<Rightarrow> ('a \<Rightarrow> bool) \<Rightarrow> bool" where
  "keeps I m R \<longleftrightarrow> (\<forall>st. I st \<longrightarrow> (case m st of Ret x st' \<Rightarrow> I st' \<and> R x | Crash \<Rightarrow> True | NoFuel \<Rightarrow> False))"

abbreviation keep :: "(kst \<Rightarrow> bool) \<Rightarrow> 'a km \<Rightarrow> bool" where
  "keep I m \<equiv> keeps I m (\<lambda>_. True)"

named_theorems keep_intros \<open>rules for the operations that keep an invariant\<close>

lemma keeps_ret: "R x \<Longrightarrow> keeps I (kret x) R"
  by (simp add: keeps_def kret_def)

lemma keeps_bind: "keeps I m Q \<Longrightarrow> (\<And>x. Q x \<Longrightarrow> keeps I (f x) R) \<Longrightarrow> keeps I (kbind m f) R"
proof -
  assume m: "keeps I m Q" and f: "\<And>x. Q x \<Longrightarrow> keeps I (f x) R"
  show ?thesis unfolding keeps_def
  proof (intro allI impI)
    fix st assume "I st"
    then have "case m st of Ret x st' \<Rightarrow> I st' \<and> Q x | Crash \<Rightarrow> True | NoFuel \<Rightarrow> False" using m by (simp add: keeps_def)
    then show "case kbind m f st of Ret x st' \<Rightarrow> I st' \<and> R x | Crash \<Rightarrow> True | NoFuel \<Rightarrow> False"
      using f unfolding keeps_def kbind_def by (cases "m st") auto
  qed
qed

lemma keeps_weaken: "keeps I m Q \<Longrightarrow> (\<And>x. Q x \<Longrightarrow> R x) \<Longrightarrow> keeps I m R"
  using keeps_bind [of I m Q kret R] keeps_ret [of R _ I] unfolding kbind_def kret_def
  by (auto simp: keeps_def split: kres.splits)

lemma keep_ret [keep_intros]: "keep I (kret x)"
  by (rule keeps_ret) simp

lemma keep_bind [keep_intros]: "keep I m \<Longrightarrow> (\<And>x. keeps I (f x) R) \<Longrightarrow> keeps I (kbind m f) R"
  by (rule keeps_bind) auto

lemma keep_seq [keep_intros]: "keep I m \<Longrightarrow> keeps I m' R \<Longrightarrow> keeps I (kseq m m') R"
  unfolding kseq_def by (rule keep_bind)

lemma keep_get [keep_intros]: "keep I (kget f)"
  by (simp add: keeps_def kget_def)

lemma keep_sym [keep_intros]: "keep I (ksym r)"
  unfolding ksym_def by (rule keep_get)

lemma keep_crash [keep_intros]: "keeps I kcrash R"
  by (simp add: keeps_def kcrash_def)

lemma keep_when [keep_intros]: "keep I m \<Longrightarrow> keep I (kwhen b m)"
  by (simp add: kwhen_def keep_ret)

lemma keep_for [keep_intros]: "(\<And>x. keep I (f x)) \<Longrightarrow> keep I (kfor xs f)"
  by (induction xs) (auto intro: keep_intros)

lemma keep_mod: "(\<And>st. I st \<Longrightarrow> I (f st)) \<Longrightarrow> keep I (kmod f)"
  by (simp add: keeps_def kmod_def)

lemma keep_upd: "(\<And>st. I st \<Longrightarrow> I (sym_upd r f st)) \<Longrightarrow> keep I (kupd r f)"
  unfolding kupd_def by (rule keep_mod)

lemma keep_if [keep_intros]: "keeps I a R \<Longrightarrow> keeps I b R \<Longrightarrow> keeps I (if P then a else b) R"
  by simp

lemma keep_option [keep_intros]: "keeps I a R \<Longrightarrow> (\<And>x. keeps I (f x) R) \<Longrightarrow> keeps I (case q of None \<Rightarrow> a | Some x \<Rightarrow> f x) R"
  by (cases q) auto

lemma keep_pexpr [keep_intros]:
  "(\<And>e. keeps I (f e) R) \<Longrightarrow> (\<And>l. keeps I (g l) R) \<Longrightarrow> (\<And>a b. keeps I (h a b) R) \<Longrightarrow>
     keeps I (case q of PExpr e \<Rightarrow> f e | PList l \<Rightarrow> g l | PRange a b \<Rightarrow> h a b) R"
  by (cases q) auto

lemma keep_symval [keep_intros]:
  "keeps I a R \<Longrightarrow> (\<And>s. keeps I (f s) R) \<Longrightarrow> (\<And>s. keeps I (g s) R) \<Longrightarrow>
     keeps I (case q of VNull \<Rightarrow> a | VStr s \<Rightarrow> f s | VSym s \<Rightarrow> g s) R"
  by (cases q) auto

lemma keep_let [keep_intros]: "(\<And>y. keeps I (f y) R) \<Longrightarrow> keeps I (Let x f) R"
  by (simp add: Let_def)

section \<open>The invariant\<close>

definition is_static :: "sref \<Rightarrow> bool" where
  "is_static r \<longleftrightarrow> r = SymYes \<or> r = SymMod \<or> r = SymNo"

definition chains_ok :: "kst \<Rightarrow> bool" where
  "chains_ok st \<longleftrightarrow> (\<forall>h. \<forall>r \<in> set (ks_hash st h). \<not> is_static r)"

lemma chains_ok_upd [simp]: "chains_ok (sym_upd r f st) = chains_ok st"
  by (simp add: chains_ok_def)

definition table_inv :: "nat \<Rightarrow> symbol_type list \<Rightarrow> kst \<Rightarrow> bool" where
  "table_inv k tys st \<longleftrightarrow>
     todo st \<le> k \<and> map s_type (ks_syms st) = tys \<and> static_ok st \<and> chains_ok st \<and>
     (\<forall>r. is_static r \<longrightarrow> has_flag SYMBOL_VALID (sym_at st r)) \<and>
     (\<forall>s \<in> set (ks_syms st). s_type s = S_BOOLEAN \<longrightarrow> s_tri s \<noteq> TMod)"

lemma type_at: "table_inv k tys st \<Longrightarrow> s_type (sym_at st r) = (if sref_idx r < length tys then tys ! sref_idx r else S_UNKNOWN)"
  by (auto simp: table_inv_def sym_at_def)

text \<open>Updates that leave the value alone.\<close>

definition harmless :: "(symbol \<Rightarrow> symbol) \<Rightarrow> bool" where
  "harmless f \<longleftrightarrow> (\<forall>s. s_type (f s) = s_type s \<and> s_tri (f s) = s_tri s \<and> s_val (f s) = s_val s \<and>
     (has_flag SYMBOL_VALID s \<longrightarrow> has_flag SYMBOL_VALID (f s)) \<and>
     (has_flag SYMBOL_NEED_SET_CHOICE_VALUES (f s) \<longrightarrow> has_flag SYMBOL_NEED_SET_CHOICE_VALUES s))"

lemma harmless_cost: "harmless f \<Longrightarrow> cost (f s) \<le> cost s"
  by (simp add: harmless_def cost_def)

lemma upd_beyond: "length (ks_syms st) \<le> sref_idx r \<Longrightarrow> sym_upd r f st = st"
  by (simp add: sym_upd_def list_update_beyond)

lemma sum_list_list_update:
  fixes xs :: "nat list"
  shows "i < length xs \<Longrightarrow> sum_list (xs[i := y]) + xs ! i = sum_list xs + y"
  by (induction xs arbitrary: i) (auto split: nat.splits)

lemma todo_upd:
  "sref_idx r < length (ks_syms st) \<Longrightarrow> todo (sym_upd r f st) + cost (sym_at st r) = todo st + cost (f (sym_at st r))"
  using sum_list_list_update [of "sref_idx r" "map cost (ks_syms st)" "cost (f (sym_at st r))"]
  by (simp add: todo_def sym_upd_def map_update sym_at_def)

lemma all_upd: "\<forall>s \<in> set (ks_syms st). P s \<Longrightarrow> P (f (sym_at st r)) \<Longrightarrow> \<forall>s \<in> set (ks_syms (sym_upd r f st)). P s"
  using set_update_subset_insert [of "ks_syms st" "sref_idx r" "f (sym_at st r)"] by (auto simp: sym_upd_def)

lemma types_upd:
  assumes "s_type (f (sym_at st r)) = s_type (sym_at st r)"
  shows "map s_type (ks_syms (sym_upd r f st)) = map s_type (ks_syms st)"
proof (cases "sref_idx r < length (ks_syms st)")
  case True
  then have "map s_type (ks_syms st) ! sref_idx r = s_type (f (sym_at st r))" using assms by (simp add: sym_at_def)
  then show ?thesis using True by (simp add: sym_upd_def map_update list_update_same_conv)
qed (simp add: upd_beyond)

lemma static_ok_upd:
  assumes "static_ok st" and "is_static r \<longrightarrow> s_tri (f (sym_at st r)) = s_tri (sym_at st r) \<and>
      s_val (f (sym_at st r)) = s_val (sym_at st r) \<and> s_type (f (sym_at st r)) = s_type (sym_at st r)"
  shows "static_ok (sym_upd r f st)"
  using assms by (auto simp: static_ok_def is_static_def split: if_splits)

lemma table_inv_harmless:
  assumes "harmless f" "table_inv k tys st"
  shows "table_inv k tys (sym_upd r f st)"
proof (cases "sref_idx r < length (ks_syms st)")
  case True
  have h: "s_type (f s) = s_type s" "s_tri (f s) = s_tri s" "s_val (f s) = s_val s"
      "has_flag SYMBOL_VALID s \<Longrightarrow> has_flag SYMBOL_VALID (f s)" for s
    using assms(1) by (auto simp: harmless_def)
  have "todo (sym_upd r f st) \<le> todo st"
    using todo_upd [OF True, of f] harmless_cost [OF assms(1), of "sym_at st r"] by linarith
  moreover have "\<forall>s \<in> set (ks_syms (sym_upd r f st)). s_type s = S_BOOLEAN \<longrightarrow> s_tri s \<noteq> TMod"
    by (rule all_upd) (use assms(2) True h in \<open>auto simp: table_inv_def sym_at_def\<close>)
  ultimately show ?thesis
    using assms(2) h types_upd [of f st r] static_ok_upd [of st r f] by (auto simp: table_inv_def)
qed (use assms(2) in \<open>simp add: upd_beyond\<close>)

lemma keep_harmless: "harmless f \<Longrightarrow> keep (table_inv k tys) (kupd r f)"
  by (rule keep_upd) (rule table_inv_harmless)

lemma and_or_zero: "(x OR y) AND f = 0 \<longleftrightarrow> x AND f = 0 \<and> y AND f = 0" for x y f :: "32 word"
  by (simp add: bit.conj_disj_distrib2 or_eq_0_iff)

lemma has_set_flag: "has_flag f (set_flag g s) \<longleftrightarrow> has_flag f s \<or> g AND f \<noteq> 0"
  by (simp add: has_flag_def set_flag_def and_or_zero)

lemma has_clear_flag: "f AND g = 0 \<Longrightarrow> has_flag f (clear_flag g s) \<longleftrightarrow> has_flag f s"
proof -
  assume "f AND g = 0"
  then have "\<not> (bit f n \<and> bit g n)" for n by (metis bit_and_iff bit_0_eq bot_apply bot_bool_def)
  then have "NOT g AND f = f" by (intro bit_word_eqI) (auto simp: bit_simps)
  then show ?thesis by (simp add: has_flag_def clear_flag_def and.assoc)
qed


lemma harmless_set_flag: "g AND SYMBOL_NEED_SET_CHOICE_VALUES = 0 \<Longrightarrow> harmless (set_flag g)"
  by (simp add: harmless_def has_set_flag) (simp add: set_flag_def)

lemma and_zero_sub: "x AND n = 0 \<Longrightarrow> (x AND y) AND n = 0" for x y n :: "32 word"
proof -
  assume "x AND n = 0"
  moreover have "(x AND y) AND n = (x AND n) AND y" by (simp only: and.assoc and.commute [of y n])
  ultimately show ?thesis by simp
qed

lemma harmless_clear_flag: "SYMBOL_VALID AND g = 0 \<Longrightarrow> harmless (clear_flag g)"
proof -
  assume g: "SYMBOL_VALID AND g = 0"
  have "has_flag n s" if "has_flag n (clear_flag g s)" for n s
    using that and_zero_sub [of "s_flags s" n "NOT g"] by (auto simp: has_flag_def clear_flag_def)
  then show ?thesis using has_clear_flag [OF g] by (auto simp: harmless_def clear_flag_def)
qed

lemma harmless_flags [keep_intros]:
  "harmless (set_flag SYMBOL_CHANGED)" "harmless (set_flag SYMBOL_WRITE)" "harmless (set_flag SYMBOL_DEF_USER)"
  "harmless (set_flag SYMBOL_VALID)" "harmless (clear_flag SYMBOL_WRITE)" "harmless (clear_flag SYMBOL_NEED_SET_CHOICE_VALUES)"
  by (auto intro!: harmless_set_flag harmless_clear_flag simp: flag_defs)

lemma harmless_fields [keep_intros]:
  "harmless (set_prop_tri i v)" "harmless (set_def_tri i v)"
  "harmless (\<lambda>s. s\<lparr>s_visible := v\<rparr>)" "harmless (\<lambda>s. s\<lparr>s_dir_tri := v\<rparr>)" "harmless (\<lambda>s. s\<lparr>s_rev_tri := v\<rparr>)"
  by (simp_all add: harmless_def has_flag_def set_prop_tri_def set_def_tri_def)

lemma harmless_and_flags [keep_intros]:
  "harmless (\<lambda>s. s\<lparr>s_flags := s_flags s AND (fl OR NOT SYMBOL_DEF_USER)\<rparr>)"
proof -
  have "NOT SYMBOL_DEF_USER AND SYMBOL_VALID = SYMBOL_VALID" by (simp add: flag_defs)
  then have v: "(fl OR NOT SYMBOL_DEF_USER) AND SYMBOL_VALID = SYMBOL_VALID"
    by (intro bit_word_eqI) (metis bit_and_iff bit_or_iff)
  have "has_flag n s" if "has_flag n (s\<lparr>s_flags := s_flags s AND (fl OR NOT SYMBOL_DEF_USER)\<rparr>)" for n s
    using that and_zero_sub [of "s_flags s" n "fl OR NOT SYMBOL_DEF_USER"] by (auto simp: has_flag_def)
  then show ?thesis using v by (auto simp: harmless_def has_flag_def and.assoc)
qed


declare keep_harmless [keep_intros]

lemma table_inv_frame [simp]:
  "table_inv k tys (st\<lparr>ks_menu_changed := xs\<rparr>) = table_inv k tys st"
  "table_inv k tys (st\<lparr>ks_warnings := ws\<rparr>) = table_inv k tys st"
  "table_inv k tys (st\<lparr>ks_modules_val := v\<rparr>) = table_inv k tys st"
  "table_inv k tys (st\<lparr>ks_change_count := n\<rparr>) = table_inv k tys st"
  "table_inv k tys (st\<lparr>ks_conf_filename := f\<rparr>) = table_inv k tys st"
  "table_inv k tys (st\<lparr>ks_conf_lineno := n\<rparr>) = table_inv k tys st"
  "table_inv k tys (st\<lparr>ks_conf_warnings := n\<rparr>) = table_inv k tys st"
  "table_inv k tys (st\<lparr>ks_conf_unsaved := n\<rparr>) = table_inv k tys st"
  by (simp_all add: table_inv_def todo_def static_ok_def chains_ok_def sym_at_def)

lemma keep_set_changed [keep_intros]: "keep (table_inv k tys) (sym_set_changed r)"
  unfolding sym_set_changed_def by (intro keep_intros keep_mod) simp

lemma keep_set_all_changed [keep_intros]: "keep (table_inv k tys) sym_set_all_changed"
  unfolding sym_set_all_changed_def by (intro keep_intros)

lemma keep_write_flag [keep_intros]: "keep (table_inv k tys) (write_flag r)"
  unfolding write_flag_def by (intro keep_intros)

lemma keep_choice_of [keep_intros]: "keep I (choice_of r)" "keep I (choice_values r)"
  unfolding choice_of_def choice_values_def by (intro keep_intros)+

lemma keep_get_string [keep_intros]: "(\<And>r. keep I (calc r)) \<Longrightarrow> keep I (get_string calc r)"
  unfolding get_string_def by (intro keep_intros)

lemma keep_expr_calc [keep_intros]: "(\<And>r. keep I (calc r)) \<Longrightarrow> keep I (expr_calc calc e)"
  by (induction e) (simp; intro keep_intros; assumption)+

lemma keep_expr_calc_value [keep_intros]: "(\<And>r. keep I (calc r)) \<Longrightarrow> keep I (expr_calc_value calc e)"
  by (cases e) (auto intro: keep_intros)

lemma keep_prop_expr_value [keep_intros]: "(\<And>r. keep I (calc r)) \<Longrightarrow> keep I (prop_expr_value calc p)"
  unfolding prop_expr_value_def by (intro keep_intros)

lemma keep_prop_visible [keep_intros]:
  "(\<And>r. keep (table_inv k tys) (calc r)) \<Longrightarrow> keep (table_inv k tys) (prop_visible calc r i)"
  unfolding prop_visible_def by (intro keep_intros)

lemma keep_first_visible [keep_intros]:
  "(\<And>r. keep (table_inv k tys) (calc r)) \<Longrightarrow> keep (table_inv k tys) (first_visible calc r js)"
  by (induction js) (simp; intro keep_intros; assumption)+

lemma keep_default_prop [keep_intros]:
  "(\<And>r. keep (table_inv k tys) (calc r)) \<Longrightarrow> keep (table_inv k tys) (sym_get_default_prop calc r)"
  "(\<And>r. keep (table_inv k tys) (calc r)) \<Longrightarrow> keep (table_inv k tys) (sym_get_range_prop calc r)"
  unfolding sym_get_default_prop_def sym_get_range_prop_def by (intro keep_intros; assumption)+

lemma keep_range_val [keep_intros]: "(\<And>r. keep I (calc r)) \<Longrightarrow> keep I (sym_get_range_val calc r b)"
  unfolding sym_get_range_val_def by (intro keep_intros)

lemma keep_prompts [keep_intros]:
  "(\<And>r. keep (table_inv k tys) (calc r)) \<Longrightarrow> keep (table_inv k tys) (prompts_visible calc r js t)"
  by (induction js arbitrary: t) (simp; intro keep_intros; assumption)+

lemma keep_change_if [keep_intros]: "harmless (put v) \<Longrightarrow> keep (table_inv k tys) (change_if r get put v)"
  unfolding change_if_def by (intro keep_intros)

lemma keep_visibility [keep_intros]:
  "(\<And>r. keep (table_inv k tys) (calc r)) \<Longrightarrow> keep (table_inv k tys) (sym_calc_visibility calc r)"
  unfolding sym_calc_visibility_def by (intro keep_intros)

lemma keep_default_choice [keep_intros]:
  "(\<And>r. keep (table_inv k tys) (calc r)) \<Longrightarrow> keep (table_inv k tys) (default_choice calc r js)"
  by (induction js) (simp; intro keep_intros; assumption)+

lemma keep_choice_default [keep_intros]:
  "(\<And>r. keep (table_inv k tys) (calc r)) \<Longrightarrow> keep (table_inv k tys) (sym_choice_default calc r)"
  unfolding sym_choice_default_def by (intro keep_intros)

lemma keep_choice_flags [keep_intros]:
  "(\<And>r. keep (table_inv k tys) (calc r)) \<Longrightarrow> keep (table_inv k tys) (choice_flags calc ds fl)"
  by (induction ds arbitrary: fl) (simp; intro keep_intros; assumption)+


section \<open>Updates of a value\<close>

definition type_of :: "symbol_type list \<Rightarrow> sref \<Rightarrow> symbol_type" where
  "type_of tys r = (if sref_idx r < length tys then tys ! sref_idx r else S_UNKNOWN)"

text \<open>A new value for a symbol that is not one of the constants, and not \<open>m\<close> for a bool.\<close>

lemma table_inv_value:
  assumes "table_inv k tys st" "\<not> is_static r" "type_of tys r = S_BOOLEAN \<longrightarrow> snd v \<noteq> TMod"
  shows "table_inv k tys (sym_upd r (set_curr v) st)"
proof (cases "sref_idx r < length (ks_syms st)")
  case True
  have t: "s_type (sym_at st r) = type_of tys r" using type_at [OF assms(1)] by (simp add: type_of_def)
  have c: "cost (set_curr v x) = cost x" "has_flag fl (set_curr v x) = has_flag fl x" "s_type (set_curr v x) = s_type x" for x fl
    by (simp_all add: cost_def has_flag_def set_curr_def)
  have "todo (sym_upd r (set_curr v) st) \<le> todo st" using todo_upd [OF True, of "set_curr v"] c by simp
  moreover have "\<forall>s \<in> set (ks_syms (sym_upd r (set_curr v) st)). s_type s = S_BOOLEAN \<longrightarrow> s_tri s \<noteq> TMod"
    by (rule all_upd) (use assms t c in \<open>auto simp: table_inv_def set_curr_def\<close>)
  ultimately show ?thesis
    using assms(1,2) c types_upd [of "set_curr v" st r] static_ok_upd [of st r "set_curr v"] by (auto simp: table_inv_def)
qed (use assms(1) in \<open>simp add: upd_beyond\<close>)

lemma keep_set_curr:
  "\<not> is_static r \<Longrightarrow> type_of tys r = S_BOOLEAN \<longrightarrow> snd v \<noteq> TMod \<Longrightarrow> keep (table_inv k tys) (kupd r (set_curr v))"
  by (rule keep_upd) (rule table_inv_value)

lemma upd_as_curr:
  "sym_upd r (\<lambda>s. s\<lparr>s_val := x\<rparr>) st = sym_upd r (set_curr (x, s_tri (sym_at st r))) st"
  "sym_upd r (\<lambda>s. s\<lparr>s_tri := t\<rparr>) st = sym_upd r (set_curr (s_val (sym_at st r), t)) st"
  by (simp_all add: sym_upd_def set_curr_def)

lemma tri_not_mod:
  assumes "table_inv k tys st" "type_of tys r = S_BOOLEAN"
  shows "s_tri (sym_at st r) \<noteq> TMod"
proof -
  have "s_type (sym_at st r) = S_BOOLEAN" using type_at [OF assms(1), of r] assms(2) by (simp add: type_of_def split: if_splits)
  moreover from this have "sym_at st r \<in> set (ks_syms st)" by (auto simp: sym_at_def split: if_splits)
  ultimately show ?thesis using assms(1) by (simp add: table_inv_def)
qed

lemma keep_set_val: "\<not> is_static r \<Longrightarrow> keep (table_inv k tys) (kupd r (\<lambda>s. s\<lparr>s_val := x\<rparr>))"
  by (rule keep_upd) (simp add: upd_as_curr table_inv_value tri_not_mod)

lemma keep_set_tri_no: "\<not> is_static r \<Longrightarrow> keep (table_inv k tys) (kupd r (\<lambda>s. s\<lparr>s_tri := TNo\<rparr>))"
  by (rule keep_upd) (simp add: upd_as_curr table_inv_value)

lemma keep_validate [keep_intros]:
  "(\<And>r. keep (table_inv k tys) (calc r)) \<Longrightarrow> \<not> is_static r \<Longrightarrow> keep (table_inv k tys) (sym_validate_range calc r)"
  unfolding sym_validate_range_def by (intro keep_intros keep_set_val)

lemma keep_calc_choice [keep_intros]:
  "(\<And>r. keep (table_inv k tys) (calc r)) \<Longrightarrow> \<not> is_static r \<Longrightarrow> keep (table_inv k tys) (sym_calc_choice calc r)"
  unfolding sym_calc_choice_def by (intro keep_intros keep_set_tri_no)

lemma keep_warn [keep_intros]: "keep (table_inv k tys) (warn_unmet r)"
  unfolding warn_unmet_def by (intro keep_intros keep_mod) simp

lemma keep_default_tristate [keep_intros]:
  "(\<And>r. keep (table_inv k tys) (calc r)) \<Longrightarrow> keep (table_inv k tys) (default_tristate calc r)"
  unfolding default_tristate_def by (intro keep_intros)

lemma keep_plain_tristate [keep_intros]:
  "(\<And>r. keep (table_inv k tys) (calc r)) \<Longrightarrow> keep (table_inv k tys) (plain_tristate calc r)"
  unfolding plain_tristate_def by (intro keep_intros)

lemma keeps_get_type:
  "keeps (table_inv k tys) (kget (\<lambda>st. sym_get_type st r)) (\<lambda>ty. type_of tys r = S_BOOLEAN \<longrightarrow> ty = S_BOOLEAN)"
  using type_at by (auto simp: keeps_def kget_def sym_get_type_def type_of_def Let_def)

lemma keeps_calc_tristate:
  assumes C: "\<And>r. keep (table_inv k tys) (calc r)"
  shows "keeps (table_inv k tys) (calc_tristate calc r) (\<lambda>v. type_of tys r = S_BOOLEAN \<longrightarrow> v \<noteq> TMod)"
proof -
  have "keeps (table_inv k tys) (kbind (kget (\<lambda>st. sym_get_type st r)) (\<lambda>ty. kret (if v = TMod \<and> ty = S_BOOLEAN then TYes else v)))
      (\<lambda>v. type_of tys r = S_BOOLEAN \<longrightarrow> v \<noteq> TMod)" for v
    by (rule keeps_bind [OF keeps_get_type]) (auto intro: keeps_ret)
  then show ?thesis unfolding calc_tristate_def
    by (intro keep_bind [OF keep_sym] keep_bind [OF keep_if]) (assumption | intro keep_intros C)+
qed

lemma keep_calc_string [keep_intros]:
  "(\<And>r. keep (table_inv k tys) (calc r)) \<Longrightarrow> keep (table_inv k tys) (calc_string calc r)"
  unfolding calc_string_def by (intro keep_intros)

lemma keeps_newval:
  assumes C: "\<And>r. keep (table_inv k tys) (calc r)"
  shows "keeps (table_inv k tys) (calc_newval calc r) (\<lambda>v. type_of tys r = S_BOOLEAN \<longrightarrow> snd v \<noteq> TMod)"
proof -
  have "keeps (table_inv k tys) (kbind (calc_tristate calc r) (\<lambda>v. kret (VStr ''n'', v))) (\<lambda>v. type_of tys r = S_BOOLEAN \<longrightarrow> snd v \<noteq> TMod)"
    by (rule keeps_bind [OF keeps_calc_tristate [OF C]]) (auto intro: keeps_ret)
  moreover have "keeps (table_inv k tys) (kbind (calc_string calc r) (\<lambda>v. kret (v, TNo))) (\<lambda>v. type_of tys r = S_BOOLEAN \<longrightarrow> snd v \<noteq> TMod)"
    by (rule keep_bind [OF keep_calc_string [OF C]]) (auto intro: keeps_ret)
  ultimately show ?thesis unfolding calc_newval_def by (intro keep_bind [OF keep_get] keep_if)
qed

lemma keep_finish [keep_intros]:
  "keep (table_inv k tys) (finish_changed r old)" "keep (table_inv k tys) (finish_choice r)"
  unfolding finish_changed_def finish_choice_def by (intro keep_intros keep_mod; simp)+


section \<open>The request of a choice\<close>

text \<open>An operation that leads from \<open>I\<close> to \<open>J\<close>.\<close>

definition leads :: "(kst \<Rightarrow> bool) \<Rightarrow> 'a km \<Rightarrow> (kst \<Rightarrow> bool) \<Rightarrow> bool" where
  "leads I m J \<longleftrightarrow> (\<forall>st. I st \<longrightarrow> (case m st of Ret x st' \<Rightarrow> J st' | Crash \<Rightarrow> True | NoFuel \<Rightarrow> False))"

lemma leads_keep: "leads I m I \<longleftrightarrow> keep I m"
  unfolding leads_def keeps_def simp_thms(21) ..

lemma leads_bind: "leads I m H \<Longrightarrow> (\<And>x. leads H (f x) J) \<Longrightarrow> leads I (kbind m f) J"
  by (fastforce simp: leads_def kbind_def split: kres.splits)

lemma leads_weaken: "leads I m H \<Longrightarrow> (\<And>st. J st \<Longrightarrow> I st) \<Longrightarrow> (\<And>st. H st \<Longrightarrow> K st) \<Longrightarrow> leads J m K"
proof -
  assume m: "leads I m H" and J: "\<And>st. J st \<Longrightarrow> I st" and K: "\<And>st. H st \<Longrightarrow> K st"
  show ?thesis unfolding leads_def
  proof (intro allI impI)
    fix st assume "J st"
    then have "case m st of Ret x st' \<Rightarrow> H st' | Crash \<Rightarrow> True | NoFuel \<Rightarrow> False" using m J by (simp add: leads_def)
    then show "case m st of Ret x st' \<Rightarrow> K st' | Crash \<Rightarrow> True | NoFuel \<Rightarrow> False" using K by (cases "m st") auto
  qed
qed

lemma leads_seq: "leads I m H \<Longrightarrow> leads H m' J \<Longrightarrow> leads I (kseq m m') J"
  unfolding kseq_def by (rule leads_bind)

lemma leads_upd: "(\<And>st. I st \<Longrightarrow> J (sym_upd r f st)) \<Longrightarrow> leads I (kupd r f) J"
  by (simp add: leads_def kupd_def kmod_def)

lemma leads_sym: "(\<And>s. leads (\<lambda>st. I st \<and> sym_at st r = s) (f s) J) \<Longrightarrow> leads I (kbind (ksym r) f) J"
  by (simp add: leads_def kbind_def ksym_def kget_def)

definition requested :: "nat \<Rightarrow> symbol_type list \<Rightarrow> sref \<Rightarrow> kst \<Rightarrow> bool" where
  "requested k tys r st \<longleftrightarrow> table_inv k tys st \<and> has_flag SYMBOL_NEED_SET_CHOICE_VALUES (sym_at st r)"

lemma keep_requested:
  assumes "harmless f" "\<And>s. has_flag SYMBOL_NEED_SET_CHOICE_VALUES s \<Longrightarrow> has_flag SYMBOL_NEED_SET_CHOICE_VALUES (f s)"
  shows "keep (requested k tys r) (kupd q f)"
  using assms by (intro keep_upd) (auto simp: requested_def table_inv_harmless)

lemma keep_requested_ops:
  "keep (requested k tys r) (kupd q (set_def_tri i v))"
  "keep (requested k tys r) (kupd q (set_flag g))" if "g AND SYMBOL_NEED_SET_CHOICE_VALUES = 0"
  using that
  by (auto intro!: keep_requested harmless_set_flag intro: keep_intros simp: has_set_flag)
     (simp add: set_def_tri_def has_flag_def)

lemma keep_requested_clear: "keep (requested k tys r) (kupd q (clear_flag SYMBOL_WRITE))"
  by (rule keep_requested, rule harmless_flags) (simp add: has_clear_flag flag_defs)

lemma requested_done:
  assumes "requested k tys r st" "\<not> is_static r"
  shows "table_inv k tys (sym_upd r (clear_flag (SYMBOL_VALID OR SYMBOL_NEED_SET_CHOICE_VALUES)) st)"
proof (cases "sref_idx r < length (ks_syms st)")
  case True
  let ?f = "clear_flag (SYMBOL_VALID OR SYMBOL_NEED_SET_CHOICE_VALUES)"
  have i: "table_inv k tys st" and n: "has_flag SYMBOL_NEED_SET_CHOICE_VALUES (sym_at st r)"
    using assms(1) by (auto simp: requested_def)
  have h: "s_type (?f s) = s_type s" "s_tri (?f s) = s_tri s" "s_val (?f s) = s_val s" for s by (simp_all add: clear_flag_def)
  have "\<not> has_flag SYMBOL_NEED_SET_CHOICE_VALUES (?f s)" for s by (simp add: clear_flag_def has_flag_def flag_defs and.assoc)
  then have "cost (?f (sym_at st r)) \<le> cost (sym_at st r)" using n by (simp add: cost_def)
  then have "todo (sym_upd r ?f st) \<le> todo st" using todo_upd [OF True, of ?f] by linarith
  moreover have "\<forall>s \<in> set (ks_syms (sym_upd r ?f st)). s_type s = S_BOOLEAN \<longrightarrow> s_tri s \<noteq> TMod"
    by (rule all_upd) (use i True h in \<open>auto simp: table_inv_def sym_at_def\<close>)
  ultimately show ?thesis
    using i assms(2) h types_upd [of ?f st r] static_ok_upd [of st r ?f] by (auto simp: table_inv_def)
qed (use assms(1) in \<open>simp add: upd_beyond requested_def\<close>)

lemma leads_set_all_choice_values:
  "\<not> is_static r \<Longrightarrow> leads (requested k tys r) (set_all_choice_values r) (table_inv k tys)"
  unfolding set_all_choice_values_def
  by (rule leads_bind [where H = "requested k tys r"], unfold leads_keep, rule keep_choice_of,
      rule leads_seq [where H = "requested k tys r"], unfold leads_keep,
      intro keep_intros keep_requested_ops(1) [where g = 0], simp,
      rule leads_seq [where H = "requested k tys r"], unfold leads_keep,
      rule keep_requested_ops(2), simp add: flag_defs, rule leads_upd, rule requested_done)

lemma keep_finish_flags [keep_intros]: "\<not> is_static r \<Longrightarrow> keep (table_inv k tys) (finish_flags r)"
proof -
  assume r: "\<not> is_static r"
  have "leads (\<lambda>st. table_inv k tys st \<and> sym_at st r = s)
      (kseq (kwhen (has_flag SYMBOL_AUTO s) (kupd r (clear_flag SYMBOL_WRITE)))
         (kwhen (has_flag SYMBOL_NEED_SET_CHOICE_VALUES s) (set_all_choice_values r))) (table_inv k tys)" for s
  proof (cases "has_flag SYMBOL_NEED_SET_CHOICE_VALUES s")
    case True
    have "leads (requested k tys r) (kwhen (has_flag SYMBOL_AUTO s) (kupd r (clear_flag SYMBOL_WRITE))) (requested k tys r)"
      unfolding leads_keep by (intro keep_when keep_requested_clear)
    moreover have "leads (requested k tys r) (kwhen (has_flag SYMBOL_NEED_SET_CHOICE_VALUES s) (set_all_choice_values r)) (table_inv k tys)"
      using True leads_set_all_choice_values [OF r] by (simp add: kwhen_def)
    ultimately have "leads (requested k tys r)
        (kseq (kwhen (has_flag SYMBOL_AUTO s) (kupd r (clear_flag SYMBOL_WRITE)))
           (kwhen (has_flag SYMBOL_NEED_SET_CHOICE_VALUES s) (set_all_choice_values r))) (table_inv k tys)" by (rule leads_seq)
    then show ?thesis using True by (auto simp: leads_def requested_def)
  next
    case False
    have "keep (table_inv k tys) (kwhen (has_flag SYMBOL_AUTO s) (kupd r (clear_flag SYMBOL_WRITE)))" by (intro keep_intros)
    then have "keep (table_inv k tys) (kseq (kwhen (has_flag SYMBOL_AUTO s) (kupd r (clear_flag SYMBOL_WRITE)))
         (kwhen (has_flag SYMBOL_NEED_SET_CHOICE_VALUES s) (set_all_choice_values r)))"
      using False by (simp add: kwhen_def keep_seq keep_ret)
    then show ?thesis unfolding leads_keep [symmetric] by (simp add: leads_def)
  qed
  then show ?thesis unfolding finish_flags_def leads_keep [symmetric] by (rule leads_sym)
qed

section \<open>The calculation\<close>

lemma keep_calc_rest:
  assumes C: "\<And>r. keep (table_inv k tys) (calc r)" and "\<not> is_static r"
  shows "keep (table_inv k tys) (calc_rest calc r s0)"
proof -
  note S = keep_set_curr [OF assms(2)] and V = keep_set_val [OF assms(2)]
  note F = keep_validate [OF C assms(2)] keep_finish_flags [OF assms(2)] keep_finish keep_calc_choice [OF C assms(2)]
  have "keep (table_inv k tys) (kbind (calc_newval calc r) (\<lambda>new. kseq (kupd r (set_curr new)) (m new)))"
    if "\<And>new. keep (table_inv k tys) (m new)" for m :: "symval \<times> tristate \<Rightarrow> unit km"
    using that by (intro keeps_bind [OF keeps_newval [OF C]] keep_seq S) auto
  note N = this
  show ?thesis unfolding calc_rest_def Let_def
    by (intro keep_if S keep_seq N keep_when keep_bind F V keep_harmless harmless_flags keep_visibility C) auto
qed

lemma has_valid_set: "has_flag SYMBOL_VALID (set_flag SYMBOL_VALID s)"
  by (simp add: has_set_flag flag_defs)

lemma not_static_if_invalid: "table_inv k tys st \<Longrightarrow> \<not> has_flag SYMBOL_VALID (sym_at st r) \<Longrightarrow> \<not> is_static r"
  by (auto simp: table_inv_def)

lemma table_inv_less: "table_inv k tys st \<Longrightarrow> todo st \<le> j \<Longrightarrow> table_inv j tys st"
  by (simp add: table_inv_def)

lemma todo_valid:
  assumes "\<not> has_flag SYMBOL_VALID (sym_at st r)" "sref_idx r < length (ks_syms st)"
  shows "Suc (todo (sym_upd r (set_flag SYMBOL_VALID) st)) = todo st"
proof -
  have "cost (sym_at st r) = Suc (cost (set_flag SYMBOL_VALID (sym_at st r)))"
    using assms(1) by (simp add: cost_def has_set_flag flag_defs)
  then show ?thesis using todo_upd [OF assms(2), of "set_flag SYMBOL_VALID"] by simp
qed

lemma todo_request:
  assumes "has_flag SYMBOL_NEED_SET_CHOICE_VALUES (sym_at st r)" "sref_idx r < length (ks_syms st)"
  shows "Suc (todo (sym_upd r (clear_flag SYMBOL_NEED_SET_CHOICE_VALUES) st)) = todo st"
proof -
  have "cost (sym_at st r) = Suc (cost (clear_flag SYMBOL_NEED_SET_CHOICE_VALUES (sym_at st r)))"
    using assms(1) by (simp add: cost_def has_clear_flag flag_defs) (simp add: has_flag_def clear_flag_def and.assoc)
  then show ?thesis using todo_upd [OF assms(2), of "clear_flag SYMBOL_NEED_SET_CHOICE_VALUES"] by simp
qed

text \<open>The body, entered with fewer symbols left than the bound, or with \<open>r\<close> itself not calculated.\<close>

lemma calc_body_leads:
  assumes C: "\<And>r. keep (table_inv k tys) (calc r)" and "\<not> is_static r"
  shows "leads (\<lambda>st. table_inv (Suc k) tys st \<and> sref_idx r < length tys \<and>
      (todo st \<le> k \<or> \<not> has_flag SYMBOL_VALID (sym_at st r))) (calc_body calc r) (table_inv k tys)"
  unfolding calc_body_def
proof (rule leads_sym, rule leads_seq [where H = "table_inv k tys"], rule leads_upd)
  fix st s
  assume a: "(table_inv (Suc k) tys st \<and> sref_idx r < length tys \<and> (todo st \<le> k \<or> \<not> has_flag SYMBOL_VALID (sym_at st r))) \<and> sym_at st r = s"
  then have i: "table_inv (Suc k) tys (sym_upd r (set_flag SYMBOL_VALID) st)" by (simp add: table_inv_harmless harmless_flags)
  have l: "sref_idx r < length (ks_syms st)" using a by (auto simp: table_inv_def)
  have "todo (sym_upd r (set_flag SYMBOL_VALID) st) \<le> k"
  proof (cases "has_flag SYMBOL_VALID (sym_at st r)")
    case True
    then have "table_inv k tys st" using a table_inv_less by blast
    then show ?thesis using table_inv_harmless [OF harmless_flags(4)] by (auto simp: table_inv_def)
  next
    case False
    then show ?thesis using todo_valid [OF False l] a by (simp add: table_inv_def)
  qed
  with i show "table_inv k tys (sym_upd r (set_flag SYMBOL_VALID) st)" by (rule table_inv_less)
next
  show "leads (table_inv k tys) (calc_rest calc r s) (table_inv k tys)" for s
    unfolding leads_keep by (rule keep_calc_rest [OF assms])
qed


text \<open>A symbol that asks for its choice is dealt with in a state with less to do.\<close>

lemma leads_request:
  assumes C: "\<And>r. keep (table_inv k tys) (calc r)"
  shows "leads (\<lambda>st. table_inv (Suc k) tys st \<and> sref_idx r < length tys \<and> has_flag SYMBOL_NEED_SET_CHOICE_VALUES (sym_at st r))
     (kseq (kupd r (clear_flag SYMBOL_NEED_SET_CHOICE_VALUES)) (kbind (choice_of r) calc)) (table_inv k tys)"
proof (rule leads_seq [where H = "table_inv k tys"], rule leads_upd)
  fix st
  assume a: "table_inv (Suc k) tys st \<and> sref_idx r < length tys \<and> has_flag SYMBOL_NEED_SET_CHOICE_VALUES (sym_at st r)"
  then have l: "sref_idx r < length (ks_syms st)" by (auto simp: table_inv_def)
  have "table_inv (Suc k) tys (sym_upd r (clear_flag SYMBOL_NEED_SET_CHOICE_VALUES) st)"
    using a by (simp add: table_inv_harmless harmless_flags)
  then show "table_inv k tys (sym_upd r (clear_flag SYMBOL_NEED_SET_CHOICE_VALUES) st)"
    using todo_request [OF _ l] a by (auto intro: table_inv_less simp: table_inv_def)
next
  show "leads (table_inv k tys) (kbind (choice_of r) calc) (table_inv k tys)"
    unfolding leads_keep by (intro keep_intros C)
qed

lemma calc_step:
  assumes C: "\<And>r. keep (table_inv k tys) (calc r)" and r: "\<not> is_static r" "sref_idx r < length tys"
  shows "leads (\<lambda>st. table_inv (Suc k) tys st \<and> sym_at st r = s \<and> \<not> has_flag SYMBOL_VALID s)
     (kseq (kwhen (sym_is_choice_value s \<and> has_flag SYMBOL_NEED_SET_CHOICE_VALUES s)
              (kseq (kupd r (clear_flag SYMBOL_NEED_SET_CHOICE_VALUES)) (kbind (choice_of r) calc)))
           (calc_body calc r)) (table_inv k tys)"
proof -
  let ?H = "\<lambda>st. table_inv (Suc k) tys st \<and> sref_idx r < length tys \<and> (todo st \<le> k \<or> \<not> has_flag SYMBOL_VALID (sym_at st r))"
  have "leads (\<lambda>st. table_inv (Suc k) tys st \<and> sym_at st r = s \<and> \<not> has_flag SYMBOL_VALID s)
     (kwhen (sym_is_choice_value s \<and> has_flag SYMBOL_NEED_SET_CHOICE_VALUES s)
              (kseq (kupd r (clear_flag SYMBOL_NEED_SET_CHOICE_VALUES)) (kbind (choice_of r) calc))) ?H"
  proof (cases "sym_is_choice_value s \<and> has_flag SYMBOL_NEED_SET_CHOICE_VALUES s")
    case True
    have "?H st" if "table_inv k tys st" for st using that r by (auto simp: table_inv_def)
    then show ?thesis using True r unfolding kwhen_def
      by (auto intro: leads_weaken [OF leads_request [of k tys calc r, OF C]])
  next
    case False
    then show ?thesis using r by (auto simp: leads_def kwhen_def kret_def)
  qed
  then show ?thesis by (rule leads_seq) (rule calc_body_leads [OF C r(1)])
qed

lemma ksym_get: "kbind (ksym r) f st = f (sym_at st r) st"
  by (simp add: kbind_def ksym_def kget_def)

definition calc_unsettled :: "nat \<Rightarrow> sref \<Rightarrow> symbol \<Rightarrow> unit km" where
  "calc_unsettled n r s =
     kseq (kwhen (sym_is_choice_value s \<and> has_flag SYMBOL_NEED_SET_CHOICE_VALUES s)
             (kseq (kupd r (clear_flag SYMBOL_NEED_SET_CHOICE_VALUES)) (kbind (choice_of r) (sym_calc_value n))))
          (calc_body (sym_calc_value n) r)"

lemma calc_unsettled:
  "\<not> has_flag SYMBOL_VALID (sym_at st r) \<Longrightarrow> sym_calc_value (Suc n) r st = calc_unsettled n r (sym_at st r) st"
  by (simp add: calc_unsettled_def ksym_get)

lemma sym_calc_value_keep: "k < n \<Longrightarrow> keep (table_inv k tys) (sym_calc_value n r)"
proof (induction n arbitrary: k r)
  case (Suc n)
  show ?case unfolding keeps_def
  proof (intro allI impI)
    fix st assume i: "table_inv k tys st"
    show "case sym_calc_value (Suc n) r st of Ret x st' \<Rightarrow> table_inv k tys st' \<and> True | Crash \<Rightarrow> True | NoFuel \<Rightarrow> False"
    proof (cases "has_flag SYMBOL_VALID (sym_at st r)")
      case True
      then show ?thesis using i by (simp add: kbind_def ksym_def kget_def kret_def)
    next
      case False
      have r: "\<not> is_static r" using i False by (rule not_static_if_invalid)
      have l: "sref_idx r < length (ks_syms st)"
        using False by (auto simp: sym_at_def symbol_empty_def static_symbol_def has_flag_def flag_defs split: if_splits)
      have "0 < todo st" using todo_valid [OF False l] by simp
      then obtain j where k: "k = Suc j" using i by (cases k) (auto simp: table_inv_def)
      have C: "keep (table_inv j tys) (sym_calc_value n r)" for r using Suc k by simp
      have "sref_idx r < length tys" using l i by (auto simp: table_inv_def)
      then have "leads (\<lambda>x. table_inv (Suc j) tys x \<and> sym_at x r = sym_at st r \<and> \<not> has_flag SYMBOL_VALID (sym_at st r))
         (calc_unsettled n r (sym_at st r)) (table_inv j tys)"
        unfolding calc_unsettled_def by (rule calc_step [of j tys "sym_calc_value n", OF C r])
      then have "case calc_unsettled n r (sym_at st r) st of Ret x st' \<Rightarrow> table_inv j tys st' | Crash \<Rightarrow> True | NoFuel \<Rightarrow> False"
        using i False k by (simp add: leads_def)
      then show ?thesis unfolding calc_unsettled [OF False] k by (auto split: kres.splits simp: table_inv_def)
    qed
  qed
qed simp


definition table_ok :: "kst \<Rightarrow> bool" where
  "table_ok st \<longleftrightarrow> table_inv (todo st) (map s_type (ks_syms st)) st"

definition entries_ok :: "kst \<Rightarrow> bool" where
  "entries_ok st \<longleftrightarrow> static_ok st \<and> list_all (\<lambda>r. has_flag SYMBOL_VALID (sym_at st r)) [SymYes, SymMod, SymNo] \<and>
     list_all (\<lambda>s. s_type s = S_BOOLEAN \<longrightarrow> s_tri s \<noteq> TMod) (ks_syms st)"

lemma table_ok_iff: "table_ok st \<longleftrightarrow> chains_ok st \<and> entries_ok st"
  by (auto simp: table_ok_def table_inv_def is_static_def entries_ok_def list_all_iff)

text \<open>A configuration with a tristate that defaults to \<open>m\<close> and selects a bool.\<close>

definition bool_sym :: "string \<Rightarrow> symbol_type \<Rightarrow> property list \<Rightarrow> symbol" where
  "bool_sym n ty ps =
     (static_symbol n TNo 0)\<lparr>s_type := ty, s_val := VNull, s_prop := ps\<rparr>"

definition a_prompt :: property where
  "a_prompt = \<lparr>p_kind = P_PROMPT, p_text = Some ''P'', p_vis_expr = None, p_vis_tri = TNo, p_expr = None, p_menu = None\<rparr>"

definition a_default :: "expr \<Rightarrow> property" where
  "a_default e = \<lparr>p_kind = P_DEFAULT, p_text = None, p_vis_expr = None, p_vis_tri = TNo, p_expr = Some (PExpr e), p_menu = None\<rparr>"

definition calc_table :: kst where
  "calc_table = kst_init\<lparr>
     ks_syms := ks_syms kst_init @
       [bool_sym ''A'' S_TRISTATE [a_default (E_SYMBOL SymMod)],
        (bool_sym ''B'' S_BOOLEAN [])\<lparr>s_rev_expr := Some (E_SYMBOL (Sym 0))\<rparr>]\<rparr>"

lemma calc_table_ok: "table_ok calc_table" "todo calc_table < 3"
proof -
  have "entries_ok calc_table" by code_simp
  then show "table_ok calc_table" by (simp add: table_ok_iff chains_ok_def calc_table_def kst_init_def)
  show "todo calc_table < 3" by code_simp
qed

definition ret_state :: "'a kres \<Rightarrow> kst option" where
  "ret_state x = (case x of Ret _ st \<Rightarrow> Some st | _ \<Rightarrow> None)"

text \<open>C13: The calculation of a symbol's value (\<open>sym_calc_value\<close>, which calls itself through the
  symbols of its expressions and through choices) ends for every symbol: its nesting is bounded by
  the symbols that are not valid yet and the pending choice requests.\<close>

theorem sym_calc_value_ends: "table_ok st \<Longrightarrow> todo st < n \<Longrightarrow> sym_calc_value n r st \<noteq> NoFuel"
  using sym_calc_value_keep [of "todo st" n "map s_type (ks_syms st)" r]
  by (auto simp: keeps_def table_ok_def split: kres.splits)

theorem sym_calc_value_ends_witness:
  "table_ok calc_table \<and> todo calc_table < 3 \<and> sym_calc_value 3 (Sym 1) calc_table \<noteq> NoFuel"
  using sym_calc_value_ends [of calc_table 3 "Sym 1"] calc_table_ok by blast

text \<open>C14: Calculating a symbol keeps the table in order: a bool never has the value \<open>m\<close>, the constants
  \<open>y\<close>, \<open>m\<close> and \<open>n\<close> keep their values, no symbol changes its type, and no more symbols are left to
  calculate than before.\<close>

theorem sym_calc_value_keeps:
  "table_ok st \<Longrightarrow> todo st < n \<Longrightarrow> sym_calc_value n r st = Ret u st' \<Longrightarrow>
     table_inv (todo st) (map s_type (ks_syms st)) st'"
  using sym_calc_value_keep [of "todo st" n "map s_type (ks_syms st)" r]
  by (fastforce simp: keeps_def table_ok_def split: kres.splits)


lemma kapply:
  "kbind m f st = (case m st of Ret x st' \<Rightarrow> f x st' | Crash \<Rightarrow> Crash | NoFuel \<Rightarrow> NoFuel)"
  "kseq n n' st = (case n st of Ret y st' \<Rightarrow> n' st' | Crash \<Rightarrow> Crash | NoFuel \<Rightarrow> NoFuel)"
  "kwhen b w st = (if b then w st else Ret () st)" "kget g st = Ret (g st) st" "kmod h st = Ret () (h st)"
  "kret z st = Ret z st" "ksym r st = Ret (sym_at st r) st" "kupd r u st = Ret () (sym_upd r u st)"
  by (simp_all add: kbind_def kseq_def kwhen_def kget_def kmod_def kret_def ksym_def kupd_def)

lemmas kcalc_ops =
  calc_body_def [THEN fun_cong] calc_rest_def [THEN fun_cong] sym_calc_visibility_def [THEN fun_cong] change_if_def [THEN fun_cong]
  sym_set_changed_def [THEN fun_cong] calc_newval_def [THEN fun_cong] calc_tristate_def [THEN fun_cong] plain_tristate_def [THEN fun_cong]
  default_tristate_def [THEN fun_cong] sym_get_default_prop_def [THEN fun_cong] sym_get_range_prop_def [THEN fun_cong]
  prop_visible_def [THEN fun_cong] prop_expr_value_def [THEN fun_cong] finish_changed_def [THEN fun_cong] finish_choice_def [THEN fun_cong]
  finish_flags_def [THEN fun_cong] sym_validate_range_def [THEN fun_cong] write_flag_def [THEN fun_cong] expr_calc.simps [THEN fun_cong]
  expr_calc_value.simps [THEN fun_cong] first_visible.simps [THEN fun_cong] prompts_visible.simps [THEN fun_cong]
  sym_calc_value.simps [THEN fun_cong] kfor.simps [THEN fun_cong]

lemma three_calls: "sym_calc_value 3 = sym_calc_value (Suc (Suc (Suc 0)))"
  by (simp add: eval_nat_numeral del: sym_calc_value.simps)

lemmas kcalc_unapplied = expr_calc.simps expr_calc_value.simps first_visible.simps prompts_visible.simps sym_calc_value.simps kfor.simps

lemmas kcalc_data =
  prop_indices_def set_prop_tri_def set_curr_def
  sym_get_type_def sym_is_choice_def sym_is_choice_value_def sym_has_value_def has_flag_def set_flag_def clear_flag_def flag_defs range_base_def
  calc_table_def kst_init_def bool_sym_def a_prompt_def a_default_def static_symbol_def symbol_yes_def symbol_mod_def symbol_no_def symbol_empty_def
  sym_at_def sym_upd_def EXPR_OR_def EXPR_AND_def

theorem sym_calc_value_keeps_witness:
  "\<exists>st'. table_ok calc_table \<and> todo calc_table < 3 \<and> sym_calc_value 3 (Sym 1) calc_table = Ret () st' \<and>
     table_inv (todo calc_table) (map s_type (ks_syms calc_table)) st' \<and> s_tri (sym_at st' (Sym 1)) = TYes"
proof -
  have "map_option (\<lambda>st. s_tri (sym_at st (Sym 1))) (ret_state (sym_calc_value 3 (Sym 1) calc_table)) = Some TYes"
    by (simp add: kcalc_ops kcalc_data kapply ret_state_def three_calls less_tristate_def less_eq_tristate_def del: kcalc_unapplied)
  then obtain st' where "sym_calc_value 3 (Sym 1) calc_table = Ret () st'" "s_tri (sym_at st' (Sym 1)) = TYes"
    by (auto simp: ret_state_def split: kres.splits)
  then show ?thesis using sym_calc_value_keeps [OF calc_table_ok] calc_table_ok by blast
qed

end
