(* ===== verification/KSymTab.thy ===== *)
theory KSymTab
  imports KSymbolFacts
begin

text \<open>
  \<open>buildroot/support/kconfig/symbol.c\<close>, the symbol table itself: hashing, \<open>sym_lookup\<close>, \<open>sym_find\<close>,
  allocation of properties and the symbols that are made at start-up. The contract of the table, a
  name finds the symbol that was looked up first under it, is the locale \<open>symbol_store\<close>.
\<close>

section \<open>Hashing\<close>

text \<open>A \<open>char\<close> is signed: \<open>hash ^ *s\<close> extends its sign.\<close>

definition sign_ext :: "char \<Rightarrow> 32 word" where
  "sign_ext c = (let n = of_char c :: nat in if n < 128 then of_nat n else of_nat n - 256)"

definition strhash :: "string \<Rightarrow> 32 word" where
  "strhash s = foldl (\<lambda>h c. (h XOR sign_ext c) * 0x01000193) 2166136261 s"

definition SYMBOL_HASHSIZE :: nat where "SYMBOL_HASHSIZE = 9973"

definition bucket :: "string \<Rightarrow> nat" where
  "bucket n = unat (strhash n) mod SYMBOL_HASHSIZE"

lemma bucket_less: "bucket n < SYMBOL_HASHSIZE"
  by (simp add: bucket_def SYMBOL_HASHSIZE_def)

section \<open>Lookup\<close>

definition static_name :: "string \<Rightarrow> sref option" where
  "static_name n = (if n = ''y'' then Some SymYes else if n = ''m'' then Some SymMod
     else if n = ''n'' then Some SymNo else None)"

definition new_symbol :: "string option \<Rightarrow> 32 word \<Rightarrow> symbol" where
  "new_symbol n fl =
     \<lparr>s_name = n, s_type = S_UNKNOWN, s_val = VNull, s_tri = TNo, s_def = replicate 4 (VNull, TNo),
      s_visible = TNo, s_flags = fl, s_prop = [], s_dir_expr = None, s_dir_tri = TNo,
      s_rev_expr = None, s_rev_tri = TNo\<rparr>"

definition lookup_fits :: "32 word \<Rightarrow> string \<Rightarrow> symbol \<Rightarrow> bool" where
  "lookup_fits fl n s \<longleftrightarrow>
     s_name s = Some n \<and>
     (if fl \<noteq> 0 then has_flag fl s else \<not> has_flag (SYMBOL_CONST OR SYMBOL_CHOICE) s)"

text \<open>A new symbol goes behind the others in the table and to the front of its chain.\<close>

definition add_symbol :: "string option \<Rightarrow> 32 word \<Rightarrow> nat \<Rightarrow> sref km" where
  "add_symbol n fl h = (\<lambda>st.
     let r = sref_of (length (ks_syms st))
     in Ret r (st\<lparr>ks_syms := ks_syms st @ [new_symbol n fl], ks_hash := (ks_hash st)(h := r # ks_hash st h)\<rparr>))"

definition sym_lookup :: "string option \<Rightarrow> 32 word \<Rightarrow> sref km" where
  "sym_lookup name fl =
     (case name of
        None \<Rightarrow> add_symbol None fl 0
      | Some n \<Rightarrow>
          (case static_name n of
             Some r \<Rightarrow> kret r
           | None \<Rightarrow>
               kbind (kget (\<lambda>st. find (\<lambda>r. lookup_fits fl n (sym_at st r)) (ks_hash st (bucket n)))) (\<lambda>f.
                 case f of Some r \<Rightarrow> kret r | None \<Rightarrow> add_symbol (Some n) fl (bucket n))))"

definition sym_find :: "kst \<Rightarrow> string option \<Rightarrow> sref option" where
  "sym_find st name =
     (case name of
        None \<Rightarrow> None
      | Some n \<Rightarrow>
          (case static_name n of
             Some r \<Rightarrow> Some r
           | None \<Rightarrow> find (\<lambda>r. s_name (sym_at st r) = Some n \<and> \<not> has_flag SYMBOL_CONST (sym_at st r)) (ks_hash st (bucket n))))"

section \<open>Properties\<close>

text \<open>\<open>prop_alloc\<close> appends the new property to the list of its symbol.\<close>

definition new_property :: "prop_type \<Rightarrow> property" where
  "new_property ty = \<lparr>p_kind = ty, p_text = None, p_vis_expr = None, p_vis_tri = TNo, p_expr = None, p_menu = None\<rparr>"

definition add_prop :: "property \<Rightarrow> symbol \<Rightarrow> symbol" where
  "add_prop p s = s\<lparr>s_prop := s_prop s @ [p]\<rparr>"

definition prop_alloc :: "prop_type \<Rightarrow> sref \<Rightarrow> unit km" where
  "prop_alloc ty r = kupd r (add_prop (new_property ty))"

definition set_last_prop :: "(property \<Rightarrow> property) \<Rightarrow> symbol \<Rightarrow> symbol" where
  "set_last_prop f s = s\<lparr>s_prop := butlast (s_prop s) @ [f (last (s_prop s))]\<rparr>"

definition sym_add_default :: "sref \<Rightarrow> string \<Rightarrow> unit km" where
  "sym_add_default r d =
     kseq (prop_alloc P_DEFAULT r)
       (kbind (sym_lookup (Some d) SYMBOL_CONST) (\<lambda>c.
          kupd r (set_last_prop (\<lambda>p. p\<lparr>p_expr := Some (PExpr (E_SYMBOL c))\<rparr>))))"

text \<open>The first call of \<open>sym_init\<close>; \<open>release\<close> is what \<open>uname\<close> reports.\<close>

definition sym_init :: "string \<Rightarrow> unit km" where
  "sym_init release =
     kbind (sym_lookup (Some ''UNAME_RELEASE'') 0) (\<lambda>r.
       kseq (kupd r (\<lambda>s. s\<lparr>s_type := S_STRING\<rparr>))
         (kseq (kupd r (set_flag SYMBOL_AUTO)) (sym_add_default r release)))"

definition sym_type_name :: "symbol_type \<Rightarrow> string" where
  "sym_type_name ty = (case ty of S_BOOLEAN \<Rightarrow> ''boolean'' | S_TRISTATE \<Rightarrow> ''tristate'' | S_INT \<Rightarrow> ''integer''
     | S_HEX \<Rightarrow> ''hex'' | S_STRING \<Rightarrow> ''string'' | S_UNKNOWN \<Rightarrow> ''unknown'' | S_OTHER \<Rightarrow> ''???'')"

definition prop_get_type_name :: "prop_type \<Rightarrow> string" where
  "prop_get_type_name ty = (case ty of P_PROMPT \<Rightarrow> ''prompt'' | P_ENV \<Rightarrow> ''env'' | P_COMMENT \<Rightarrow> ''comment''
     | P_MENU \<Rightarrow> ''menu'' | P_DEFAULT \<Rightarrow> ''default'' | P_CHOICE \<Rightarrow> ''choice'' | P_SELECT \<Rightarrow> ''select''
     | P_RANGE \<Rightarrow> ''range'' | P_SYMBOL \<Rightarrow> ''symbol'' | P_UNKNOWN \<Rightarrow> ''unknown'')"

text \<open>
  \<open>prop_add_env\<close>, for the entry whose symbol is \<open>r\<close>: \<open>env\<close> is the environment. The second result of the
  code, the message of \<open>menu_warn\<close>, goes to the warnings.
\<close>

definition kwarn :: "string \<Rightarrow> unit km" where
  "kwarn w = kmod (\<lambda>st. st\<lparr>ks_warnings := ks_warnings st @ [w]\<rparr>)"

definition prop_add_env :: "(string \<Rightarrow> string option) \<Rightarrow> sref \<Rightarrow> string \<Rightarrow> unit km" where
  "prop_add_env getenv r env =
     kseq (kupd r (set_flag SYMBOL_AUTO))
     (kbind (ksym r) (\<lambda>s. case sym_get_env_prop s of
        Some p \<Rightarrow>
          (case prop_get_symbol p of
             None \<Rightarrow> kcrash
           | Some e \<Rightarrow> kbind (ksym e) (\<lambda>es.
               kwhen (s_name es \<noteq> Some env) (kwarn (''redefining environment symbol from '' @ name_str (s_name es)))))
      | None \<Rightarrow>
          kseq (prop_alloc P_ENV r)
          (kbind (sym_lookup (Some env) SYMBOL_CONST) (\<lambda>c.
           kseq (kupd r (set_last_prop (\<lambda>p. p\<lparr>p_expr := Some (PExpr (E_SYMBOL c))\<rparr>)))
           (kseq (kmod (\<lambda>st. st\<lparr>ks_env_list := r # ks_env_list st\<rparr>))
           (case getenv env of
              Some v \<Rightarrow> sym_add_default r v
            | None \<Rightarrow> kwarn (''environment variable '' @ env @ '' undefined'')))))))"

section \<open>The contract of the table\<close>

locale symbol_store =
  fixes find :: "'s \<Rightarrow> string \<Rightarrow> 'r option"
    and lookup :: "string \<Rightarrow> 's \<Rightarrow> 'r \<times> 's"
    and ok :: "'s \<Rightarrow> bool"
  assumes ok_lookup: "ok s \<Longrightarrow> ok (snd (lookup n s))"
    and found: "ok s \<Longrightarrow> find s n = Some r \<Longrightarrow> lookup n s = (r, s)"
    and created: "ok s \<Longrightarrow> find s n = None \<Longrightarrow> find (snd (lookup n s)) = (find s)(n \<mapsto> fst (lookup n s))"
    and one_name: "ok s \<Longrightarrow> find s m = Some r \<Longrightarrow> find s n = Some r \<Longrightarrow> m = n"
begin

lemma lookup_updates: "ok s \<Longrightarrow> find (snd (lookup n s)) = (find s)(n \<mapsto> fst (lookup n s))"
proof (cases "find s n")
  case (Some r)
  assume "ok s"
  then show ?thesis using found [OF _ Some] Some by (simp add: fun_upd_idem)
qed (rule created)

lemma lookup_again: "ok s \<Longrightarrow> lookup n (snd (lookup n s)) = lookup n s"
  using found [OF ok_lookup, of s n n] lookup_updates by (simp add: prod_eq_iff)

lemma lookup_keeps: "ok s \<Longrightarrow> find s m = Some r \<Longrightarrow> find (snd (lookup n s)) m = Some r"
  using found [of s n r] by (cases "m = n") (auto simp: lookup_updates)

lemma lookup_apart: "ok s \<Longrightarrow> m \<noteq> n \<Longrightarrow> fst (lookup m s) \<noteq> fst (lookup n (snd (lookup m s)))"
proof
  assume o: "ok s" and "m \<noteq> n" and e: "fst (lookup m s) = fst (lookup n (snd (lookup m s)))"
  let ?s = "snd (lookup n (snd (lookup m s)))"
  have "find ?s m = Some (fst (lookup m s))" using lookup_updates [OF o] by (simp add: lookup_keeps o ok_lookup)
  moreover have "find ?s n = Some (fst (lookup m s))" using e lookup_updates [OF ok_lookup [OF o], of n] by simp
  ultimately show False using one_name [OF ok_lookup [OF ok_lookup [OF o]]] \<open>m \<noteq> n\<close> by blast
qed

end

text \<open>
  The chains hold symbols of the table other than the static ones; a named one that is not a constant has
  a name of more than one of the letters \<open>y\<close>, \<open>m\<close>, \<open>n\<close> and is not a choice (\<open>sym_lookup\<close> without
  flags passes over a named choice, \<open>sym_find\<close> does not).
\<close>

definition chained_ok :: "kst \<Rightarrow> sref \<Rightarrow> bool" where
  "chained_ok st r \<longleftrightarrow>
     4 \<le> sref_idx r \<and> sref_idx r < length (ks_syms st) \<and>
     (case s_name (sym_at st r) of None \<Rightarrow> True
      | Some n \<Rightarrow> static_name n = None \<and> (has_flag SYMBOL_CONST (sym_at st r) \<or> \<not> has_flag SYMBOL_CHOICE (sym_at st r)))"

definition hash_ok :: "kst \<Rightarrow> bool" where
  "hash_ok st \<longleftrightarrow> 4 \<le> length (ks_syms st) \<and> (\<forall>h. \<forall>r \<in> set (ks_hash st h). chained_ok st r)"

definition lookup_pair :: "string \<Rightarrow> kst \<Rightarrow> sref \<times> kst" where
  "lookup_pair n st = (case sym_lookup (Some n) 0 st of Ret r st' \<Rightarrow> (r, st') | _ \<Rightarrow> (SymNo, st))"

lemma static_name_None: "static_name n = None \<longleftrightarrow> n \<noteq> ''y'' \<and> n \<noteq> ''m'' \<and> n \<noteq> ''n''"
  by (simp add: static_name_def)

lemma static_name_idx: "static_name n = Some r \<Longrightarrow> sref_idx r < 3 \<and> (static_name m = Some r \<longrightarrow> m = n)"
  by (auto simp: static_name_def split: if_splits)

lemma has_flag_or: "has_flag (f OR g) s \<longleftrightarrow> has_flag f s \<or> has_flag g s"
  by (simp add: has_flag_def and_or_zero bit.conj_disj_distrib or_eq_0_iff)

lemma find_cong: "(\<And>x. x \<in> set xs \<Longrightarrow> P x = Q x) \<Longrightarrow> find P xs = find Q xs"
  by (induction xs) auto

lemma find_append: "find P (xs @ ys) = (case find P xs of None \<Rightarrow> find P ys | Some x \<Rightarrow> Some x)"
  by (induction xs) auto

text \<open>In a table in order the two ways to search a chain agree.\<close>

lemma fits_find:
  assumes "hash_ok st" "static_name n = None"
  shows "find (\<lambda>r. lookup_fits 0 n (sym_at st r)) (ks_hash st (bucket n)) = sym_find st (Some n)"
proof -
  have "lookup_fits 0 n (sym_at st r) \<longleftrightarrow> s_name (sym_at st r) = Some n \<and> \<not> has_flag SYMBOL_CONST (sym_at st r)"
    if "r \<in> set (ks_hash st (bucket n))" for r
  proof -
    have "chained_ok st r" using assms(1) that by (auto simp: hash_ok_def)
    then show ?thesis by (auto simp: chained_ok_def lookup_fits_def has_flag_or)
  qed
  then show ?thesis unfolding sym_find_def using assms(2) by (simp cong: find_cong)
qed

lemma lookup_pair_cases:
  assumes "hash_ok st"
  shows "lookup_pair n st =
    (case sym_find st (Some n) of
       Some r \<Rightarrow> (r, st)
     | None \<Rightarrow> (sref_of (length (ks_syms st)),
         st\<lparr>ks_syms := ks_syms st @ [new_symbol (Some n) 0],
            ks_hash := (ks_hash st)(bucket n := sref_of (length (ks_syms st)) # ks_hash st (bucket n))\<rparr>))"
proof (cases "static_name n")
  case (Some r)
  then show ?thesis by (simp add: lookup_pair_def sym_lookup_def sym_find_def kret_def)
next
  case None
  then show ?thesis using fits_find [OF assms None]
    by (cases "sym_find st (Some n)")
      (simp_all add: lookup_pair_def sym_lookup_def kbind_def kget_def kret_def add_symbol_def Let_def)
qed

lemma sym_at_new:
  "sym_at (st\<lparr>ks_syms := ks_syms st @ [s], ks_hash := f\<rparr>) (sref_of (length (ks_syms st))) = s"
  "sref_idx q < length (ks_syms st) \<Longrightarrow> sym_at (st\<lparr>ks_syms := ks_syms st @ [s], ks_hash := f\<rparr>) q = sym_at st q"
  by (auto simp: sym_at_def nth_append)

lemma lookup_pair_ok:
  assumes "hash_ok st"
  shows "hash_ok (snd (lookup_pair n st))"
proof (cases "sym_find st (Some n)")
  case None
  then have n: "static_name n = None" by (auto simp: sym_find_def split: option.splits)
  let ?r = "sref_of (length (ks_syms st))"
  let ?st = "st\<lparr>ks_syms := ks_syms st @ [new_symbol (Some n) 0], ks_hash := (ks_hash st)(bucket n := ?r # ks_hash st (bucket n))\<rparr>"
  have l: "4 \<le> length (ks_syms st)" using assms by (simp add: hash_ok_def)
  have "chained_ok ?st ?r"
    using l n
    by (simp add: chained_ok_def sym_at_new new_symbol_def has_flag_def)
  moreover have "chained_ok ?st q" if "chained_ok st q" for q
  proof -
    have "sym_at ?st q = sym_at st q" using that by (simp add: chained_ok_def sym_at_new)
    then show ?thesis using that unfolding chained_ok_def by (auto split: option.splits)
  qed
  ultimately show ?thesis using assms None by (auto simp: lookup_pair_cases hash_ok_def)
qed (use assms in \<open>simp add: lookup_pair_cases\<close>)

lemma lookup_pair_created:
  assumes o: "hash_ok st" and N: "sym_find st (Some n) = None"
  shows "(\<lambda>m. sym_find (snd (lookup_pair n st)) (Some m)) = (\<lambda>m. sym_find st (Some m))(n \<mapsto> fst (lookup_pair n st))"
proof
  fix m
  let ?r = "sref_of (length (ks_syms st))" and ?s = "new_symbol (Some n) 0"
  let ?st = "st\<lparr>ks_syms := ks_syms st @ [?s], ks_hash := (ks_hash st)(bucket n := ?r # ks_hash st (bucket n))\<rparr>"
  have l: "4 \<le> length (ks_syms st)" using o by (simp add: hash_ok_def)
  have old: "sym_at ?st q = sym_at st q" if "q \<in> set (ks_hash st h)" for q h
    using o that by (auto simp: hash_ok_def chained_ok_def sym_at_new)
  have n: "static_name n = None" using N by (auto simp: sym_find_def split: option.splits)
  have p: "lookup_pair n st = (?r, ?st)" using o N by (simp add: lookup_pair_cases)
  have c: "find (\<lambda>r. s_name (sym_at ?st r) = Some m \<and> \<not> has_flag SYMBOL_CONST (sym_at ?st r)) (ks_hash st h) =
      find (\<lambda>r. s_name (sym_at st r) = Some m \<and> \<not> has_flag SYMBOL_CONST (sym_at st r)) (ks_hash st h)" for h
    by (rule find_cong) (simp add: old)
  show "sym_find (snd (lookup_pair n st)) (Some m) = ((\<lambda>m. sym_find st (Some m))(n \<mapsto> fst (lookup_pair n st))) m"
    using c n unfolding p by (auto simp: sym_find_def sym_at_new new_symbol_def has_flag_def split: option.splits)
qed

interpretation st: symbol_store "\<lambda>st n. sym_find st (Some n)" lookup_pair hash_ok
proof
  show "hash_ok s \<Longrightarrow> hash_ok (snd (lookup_pair n s))" for s n by (rule lookup_pair_ok)
  show "hash_ok s \<Longrightarrow> sym_find s (Some n) = Some r \<Longrightarrow> lookup_pair n s = (r, s)" for s n r
    by (simp add: lookup_pair_cases)
  show "hash_ok s \<Longrightarrow> sym_find s (Some n) = None \<Longrightarrow>
      (\<lambda>m. sym_find (snd (lookup_pair n s)) (Some m)) = (\<lambda>m. sym_find s (Some m))(n \<mapsto> fst (lookup_pair n s))" for s n
    by (rule lookup_pair_created)
  show "m = n" if o: "hash_ok s" and m: "sym_find s (Some m) = Some r" and n: "sym_find s (Some n) = Some r" for s m n r
  proof -
    have f: "s_name (sym_at s r) = Some x \<and> 4 \<le> sref_idx r"
      if "static_name x = None" "sym_find s (Some x) = Some r" for x
    proof -
      have i: "r \<in> set (ks_hash s (bucket x))" and "s_name (sym_at s r) = Some x"
        using that unfolding sym_find_def by (auto simp: find_Some_iff)
      moreover have "chained_ok s r" using o i by (auto simp: hash_ok_def)
      ultimately show ?thesis by (simp add: chained_ok_def)
    qed
    show ?thesis
      using f [of m] f [of n] m n static_name_idx [of m r n] static_name_idx [of n r m]
      by (cases "static_name m"; cases "static_name n") (auto simp: sym_find_def)
  qed
qed

text \<open>The table at start-up is in order, and so is every table that lookups lead to.\<close>

lemma hash_ok_init: "hash_ok kst_init"
  by (simp add: hash_ok_def kst_init_def)

fun lookup_all :: "string list \<Rightarrow> kst \<Rightarrow> kst" where
  "lookup_all [] st = st"
| "lookup_all (n # ns) st = lookup_all ns (snd (lookup_pair n st))"

lemma lookup_all_ok: "hash_ok st \<Longrightarrow> hash_ok (lookup_all ns st)"
  by (induction ns arbitrary: st) (auto intro: lookup_pair_ok)

lemma sym_lookup_pair: "sym_lookup (Some n) 0 st = Ret (fst (lookup_pair n st)) (snd (lookup_pair n st))"
  by (auto simp: lookup_pair_def sym_lookup_def kbind_def kget_def kret_def add_symbol_def Let_def split: option.splits)

text \<open>C18: \<open>sym_lookup\<close> implements a map from names to symbols: looking a name up binds it, for every later
  \<open>sym_find\<close>, to the symbol that was returned and leaves every other name alone.\<close>

theorem sym_lookup_refines:
  "hash_ok st \<Longrightarrow> sym_lookup (Some n) 0 st = Ret r st' \<Longrightarrow>
     (\<lambda>m. sym_find st' (Some m)) = (\<lambda>m. sym_find st (Some m))(n \<mapsto> r)"
  using st.lookup_updates [of st n] by (simp add: sym_lookup_pair)

theorem sym_lookup_refines_witness:
  "\<exists>r st'. sym_lookup (Some ''BR2_arm'') 0 kst_init = Ret r st' \<and>
     (\<lambda>m. sym_find st' (Some m)) = (\<lambda>m. sym_find kst_init (Some m))(''BR2_arm'' \<mapsto> r)"
  using sym_lookup_refines [OF hash_ok_init sym_lookup_pair] sym_lookup_pair by blast

text \<open>Two different names never lead to the same symbol, and the same name looked up again leads to the
  same symbol without a change of the table.\<close>

theorem sym_lookup_identity:
  "hash_ok st \<Longrightarrow> sym_lookup (Some n) 0 st = Ret r st' \<Longrightarrow> sym_lookup (Some m) 0 st' = Ret q st'' \<Longrightarrow>
     (if m = n then q = r \<and> st'' = st' else q \<noteq> r)"
  using st.lookup_again [of st n] st.lookup_apart [of st n m] by (auto simp: sym_lookup_pair)

theorem sym_lookup_identity_witness:
  "\<exists>r st' q st''. sym_lookup (Some ''A'') 0 kst_init = Ret r st' \<and> sym_lookup (Some ''B'') 0 st' = Ret q st'' \<and> q \<noteq> r"
proof -
  obtain r st' where a: "sym_lookup (Some ''A'') 0 kst_init = Ret r st'" using sym_lookup_pair by blast
  obtain q st'' where b: "sym_lookup (Some ''B'') 0 st' = Ret q st''" using sym_lookup_pair by blast
  from sym_lookup_identity [OF hash_ok_init a b] have "q \<noteq> r" by simp
  with a b show ?thesis by blast
qed

end
