(* ===== verification/KSymSet.thy ===== *)
theory KSymSet
  imports KSymTab
begin

text \<open>
  \<open>buildroot/support/kconfig/symbol.c\<close>, changing a symbol: the ranges of values, \<open>sym_set_tristate_value\<close>,
  \<open>sym_set_string_value\<close> and their helpers, and the expansion and escaping of strings.
\<close>

definition sym_add_change_count :: "nat \<Rightarrow> unit km" where
  "sym_add_change_count n = kmod (\<lambda>st. st\<lparr>ks_change_count := ks_change_count st + n\<rparr>)"

definition calc_modules :: "unit km" where
  "calc_modules = kbind (kget ks_modules) (\<lambda>mo. case mo of None \<Rightarrow> kret () | Some m \<Rightarrow> sym_calc m)"

definition sym_clear_all_valid :: "unit km" where
  "sym_clear_all_valid =
     kbind (kget all_symbols) (\<lambda>rs.
     kseq (kfor rs (\<lambda>r. kupd r (clear_flag SYMBOL_VALID)))
     (kseq (sym_add_change_count 1) calc_modules))"

section \<open>Tristate values\<close>

definition sym_tristate_within_range :: "kst \<Rightarrow> sref \<Rightarrow> tristate \<Rightarrow> bool" where
  "sym_tristate_within_range st r val =
     (let ty = sym_get_type st r; s = sym_at st r
      in if s_visible s = TNo then False
         else if ty \<noteq> S_BOOLEAN \<and> ty \<noteq> S_TRISTATE then False
         else if ty = S_BOOLEAN \<and> val = TMod then False
         else if s_visible s \<le> s_rev_tri s then False
         else if sym_is_choice_value s \<and> s_visible s = TYes then val = TYes
         else s_rev_tri s \<le> val \<and> val \<le> s_visible s)"

definition mark_user :: "sref \<Rightarrow> unit km" where
  "mark_user r =
     kbind (ksym r) (\<lambda>s. kwhen (\<not> has_flag SYMBOL_DEF_USER s)
       (kseq (kupd r (set_flag SYMBOL_DEF_USER)) (sym_set_changed r)))"

text \<open>Setting a choice value also resets the new flag of the choice symbol and all other choice values.\<close>

definition choose_value :: "sref \<Rightarrow> unit km" where
  "choose_value r =
     kbind (choice_of r) (\<lambda>c.
     kseq (kupd c (set_def_val 0 (VSym r)))
     (kseq (kupd c (set_flag SYMBOL_DEF_USER))
     (kbind (choice_values c) (\<lambda>vs. kfor vs (\<lambda>v.
        kbind (ksym v) (\<lambda>s. kwhen (s_visible s \<noteq> TNo) (kupd v (set_flag SYMBOL_DEF_USER))))))))"

definition sym_set_tristate_value :: "sref \<Rightarrow> tristate \<Rightarrow> bool km" where
  "sym_set_tristate_value r val =
     kbind (kget (\<lambda>st. sym_get_tristate_value st r)) (\<lambda>oldval.
     kbind (kget (\<lambda>st. sym_tristate_within_range st r val)) (\<lambda>inside.
       if oldval \<noteq> val \<and> \<not> inside then kret False
       else
         kseq (mark_user r)
         (kbind (ksym r) (\<lambda>s.
          kseq (kwhen (sym_is_choice_value s \<and> val = TYes) (choose_value r))
          (kseq (kupd r (set_def_tri 0 val))
          (kseq (kwhen (oldval \<noteq> val) sym_clear_all_valid) (kret True)))))))"

definition next_tristate :: "tristate \<Rightarrow> tristate" where
  "next_tristate v = (case v of TNo \<Rightarrow> TMod | TMod \<Rightarrow> TYes | TYes \<Rightarrow> TNo)"

text \<open>The values the loop of \<open>sym_toggle_tristate_value\<close> tries: it stops at the old value at the latest.\<close>

fun toggle_loop :: "sref \<Rightarrow> tristate list \<Rightarrow> tristate \<Rightarrow> tristate km" where
  "toggle_loop r [] v = kret v"
| "toggle_loop r (v # vs) u =
     kbind (sym_set_tristate_value r v) (\<lambda>b. if b then kret v else toggle_loop r vs v)"

definition toggle_order :: "tristate \<Rightarrow> tristate list" where
  "toggle_order old = [next_tristate old, next_tristate (next_tristate old), old]"

definition sym_toggle_tristate_value :: "sref \<Rightarrow> tristate km" where
  "sym_toggle_tristate_value r =
     kbind (kget (\<lambda>st. sym_get_tristate_value st r)) (\<lambda>old. toggle_loop r (toggle_order old) old)"

section \<open>String values\<close>

definition is_xdigit :: "char \<Rightarrow> bool" where "is_xdigit c \<longleftrightarrow> xdigit_val c \<noteq> None"

definition valid_int :: "string \<Rightarrow> bool" where
  "valid_int str =
     (let s = (if take 1 str = ''-'' then tl str else str)
      in case s of
           [] \<Rightarrow> False
         | c # t \<Rightarrow> is_digit c \<and> \<not> (c = CHR ''0'' \<and> t \<noteq> []) \<and> list_all is_digit t)"

definition has_0x :: "string \<Rightarrow> bool" where
  "has_0x s \<longleftrightarrow> take 2 s = ''0x'' \<or> take 2 s = ''0X''"

definition valid_hex :: "string \<Rightarrow> bool" where
  "valid_hex str = (let s = (if has_0x str then drop 2 str else str) in s \<noteq> [] \<and> list_all is_xdigit s)"

text \<open>The tristate a string starts with.\<close>

definition letter_tri :: "string \<Rightarrow> tristate option" where
  "letter_tri str =
     (if take 1 str = ''y'' \<or> take 1 str = ''Y'' then Some TYes
      else if take 1 str = ''m'' \<or> take 1 str = ''M'' then Some TMod
      else if take 1 str = ''n'' \<or> take 1 str = ''N'' then Some TNo
      else None)"

definition sym_string_valid :: "symbol_type \<Rightarrow> string \<Rightarrow> bool" where
  "sym_string_valid ty str =
     (case ty of
        S_STRING \<Rightarrow> True
      | S_INT \<Rightarrow> valid_int str
      | S_HEX \<Rightarrow> valid_hex str
      | S_BOOLEAN \<Rightarrow> letter_tri str \<noteq> None
      | S_TRISTATE \<Rightarrow> letter_tri str \<noteq> None
      | _ \<Rightarrow> False)"

definition number_within :: "sref \<Rightarrow> nat \<Rightarrow> string \<Rightarrow> bool km" where
  "number_within r base str =
     kbind (sym_get_range_prop sym_calc r) (\<lambda>po. case po of
       None \<Rightarrow> kret True
     | Some p \<Rightarrow> (case p_expr p of
         Some (PRange lo hi) \<Rightarrow>
           (let val = strtoll str base in
            kbind (sym_get_range_val sym_calc lo base) (\<lambda>a.
              if val \<ge> a then kbind (sym_get_range_val sym_calc hi base) (\<lambda>b. kret (val \<le> b)) else kret False))
       | _ \<Rightarrow> kcrash))"

definition sym_string_within_range :: "sref \<Rightarrow> string \<Rightarrow> bool km" where
  "sym_string_within_range r str =
     kbind (ksym r) (\<lambda>s. case s_type s of
       S_STRING \<Rightarrow> kret (sym_string_valid S_STRING str)
     | S_INT \<Rightarrow> if \<not> sym_string_valid S_INT str then kret False else number_within r 10 str
     | S_HEX \<Rightarrow> if \<not> sym_string_valid S_HEX str then kret False else number_within r 16 str
     | S_BOOLEAN \<Rightarrow> (case letter_tri str of None \<Rightarrow> kret False | Some t \<Rightarrow> kget (\<lambda>st. sym_tristate_within_range st r t))
     | S_TRISTATE \<Rightarrow> (case letter_tri str of None \<Rightarrow> kret False | Some t \<Rightarrow> kget (\<lambda>st. sym_tristate_within_range st r t))
     | _ \<Rightarrow> kret False)"

definition store_string :: "sref \<Rightarrow> string \<Rightarrow> bool km" where
  "store_string r newval =
     kbind (ksym r) (\<lambda>s.
       if s_type s = S_HEX \<and> \<not> has_0x newval
       then kseq (kupd r (set_def_val 0 (VStr (''0x'' @ newval)))) (kseq sym_clear_all_valid (kret True))
       else if fst (s_def s ! 0) = VStr newval then kret True
       else kseq (kupd r (set_def_val 0 (VStr newval))) (kseq sym_clear_all_valid (kret True)))"

definition sym_set_string_value :: "sref \<Rightarrow> string \<Rightarrow> bool km" where
  "sym_set_string_value r newval =
     kbind (ksym r) (\<lambda>s.
       if s_type s = S_BOOLEAN \<or> s_type s = S_TRISTATE
       then (case letter_tri newval of None \<Rightarrow> kret False | Some t \<Rightarrow> sym_set_tristate_value r t)
       else
         kbind (sym_string_within_range r newval) (\<lambda>b.
           if \<not> b then kret False else kseq (mark_user r) (store_string r newval)))"

definition tri_letter :: "tristate \<Rightarrow> string" where
  "tri_letter t = (case t of TNo \<Rightarrow> ''n'' | TMod \<Rightarrow> ''m'' | TYes \<Rightarrow> ''y'')"

text \<open>
  \<open>sym_get_string_default\<close>: the value of the first visible default, raised by selects; \<open>m\<close> becomes \<open>y\<close>
  without modules (\<open>modules_sym\<close> is followed without a check) and for a bool.
\<close>

definition default_values :: "sref \<Rightarrow> (tristate \<times> symval) km" where
  "default_values r =
     kbind (sym_get_default_prop sym_calc r) (\<lambda>po. kbind (ksym r) (\<lambda>s. case po of
       None \<Rightarrow> kret (TNo, VStr [])
     | Some p \<Rightarrow>
         if s_type s = S_BOOLEAN \<or> s_type s = S_TRISTATE
         then kbind (prop_expr_value sym_calc p) (\<lambda>v. kret (EXPR_AND v (p_vis_tri p), VStr []))
         else (case prop_get_symbol p of
             None \<Rightarrow> kret (TNo, VStr [])
           | Some d \<Rightarrow> kseq (sym_calc d) (kbind (ksym d) (\<lambda>ds. kret (TNo, s_val ds))))))"

definition sym_get_string_default :: "sref \<Rightarrow> string km" where
  "sym_get_string_default r =
     kseq (sym_calc_visibility sym_calc r)
     (kseq calc_modules
     (kbind (default_values r) (\<lambda>(v0, str).
      kbind (ksym r) (\<lambda>s.
      kbind (kget ks_modules) (\<lambda>mo.
      let v1 = EXPR_OR v0 (s_rev_tri s) in
      kbind (if v1 = TMod \<and> \<not> sym_is_choice_value s
             then (case mo of None \<Rightarrow> kcrash | Some m \<Rightarrow> kbind (ksym m) (\<lambda>ms. kret (if s_tri ms = TNo then TYes else v1)))
             else kret v1) (\<lambda>v2.
      let v3 = (if s_type s = S_BOOLEAN \<and> v2 = TMod then TYes else v2) in
      kret (case s_type s of
          S_BOOLEAN \<Rightarrow> tri_letter v3 | S_TRISTATE \<Rightarrow> tri_letter v3
        | S_INT \<Rightarrow> val_str str | S_HEX \<Rightarrow> val_str str | S_STRING \<Rightarrow> val_str str
        | _ \<Rightarrow> [])))))))"

section \<open>Expansion and escaping\<close>

definition is_name_char :: "char \<Rightarrow> bool" where
  "is_name_char c \<longleftrightarrow> is_digit c \<or> c = CHR ''_'' \<or>
     (let n = of_char c :: nat in (65 \<le> n \<and> n \<le> 90) \<or> (97 \<le> n \<and> n \<le> 122))"

definition SYMBOL_MAXLENGTH :: nat where "SYMBOL_MAXLENGTH = 256"

text \<open>
  \<open>sym_expand_string_value\<close>. A name that does not fit the array of \<open>SYMBOL_MAXLENGTH\<close> bytes is written
  beyond it (\<open>Crash\<close>).
\<close>

function sym_expand_string_value :: "string \<Rightarrow> string km" where
  "sym_expand_string_value inp =
     (case dropWhile (\<lambda>c. c \<noteq> CHR ''$'') inp of
        [] \<Rightarrow> kret inp
      | _ # src \<Rightarrow>
          (let pre = takeWhile (\<lambda>c. c \<noteq> CHR ''$'') inp; name = takeWhile is_name_char src in
           if SYMBOL_MAXLENGTH \<le> length name then kcrash
           else
             kbind (kget (\<lambda>st. sym_find st (Some name))) (\<lambda>f.
             kbind (case f of
                      None \<Rightarrow> kret []
                    | Some r \<Rightarrow> kseq (sym_calc r) (get_string sym_calc r)) (\<lambda>symval.
             kbind (sym_expand_string_value (dropWhile is_name_char src)) (\<lambda>rest.
               kret (pre @ symval @ rest))))))"
  by pat_completeness auto

lemma dropWhile_shorter: "dropWhile P xs = y # ys \<Longrightarrow> length (dropWhile Q ys) < length xs"
  using length_dropWhile_le [of P xs] length_dropWhile_le [of Q ys] by simp

lemma dropWhile_tail: "dropWhile P xs = y # ys \<Longrightarrow> length ys < length xs"
  using length_dropWhile_le [of P xs] by simp

termination sym_expand_string_value
  by (relation "measure length") (auto intro: dropWhile_shorter)

declare sym_expand_string_value.simps [simp del]

definition is_special :: "char \<Rightarrow> bool" where
  "is_special c \<longleftrightarrow> c = CHR 0x22 \<or> c = CHR 0x5C"

text \<open>The first loop of \<open>sym_escape_string_value\<close> counts, the second copies.\<close>

function escape_count :: "string \<Rightarrow> nat" where
  "escape_count p = (case dropWhile (\<lambda>c. \<not> is_special c) p of [] \<Rightarrow> 0 | _ # q \<Rightarrow> Suc (escape_count q))"
  by pat_completeness auto

termination escape_count
  by (relation "measure length") (auto dest: dropWhile_tail)

function escape_copy :: "string \<Rightarrow> string" where
  "escape_copy p =
     takeWhile (\<lambda>c. \<not> is_special c) p @
     (case dropWhile (\<lambda>c. \<not> is_special c) p of [] \<Rightarrow> [] | c # q \<Rightarrow> CHR 0x5C # c # escape_copy q)"
  by pat_completeness auto

termination escape_copy
  by (relation "measure length") (auto dest: dropWhile_tail)

declare escape_count.simps [simp del] escape_copy.simps [simp del]

definition escape_size :: "string \<Rightarrow> nat" where
  "escape_size s = length s + 2 + 1 + escape_count s"

definition sym_escape_string_value :: "string \<Rightarrow> string" where
  "sym_escape_string_value s = CHR 0x22 # escape_copy s @ [CHR 0x22]"

lemma escape_simps [simp]:
  "escape_copy [] = []"
  "escape_copy (c # s) = (if is_special c then CHR 0x5C # c # escape_copy s else c # escape_copy s)"
  "escape_count [] = 0"
  "escape_count (c # s) = (if is_special c then Suc (escape_count s) else escape_count s)"
  by (simp_all add: escape_copy.simps [of "c # s"] escape_copy.simps [of s] escape_copy.simps [of "[]"]
        escape_count.simps [of "c # s"] escape_count.simps [of s] escape_count.simps [of "[]"])

lemma escape_copy_length: "length (escape_copy s) = length s + escape_count s"
  by (induction s) auto

text \<open>The buffer \<open>sym_escape_string_value\<close> allocates holds exactly the escaped string and its terminator.\<close>

theorem sym_escape_fits: "length (sym_escape_string_value s) + 1 = escape_size s"
  by (simp add: sym_escape_string_value_def escape_size_def escape_copy_length)

section \<open>Numbers\<close>

lemma digit_val_less: "is_digit c \<Longrightarrow> digit_val c < 10 \<and> char_of (48 + digit_val c) = c"
  by (auto simp: is_digit_def digit_val_def)

lemma digits_val_ge: "digits_val (c # t) \<ge> digit_val c * 10 ^ length t"
proof (induction t rule: rev_induct)
  case (snoc x t)
  have "digits_val (c # t @ [x]) = 10 * digits_val (c # t) + digit_val x"
    using digits_val_snoc [of "c # t" x] by simp
  with snoc show ?case by (simp add: algebra_simps)
qed (simp add: digits_val_def)

text \<open>A digit string without a leading zero is the decimal form of its value.\<close>

lemma nat_str_digits_val:
  assumes "is_digit c" "list_all is_digit t" "\<not> (c = CHR ''0'' \<and> t \<noteq> [])"
  shows "nat_str (digits_val (c # t)) = c # t"
  using assms(2,3)
proof (induction t rule: rev_induct)
  case Nil
  then show ?case using digit_val_less [OF assms(1)] by (simp add: digits_val_def nat_str.simps)
next
  case (snoc x t)
  then have c0: "c \<noteq> CHR ''0''" and x: "is_digit x" by auto
  have v: "digits_val (c # t @ [x]) = 10 * digits_val (c # t) + digit_val x"
    using digits_val_snoc [of "c # t" x] by simp
  have "char_of (48 :: nat) = CHR ''0''" by code_simp
  then have "digit_val c \<noteq> 0" using c0 digit_val_less [OF assms(1)] by (metis add.right_neutral)
  then have "1 \<le> digit_val c * 10 ^ length t" by simp
  then have "1 \<le> digits_val (c # t)" using digits_val_ge [of c t] by linarith
  then show ?case using snoc c0 v digit_val_less [OF x] by (subst nat_str.simps) simp
qed

lemma nat_str_no_zero: "nat_str n = c # t \<Longrightarrow> is_digit c \<and> list_all is_digit t \<and> \<not> (c = CHR ''0'' \<and> t \<noteq> [])"
proof (induction n arbitrary: t rule: nat_str.induct)
  case (1 n)
  have d: "is_digit c" "list_all is_digit t" using nat_str_digits [of n] "1.prems" by (auto simp: list_all_iff)
  have z: "char_of (48 :: nat) = CHR ''0''" by code_simp
  have "t = []" if "c = CHR ''0''"
  proof (cases "n < 10")
    case True
    then show ?thesis using "1.prems" by (simp add: nat_str.simps)
  next
    case False
    obtain x y where xy: "nat_str (n div 10) = x # y" using nat_str_not_Nil [of "n div 10"] by (cases "nat_str (n div 10)") auto
    then have "x = c" and t: "t = y @ [char_of (48 + n mod 10)]" using "1.prems" False by (simp_all add: nat_str.simps [of n])
    then have "y = []" using "1.IH" [OF False, of y] xy that by auto
    then have "digits_val (nat_str (n div 10)) = 0" using xy that \<open>x = c\<close> by (simp add: digits_val_def digit_val_def)
    then show ?thesis using False by simp
  qed
  then show ?case using d by blast
qed

text \<open>The strings \<open>sym_string_valid\<close> accepts for an \<open>int\<close> are the decimal numbers as they are printed, and
  the string \<open>-0\<close>.\<close>

theorem sym_string_valid_int:
  "sym_string_valid S_INT s \<longleftrightarrow> (\<exists>i. s = int_str i) \<or> s = ''-0''"
proof
  assume v: "sym_string_valid S_INT s"
  show "(\<exists>i. s = int_str i) \<or> s = ''-0''"
  proof (cases "take 1 s = ''-''")
    case True
    then obtain t where s: "s = CHR ''-'' # t" by (cases s) auto
    then obtain c u where t: "t = c # u" and d: "is_digit c" "list_all is_digit u" "\<not> (c = CHR ''0'' \<and> u \<noteq> [])"
      using v by (auto simp: sym_string_valid_def valid_int_def split: list.splits)
    have n: "nat_str (digits_val t) = t" using nat_str_digits_val [OF d] t by simp
    show ?thesis
    proof (cases "digits_val t = 0")
      case True
      then have "t = nat_str 0" using n by simp
      then have "s = ''-0''" using s by (simp add: nat_str.simps) code_simp
      then show ?thesis by simp
    next
      case False
      then have "s = int_str (- int (digits_val t))" using s n by (simp add: int_str_def)
      then show ?thesis by blast
    qed
  next
    case False
    then obtain c u where t: "s = c # u" and d: "is_digit c" "list_all is_digit u" "\<not> (c = CHR ''0'' \<and> u \<noteq> [])"
      using v by (auto simp: sym_string_valid_def valid_int_def split: list.splits)
    then have "s = int_str (int (digits_val s))" using nat_str_digits_val [OF d] by (simp add: int_str_def)
    then show ?thesis by blast
  qed
next
  have g: "valid_int (nat_str n) \<and> valid_int (CHR ''-'' # nat_str n)" for n
  proof -
    obtain c t where ct: "nat_str n = c # t" using nat_str_not_Nil [of n] by (cases "nat_str n") auto
    have d: "is_digit c \<and> list_all is_digit t \<and> \<not> (c = CHR ''0'' \<and> t \<noteq> [])" using nat_str_no_zero [OF ct] .
    moreover from this have "c \<noteq> CHR ''-''" by auto
    ultimately show ?thesis by (auto simp: valid_int_def ct)
  qed
  have "valid_int ''-0''" by code_simp
  moreover assume "(\<exists>i. s = int_str i) \<or> s = ''-0''"
  ultimately show "sym_string_valid S_INT s" using g by (auto simp: sym_string_valid_def int_str_def)
qed

end
