(* ===== verification/KSymSetFacts.thy ===== *)
theory KSymSetFacts
  imports KSymSet
begin

text \<open>
  Changing values keeps the symbol table in order and always comes to an end; a refused value changes
  nothing.
\<close>

definition in_order :: "symbol_type list \<Rightarrow> kst \<Rightarrow> bool" where
  "in_order tys st \<longleftrightarrow> table_inv (todo st) tys st"

lemma in_orderI: "table_inv k tys st \<Longrightarrow> in_order tys st"
  by (simp add: in_order_def table_inv_def)

lemma keeps_any: "(\<And>k. keeps (table_inv k tys) m R) \<Longrightarrow> keeps (in_order tys) m R"
proof -
  assume k: "\<And>k. keeps (table_inv k tys) m R"
  show ?thesis unfolding keeps_def
  proof (intro allI impI)
    fix st assume "in_order tys st"
    then have "case m st of Ret x st' \<Rightarrow> table_inv (todo st) tys st' \<and> R x | Crash \<Rightarrow> True | NoFuel \<Rightarrow> False"
      using k [of "todo st"] by (simp add: keeps_def in_order_def)
    then show "case m st of Ret x st' \<Rightarrow> in_order tys st' \<and> R x | Crash \<Rightarrow> True | NoFuel \<Rightarrow> False"
      by (cases "m st") (auto intro: in_orderI)
  qed
qed

lemma keep_sym_calc [keep_intros]: "keep (table_inv k tys) (sym_calc r)"
  unfolding keeps_def
proof (intro allI impI)
  fix st assume i: "table_inv k tys st"
  have "table_inv (todo st) tys st" using i by (simp add: table_inv_def)
  then have "case sym_calc r st of Ret x st' \<Rightarrow> table_inv (todo st) tys st' \<and> True | Crash \<Rightarrow> True | NoFuel \<Rightarrow> False"
    using sym_calc_value_keep [of "todo st" "Suc (todo st)" tys r] by (simp add: keeps_def sym_calc_def)
  then show "case sym_calc r st of Ret x st' \<Rightarrow> table_inv k tys st' \<and> True | Crash \<Rightarrow> True | NoFuel \<Rightarrow> False"
    using i by (cases "sym_calc r st") (auto simp: table_inv_def)
qed

lemma keep_sym_calc_any [keep_intros]: "keep (in_order tys) (sym_calc r)"
  by (rule keeps_any) (rule keep_sym_calc)

lemma keep_calc_modules [keep_intros]: "keep (in_order tys) calc_modules"
  unfolding calc_modules_def by (intro keep_intros)

lemma in_order_upd:
  assumes "in_order tys st" "\<not> is_static r"
    and f: "\<And>s. s_type (f s) = s_type s" "\<And>s. s_tri (f s) = s_tri s" "\<And>s. s_val (f s) = s_val s"
  shows "in_order tys (sym_upd r f st)"
proof -
  have "\<forall>s \<in> set (ks_syms (sym_upd r f st)). s_type s = S_BOOLEAN \<longrightarrow> s_tri s \<noteq> TMod"
  proof (cases "sref_idx r < length (ks_syms st)")
    case True
    then show ?thesis using assms(1) by (intro all_upd) (auto simp: in_order_def table_inv_def f sym_at_def)
  qed (use assms(1) in \<open>simp add: upd_beyond in_order_def table_inv_def\<close>)
  moreover have "static_ok (sym_upd r f st)"
    using assms(1,2) by (intro static_ok_upd) (auto simp: in_order_def table_inv_def)
  ultimately show ?thesis
    using assms(1,2) types_upd [of f st r] f by (auto simp: in_order_def table_inv_def)
qed

lemma keep_for_in: "(\<And>x. x \<in> set xs \<Longrightarrow> keep I (f x)) \<Longrightarrow> keep I (kfor xs f)"
  by (induction xs) (auto intro!: keep_ret keep_seq)

lemma keeps_all_symbols: "keeps (in_order tys) (kget all_symbols) (\<lambda>rs. \<forall>r \<in> set rs. \<not> is_static r)"
  by (auto simp: keeps_def kget_def all_symbols_def in_order_def table_inv_def chains_ok_def)

lemma keep_clear_all_valid [keep_intros]: "keep (in_order tys) sym_clear_all_valid"
proof -
  have c: "keep (in_order tys) (kupd r (clear_flag SYMBOL_VALID))" if "\<not> is_static r" for r
    using that by (intro keep_upd) (rule in_order_upd, auto simp: clear_flag_def)
  have n: "keep (in_order tys) (sym_add_change_count n)" for n
    unfolding sym_add_change_count_def by (rule keep_mod) (simp add: in_order_def todo_def)
  show ?thesis unfolding sym_clear_all_valid_def
    by (rule keeps_bind [OF keeps_all_symbols]) (intro keep_seq keep_for_in c n keep_calc_modules, blast)
qed

lemma keep_harmless_any [keep_intros]: "harmless f \<Longrightarrow> keep (in_order tys) (kupd r f)"
  by (rule keeps_any) (rule keep_harmless)

lemma harmless_def_val [keep_intros]: "harmless (set_def_val i v)"
  by (simp add: harmless_def has_flag_def set_def_val_def)

lemma keep_set_changed_any [keep_intros]: "keep (in_order tys) (sym_set_changed r)"
  by (rule keeps_any) (rule keep_set_changed)

lemma keep_mark_user [keep_intros]: "keep (in_order tys) (mark_user r)"
  unfolding mark_user_def by (intro keep_intros)

lemma keep_choose_value [keep_intros]: "keep (in_order tys) (choose_value r)"
  unfolding choose_value_def by (intro keep_intros)

lemma keep_set_tristate [keep_intros]: "keep (in_order tys) (sym_set_tristate_value r v)"
  unfolding sym_set_tristate_value_def by (intro keep_intros)

lemma keep_toggle_loop: "keep (in_order tys) (toggle_loop r vs u)"
  by (induction vs arbitrary: u) (simp; intro keep_intros; assumption)+

lemma keep_toggle [keep_intros]: "keep (in_order tys) (sym_toggle_tristate_value r)"
  unfolding sym_toggle_tristate_value_def by (intro keep_bind keep_get keep_toggle_loop)

lemma keep_number_within [keep_intros]: "keep (in_order tys) (number_within r b s)"
  unfolding number_within_def by (rule keeps_any) (intro keep_intros)

lemma keep_within_range [keep_intros]: "keep (in_order tys) (sym_string_within_range r s)"
  unfolding sym_string_within_range_def
  by (intro keep_bind keep_sym) (auto split: symbol_type.splits intro: keep_intros)

lemma keep_store_string [keep_intros]: "keep (in_order tys) (store_string r v)"
  unfolding store_string_def by (intro keep_intros)

lemma keep_set_string [keep_intros]: "keep (in_order tys) (sym_set_string_value r v)"
  unfolding sym_set_string_value_def by (intro keep_intros)

lemma keep_string_default [keep_intros]: "keep (in_order tys) (sym_get_string_default r)"
proof -
  have v: "keep (in_order tys) (sym_calc_visibility sym_calc r)" by (rule keeps_any) (intro keep_intros)
  have d: "keep (in_order tys) (default_values r)"
    unfolding default_values_def by (rule keeps_any) (intro keep_intros)
  show ?thesis unfolding sym_get_string_default_def split_def Let_def
    by (intro keep_seq keep_bind keep_get keep_sym v keep_calc_modules d keep_if keep_option keep_ret keep_crash)
qed

section \<open>Properties\<close>

lemma table_in_order: "table_ok st \<longleftrightarrow> in_order (map s_type (ks_syms st)) st"
  by (simp add: table_ok_def in_order_def)

lemma keepsD: "keeps I m R \<Longrightarrow> I st \<Longrightarrow> m st = Ret x st' \<Longrightarrow> I st' \<and> R x"
  by (auto simp: keeps_def split: kres.splits)

lemma keeps_fuel: "keeps I m R \<Longrightarrow> I st \<Longrightarrow> m st \<noteq> NoFuel"
  by (auto simp: keeps_def split: kres.splits)

definition outcome_ok :: "symbol_type list \<Rightarrow> 'a kres \<Rightarrow> bool" where
  "outcome_ok tys res = (case res of Ret _ st \<Rightarrow> table_ok st \<and> map s_type (ks_syms st) = tys | Crash \<Rightarrow> True | NoFuel \<Rightarrow> False)"

lemma in_order_types: "in_order tys st \<Longrightarrow> map s_type (ks_syms st) = tys"
  by (simp add: in_order_def table_inv_def)

lemma outcome_keep: "keep (in_order tys) m \<Longrightarrow> in_order tys st \<Longrightarrow> outcome_ok tys (m st)"
  using keepsD [of "in_order tys" m "\<lambda>_. True" st] keeps_fuel [of "in_order tys" m "\<lambda>_. True" st]
  by (cases "m st") (auto simp: outcome_ok_def table_in_order in_order_types)

text \<open>Setting a symbol to a string, whatever the symbol and the string are, comes to an end and leaves the
  table in order, with every symbol of the type it had: no bool gets the value \<open>m\<close>, the constants stay
  what they are (or the code has followed a \<open>NULL\<close> pointer).\<close>

theorem sym_set_string_value_keeps:
  "table_ok st \<Longrightarrow> outcome_ok (map s_type (ks_syms st)) (sym_set_string_value r v st)"
  by (rule outcome_keep [OF keep_set_string]) (simp add: table_in_order)

theorem sym_set_string_value_keeps_witness:
  "outcome_ok (map s_type (ks_syms calc_table)) (sym_set_string_value (Sym 0) ''y'' calc_table)"
  using sym_set_string_value_keeps [OF calc_table_ok(1)] .

text \<open>A tristate value that is neither the present one nor within the range the symbol has is refused,
  and nothing changes.\<close>

theorem sym_set_tristate_value_refused:
  "sym_get_tristate_value st r \<noteq> v \<Longrightarrow> \<not> sym_tristate_within_range st r v \<Longrightarrow>
     sym_set_tristate_value r v st = Ret False st"
  by (simp add: sym_set_tristate_value_def kbind_def kget_def kret_def)

theorem sym_set_tristate_value_refused_witness:
  "sym_set_tristate_value (Sym 1) TMod calc_table = Ret False calc_table"
proof -
  have "sym_get_tristate_value calc_table (Sym 1) \<noteq> TMod" "\<not> sym_tristate_within_range calc_table (Sym 1) TMod"
    by code_simp+
  then show ?thesis by (rule sym_set_tristate_value_refused)
qed

lemma set_tristate_accepts:
  "sym_set_tristate_value r v st = Ret b st' \<Longrightarrow>
     b = (sym_get_tristate_value st r = v \<or> sym_tristate_within_range st r v) \<and> (\<not> b \<longrightarrow> st' = st)"
proof (cases "sym_get_tristate_value st r \<noteq> v \<and> \<not> sym_tristate_within_range st r v")
  case True
  then show "sym_set_tristate_value r v st = Ret b st' \<Longrightarrow> ?thesis"
    by (simp add: sym_set_tristate_value_def kbind_def kget_def kret_def)
next
  case False
  assume "sym_set_tristate_value r v st = Ret b st'"
  then have "b = True" using False
    by (auto simp: sym_set_tristate_value_def kbind_def kseq_def kget_def kret_def split: kres.splits if_splits)
  then show ?thesis using False by blast
qed

lemma toggle_loop_value:
  "toggle_loop r vs u st = Ret v st' \<Longrightarrow> sym_get_tristate_value st r \<in> set vs \<Longrightarrow>
     v = sym_get_tristate_value st r \<or> sym_tristate_within_range st r v"
proof (induction vs arbitrary: u)
  case (Cons w vs)
  then obtain b st1 where a: "sym_set_tristate_value r w st = Ret b st1"
    by (auto simp: kbind_def split: kres.splits)
  show ?case
  proof (cases b)
    case True
    then show ?thesis using Cons.prems a set_tristate_accepts [OF a] by (auto simp: kbind_def kret_def)
  next
    case False
    then have "st1 = st" "sym_get_tristate_value st r \<noteq> w" using set_tristate_accepts [OF a] by auto
    then show ?thesis using Cons a False by (auto simp: kbind_def)
  qed
qed simp

text \<open>Toggling a symbol leads to the next value the symbol may have, or leaves it at the value it has: the
  loop ends at the old value at the latest, which is always accepted.\<close>

theorem sym_toggle_value:
  "case sym_toggle_tristate_value r st of
     Ret v st' \<Rightarrow> v = sym_get_tristate_value st r \<or> sym_tristate_within_range st r v
   | _ \<Rightarrow> True"
proof (cases "sym_toggle_tristate_value r st")
  case (Ret v st')
  then have "toggle_loop r (toggle_order (sym_get_tristate_value st r)) (sym_get_tristate_value st r) st = Ret v st'"
    by (simp add: sym_toggle_tristate_value_def kbind_def kget_def)
  from toggle_loop_value [OF this] show ?thesis using Ret by (simp add: toggle_order_def)
qed simp_all

end
