(* ===== verification/KMenu.thy ===== *)
theory KMenu
  imports KSymSetFacts
begin

text \<open>
  \<open>buildroot/support/kconfig/menu.c\<close>: building the menu tree while the configuration language is
  parsed, \<open>menu_finalize\<close>, and visibility. The links \<open>next\<close>, \<open>list\<close> and \<open>parent\<close> of \<open>struct menu\<close>
  are the shape of a tree: an entry has the list of its children, and what follows an entry is the
  rest of the list it stands in. A prompt is a property of the symbol of the entry (its position
  there) or, for an entry without symbol, a property of its own. File names and line numbers are
  left out. Messages of \<open>menu_finalize\<close> about choice values go to the terminal only and are not
  recorded; those of \<open>sym_check_prop\<close> are.
\<close>

datatype pref = PIdx nat | POwn property

record menu =
  m_id :: nat
  m_sym :: "sref option"
  m_prompt :: "pref option"
  m_visibility :: "expr option"
  m_dep :: "expr option"
  m_help :: "string option"

datatype mtree = MT menu "mtree list"

fun mt_menu :: "mtree \<Rightarrow> menu" where "mt_menu (MT m cs) = m"
fun mt_list :: "mtree \<Rightarrow> mtree list" where "mt_list (MT m cs) = cs"

section \<open>Properties of an entry\<close>

definition set_prop :: "nat \<Rightarrow> (property \<Rightarrow> property) \<Rightarrow> symbol \<Rightarrow> symbol" where
  "set_prop k f s = (if k < length (s_prop s) then s\<lparr>s_prop := (s_prop s)[k := f (s_prop s ! k)]\<rparr> else s)"

definition prompt_prop :: "kst \<Rightarrow> menu \<Rightarrow> property option" where
  "prompt_prop st m =
     (case (m_prompt m, m_sym m) of
        (None, _) \<Rightarrow> None
      | (Some (POwn p), _) \<Rightarrow> Some p
      | (Some (PIdx k), Some r) \<Rightarrow> Some (s_prop (sym_at st r) ! k)
      | (Some (PIdx k), None) \<Rightarrow> None)"

definition prompt_vis :: "kst \<Rightarrow> menu \<Rightarrow> expr option" where
  "prompt_vis st m = (case prompt_prop st m of None \<Rightarrow> None | Some p \<Rightarrow> p_vis_expr p)"

definition has_prompt :: "menu \<Rightarrow> bool" where "has_prompt m \<longleftrightarrow> m_prompt m \<noteq> None"

definition menu_has_prompt :: "menu \<Rightarrow> bool" where
  "menu_has_prompt m = has_prompt m"

definition menu_get_prompt :: "kst \<Rightarrow> menu \<Rightarrow> string option" where
  "menu_get_prompt st m =
     (case prompt_prop st m of
        Some p \<Rightarrow> p_text p
      | None \<Rightarrow> (case m_sym m of None \<Rightarrow> None | Some r \<Rightarrow> s_name (sym_at st r)))"

definition menu_has_help :: "menu \<Rightarrow> bool" where "menu_has_help m \<longleftrightarrow> m_help m \<noteq> None"

definition menu_get_help :: "menu \<Rightarrow> string" where
  "menu_get_help m = (case m_help m of Some h \<Rightarrow> h | None \<Rightarrow> [])"

section \<open>Building the tree\<close>

text \<open>
  The tree under construction: the open menus, innermost first, each with the children it has so
  far; \<open>current_menu\<close> is the innermost one. \<open>last_entry_ptr\<close> always points behind the last child
  of the innermost menu. \<open>current_entry\<close> is kept by its number.
\<close>

record mst =
  ms_k :: kst
  ms_open :: "(menu \<times> mtree list) list"
  ms_entry :: nat
  ms_next_id :: nat

definition new_menu :: "nat \<Rightarrow> sref option \<Rightarrow> menu" where
  "new_menu i s = \<lparr>m_id = i, m_sym = s, m_prompt = None, m_visibility = None, m_dep = None, m_help = None\<rparr>"

definition menu_init :: "kst \<Rightarrow> mst" where
  "menu_init st = \<lparr>ms_k = st, ms_open = [(new_menu 0 None, [])], ms_entry = 0, ms_next_id = 1\<rparr>"

fun map_mtree :: "(menu \<Rightarrow> menu) \<Rightarrow> mtree \<Rightarrow> mtree" where
  "map_mtree f (MT m cs) = MT (f m) (map (map_mtree f) cs)"

definition at_id :: "nat \<Rightarrow> (menu \<Rightarrow> menu) \<Rightarrow> menu \<Rightarrow> menu" where
  "at_id i f m = (if m_id m = i then f m else m)"

definition upd_entry :: "(menu \<Rightarrow> menu) \<Rightarrow> mst \<Rightarrow> mst" where
  "upd_entry f s = s\<lparr>ms_open := map (\<lambda>(m, cs). (at_id (ms_entry s) f m, map (map_mtree (at_id (ms_entry s) f)) cs)) (ms_open s)\<rparr>"

fun mt_menus :: "mtree \<Rightarrow> menu list" where
  "mt_menus (MT m cs) = m # concat (map mt_menus cs)"

definition entry_of :: "mst \<Rightarrow> menu option" where
  "entry_of s = List.find (\<lambda>m. m_id m = ms_entry s) (concat (map (\<lambda>(m, cs). m # concat (map mt_menus cs)) (ms_open s)))"

text \<open>
  \<open>menu_check_dep\<close>: \<open>m\<close> becomes \<open>m && MODULES\<close>. Without a modules symbol the code builds a node
  around a \<open>NULL\<close> symbol, which the next evaluation follows: \<open>None\<close>.
\<close>

fun check_dep :: "sref option \<Rightarrow> expr \<Rightarrow> expr option" where
  "check_dep mods (E_NOT e) = map_option E_NOT (check_dep mods e)"
| "check_dep mods (E_OR l r) = alloc_both E_OR (check_dep mods l) (check_dep mods r)"
| "check_dep mods (E_AND l r) = alloc_both E_AND (check_dep mods l) (check_dep mods r)"
| "check_dep mods (E_SYMBOL s) =
     (if s = SymMod then map_option (\<lambda>r. E_AND (E_SYMBOL s) (E_SYMBOL r)) mods else Some (E_SYMBOL s))"
| "check_dep mods (E_EQUAL a b) = Some (E_EQUAL a b)"
| "check_dep mods (E_UNEQUAL a b) = Some (E_UNEQUAL a b)"

definition menu_check_dep :: "kst \<Rightarrow> expr option \<Rightarrow> expr option option" where
  "menu_check_dep st e = (case e of None \<Rightarrow> Some None | Some x \<Rightarrow> map_option Some (check_dep (ks_modules st) x))"

definition menu_add_dep :: "expr option \<Rightarrow> mst \<Rightarrow> mst option" where
  "menu_add_dep dep s =
     map_option (\<lambda>d. upd_entry (\<lambda>m. m\<lparr>m_dep := expr_alloc_and (m_dep m) d\<rparr>) s) (menu_check_dep (ms_k s) dep)"

definition menu_add_visibility :: "expr option \<Rightarrow> mst \<Rightarrow> mst" where
  "menu_add_visibility e s = upd_entry (\<lambda>m. m\<lparr>m_visibility := expr_alloc_and (m_visibility m) e\<rparr>) s"

text \<open>\<open>menu_set_type\<close> for the symbol of the current entry.\<close>

definition set_type :: "symbol_type \<Rightarrow> sref \<Rightarrow> kst \<Rightarrow> kst" where
  "set_type ty r st =
     (let old = s_type (sym_at st r)
      in if old = ty then st
         else if old = S_UNKNOWN then sym_upd r (\<lambda>s. s\<lparr>s_type := ty\<rparr>) st
         else st\<lparr>ks_warnings := ks_warnings st @ [''ignoring type redefinition of '' @
                 (case s_name (sym_at st r) of Some n \<Rightarrow> n | None \<Rightarrow> ''<choice>'') @ '' from '' @
                 sym_type_name old @ '' to '' @ sym_type_name ty]\<rparr>)"

definition menu_set_type :: "symbol_type \<Rightarrow> mst \<Rightarrow> mst option" where
  "menu_set_type ty s =
     (case entry_of s of
        None \<Rightarrow> None
      | Some m \<Rightarrow> map_option (\<lambda>r. s\<lparr>ms_k := set_type ty r (ms_k s)\<rparr>) (m_sym m))"

text \<open>The menus above the current entry, innermost first, and their visibilities.\<close>

definition upper_menus :: "mst \<Rightarrow> menu list" where
  "upper_menus s =
     (let ms = map fst (ms_open s)
      in if ms \<noteq> [] \<and> m_id (hd ms) = ms_entry s then tl ms else ms)"

definition skip_blanks :: "string \<Rightarrow> string" where "skip_blanks p = dropWhile is_space p"

definition build_prop :: "prop_type \<Rightarrow> nat \<Rightarrow> string option \<Rightarrow> pexpr option \<Rightarrow> expr option \<Rightarrow> menu list \<Rightarrow> property" where
  "build_prop ty i prompt e dep uppers =
     \<lparr>p_kind = ty, p_text = map_option skip_blanks prompt,
      p_vis_expr = (if prompt \<noteq> None \<and> ty = P_PROMPT
                    then foldl (\<lambda>d u. if m_visibility u = None then d else expr_alloc_and d (map_option expr_copy (m_visibility u)))
                           dep uppers
                    else dep),
      p_vis_tri = TNo, p_expr = e, p_menu = Some i\<rparr>"

definition prop_warnings :: "mst \<Rightarrow> menu \<Rightarrow> string option \<Rightarrow> string list" where
  "prop_warnings s m prompt =
     (case prompt of
        None \<Rightarrow> []
      | Some t \<Rightarrow>
          (if t \<noteq> [] \<and> is_space (hd t) then [''leading whitespace ignored''] else []) @
          (if has_prompt m \<and> m_id m \<noteq> 0 then [''prompt redefined''] else []))"

definition menu_add_prop :: "prop_type \<Rightarrow> string option \<Rightarrow> pexpr option \<Rightarrow> expr option \<Rightarrow> mst \<Rightarrow> mst option" where
  "menu_add_prop ty prompt e dep s =
     (case (entry_of s, menu_check_dep (ms_k s) dep) of
        (Some m, Some d) \<Rightarrow>
          let p = build_prop ty (m_id m) prompt e d (upper_menus s);
              warned = s\<lparr>ms_k := (ms_k s)\<lparr>ks_warnings := ks_warnings (ms_k s) @ prop_warnings s m prompt\<rparr>\<rparr>
          in Some (case m_sym m of
               Some r \<Rightarrow>
                 let k = length (s_prop (sym_at (ms_k s) r));
                     s1 = warned\<lparr>ms_k := sym_upd r (add_prop p) (ms_k warned)\<rparr>
                 in if prompt \<noteq> None then upd_entry (\<lambda>x. x\<lparr>m_prompt := Some (PIdx k)\<rparr>) s1 else s1
             | None \<Rightarrow> if prompt \<noteq> None then upd_entry (\<lambda>x. x\<lparr>m_prompt := Some (POwn p)\<rparr>) warned else warned)
      | _ \<Rightarrow> None)"

definition menu_add_prompt :: "prop_type \<Rightarrow> string \<Rightarrow> expr option \<Rightarrow> mst \<Rightarrow> mst option" where
  "menu_add_prompt ty prompt dep s = menu_add_prop ty (Some prompt) None dep s"

definition menu_add_expr :: "prop_type \<Rightarrow> pexpr option \<Rightarrow> expr option \<Rightarrow> mst \<Rightarrow> mst option" where
  "menu_add_expr ty e dep s = menu_add_prop ty None e dep s"

definition menu_add_symbol :: "prop_type \<Rightarrow> sref \<Rightarrow> expr option \<Rightarrow> mst \<Rightarrow> mst option" where
  "menu_add_symbol ty r dep s = menu_add_prop ty None (Some (PExpr (E_SYMBOL r))) dep s"

definition menu_add_entry :: "sref option \<Rightarrow> mst \<Rightarrow> mst option" where
  "menu_add_entry sy s =
     (case ms_open s of
        [] \<Rightarrow> None
      | (m, cs) # rest \<Rightarrow>
          let i = ms_next_id s;
              s1 = s\<lparr>ms_open := (m, cs @ [MT (new_menu i sy) []]) # rest, ms_entry := i, ms_next_id := i + 1\<rparr>
          in (case sy of None \<Rightarrow> Some s1 | Some r \<Rightarrow> menu_add_symbol P_SYMBOL r None s1))"

text \<open>The current entry, a last child without children, becomes the innermost menu.\<close>

definition menu_add_menu :: "mst \<Rightarrow> mst option" where
  "menu_add_menu s =
     (case ms_open s of
        (m, cs) # rest \<Rightarrow>
          if cs \<noteq> [] \<and> m_id (mt_menu (last cs)) = ms_entry s \<and> mt_list (last cs) = []
          then Some (s\<lparr>ms_open := (mt_menu (last cs), []) # (m, butlast cs) # rest\<rparr>)
          else None
      | [] \<Rightarrow> None)"

definition menu_end_menu :: "mst \<Rightarrow> mst option" where
  "menu_end_menu s =
     (case ms_open s of
        (m, cs) # (m', cs') # rest \<Rightarrow> Some (s\<lparr>ms_open := (m', cs' @ [MT m cs]) # rest\<rparr>)
      | _ \<Rightarrow> None)"

datatype menu_option = T_OPT_MODULES | T_OPT_DEFCONFIG_LIST | T_OPT_ENV

text \<open>\<open>menu_add_option\<close>; an error of \<open>zconf_error\<close>, which prints the names of
  two symbols, is only counted; the assignment takes place.\<close>

definition menu_add_option :: "(string \<Rightarrow> string option) \<Rightarrow> menu_option \<Rightarrow> string \<Rightarrow> mst \<Rightarrow> mst option" where
  "menu_add_option getenv token arg s =
     (case entry_of s of
        None \<Rightarrow> None
      | Some m \<Rightarrow>
          (case token of
             T_OPT_MODULES \<Rightarrow>
               (if ks_modules (ms_k s) \<noteq> None \<and> m_sym m = None then None
                else Some (s\<lparr>ms_k := (ms_k s)\<lparr>ks_modules := m_sym m\<rparr>\<rparr>))
           | T_OPT_DEFCONFIG_LIST \<Rightarrow>
               Some (if ks_defconfig_list (ms_k s) = None
                     then s\<lparr>ms_k := (ms_k s)\<lparr>ks_defconfig_list := m_sym m\<rparr>\<rparr> else s)
           | T_OPT_ENV \<Rightarrow>
               (case m_sym m of
                  None \<Rightarrow> None
                | Some r \<Rightarrow> (case prop_add_env getenv r arg (ms_k s) of Ret _ st \<Rightarrow> Some (s\<lparr>ms_k := st\<rparr>) | _ \<Rightarrow> None))))"

section \<open>Checks of the properties of a symbol\<close>

definition menu_validate_number :: "kst \<Rightarrow> symbol \<Rightarrow> sref \<Rightarrow> bool" where
  "menu_validate_number st s r2 \<longleftrightarrow>
     s_type (sym_at st r2) = S_INT \<or> s_type (sym_at st r2) = S_HEX \<or>
     s_type (sym_at st r2) = S_UNKNOWN \<and> sym_string_valid (s_type s) (name_str (s_name (sym_at st r2)))"

definition single_symbol :: "property \<Rightarrow> bool" where
  "single_symbol p \<longleftrightarrow> (case p_expr p of Some (PExpr (E_SYMBOL _)) \<Rightarrow> True | _ \<Rightarrow> False)"

definition check_default :: "kst \<Rightarrow> symbol \<Rightarrow> property \<Rightarrow> string list" where
  "check_default st s p =
     (if s_type s \<in> {S_STRING, S_INT, S_HEX} \<and> \<not> single_symbol p
      then [''default for config symbol '' @ name_str (s_name s) @ '' must be a single symbol''] else []) @
     (case prop_get_symbol p of
        None \<Rightarrow> []
      | Some r2 \<Rightarrow>
          if s_type s \<in> {S_HEX, S_INT} \<and> \<not> menu_validate_number st s r2
          then [name_str (s_name s) @ '': number is invalid''] else [])"

definition check_select :: "kst \<Rightarrow> symbol \<Rightarrow> property \<Rightarrow> string list" where
  "check_select st s p =
     (case prop_get_symbol p of
        None \<Rightarrow> []
      | Some r2 \<Rightarrow>
          if s_type s \<noteq> S_BOOLEAN \<and> s_type s \<noteq> S_TRISTATE
          then [''config symbol '' @ name_str (s_name s) @ '' uses select, but is not boolean or tristate'']
          else if s_type (sym_at st r2) \<notin> {S_UNKNOWN, S_BOOLEAN, S_TRISTATE}
          then [name_str (s_name (sym_at st r2)) @ '' has wrong type'']
          else [])"

definition check_range :: "kst \<Rightarrow> symbol \<Rightarrow> property \<Rightarrow> string list" where
  "check_range st s p =
     (if s_type s \<noteq> S_INT \<and> s_type s \<noteq> S_HEX then [''range is only allowed for int or hex symbols''] else []) @
     (case p_expr p of
        Some (PRange a b) \<Rightarrow>
          if \<not> menu_validate_number st s a \<or> \<not> menu_validate_number st s b then [''range is invalid''] else []
      | _ \<Rightarrow> [])"

definition sym_check_prop :: "kst \<Rightarrow> sref \<Rightarrow> string list" where
  "sym_check_prop st r =
     (let s = sym_at st r
      in concat (map (\<lambda>p. case p_kind p of
             P_DEFAULT \<Rightarrow> check_default st s p
           | P_SELECT \<Rightarrow> check_select st s p
           | P_RANGE \<Rightarrow> check_range st s p
           | _ \<Rightarrow> []) (s_prop s)))"

section \<open>menu_finalize\<close>

text \<open>The type of a choice and of its values.\<close>

definition child_types :: "kst \<Rightarrow> mtree list \<Rightarrow> symbol_type list" where
  "child_types st cs =
     List.map_filter (\<lambda>c. case m_sym (mt_menu c) of
         None \<Rightarrow> None
       | Some r \<Rightarrow> if s_type (sym_at st r) \<noteq> S_UNKNOWN then Some (s_type (sym_at st r)) else None) cs"

definition choice_type :: "sref \<Rightarrow> mtree list \<Rightarrow> kst \<Rightarrow> kst" where
  "choice_type r cs st =
     (if s_type (sym_at st r) = S_UNKNOWN
      then (case child_types st cs of [] \<Rightarrow> st | ty # _ \<Rightarrow> set_type ty r st) else st)"

fun type_values :: "sref \<Rightarrow> mtree list \<Rightarrow> kst \<Rightarrow> kst" where
  "type_values r [] st = st"
| "type_values r (c # cs) st =
     type_values r cs
       (case m_sym (mt_menu c) of
          None \<Rightarrow> st
        | Some v \<Rightarrow> if s_type (sym_at st v) = S_UNKNOWN then set_type (s_type (sym_at st r)) v st else st)"

text \<open>The dependencies of an entry are those of its parent and its own.\<close>

definition base_dep :: "symtab \<Rightarrow> expr option \<Rightarrow> expr option \<Rightarrow> expr option" where
  "base_dep T parentdep dep =
     map_option (expr_eliminate_dups T)
       (expr_alloc_and (map_option expr_copy parentdep) (map_option (expr_transform T) dep))"

definition prop_dep :: "symtab \<Rightarrow> bool \<Rightarrow> expr option \<Rightarrow> expr option \<Rightarrow> expr option" where
  "prop_dep T to_bool basedep vis =
     (let d = base_dep T basedep vis in if to_bool then map_option (expr_trans_bool T) d else d)"

definition propagate_prop :: "sref \<Rightarrow> nat \<Rightarrow> expr option \<Rightarrow> nat \<Rightarrow> kst \<Rightarrow> kst" where
  "propagate_prop r i basedep k st =
     (let p = s_prop (sym_at st r) ! k
      in if p_menu p \<noteq> Some i then st
         else
           let d = prop_dep (sym_at st) (s_type (sym_at st r) \<noteq> S_TRISTATE) basedep (p_vis_expr p);
               st1 = sym_upd r (set_prop k (\<lambda>q. q\<lparr>p_vis_expr := d\<rparr>)) st
           in (case (p_kind p, prop_get_symbol p) of
                 (P_SELECT, Some es) \<Rightarrow>
                   sym_upd es (\<lambda>s. s\<lparr>s_rev_expr := expr_alloc_or (s_rev_expr s)
                       (expr_alloc_and (Some (E_SYMBOL r)) (map_option expr_copy d))\<rparr>) st1
               | _ \<Rightarrow> st1))"

definition propagate_entry :: "expr option \<Rightarrow> menu \<Rightarrow> kst \<Rightarrow> menu \<times> kst" where
  "propagate_entry parentdep m st =
     (let b = base_dep (sym_at st) parentdep (m_dep m);
          m1 = m\<lparr>m_dep := b\<rparr>
      in case m_sym m of
           Some r \<Rightarrow> (m1, fold (propagate_prop r (m_id m) b) [0..<length (s_prop (sym_at st r))] st)
         | None \<Rightarrow>
             (case m_prompt m of
                Some (POwn p) \<Rightarrow>
                  (m1\<lparr>m_prompt := Some (POwn (p\<lparr>p_vis_expr := prop_dep (sym_at st) False b (p_vis_expr p)\<rparr>))\<rparr>, st)
              | _ \<Rightarrow> (m1, st)))"

fun propagate :: "expr option \<Rightarrow> mtree list \<Rightarrow> kst \<Rightarrow> mtree list \<times> kst" where
  "propagate parentdep [] st = ([], st)"
| "propagate parentdep (MT c ccs # cs) st =
     (case propagate_entry parentdep c st of (c', st1) \<Rightarrow>
      case propagate parentdep cs st1 of (cs', st2) \<Rightarrow> (MT c' ccs # cs', st2))"

text \<open>The state and dependency that an entry with children passes on.\<close>

definition enter_list :: "menu \<Rightarrow> mtree list \<Rightarrow> kst \<Rightarrow> expr option \<times> kst" where
  "enter_list m cs st =
     (case m_sym m of
        Some r \<Rightarrow>
          if sym_is_choice (sym_at st r)
          then (Some (E_SYMBOL r), type_values r cs (choice_type r cs st))
          else (if has_prompt m then prompt_vis st m else m_dep m, st)
      | None \<Rightarrow> (if has_prompt m then prompt_vis st m else m_dep m, st))"

text \<open>Whether an entry that follows depends on the symbol and so becomes its child.\<close>

definition compare_dep :: "symtab \<Rightarrow> expr option \<Rightarrow> expr option" where
  "compare_dep T e =
     map_option (expr_eliminate_dups T) (map_option (expr_transform T) (expr_trans_compare e T_UNEQUAL SymNo))"

definition belongs :: "kst \<Rightarrow> sref \<Rightarrow> expr option \<Rightarrow> menu \<Rightarrow> bool" where
  "belongs st r basedep m =
     (let dep = (if has_prompt m then prompt_vis st m else m_dep m)
      in expr_contains_symbol dep r \<and>
         (expr_depends_symbol dep r \<or>
          expr_is_yes (snd (expr_eliminate_eq (compare_dep (sym_at st) dep) (map_option expr_copy basedep)))))"

definition leave_leaf :: "sref \<Rightarrow> menu \<Rightarrow> kst \<Rightarrow> kst" where
  "leave_leaf r m st = sym_upd r (\<lambda>s. s\<lparr>s_dir_expr := expr_alloc_or (s_dir_expr s) (m_dep m)\<rparr>) st"

text \<open>A child of a choice becomes a choice value; the members of the choice are appended in order.\<close>

definition append_choice :: "sref \<Rightarrow> symbol \<Rightarrow> symbol" where
  "append_choice v s =
     (case sym_get_choice_prop s of
        None \<Rightarrow> s
      | Some p0 \<Rightarrow>
          let k = length (takeWhile (\<lambda>p. p_kind p \<noteq> P_CHOICE) (s_prop s))
          in set_prop k (\<lambda>p. p\<lparr>p_expr := Some (PList (case p_expr p of Some (PList l) \<Rightarrow> l @ [v] | _ \<Rightarrow> [v]))\<rparr>) s)"

definition yes_dep :: "sref \<Rightarrow> menu \<Rightarrow> kst \<Rightarrow> menu \<times> kst" where
  "yes_dep r m st =
     (case m_sym m of
        None \<Rightarrow> (m, st)
      | Some v \<Rightarrow>
          let b = Some (E_EQUAL r SymYes)
          in (m\<lparr>m_dep := expr_alloc_and b (m_dep m)\<rparr>,
              fold (\<lambda>k. sym_upd v (set_prop k (\<lambda>p.
                      if p_menu p \<noteq> Some (m_id m) then p
                      else p\<lparr>p_vis_expr := expr_alloc_and (map_option expr_copy b) (p_vis_expr p)\<rparr>)))
                [0..<length (s_prop (sym_at st v))] st))"

definition make_choice_value :: "sref \<Rightarrow> menu \<Rightarrow> kst \<Rightarrow> menu \<times> kst" where
  "make_choice_value r m st =
     (case m_sym m of
        None \<Rightarrow> (m, st)
      | Some v \<Rightarrow>
          if sym_is_choice_value (sym_at st v) then (m, st)
          else
            let st1 = sym_upd v (set_flag SYMBOL_CHOICEVAL) st;
                (m1, st2) = (if s_type (sym_at st1 r) = S_TRISTATE \<and> s_type (sym_at st1 v) \<noteq> S_TRISTATE
                             then yes_dep r m st1 else (m, st1));
                st3 = sym_upd v (add_prop ((new_property P_CHOICE)\<lparr>p_expr := Some (PExpr (E_SYMBOL r)),
                        p_menu := Some (m_id m)\<rparr>)) st2
            in (m1, sym_upd r (append_choice v) st3))"

definition no_text :: "kst \<Rightarrow> menu \<Rightarrow> bool" where
  "no_text st m \<longleftrightarrow> (case prompt_prop st m of None \<Rightarrow> True | Some p \<Rightarrow> p_text p = None)"

fun mt_size :: "mtree \<Rightarrow> nat" where
  "mt_size (MT m cs) = Suc (sum_list (map mt_size cs))"

definition forest_size :: "mtree list \<Rightarrow> nat" where
  "forest_size ts = sum_list (map mt_size ts)"

text \<open>The last loop over the children: choice values, and lifting the children of entries without prompt.\<close>

function lift_children :: "sref option \<Rightarrow> mtree list \<Rightarrow> kst \<Rightarrow> mtree list \<times> kst" where
  "lift_children ch [] st = ([], st)"
| "lift_children ch (MT c ccs # cs) st =
     (case (case ch of Some r \<Rightarrow> make_choice_value r c st | None \<Rightarrow> (c, st)) of (c', st1) \<Rightarrow>
        if ccs \<noteq> [] \<and> no_text st1 c'
        then (case lift_children ch (ccs @ cs) st1 of (ts, st2) \<Rightarrow> (MT c' [] # ts, st2))
        else (case lift_children ch cs st1 of (ts, st2) \<Rightarrow> (MT c' ccs # ts, st2)))"
  by pat_completeness auto
termination
  by (relation "measure (\<lambda>(ch, ts, st). forest_size ts)") (auto simp: forest_size_def)

definition check_symbol :: "sref \<Rightarrow> menu \<Rightarrow> kst \<Rightarrow> kst" where
  "check_symbol r m st =
     (let s = sym_at st r
      in if has_flag SYMBOL_WARNED s then st
         else
           let ws = (if s_type s = S_UNKNOWN then [''config symbol defined without type''] else []) @
                    (if sym_is_choice s \<and> \<not> has_prompt m then [''choice must have a prompt''] else []) @
                    sym_check_prop st r
           in sym_upd r (set_flag SYMBOL_WARNED) (st\<lparr>ks_warnings := ks_warnings st @ ws\<rparr>))"

definition leave_entry :: "menu \<Rightarrow> kst \<Rightarrow> kst" where
  "leave_entry m st =
     (case m_sym m of
        None \<Rightarrow> st
      | Some r \<Rightarrow>
          let st1 = check_symbol r m st
          in if \<not> sym_is_optional (sym_at st1 r) \<and> has_prompt m
             then sym_upd r (\<lambda>s. s\<lparr>s_rev_expr := expr_alloc_or (s_rev_expr s)
                    (expr_alloc_and (prompt_vis st1 m) (Some (E_SYMBOL SymMod)))\<rparr>) st1
             else st1)"

definition choice_sym :: "kst \<Rightarrow> menu \<Rightarrow> sref option" where
  "choice_sym st m =
     (case m_sym m of Some r \<Rightarrow> if sym_is_choice (sym_at st r) then Some r else None | None \<Rightarrow> None)"

definition finish_menu :: "menu \<Rightarrow> mtree list \<Rightarrow> mtree list \<Rightarrow> kst \<Rightarrow> mtree \<times> mtree list \<times> kst" where
  "finish_menu m cs sibs st =
     (case lift_children (choice_sym st m) cs st of (cs', st1) \<Rightarrow> (MT m cs', sibs, leave_entry m st1))"

text \<open>
  \<open>menu_finalize\<close> of an entry and the entries that follow it: the finished entry, which may have
  taken some of these as children, and those that still follow. \<open>None\<close>: the bound on nested calls
  is used up (\<open>KMenuFacts\<close> shows that twice the number of entries is enough).
\<close>

fun menu_finalize :: "nat \<Rightarrow> mtree \<Rightarrow> mtree list \<Rightarrow> kst \<Rightarrow> (mtree \<times> mtree list \<times> kst) option"
  and finalize_list :: "nat \<Rightarrow> mtree list \<Rightarrow> kst \<Rightarrow> (mtree list \<times> kst) option"
  and absorb :: "nat \<Rightarrow> sref \<Rightarrow> expr option \<Rightarrow> mtree list \<Rightarrow> kst \<Rightarrow> (mtree list \<times> mtree list \<times> kst) option" where
  "menu_finalize 0 t sibs st = None"
| "menu_finalize (Suc n) (MT m cs) sibs st =
     (if cs \<noteq> [] then
        (case enter_list m cs st of (parentdep, st1) \<Rightarrow>
         case propagate parentdep cs st1 of (cs1, st2) \<Rightarrow>
         case finalize_list n cs1 st2 of
           None \<Rightarrow> None
         | Some (cs2, st3) \<Rightarrow> Some (finish_menu m cs2 sibs st3))
      else
        (case m_sym m of
           None \<Rightarrow> Some (finish_menu m [] sibs st)
         | Some r \<Rightarrow>
             (case absorb n r (compare_dep (sym_at st) (prompt_vis st m)) sibs st of
                None \<Rightarrow> None
              | Some (taken, rest, st1) \<Rightarrow> Some (finish_menu m taken rest (leave_leaf r m st1)))))"
| "finalize_list 0 ts st = None"
| "finalize_list (Suc n) [] st = Some ([], st)"
| "finalize_list (Suc n) (t # ts) st =
     (case menu_finalize n t ts st of
        None \<Rightarrow> None
      | Some (t', ts', st1) \<Rightarrow> map_option (\<lambda>(us, st2). (t' # us, st2)) (finalize_list n ts' st1))"
| "absorb 0 r basedep sibs st = None"
| "absorb (Suc n) r basedep [] st = Some ([], [], st)"
| "absorb (Suc n) r basedep (t # ts) st =
     (if belongs st r basedep (mt_menu t) then
        (case menu_finalize n t ts st of
           None \<Rightarrow> None
         | Some (t', ts', st1) \<Rightarrow> map_option (\<lambda>(us, rest, st2). (t' # us, rest, st2)) (absorb n r basedep ts' st1))
      else Some ([], t # ts, st))"

end
