(* ===== verification/KMenuFacts.thy ===== *)
theory KMenuFacts
  imports KMenu KExprFacts
begin

text \<open>
  What \<open>menu_finalize\<close> does to the menu tree: it only moves entries up and down between levels (the
  entries in the order of the file stay the same), it always ends, and the dependency it gives to an
  entry has the value of the conjunction of what the parent and the entry demand.
\<close>

section \<open>The entries of a forest, in the order of the file\<close>

fun mt_ids :: "mtree \<Rightarrow> nat list" where
  "mt_ids (MT m cs) = m_id m # concat (map mt_ids cs)"

definition ids :: "mtree list \<Rightarrow> nat list" where
  "ids ts = concat (map mt_ids ts)"

lemma ids_simps [simp]:
  "ids [] = []"
  "ids (MT m cs # ts) = m_id m # ids cs @ ids ts"
  "ids (ts @ us) = ids ts @ ids us"
  by (simp_all add: ids_def)

lemma ids_Cons: "ids (t # ts) = ids [t] @ ids ts"
  by (simp add: ids_def)

lemma propagate_entry_id: "propagate_entry d m st = (m', st') \<Longrightarrow> m_id m' = m_id m"
  by (auto simp: propagate_entry_def Let_def split: option.splits pref.splits)

lemma propagate_ids: "propagate d cs st = (cs', st') \<Longrightarrow> ids cs' = ids cs"
proof (induction cs arbitrary: st cs' st')
  case (Cons t cs)
  obtain c ccs where t: "t = MT c ccs" by (cases t)
  show ?case using Cons.prems Cons.IH
    by (auto simp: t split: prod.splits dest: propagate_entry_id)
qed auto

lemma make_choice_value_id: "make_choice_value r c st = (c', st') \<Longrightarrow> m_id c' = m_id c"
  by (auto simp: make_choice_value_def yes_dep_def Let_def split: option.splits if_splits prod.splits)

lemma lift_children_ids: "lift_children ch ts st = (ts', st') \<Longrightarrow> ids ts' = ids ts"
proof (induction ch ts st arbitrary: ts' st' rule: lift_children.induct)
  case (2 ch c ccs cs st)
  obtain c1 st1 where c1: "(case ch of None \<Rightarrow> (c, st) | Some r \<Rightarrow> make_choice_value r c st) = (c1, st1)"
    by (meson surj_pair)
  then have "m_id c1 = m_id c" by (auto split: option.splits dest: make_choice_value_id)
  with 2 c1 show ?case by (auto simp: c1 split: prod.splits if_splits)
qed simp

lemma finish_menu_ids:
  "finish_menu m cs sibs st = (t, sibs', st') \<Longrightarrow> ids (t # sibs') = m_id m # ids cs @ ids sibs \<and> sibs' = sibs"
  by (auto simp: finish_menu_def split: prod.splits dest: lift_children_ids)

lemma finalize_ids_aux:
  "menu_finalize n t sibs st = Some (t1, sibs1, st1) \<Longrightarrow>
     ids (t1 # sibs1) = ids (t # sibs) \<and> length (ids sibs1) \<le> length (ids sibs)"
  "finalize_list n ts st = Some (us, st2) \<Longrightarrow> ids us = ids ts"
  "absorb n r b ts st = Some (us', rest, st3) \<Longrightarrow> ids (us' @ rest) = ids ts"
proof (induction n t sibs st and n ts st and n r b ts st
    arbitrary: t1 sibs1 st1 and us st2 and us' rest st3
    rule: menu_finalize_finalize_list_absorb.induct)
  case (2 n m cs sibs st)
  show ?case
  proof (cases "cs = []")
    case False
    obtain d s1 where e: "enter_list m cs st = (d, s1)" by force
    obtain cs1 s2 where p: "propagate d cs s1 = (cs1, s2)" by force
    from 2(3) False obtain cs2 s3 where f: "finalize_list n cs1 s2 = Some (cs2, s3)"
      and fin: "finish_menu m cs2 sibs s3 = (t1, sibs1, st1)"
      by (auto simp: e p split: option.splits prod.splits)
    have "ids cs2 = ids cs" using 2(1)[OF False e [symmetric] p [symmetric] f] propagate_ids [OF p] by simp
    with finish_menu_ids [OF fin] show ?thesis by auto
  next
    case True
    show ?thesis
    proof (cases "m_sym m")
      case None
      with 2(3) True show ?thesis using finish_menu_ids [of m "[]" sibs st] by auto
    next
      case (Some r)
      from 2(3) True Some obtain taken re s1
        where ab: "absorb n r (compare_dep (sym_at st) (prompt_vis st m)) sibs st = Some (taken, re, s1)"
          and fin: "finish_menu m taken re (leave_leaf r m s1) = (t1, sibs1, st1)"
        by (auto split: option.splits prod.splits)
      have "ids (taken @ re) = ids sibs" using 2(2) True Some ab by blast
      then have "length (ids re) \<le> length (ids sibs)" by (metis ids_simps(3) length_append le_add2)
      with \<open>ids (taken @ re) = _\<close> finish_menu_ids [OF fin] True show ?thesis by auto
    qed
  qed
next
  case (5 n t ts st)
  from 5(3) obtain t' ts' s1 us1 s2 where m: "menu_finalize n t ts st = Some (t', ts', s1)"
    and f: "finalize_list n ts' s1 = Some (us1, s2)" and u: "us = t' # us1"
    by (auto split: option.splits prod.splits)
  show ?case using 5(1)[OF m] 5(2)[OF m refl refl f] u
    by (metis ids_Cons)
next
  case (8 n r b t ts st)
  show ?case
  proof (cases "belongs st r b (mt_menu t)")
    case True
    with 8(3) obtain t' ts' s1 us1 re s2 where m: "menu_finalize n t ts st = Some (t', ts', s1)"
      and f: "absorb n r b ts' s1 = Some (us1, re, s2)" and u: "us' = t' # us1" "rest = re"
      by (auto split: option.splits prod.splits)
    show ?thesis using 8(1)[OF True m] 8(2)[OF True m refl refl f] u
      by (metis append_Cons ids_Cons)
  next
    case False
    with 8(3) show ?thesis by simp
  qed
qed auto

section \<open>menu_finalize ends\<close>

lemma ids_pos: "length (ids (t # ts)) = Suc (length (ids (mt_list t)) + length (ids ts))"
  by (cases t) simp

lemma finalize_rest: "menu_finalize n t ts st = Some (t', ts', st') \<Longrightarrow> length (ids ts') \<le> length (ids ts)"
  using finalize_ids_aux(1) by blast

lemma finalize_ends_aux:
  "2 * length (ids (t # sibs)) \<le> n \<Longrightarrow> menu_finalize n t sibs st \<noteq> None"
  "2 * length (ids ts) < n \<Longrightarrow> finalize_list n ts st \<noteq> None"
  "2 * length (ids ts) < n \<Longrightarrow> absorb n r b ts st \<noteq> None"
proof (induction n t sibs st and n ts st and n r b ts st rule: menu_finalize_finalize_list_absorb.induct)
  case (2 n m cs sibs st)
  show ?case
  proof (cases "cs = []")
    case False
    obtain d s1 where e: "enter_list m cs st = (d, s1)" by force
    obtain cs1 s2 where p: "propagate d cs s1 = (cs1, s2)" by force
    have "2 * length (ids cs1) < n" using 2(3) propagate_ids [OF p] by simp
    then have "finalize_list n cs1 s2 \<noteq> None" using 2(1)[OF False e [symmetric] p [symmetric]] by simp
    then obtain cs2 s3 where "finalize_list n cs1 s2 = Some (cs2, s3)" by auto
    with False show ?thesis by (simp add: e p)
  next
    case True
    show ?thesis
    proof (cases "m_sym m")
      case (Some r)
      have "2 * length (ids sibs) < n" using 2(3) True by simp
      then have "absorb n r (compare_dep (sym_at st) (prompt_vis st m)) sibs st \<noteq> None"
        using 2(2) True Some by simp
      then obtain u v w where "absorb n r (compare_dep (sym_at st) (prompt_vis st m)) sibs st = Some (u, v, w)" by auto
      with True Some show ?thesis by simp
    qed (simp add: True)
  qed
next
  case (5 n t ts st)
  have "menu_finalize n t ts st \<noteq> None" using 5(1,3) by simp
  then obtain t' ts' s1 where m: "menu_finalize n t ts st = Some (t', ts', s1)" by auto
  have "finalize_list n ts' s1 \<noteq> None"
    using 5(2)[OF m refl refl] 5(3) finalize_rest [OF m] ids_pos [of t ts] by simp
  with m show ?case by auto
next
  case (8 n r b t ts st)
  show ?case
  proof (cases "belongs st r b (mt_menu t)")
    case True
    have "menu_finalize n t ts st \<noteq> None" using 8(1)[OF True] 8(3) by simp
    then obtain t' ts' s1 where m: "menu_finalize n t ts st = Some (t', ts', s1)" by auto
    have "absorb n r b ts' s1 \<noteq> None"
      using 8(2)[OF True m refl refl] 8(3) finalize_rest [OF m] ids_pos [of t ts] by simp
    with m True show ?thesis by auto
  qed simp
qed (simp_all add: ids_pos)

section \<open>The dependency of an entry\<close>

context symbol_values
begin

lemma transform_two: "settled w \<Longrightarrow> two_valued (tri w) e \<Longrightarrow> two_valued (tri w) (expr_transform (tab w) e)"
proof (induction "tab w" e rule: expr_transform.induct)
  case (2 a b)
  then show ?case using boolean [of w a] by (simp add: transform_EQUAL_def const_simps)
next
  case (3 a b)
  then show ?case using boolean [of w a] by (simp add: transform_UNEQUAL_def const_simps)
next
  case (6 e)
  have IH: "two_valued (tri w) (expr_transform (tab w) e)" using 6 by simp
  show ?case
  proof (cases "expr_transform (tab w) e")
    case (E_SYMBOL s)
    then show ?thesis using IH const_simps [OF "6.prems"(1)] by (cases s) auto
  qed (use IH 6 in auto)
qed simp_all

end

text \<open>
  The rewriting happens while only the types of the symbols are known; what counts is the value in
  every later, calculated table with these types. So the contract of symbol values is provided once
  more, with the table that is read and the table that gives the values apart.
\<close>

definition same_kinds :: "symtab \<Rightarrow> symtab \<Rightarrow> bool" where
  "same_kinds T U \<longleftrightarrow> (\<forall>r. s_type (T r) = s_type (U r) \<and> has_flag SYMBOL_CONST (T r) = has_flag SYMBOL_CONST (U r))"

interpretation later: symbol_values fst "\<lambda>(T, w). sym_get_tristate_value w" "\<lambda>(T, w). sym_get_string_value w"
  "\<lambda>(T, w). settled_table w \<and> same_kinds T (sym_at w)"
  by unfold_locales
    (auto simp: same_kinds_def dest: kv.constants kv.constant_names kv.boolean kv.logical kv.const_distinct)

text \<open>The value of a dependency, \<open>NULL\<close> being \<open>y\<close>, and that it is never \<open>m\<close>.\<close>

definition dep_value :: "kst \<Rightarrow> expr option \<Rightarrow> tristate" where
  "dep_value w d = (case d of None \<Rightarrow> TYes | Some e \<Rightarrow> calc_value w e)"

definition dep_two :: "kst \<Rightarrow> expr option \<Rightarrow> bool" where
  "dep_two w d = (case d of None \<Rightarrow> True | Some e \<Rightarrow> two_valued (sym_get_tristate_value w) e)"

lemma EXPR_AND_yes [simp]: "EXPR_AND TYes a = a" "EXPR_AND a TYes = a"
  by (cases a; simp)+

lemma base_dep_value:
  assumes "settled_table w" "same_kinds T (sym_at w)" "dep_two w parentdep" "dep_two w dep"
  shows "dep_value w (base_dep T parentdep dep) = EXPR_AND (dep_value w parentdep) (dep_value w dep)"
proof -
  have dups: "calc_value w (expr_eliminate_dups T e) = calc_value w e" if "two_valued (sym_get_tristate_value w) e" for e
    using later.dups_value [of "(T, w)" e] that assms by (simp add: calc_value_def)
  have tr: "calc_value w (expr_transform T e) = calc_value w e" for e
    using later.transform_value [of "(T, w)" e] assms by (simp add: calc_value_def)
  have two: "two_valued (sym_get_tristate_value w) (expr_transform T e)" if "two_valued (sym_get_tristate_value w) e" for e
    using later.transform_two [of "(T, w)" e] that assms by simp
  show ?thesis
    using assms(3,4) dups tr two
    by (cases parentdep; cases dep) (auto simp: base_dep_def dep_value_def dep_two_def calc_value_def)
qed

text \<open>Passing dependencies on changes neither types nor constants.\<close>

lemma same_kinds_refl [simp]: "same_kinds T T"
  by (simp add: same_kinds_def)

lemma same_kinds_trans: "same_kinds T U \<Longrightarrow> same_kinds U V \<Longrightarrow> same_kinds T V"
  by (simp add: same_kinds_def)

lemma same_kinds_upd:
  "(\<And>s. s_type (f s) = s_type s \<and> s_flags (f s) = s_flags s) \<Longrightarrow> same_kinds (sym_at (sym_upd r f st)) (sym_at st)"
  by (simp add: same_kinds_def has_flag_def)

lemma set_prop_kind [simp]: "s_type (set_prop k f s) = s_type s" "s_flags (set_prop k f s) = s_flags s"
  by (simp_all add: set_prop_def)

lemma propagate_prop_kinds: "same_kinds (sym_at (propagate_prop r i b k st)) (sym_at st)"
  unfolding propagate_prop_def Let_def
  by (auto split: prop_type.splits option.splits intro!: same_kinds_upd intro: same_kinds_trans [OF same_kinds_upd])

lemma fold_propagate_kinds: "same_kinds (sym_at (fold (propagate_prop r i b) ks st)) (sym_at st)"
  by (induction ks arbitrary: st) (auto intro: same_kinds_trans propagate_prop_kinds)

lemma propagate_entry_kinds:
  "propagate_entry d m st = (m', st') \<Longrightarrow> same_kinds (sym_at st') (sym_at st)"
  using fold_propagate_kinds
  by (fastforce simp: propagate_entry_def Let_def split: option.splits pref.splits)

lemma propagate_entry_dep:
  "propagate_entry d m st = (m', st') \<Longrightarrow> m_dep m' = base_dep (sym_at st) d (m_dep m)"
  by (auto simp: propagate_entry_def Let_def split: option.splits pref.splits)

section \<open>Properties\<close>

text \<open>C20: \<open>menu_finalize\<close> ends: as many nested calls as twice the number of entries are enough, whatever the
  tree and the table. It moves entries between levels of the tree, but loses none, adds none and keeps
  their order in the file.\<close>

theorem menu_finalize_keeps_order:
  "\<exists>t' sibs' st'. menu_finalize (2 * length (ids (t # sibs))) t sibs st = Some (t', sibs', st') \<and>
     ids (t' # sibs') = ids (t # sibs)"
  using finalize_ends_aux(1) [of t sibs "2 * length (ids (t # sibs))" st] finalize_ids_aux(1) by fastforce



end
