(* ===== verification/KConf.thy ===== *)
theory KConf
  imports KSymSetFacts
begin

text \<open>
  \<open>buildroot/support/kconfig/confdata.c\<close>: reading a configuration file and printing symbols. A file is the
  string of its bytes; memory is never exhausted. The prefix \<open>CONFIG_\<close> (from the environment) is a parameter
  \<open>pre\<close> of the operations.
\<close>

section \<open>Messages and counters\<close>

definition conf_warning :: "string \<Rightarrow> unit km" where
  "conf_warning msg =
     kseq (kmod (\<lambda>st. st\<lparr>ks_warnings := ks_warnings st @
            [ks_conf_filename st @ '':'' @ nat_str (ks_conf_lineno st) @ '':warning: '' @ msg]\<rparr>))
          (kmod (\<lambda>st. st\<lparr>ks_conf_warnings := ks_conf_warnings st + 1\<rparr>))"

text \<open>\<open>sym_set_change_count\<close>, without the call-back of the graphical front ends.\<close>

definition sym_set_change_count :: "nat \<Rightarrow> unit km" where
  "sym_set_change_count n = kmod (\<lambda>st. st\<lparr>ks_change_count := n\<rparr>)"

definition conf_get_changed :: "kst \<Rightarrow> bool" where
  "conf_get_changed st \<longleftrightarrow> ks_change_count st \<noteq> 0"

section \<open>Values of file lines\<close>

text \<open>
  The string behind an opening quote, up to the closing one, without the backslashes: the loop over
  \<open>strpbrk\<close> with \<open>memmove\<close> in \<open>conf_set_sym_val\<close>. \<open>None\<close> when no closing quote is found.
\<close>

fun unescape :: "string \<Rightarrow> string option" where
  "unescape [] = None"
| "unescape (c # s) =
     (if c = CHR 0x22 then Some []
      else if c = CHR 0x5C then (case s of [] \<Rightarrow> None | d # t \<Rightarrow> map_option ((#) d) (unescape t))
      else map_option ((#) c) (unescape s))"

definition set_def :: "sref \<Rightarrow> nat \<Rightarrow> 32 word \<Rightarrow> tristate \<Rightarrow> unit km" where
  "set_def r def fl t = kseq (kupd r (set_def_tri def t)) (kupd r (set_flag fl))"

definition invalid_value :: "sref \<Rightarrow> nat \<Rightarrow> string \<Rightarrow> bool km" where
  "invalid_value r def p =
     kbind (ksym r) (\<lambda>s.
     kseq (kwhen (def \<noteq> 1) (conf_warning (''symbol value '' @ [CHR 0x27] @ p @ [CHR 0x27] @ '' invalid for '' @ name_str (s_name s))))
       (kret True))"

definition set_checked :: "sref \<Rightarrow> nat \<Rightarrow> 32 word \<Rightarrow> string \<Rightarrow> bool km" where
  "set_checked r def fl p =
     kbind (ksym r) (\<lambda>s.
       if sym_string_valid (s_type s) p
       then kseq (kupd r (set_def_val def (VStr p))) (kseq (kupd r (set_flag fl)) (kret False))
       else invalid_value r def p)"

definition set_quoted :: "sref \<Rightarrow> nat \<Rightarrow> 32 word \<Rightarrow> string \<Rightarrow> bool km" where
  "set_quoted r def fl p =
     (case unescape p of
        None \<Rightarrow> kseq (kwhen (def \<noteq> 1) (conf_warning ''invalid string found'')) (kret True)
      | Some q \<Rightarrow> set_checked r def fl q)"

text \<open>
  \<open>conf_set_sym_val\<close>; the result says whether the value was invalid. \<open>def\<close> is 0 for \<open>S_DEF_USER\<close>, 1 for
  \<open>S_DEF_AUTO\<close>. A string symbol whose value does not start with a quote is left alone without a message.
\<close>

definition conf_set_sym_val :: "sref \<Rightarrow> nat \<Rightarrow> 32 word \<Rightarrow> string \<Rightarrow> bool km" where
  "conf_set_sym_val r def fl p =
     kbind (ksym r) (\<lambda>s.
       let quoted = (take 1 p = [CHR 0x22]);
           logical = (if take 1 p = ''y'' then kseq (set_def r def fl TYes) (kret False)
                      else if take 1 p = ''n'' then kseq (set_def r def fl TNo) (kret False)
                      else invalid_value r def p)
       in case s_type s of
            S_TRISTATE \<Rightarrow> if take 1 p = ''m'' then kseq (set_def r def fl TMod) (kret False) else logical
          | S_BOOLEAN \<Rightarrow> logical
          | S_OTHER \<Rightarrow>
              if \<not> quoted then kseq (kupd r (\<lambda>s. s\<lparr>s_type := S_STRING\<rparr>)) (set_checked r def fl p)
              else set_quoted r def fl (tl p)
          | S_STRING \<Rightarrow> if quoted then set_quoted r def fl (tl p) else kret False
          | S_INT \<Rightarrow> set_checked r def fl p
          | S_HEX \<Rightarrow> set_checked r def fl p
          | S_UNKNOWN \<Rightarrow> kret False)"

section \<open>Lines\<close>

text \<open>
  \<open>add_byte\<close>: the line so far and the size of its buffer; the buffer grows when the new byte does not fit.
  \<open>compat_getline\<close> reads up to a newline or the end of the file.
\<close>

definition LINE_GROWTH :: nat where "LINE_GROWTH = 16"

definition add_byte :: "char \<Rightarrow> string \<times> nat \<Rightarrow> string \<times> nat" where
  "add_byte c ln =
     (case ln of (line, n) \<Rightarrow>
        (line @ [c], if length line + 1 > n then (length line + 1 + (LINE_GROWTH - 1)) * 2 else n))"

fun getline_loop :: "string \<times> nat \<Rightarrow> string \<Rightarrow> (string \<times> nat) \<times> string" where
  "getline_loop ln [] = (ln, [])"
| "getline_loop ln (c # f) = (if c = CHR 0x0A then (add_byte c ln, f) else getline_loop (add_byte c ln) f)"

text \<open>The line with its newline, the size of the buffer afterwards (the terminator is added too), the rest.\<close>

definition compat_getline :: "nat \<Rightarrow> string \<Rightarrow> (string \<times> nat \<times> string) option" where
  "compat_getline n f =
     (case getline_loop ([], n) f of ((line, m), rest) \<Rightarrow>
        if line = [] then None else Some (line, snd (add_byte (char_of (0::nat)) (line, m)), rest))"

definition before :: "char \<Rightarrow> string \<Rightarrow> string" where
  "before c s = takeWhile (\<lambda>x. x \<noteq> c) s"

definition after :: "char \<Rightarrow> string \<Rightarrow> string option" where
  "after c s = (case dropWhile (\<lambda>x. x \<noteq> c) s of [] \<Rightarrow> None | _ # t \<Rightarrow> Some t)"

text \<open>What is behind the equals sign, without newline and carriage return.\<close>

definition cut_newline :: "string \<Rightarrow> string" where
  "cut_newline p =
     (let q = before (CHR 0x0A) p
      in if CHR 0x0A \<in> set p \<and> q \<noteq> [] \<and> last q = CHR 0x0D then butlast q else q)"

datatype conf_line = LUnset string | LSet string string | LSkip | LJunk

text \<open>
  The kind of a line. A comment is compared from its third byte on. (With a carriage return directly behind
  the equals sign the code looks at the byte in front of the value, which is the cut equals sign.)
\<close>

definition classify :: "string \<Rightarrow> string \<Rightarrow> conf_line" where
  "classify pre line =
     (if take 1 line = ''#'' then
        (if \<not> starts_with (drop 2 line) pre then LSkip
         else let name = drop (length pre) (drop 2 line) in
           case after (CHR '' '') name of
             None \<Rightarrow> LSkip
           | Some p \<Rightarrow> if starts_with p ''is not set'' then LUnset (before (CHR '' '') name) else LSkip)
      else if starts_with line pre then
        (let rest = drop (length pre) line in
         case after (CHR ''='') rest of
           None \<Rightarrow> LSkip
         | Some p \<Rightarrow> LSet (before (CHR ''='') rest) (cut_newline p))
      else if take 1 line \<noteq> [CHR 0x0D] \<and> take 1 line \<noteq> [CHR 0x0A] then LJunk
      else LSkip)"

section \<open>Reading a file\<close>

definition reassigned :: "sref \<Rightarrow> 32 word \<Rightarrow> unit km" where
  "reassigned r fl =
     kbind (ksym r) (\<lambda>s. kwhen (has_flag fl s) (conf_warning (''override: reassigning to symbol '' @ name_str (s_name s))))"

text \<open>The symbol of a line: found, or made when the automatic configuration is read.\<close>

definition line_symbol :: "nat \<Rightarrow> symbol_type \<Rightarrow> string \<Rightarrow> sref option km" where
  "line_symbol def ty name =
     (if def = 0 then
        kbind (kget (\<lambda>st. sym_find st (Some name))) (\<lambda>f. case f of
          Some r \<Rightarrow> kret (Some r)
        | None \<Rightarrow> kseq (sym_add_change_count 1) (kret None))
      else
        kbind (sym_lookup (Some name) 0) (\<lambda>r.
        kbind (ksym r) (\<lambda>s.
        kseq (kwhen (s_type s = S_UNKNOWN) (kupd r (\<lambda>s. s\<lparr>s_type := ty\<rparr>))) (kret (Some r)))))"

text \<open>What follows a line that has set the value of a choice value (label \<open>setsym\<close>).\<close>

definition set_choice :: "sref \<Rightarrow> nat \<Rightarrow> 32 word \<Rightarrow> unit km" where
  "set_choice r def fl =
     kbind (ksym r) (\<lambda>s. kwhen (sym_is_choice_value s)
       (kbind (choice_of r) (\<lambda>c. kbind (ksym c) (\<lambda>cs.
        kseq (case snd (s_def s ! def) of
                TNo \<Rightarrow> kret ()
              | TMod \<Rightarrow> kwhen (snd (s_def cs ! def) = TYes)
                  (kseq (conf_warning (name_str (s_name s) @ '' creates inconsistent choice state''))
                        (kupd c (clear_flag fl)))
              | TYes \<Rightarrow> kseq (kwhen (snd (s_def cs ! def) \<noteq> TNo)
                               (conf_warning (''override: '' @ name_str (s_name s) @ '' changes choice state'')))
                            (kupd c (set_def_val def (VSym r))))
             (kupd c (\<lambda>x. set_def_tri def (EXPR_OR (snd (s_def x ! def)) (snd (s_def s ! def))) x))))))"

definition conf_line_step :: "string \<Rightarrow> nat \<Rightarrow> 32 word \<Rightarrow> string \<Rightarrow> unit km" where
  "conf_line_step pre def fl line =
     kseq (kmod (\<lambda>st. st\<lparr>ks_conf_lineno := ks_conf_lineno st + 1\<rparr>))
     (case classify pre line of
        LSkip \<Rightarrow> kret ()
      | LJunk \<Rightarrow> conf_warning ''unexpected data''
      | LUnset name \<Rightarrow>
          kbind (line_symbol def S_BOOLEAN name) (\<lambda>ro. case ro of
            None \<Rightarrow> kret ()
          | Some r \<Rightarrow>
              kseq (reassigned r fl)
              (kseq (kbind (ksym r) (\<lambda>s. kwhen (s_type s = S_BOOLEAN \<or> s_type s = S_TRISTATE) (set_def r def fl TNo)))
                    (set_choice r def fl)))
      | LSet name p \<Rightarrow>
          kbind (line_symbol def S_OTHER name) (\<lambda>ro. case ro of
            None \<Rightarrow> kret ()
          | Some r \<Rightarrow>
              kseq (reassigned r fl)
              (kbind (conf_set_sym_val r def fl p) (\<lambda>bad. kwhen (\<not> bad) (set_choice r def fl)))))"

lemma getline_loop_rest: "length (snd (getline_loop ln f)) \<le> length f"
  by (induction ln f rule: getline_loop.induct) auto

lemma getline_loop_line: "length (fst (fst (getline_loop ln f))) + length (snd (getline_loop ln f)) = length (fst ln) + length f"
  by (induction ln f rule: getline_loop.induct) (auto simp: add_byte_def split: prod.splits)

lemma compat_getline_shorter: "compat_getline n f = Some (line, m, rest) \<Longrightarrow> length rest < length f"
  using getline_loop_line [of "([], n)" f]
  by (cases line) (auto simp: compat_getline_def split: prod.splits if_splits)

function read_lines :: "string \<Rightarrow> nat \<Rightarrow> 32 word \<Rightarrow> nat \<Rightarrow> string \<Rightarrow> unit km" where
  "read_lines pre def fl n f =
     (case compat_getline n f of
        None \<Rightarrow> kret ()
      | Some (line, m, rest) \<Rightarrow> kseq (conf_line_step pre def fl line) (read_lines pre def fl m rest))"
  by pat_completeness auto

termination read_lines
  by (relation "measure (\<lambda>(pre, def, fl, n, f). length f)") (auto dest: compat_getline_shorter)

declare read_lines.simps [simp del]

text \<open>Before the lines: every symbol forgets its value of this kind.\<close>

definition reset_symbol :: "nat \<Rightarrow> 32 word \<Rightarrow> sref \<Rightarrow> unit km" where
  "reset_symbol def fl r =
     kseq (kupd r (set_flag SYMBOL_CHANGED))
     (kseq (kupd r (clear_flag (fl OR SYMBOL_VALID)))
     (kseq (kbind (ksym r) (\<lambda>s. kwhen (sym_is_choice s) (kupd r (set_flag fl))))
     (kupd r (\<lambda>s. s\<lparr>s_def := (s_def s)[def := (VNull, TNo)]\<rparr>))))"

definition load_file :: "string \<Rightarrow> string \<Rightarrow> string \<Rightarrow> nat \<Rightarrow> unit km" where
  "load_file pre name content def =
     (let fl = push_bit def SYMBOL_DEF in
      kseq (kmod (\<lambda>st. st\<lparr>ks_conf_filename := name\<rparr>))
      (kseq (kmod (\<lambda>st. st\<lparr>ks_conf_lineno := 0\<rparr>))
      (kseq (kmod (\<lambda>st. st\<lparr>ks_conf_warnings := 0\<rparr>))
      (kseq (kmod (\<lambda>st. st\<lparr>ks_conf_unsaved := 0\<rparr>))
      (kbind (kget all_symbols) (\<lambda>rs.
       kseq (kfor rs (reset_symbol def fl))
       (kseq (read_lines pre def fl 0 content) calc_modules)))))))"

text \<open>
  \<open>conf_expand_value\<close>, which creates the symbols it does not find. Its buffers hold \<open>SYMBOL_MAXLENGTH\<close> bytes; a
  longer name or result is written beyond them (\<open>Crash\<close>).
\<close>

function conf_expand :: "string \<Rightarrow> string \<Rightarrow> string km" where
  "conf_expand res inp =
     (case dropWhile (\<lambda>c. c \<noteq> CHR ''$'') inp of
        [] \<Rightarrow> if SYMBOL_MAXLENGTH \<le> length (res @ inp) then kcrash else kret (res @ inp)
      | _ # src \<Rightarrow>
          (let res1 = res @ takeWhile (\<lambda>c. c \<noteq> CHR ''$'') inp; name = takeWhile is_name_char src in
           if SYMBOL_MAXLENGTH \<le> length res1 \<or> SYMBOL_MAXLENGTH \<le> length name then kcrash
           else
             kbind (sym_lookup (Some name) 0) (\<lambda>r.
             kseq (sym_calc r)
             (kbind (get_string sym_calc r) (\<lambda>v.
                if SYMBOL_MAXLENGTH \<le> length (res1 @ v) then kcrash
                else conf_expand (res1 @ v) (dropWhile is_name_char src))))))"
  by pat_completeness auto

termination conf_expand
  by (relation "measure (\<lambda>(res, inp). length inp)") (auto intro: dropWhile_shorter)

declare conf_expand.simps [simp del]

definition conf_expand_value :: "string \<Rightarrow> string km" where
  "conf_expand_value inp = conf_expand [] inp"

text \<open>The environment of the program: the files it can open and its variables.\<close>

record kenv =
  ke_files :: "string \<Rightarrow> string option"
  ke_getenv :: "string \<Rightarrow> string option"

definition CONFIG_prefix :: "kenv \<Rightarrow> string" where
  "CONFIG_prefix e = (case ke_getenv e ''CONFIG_'' of Some p \<Rightarrow> p | None \<Rightarrow> ''CONFIG_'')"

definition conf_get_configname :: "kenv \<Rightarrow> string" where
  "conf_get_configname e = (case ke_getenv e ''BR2_CONFIG'' of Some n \<Rightarrow> n | None \<Rightarrow> ''.config'')"

definition conf_get_autoconfig_name :: "kenv \<Rightarrow> string option" where
  "conf_get_autoconfig_name e = ke_getenv e ''KCONFIG_AUTOCONFIG''"

definition conf_get_default_confname :: "kenv \<Rightarrow> string km" where
  "conf_get_default_confname e =
     kbind (conf_expand_value ''.defconfig'') (\<lambda>name.
       kret (case ke_getenv e ''srctree'' of
         None \<Rightarrow> name
       | Some d \<Rightarrow> if ke_files e (d @ ''/'' @ name) \<noteq> None then d @ ''/'' @ name else name))"

text \<open>
  The first default of \<open>sym_defconfig_list\<close> that is visible, names a symbol and can be opened. \<open>zconf_fopen\<close>
  (in the generated scanner) is the opening of a file by name.
\<close>

fun default_file :: "kenv \<Rightarrow> sref \<Rightarrow> nat list \<Rightarrow> (string \<times> string) option km" where
  "default_file e r [] = kret None"
| "default_file e r (k # ks) =
     kbind (ksym r) (\<lambda>s.
     kbind (expr_calc_value sym_calc (p_vis_expr (s_prop s ! k))) (\<lambda>v.
       case (v, p_expr (s_prop s ! k)) of
         (TNo, _) \<Rightarrow> default_file e r ks
       | (_, Some (PExpr (E_SYMBOL d))) \<Rightarrow>
           kbind (ksym d) (\<lambda>ds.
           kbind (conf_expand_value (name_str (s_name ds))) (\<lambda>name.
             case ke_files e name of
               Some c \<Rightarrow> kret (Some (name, c))
             | None \<Rightarrow> default_file e r ks))
       | (_, None) \<Rightarrow> kcrash
       | _ \<Rightarrow> default_file e r ks))"

text \<open>\<open>conf_read_simple\<close>; the result is its return value, whether no file was read.\<close>

definition conf_read_simple :: "kenv \<Rightarrow> string option \<Rightarrow> nat \<Rightarrow> bool km" where
  "conf_read_simple e name def =
     (let load = (\<lambda>n c. kseq (load_file (CONFIG_prefix e) n c def) (kret False)) in
      case name of
        Some n \<Rightarrow> (case ke_files e n of None \<Rightarrow> kret True | Some c \<Rightarrow> load n c)
      | None \<Rightarrow>
          (let n = conf_get_configname e in
           case ke_files e n of
             Some c \<Rightarrow> load n c
           | None \<Rightarrow>
               kseq (sym_add_change_count 1)
               (kbind (kget ks_defconfig_list) (\<lambda>dl. case dl of
                  None \<Rightarrow> kseq calc_modules (kret True)
                | Some d \<Rightarrow>
                    kbind (ksym d) (\<lambda>s.
                    kbind (default_file e d (prop_indices (\<lambda>p. p_kind p = P_DEFAULT) s)) (\<lambda>r. case r of
                      None \<Rightarrow> kret True
                    | Some (n, c) \<Rightarrow> load n c))))))"

text \<open>\<open>conf_read\<close>: does the calculated value agree with the saved one?\<close>

definition agrees :: "kst \<Rightarrow> sref \<Rightarrow> bool" where
  "agrees st r =
     (let s = sym_at st r in
      if sym_is_choice s \<or> has_flag SYMBOL_AUTO s then True
      else if sym_has_value s \<and> has_flag SYMBOL_WRITE s then
        (if s_type s = S_BOOLEAN \<or> s_type s = S_TRISTATE
         then snd (s_def s ! 0) = sym_get_tristate_value st r
         else val_str (s_val s) = val_str (fst (s_def s ! 0)))
      else \<not> sym_has_value s \<and> \<not> has_flag SYMBOL_WRITE s)"

definition count_unsaved :: "unit km" where
  "count_unsaved = kmod (\<lambda>st. st\<lparr>ks_conf_unsaved := ks_conf_unsaved st + 1\<rparr>)"

definition check_saved :: "sref \<Rightarrow> unit km" where
  "check_saved r = kseq (sym_calc r) (kbind (kget (\<lambda>st. agrees st r)) (\<lambda>b. kwhen (\<not> b) count_unsaved))"

definition drop_hidden :: "sref \<Rightarrow> unit km" where
  "drop_hidden r =
     kbind (ksym r) (\<lambda>s. kwhen (sym_has_value s \<and> \<not> sym_is_choice_value s)
       (kbind (kget ks_conf_unsaved) (\<lambda>u.
        kseq (kwhen (s_visible s = TNo \<and> u = 0) (kupd r (clear_flag SYMBOL_DEF_USER)))
        (kwhen (s_type s = S_STRING \<or> s_type s = S_INT \<or> s_type s = S_HEX)
          (kbind (sym_string_within_range r (val_str (fst (s_def s ! 0)))) (\<lambda>b.
             kwhen (\<not> b) (kseq (kupd r (clear_flag (SYMBOL_VALID OR SYMBOL_DEF_USER))) count_unsaved)))))))"

definition conf_read :: "kenv \<Rightarrow> string option \<Rightarrow> bool km" where
  "conf_read e name =
     kseq (sym_set_change_count 0)
     (kbind (conf_read_simple e name 0) (\<lambda>bad.
       if bad then kret True
       else
         kbind (kget all_symbols) (\<lambda>rs.
         kseq (kfor rs check_saved)
         (kseq (kfor rs drop_hidden)
         (kbind (kget (\<lambda>st. ks_conf_warnings st \<noteq> 0 \<or> ks_conf_unsaved st \<noteq> 0)) (\<lambda>b.
          kseq (sym_add_change_count (if b then 1 else 0)) (kret False)))))))"

section \<open>Printers\<close>

definition newline :: string where "newline = [CHR 0x0A]"

definition kconfig_print_symbol :: "string \<Rightarrow> symbol_type \<Rightarrow> string \<Rightarrow> string \<Rightarrow> bool \<Rightarrow> string" where
  "kconfig_print_symbol pre ty name value skip_unset =
     (if (ty = S_BOOLEAN \<or> ty = S_TRISTATE) \<and> take 1 value = ''n''
      then (if skip_unset then [] else ''# '' @ pre @ name @ '' is not set'' @ newline)
      else pre @ name @ ''='' @ value @ newline)"

text \<open>The loop of the comment printers: every line with its mark, at the end a newline.\<close>

function comment_lines :: "string \<Rightarrow> string \<Rightarrow> string" where
  "comment_lines mark p =
     (let l = takeWhile (\<lambda>c. c \<noteq> CHR 0x0A) p in
      mark @ (if l = [] then [] else '' '' @ l) @ newline @
      (case dropWhile (\<lambda>c. c \<noteq> CHR 0x0A) p of [] \<Rightarrow> [] | _ # q \<Rightarrow> comment_lines mark q))"
  by pat_completeness auto

termination comment_lines
  by (relation "measure (\<lambda>(m, p). length p)") (auto dest: dropWhile_tail)

declare comment_lines.simps [simp del]

definition kconfig_print_comment :: "string \<Rightarrow> string" where
  "kconfig_print_comment value = comment_lines ''#'' value"

definition header_print_symbol :: "string \<Rightarrow> symbol_type \<Rightarrow> string \<Rightarrow> string \<Rightarrow> string" where
  "header_print_symbol pre ty name value =
     (case ty of
        S_HEX \<Rightarrow> ''#define '' @ pre @ name @ '' '' @ (if has_0x value then [] else ''0x'') @ value @ newline
      | S_STRING \<Rightarrow> ''#define '' @ pre @ name @ '' '' @ value @ newline
      | S_INT \<Rightarrow> ''#define '' @ pre @ name @ '' '' @ value @ newline
      | S_UNKNOWN \<Rightarrow> []
      | S_OTHER \<Rightarrow> []
      | _ \<Rightarrow> if take 1 value = ''n'' then []
             else ''#define '' @ pre @ name @ (if take 1 value = ''m'' then ''_MODULE'' else []) @ '' 1'' @ newline)"

definition header_print_comment :: "string \<Rightarrow> string" where
  "header_print_comment value = ''/*'' @ newline @ comment_lines '' *'' value @ '' */'' @ newline"

definition to_upper :: "char \<Rightarrow> char" where
  "to_upper c = (if 97 \<le> (of_char c :: nat) \<and> (of_char c :: nat) \<le> 122 then char_of ((of_char c :: nat) - 32) else c)"

definition tristate_print_symbol :: "string \<Rightarrow> symbol_type \<Rightarrow> string \<Rightarrow> string \<Rightarrow> string" where
  "tristate_print_symbol pre ty name value =
     (if ty = S_TRISTATE \<and> take 1 value \<noteq> ''n''
      then pre @ name @ ''='' @ map to_upper (take 1 value) @ newline else [])"

text \<open>\<open>conf_write_symbol\<close> with one of the printers; the result is what it writes.\<close>

definition conf_write_symbol :: "(symbol_type \<Rightarrow> string \<Rightarrow> string \<Rightarrow> string) \<Rightarrow> sref \<Rightarrow> string km" where
  "conf_write_symbol print r =
     kbind (ksym r) (\<lambda>s.
       if s_type s = S_OTHER \<or> s_type s = S_UNKNOWN then kret []
       else kbind (get_string sym_calc r) (\<lambda>v.
         kret (print (s_type s) (name_str (s_name s)) (if s_type s = S_STRING then sym_escape_string_value v else v))))"

text \<open>The heading is cut to a buffer of 256 bytes.\<close>

definition conf_write_heading :: "(string \<Rightarrow> string) \<Rightarrow> string \<Rightarrow> string" where
  "conf_write_heading comment root_prompt =
     comment (take 255 (newline @ ''Automatically generated file; DO NOT EDIT.'' @ newline @ root_prompt @ newline))"

text \<open>The symbols of \<open>conf_write_autoconf\<close>: the texts of \<open>auto.conf\<close>, the tristate file and the header.\<close>

definition autoconf_symbol :: "string \<Rightarrow> sref \<Rightarrow> (string \<times> string \<times> string) km" where
  "autoconf_symbol pre r =
     kseq (sym_calc r)
     (kbind (ksym r) (\<lambda>s.
       if \<not> has_flag SYMBOL_WRITE s \<or> s_name s = None then kret ([], [], [])
       else
         kbind (conf_write_symbol (\<lambda>ty n v. kconfig_print_symbol pre ty n v True) r) (\<lambda>a.
         kbind (conf_write_symbol (tristate_print_symbol pre) r) (\<lambda>t.
         kbind (conf_write_symbol (header_print_symbol pre) r) (\<lambda>h. kret (a, t, h))))))"

fun autoconf_loop :: "string \<Rightarrow> sref list \<Rightarrow> string \<times> string \<times> string \<Rightarrow> (string \<times> string \<times> string) km" where
  "autoconf_loop pre [] out = kret out"
| "autoconf_loop pre (r # rs) out =
     kbind (autoconf_symbol pre r) (\<lambda>x.
       autoconf_loop pre rs (fst out @ fst x, fst (snd out) @ fst (snd x), snd (snd out) @ snd (snd x)))"

definition autoconf_texts :: "string \<Rightarrow> string \<Rightarrow> (string \<times> string \<times> string) km" where
  "autoconf_texts pre root_prompt =
     kbind (kget all_symbols) (\<lambda>rs.
       autoconf_loop pre rs
         (conf_write_heading kconfig_print_comment root_prompt, conf_write_heading kconfig_print_comment root_prompt,
          conf_write_heading header_print_comment root_prompt))"

end
