(* ===== verification/KWrite.thy ===== *)
theory KWrite
  imports KConf KMenu
begin

text \<open>
  The half of \<open>buildroot/support/kconfig/confdata.c\<close> that writes files, with the walk over the finished menu
  tree and the visibility of menus (\<open>menu.c\<close>) and the dependency file (\<open>util.c\<close>). What a program does to
  files is a list of operations; which of them the system allows is a parameter. Paths fit the buffers
  of \<open>PATH_MAX\<close> bytes.
\<close>

section \<open>Visible menus\<close>

text \<open>
  \<open>menu_is_visible\<close>, with its loop over the children. For an entry without symbol the code also stores
  the visibility in the property of the prompt, which only this function reads.
\<close>

definition prompt_tri :: "mtree \<Rightarrow> tristate km" where
  "prompt_tri t =
     (case m_sym (mt_menu t) of
        Some r \<Rightarrow> kseq (sym_calc r) (kget (\<lambda>st. case prompt_prop st (mt_menu t) of Some p \<Rightarrow> p_vis_tri p | None \<Rightarrow> TNo))
      | None \<Rightarrow> kbind (kget (\<lambda>st. prompt_vis st (mt_menu t))) (expr_calc_value sym_calc))"

fun menu_is_visible :: "mtree \<Rightarrow> bool km" and child_visible :: "sref \<Rightarrow> mtree list \<Rightarrow> bool km" where
  "menu_is_visible (MT m cs) =
     (if \<not> has_prompt m then kret False
      else kbind (expr_calc_value sym_calc (m_visibility m)) (\<lambda>v.
        if v = TNo then kret False
        else kbind (prompt_tri (MT m cs)) (\<lambda>vis.
          if vis \<noteq> TNo then kret True
          else (case m_sym m of
              None \<Rightarrow> kret False
            | Some r \<Rightarrow> kbind (ksym r) (\<lambda>s. if s_tri s = TNo then kret False else child_visible r cs)))))"
| "child_visible r [] = kret False"
| "child_visible r (c # cs) =
     kbind (menu_is_visible c) (\<lambda>b. if b then kseq (kupd r (set_flag SYMBOL_DEF_USER)) (kret True) else child_visible r cs)"

fun none_visible :: "mtree list \<Rightarrow> bool km" where
  "none_visible [] = kret True"
| "none_visible (c # cs) = kbind (menu_is_visible c) (\<lambda>b. if b then kret False else none_visible cs)"

definition menu_is_empty :: "mtree \<Rightarrow> bool km" where
  "menu_is_empty t = none_visible (mt_list t)"

text \<open>\<open>menu_get_parent_menu\<close> of an entry given with its ancestors, the root last.\<close>

fun menu_get_parent_menu :: "kst \<Rightarrow> menu list \<Rightarrow> menu option" where
  "menu_get_parent_menu st [] = None"
| "menu_get_parent_menu st [root] = Some root"
| "menu_get_parent_menu st (m # ms) =
     (case prompt_prop st m of
        Some p \<Rightarrow> if p_kind p = P_MENU then Some m else menu_get_parent_menu st ms
      | None \<Rightarrow> menu_get_parent_menu st ms)"

section \<open>The walk over the tree\<close>

text \<open>
  The step of the loops of \<open>conf_write\<close> and \<open>conf_write_defconfig\<close>: down to the first child, else to the next
  entry, else up until an ancestor has a next one. The position is the entry with what follows it, and
  what follows each of its ancestors, nearest first.
\<close>

fun climb :: "mtree list list \<Rightarrow> (mtree list \<times> mtree list list) option" where
  "climb [] = None"
| "climb ([] # up) = climb up"
| "climb ((t # ts) # up) = Some (t # ts, up)"

lemma climb_smaller:
  "climb up = Some (cur, up') \<Longrightarrow>
     forest_size cur + sum_list (map forest_size up') = sum_list (map forest_size up)"
  by (induction up rule: climb.induct) (auto simp: forest_size_def)

function walk :: "(mtree \<Rightarrow> 'a \<Rightarrow> 'a km) \<Rightarrow> mtree list \<Rightarrow> mtree list list \<Rightarrow> 'a \<Rightarrow> 'a km" where
  "walk body [] up acc = kret acc"
| "walk body (MT m cs # ts) up acc =
     kbind (body (MT m cs) acc) (\<lambda>acc'.
       if cs \<noteq> [] then walk body cs (ts # up) acc'
       else (case climb (ts # up) of None \<Rightarrow> kret acc' | Some (cur, up') \<Rightarrow> walk body cur up' acc'))"
  by pat_completeness auto

termination walk
  by (relation "measure (\<lambda>(body, cur, up, acc). forest_size cur + sum_list (map forest_size up))")
    (auto simp: forest_size_def dest!: climb_smaller)

declare walk.simps [simp del]

text \<open>A loop over a list that passes a value on.\<close>

fun kfold :: "('b \<Rightarrow> 'a \<Rightarrow> 'a km) \<Rightarrow> 'b list \<Rightarrow> 'a \<Rightarrow> 'a km" where
  "kfold f [] acc = kret acc"
| "kfold f (x # xs) acc = kbind (f x acc) (kfold f xs)"

section \<open>Writing a configuration\<close>

datatype file_op = FWrite string string | FRename string string | FMkdir string | FChdir string

record wenv =
  we_env :: kenv
  we_is_dir :: "string \<Rightarrow> bool"
  we_can_write :: "string \<Rightarrow> bool"
  we_can_rename :: "string \<Rightarrow> string \<Rightarrow> bool"
  we_pid :: nat
  we_open :: "file_op list \<Rightarrow> string \<Rightarrow> bool option"
  we_stat :: "file_op list \<Rightarrow> string \<Rightarrow> bool"
  we_mkdir :: "file_op list \<Rightarrow> string \<Rightarrow> bool"
  we_chdir :: "string \<Rightarrow> bool"
  we_cwd :: string

definition set_symbol_line :: "string \<Rightarrow> sref \<Rightarrow> string km" where
  "set_symbol_line pre r = conf_write_symbol (\<lambda>ty n v. kconfig_print_symbol pre ty n v False) r"

text \<open>One round of \<open>conf_write\<close>; a symbol that is defined in several menus is written in the first.\<close>

definition write_entry :: "string \<Rightarrow> mtree \<Rightarrow> string \<Rightarrow> string km" where
  "write_entry pre t out =
     (case m_sym (mt_menu t) of
        None \<Rightarrow>
          kbind (menu_is_visible t) (\<lambda>v.
            if \<not> v then kret out
            else kget (\<lambda>st. out @ newline @ ''#'' @ newline @ ''# '' @ name_str (menu_get_prompt st (mt_menu t)) @
                       newline @ ''#'' @ newline))
      | Some r \<Rightarrow>
          kbind (ksym r) (\<lambda>s.
            if has_flag SYMBOL_CHOICE s then kret out
            else kseq (sym_calc r) (kbind (ksym r) (\<lambda>s1.
              if \<not> has_flag SYMBOL_WRITE s1 then kret out
              else kseq (kupd r (clear_flag SYMBOL_WRITE))
                   (kbind (set_symbol_line pre r) (\<lambda>l. kret (out @ l)))))))"

definition last_slash :: "string \<Rightarrow> (string \<times> string) option" where
  "last_slash n =
     (if CHR ''/'' \<in> set n
      then Some (rev (dropWhile (\<lambda>c. c \<noteq> CHR ''/'') (rev n)), rev (takeWhile (\<lambda>c. c \<noteq> CHR ''/'') (rev n)))
      else None)"

definition split_name :: "wenv \<Rightarrow> string \<Rightarrow> string \<times> string" where
  "split_name W n =
     (let conf = conf_get_configname (we_env W) in
      if n = [] then ([], conf)
      else if we_is_dir W n then (n @ ''/'', conf)
      else (case last_slash n of
          Some (d, b) \<Rightarrow> (d, if b \<noteq> [] then b else conf)
        | None \<Rightarrow> ([], n)))"

definition overwrite_config :: "kenv \<Rightarrow> bool" where
  "overwrite_config e = (case ke_getenv e ''KCONFIG_OVERWRITECONFIG'' of None \<Rightarrow> False | Some v \<Rightarrow> v \<noteq> [])"

definition conf_write_text :: "wenv \<Rightarrow> string \<Rightarrow> mtree list \<Rightarrow> string km" where
  "conf_write_text W root_prompt ts =
     kbind (kget conf_get_changed) (\<lambda>changed.
     kseq (kwhen (\<not> changed) sym_clear_all_valid)
          (walk (write_entry (CONFIG_prefix (we_env W))) ts []
                (conf_write_heading kconfig_print_comment root_prompt)))"

text \<open>The result is whether \<open>conf_write\<close> failed, and what it did to files.\<close>

definition conf_write :: "wenv \<Rightarrow> string option \<Rightarrow> string \<Rightarrow> mtree list \<Rightarrow> (bool \<times> file_op list) km" where
  "conf_write W name root_prompt ts =
     (let n = (case name of Some n \<Rightarrow> n | None \<Rightarrow> conf_get_configname (we_env W));
          (dir, base) = split_name W n;
          new = dir @ base;
          ovr = overwrite_config (we_env W);
          tmp = dir @ ''.tmpconfig.'' @ nat_str (we_pid W);
          target = (if ovr then new else tmp);
          old = new @ ''.old''
      in if \<not> we_can_write W target then kret (True, [])
         else kbind (conf_write_text W root_prompt ts) (\<lambda>text.
           let backup = (if we_can_rename W new old then [FRename new old] else [])
           in if ovr then kseq (sym_set_change_count 0) (kret (False, [FWrite new text]))
              else if \<not> we_can_rename W tmp new then kret (True, FWrite tmp text # backup)
              else kseq (sym_set_change_count 0) (kret (False, FWrite tmp text # backup @ [FRename tmp new]))))"

section \<open>A minimal configuration\<close>

text \<open>The value is the default of the symbol, or the symbol is the default of its choice.\<close>

definition is_choice_default :: "sref \<Rightarrow> bool km" where
  "is_choice_default r =
     kbind (ksym r) (\<lambda>s.
       if \<not> sym_is_choice_value s then kret False
       else kbind (choice_of r) (\<lambda>cs. kbind (sym_choice_default sym_calc cs) (\<lambda>ds.
         kget (\<lambda>st. \<not> sym_is_optional (sym_at st cs) \<and> ds = Some r \<and>
                    s_type (sym_at st r) = S_BOOLEAN \<and> s_tri (sym_at st r) = TYes))))"

definition defconfig_entry :: "string \<Rightarrow> mtree \<Rightarrow> string \<Rightarrow> string km" where
  "defconfig_entry pre t out =
     (case m_sym (mt_menu t) of
        None \<Rightarrow> kbind (menu_is_visible t) (\<lambda>_. kret out)
      | Some r \<Rightarrow>
          kbind (ksym r) (\<lambda>s.
            if sym_is_choice s then kret out
            else kseq (sym_calc r) (kbind (ksym r) (\<lambda>s1.
              if \<not> has_flag SYMBOL_WRITE s1 then kret out
              else kseq (kupd r (clear_flag SYMBOL_WRITE))
                (kbind (kget (\<lambda>st. sym_is_changable st r)) (\<lambda>ch.
                 if \<not> ch then kret out
                 else kbind (get_string sym_calc r) (\<lambda>v.
                      kbind (sym_get_string_default r) (\<lambda>d.
                      if v = d then kret out
                      else kbind (is_choice_default r) (\<lambda>b.
                        if b then kret out else kbind (set_symbol_line pre r) (\<lambda>l. kret (out @ l)))))))))))"

definition conf_write_defconfig :: "wenv \<Rightarrow> string \<Rightarrow> mtree list \<Rightarrow> (bool \<times> file_op list) km" where
  "conf_write_defconfig W filename ts =
     (if \<not> we_can_write W filename then kret (True, [])
      else kseq sym_clear_all_valid
        (kbind (walk (defconfig_entry (CONFIG_prefix (we_env W))) ts [] []) (\<lambda>text.
          kret (False, [FWrite filename text]))))"

end
