(* ===== verification/KConfFacts.thy ===== *)
theory KConfFacts
  imports KConf
begin

text \<open>
  Reading and printing configurations: a printed symbol is read back as it was, a line always fits its buffer,
  and reading keeps the symbol table in order.
\<close>

section \<open>Round trip of a line\<close>

lemma unescape_escape: "unescape (escape_copy s @ CHR 0x22 # t) = Some s"
  by (induction s) (auto simp: is_special_def)

text \<open>The text of a value, and the value a symbol has after a line was read.\<close>

definition value_text :: "symbol_type \<Rightarrow> string \<Rightarrow> string" where
  "value_text ty v = (if ty = S_STRING then sym_escape_string_value v else v)"

definition saved_value :: "symbol \<Rightarrow> string" where
  "saved_value s =
     (if s_type s = S_BOOLEAN \<or> s_type s = S_TRISTATE then tri_letter (snd (s_def s ! 0)) else val_str (fst (s_def s ! 0)))"

text \<open>The values a symbol of a type can have.\<close>

definition value_ok :: "symbol_type \<Rightarrow> string \<Rightarrow> bool" where
  "value_ok ty v =
     (case ty of
        S_BOOLEAN \<Rightarrow> v = ''n'' \<or> v = ''y''
      | S_TRISTATE \<Rightarrow> v = ''n'' \<or> v = ''m'' \<or> v = ''y''
      | S_STRING \<Rightarrow> CHR 0x0A \<notin> set v
      | S_INT \<Rightarrow> valid_int v
      | S_HEX \<Rightarrow> valid_hex v
      | _ \<Rightarrow> False)"

definition plain_name :: "string \<Rightarrow> string \<Rightarrow> bool" where
  "plain_name pre name \<longleftrightarrow> take 1 (pre @ name) \<noteq> ''#'' \<and> CHR ''='' \<notin> set name \<and> CHR '' '' \<notin> set name"

lemma before_after [simp]: "c \<notin> set a \<Longrightarrow> before c (a @ c # b) = a" "c \<notin> set a \<Longrightarrow> after c (a @ c # b) = Some b"
  by (auto simp: before_def after_def dropWhile_append takeWhile_append split: list.splits)

lemma special_no_newline: "CHR 0x0A \<notin> set s \<Longrightarrow> CHR 0x0A \<notin> set (escape_copy s)"
  by (induction s) (auto simp: is_special_def)

lemma digit_not_line: "is_digit c \<Longrightarrow> c \<noteq> CHR 0x0A \<and> c \<noteq> CHR 0x0D"
  by (auto simp: is_digit_def)

lemma xdigit_not_line: "is_xdigit c \<Longrightarrow> c \<noteq> CHR 0x0A \<and> c \<noteq> CHR 0x0D"
  by (auto simp: is_xdigit_def xdigit_val_def)

lemma valid_int_chars: "valid_int v \<Longrightarrow> \<forall>c \<in> set v. is_digit c \<or> c = CHR ''-''"
  unfolding valid_int_def by (cases v) (auto simp: list_all_iff split: if_splits list.splits)

lemma valid_hex_chars: "valid_hex v \<Longrightarrow> \<forall>c \<in> set v. is_xdigit c \<or> c = CHR ''x'' \<or> c = CHR ''X'' \<or> c = CHR ''0''"
proof -
  assume v: "valid_hex v"
  have "set v \<subseteq> set (take 2 v) \<union> set (drop 2 v)" by (metis append_take_drop_id set_append subset_refl)
  then show ?thesis using v unfolding valid_hex_def has_0x_def by (auto simp: list_all_iff split: if_splits)
qed

lemma number_lines:
  assumes "\<forall>c \<in> set v. P c" "\<And>c. P c \<Longrightarrow> c \<noteq> CHR 0x0A" "\<And>c. P c \<Longrightarrow> c \<noteq> CHR 0x0D"
  shows "CHR 0x0A \<notin> set v \<and> (v = [] \<or> last v \<noteq> CHR 0x0D)"
  using assms last_in_set [of v] by blast

lemma value_text_lines: "value_ok ty v \<Longrightarrow> CHR 0x0A \<notin> set (value_text ty v) \<and> (value_text ty v = [] \<or> last (value_text ty v) \<noteq> CHR 0x0D)"
proof -
  assume v: "value_ok ty v"
  show ?thesis
  proof (cases ty)
    case S_INT
    then have "valid_int v" using v by (simp add: value_ok_def)
    from number_lines [OF valid_int_chars [OF this]] digit_not_line show ?thesis unfolding S_INT value_text_def by fastforce
  next
    case S_HEX
    then have "valid_hex v" using v by (simp add: value_ok_def)
    from number_lines [OF valid_hex_chars [OF this]] xdigit_not_line show ?thesis unfolding S_HEX value_text_def by fastforce
  next
    case S_STRING
    then show ?thesis using v special_no_newline [of v] by (auto simp: value_ok_def value_text_def sym_escape_string_value_def)
  qed (use v in \<open>auto simp: value_ok_def value_text_def\<close>)
qed

lemma cut_newline_text: "CHR 0x0A \<notin> set v \<Longrightarrow> v = [] \<or> last v \<noteq> CHR 0x0D \<Longrightarrow> cut_newline (v @ newline) = v"
  unfolding cut_newline_def newline_def by (auto simp: Let_def)

lemma classify_set:
  assumes "plain_name pre name" "CHR 0x0A \<notin> set v" "v = [] \<or> last v \<noteq> CHR 0x0D"
  shows "classify pre (pre @ name @ ''='' @ v @ newline) = LSet name v"
proof -
  have "take 1 (pre @ name @ ''='' @ v @ newline) \<noteq> ''#''"
    using assms(1) unfolding plain_name_def by (cases pre; cases name) auto
  then show ?thesis
    using assms(1) cut_newline_text [OF assms(2,3)] unfolding classify_def
    by (simp add: plain_name_def starts_with_def)
qed

lemma classify_unset:
  assumes "plain_name pre name"
  shows "classify pre (''# '' @ pre @ name @ '' is not set'' @ newline) = LUnset name"
  using assms unfolding classify_def by (simp add: plain_name_def starts_with_def)

text \<open>What a printed line is to the reader.\<close>

lemma classify_printed:
  assumes "plain_name pre name" "value_ok ty v"
  shows "classify pre (kconfig_print_symbol pre ty name (value_text ty v) False) =
    (if (ty = S_BOOLEAN \<or> ty = S_TRISTATE) \<and> v = ''n'' then LUnset name else LSet name (value_text ty v))"
proof -
  have "take 1 v = ''n'' \<longleftrightarrow> v = ''n''" "value_text ty v = v" if "ty = S_BOOLEAN \<or> ty = S_TRISTATE"
    using that assms(2) by (auto simp: value_ok_def value_text_def)
  then show ?thesis
    using classify_set [OF assms(1)] classify_unset [OF assms(1)] value_text_lines [OF assms(2)]
    unfolding kconfig_print_symbol_def by auto
qed

section \<open>What a line does to its symbol\<close>

lemmas krun = kbind_def kseq_def kwhen_def kget_def kmod_def kret_def ksym_def kupd_def

text \<open>A symbol with room for its values that is not a member of a choice.\<close>

definition lone_symbol :: "kst \<Rightarrow> sref \<Rightarrow> bool" where
  "lone_symbol st r \<longleftrightarrow> sref_idx r < length (ks_syms st) \<and> s_def (sym_at st r) \<noteq> [] \<and> \<not> sym_is_choice_value (sym_at st r)"

definition read_back :: "symbol \<Rightarrow> string \<Rightarrow> symbol \<Rightarrow> bool" where
  "read_back s v s' \<longleftrightarrow> s_type s' = s_type s \<and> saved_value s' = v \<and> sym_has_value s' \<and> \<not> sym_is_choice_value s'"

lemma def_frame [simp]:
  "has_flag f (set_def_tri i t s) = has_flag f s" "s_type (set_def_tri i t s) = s_type s"
  "has_flag f (set_def_val i v s) = has_flag f s" "s_type (set_def_val i v s) = s_type s"
  "s_type (set_flag g s) = s_type s" "s_def (set_flag g s) = s_def s"
  by (simp_all add: set_def_tri_def set_def_val_def set_flag_def has_flag_def)

lemma def_set [simp]:
  "s_def s \<noteq> [] \<Longrightarrow> s_def (set_def_tri 0 t s) ! 0 = (fst (s_def s ! 0), t)"
  "s_def s \<noteq> [] \<Longrightarrow> s_def (set_def_val 0 v s) ! 0 = (v, snd (s_def s ! 0))"
  by (simp_all add: set_def_tri_def set_def_val_def)

lemma choice_flag_kept: "sym_is_choice_value (set_flag SYMBOL_DEF_USER s) = sym_is_choice_value s"
  by (simp add: sym_is_choice_value_def has_set_flag flag_defs)

lemma set_def_reads:
  assumes "lone_symbol st r" "s_type (sym_at st r) = S_BOOLEAN \<or> s_type (sym_at st r) = S_TRISTATE"
  shows "\<exists>st'. set_def r 0 SYMBOL_DEF_USER t st = Ret () st' \<and> read_back (sym_at st r) (tri_letter t) (sym_at st' r)"
  using assms
  by (auto simp: set_def_def krun lone_symbol_def read_back_def saved_value_def choice_flag_kept)
     (auto simp: sym_has_value_def sym_is_choice_value_def has_set_flag flag_defs)

lemma set_checked_reads:
  assumes "lone_symbol st r" "s_type (sym_at st r) = ty" "ty = S_STRING \<or> ty = S_INT \<or> ty = S_HEX" "sym_string_valid ty v"
  shows "\<exists>st'. set_checked r 0 SYMBOL_DEF_USER v st = Ret False st' \<and> read_back (sym_at st r) v (sym_at st' r)"
  using assms
  by (auto simp: set_checked_def krun lone_symbol_def read_back_def saved_value_def choice_flag_kept)
     (auto simp: sym_has_value_def sym_is_choice_value_def has_set_flag flag_defs)

lemma conf_set_sym_val_reads:
  assumes l: "lone_symbol st r" and ty: "s_type (sym_at st r) = ty" and v: "value_ok ty v"
  shows "\<exists>st'. conf_set_sym_val r 0 SYMBOL_DEF_USER (value_text ty v) st = Ret False st' \<and> read_back (sym_at st r) v (sym_at st' r)"
proof -
  have logical: "\<exists>st'. kseq (set_def r 0 SYMBOL_DEF_USER t) (kret False) st = Ret False st' \<and> read_back (sym_at st r) (tri_letter t) (sym_at st' r)"
    if "ty = S_BOOLEAN \<or> ty = S_TRISTATE" for t
    using set_def_reads [OF l, of t] that ty by (auto simp: krun)
  show ?thesis
  proof (cases ty)
    case S_STRING
    have "set_quoted r 0 SYMBOL_DEF_USER (escape_copy v @ [CHR 0x22]) = set_checked r 0 SYMBOL_DEF_USER v"
      by (simp add: set_quoted_def unescape_escape)
    then show ?thesis using set_checked_reads [OF l ty, of v] ty S_STRING
      by (simp add: conf_set_sym_val_def ksym_get value_text_def sym_escape_string_value_def sym_string_valid_def)
  next
    case S_INT
    then show ?thesis using set_checked_reads [OF l ty, of v] ty v
      by (simp add: conf_set_sym_val_def ksym_get value_text_def sym_string_valid_def value_ok_def)
  next
    case S_HEX
    then show ?thesis using set_checked_reads [OF l ty, of v] ty v
      by (simp add: conf_set_sym_val_def ksym_get value_text_def sym_string_valid_def value_ok_def)
  next
    case S_BOOLEAN
    then show ?thesis using logical [of TYes] logical [of TNo] ty v
      by (auto simp: conf_set_sym_val_def ksym_get value_text_def value_ok_def tri_letter_def)
  next
    case S_TRISTATE
    then show ?thesis using logical [of TYes] logical [of TNo] logical [of TMod] ty v
      by (auto simp: conf_set_sym_val_def ksym_get value_text_def value_ok_def tri_letter_def)
  qed (use v in \<open>simp_all add: value_ok_def\<close>)
qed

lemma reassigned_frame:
  "\<exists>st'. reassigned r fl st = Ret () st' \<and> ks_syms st' = ks_syms st"
  by (simp add: reassigned_def conf_warning_def krun)

lemma lone_symbol_cong: "ks_syms st' = ks_syms st \<Longrightarrow> lone_symbol st' r = lone_symbol st r \<and> sym_at st' r = sym_at st r"
  by (simp add: lone_symbol_def sym_at_def)

lemma set_choice_lone: "\<not> sym_is_choice_value (sym_at st r) \<Longrightarrow> set_choice r def fl st = Ret () st"
  by (simp add: set_choice_def krun)

lemma sym_find_lineno: "sym_find (st\<lparr>ks_conf_lineno := k\<rparr>) n = sym_find st n"
proof -
  have "sym_at (st\<lparr>ks_conf_lineno := k\<rparr>) = sym_at st" by (rule ext) (simp add: sym_at_def)
  then show ?thesis unfolding sym_find_def by (cases n) (simp_all split: option.splits)
qed

text \<open>What the configuration writer prints for a symbol is what the reader takes in: after the printed
  line of a symbol has been read, the user value of the symbol is the value that was printed. Strings
  may hold quotes and backslashes, but no newline.\<close>

theorem conf_line_roundtrip:
  assumes n: "plain_name pre name" and f: "sym_find st (Some name) = Some r" and l: "lone_symbol st r"
    and v: "value_ok (s_type (sym_at st r)) v"
  shows "\<exists>st'. conf_line_step pre 0 SYMBOL_DEF_USER
      (kconfig_print_symbol pre (s_type (sym_at st r)) name (value_text (s_type (sym_at st r)) v) False) st = Ret () st' \<and>
    saved_value (sym_at st' r) = v \<and> sym_has_value (sym_at st' r)"
proof -
  define ty where "ty = s_type (sym_at st r)"
  define st1 where "st1 = st\<lparr>ks_conf_lineno := Suc (ks_conf_lineno st)\<rparr>"
  have f1: "sym_find st1 (Some name) = Some r" using f by (simp add: st1_def sym_find_lineno)
  obtain st2 where a: "reassigned r SYMBOL_DEF_USER st1 = Ret () st2" and s2: "ks_syms st2 = ks_syms st"
    using reassigned_frame [of r SYMBOL_DEF_USER st1] by (auto simp: st1_def)
  have l2: "lone_symbol st2 r" and e2: "sym_at st2 r = sym_at st r" using lone_symbol_cong [OF s2] l by auto
  show ?thesis
  proof (cases "(ty = S_BOOLEAN \<or> ty = S_TRISTATE) \<and> v = ''n''")
    case True
    obtain st3 where b: "set_def r 0 SYMBOL_DEF_USER TNo st2 = Ret () st3"
        and c: "read_back (sym_at st2 r) (tri_letter TNo) (sym_at st3 r)"
      using set_def_reads [OF l2, of TNo] True e2 by (auto simp: ty_def)
    then have "set_choice r 0 SYMBOL_DEF_USER st3 = Ret () st3" by (intro set_choice_lone) (simp add: read_back_def)
    then show ?thesis using True b c a f1 e2 classify_printed [OF n v]
      by (simp add: conf_line_step_def line_symbol_def krun ty_def st1_def [symmetric] read_back_def tri_letter_def)
  next
    case False
    obtain st3 where b: "conf_set_sym_val r 0 SYMBOL_DEF_USER (value_text ty v) st2 = Ret False st3"
        and c: "read_back (sym_at st2 r) v (sym_at st3 r)"
      using conf_set_sym_val_reads [OF l2, of ty v] v e2 by (auto simp: ty_def)
    then have "set_choice r 0 SYMBOL_DEF_USER st3 = Ret () st3" by (intro set_choice_lone) (simp add: read_back_def)
    moreover have "classify pre (kconfig_print_symbol pre (s_type (sym_at st r)) name (value_text (s_type (sym_at st r)) v) False) =
        LSet name (value_text ty v)"
      using classify_printed [OF n v] False unfolding ty_def by (simp only: if_False)
    ultimately show ?thesis using b c a f1
      by (simp add: conf_line_step_def line_symbol_def krun st1_def [symmetric] read_back_def)
  qed
qed

text \<open>A table with a string symbol.\<close>

definition conf_table :: kst where
  "conf_table = kst_init\<lparr>ks_syms := ks_syms kst_init @ [(new_symbol (Some ''NAME'') 0)\<lparr>s_type := S_STRING\<rparr>],
     ks_hash := (ks_hash kst_init)(bucket ''NAME'' := [Sym 0])\<rparr>"

lemma conf_table_symbol: "sym_at conf_table (Sym 0) = (new_symbol (Some ''NAME'') 0)\<lparr>s_type := S_STRING\<rparr>"
  by (simp add: conf_table_def sym_at_def kst_init_def nth_append)

lemma conf_table_find: "sym_find conf_table (Some ''NAME'') = Some (Sym 0)"
proof -
  have "ks_hash conf_table (bucket ''NAME'') = [Sym 0]" by (simp add: conf_table_def)
  then show ?thesis by (simp add: sym_find_def static_name_def conf_table_symbol new_symbol_def has_flag_def)
qed

lemma conf_table_lone: "lone_symbol conf_table (Sym 0)"
  by (simp add: lone_symbol_def conf_table_symbol new_symbol_def sym_is_choice_value_def has_flag_def)
     (simp add: conf_table_def kst_init_def)

theorem conf_line_roundtrip_witness:
  "\<exists>st'. conf_line_step ''BR2_'' 0 SYMBOL_DEF_USER
      (kconfig_print_symbol ''BR2_'' S_STRING ''NAME'' (value_text S_STRING [CHR 0x22, CHR ''a'', CHR 0x5C]) False) conf_table = Ret () st' \<and>
    saved_value (sym_at st' (Sym 0)) = [CHR 0x22, CHR ''a'', CHR 0x5C] \<and> sym_has_value (sym_at st' (Sym 0))"
proof -
  have "s_type (sym_at conf_table (Sym 0)) = S_STRING" by (simp add: conf_table_symbol)
  moreover have "plain_name ''BR2_'' ''NAME''" by (simp add: plain_name_def)
  moreover have "value_ok S_STRING [CHR 0x22, CHR ''a'', CHR 0x5C]" by (simp add: value_ok_def)
  moreover note conf_table_find conf_table_lone
  ultimately show ?thesis
    using conf_line_roundtrip [of "''BR2_''" "''NAME''" conf_table "Sym 0" "[CHR 0x22, CHR ''a'', CHR 0x5C]"] by simp
qed

section \<open>Lines and buffers\<close>

lemma getline_loop_fits:
  "length (fst ln) \<le> snd ln \<Longrightarrow> length (fst (fst (getline_loop ln f))) \<le> snd (fst (getline_loop ln f))"
proof (induction ln f rule: getline_loop.induct)
  case (2 ln c f)
  have "length (fst (add_byte c ln)) \<le> snd (add_byte c ln)"
    using 2 by (auto simp: add_byte_def LINE_GROWTH_def split: prod.splits)
  then show ?case using 2 by (cases "c = CHR 0x0A") simp_all
qed simp

lemma getline_loop_split:
  "fst (fst (getline_loop ln f)) @ snd (getline_loop ln f) = fst ln @ f"
  by (induction ln f rule: getline_loop.induct) (auto simp: add_byte_def split: prod.splits)

lemma getline_loop_newline:
  "CHR 0x0A \<notin> set (fst ln) \<Longrightarrow> CHR 0x0A \<notin> set (butlast (fst (fst (getline_loop ln f))))"
proof (induction ln f rule: getline_loop.induct)
  case (1 ln)
  then show ?case by (auto dest: in_set_butlastD)
next
  case (2 ln c f)
  show ?case
  proof (cases "c = CHR 0x0A")
    case True
    then show ?thesis using 2 by (auto simp: add_byte_def split: prod.splits)
  next
    case False
    then have "CHR 0x0A \<notin> set (fst (add_byte c ln))" using 2 by (auto simp: add_byte_def split: prod.splits)
    then show ?thesis using 2 False by simp
  qed
qed



section \<open>Reading keeps the table in order\<close>

text \<open>Reading may give a symbol that only a file has mentioned the type of a string; nothing else changes types.\<close>

lemma keeps_table: "(\<And>tys. keeps (in_order tys) m R) \<Longrightarrow> keeps table_ok m R"
proof -
  assume k: "\<And>tys. keeps (in_order tys) m R"
  show ?thesis unfolding keeps_def
  proof (intro allI impI)
    fix st assume "table_ok st"
    then have "case m st of Ret x st' \<Rightarrow> in_order (map s_type (ks_syms st)) st' \<and> R x | Crash \<Rightarrow> True | NoFuel \<Rightarrow> False"
      using k [of "map s_type (ks_syms st)"] by (simp add: keeps_def table_in_order)
    then show "case m st of Ret x st' \<Rightarrow> table_ok st' \<and> R x | Crash \<Rightarrow> True | NoFuel \<Rightarrow> False"
      by (cases "m st") (auto simp: table_in_order in_order_types)
  qed
qed

lemma keep_table_harmless: "harmless f \<Longrightarrow> keep table_ok (kupd r f)"
  by (rule keeps_table) (rule keep_harmless_any)

lemma keep_table_calc: "keep table_ok (sym_calc r)" "keep table_ok calc_modules" "keep table_ok (sym_string_within_range r v)"
  by (rule keeps_table, intro keep_intros)+

lemma keep_table_frame:
  "keep table_ok (conf_warning msg)" "keep table_ok (sym_add_change_count n)" "keep table_ok (sym_set_change_count n)"
  "keep table_ok count_unsaved" "keep table_ok (kmod (\<lambda>st. st\<lparr>ks_conf_lineno := ln st\<rparr>))"
  "keep table_ok (kmod (\<lambda>st. st\<lparr>ks_conf_filename := name\<rparr>))" "keep table_ok (kmod (\<lambda>st. st\<lparr>ks_conf_warnings := n\<rparr>))"
  "keep table_ok (kmod (\<lambda>st. st\<lparr>ks_conf_unsaved := n\<rparr>))"
  unfolding conf_warning_def sym_add_change_count_def sym_set_change_count_def count_unsaved_def
  by (intro keep_seq keep_mod; simp add: table_ok_def todo_def)+

lemmas keep_table = keep_table_frame keep_table_calc keep_table_harmless keep_bind keep_seq keep_when keep_if keep_option keep_ret
  keep_get keep_sym keep_crash harmless_flags harmless_fields harmless_def_val

lemma harmless_def_user: "harmless (clear_flag SYMBOL_DEF_USER)"
  by (rule harmless_clear_flag) (simp add: flag_defs)

lemma keep_table_set_def [intro]: "keep table_ok (set_def r d SYMBOL_DEF_USER t)"
  unfolding set_def_def by (intro keep_table)

lemma keep_table_invalid [intro]: "keep table_ok (invalid_value r d p)"
  unfolding invalid_value_def by (intro keep_table)

lemma keep_table_checked [intro]: "keep table_ok (set_checked r d SYMBOL_DEF_USER p)"
  unfolding set_checked_def by (intro keep_table keep_table_invalid)

lemma keep_table_quoted [intro]: "keep table_ok (set_quoted r d SYMBOL_DEF_USER p)"
  unfolding set_quoted_def by (intro keep_table keep_table_checked)

text \<open>The change of a type: only a symbol of type \<open>S_OTHER\<close> becomes a string.\<close>

lemma table_ok_to_string:
  assumes "table_ok st" "s_type (sym_at st r) = S_OTHER"
  shows "table_ok (sym_upd r (\<lambda>s. s\<lparr>s_type := S_STRING\<rparr>) st)"
proof -
  have "\<not> is_static r" using assms by (auto simp: table_ok_iff entries_ok_def static_ok_def is_static_def)
  moreover have "\<forall>s \<in> set (ks_syms (sym_upd r (\<lambda>s. s\<lparr>s_type := S_STRING\<rparr>) st)). s_type s = S_BOOLEAN \<longrightarrow> s_tri s \<noteq> TMod"
    by (rule all_upd) (use assms(1) in \<open>auto simp: table_ok_iff entries_ok_def list_all_iff\<close>)
  moreover have "has_flag f (s\<lparr>s_type := ty\<rparr>) = has_flag f s" for f s ty by (simp add: has_flag_def)
  ultimately show ?thesis
    using assms(1) static_ok_upd [of st r "\<lambda>s. s\<lparr>s_type := S_STRING\<rparr>"]
    by (auto simp: table_ok_iff entries_ok_def list_all_iff is_static_def)
qed

lemma keep_table_set_sym_val: "keep table_ok (conf_set_sym_val r d SYMBOL_DEF_USER p)"
proof -
  have o: "leads (\<lambda>st. table_ok st \<and> sym_at st r = s) (kseq (kupd r (\<lambda>s. s\<lparr>s_type := S_STRING\<rparr>)) (set_checked r d SYMBOL_DEF_USER p)) table_ok"
    if "s_type s = S_OTHER" for s
    by (rule leads_seq [where H = table_ok], rule leads_upd) (use that table_ok_to_string in \<open>auto simp: leads_keep\<close>)
  have w: "leads (\<lambda>st. table_ok st \<and> sym_at st r = s) m table_ok" if "keep table_ok m" for s and m :: "bool km"
    using that unfolding leads_keep [symmetric] by (rule leads_weaken) auto
  have l: "keep table_ok (kseq (set_def r d SYMBOL_DEF_USER t) (kret False))" for t by (intro keep_table keep_table_set_def)
  show ?thesis unfolding conf_set_sym_val_def leads_keep [symmetric] Let_def
  proof (rule leads_sym, goal_cases)
    case (1 s)
    show ?case
    proof (cases "s_type s = S_OTHER")
      case True
      then show ?thesis using o [OF True] w [OF keep_table_quoted] by simp
    next
      case False
      then show ?thesis by (intro w) (auto split: symbol_type.splits intro: l keep_ret)
    qed
  qed
qed

lemma keep_table_set_choice: "keep table_ok (set_choice r d SYMBOL_DEF_USER)"
proof -
  have "harmless (\<lambda>x. set_def_tri d (f x) x)" for f by (simp add: harmless_def has_flag_def set_def_tri_def)
  note h = keep_table_harmless [OF this] keep_table_harmless [OF harmless_def_user]
  show ?thesis unfolding set_choice_def
    by (intro keep_bind keep_sym keep_when keep_seq keep_choice_of h) (auto split: tristate.splits intro!: keep_table harmless_def_user)
qed

lemma keep_table_line: "keep table_ok (conf_line_step pre 0 SYMBOL_DEF_USER line)"
proof -
  have s: "keep table_ok (line_symbol 0 ty name)" for ty name unfolding line_symbol_def by (simp, intro keep_table)
  have r: "keep table_ok (reassigned r fl)" for r fl unfolding reassigned_def by (intro keep_table)
  show ?thesis unfolding conf_line_step_def
    by (rule keep_seq, rule keep_table)
      (auto split: conf_line.splits intro!: keep_table s r keep_table_set_choice keep_table_set_sym_val keep_table_set_def)
qed

lemma keep_table_lines: "keep table_ok (read_lines pre 0 SYMBOL_DEF_USER n f)"
proof (induction n f rule: read_lines.induct [of "\<lambda>_ _ _ n f. keep table_ok (read_lines pre 0 SYMBOL_DEF_USER n f)" pre 0 SYMBOL_DEF_USER])
  case (1 pre' d fl n f)
  then show ?case
    by (subst read_lines.simps) (auto split: option.splits prod.splits intro!: keep_ret keep_seq keep_table_line)
qed

lemma keeps_table_symbols: "keeps table_ok (kget all_symbols) (\<lambda>rs. \<forall>r \<in> set rs. \<not> is_static r)"
  by (rule keeps_table) (rule keeps_all_symbols)

lemma keep_table_clear: "\<not> is_static r \<Longrightarrow> keep table_ok (kupd r (clear_flag g))"
  by (rule keeps_table, rule keep_upd) (rule in_order_upd, auto simp: clear_flag_def)

lemma keep_table_load: "keep table_ok (load_file pre name c 0)"
proof -
  have d: "push_bit 0 SYMBOL_DEF = SYMBOL_DEF_USER" by (simp add: flag_defs)
  have h: "harmless (\<lambda>s. s\<lparr>s_def := f s\<rparr>)" for f by (simp add: harmless_def has_flag_def)
  have r: "keep table_ok (reset_symbol 0 SYMBOL_DEF_USER r)" if "\<not> is_static r" for r
    unfolding reset_symbol_def by (intro keep_table keep_table_clear [OF that] h)
  show ?thesis unfolding load_file_def d Let_def
    by (intro keep_seq keep_table_frame keeps_bind [OF keeps_table_symbols] keep_for_in r keep_table_lines keep_table_calc) blast
qed

lemma table_ok_add:
  assumes "table_ok st"
  shows "table_ok (st\<lparr>ks_syms := ks_syms st @ [new_symbol n fl],
     ks_hash := (ks_hash st)(h := sref_of (length (ks_syms st)) # ks_hash st h)\<rparr>)" (is "table_ok ?st")
proof -
  have l: "4 \<le> length (ks_syms st)" using assms by (simp add: table_ok_iff entries_ok_def static_ok_def)
  have s: "sym_at ?st r = sym_at st r" if "is_static r" for r
    using that l by (intro sym_at_new) (auto simp: is_static_def)
  have "\<not> is_static (sref_of (length (ks_syms st)))"
    using l by (auto simp: is_static_def dest: arg_cong [where f = sref_idx])
  then have "chains_ok ?st" using assms by (auto simp: table_ok_iff chains_ok_def)
  moreover have "static_ok ?st" using assms s by (simp add: table_ok_iff entries_ok_def static_ok_def is_static_def)
  moreover have "s_type (new_symbol n fl) = S_UNKNOWN" by (simp add: new_symbol_def)
  ultimately show ?thesis
    using assms s by (auto simp: table_ok_iff entries_ok_def list_all_iff is_static_def)
qed

lemma keep_table_lookup: "keep table_ok (sym_lookup n fl)"
proof -
  have a: "keep table_ok (add_symbol m fl h)" for m h
    using table_ok_add by (auto simp: keeps_def add_symbol_def Let_def)
  show ?thesis unfolding sym_lookup_def by (intro keep_option a keep_table)
qed

lemma keep_table_get_string: "keep table_ok (get_string sym_calc r)"
  by (rule keep_get_string) (rule keep_table_calc)

lemma keep_table_expand: "keep table_ok (conf_expand res inp)"
proof (induction inp arbitrary: res rule: length_induct)
  case (1 inp)
  show ?case
  proof (cases "dropWhile (\<lambda>c. c \<noteq> CHR ''$'') inp")
    case Nil
    show ?thesis unfolding conf_expand.simps [of res inp] Nil list.case by (intro keep_if keep_ret keep_crash)
  next
    case (Cons c src)
    show ?thesis unfolding conf_expand.simps [of res inp] Cons list.case Let_def
      by (intro keep_if keep_crash keep_bind keep_table_lookup keep_seq keep_table_calc keep_table_get_string)
        (use 1 dropWhile_shorter [OF Cons] in blast)
  qed
qed

lemma keep_table_default_file: "keep table_ok (default_file e r ks)"
proof (induction ks)
  case (Cons k ks)
  have v: "keep table_ok (expr_calc_value sym_calc x)" for x by (rule keep_expr_calc_value) (rule keep_table_calc)
  have n: "keep table_ok (kbind (conf_expand_value x) (\<lambda>name. case ke_files e name of Some c \<Rightarrow> kret (Some (name, c)) | None \<Rightarrow> default_file e r ks))" for x
    unfolding conf_expand_value_def by (intro keep_bind keep_table_expand keep_option keep_ret Cons)
  show ?case by (simp, intro keep_bind keep_sym v)
    (auto split: tristate.splits option.splits pexpr.splits expr.splits intro: keep_crash Cons.IH n keep_bind keep_sym)
qed (simp add: keep_ret)

lemma keep_table_read_simple: "keep table_ok (conf_read_simple e name 0)"
proof -
  have l: "keep table_ok (kseq (load_file p n c 0) (kret False))" for p n c by (intro keep_seq keep_table_load keep_ret)
  have d: "keep table_ok (kbind (default_file e r ks) (\<lambda>x. case x of None \<Rightarrow> kret True | Some (n, c) \<Rightarrow> kseq (load_file p n c 0) (kret False)))" for p r ks
    by (rule keep_bind [OF keep_table_default_file]) (auto split: option.splits intro: keep_ret l)
  show ?thesis unfolding conf_read_simple_def Let_def
    by (intro keep_option keep_ret l keep_seq keep_table_frame keep_bind [OF keep_get] keep_table_calc keep_bind [OF keep_sym] d)
qed

lemma keep_table_drop_hidden: "\<not> is_static r \<Longrightarrow> keep table_ok (drop_hidden r)"
  unfolding drop_hidden_def by (intro keep_table keep_table_clear harmless_def_user)

lemma keep_table_check_saved: "keep table_ok (check_saved r)"
  unfolding check_saved_def by (intro keep_table)

lemma keep_table_read: "keep table_ok (conf_read e name)"
  unfolding conf_read_def
  by (intro keep_seq keep_table_frame keep_bind [OF keep_table_read_simple] keep_if keep_ret keeps_bind [OF keeps_table_symbols]
      keep_for_in keep_table_drop_hidden keep_table_check_saved keep_bind [OF keep_get]) blast

text \<open>Reading a configuration, whatever the files hold, comes to an end and leaves the symbol table in order:
  no bool has the value \<open>m\<close> and the constants keep their values (or the code has followed a \<open>NULL\<close>
  pointer or written beyond one of its buffers).\<close>

theorem conf_read_keeps:
  "table_ok st \<Longrightarrow> (case conf_read e name st of Ret b st' \<Rightarrow> table_ok st' | Crash \<Rightarrow> True | NoFuel \<Rightarrow> False)"
  using keep_table_read [of e name] by (auto simp: keeps_def split: kres.splits)

theorem conf_read_keeps_witness:
  "case conf_read \<lparr>ke_files = (\<lambda>f. Some ''A=y''), ke_getenv = (\<lambda>v. None)\<rparr> None calc_table of
     Ret b st' \<Rightarrow> table_ok st' | Crash \<Rightarrow> True | NoFuel \<Rightarrow> False"
  by (rule conf_read_keeps) (rule calc_table_ok)

end
