(* ===== verification/KWriteFacts.thy ===== *)
theory KWriteFacts
  imports KWrite KConfFacts
begin

text \<open>
  Writing configurations: the walk of \<open>conf_write\<close> visits the entries of the menu tree in the order of the
  file, and a file of printed lines gives every symbol the value that was printed.
\<close>

section \<open>The walk\<close>

fun subtrees :: "mtree \<Rightarrow> mtree list" where
  "subtrees (MT m cs) = MT m cs # concat (map subtrees cs)"

definition preorder :: "mtree list \<Rightarrow> mtree list" where "preorder ts = concat (map subtrees ts)"

lemma preorder_simps [simp]:
  "preorder [] = []" "preorder (MT m cs # ts) = MT m cs # preorder cs @ preorder ts"
  by (simp_all add: preorder_def)

lemma kbind_assoc: "kbind (kbind m f) g = kbind m (\<lambda>x. kbind (f x) g)"
  by (rule ext) (simp add: kbind_def split: kres.split)

lemma kbind_kret [simp]: "kbind m kret = m" "kbind (kret x) f = f x"
  by (rule ext, simp add: kbind_def kret_def split: kres.split)+

lemma kfold_append: "kfold f (xs @ ys) acc = kbind (kfold f xs acc) (kfold f ys)"
proof (induction xs arbitrary: acc)
  case (Cons x xs)
  then have "kfold f (xs @ ys) = (\<lambda>a. kbind (kfold f xs a) (kfold f ys))" by (rule ext)
  then show ?case by (simp add: kbind_assoc)
qed simp

lemma climb_None: "climb up = None \<Longrightarrow> concat (map preorder up) = []"
  by (induction up rule: climb.induct) auto

lemma climb_Some: "climb up = Some (cur, up') \<Longrightarrow> concat (map preorder up) = preorder cur @ concat (map preorder up')"
  by (induction up rule: climb.induct) auto

lemma climb_cur: "climb up = Some (cur, up') \<Longrightarrow> cur \<noteq> []"
  by (induction up rule: climb.induct) auto

lemma walk_kfold:
  "(ts = [] \<longrightarrow> up = []) \<Longrightarrow> walk body ts up acc = kfold body (preorder ts @ concat (map preorder up)) acc"
proof (induction body ts up acc rule: walk.induct)
  case (2 body m cs ts up acc)
  have "walk body cs (ts # up) x = kfold body (preorder cs @ preorder ts @ concat (map preorder up)) x" if "cs \<noteq> []" for x
    using "2.IH"(1) [OF that] that by simp
  moreover have "(case climb (ts # up) of None \<Rightarrow> kret x | Some (cur, up') \<Rightarrow> walk body cur up' x) =
      kfold body (preorder ts @ concat (map preorder up)) x" if "cs = []" for x
  proof (cases "climb (ts # up)")
    case None
    have "preorder ts @ concat (map preorder up) = []" using climb_None [OF None] by (simp only: list.map concat.simps)
    then show ?thesis by (simp only: None option.case kfold.simps)
  next
    case (Some p)
    obtain cur up' where p: "p = (cur, up')" by force
    have "cur \<noteq> []" using climb_cur Some p by blast
    then have w: "walk body cur up' x = kfold body (preorder cur @ concat (map preorder up')) x"
      using "2.IH"(2) [of p cur up' x] Some p that by blast
    have e: "preorder ts @ concat (map preorder up) = preorder cur @ concat (map preorder up')"
      using climb_Some [OF Some [unfolded p]] by (simp only: list.map concat.simps)
    show ?thesis by (simp only: Some p option.case prod.case w e)
  qed
  ultimately show ?case by (cases "cs = []") (simp_all add: walk.simps)
qed (simp add: walk.simps)

text \<open>C23: The loop of \<open>conf_write\<close> and \<open>conf_write_defconfig\<close>, which goes from entry to entry over the links of the
  menus, visits every entry of the tree once, each before its children and these before what follows.\<close>

theorem walk_preorder: "walk body ts [] acc = kfold body (preorder ts) acc"
  using walk_kfold [of ts "[]" body acc] by simp

section \<open>Reading a whole file\<close>

lemma getline_loop_at:
  "CHR 0x0A \<notin> set l \<Longrightarrow> \<exists>m. getline_loop ln (l @ newline @ rest) = ((fst ln @ l @ newline, m), rest)"
proof (induction l arbitrary: ln)
  case Nil
  then show ?case by (cases ln) (simp add: newline_def add_byte_def)
next
  case (Cons c l)
  obtain m where "getline_loop (add_byte c ln) (l @ newline @ rest) = ((fst (add_byte c ln) @ l @ newline, m), rest)"
    using Cons.IH [of "add_byte c ln"] Cons.prems by (metis list.set_intros(2))
  then show ?case using Cons.prems by (cases ln) (auto simp: add_byte_def)
qed

lemma read_lines_Cons:
  assumes "CHR 0x0A \<notin> set l"
  shows "\<exists>m. read_lines pre def fl n ((l @ newline) @ rest) = kseq (conf_line_step pre def fl (l @ newline)) (read_lines pre def fl m rest)"
proof -
  obtain k where "getline_loop ([], n) (l @ newline @ rest) = ((l @ newline, k), rest)"
    using getline_loop_at [OF assms, of "([], n)" rest] by auto
  then have "compat_getline n ((l @ newline) @ rest) = Some (l @ newline, snd (add_byte (char_of (0::nat)) (l @ newline, k)), rest)"
    by (simp add: compat_getline_def newline_def)
  then show ?thesis by (subst read_lines.simps) auto
qed

text \<open>What a line for the symbol \<open>r\<close> leaves alone.\<close>

definition kept :: "symbol \<Rightarrow> symbol \<Rightarrow> bool" where
  "kept s s' \<longleftrightarrow> s_name s' = s_name s \<and> s_type s' = s_type s \<and> sym_is_choice_value s' = sym_is_choice_value s \<and>
     has_flag SYMBOL_CONST s' = has_flag SYMBOL_CONST s \<and> (s_def s' = [] \<longleftrightarrow> s_def s = [])"

definition touched :: "sref \<Rightarrow> kst \<Rightarrow> kst \<Rightarrow> bool" where
  "touched r st0 st \<longleftrightarrow> ks_hash st = ks_hash st0 \<and> length (ks_syms st) = length (ks_syms st0) \<and>
     (\<forall>q. q \<noteq> r \<longrightarrow> sym_at st q = sym_at st0 q) \<and> kept (sym_at st0 r) (sym_at st r)"

lemma kept_refl [simp]: "kept s s"
  by (simp add: kept_def)

lemma touched_refl [simp]: "touched r st st"
  by (simp add: touched_def)

lemma touched_kept: "touched r st0 st \<Longrightarrow> kept (sym_at st0 q) (sym_at st q)"
  by (cases "q = r") (auto simp: touched_def)

lemma touched_find: "touched r st0 st \<Longrightarrow> sym_find st n = sym_find st0 n"
proof -
  assume t: "touched r st0 st"
  have "(s_name (sym_at st q) = x) = (s_name (sym_at st0 q) = x)" "has_flag SYMBOL_CONST (sym_at st q) = has_flag SYMBOL_CONST (sym_at st0 q)" for q x
    using touched_kept [OF t, of q] by (auto simp: kept_def)
  then show ?thesis using t by (cases n) (auto simp: sym_find_def touched_def split: option.splits)
qed

lemma touched_lone: "touched r st0 st \<Longrightarrow> lone_symbol st q = lone_symbol st0 q"
  using touched_kept [of r st0 st q] by (auto simp: lone_symbol_def touched_def kept_def)

lemma sym_at_frame [simp]:
  "sym_at (st\<lparr>ks_warnings := w\<rparr>) = sym_at st" "sym_at (st\<lparr>ks_conf_warnings := n\<rparr>) = sym_at st"
  "sym_at (st\<lparr>ks_conf_lineno := n\<rparr>) = sym_at st"
  by (rule ext, simp add: sym_at_def)+

lemma keep_touched:
  "keep (touched r st0) (kmod (\<lambda>st. st\<lparr>ks_conf_lineno := f st\<rparr>))"
  "keep (touched r st0) (kmod (\<lambda>st. st\<lparr>ks_warnings := g st\<rparr>))"
  "keep (touched r st0) (kmod (\<lambda>st. st\<lparr>ks_conf_warnings := f st\<rparr>))"
  by (rule keep_mod, simp add: touched_def)+

lemma keep_touched_upd:
  assumes "\<And>s. kept s (f s)"
  shows "keep (touched r st0) (kupd r f)"
proof (rule keep_upd)
  fix st assume "touched r st0 st"
  then show "touched r st0 (sym_upd r f st)" using assms [of "sym_at st r"] by (simp add: touched_def kept_def)
qed

lemma kept_ops: "kept s (set_def_tri i t s)" "kept s (set_def_val i v s)" "kept s (set_flag SYMBOL_DEF_USER s)"
  by (simp_all add: kept_def set_def_tri_def set_def_val_def has_set_flag sym_is_choice_value_def flag_defs)
    (simp_all add: has_flag_def set_flag_def)

lemma leads_touched: "keep (touched r st0) m \<Longrightarrow> leads (\<lambda>st. touched r st0 st \<and> P st) m (touched r st0)"
  by (rule leads_weaken [of "touched r st0" m "touched r st0"]) (auto simp: leads_keep)

lemmas touch_intros = keep_ret keep_seq keep_when keep_bind keep_sym keep_get keep_if keep_touched keep_touched_upd kept_ops

lemma keep_touched_warning: "keep (touched r st0) (conf_warning w)"
  unfolding conf_warning_def by (intro touch_intros)

lemma keep_touched_set_def: "keep (touched r st0) (set_def r 0 SYMBOL_DEF_USER t)"
  unfolding set_def_def by (intro touch_intros)

lemma keep_touched_checked: "keep (touched r st0) (set_checked r 0 SYMBOL_DEF_USER p)"
  unfolding set_checked_def invalid_value_def by (intro touch_intros keep_touched_warning)

lemma keep_touched_quoted: "keep (touched r st0) (set_quoted r 0 SYMBOL_DEF_USER p)"
  unfolding set_quoted_def by (auto split: option.split intro!: touch_intros keep_touched_warning keep_touched_checked)

lemma keep_touched_sym_val:
  assumes "s_type (sym_at st0 r) \<noteq> S_OTHER"
  shows "keep (touched r st0) (conf_set_sym_val r 0 SYMBOL_DEF_USER p)"
  unfolding conf_set_sym_val_def leads_keep [symmetric] Let_def
proof (rule leads_sym, goal_cases)
  case (1 s)
  show ?case
  proof (cases "s_type s = S_OTHER")
    case True
    have no: "\<not> (touched r st0 st \<and> sym_at st r = s)" for st
      using True assms by (auto simp: touched_def kept_def)
    show ?thesis unfolding leads_def by (simp add: no)
  next
    case False
    have d: "keep (touched r st0) (kseq (set_def r 0 SYMBOL_DEF_USER t) (kret x))" for t and x :: bool
      by (intro keep_seq keep_touched_set_def keep_ret)
    have k: "keep (touched r st0) (kret x)" for x :: bool by (rule keep_ret)
    have i: "keep (touched r st0) (invalid_value r 0 p)"
      unfolding invalid_value_def by (intro keep_bind keep_sym keep_seq keep_when keep_touched_warning keep_ret)
    show ?thesis
      by (rule leads_touched, cases "s_type s")
        (use False d i keep_touched_checked keep_touched_quoted k in simp_all)
  qed
qed

lemma keep_touched_choice:
  assumes "\<not> sym_is_choice_value (sym_at st0 r)"
  shows "keep (touched r st0) (set_choice r 0 SYMBOL_DEF_USER)"
  unfolding keeps_def
proof (intro allI impI)
  fix st assume t: "touched r st0 st"
  then have "\<not> sym_is_choice_value (sym_at st r)" using assms by (simp add: touched_def kept_def)
  then have "set_choice r 0 SYMBOL_DEF_USER st = Ret () st" by (rule set_choice_lone)
  then show "case set_choice r 0 SYMBOL_DEF_USER st of Ret x st' \<Rightarrow> touched r st0 st' \<and> True | Crash \<Rightarrow> True | NoFuel \<Rightarrow> False"
    using t by simp
qed

lemma keeps_line_symbol:
  assumes "sym_find st0 (Some name) = Some r"
  shows "keeps (touched r st0) (line_symbol 0 ty name) (\<lambda>x. x = Some r)"
  unfolding keeps_def
proof (intro allI impI)
  fix st assume t: "touched r st0 st"
  have "sym_find st (Some name) = Some r" using touched_find [OF t] assms by simp
  then have "line_symbol 0 ty name st = Ret (Some r) st" by (simp add: line_symbol_def kbind_def kget_def kret_def)
  then show "case line_symbol 0 ty name st of Ret x st' \<Rightarrow> touched r st0 st' \<and> x = Some r | Crash \<Rightarrow> True | NoFuel \<Rightarrow> False"
    using t by simp
qed

lemma keep_touched_line:
  assumes "classify pre line = LUnset name \<or> classify pre line = LSet name p"
    and "sym_find st0 (Some name) = Some r" "\<not> sym_is_choice_value (sym_at st0 r)" "s_type (sym_at st0 r) \<noteq> S_OTHER"
  shows "keep (touched r st0) (conf_line_step pre 0 SYMBOL_DEF_USER line)"
proof -
  have re: "keep (touched r st0) (reassigned r SYMBOL_DEF_USER)"
    unfolding reassigned_def by (intro touch_intros keep_touched_warning)
  have b: "keep (touched r st0) (kbind (line_symbol 0 ty name) (\<lambda>ro. case ro of None \<Rightarrow> kret () | Some q \<Rightarrow> f q))"
    if "keep (touched r st0) (f r)" for ty f
    by (rule keeps_bind [OF keeps_line_symbol [OF assms(2)]]) (simp add: that)
  note ops = re keep_touched_set_def keep_touched_choice [OF assms(3)] keep_touched_sym_val [OF assms(4)]
  from assms(1) show ?thesis
  proof
    assume c: "classify pre line = LUnset name"
    show ?thesis unfolding conf_line_step_def c conf_line.case
      by (rule keep_seq [OF keep_touched(1)], rule b) (intro keep_seq keep_bind keep_sym keep_when ops)
  next
    assume c: "classify pre line = LSet name p"
    show ?thesis unfolding conf_line_step_def c conf_line.case
      by (rule keep_seq [OF keep_touched(1)], rule b) (intro keep_seq keep_bind keep_when ops)
  qed
qed

text \<open>
  The lines of a file, without their newlines: lines the reader passes over, and printed lines of symbols that
  are not members of a choice, each with the name, the symbol and the printed value.
\<close>

type_synonym conf_item = "string \<times> (string \<times> sref \<times> string) option"

definition item_ok :: "string \<Rightarrow> kst \<Rightarrow> conf_item \<Rightarrow> bool" where
  "item_ok pre st it \<longleftrightarrow> CHR 0x0A \<notin> set (fst it) \<and>
     (case snd it of
        None \<Rightarrow> classify pre (fst it @ newline) = LSkip
      | Some (name, r, v) \<Rightarrow>
          plain_name pre name \<and> sym_find st (Some name) = Some r \<and> lone_symbol st r \<and> value_ok (s_type (sym_at st r)) v \<and>
          fst it @ newline = kconfig_print_symbol pre (s_type (sym_at st r)) name (value_text (s_type (sym_at st r)) v) False)"

definition item_syms :: "conf_item list \<Rightarrow> sref list" where
  "item_syms its = concat (map (\<lambda>it. case snd it of None \<Rightarrow> [] | Some (_, r, _) \<Rightarrow> [r]) its)"

definition file_text :: "conf_item list \<Rightarrow> string" where
  "file_text its = concat (map (\<lambda>it. fst it @ newline) its)"

lemma item_ok_touched: "touched r st st' \<Longrightarrow> item_ok pre st it \<Longrightarrow> item_ok pre st' it"
proof -
  assume t: "touched r st st'" and i: "item_ok pre st it"
  have "s_type (sym_at st' q) = s_type (sym_at st q)" for q using touched_kept [OF t] by (simp add: kept_def)
  then show ?thesis using i touched_find [OF t] touched_lone [OF t] by (auto simp: item_ok_def split: option.splits)
qed

lemma skip_line: "classify pre l = LSkip \<Longrightarrow> \<exists>st'. conf_line_step pre 0 SYMBOL_DEF_USER l st = Ret () st' \<and> touched r st st'"
  by (simp add: conf_line_step_def krun touched_def)

lemma symbol_line:
  assumes "item_ok pre st (l, Some (name, r, v))"
  shows "\<exists>st'. conf_line_step pre 0 SYMBOL_DEF_USER (l @ newline) st = Ret () st' \<and> touched r st st' \<and>
    saved_value (sym_at st' r) = v \<and> sym_has_value (sym_at st' r)"
proof -
  have n: "plain_name pre name" and f: "sym_find st (Some name) = Some r" and o: "lone_symbol st r"
    and v: "value_ok (s_type (sym_at st r)) v"
    and l: "l @ newline = kconfig_print_symbol pre (s_type (sym_at st r)) name (value_text (s_type (sym_at st r)) v) False"
    using assms by (auto simp: item_ok_def)
  have "classify pre (l @ newline) = LUnset name \<or> classify pre (l @ newline) = LSet name (value_text (s_type (sym_at st r)) v)"
    using classify_printed [OF n v] unfolding l by (auto split: if_splits)
  moreover have "s_type (sym_at st r) \<noteq> S_OTHER" using v by (auto simp: value_ok_def)
  ultimately have "keep (touched r st) (conf_line_step pre 0 SYMBOL_DEF_USER (l @ newline))"
    using keep_touched_line [OF _ f] o by (auto simp: lone_symbol_def)
  then have "case conf_line_step pre 0 SYMBOL_DEF_USER (l @ newline) st of Ret x st' \<Rightarrow> touched r st st' \<and> True | Crash \<Rightarrow> True | NoFuel \<Rightarrow> False"
    unfolding keeps_def using touched_refl by blast
  moreover obtain st' where "conf_line_step pre 0 SYMBOL_DEF_USER (l @ newline) st = Ret () st'"
    "saved_value (sym_at st' r) = v" "sym_has_value (sym_at st' r)"
    using conf_line_roundtrip [OF n f o v] unfolding l by blast
  ultimately show ?thesis by auto
qed

lemma read_items:
  assumes "list_all (item_ok pre st) its" "distinct (item_syms its)"
  shows "\<exists>st'. read_lines pre 0 SYMBOL_DEF_USER n (file_text its) st = Ret () st' \<and>
    (\<forall>q. q \<notin> set (item_syms its) \<longrightarrow> sym_at st' q = sym_at st q) \<and>
    (\<forall>l name r v. (l, Some (name, r, v)) \<in> set its \<longrightarrow> saved_value (sym_at st' r) = v \<and> sym_has_value (sym_at st' r))"
  using assms
proof (induction its arbitrary: st n)
  case Nil
  then show ?case by (simp add: file_text_def read_lines.simps compat_getline_def kret_def)
next
  case (Cons it its)
  obtain l x where it: "it = (l, x)" by force
  have nl: "CHR 0x0A \<notin> set l" using Cons.prems(1) by (simp add: it item_ok_def)
  obtain m where rd: "read_lines pre 0 SYMBOL_DEF_USER n (file_text (it # its)) =
      kseq (conf_line_step pre 0 SYMBOL_DEF_USER (l @ newline)) (read_lines pre 0 SYMBOL_DEF_USER m (file_text its))"
    using read_lines_Cons [OF nl, of pre 0 SYMBOL_DEF_USER n "file_text its"] by (auto simp: file_text_def it)
  show ?case
  proof (cases x)
    case None
    have "classify pre (l @ newline) = LSkip" using Cons.prems(1) by (simp add: it item_ok_def None)
    then have "conf_line_step pre 0 SYMBOL_DEF_USER (l @ newline) st = Ret () (st\<lparr>ks_conf_lineno := ks_conf_lineno st + 1\<rparr>)"
      by (simp add: conf_line_step_def krun)
    moreover define st1 where "st1 = st\<lparr>ks_conf_lineno := ks_conf_lineno st + 1\<rparr>"
    have "touched SymYes st st1" by (simp add: st1_def touched_def)
    from item_ok_touched [OF this]
    have "list_all (item_ok pre st1) its" using Cons.prems(1) by (simp add: list_all_iff)
    moreover have "distinct (item_syms its)" using Cons.prems(2) by (simp add: item_syms_def)
    moreover have "item_syms (it # its) = item_syms its" by (simp add: item_syms_def it None)
    moreover have "sym_at st1 = sym_at st" by (simp add: st1_def)
    ultimately show ?thesis using Cons.IH [of st1 m] rd by (auto simp: st1_def kseq_def kbind_def it None)
  next
    case (Some y)
    obtain name r v where y: "y = (name, r, v)" by (cases y)
    have s: "item_syms (it # its) = r # item_syms its" by (simp add: item_syms_def it Some y)
    obtain st1 where st1: "conf_line_step pre 0 SYMBOL_DEF_USER (l @ newline) st = Ret () st1" "touched r st st1"
      "saved_value (sym_at st1 r) = v" "sym_has_value (sym_at st1 r)"
      using symbol_line [of pre st l name r v] Cons.prems(1) by (auto simp: it Some y)
    have "list_all (item_ok pre st1) its" using Cons.prems(1) item_ok_touched [OF st1(2)] by (simp add: list_all_iff)
    moreover have d: "distinct (item_syms its)" "r \<notin> set (item_syms its)" using Cons.prems(2) s by auto
    ultimately obtain st2 where st2: "read_lines pre 0 SYMBOL_DEF_USER m (file_text its) st1 = Ret () st2"
      "\<forall>q. q \<notin> set (item_syms its) \<longrightarrow> sym_at st2 q = sym_at st1 q"
      "\<forall>l name r v. (l, Some (name, r, v)) \<in> set its \<longrightarrow> saved_value (sym_at st2 r) = v \<and> sym_has_value (sym_at st2 r)"
      using Cons.IH [of st1 m] by blast
    have "read_lines pre 0 SYMBOL_DEF_USER n (file_text (it # its)) st = Ret () st2"
      using rd st1(1) st2(1) by (simp add: kseq_def kbind_def)
    moreover have "\<forall>q. q \<notin> set (item_syms (it # its)) \<longrightarrow> sym_at st2 q = sym_at st q"
      using s st2(2) st1(2) by (auto simp: touched_def)
    moreover have "sym_at st2 r = sym_at st1 r" using d(2) st2(2) by simp
    ultimately show ?thesis using st2(3) st1(3,4) by (intro exI [of _ st2]) (auto simp: it Some y)
  qed
qed

text \<open>C17: What is written is read back: after a file of printed lines and lines that are passed over has been read, the
  user value of every symbol in it is the value that was printed, whatever the other lines are.
  Strings may hold quotes and backslashes, but no newline; no symbol has two lines.\<close>

theorem conf_file_roundtrip:
  assumes "list_all (item_ok pre st) its" and "distinct (item_syms its)"
  shows "\<exists>st'. read_lines pre 0 SYMBOL_DEF_USER n (file_text its) st = Ret () st' \<and>
    (\<forall>l name r v. (l, Some (name, r, v)) \<in> set its \<longrightarrow> saved_value (sym_at st' r) = v \<and> sym_has_value (sym_at st' r))"
  using read_items [OF assms] by blast

theorem conf_file_roundtrip_witness:
  "\<exists>st'. read_lines ''BR2_'' 0 SYMBOL_DEF_USER 0
      (''# a comment'' @ newline @ kconfig_print_symbol ''BR2_'' S_STRING ''NAME'' (value_text S_STRING [CHR 0x22, CHR ''a'', CHR 0x5C]) False)
      conf_table = Ret () st' \<and>
    saved_value (sym_at st' (Sym 0)) = [CHR 0x22, CHR ''a'', CHR 0x5C]"
proof -
  let ?v = "[CHR 0x22, CHR ''a'', CHR 0x5C]"
  define l where "l = ''BR2_NAME='' @ sym_escape_string_value ?v"
  define its where "its = [(''# a comment'', None), (l, Some (''NAME'', Sym 0, ?v))]"
  have ty: "s_type (sym_at conf_table (Sym 0)) = S_STRING" by (simp add: conf_table_symbol)
  have p: "kconfig_print_symbol ''BR2_'' S_STRING ''NAME'' (value_text S_STRING ?v) False = l @ newline"
    by (simp add: kconfig_print_symbol_def value_text_def l_def)
  have c: "item_ok ''BR2_'' conf_table (''# a comment'', None)"
    by (simp add: item_ok_def classify_def starts_with_def newline_def)
  have "CHR 0x0A \<notin> set l" by (simp add: l_def sym_escape_string_value_def is_special_def)
  moreover have "plain_name ''BR2_'' ''NAME''" "value_ok S_STRING ?v" by (simp_all add: plain_name_def value_ok_def)
  ultimately have "item_ok ''BR2_'' conf_table (l, Some (''NAME'', Sym 0, ?v))"
    using p conf_table_find conf_table_lone by (simp add: item_ok_def ty)
  with c have "list_all (item_ok ''BR2_'' conf_table) its" by (simp add: its_def)
  moreover have "distinct (item_syms its)" by (simp add: its_def item_syms_def)
  ultimately obtain st' where st': "read_lines ''BR2_'' 0 SYMBOL_DEF_USER 0 (file_text its) conf_table = Ret () st'"
    "\<forall>l name r v. (l, Some (name, r, v)) \<in> set its \<longrightarrow> saved_value (sym_at st' r) = v \<and> sym_has_value (sym_at st' r)"
    using conf_file_roundtrip by blast
  have "saved_value (sym_at st' (Sym 0)) = ?v" using st'(2) by (auto simp: its_def)
  moreover have "file_text its = ''# a comment'' @ newline @ l @ newline" by (simp add: file_text_def its_def)
  ultimately show ?thesis using st'(1) unfolding p by auto
qed

end
