(* ===== verification/KCheck.thy ===== *)
theory KCheck
  imports KSymSetFacts
begin

text \<open>
  \<open>buildroot/support/kconfig/symbol.c\<close>: the search for recursive dependencies (\<open>sym_check_deps\<close>), as
  \<open>conf_parse\<close> of \<open>zconf.y\<close> calls it for every symbol. The stack of \<open>struct dep_stack\<close> entries is a list, the
  newest entry first. Messages go to the warnings, without file names and line numbers.
\<close>

section \<open>Messages\<close>

record dep_stack =
  d_sym :: sref
  d_prop :: "property option"
  d_expr :: bool                      \<comment> \<open>\<open>stack->expr\<close> is set: the default of \<open>prop\<close> is being checked\<close>

definition new_frame :: "sref \<Rightarrow> dep_stack" where
  "new_frame r = \<lparr>d_sym = r, d_prop = None, d_expr = False\<rparr>"

definition shown_name :: "symbol \<Rightarrow> string" where
  "shown_name s = (case s_name s of Some n \<Rightarrow> n | None \<Rightarrow> ''<choice>'')"

text \<open>The property named in a message; for choices and their values the first that has a menu entry.\<close>

definition frame_prop :: "symbol \<Rightarrow> dep_stack \<Rightarrow> property option" where
  "frame_prop s f =
     (if sym_is_choice s \<or> sym_is_choice_value s then find (\<lambda>p. p_menu p \<noteq> None) (s_prop s)
      else (case d_prop f of Some p \<Rightarrow> Some p | None \<Rightarrow> (case s_prop s of [] \<Rightarrow> None | p # _ \<Rightarrow> Some p)))"

definition frame_line :: "symbol \<Rightarrow> symbol \<Rightarrow> dep_stack \<Rightarrow> string" where
  "frame_line s next f =
     (if d_expr f then
        ''symbol '' @ shown_name s @ '' '' @
        prop_get_type_name (case frame_prop s f of Some p \<Rightarrow> p_kind p | None \<Rightarrow> P_UNKNOWN) @
        '' value contains '' @ shown_name next
      else if d_prop f \<noteq> None then ''symbol '' @ shown_name s @ '' depends on '' @ shown_name next
      else if sym_is_choice s then ''choice '' @ shown_name s @ '' contains symbol '' @ shown_name next
      else if sym_is_choice_value s then ''symbol '' @ shown_name s @ '' is part of choice '' @ shown_name next
      else ''symbol '' @ shown_name s @ '' is selected by '' @ shown_name next)"

text \<open>The lines for the entries from the bottom of the cycle to the top of the stack.\<close>

fun frame_lines :: "symtab \<Rightarrow> sref \<Rightarrow> dep_stack list \<Rightarrow> string list" where
  "frame_lines T target [] = []"
| "frame_lines T target (f # fs) =
     (if d_sym f = target then [''error: recursive dependency detected!''] else []) @
     [frame_line (T (d_sym f)) (T (case fs of [] \<Rightarrow> target | g # _ \<Rightarrow> d_sym g)) f] @
     frame_lines T target fs"

definition recursive_lines :: "symtab \<Rightarrow> dep_stack list \<Rightarrow> sref \<Rightarrow> string list" where
  "recursive_lines T stack target =
     (if \<exists>f \<in> set stack. d_sym f = target
      then frame_lines T target (rev (takeWhile (\<lambda>f. d_sym f \<noteq> target) stack @ [hd (dropWhile (\<lambda>f. d_sym f \<noteq> target) stack)]))
      else [''unexpected recursive dependency error''])"

definition sym_check_print_recursive :: "dep_stack list \<Rightarrow> sref \<Rightarrow> unit km" where
  "sym_check_print_recursive stack r =
     kbind (ksym r) (\<lambda>s.
     kbind (if sym_is_choice_value s then kbind (choice_of r) (\<lambda>c. kret (new_frame r # stack, c)) else kret (stack, r))
       (\<lambda>(stack', target). kmod (\<lambda>st. st\<lparr>ks_warnings := ks_warnings st @ recursive_lines (sym_at st) stack' target\<rparr>)))"

section \<open>The search\<close>

text \<open>
  The helpers take the recursive call as \<open>rec\<close>. A result \<open>Some y\<close> is the symbol at which the recursion was found.
\<close>

definition or_else :: "sref option km \<Rightarrow> sref option km \<Rightarrow> sref option km" where
  "or_else m m' = kbind m (\<lambda>x. case x of Some y \<Rightarrow> kret (Some y) | None \<Rightarrow> m')"

fun sym_check_expr_deps :: "(sref \<Rightarrow> sref option km) \<Rightarrow> expr \<Rightarrow> sref option km" where
  "sym_check_expr_deps rec (E_OR l r) = or_else (sym_check_expr_deps rec l) (sym_check_expr_deps rec r)"
| "sym_check_expr_deps rec (E_AND l r) = or_else (sym_check_expr_deps rec l) (sym_check_expr_deps rec r)"
| "sym_check_expr_deps rec (E_NOT e) = sym_check_expr_deps rec e"
| "sym_check_expr_deps rec (E_EQUAL a b) = or_else (rec a) (rec b)"
| "sym_check_expr_deps rec (E_UNEQUAL a b) = or_else (rec a) (rec b)"
| "sym_check_expr_deps rec (E_SYMBOL s) = rec s"

definition check_opt :: "(sref \<Rightarrow> sref option km) \<Rightarrow> expr option \<Rightarrow> sref option km" where
  "check_opt rec e = (case e of None \<Rightarrow> kret None | Some x \<Rightarrow> sym_check_expr_deps rec x)"

text \<open>A list or a range is not followed, there is only a message on standard output.\<close>

definition check_value :: "(sref \<Rightarrow> sref option km) \<Rightarrow> pexpr option \<Rightarrow> sref option km" where
  "check_value rec e = (case e of Some (PExpr x) \<Rightarrow> sym_check_expr_deps rec x | _ \<Rightarrow> kret None)"

fun check_props ::
  "(dep_stack list \<Rightarrow> sref \<Rightarrow> sref option km) \<Rightarrow> dep_stack list \<Rightarrow> sref \<Rightarrow> bool \<Rightarrow> property list \<Rightarrow> sref option km" where
  "check_props rec stack r choice [] = kret None"
| "check_props rec stack r choice (p # ps) =
     (if p_kind p = P_CHOICE \<or> p_kind p = P_SELECT then check_props rec stack r choice ps
      else
        or_else (check_opt (rec ((new_frame r)\<lparr>d_prop := Some p\<rparr> # stack)) (p_vis_expr p))
        (or_else
          (if p_kind p \<noteq> P_DEFAULT \<or> choice then kret None
           else check_value (rec ((new_frame r)\<lparr>d_prop := Some p, d_expr := True\<rparr> # stack)) (p_expr p))
          (check_props rec stack r choice ps)))"

definition sym_check_sym_deps ::
  "(dep_stack list \<Rightarrow> sref \<Rightarrow> sref option km) \<Rightarrow> dep_stack list \<Rightarrow> sref \<Rightarrow> sref option km" where
  "sym_check_sym_deps rec stack r =
     kbind (ksym r) (\<lambda>s.
       or_else (check_opt (rec (new_frame r # stack)) (s_rev_expr s))
               (check_props rec stack r (sym_is_choice s) (s_prop s)))"

fun check_members :: "(sref \<Rightarrow> sref option km) \<Rightarrow> sref list \<Rightarrow> sref option km" where
  "check_members chk [] = kret None"
| "check_members chk (v # vs) = or_else (chk v) (check_members chk vs)"

text \<open>A recursion found at a value of the choice counts as found at the choice.\<close>

definition as_choice :: "sref \<Rightarrow> sref option \<Rightarrow> sref option km" where
  "as_choice c x =
     (case x of
        None \<Rightarrow> kret None
      | Some y \<Rightarrow>
          kbind (ksym y) (\<lambda>s.
            if \<not> sym_is_choice_value s then kret x
            else kbind (choice_of y) (\<lambda>d. kret (if d = c then Some c else x))))"

definition sym_check_choice_deps ::
  "(dep_stack list \<Rightarrow> sref \<Rightarrow> sref option km) \<Rightarrow> dep_stack list \<Rightarrow> sref \<Rightarrow> sref option km" where
  "sym_check_choice_deps rec stack c =
     (let stack' = new_frame c # stack in
      kbind (choice_values c) (\<lambda>vs.
      kseq (kfor vs (\<lambda>v. kupd v (set_flag (SYMBOL_CHECK OR SYMBOL_CHECKED))))
      (kseq (kupd c (set_flag (SYMBOL_CHECK OR SYMBOL_CHECKED)))
      (kbind (sym_check_sym_deps rec stack' c) (\<lambda>x.
       kseq (kupd c (clear_flag SYMBOL_CHECK))
       (kbind (or_else (kret x) (check_members (sym_check_sym_deps rec stack') vs)) (\<lambda>x'.
        kseq (kfor vs (\<lambda>v. kupd v (clear_flag SYMBOL_CHECK))) (as_choice c x'))))))))"

fun sym_check_deps :: "nat \<Rightarrow> dep_stack list \<Rightarrow> sref \<Rightarrow> sref option km" where
  "sym_check_deps 0 stack r = (\<lambda>st. NoFuel)"
| "sym_check_deps (Suc n) stack r =
     kbind (ksym r) (\<lambda>s.
       if has_flag SYMBOL_CHECK s then kseq (sym_check_print_recursive stack r) (kret (Some r))
       else if has_flag SYMBOL_CHECKED s then kret None
       else
         kbind (if sym_is_choice_value s
                then kbind (choice_of r) (\<lambda>c. sym_check_deps n (new_frame r # stack) c)
                else if sym_is_choice s then sym_check_choice_deps (sym_check_deps n) stack r
                else kseq (kupd r (set_flag (SYMBOL_CHECK OR SYMBOL_CHECKED)))
                     (kbind (sym_check_sym_deps (sym_check_deps n) stack r) (\<lambda>x.
                      kseq (kupd r (clear_flag SYMBOL_CHECK)) (kret x))))
           (\<lambda>x. kret (if x = Some r then None else x)))"

text \<open>The loop at the end of \<open>conf_parse\<close>, with the number of errors it counts.\<close>

definition unmarked :: "kst \<Rightarrow> nat" where
  "unmarked st = length (filter (\<lambda>s. \<not> has_flag SYMBOL_CHECKED s) (ks_syms st))"

definition check_symbol_deps :: "sref \<Rightarrow> sref option km" where
  "check_symbol_deps r = (\<lambda>st. sym_check_deps (2 * unmarked st + 2) [] r st)"

fun count_recursive :: "sref list \<Rightarrow> nat \<Rightarrow> nat km" where
  "count_recursive [] n = kret n"
| "count_recursive (r # rs) n = kbind (check_symbol_deps r) (\<lambda>x. count_recursive rs (if x = None then n else n + 1))"

definition check_all_deps :: "nat km" where
  "check_all_deps = kbind (kget all_symbols) (\<lambda>rs. count_recursive rs 0)"

end
