(* ===== verification/KCheckFacts.thy ===== *)
theory KCheckFacts
  imports KCheck
begin

text \<open>
  The search for recursive dependencies is a depth-first search over the symbols a symbol depends on, with
  the values of a choice visited together with it: \<open>SYMBOL_CHECK\<close> marks what is being visited,
  \<open>SYMBOL_CHECKED\<close> what has been reached. It always ends, a search that reports nothing has seen
  an acyclic graph, and no search ever returns a symbol to \<open>conf_parse\<close>.
\<close>

section \<open>What a symbol depends on\<close>

fun expr_refs :: "expr \<Rightarrow> sref list" where
  "expr_refs (E_OR l r) = expr_refs l @ expr_refs r"
| "expr_refs (E_AND l r) = expr_refs l @ expr_refs r"
| "expr_refs (E_NOT e) = expr_refs e"
| "expr_refs (E_EQUAL a b) = [a, b]"
| "expr_refs (E_UNEQUAL a b) = [a, b]"
| "expr_refs (E_SYMBOL s) = [s]"

definition opt_refs :: "expr option \<Rightarrow> sref list" where
  "opt_refs e = (case e of None \<Rightarrow> [] | Some x \<Rightarrow> expr_refs x)"

definition value_refs :: "pexpr option \<Rightarrow> sref list" where
  "value_refs e = (case e of Some (PExpr x) \<Rightarrow> expr_refs x | _ \<Rightarrow> [])"

definition prop_refs :: "bool \<Rightarrow> property \<Rightarrow> sref list" where
  "prop_refs choice p =
     (if p_kind p = P_CHOICE \<or> p_kind p = P_SELECT then []
      else opt_refs (p_vis_expr p) @ (if p_kind p \<noteq> P_DEFAULT \<or> choice then [] else value_refs (p_expr p)))"

definition dep_refs :: "symbol \<Rightarrow> sref list" where
  "dep_refs s = opt_refs (s_rev_expr s) @ concat (map (prop_refs (sym_is_choice s)) (s_prop s))"

text \<open>The values of a choice and the choice of a value.\<close>

definition members :: "symbol \<Rightarrow> sref list" where
  "members s = (case sym_get_choice_prop s of None \<Rightarrow> [] | Some p \<Rightarrow> choice_list p)"

definition owner :: "symbol \<Rightarrow> sref option" where
  "owner s = Option.bind (sym_get_choice_prop s) prop_get_symbol"

definition in_table :: "kst \<Rightarrow> sref \<Rightarrow> bool" where "in_table st r \<longleftrightarrow> sref_idx r < length (ks_syms st)"

text \<open>What the parser and \<open>menu_finalize\<close> build: references lead to symbols, choices and values to each other.\<close>

definition wf_choice :: "kst \<Rightarrow> sref \<Rightarrow> bool" where
  "wf_choice st r \<longleftrightarrow> \<not> sym_is_choice_value (sym_at st r) \<and> sym_get_choice_prop (sym_at st r) \<noteq> None \<and>
     (\<forall>v \<in> set (members (sym_at st r)). in_table st v \<and> sym_is_choice_value (sym_at st v) \<and> owner (sym_at st v) = Some r)"

definition wf_value :: "kst \<Rightarrow> sref \<Rightarrow> bool" where
  "wf_value st r \<longleftrightarrow>
     (case owner (sym_at st r) of
        None \<Rightarrow> False
      | Some c \<Rightarrow> in_table st c \<and> sym_is_choice (sym_at st c) \<and> r \<in> set (members (sym_at st c)))"

definition wf_symbol :: "kst \<Rightarrow> sref \<Rightarrow> bool" where
  "wf_symbol st r \<longleftrightarrow> list_all (in_table st) (dep_refs (sym_at st r)) \<and>
     (sym_is_choice (sym_at st r) \<longrightarrow> wf_choice st r) \<and> (sym_is_choice_value (sym_at st r) \<longrightarrow> wf_value st r)"

definition check_wf :: "kst \<Rightarrow> bool" where
  "check_wf st \<longleftrightarrow> list_all (\<lambda>i. wf_symbol st (sref_of i)) [0..<length (ks_syms st)]"

definition gray :: "kst \<Rightarrow> sref \<Rightarrow> bool" where "gray st r \<longleftrightarrow> has_flag SYMBOL_CHECK (sym_at st r)"
definition seen :: "kst \<Rightarrow> sref \<Rightarrow> bool" where "seen st r \<longleftrightarrow> has_flag SYMBOL_CHECKED (sym_at st r)"

text \<open>The search changes nothing but the two flags and the messages.\<close>

definition same_syms :: "kst \<Rightarrow> kst \<Rightarrow> bool" where
  "same_syms D st \<longleftrightarrow> length (ks_syms st) = length (ks_syms D) \<and>
     (\<forall>r. s_prop (sym_at st r) = s_prop (sym_at D r) \<and> s_rev_expr (sym_at st r) = s_rev_expr (sym_at D r) \<and>
          sym_is_choice (sym_at st r) = sym_is_choice (sym_at D r) \<and>
          sym_is_choice_value (sym_at st r) = sym_is_choice_value (sym_at D r))"

definition sync :: "kst \<Rightarrow> bool" where
  "sync st \<longleftrightarrow> (\<forall>r. gray st r \<longrightarrow> seen st r) \<and>
     (\<forall>c v. sym_is_choice (sym_at st c) \<longrightarrow> v \<in> set (members (sym_at st c)) \<longrightarrow> seen st v = seen st c)"

lemma same_syms_refl [simp]: "same_syms D D"
  by (simp add: same_syms_def)

lemma same_syms_trans: "same_syms D st \<Longrightarrow> same_syms st st' \<Longrightarrow> same_syms D st'"
  by (simp add: same_syms_def)

lemma same_derived:
  assumes "same_syms D st"
  shows "dep_refs (sym_at st r) = dep_refs (sym_at D r)" "members (sym_at st r) = members (sym_at D r)"
    "owner (sym_at st r) = owner (sym_at D r)" "in_table st = in_table D"
    "sym_is_choice (sym_at st r) = sym_is_choice (sym_at D r)"
    "sym_is_choice_value (sym_at st r) = sym_is_choice_value (sym_at D r)"
    "sym_get_choice_prop (sym_at st r) = sym_get_choice_prop (sym_at D r)"
  using assms by (auto simp: same_syms_def dep_refs_def members_def owner_def sym_get_choice_prop_def in_table_def)

lemma outside: "\<not> in_table st r \<Longrightarrow> sym_at st r = symbol_empty"
  by (simp add: in_table_def sym_at_def)

lemma empty_plain [simp]:
  "\<not> sym_is_choice symbol_empty" "\<not> sym_is_choice_value symbol_empty" "dep_refs symbol_empty = []"
  "\<not> has_flag SYMBOL_CHECK symbol_empty" "\<not> has_flag SYMBOL_CHECKED symbol_empty"
  by code_simp+

lemma wf_at: "check_wf D \<Longrightarrow> wf_symbol D r"
proof (cases "in_table D r")
  case True
  assume "check_wf D"
  then have "\<forall>i < length (ks_syms D). wf_symbol D (sref_of i)" by (simp add: check_wf_def list_all_iff)
  then have "wf_symbol D (sref_of (sref_idx r))" using True unfolding in_table_def by blast
  then show ?thesis by simp
qed (simp add: wf_symbol_def outside)

lemma wf_refs: "check_wf D \<Longrightarrow> t \<in> set (dep_refs (sym_at D r)) \<Longrightarrow> in_table D t"
  using wf_at [of D r] by (simp add: wf_symbol_def list_all_iff)

lemma wf_choice_at: "check_wf D \<Longrightarrow> sym_is_choice (sym_at D r) \<Longrightarrow> wf_choice D r"
  using wf_at [of D r] by (simp add: wf_symbol_def)

lemma wf_value_at: "check_wf D \<Longrightarrow> sym_is_choice_value (sym_at D r) \<Longrightarrow>
    \<exists>c. owner (sym_at D r) = Some c \<and> in_table D c \<and> sym_is_choice (sym_at D c) \<and> r \<in> set (members (sym_at D c))"
  using wf_at [of D r] by (auto simp: wf_symbol_def wf_value_def split: option.splits)

section \<open>The order in which symbols are finished\<close>

definition finished :: "kst \<Rightarrow> sref \<Rightarrow> bool" where "finished st r \<longleftrightarrow> seen st r \<and> \<not> gray st r"

definition closed_order :: "kst \<Rightarrow> sref list \<Rightarrow> bool" where
  "closed_order D ord \<longleftrightarrow> (\<forall>i < length ord. set (dep_refs (sym_at D (ord ! i))) \<subseteq> set (take i ord))"

definition ordered :: "kst \<Rightarrow> sref list \<Rightarrow> kst \<Rightarrow> bool" where
  "ordered D ord st \<longleftrightarrow> set ord = {r. finished st r} \<and> closed_order D ord"

lemma closed_append:
  assumes "closed_order D xs" "\<And>y. y \<in> set ys \<Longrightarrow> set (dep_refs (sym_at D y)) \<subseteq> set xs"
  shows "closed_order D (xs @ ys)"
proof -
  have "set (dep_refs (sym_at D ((xs @ ys) ! i))) \<subseteq> set (take i (xs @ ys))" if "i < length (xs @ ys)" for i
  proof (cases "i < length xs")
    case True
    then show ?thesis using assms(1) by (auto simp: closed_order_def nth_append)
  next
    case False
    then have "ys ! (i - length xs) \<in> set ys" using that by simp
    from assms(2) [OF this] False show ?thesis by (auto simp: nth_append)
  qed
  then show ?thesis by (simp add: closed_order_def)
qed

lemma ordered_closed:
  assumes "ordered D xs st" "\<forall>y \<in> set ys. \<forall>t \<in> set (dep_refs (sym_at D y)). finished st t"
  shows "closed_order D (xs @ ys)"
  by (rule closed_append) (use assms in \<open>auto simp: ordered_def\<close>)

definition dep_rel :: "kst \<Rightarrow> (sref \<times> sref) set" where
  "dep_rel D = {(r, t). t \<in> set (dep_refs (sym_at D r))}"

lemma closed_paths:
  assumes "closed_order D ord" "(r, t) \<in> (dep_rel D)\<^sup>+"
  shows "i < length ord \<Longrightarrow> ord ! i = r \<Longrightarrow> \<exists>j < i. ord ! j = t"
  using assms(2)
proof (induction arbitrary: i rule: converse_trancl_induct)
  case (base r)
  then have "t \<in> set (take i ord)" using assms(1) by (auto simp: closed_order_def dep_rel_def)
  then show ?case by (auto simp: in_set_conv_nth)
next
  case (step r s)
  then have "s \<in> set (take i ord)" using assms(1) by (auto simp: closed_order_def dep_rel_def)
  then obtain j where "j < i" "j < length ord" "ord ! j = s" by (auto simp: in_set_conv_nth)
  with step.IH show ?case using less_trans by blast
qed

lemma closed_acyclic:
  assumes "closed_order D ord" "r \<in> set ord"
  shows "(r, r) \<notin> (dep_rel D)\<^sup>+"
proof
  assume c: "(r, r) \<in> (dep_rel D)\<^sup>+"
  define i where "i = (LEAST i. i < length ord \<and> ord ! i = r)"
  have "\<exists>i. i < length ord \<and> ord ! i = r" using assms(2) by (auto simp: in_set_conv_nth)
  then have i: "i < length ord" "ord ! i = r" unfolding i_def by (metis (mono_tags, lifting) LeastI_ex)+
  from closed_paths [OF assms(1) c i] obtain j where "j < i" "ord ! j = r" by blast
  then show False using i(1) not_less_Least [of j "\<lambda>i. i < length ord \<and> ord ! i = r"] by (auto simp: i_def)
qed

section \<open>Runs of the search\<close>

definition chk_inv :: "kst \<Rightarrow> kst \<Rightarrow> bool" where "chk_inv D st \<longleftrightarrow> same_syms D st \<and> sync st"

text \<open>
  What a part of the search that visits the symbols \<open>ts\<close> leaves behind: a symbol it returns was being
  visited already, and when it reports nothing, all of \<open>ts\<close> are finished, in order.
\<close>

definition post :: "kst \<Rightarrow> kst \<Rightarrow> sref list \<Rightarrow> sref option \<Rightarrow> kst \<Rightarrow> bool" where
  "post D st ts x st' \<longleftrightarrow>
     chk_inv D st' \<and> gray st' = gray st \<and> (\<forall>r. seen st r \<longrightarrow> seen st' r) \<and> (\<forall>y. x = Some y \<longrightarrow> gray st y) \<and>
     (\<exists>w. ks_warnings st' = ks_warnings st @ w \<and>
        (w = [] \<longrightarrow> x = None \<and> (\<forall>t \<in> set ts. finished st' t) \<and>
           (\<forall>ord. ordered D ord st \<longrightarrow> (\<exists>new. ordered D (ord @ new) st'))))"

definition goes :: "kst \<Rightarrow> sref option km \<Rightarrow> sref list \<Rightarrow> kst \<Rightarrow> bool" where
  "goes D m ts st \<longleftrightarrow> (\<exists>x st'. m st = Ret x st' \<and> post D st ts x st')"

lemma unmarked_card: "unmarked st = card {i. i < length (ks_syms st) \<and> \<not> seen st (sref_of i)}"
  unfolding unmarked_def length_filter_conv_card
  by (rule arg_cong [where f = card]) (auto simp: seen_def sym_at_def)

lemma unmarked_mono:
  "length (ks_syms st') = length (ks_syms st) \<Longrightarrow> (\<And>r. seen st r \<Longrightarrow> seen st' r) \<Longrightarrow> unmarked st' \<le> unmarked st"
  unfolding unmarked_card by (rule card_mono) auto

lemma unmarked_less:
  assumes "length (ks_syms st') = length (ks_syms st)" "\<And>q. seen st q \<Longrightarrow> seen st' q" "in_table st r" "\<not> seen st r" "seen st' r"
  shows "unmarked st' < unmarked st"
proof -
  have "sref_idx r \<in> {i. i < length (ks_syms st) \<and> \<not> seen st (sref_of i)} - {i. i < length (ks_syms st') \<and> \<not> seen st' (sref_of i)}"
    using assms(3-5) by (simp add: in_table_def)
  moreover have "{i. i < length (ks_syms st') \<and> \<not> seen st' (sref_of i)} \<subseteq> {i. i < length (ks_syms st) \<and> \<not> seen st (sref_of i)}"
    using assms(1,2) by auto
  ultimately have "{i. i < length (ks_syms st') \<and> \<not> seen st' (sref_of i)} \<subset> {i. i < length (ks_syms st) \<and> \<not> seen st (sref_of i)}"
    by blast
  then show ?thesis unfolding unmarked_card by (intro psubset_card_mono) auto
qed

lemma unmarked_pos: "in_table st r \<Longrightarrow> \<not> seen st r \<Longrightarrow> unmarked st \<noteq> 0"
proof -
  assume "in_table st r" "\<not> seen st r"
  then have "sref_idx r \<in> {i. i < length (ks_syms st) \<and> \<not> seen st (sref_of i)}" by (simp add: in_table_def)
  then have "{i. i < length (ks_syms st) \<and> \<not> seen st (sref_of i)} \<noteq> {}" by blast
  then show ?thesis unfolding unmarked_card by simp
qed

lemma post_unmarked: "chk_inv D st \<Longrightarrow> post D st ts x st' \<Longrightarrow> unmarked st' \<le> unmarked st"
  by (rule unmarked_mono) (auto simp: post_def chk_inv_def same_syms_def)

lemma post_inv: "post D st ts x st' \<Longrightarrow> chk_inv D st'"
  by (simp add: post_def)

lemma post_Nil: "chk_inv D st \<Longrightarrow> post D st [] None st"
  by (auto simp: post_def intro: exI [of _ "[]"])

lemma post_seq:
  assumes "post D st ts None st1" "post D st1 us x st2"
  shows "post D st (ts @ us) x st2"
proof -
  obtain w1 where w1: "ks_warnings st1 = ks_warnings st @ w1"
    "w1 = [] \<Longrightarrow> (\<forall>t \<in> set ts. finished st1 t) \<and> (\<forall>ord. ordered D ord st \<longrightarrow> (\<exists>new. ordered D (ord @ new) st1))"
    using assms(1) by (auto simp: post_def)
  obtain w2 where w2: "ks_warnings st2 = ks_warnings st1 @ w2"
    "w2 = [] \<Longrightarrow> x = None \<and> (\<forall>t \<in> set us. finished st2 t) \<and> (\<forall>ord. ordered D ord st1 \<longrightarrow> (\<exists>new. ordered D (ord @ new) st2))"
    using assms(2) by (auto simp: post_def)
  have "finished st2 t" if "finished st1 t" for t using that assms(2) by (auto simp: post_def finished_def)
  moreover have "\<exists>new. ordered D (ord @ new) st2" if "w1 = []" "w2 = []" "ordered D ord st" for ord
    using w1(2) w2(2) that by (metis append.assoc)
  ultimately have "\<exists>w. ks_warnings st2 = ks_warnings st @ w \<and>
        (w = [] \<longrightarrow> x = None \<and> (\<forall>t \<in> set (ts @ us). finished st2 t) \<and>
           (\<forall>ord. ordered D ord st \<longrightarrow> (\<exists>new. ordered D (ord @ new) st2)))"
    using w1 w2 by (intro exI [of _ "w1 @ w2"]) auto
  then show ?thesis using assms by (auto simp: post_def)
qed

lemma post_stop: "post D st ts (Some y) st1 \<Longrightarrow> post D st (ts @ us) (Some y) st1"
  unfolding post_def by fastforce

lemma goes_none: "chk_inv D st \<Longrightarrow> goes D (kret None) [] st"
  by (simp add: goes_def kret_def post_Nil)

lemma goes_or_else:
  assumes "chk_inv D st" "goes D m ts st" "\<And>st'. chk_inv D st' \<Longrightarrow> unmarked st' \<le> unmarked st \<Longrightarrow> goes D m' us st'"
  shows "goes D (or_else m m') (ts @ us) st"
proof -
  obtain x st1 where m: "m st = Ret x st1" "post D st ts x st1" using assms(2) by (auto simp: goes_def)
  show ?thesis
  proof (cases x)
    case None
    have "goes D m' us st1" using assms(3) [OF post_inv [OF m(2)] post_unmarked [OF assms(1) m(2)]] .
    then obtain z st2 where "m' st1 = Ret z st2" "post D st1 us z st2" by (auto simp: goes_def)
    with m None show ?thesis by (auto simp: goes_def or_else_def kbind_def intro: post_seq)
  next
    case (Some y)
    with m show ?thesis by (auto simp: goes_def or_else_def kbind_def kret_def intro: post_stop)
  qed
qed

lemma goes_expr:
  assumes "\<And>t st'. t \<in> set (expr_refs e) \<Longrightarrow> chk_inv D st' \<Longrightarrow> unmarked st' \<le> k \<Longrightarrow> goes D (rec t) [t] st'"
    and "chk_inv D st" "unmarked st \<le> k"
  shows "goes D (sym_check_expr_deps rec e) (expr_refs e) st"
  using assms
proof (induction e arbitrary: st)
  case (E_EQUAL a b)
  then have "goes D (or_else (rec a) (rec b)) ([a] @ [b]) st" by (intro goes_or_else) auto
  then show ?case by simp
next
  case (E_UNEQUAL a b)
  then have "goes D (or_else (rec a) (rec b)) ([a] @ [b]) st" by (intro goes_or_else) auto
  then show ?case by simp
qed (auto intro!: goes_or_else)

text \<open>The helpers of the search, when the recursive call goes well on every symbol of the table.\<close>

definition rec_goes :: "kst \<Rightarrow> nat \<Rightarrow> (sref \<Rightarrow> sref option km) \<Rightarrow> bool" where
  "rec_goes D k rec \<longleftrightarrow> (\<forall>t st. in_table D t \<longrightarrow> chk_inv D st \<longrightarrow> unmarked st \<le> k \<longrightarrow> goes D (rec t) [t] st)"

lemma goes_opt:
  "rec_goes D k rec \<Longrightarrow> list_all (in_table D) (opt_refs e) \<Longrightarrow> chk_inv D st \<Longrightarrow> unmarked st \<le> k \<Longrightarrow>
     goes D (check_opt rec e) (opt_refs e) st"
  by (cases e) (auto simp: check_opt_def opt_refs_def rec_goes_def list_all_iff intro: goes_none goes_expr)

lemma goes_value:
  "rec_goes D k rec \<Longrightarrow> list_all (in_table D) (value_refs e) \<Longrightarrow> chk_inv D st \<Longrightarrow> unmarked st \<le> k \<Longrightarrow>
     goes D (check_value rec e) (value_refs e) st"
  by (auto simp: check_value_def value_refs_def rec_goes_def list_all_iff intro: goes_none goes_expr
      split: option.splits pexpr.splits)

lemma goes_props:
  assumes "\<And>stk. rec_goes D k (rec stk)" "list_all (in_table D) (concat (map (prop_refs ch) ps))" "chk_inv D st" "unmarked st \<le> k"
  shows "goes D (check_props rec stack r ch ps) (concat (map (prop_refs ch) ps)) st"
  using assms(2-)
proof (induction ps arbitrary: st)
  case (Cons p ps)
  show ?case
  proof (cases "p_kind p = P_CHOICE \<or> p_kind p = P_SELECT")
    case True
    then show ?thesis using Cons by (simp add: prop_refs_def)
  next
    case False
    let ?v = "if p_kind p \<noteq> P_DEFAULT \<or> ch then [] else value_refs (p_expr p)"
    have "list_all (in_table D) (prop_refs ch p)" and ps: "list_all (in_table D) (concat (map (prop_refs ch) ps))"
      using Cons.prems(1) by simp_all
    then have t: "list_all (in_table D) (opt_refs (p_vis_expr p))" "list_all (in_table D) ?v"
      using False by (simp_all add: prop_refs_def)
    let ?m = "if p_kind p \<noteq> P_DEFAULT \<or> ch then kret None
        else check_value (rec ((new_frame r)\<lparr>d_prop := Some p, d_expr := True\<rparr> # stack)) (p_expr p)"
    have m: "goes D ?m ?v st'" if "chk_inv D st'" "unmarked st' \<le> k" for st'
      using t(2) that goes_value [OF assms(1)] by (auto intro: goes_none)
    have rest: "goes D (or_else ?m (check_props rec stack r ch ps)) (?v @ concat (map (prop_refs ch) ps)) st'"
      if "chk_inv D st'" "unmarked st' \<le> unmarked st" for st'
      by (rule goes_or_else [OF that(1) m]) (use that Cons.prems(3) Cons.IH [OF ps] in auto)
    have "goes D (or_else (check_opt (rec ((new_frame r)\<lparr>d_prop := Some p\<rparr> # stack)) (p_vis_expr p))
        (or_else ?m (check_props rec stack r ch ps))) (opt_refs (p_vis_expr p) @ ?v @ concat (map (prop_refs ch) ps)) st"
      by (rule goes_or_else [OF Cons.prems(2) goes_opt [OF assms(1) t(1) Cons.prems(2,3)] rest])
    then show ?thesis using False by (cases "p_kind p \<noteq> P_DEFAULT \<or> ch") (auto simp: prop_refs_def [of _ p])
  qed
qed (simp add: goes_none)

lemma goes_sym:
  assumes "\<And>stk. rec_goes D k (rec stk)" "check_wf D" "chk_inv D st" "unmarked st \<le> k"
  shows "goes D (sym_check_sym_deps rec stack r) (dep_refs (sym_at D r)) st"
proof -
  have s: "s_rev_expr (sym_at st r) = s_rev_expr (sym_at D r)" "s_prop (sym_at st r) = s_prop (sym_at D r)"
    "sym_is_choice (sym_at st r) = sym_is_choice (sym_at D r)"
    using assms(3) by (auto simp: chk_inv_def same_syms_def)
  have "list_all (in_table D) (dep_refs (sym_at D r))" using wf_refs [OF assms(2)] by (simp add: list_all_iff)
  then have "goes D (or_else (check_opt (rec (new_frame r # stack)) (s_rev_expr (sym_at D r)))
      (check_props rec stack r (sym_is_choice (sym_at D r)) (s_prop (sym_at D r)))) (dep_refs (sym_at D r)) st"
    using assms unfolding dep_refs_def by (auto intro!: goes_or_else goes_opt goes_props)
  then show ?thesis by (simp add: sym_check_sym_deps_def goes_def kbind_def ksym_def kget_def s)
qed

lemma goes_members:
  assumes "\<And>stk. rec_goes D k (rec stk)" "check_wf D" "chk_inv D st" "unmarked st \<le> k"
  shows "goes D (check_members (sym_check_sym_deps rec stack) vs) (concat (map (\<lambda>v. dep_refs (sym_at D v)) vs)) st"
  using assms(3,4)
proof (induction vs arbitrary: st)
  case (Cons v vs)
  then show ?case using assms(1,2) by (auto intro!: goes_or_else goes_sym)
qed (simp add: goes_none)

section \<open>Marking\<close>

definition mark_all :: "sref list \<Rightarrow> kst \<Rightarrow> kst" where
  "mark_all vs st = fold (\<lambda>v. sym_upd v (set_flag (SYMBOL_CHECK OR SYMBOL_CHECKED))) vs st"

definition clear_all :: "sref list \<Rightarrow> kst \<Rightarrow> kst" where
  "clear_all vs st = fold (\<lambda>v. sym_upd v (clear_flag SYMBOL_CHECK)) vs st"

lemma kfor_upd: "kfor vs (\<lambda>v. kupd v f) st = Ret () (fold (\<lambda>v. sym_upd v f) vs st)"
  by (induction vs arbitrary: st) (auto simp: kret_def kseq_def kbind_def kupd_def kmod_def)

lemma kbind_run: "m st = Ret x st' \<Longrightarrow> kbind m f st = f x st'"
  by (simp add: kbind_def)

lemma run_upd:
  "kseq (kupd v f) m st = m (sym_upd v f st)"
  "kseq (kfor vs (\<lambda>v. kupd v f)) m st = m (fold (\<lambda>v. sym_upd v f) vs st)"
  by (simp_all add: kseq_def kbind_def kfor_upd) (simp add: kupd_def kmod_def)

lemma mark_flags [simp]:
  "sym_is_choice (set_flag (SYMBOL_CHECK OR SYMBOL_CHECKED) s) = sym_is_choice s"
  "sym_is_choice_value (set_flag (SYMBOL_CHECK OR SYMBOL_CHECKED) s) = sym_is_choice_value s"
  "has_flag SYMBOL_CHECK (set_flag (SYMBOL_CHECK OR SYMBOL_CHECKED) s)"
  "has_flag SYMBOL_CHECKED (set_flag (SYMBOL_CHECK OR SYMBOL_CHECKED) s)"
  by (simp_all add: sym_is_choice_def sym_is_choice_value_def has_set_flag flag_defs)

lemma clear_flags [simp]:
  "sym_is_choice (clear_flag SYMBOL_CHECK s) = sym_is_choice s"
  "sym_is_choice_value (clear_flag SYMBOL_CHECK s) = sym_is_choice_value s"
  "has_flag SYMBOL_CHECKED (clear_flag SYMBOL_CHECK s) = has_flag SYMBOL_CHECKED s"
  "\<not> has_flag SYMBOL_CHECK (clear_flag SYMBOL_CHECK s)"
proof -
  have "SYMBOL_CHOICE AND SYMBOL_CHECK = 0" "SYMBOL_CHOICEVAL AND SYMBOL_CHECK = 0" "SYMBOL_CHECKED AND SYMBOL_CHECK = 0"
    by (simp_all add: flag_defs)
  then show "sym_is_choice (clear_flag SYMBOL_CHECK s) = sym_is_choice s"
    "sym_is_choice_value (clear_flag SYMBOL_CHECK s) = sym_is_choice_value s"
    "has_flag SYMBOL_CHECKED (clear_flag SYMBOL_CHECK s) = has_flag SYMBOL_CHECKED s"
    by (simp_all add: sym_is_choice_def sym_is_choice_value_def has_clear_flag)
  have "\<not> bit ((s_flags s AND NOT SYMBOL_CHECK) AND SYMBOL_CHECK) n" for n
    by (auto simp: bit_simps)
  then have "(s_flags s AND NOT SYMBOL_CHECK) AND SYMBOL_CHECK = 0" by (intro bit_word_eqI) simp
  then show "\<not> has_flag SYMBOL_CHECK (clear_flag SYMBOL_CHECK s)"
    by (simp add: has_flag_def clear_flag_def)
qed

lemma flag_fields [simp]:
  "s_prop (set_flag f s) = s_prop s" "s_rev_expr (set_flag f s) = s_rev_expr s"
  "s_prop (clear_flag f s) = s_prop s" "s_rev_expr (clear_flag f s) = s_rev_expr s"
  by (simp_all add: set_flag_def clear_flag_def)

lemma warnings_upd [simp]: "ks_warnings (sym_upd r f st) = ks_warnings st"
  by (simp add: sym_upd_def)

lemma mark_one:
  "same_syms st (sym_upd v (set_flag (SYMBOL_CHECK OR SYMBOL_CHECKED)) st)"
  "gray (sym_upd v (set_flag (SYMBOL_CHECK OR SYMBOL_CHECKED)) st) r \<longleftrightarrow> gray st r \<or> r = v \<and> in_table st v"
  "seen (sym_upd v (set_flag (SYMBOL_CHECK OR SYMBOL_CHECKED)) st) r \<longleftrightarrow> seen st r \<or> r = v \<and> in_table st v"
  by (auto simp: same_syms_def gray_def seen_def in_table_def)

lemma clear_one:
  "same_syms st (sym_upd v (clear_flag SYMBOL_CHECK) st)"
  "gray (sym_upd v (clear_flag SYMBOL_CHECK) st) r \<longleftrightarrow> gray st r \<and> r \<noteq> v"
  "seen (sym_upd v (clear_flag SYMBOL_CHECK) st) r \<longleftrightarrow> seen st r"
  using outside [of st v] by (auto simp: same_syms_def gray_def seen_def in_table_def)

lemma mark_all:
  "same_syms st (mark_all vs st) \<and> ks_warnings (mark_all vs st) = ks_warnings st \<and>
     (\<forall>q. gray (mark_all vs st) q \<longleftrightarrow> gray st q \<or> q \<in> set vs \<and> in_table st q) \<and>
     (\<forall>q. seen (mark_all vs st) q \<longleftrightarrow> seen st q \<or> q \<in> set vs \<and> in_table st q)"
proof (induction vs arbitrary: st)
  case (Cons v vs)
  let ?st = "sym_upd v (set_flag (SYMBOL_CHECK OR SYMBOL_CHECKED)) st"
  have "in_table ?st = in_table st" by (rule ext) (simp add: in_table_def)
  then show ?case using Cons [of ?st] mark_one [where st = st and v = v]
    by (auto simp: mark_all_def intro: same_syms_trans)
qed (simp add: mark_all_def)

lemma clear_all:
  "same_syms st (clear_all vs st) \<and> ks_warnings (clear_all vs st) = ks_warnings st \<and>
     (\<forall>r. gray (clear_all vs st) r \<longleftrightarrow> gray st r \<and> r \<notin> set vs) \<and> seen (clear_all vs st) = seen st"
proof (induction vs arbitrary: st)
  case (Cons v vs)
  let ?st = "sym_upd v (clear_flag SYMBOL_CHECK) st"
  have e: "seen ?st = seen st" by (rule ext) (simp add: clear_one(3))
  have "clear_all (v # vs) st = clear_all vs ?st" by (simp add: clear_all_def)
  then show ?case using Cons [of ?st] clear_one(1) [of st v] clear_one(2) [of v st]
    by (simp add: e) (blast intro: same_syms_trans)
qed (simp add: clear_all_def)

section \<open>Visiting a group\<close>

text \<open>A group is a choice with its values, or a single symbol.\<close>

definition group :: "kst \<Rightarrow> sref list \<Rightarrow> bool" where
  "group D gs \<longleftrightarrow> (\<forall>c v. sym_is_choice (sym_at D c) \<longrightarrow> v \<in> set (members (sym_at D c)) \<longrightarrow> (v \<in> set gs \<longleftrightarrow> c \<in> set gs))"

lemma mark_inv:
  assumes "chk_inv D st" "group D gs" "list_all (in_table D) gs"
  shows "chk_inv D (mark_all gs st)"
proof -
  let ?st = "mark_all gs st"
  have D: "same_syms D st" using assms(1) by (simp add: chk_inv_def)
  then have D': "same_syms D ?st" using mark_all [of st gs] same_syms_trans by blast
  have tab: "in_table st = in_table D" using same_derived(4) [OF D] .
  have seen: "seen ?st q \<longleftrightarrow> seen st q \<or> q \<in> set gs" for q
    using mark_all [of st gs] assms(3) tab by (auto simp: list_all_iff)
  have "seen ?st v = seen ?st c" if "sym_is_choice (sym_at ?st c)" "v \<in> set (members (sym_at ?st c))" for c v
  proof -
    have c: "sym_is_choice (sym_at D c)" "v \<in> set (members (sym_at D c))" using that same_derived [OF D'] by auto
    then have "seen st v = seen st c" using assms(1) same_derived [OF D] by (auto simp: chk_inv_def sync_def)
    with c assms(2) seen show ?thesis by (auto simp: group_def)
  qed
  moreover have "gray ?st r \<Longrightarrow> seen ?st r" for r
    using mark_all [of st gs] assms(1) by (auto simp: chk_inv_def sync_def)
  ultimately show ?thesis using D' by (simp add: chk_inv_def sync_def)
qed

lemma clear_inv:
  assumes "chk_inv D st"
  shows "chk_inv D (clear_all gs st)"
proof -
  have D: "same_syms D st" and s: "sync st" using assms by (simp_all add: chk_inv_def)
  have c: "same_syms st (clear_all gs st)" "seen (clear_all gs st) = seen st"
    "\<And>r. gray (clear_all gs st) r \<Longrightarrow> gray st r" using clear_all [of st gs] by auto
  have "sync (clear_all gs st)" using s c(2,3) same_derived [OF c(1)] by (simp add: sync_def)
  then show ?thesis using same_syms_trans [OF D c(1)] by (simp add: chk_inv_def)
qed

lemma visit_done:
  assumes wf: "check_wf D" and i: "chk_inv D st" and tab: "list_all (in_table D) (gs @ [c])"
    and fresh: "\<forall>v \<in> set (gs @ [c]). \<not> seen st v" and c: "c \<notin> set gs"
    and p1: "post D (mark_all (gs @ [c]) st) (dep_refs (sym_at D c)) x st2"
    and p2: "if x = None then post D (clear_all [c] st2) (concat (map (\<lambda>v. dep_refs (sym_at D v)) gs)) x' st4
             else x' = x \<and> st4 = clear_all [c] st2"
  shows "chk_inv D (clear_all gs st4) \<and> gray (clear_all gs st4) = gray st \<and> (\<forall>r. seen st r \<longrightarrow> seen (clear_all gs st4) r) \<and>
     (\<forall>y. x' = Some y \<longrightarrow> gray st y \<or> y \<in> set (gs @ [c])) \<and>
     (\<exists>w. ks_warnings (clear_all gs st4) = ks_warnings st @ w \<and>
        (w = [] \<longrightarrow> x' = None \<and> (\<forall>t \<in> set (gs @ [c]). finished (clear_all gs st4) t) \<and>
           (\<forall>ord. ordered D ord st \<longrightarrow> (\<exists>new. ordered D (ord @ new) (clear_all gs st4)))))"
proof -
  define st1 where "st1 = mark_all (gs @ [c]) st"
  define st3 where "st3 = clear_all [c] st2"
  define st5 where "st5 = clear_all gs st4"
  note p1 = p1 [folded st1_def] and p2 = p2 [folded st3_def]
  have "in_table st = in_table D" using i same_derived(4) by (auto simp: chk_inv_def)
  then have m: "gray st1 q \<longleftrightarrow> gray st q \<or> q \<in> set (gs @ [c])" "seen st1 q \<longleftrightarrow> seen st q \<or> q \<in> set (gs @ [c])"
    "ks_warnings st1 = ks_warnings st" for q
    using mark_all [of st "gs @ [c]"] tab by (auto simp: st1_def list_all_iff)
  have notgray: "\<not> gray st v" if "v \<in> set (gs @ [c])" for v using that fresh i by (auto simp: chk_inv_def sync_def)
  have g2: "gray st2 = gray st1" "\<And>q. seen st1 q \<Longrightarrow> seen st2 q" using p1 by (auto simp: post_def)
  have s3: "gray st3 q \<longleftrightarrow> gray st2 q \<and> q \<noteq> c" "seen st3 = seen st2" "ks_warnings st3 = ks_warnings st2" for q
    using clear_all [of st2 "[c]"] by (auto simp: st3_def)
  have g4: "gray st4 = gray st3" "\<And>q. seen st3 q \<Longrightarrow> seen st4 q" "chk_inv D st4"
    using p2 clear_inv [OF post_inv [OF p1], of "[c]"] by (auto simp: post_def st3_def split: if_splits)
  have s5: "gray st5 q \<longleftrightarrow> gray st4 q \<and> q \<notin> set gs" "seen st5 = seen st4" "ks_warnings st5 = ks_warnings st4" for q
    using clear_all [of st4 gs] by (auto simp: st5_def)
  have gray5: "gray st5 = gray st" using notgray by (auto simp: fun_eq_iff s5(1) g4(1) s3(1) g2(1) m(1))
  have seen5: "seen st5 q" if "seen st q \<or> q \<in> set (gs @ [c])" for q
    using that m(2) g2(2) s3(2) g4(2) s5(2) by (metis (full_types))
  have y: "gray st y \<or> y \<in> set (gs @ [c])" if "x' = Some y" for y
  proof (cases x)
    case None
    then have "gray st3 y" using that p2 by (simp add: post_def)
    then show ?thesis by (auto simp: s3(1) g2(1) m(1))
  next
    case (Some z)
    then have "gray st1 y" using that p1 p2 by (simp add: post_def)
    then show ?thesis by (simp add: m(1))
  qed
  obtain w1 where w1: "ks_warnings st2 = ks_warnings st @ w1"
    "w1 = [] \<Longrightarrow> x = None \<and> (\<forall>t \<in> set (dep_refs (sym_at D c)). finished st2 t) \<and>
       (\<forall>ord. ordered D ord st1 \<longrightarrow> (\<exists>new. ordered D (ord @ new) st2))"
    using p1 m(3) by (auto simp: post_def)
  obtain w2 where w2: "ks_warnings st4 = ks_warnings st3 @ w2"
    "w2 = [] \<Longrightarrow> x = None \<Longrightarrow> x' = None \<and> (\<forall>v \<in> set gs. \<forall>t \<in> set (dep_refs (sym_at D v)). finished st4 t) \<and>
       (\<forall>ord. ordered D ord st3 \<longrightarrow> (\<exists>new. ordered D (ord @ new) st4))"
    using p2 by (cases x) (auto simp: post_def)
  have fin1: "finished st1 = finished st" using fresh by (auto simp: fun_eq_iff finished_def m)
  have fin3: "finished st3 q \<longleftrightarrow> finished st2 q \<or> q = c" for q
    using g2 m(2) [of c] by (auto simp: finished_def s3)
  have fin5: "finished st5 q \<longleftrightarrow> finished st4 q \<or> q \<in> set gs" for q
    using seen5 [of q] by (auto simp: finished_def s5)
  have ext: "\<exists>new. ordered D (ord @ new) st5" if z: "w1 = []" "w2 = []" "ordered D ord st" for ord
  proof -
    have "ordered D ord st1" using z(3) by (simp add: ordered_def fin1)
    then obtain n1 where n1: "ordered D (ord @ n1) st2" using w1(2) [OF z(1)] by blast
    then have "closed_order D ((ord @ n1) @ [c])"
      by (rule ordered_closed) (use w1(2) [OF z(1)] in simp)
    then have "ordered D (ord @ n1 @ [c]) st3" using n1 by (auto simp: ordered_def fin3)
    then obtain n2 where n2: "ordered D ((ord @ n1 @ [c]) @ n2) st4" using w1(2) [OF z(1)] w2(2) [OF z(2)] by blast
    then have "closed_order D (((ord @ n1 @ [c]) @ n2) @ gs)"
      by (rule ordered_closed) (use w1(2) [OF z(1)] w2(2) [OF z(2)] in simp)
    then have "ordered D (ord @ n1 @ [c] @ n2 @ gs) st5" using n2 by (auto simp: ordered_def fin5)
    then show ?thesis by blast
  qed
  have fin: "finished st5 t" if "t \<in> set (gs @ [c])" for t
    using seen5 [of t] notgray [OF that] that by (simp add: finished_def gray5)
  have "ks_warnings st5 = ks_warnings st @ (w1 @ w2)" by (simp add: s5(3) w2(1) s3(3) w1(1))
  moreover have "w1 @ w2 = [] \<longrightarrow> x' = None \<and> (\<forall>t \<in> set (gs @ [c]). finished st5 t) \<and>
      (\<forall>ord. ordered D ord st \<longrightarrow> (\<exists>new. ordered D (ord @ new) st5))"
    using w1(2) w2(2) ext fin by auto
  moreover have "chk_inv D st5" unfolding st5_def by (rule clear_inv [OF g4(3)])
  ultimately show ?thesis using gray5 seen5 y unfolding st5_def [symmetric] by blast
qed

section \<open>The search goes well\<close>

lemma warned_frame [simp]:
  "sym_at (st\<lparr>ks_warnings := l\<rparr>) = sym_at st" "ks_syms (st\<lparr>ks_warnings := l\<rparr>) = ks_syms st"
  by (rule ext) (simp_all add: sym_at_def)

lemma warned_inv [simp]:
  "chk_inv D (st\<lparr>ks_warnings := l\<rparr>) = chk_inv D st" "gray (st\<lparr>ks_warnings := l\<rparr>) = gray st"
  "seen (st\<lparr>ks_warnings := l\<rparr>) = seen st"
proof -
  show g: "gray (st\<lparr>ks_warnings := l\<rparr>) = gray st" and s: "seen (st\<lparr>ks_warnings := l\<rparr>) = seen st"
    by (simp_all add: fun_eq_iff gray_def seen_def)
  show "chk_inv D (st\<lparr>ks_warnings := l\<rparr>) = chk_inv D st" by (simp add: chk_inv_def same_syms_def sync_def g s)
qed

lemma choice_of_at: "owner (sym_at st r) = Some c \<Longrightarrow> choice_of r st = Ret c st"
  by (auto simp: owner_def choice_of_def kbind_def ksym_def kget_def kret_def bind_eq_Some_conv)

lemma choice_values_at: "sym_get_choice_prop (sym_at st c) \<noteq> None \<Longrightarrow> choice_values c st = Ret (members (sym_at st c)) st"
  by (auto simp: members_def choice_values_def kbind_def ksym_def kget_def kret_def)

lemma recursive_lines_nonempty: "recursive_lines T stack r \<noteq> []"
proof -
  have "frame_lines T q fs \<noteq> []" if "fs \<noteq> []" for q and fs :: "dep_stack list"
    using that by (cases fs) auto
  then show ?thesis by (simp add: recursive_lines_def)
qed

lemma print_goes:
  assumes "check_wf D" "chk_inv D st"
  shows "\<exists>l. sym_check_print_recursive stack r st = Ret () (st\<lparr>ks_warnings := ks_warnings st @ l\<rparr>) \<and> l \<noteq> []"
proof (cases "sym_is_choice_value (sym_at st r)")
  case True
  have D: "same_syms D st" using assms(2) by (simp add: chk_inv_def)
  then obtain c where "owner (sym_at st r) = Some c"
    using wf_value_at [OF assms(1), of r] True same_derived(3,6) [OF D, of r] by auto
  then show ?thesis using True choice_of_at recursive_lines_nonempty
    by (auto simp: sym_check_print_recursive_def kbind_def ksym_def kget_def kret_def kmod_def)
qed (use recursive_lines_nonempty in \<open>auto simp: sym_check_print_recursive_def kbind_def ksym_def kget_def kret_def kmod_def\<close>)

lemma visit_plain:
  assumes wf: "check_wf D" and rc: "\<And>stk. rec_goes D k (rec stk)" and i: "chk_inv D st" and r: "in_table D r" "\<not> seen st r"
    and plain: "\<not> sym_is_choice (sym_at D r)" "\<not> sym_is_choice_value (sym_at D r)" and u: "unmarked st \<le> Suc k"
  shows "\<exists>x st'. kseq (kupd r (set_flag (SYMBOL_CHECK OR SYMBOL_CHECKED)))
           (kbind (sym_check_sym_deps rec stack r) (\<lambda>x. kseq (kupd r (clear_flag SYMBOL_CHECK)) (kret x))) st = Ret x st' \<and>
         post D st [r] (if x = Some r then None else x) st'"
proof -
  have D: "same_syms D st" using i by (simp add: chk_inv_def)
  have gr: "group D [r]" using plain wf_choice_at [OF wf] by (auto simp: group_def wf_choice_def)
  define st1 where "st1 = mark_all [r] st"
  have i1: "chk_inv D st1" unfolding st1_def using mark_inv [OF i gr] r(1) by simp
  have tab: "in_table st r" using r(1) same_derived(4) [OF D] by simp
  have "seen st1 r" "\<And>q. seen st q \<Longrightarrow> seen st1 q" using mark_all [of st "[r]"] tab by (auto simp: st1_def)
  then have "unmarked st1 < unmarked st"
    using unmarked_less [of st1 st r] r(2) tab mark_all [of st "[r]"] by (auto simp: st1_def same_syms_def)
  then have "unmarked st1 \<le> k" using u by simp
  then obtain x st2 where m: "sym_check_sym_deps rec stack r st1 = Ret x st2" and p: "post D st1 (dep_refs (sym_at D r)) x st2"
    using goes_sym [where rec = rec, OF rc wf i1] unfolding goes_def by blast
  define st3 where "st3 = clear_all [r] st2"
  have i3: "chk_inv D st3" unfolding st3_def by (rule clear_inv [OF post_inv [OF p]])
  have run: "kseq (kupd r (set_flag (SYMBOL_CHECK OR SYMBOL_CHECKED)))
      (kbind (sym_check_sym_deps rec stack r) (\<lambda>x. kseq (kupd r (clear_flag SYMBOL_CHECK)) (kret x))) st = Ret x st3"
    using m by (simp add: kseq_def kbind_def kupd_def kmod_def kret_def st1_def st3_def mark_all_def clear_all_def)
  have p1: "post D (mark_all ([] @ [r]) st) (dep_refs (sym_at D r)) x st2" using p by (simp add: st1_def)
  have p2: "if x = None then post D (clear_all [r] st2) (concat (map (\<lambda>v. dep_refs (sym_at D v)) [])) x st3
      else x = x \<and> st3 = clear_all [r] st2"
    using post_Nil [OF i3] by (auto simp: st3_def)
  from visit_done [OF wf i _ _ _ p1 p2] r
  have "post D st [r] (if x = Some r then None else x) st3" by (auto simp: post_def clear_all_def)
  with run show ?thesis by blast
qed

lemma as_choice_at:
  assumes "check_wf D" "chk_inv D st"
  shows "as_choice c x st = Ret (case x of None \<Rightarrow> None
      | Some y \<Rightarrow> if sym_is_choice_value (sym_at D y) \<and> owner (sym_at D y) = Some c then Some c else Some y) st"
proof (cases x)
  case (Some y)
  have D: "same_syms D st" using assms(2) by (simp add: chk_inv_def)
  show ?thesis
  proof (cases "sym_is_choice_value (sym_at D y)")
    case True
    then obtain d where "owner (sym_at st y) = Some d"
      using wf_value_at [OF assms(1), of y] same_derived(3) [OF D, of y] by auto
    then show ?thesis using True Some same_derived(3,6) [OF D, of y] choice_of_at
      by (simp add: as_choice_def kbind_def ksym_def kget_def kret_def)
  qed (use Some same_derived(6) [OF D, of y] in \<open>simp add: as_choice_def kbind_def ksym_def kget_def kret_def\<close>)
qed (simp add: as_choice_def kret_def)

lemma visit_choice:
  assumes wf: "check_wf D" and rc: "\<And>stk. rec_goes D k (rec stk)" and i: "chk_inv D st" and c: "in_table D c" "\<not> seen st c"
    and ch: "sym_is_choice (sym_at D c)" and u: "unmarked st \<le> Suc k"
  shows "\<exists>x st'. sym_check_choice_deps rec stack c st = Ret x st' \<and> post D st [c] (if x = Some c then None else x) st'"
proof -
  have D: "same_syms D st" using i by (simp add: chk_inv_def)
  define vs where "vs = members (sym_at D c)"
  have w: "\<not> sym_is_choice_value (sym_at D c)" "sym_get_choice_prop (sym_at D c) \<noteq> None"
    "\<And>v. v \<in> set vs \<Longrightarrow> in_table D v \<and> sym_is_choice_value (sym_at D v) \<and> owner (sym_at D v) = Some c"
    using wf_choice_at [OF wf ch] by (auto simp: wf_choice_def vs_def)
  then have cn: "c \<notin> set vs" by blast
  have gr: "group D (vs @ [c])"
    unfolding group_def using w wf_choice_at [OF wf] by (fastforce simp: wf_choice_def vs_def)
  have tabs: "list_all (in_table D) (vs @ [c])" using w(3) c(1) by (auto simp: list_all_iff)
  have fresh: "\<forall>v \<in> set (vs @ [c]). \<not> seen st v"
    using c(2) i ch same_derived(2,5) [OF D, of c] by (auto simp: vs_def chk_inv_def sync_def)
  define st1 where "st1 = mark_all (vs @ [c]) st"
  have i1: "chk_inv D st1" unfolding st1_def by (rule mark_inv [OF i gr tabs])
  have tab: "in_table st = in_table D" using same_derived(4) [OF D] .
  have "seen st1 c" "\<And>q. seen st q \<Longrightarrow> seen st1 q" using mark_all [of st "vs @ [c]"] tab c(1) by (auto simp: st1_def)
  then have "unmarked st1 < unmarked st"
    using unmarked_less [of st1 st c] c tab mark_all [of st "vs @ [c]"] by (auto simp: st1_def same_syms_def)
  then have u1: "unmarked st1 \<le> k" using u by simp
  define stk where "stk = new_frame c # stack"
  obtain x st2 where m: "sym_check_sym_deps rec stk c st1 = Ret x st2" and p: "post D st1 (dep_refs (sym_at D c)) x st2"
    using goes_sym [where rec = rec, OF rc wf i1 u1] unfolding goes_def by blast
  define st3 where "st3 = clear_all [c] st2"
  have i3: "chk_inv D st3" unfolding st3_def by (rule clear_inv [OF post_inv [OF p]])
  have "unmarked st3 = unmarked st2"
    using clear_all [of st2 "[c]"] by (simp add: unmarked_card st3_def same_syms_def)
  then have u3: "unmarked st3 \<le> k" using post_unmarked [OF i1 p] u1 by simp
  have "\<exists>x' st4. or_else (kret x) (check_members (sym_check_sym_deps rec stk) vs) st3 = Ret x' st4 \<and>
      (if x = None then post D st3 (concat (map (\<lambda>v. dep_refs (sym_at D v)) vs)) x' st4 else x' = x \<and> st4 = st3)"
  proof (cases x)
    case None
    then show ?thesis using goes_members [where rec = rec, OF rc wf i3 u3, of stk vs]
      by (auto simp: goes_def or_else_def kbind_def kret_def)
  qed (simp add: or_else_def kbind_def kret_def)
  then obtain x' st4 where m4: "or_else (kret x) (check_members (sym_check_sym_deps rec stk) vs) st3 = Ret x' st4"
    and p4: "if x = None then post D st3 (concat (map (\<lambda>v. dep_refs (sym_at D v)) vs)) x' st4 else x' = x \<and> st4 = st3"
    by blast
  define st5 where "st5 = clear_all vs st4"
  note v = visit_done [OF wf i tabs fresh cn p [unfolded st1_def] p4 [unfolded st3_def], folded st5_def]
  define z where "z = (case x' of None \<Rightarrow> None
      | Some y \<Rightarrow> if sym_is_choice_value (sym_at D y) \<and> owner (sym_at D y) = Some c then Some c else Some y)"
  have i5: "chk_inv D st5" using v by blast
  have "choice_values c st = Ret vs st" using choice_values_at [of st c] w(2) same_derived(2,7) [OF D, of c] by (simp add: vs_def)
  then have run: "sym_check_choice_deps rec stack c st = Ret z st5"
    using m m4 as_choice_at [OF wf i5, of c x']
    by (simp add: sym_check_choice_deps_def Let_def stk_def [symmetric] kbind_def run_upd
        st1_def mark_all_def st3_def clear_all_def st5_def z_def)
  have "gray st y" if "z \<noteq> Some c" "z = Some y" for y
    using that v w(3) by (auto simp: z_def split: option.splits if_splits)
  then have "post D st [c] (if z = Some c then None else z) st5"
    using v by (auto simp: post_def z_def)
  with run show ?thesis by blast
qed

text \<open>The bound on nested calls: two for each symbol not reached yet.\<close>

lemma deps_go:
  assumes "check_wf D"
  shows "in_table D r \<Longrightarrow> chk_inv D st \<Longrightarrow>
    2 * unmarked st + (if \<not> sym_is_choice_value (sym_at D r) \<and> \<not> seen st r then 0 else 1) \<le> n \<Longrightarrow>
    goes D (sym_check_deps n stk r) [r] st"
proof (induction n arbitrary: stk r st)
  case 0
  have "in_table st r" using 0 same_derived(4) by (auto simp: chk_inv_def)
  then have "unmarked st \<noteq> 0 \<or> seen st r" using unmarked_pos by blast
  with 0 show ?case by (auto split: if_splits)
next
  case (Suc n)
  have D: "same_syms D st" using Suc.prems(2) by (simp add: chk_inv_def)
  have tab: "in_table st r" using Suc.prems(1) same_derived(4) [OF D] by simp
  note defs = kbind_def ksym_def kget_def kret_def kseq_def
  show ?case
  proof (cases "seen st r")
    case True
    show ?thesis
    proof (cases "gray st r")
      case True
      obtain l where "sym_check_print_recursive stk r st = Ret () (st\<lparr>ks_warnings := ks_warnings st @ l\<rparr>)" "l \<noteq> []"
        using print_goes [OF assms Suc.prems(2)] by blast
      then show ?thesis using True Suc.prems(2) by (simp add: goes_def post_def defs gray_def [symmetric])
    next
      case False
      have "post D st [r] None st"
        using Suc.prems(2) True False by (auto simp: post_def finished_def intro: exI [of _ "[]"])
      then show ?thesis using True False by (simp add: goes_def defs gray_def seen_def)
    qed
  next
    case False
    then have white: "\<not> has_flag SYMBOL_CHECK (sym_at st r)" "\<not> has_flag SYMBOL_CHECKED (sym_at st r)"
      using Suc.prems(2) by (auto simp: chk_inv_def sync_def gray_def seen_def)
    have pos: "unmarked st \<noteq> 0" using unmarked_pos [OF tab False] .
    show ?thesis
    proof (cases "sym_is_choice_value (sym_at D r)")
      case True
      then obtain c where c: "owner (sym_at D r) = Some c" "in_table D c" "sym_is_choice (sym_at D c)" "r \<in> set (members (sym_at D c))"
        using wf_value_at [OF assms] by blast
      then have "\<not> seen st c" using False Suc.prems(2) same_derived [OF D] by (auto simp: chk_inv_def sync_def)
      moreover have "\<not> sym_is_choice_value (sym_at D c)" using wf_choice_at [OF assms c(3)] by (simp add: wf_choice_def)
      ultimately obtain x st' where m: "sym_check_deps n (new_frame r # stk) c st = Ret x st'" and p: "post D st [c] x st'"
        using Suc.IH [OF c(2) Suc.prems(2), of "new_frame r # stk"] Suc.prems(3) True by (auto simp: goes_def)
      have "x \<noteq> Some r" using p white by (auto simp: post_def gray_def)
      have D': "same_syms D st'" and s': "sync st'" using post_inv [OF p] by (simp_all add: chk_inv_def)
      have "finished st' r" if "finished st' c"
        using that s' c(3,4) same_derived [OF D'] p white by (auto simp: sync_def finished_def post_def gray_def [symmetric])
      then have "post D st [r] x st'" using p by (auto simp: post_def)
      moreover have "choice_of r st = Ret c st" using c(1) same_derived(3) [OF D, of r] choice_of_at by simp
      ultimately show ?thesis using m white True same_derived(6) [OF D, of r] \<open>x \<noteq> Some r\<close> by (simp add: goes_def defs)
    next
      case nv: False
      define k where "k = unmarked st - 1"
      have "goes D (sym_check_deps n stk' t) [t] s" if "in_table D t" "chk_inv D s" "unmarked s \<le> k" for stk' t s
        by (rule Suc.IH) (use that Suc.prems(3) pos nv False in \<open>auto simp: k_def\<close>)
      then have rc: "rec_goes D k (sym_check_deps n stk')" for stk' by (simp add: rec_goes_def)
      have u: "unmarked st \<le> Suc k" by (simp add: k_def)
      show ?thesis
      proof (cases "sym_is_choice (sym_at D r)")
        case True
        from visit_choice [where rec = "sym_check_deps n", OF assms rc Suc.prems(2,1) False True u, of stk]
        show ?thesis using white nv True same_derived(5,6) [OF D, of r] by (auto simp: goes_def defs)
      next
        case nc: False
        from visit_plain [where rec = "sym_check_deps n", OF assms rc Suc.prems(2,1) False nc nv u, of stk]
        obtain x st' where run: "kseq (kupd r (set_flag (SYMBOL_CHECK OR SYMBOL_CHECKED)))
           (kbind (sym_check_sym_deps (sym_check_deps n) stk r) (\<lambda>x. kseq (kupd r (clear_flag SYMBOL_CHECK)) (kret x))) st = Ret x st'"
          and p: "post D st [r] (if x = Some r then None else x) st'" by blast
        have "sym_check_deps (Suc n) stk r st = kret (if x = Some r then None else x) st'"
          using white nv nc same_derived(5,6) [OF D, of r] by (simp add: ksym_get kbind_run [where st = st and x = x and st' = st'] run)
        then show ?thesis using p by (simp add: goes_def kret_def)
      qed
    qed
  qed
qed

section \<open>Properties\<close>

definition unvisited :: "kst \<Rightarrow> bool" where
  "unvisited st \<longleftrightarrow> list_all (\<lambda>s. \<not> has_flag SYMBOL_CHECK s \<and> \<not> has_flag SYMBOL_CHECKED s) (ks_syms st)"

lemma unvisited_inv: "unvisited st \<Longrightarrow> chk_inv st st \<and> gray st = (\<lambda>_. False) \<and> ordered st [] st"
proof -
  assume "unvisited st"
  then have n: "\<not> gray st r \<and> \<not> seen st r" for r
    by (cases "in_table st r") (auto simp: unvisited_def list_all_iff gray_def seen_def sym_at_def in_table_def)
  then show ?thesis
    by (auto simp: chk_inv_def sync_def ordered_def finished_def closed_order_def)
qed

lemma count_go:
  assumes "check_wf D"
  shows "list_all (in_table D) rs \<Longrightarrow> chk_inv D st \<Longrightarrow> gray st = (\<lambda>_. False) \<Longrightarrow>
    \<exists>st'. count_recursive rs n st = Ret n st' \<and> post D st rs None st'"
proof (induction rs arbitrary: st)
  case Nil
  then show ?case by (auto simp: kret_def intro: post_Nil)
next
  case (Cons r rs)
  have "goes D (sym_check_deps (2 * unmarked st + 2) [] r) [r] st" using Cons.prems by (intro deps_go [OF assms]) auto
  then obtain x st1 where m: "sym_check_deps (2 * unmarked st + 2) [] r st = Ret x st1" and p: "post D st [r] x st1"
    by (auto simp: goes_def)
  then have x: "x = None" using Cons.prems(3) by (auto simp: post_def)
  obtain st2 where m2: "count_recursive rs n st1 = Ret n st2" and p2: "post D st1 rs None st2"
    using Cons.IH [of st1] Cons.prems p by (auto simp: post_def)
  have "post D st ([r] @ rs) None st2" using post_seq p p2 x by blast
  moreover have "count_recursive (r # rs) n st = Ret n st2"
    using m m2 x by (simp add: kbind_def check_symbol_deps_def)
  ultimately show ?case by auto
qed

text \<open>The loop of \<open>conf_parse\<close> over the symbols comes to an end without following a null pointer, and never counts
  an error: a recursive dependency is reported on the terminal, but every symbol on a cycle is taken
  off the result again, so the configuration is accepted.\<close>

theorem recursion_never_counted:
  assumes "check_wf st" and "unvisited st" and "list_all (in_table st) rs"
  shows "\<exists>st'. count_recursive rs n st = Ret n st'"
  using count_go [OF assms(1,3)] unvisited_inv [OF assms(2)] by blast

text \<open>C22: A search that reports nothing has seen no recursion: no symbol it started from depends on itself, over
  whatever chain of dependencies.\<close>

theorem unreported_acyclic:
  assumes "check_wf st" and "unvisited st" and "list_all (in_table st) rs"
    and run: "count_recursive rs n st = Ret k st'" and quiet: "ks_warnings st' = ks_warnings st" and r: "r \<in> set rs"
  shows "(r, r) \<notin> (dep_rel st)\<^sup>+"
proof -
  have p: "post st st rs None st'"
    using count_go [OF assms(1,3), of st n] unvisited_inv [OF assms(2)] run by auto
  then obtain ord where "ordered st ord st'" "finished st' r"
    using quiet r unvisited_inv [OF assms(2)] by (auto simp: post_def)
  then show ?thesis using closed_acyclic [of st ord r] by (auto simp: ordered_def)
qed

text \<open>Two symbols that depend on each other, and the same without one of the dependencies.\<close>

definition dep_symbol :: "string \<Rightarrow> sref option \<Rightarrow> symbol" where
  "dep_symbol n d = (static_symbol n TNo 0)\<lparr>s_type := S_BOOLEAN,
     s_prop := [(new_property P_PROMPT)\<lparr>p_vis_expr := map_option E_SYMBOL d\<rparr>]\<rparr>"

definition dep_table :: "sref option \<Rightarrow> kst" where
  "dep_table d = kst_init\<lparr>ks_syms := ks_syms kst_init @ [dep_symbol ''A'' (Some (Sym 1)), dep_symbol ''B'' d]\<rparr>"

lemma dep_table_ok:
  "check_wf (dep_table (Some (Sym 0)))" "unvisited (dep_table (Some (Sym 0)))" "check_wf (dep_table None)" "unvisited (dep_table None)"
  by code_simp+

text \<open>The two symbols of the first table depend on each other; there is a report, and no error is counted.\<close>

theorem recursion_never_counted_witness:
  "\<exists>st'. count_recursive [Sym 0, Sym 1] 0 (dep_table (Some (Sym 0))) = Ret 0 st' \<and>
     ks_warnings st' = [''error: recursive dependency detected!'', ''symbol A depends on B'', ''symbol B depends on A'']"
proof -
  have "list_all (in_table (dep_table (Some (Sym 0)))) [Sym 0, Sym 1]" by code_simp
  from recursion_never_counted [OF dep_table_ok(1,2) this, of 0]
  obtain st' where st: "count_recursive [Sym 0, Sym 1] 0 (dep_table (Some (Sym 0))) = Ret 0 st'" by blast
  have "(case count_recursive [Sym 0, Sym 1] 0 (dep_table (Some (Sym 0))) of Ret n st \<Rightarrow> ks_warnings st | _ \<Rightarrow> []) =
      [''error: recursive dependency detected!'', ''symbol A depends on B'', ''symbol B depends on A'']" by code_simp
  with st show ?thesis by simp
qed

theorem unreported_acyclic_witness:
  "(Sym 0, Sym 0) \<notin> (dep_rel (dep_table None))\<^sup>+ \<and> (Sym 0, Sym 1) \<in> dep_rel (dep_table None)"
proof -
  have t: "list_all (in_table (dep_table None)) [Sym 0, Sym 1]" by code_simp
  have "(case count_recursive [Sym 0, Sym 1] 0 (dep_table None) of Ret n st \<Rightarrow> ks_warnings st = [] | _ \<Rightarrow> False)" by code_simp
  moreover have "ks_warnings (dep_table None) = []" by code_simp
  ultimately obtain n st' where "count_recursive [Sym 0, Sym 1] 0 (dep_table None) = Ret n st'"
      "ks_warnings st' = ks_warnings (dep_table None)" by (auto split: kres.splits)
  from unreported_acyclic [OF dep_table_ok(3,4) t this, of "Sym 0"]
  have "(Sym 0, Sym 0) \<notin> (dep_rel (dep_table None))\<^sup>+" by simp
  moreover have "Sym 1 \<in> set (dep_refs (sym_at (dep_table None) (Sym 0)))" by code_simp
  ultimately show ?thesis by (simp add: dep_rel_def)
qed

end
