(* ===== verification/KSearch.thy ===== *)
theory KSearch
  imports KSymSetFacts
begin

text \<open>
  \<open>buildroot/support/kconfig/symbol.c\<close>: the search for symbols by a regular expression. The compiled expression
  (\<open>regcomp\<close> and \<open>regexec\<close>, extended and without regard to case) is a parameter: a pattern that does not
  compile is \<open>None\<close>, else a name is matched from \<open>rm_so\<close> to \<open>rm_eo\<close> or not at all. Memory is not exhausted.
\<close>

section \<open>The order of the matches\<close>

text \<open>\<open>strcmp\<close>, on bytes without sign.\<close>

fun strcmp :: "string \<Rightarrow> string \<Rightarrow> int" where
  "strcmp [] [] = 0"
| "strcmp [] (d # t) = -1"
| "strcmp (c # s) [] = 1"
| "strcmp (c # s) (d # t) =
     (if c = d then strcmp s t else if (of_char c :: nat) < of_char d then -1 else 1)"

record sym_match =
  sm_sym :: sref
  sm_name :: string
  sm_so :: nat
  sm_eo :: nat

definition exact_match :: "sym_match \<Rightarrow> bool" where
  "exact_match m \<longleftrightarrow> int (sm_eo m) - int (sm_so m) = int (length (sm_name m))"

definition sym_rel_comp :: "sym_match \<Rightarrow> sym_match \<Rightarrow> int" where
  "sym_rel_comp s1 s2 =
     (if exact_match s1 \<and> \<not> exact_match s2 then -1
      else if \<not> exact_match s1 \<and> exact_match s2 then 1
      else strcmp (sm_name s1) (sm_name s2))"

text \<open>\<open>qsort\<close> by this order. Matches of equal rank have the same name; here they stay in the order they were found.\<close>

fun insert_match :: "sym_match \<Rightarrow> sym_match list \<Rightarrow> sym_match list" where
  "insert_match m [] = [m]"
| "insert_match m (x # xs) = (if sym_rel_comp m x \<le> 0 then m # x # xs else x # insert_match m xs)"

definition qsort_matches :: "sym_match list \<Rightarrow> sym_match list" where
  "qsort_matches ms = foldr insert_match ms []"

section \<open>The search\<close>

fun search_loop :: "(string \<Rightarrow> (nat \<times> nat) option) \<Rightarrow> sref list \<Rightarrow> sym_match list km" where
  "search_loop re [] = kret []"
| "search_loop re (r # rs) =
     kbind (ksym r) (\<lambda>s.
       case (if has_flag SYMBOL_CONST s then None else s_name s) of
         None \<Rightarrow> search_loop re rs
       | Some name \<Rightarrow>
           (case re name of
              None \<Rightarrow> search_loop re rs
            | Some (so, eo) \<Rightarrow>
                kseq (sym_calc r) (kbind (search_loop re rs) (\<lambda>ms.
                  kret (\<lparr>sm_sym = r, sm_name = name, sm_so = so, sm_eo = eo\<rparr> # ms)))))"

text \<open>\<open>None\<close> is the null pointer for a pattern that is empty, does not compile or matches nothing.\<close>

definition sym_re_search :: "(string \<Rightarrow> (string \<Rightarrow> (nat \<times> nat) option) option) \<Rightarrow> string \<Rightarrow> sref list option km" where
  "sym_re_search regcomp pattern =
     (if pattern = [] then kret None
      else case regcomp pattern of
          None \<Rightarrow> kret None
        | Some re \<Rightarrow>
            kbind (kget all_symbols) (\<lambda>rs.
            kbind (search_loop re rs) (\<lambda>ms.
              kret (if ms = [] then None else Some (map sm_sym (qsort_matches ms))))))"

section \<open>The matches are sorted\<close>

lemma strcmp_refl [simp]: "strcmp s s = 0"
  by (induction s) auto

lemma strcmp_swap: "strcmp t s = - strcmp s t"
  by (induction s t rule: strcmp.induct) (auto simp: not_less dest: le_neq_trans)

lemma strcmp_trans: "strcmp a b \<le> 0 \<Longrightarrow> strcmp b c \<le> 0 \<Longrightarrow> strcmp a c \<le> 0"
proof (induction a b arbitrary: c rule: strcmp.induct)
  case (4 x a y b)
  then show ?case by (cases c) (auto split: if_splits)
next
  case (2 y b)
  then show ?case by (cases c) auto
qed (auto split: if_splits)

lemma sym_rel_comp_total: "sym_rel_comp a b \<le> 0 \<or> sym_rel_comp b a \<le> 0"
  using strcmp_swap [of "sm_name a" "sm_name b"] by (auto simp: sym_rel_comp_def)

lemma sym_rel_comp_trans: "sym_rel_comp a b \<le> 0 \<Longrightarrow> sym_rel_comp b c \<le> 0 \<Longrightarrow> sym_rel_comp a c \<le> 0"
  using strcmp_trans [of "sm_name a" "sm_name b" "sm_name c"] by (auto simp: sym_rel_comp_def split: if_splits)

lemma set_insert_match [simp]: "set (insert_match m xs) = insert m (set xs)"
  by (induction xs) auto

lemma sorted_insert_match:
  "sorted_wrt (\<lambda>a b. sym_rel_comp a b \<le> 0) xs \<Longrightarrow> sorted_wrt (\<lambda>a b. sym_rel_comp a b \<le> 0) (insert_match m xs)"
proof (induction xs)
  case (Cons x xs)
  show ?case
  proof (cases "sym_rel_comp m x \<le> 0")
    case True
    then show ?thesis using Cons.prems sym_rel_comp_trans [OF True] by auto
  next
    case False
    then have "sym_rel_comp x m \<le> 0" using sym_rel_comp_total [of m x] by simp
    then show ?thesis using False Cons by auto
  qed
qed simp

text \<open>Exact matches come first, and among matches of the same kind the names are in order.\<close>

theorem qsort_matches_sorted:
  "sorted_wrt (\<lambda>a b. sym_rel_comp a b \<le> 0) (qsort_matches ms) \<and> set (qsort_matches ms) = set ms"
  by (induction ms) (auto simp: qsort_matches_def sorted_insert_match)

end
