(* ===== verification/KHelp.thy ===== *)
theory KHelp
  imports KWrite
begin

text \<open>
  The help texts of \<open>buildroot/support/kconfig/menu.c\<close>: \<open>get_prompt_str\<close>, \<open>get_symbol_str\<close>,
  \<open>get_relations_str\<close> and \<open>menu_get_ext_help\<close>, which print into a growable string. The finished menu tree,
  with the root entry, and the file and line of each entry are arguments; messages are not translated.
\<close>

section \<open>Places in the tree\<close>

text \<open>An entry with its ancestors, nearest first and the root entry last.\<close>

fun path_to :: "nat \<Rightarrow> mtree \<Rightarrow> mtree list option" and path_in :: "nat \<Rightarrow> mtree list \<Rightarrow> mtree list option" where
  "path_to i (MT m cs) =
     (if m_id m = i then Some [MT m cs] else map_option (\<lambda>p. p @ [MT m cs]) (path_in i cs))"
| "path_in i [] = None"
| "path_in i (t # ts) = (case path_to i t of Some p \<Rightarrow> Some p | None \<Rightarrow> path_in i ts)"

definition tree_id :: "mtree \<Rightarrow> nat" where "tree_id t = m_id (mt_menu t)"

text \<open>A place a front end can jump to; \<open>head\<close> is the list they are collected in, if there is one.\<close>

record jump_key =
  jk_offset :: nat
  jk_target :: nat
  jk_index :: nat

type_synonym help_out = "gstr \<times> jump_key list option"

section \<open>Expressions\<close>

text \<open>\<open>expr_gstr_print\<close> with the strings of the symbols read as they are printed.\<close>

definition print_token :: "ptoken \<Rightarrow> gstr \<Rightarrow> gstr km" where
  "print_token tok g =
     kbind (case fst tok of None \<Rightarrow> kret [] | Some s \<Rightarrow> get_string sym_calc s) (\<lambda>v.
       kget (\<lambda>st. expr_print_gstr_helper (sym_at st) (\<lambda>_. v) g tok))"

definition gstr_print :: "pexpr option \<Rightarrow> gstr \<Rightarrow> gstr km" where
  "gstr_print e g = kbind (kget (\<lambda>st. expr_print (sym_at st) e T_NONE)) (\<lambda>toks. kfold print_token toks g)"

section \<open>A prompt\<close>

definition first_accessible :: "mtree \<Rightarrow> mtree option \<Rightarrow> mtree option km" where
  "first_accessible t loc = kbind (menu_is_visible t) (\<lambda>v. kret (if loc = None \<and> v then Some t else loc))"

definition location_line :: "mtree option \<Rightarrow> nat \<times> mtree \<Rightarrow> gstr \<times> nat \<Rightarrow> (gstr \<times> nat) km" where
  "location_line loc jt acc =
     (case (jt, acc) of ((j, t), (g, off)) \<Rightarrow>
        let off1 = (if map_option tree_id loc = Some (tree_id t) then length (gs_s g) else off) in
        kbind (kget (\<lambda>st. str_printf g (replicate j CHR '' '' @ ''-> '' @ name_str (menu_get_prompt st (mt_menu t))))) (\<lambda>g1.
        kbind (case m_sym (mt_menu t) of
                 None \<Rightarrow> kret g1
               | Some r \<Rightarrow> kbind (get_string sym_calc r) (\<lambda>v. kbind (ksym r) (\<lambda>s.
                   kret (str_printf g1 ('' ('' @ (case s_name s of Some n \<Rightarrow> n | None \<Rightarrow> ''<choice>'') @ '' [='' @ v @ ''])'')))))
          (\<lambda>g2. kret (str_append g2 (Some newline), off1))))"

definition jump_target :: "mtree \<Rightarrow> mtree \<Rightarrow> nat km" where
  "jump_target loc own = kbind (menu_is_visible own) (\<lambda>v. kret (if v then tree_id own else tree_id loc))"

definition next_index :: "jump_key list \<Rightarrow> nat" where
  "next_index ks = (if ks = [] then 0 else jk_index (List.last ks) + 1)"

definition jump_place :: "jump_key list option \<Rightarrow> mtree option \<Rightarrow> mtree \<Rightarrow> (jump_key list \<times> nat) option km" where
  "jump_place head loc own =
     (case (head, loc) of
        (Some ks, Some l) \<Rightarrow> kbind (jump_target l own) (\<lambda>i. kret (Some (ks, i)))
      | _ \<Rightarrow> kret None)"

definition location_lines :: "mtree option \<Rightarrow> mtree list \<Rightarrow> gstr \<Rightarrow> (gstr \<times> nat) km" where
  "location_lines loc anc g =
     (if anc = [] then kret (g, 0)
      else kfold (location_line loc) (zip (map (\<lambda>k. 4 + 2 * k) [0..<length anc]) (rev anc))
             (str_printf g (''  Location:'' @ newline), 0))"

definition prompt_lines :: "mtree \<Rightarrow> mtree list \<Rightarrow> help_out \<Rightarrow> help_out km" where
  "prompt_lines own anc out =
     kbind (kfold first_accessible anc None) (\<lambda>loc.
     kbind (jump_place (snd out) loc own) (\<lambda>jump.
     kbind (location_lines loc anc (fst out)) (\<lambda>(g, off).
     kret (g, case jump of
                None \<Rightarrow> snd out
              | Some (ks, i) \<Rightarrow> Some (ks @ [\<lparr>jk_offset = off, jk_target = i, jk_index = next_index ks\<rparr>])))))"

text \<open>At most eight ancestors are shown. A property without menu, or of the root entry, has no parent to follow.\<close>

definition get_prompt_str :: "mtree \<Rightarrow> property \<Rightarrow> help_out \<Rightarrow> help_out km" where
  "get_prompt_str root p out =
     (case (case p_menu p of None \<Rightarrow> None | Some i \<Rightarrow> path_to i root) of
        Some (own # a # up) \<Rightarrow>
          prompt_lines own (take 8 (butlast (a # up)))
            (str_printf (fst out) (''Prompt: '' @ name_str (p_text p) @ newline), snd out)
      | _ \<Rightarrow> kcrash)"

section \<open>A symbol\<close>

definition get_symbol_prop :: "symbol \<Rightarrow> property option" where
  "get_symbol_prop s = find (\<lambda>p. p_kind p = P_SYMBOL) (s_prop s)"

definition range_line :: "sref \<Rightarrow> gstr \<Rightarrow> gstr km" where
  "range_line r g =
     kbind (ksym r) (\<lambda>s.
       if s_type s = S_INT \<or> s_type s = S_HEX
       then kbind (sym_get_range_prop sym_calc r) (\<lambda>po. case po of
              None \<Rightarrow> kret g
            | Some p \<Rightarrow> kbind (gstr_print (p_expr p) (str_printf g ''Range : '')) (\<lambda>g1.
                kret (str_append g1 (Some newline))))
       else kret g)"

definition symbol_heading :: "sref \<Rightarrow> gstr \<Rightarrow> gstr km" where
  "symbol_heading r g =
     kbind (ksym r) (\<lambda>s. case s_name s of
       None \<Rightarrow> kret g
     | Some n \<Rightarrow>
         kbind (get_string sym_calc r) (\<lambda>v.
           range_line r (str_printf (str_printf g (''Symbol: '' @ n @ '' [='' @ v @ '']'' @ newline))
             (''Type  : '' @ sym_type_name (s_type s) @ newline))))"

definition definition_lines :: "(nat \<Rightarrow> string \<times> nat) \<Rightarrow> symbol \<Rightarrow> gstr \<Rightarrow> gstr km" where
  "definition_lines place s g =
     (case get_symbol_prop s of
        None \<Rightarrow> kret g
      | Some p \<Rightarrow>
          (case p_menu p of
             None \<Rightarrow> kcrash
           | Some i \<Rightarrow>
               let g1 = str_printf g (''  Defined at '' @ fst (place i) @ '':'' @ nat_str (snd (place i)) @ newline) in
               if expr_is_yes (p_vis_expr p) then kret g1
               else kbind (gstr_print (map_option PExpr (p_vis_expr p)) (str_append g1 (Some ''  Depends on: '')))
                      (\<lambda>g2. kret (str_append g2 (Some newline)))))"

text \<open>The flag \<open>hit\<close> says whether a select has been printed.\<close>

definition select_item :: "property \<Rightarrow> bool \<times> gstr \<Rightarrow> (bool \<times> gstr) km" where
  "select_item p acc =
     kbind (gstr_print (p_expr p)
              (if fst acc then str_printf (snd acc) '' && '' else str_append (snd acc) (Some ''  Selects: '')))
       (\<lambda>g. kret (True, g))"

definition select_lines :: "symbol \<Rightarrow> gstr \<Rightarrow> gstr km" where
  "select_lines s g =
     kbind (kfold select_item (filter (\<lambda>p. p_kind p = P_SELECT) (s_prop s)) (False, g)) (\<lambda>(hit, g1).
       kret (if hit then str_append g1 (Some newline) else g1))"

definition selected_by :: "symbol \<Rightarrow> gstr \<Rightarrow> gstr km" where
  "selected_by s g =
     (case s_rev_expr s of
        None \<Rightarrow> kret g
      | Some e \<Rightarrow> kbind (gstr_print (Some (PExpr e)) (str_append g (Some ''  Selected by: ''))) (\<lambda>g1.
          kret (str_append g1 (Some newline))))"

definition get_symbol_str :: "mtree \<Rightarrow> (nat \<Rightarrow> string \<times> nat) \<Rightarrow> sref \<Rightarrow> help_out \<Rightarrow> help_out km" where
  "get_symbol_str root place r out =
     kbind (symbol_heading r (fst out)) (\<lambda>g1.
     kbind (ksym r) (\<lambda>s.
     kbind (kfold (get_prompt_str root) (filter (\<lambda>p. p_text p \<noteq> None) (s_prop s)) (g1, snd out)) (\<lambda>(g2, ks).
     kbind (definition_lines place s g2) (\<lambda>g3.
     kbind (select_lines s g3) (\<lambda>g4.
     kbind (selected_by s g4) (\<lambda>g5.
       kret (str_append g5 (Some (newline @ newline)), ks)))))))"

definition get_relations_str ::
  "mtree \<Rightarrow> (nat \<Rightarrow> string \<times> nat) \<Rightarrow> sref list \<Rightarrow> jump_key list option \<Rightarrow> help_out km" where
  "get_relations_str root place rs head =
     kbind (kfold (get_symbol_str root place) rs (str_new, head)) (\<lambda>(g, ks).
       kret (if rs = [] then str_append g (Some (''No matches found.'' @ newline)) else g, ks))"

section \<open>The help of an entry\<close>

definition nohelp_text :: string where "nohelp_text = ''There is no help available for this option.''"

definition menu_get_ext_help :: "string \<Rightarrow> mtree \<Rightarrow> (nat \<Rightarrow> string \<times> nat) \<Rightarrow> menu \<Rightarrow> gstr \<Rightarrow> gstr km" where
  "menu_get_ext_help pre root place m help =
     kbind (if \<not> menu_has_help m then kret help
            else (case m_sym m of
                None \<Rightarrow> kcrash
              | Some r \<Rightarrow> kbind (ksym r) (\<lambda>s. kret (case s_name s of
                  None \<Rightarrow> help
                | Some n \<Rightarrow> str_printf help (pre @ n @ '':'' @ newline @ newline))))) (\<lambda>g1.
     let g2 = str_printf g1 ((if menu_has_help m then menu_get_help m else nohelp_text) @ newline) in
     (case m_sym m of
        None \<Rightarrow> kret g2
      | Some r \<Rightarrow> kbind (get_symbol_str root place r (g2, None)) (\<lambda>out. kret (fst out))))"

end
