(* ===== verification/CNum.thy ===== *)
theory CNum
  imports Prelude "HOL-Library.Word"
begin

text \<open>
  The functions of the C library that read numbers, for base 10 on a machine with 64-bit \<open>long\<close>, as the
  programs use them.
\<close>

text \<open>\<open>strtol\<close> with base 10, and the conversion of its \<open>long\<close> result to \<open>int\<close>.\<close>

definition strtol10 :: "string \<Rightarrow> int \<times> string" where
  "strtol10 s =
     (let t = dropWhile is_space s;
          u = (if take 1 t = ''-'' \<or> take 1 t = ''+'' then drop 1 t else t);
          ds = takeWhile is_digit u;
          v = (if take 1 t = ''-'' then - int (digits_val ds) else int (digits_val ds));
          l = max (- (2 ^ 63)) (min (2 ^ 63 - 1) v)
      in if ds = [] then (0, s) else (sint (word_of_int l :: 32 word), dropWhile is_digit u))"

text \<open>\<open>atoi\<close>.\<close>

definition atoi :: "string \<Rightarrow> int" where "atoi s = fst (strtol10 s)"

text \<open>\<open>strtoul\<close>; \<open>None\<close> when there is no number.\<close>

definition strtoul10 :: "string \<Rightarrow> (64 word \<times> string) option" where
  "strtoul10 s =
     (let t = dropWhile is_space s; neg = take 1 t = ''-'';
          u = (if neg \<or> take 1 t = ''+'' then drop 1 t else t);
          ds = takeWhile is_digit u; v = digits_val ds
      in if ds = [] then None
         else Some (if v < 2 ^ 64 then if neg then - (word_of_nat v) else word_of_nat v else - 1, drop (length ds) u))"

end
