(* ===== verification/KNewSyms.thy ===== *)
theory KNewSyms
  imports KWrite CNum
begin

text \<open>
  \<open>conf_set_all_new_symbols\<close> of \<open>confdata.c\<close>, which gives a value to every symbol that has none: all \<open>y\<close>, \<open>m\<close> or
  \<open>n\<close>, or at random. The random numbers are a parameter \<open>rnd\<close>; a counter says how many have been drawn.
\<close>

datatype conf_def_mode = def_default | def_yes | def_mod | def_no | def_random

section \<open>Probabilities\<close>

text \<open>The loop over \<open>KCONFIG_PROBABILITY\<close>: at most three numbers; \<open>None\<close> is the exit for one out of range.\<close>

function read_probs :: "int list \<Rightarrow> string \<Rightarrow> int list option" where
  "read_probs ps env =
     (if env = [] \<or> 3 \<le> length ps then Some ps
      else case strtol10 env of
        (tmp, endp) \<Rightarrow>
          if tmp < 0 \<or> 100 < tmp then None
          else read_probs (ps @ [tmp]) (if take 1 endp = '':'' then drop 1 endp else endp))"
  by pat_completeness auto

termination read_probs
  by (relation "measure (\<lambda>(ps, env). 3 - length ps)") auto

declare read_probs.simps [simp del]

text \<open>\<open>pby\<close>, \<open>pty\<close> and \<open>ptm\<close>.\<close>

definition probabilities :: "string option \<Rightarrow> (int \<times> int \<times> int) option" where
  "probabilities env =
     (case read_probs [] (case env of Some e \<Rightarrow> e | None \<Rightarrow> []) of
        None \<Rightarrow> None
      | Some ps \<Rightarrow>
          (let (pby, pty, ptm) =
             (case ps of
                [p0] \<Rightarrow> (p0, p0 - p0 div 2, p0 div 2)
              | [p0, p1] \<Rightarrow> (p0 + p1, p0, p1)
              | [p0, p1, p2] \<Rightarrow> (p0, p1, p2)
              | _ \<Rightarrow> (50, 33, 33))
           in if pty + ptm > 100 then None else Some (pby, pty, ptm)))"

definition mode_probabilities :: "kenv \<Rightarrow> conf_def_mode \<Rightarrow> (int \<times> int \<times> int) option" where
  "mode_probabilities e mode =
     (if mode = def_random then probabilities (ke_getenv e ''KCONFIG_PROBABILITY'') else Some (50, 33, 33))"

section \<open>Values for new symbols\<close>

definition random_value :: "int \<times> int \<times> int \<Rightarrow> symbol_type \<Rightarrow> nat \<Rightarrow> tristate" where
  "random_value p ty n =
     (case p of (pby, pty, ptm) \<Rightarrow>
        let cnt = int (n mod 100) in
        if ty = S_TRISTATE then (if cnt < pty then TYes else if cnt < pty + ptm then TMod else TNo)
        else if cnt < pby then TYes else TNo)"

definition mode_value :: "(nat \<Rightarrow> nat) \<Rightarrow> int \<times> int \<times> int \<Rightarrow> conf_def_mode \<Rightarrow> symbol_type \<Rightarrow> nat \<Rightarrow> tristate" where
  "mode_value rnd p mode ty k =
     (case mode of def_yes \<Rightarrow> TYes | def_mod \<Rightarrow> TMod | def_no \<Rightarrow> TNo | _ \<Rightarrow> random_value p ty (rnd k))"

text \<open>One symbol: whether it counts as changed, and the number of random numbers drawn.\<close>

definition set_new_symbol ::
  "(nat \<Rightarrow> nat) \<Rightarrow> int \<times> int \<times> int \<Rightarrow> conf_def_mode \<Rightarrow> sref \<Rightarrow> bool \<times> nat \<Rightarrow> (bool \<times> nat) km" where
  "set_new_symbol rnd p mode r acc =
     kbind (ksym r) (\<lambda>s.
       if sym_has_value s \<or> has_flag SYMBOL_VALID s then kret acc
       else kbind (kget (\<lambda>st. sym_get_type st r)) (\<lambda>ty.
         if ty \<noteq> S_BOOLEAN \<and> ty \<noteq> S_TRISTATE then kret acc
         else if mode = def_default then kret (True, snd acc)
         else
           kseq (kupd r (set_def_tri 0 (mode_value rnd p mode (s_type s) (snd acc))))
           (kseq (kwhen (\<not> (sym_is_choice s \<and> mode = def_random)) (kupd r (set_flag SYMBOL_DEF_USER)))
           (kret (True, if mode = def_random then snd acc + 1 else snd acc)))))"

text \<open>A choice without values divides by zero.\<close>

definition randomize_choice_values :: "(nat \<Rightarrow> nat) \<Rightarrow> sref \<Rightarrow> nat \<Rightarrow> (bool \<times> nat) km" where
  "randomize_choice_values rnd c k =
     kbind (ksym c) (\<lambda>cs.
       if s_tri cs \<noteq> TYes then kret (False, k)
       else kbind (choice_values c) (\<lambda>vs.
         if vs = [] then kcrash
         else
           let def = rnd k mod length vs in
           kseq (kfor (zip [0..<length vs] vs) (\<lambda>(i, v).
             kseq (if i = def
                   then kseq (kupd v (set_def_tri 0 TYes)) (kupd c (set_def_val 0 (VSym v)))
                   else kupd v (set_def_tri 0 TNo))
             (kseq (kupd v (set_flag SYMBOL_DEF_USER)) (kupd v (clear_flag SYMBOL_VALID)))))
           (kseq (kupd c (set_flag SYMBOL_DEF_USER))
           (kseq (kupd c (clear_flag SYMBOL_VALID)) (kret (True, k + 1))))))"

definition request_choice :: "sref \<Rightarrow> unit km" where
  "request_choice r =
     kbind (ksym r) (\<lambda>s. kwhen (sym_is_choice s \<and> \<not> sym_has_value s \<or> sym_is_choice_value s)
       (kupd r (set_flag SYMBOL_NEED_SET_CHOICE_VALUES)))"

text \<open>The last loop; the result of a random choice replaces what was known about changes.\<close>

definition settle_choice :: "(nat \<Rightarrow> nat) \<Rightarrow> conf_def_mode \<Rightarrow> sref \<Rightarrow> bool \<times> nat \<Rightarrow> (bool \<times> nat) km" where
  "settle_choice rnd mode r acc =
     kbind (ksym r) (\<lambda>s.
       if sym_has_value s \<or> \<not> sym_is_choice s then kret acc
       else kseq (sym_calc r)
         (if mode = def_random then randomize_choice_values rnd r (snd acc)
          else kseq (set_all_choice_values r) (kret (True, snd acc))))"

text \<open>\<open>None\<close>: the program exits because of a probability that is out of range.\<close>

definition conf_set_all_new_symbols :: "kenv \<Rightarrow> (nat \<Rightarrow> nat) \<Rightarrow> conf_def_mode \<Rightarrow> bool option km" where
  "conf_set_all_new_symbols e rnd mode =
     (case mode_probabilities e mode of
        None \<Rightarrow> kret None
      | Some p \<Rightarrow>
          kbind (kget all_symbols) (\<lambda>rs.
          kbind (kfold (set_new_symbol rnd p mode) rs (False, 0)) (\<lambda>acc.
          kseq sym_clear_all_valid
          (kseq (kwhen (mode \<noteq> def_random) (kfor rs request_choice))
          (kbind (kfold (settle_choice rnd mode) rs acc) (\<lambda>(changed, k). kret (Some changed)))))))"

end
