(* ===== verification/KAsk.thy ===== *)
theory KAsk
  imports KHelp KNewSyms
begin

text \<open>
  The questions of \<open>buildroot/support/kconfig/conf.c\<close>, the front end on a terminal. An operation takes the
  console (what is left of the standard input, what was written to the standard output, \<open>conf_cnt\<close> and
  \<open>rootEntry\<close>) and the state of the symbols; it may also end the program. The buffer \<open>line\<close> is the result of
  the operation that fills it, since every use of it starts by emptying it; \<open>indent\<close> is an argument. A loop that
  asks again takes a bound on its rounds, and \<open>conf\<close> a bound on its nested calls (\<open>NoFuel\<close> when it is used up).
  Messages on the standard error output are left out.
\<close>

datatype input_mode =
    oldaskconfig | silentoldconfig | oldconfig | allnoconfig | allyesconfig | allmodconfig | alldefconfig
  | randconfig | defconfig | savedefconfig | listnewconfig | olddefconfig

record console =
  co_in :: string
  co_out :: string
  co_cnt :: nat
  co_root :: "nat option"

text \<open>What does not change while questions are asked.\<close>

record asking =
  as_mode :: input_mode
  as_tty :: bool
  as_valid_stdin :: bool
  as_prefix :: string
  as_root :: mtree
  as_place :: "nat \<Rightarrow> string \<times> nat"

text \<open>\<open>None\<close>: the program has ended (\<open>exit(1)\<close>).\<close>

type_synonym ('c, 'a) rm = "'c \<Rightarrow> ('a option \<times> 'c) km"

type_synonym 'a cm = "(console, 'a) rm"

definition cret :: "'a \<Rightarrow> ('c, 'a) rm" where "cret x = (\<lambda>c. kret (Some x, c))"

definition cbind :: "('c, 'a) rm \<Rightarrow> ('a \<Rightarrow> ('c, 'b) rm) \<Rightarrow> ('c, 'b) rm" where
  "cbind m f = (\<lambda>c. kbind (m c) (\<lambda>(x, c'). case x of None \<Rightarrow> kret (None, c') | Some y \<Rightarrow> f y c'))"

definition cseq :: "('c, unit) rm \<Rightarrow> ('c, 'b) rm \<Rightarrow> ('c, 'b) rm" where "cseq m m' = cbind m (\<lambda>_. m')"

definition clift :: "'a km \<Rightarrow> ('c, 'a) rm" where "clift m = (\<lambda>c. kbind m (\<lambda>x. kret (Some x, c)))"

definition cget :: "('c \<Rightarrow> 'a) \<Rightarrow> ('c, 'a) rm" where "cget f = (\<lambda>c. kret (Some (f c), c))"

definition cmod :: "('c \<Rightarrow> 'c) \<Rightarrow> ('c, unit) rm" where "cmod f = (\<lambda>c. kret (Some (), f c))"

definition cexit :: "('c, 'a) rm" where "cexit = (\<lambda>c. kret (None, c))"

definition cstuck :: "('c, 'a) rm" where "cstuck = (\<lambda>c st. NoFuel)"

definition cwhen :: "bool \<Rightarrow> ('c, unit) rm \<Rightarrow> ('c, unit) rm" where "cwhen b m = (if b then m else cret ())"

definition cprint :: "string \<Rightarrow> unit cm" where
  "cprint s = cmod (\<lambda>c. c\<lparr>co_out := co_out c @ s\<rparr>)"

fun cfold :: "('b \<Rightarrow> 'a \<Rightarrow> ('c, 'a) rm) \<Rightarrow> 'b list \<Rightarrow> 'a \<Rightarrow> ('c, 'a) rm" where
  "cfold f [] acc = cret acc"
| "cfold f (x # xs) acc = cbind (f x acc) (cfold f xs)"

fun cfor :: "'b list \<Rightarrow> ('b \<Rightarrow> ('c, unit) rm) \<Rightarrow> ('c, unit) rm" where
  "cfor [] f = cret ()"
| "cfor (x # xs) f = cseq (f x) (cfor xs f)"

section \<open>Reading and printing\<close>

definition spaces :: "nat \<Rightarrow> string" where "spaces n = replicate n CHR '' ''"

definition strip :: "string \<Rightarrow> string" where
  "strip s = rev (dropWhile is_space (rev (dropWhile is_space s)))"

text \<open>\<open>fgets\<close> reads at most \<open>n\<close> characters, up to and including a newline.\<close>

fun take_line :: "nat \<Rightarrow> string \<Rightarrow> string \<times> string" where
  "take_line 0 s = ([], s)"
| "take_line (Suc n) [] = ([], [])"
| "take_line (Suc n) (c # s) =
     (if c = CHR 0x0A then ([c], s) else (case take_line n s of (a, b) \<Rightarrow> (c # a, b)))"

text \<open>\<open>xfgets\<close> into a buffer with the text \<open>old\<close>, which stays at the end of the input. The text ends at a
  null byte.\<close>

definition xfgets :: "string \<Rightarrow> nat \<Rightarrow> string cm" where
  "xfgets old n =
     cbind (cget co_in) (\<lambda>inp.
       if inp = [] then cret old
       else (case take_line (n - 1) inp of (l, rest) \<Rightarrow>
         cseq (cmod (\<lambda>c. c\<lparr>co_in := rest\<rparr>)) (cret (takeWhile (\<lambda>x. x \<noteq> CHR 0x00) l))))"

definition print_help :: "asking \<Rightarrow> menu \<Rightarrow> unit cm" where
  "print_help A m =
     cbind (clift (menu_get_ext_help (as_prefix A) (as_root A) (as_place A) m str_new)) (\<lambda>help.
       cprint (newline @ str_get help @ newline))"

definition check_stdin :: "asking \<Rightarrow> unit cm" where
  "check_stdin A =
     (if as_valid_stdin A then cret ()
      else cseq (cprint (''aborted!'' @ newline @ newline @ ''Console input/output is redirected. '' @
                         ''Run 'make oldconfig' to update configuration.'' @ newline @ newline))
                cexit)"

text \<open>The result is whether there is an answer to look at, and the buffer.\<close>

definition conf_askvalue :: "asking \<Rightarrow> sref \<Rightarrow> string \<Rightarrow> (bool \<times> string) cm" where
  "conf_askvalue A r def =
     cbind (clift (kget (\<lambda>st. (sym_get_type st r, sym_has_value (sym_at st r), sym_is_changable st r)))) (\<lambda>(ty, has, changable).
     let read = cbind (xfgets newline 128) (\<lambda>l. cseq (cwhen (\<not> as_tty A) (cprint newline)) (cret (True, l))) in
     cseq (cwhen (\<not> has) (cprint ''(NEW) ''))
       (if \<not> changable then cseq (cprint (def @ newline)) (cret (False, newline))
        else if as_mode A = oldconfig \<or> as_mode A = silentoldconfig
        then if has then cseq (cprint (def @ newline)) (cret (False, newline)) else cseq (check_stdin A) read
        else if as_mode A = oldaskconfig then read
        else if ty = S_INT \<or> ty = S_HEX \<or> ty = S_STRING then cseq (cprint (def @ newline)) (cret (True, newline))
        else cseq (cprint newline) (cret (True, newline))))"

text \<open>The text of the prompt of an entry that is asked about; it has one.\<close>

definition prompt_text :: "menu \<Rightarrow> string km" where
  "prompt_text m = kbind (kget (\<lambda>st. prompt_prop st m)) (\<lambda>p. case p of None \<Rightarrow> kcrash | Some q \<Rightarrow> kret (name_str (p_text q)))"

section \<open>Strings and numbers\<close>

text \<open>What \<open>conf_string\<close> makes of the buffer: a value to set, or \<open>None\<close> to ask again after the help. With an empty
  buffer the code writes in front of it.\<close>

datatype string_answer = Take string | ShowHelp | Overwrite

definition string_answer :: "string \<Rightarrow> string \<Rightarrow> string_answer" where
  "string_answer def l =
     (if take 1 l = newline then Take def
      else if take 2 l = ''?'' @ newline then ShowHelp
      else if l = [] then Overwrite
      else Take (butlast l))"

definition ask_string :: "asking \<Rightarrow> nat \<Rightarrow> menu \<Rightarrow> sref \<Rightarrow> (string \<times> bool \<times> string) cm" where
  "ask_string A ind m r =
     cbind (clift (prompt_text m)) (\<lambda>p.
     cbind (clift (ksym r)) (\<lambda>s.
     cseq (cprint (spaces (ind - 1) @ p @ '' ('' @ name_str (s_name s) @ '') ''))
     (cbind (clift (get_string sym_calc r)) (\<lambda>def.
      cseq (cprint (''['' @ def @ ''] ''))
     (cbind (conf_askvalue A r def) (\<lambda>(answered, l). cret (def, answered, l)))))))"

fun conf_string :: "asking \<Rightarrow> nat \<Rightarrow> nat \<Rightarrow> menu \<Rightarrow> sref \<Rightarrow> unit cm" where
  "conf_string A 0 ind m r = cstuck"
| "conf_string A (Suc n) ind m r =
     cbind (ask_string A ind m r) (\<lambda>(def, answered, l).
       if \<not> answered then cret ()
       else (case string_answer def l of
           Overwrite \<Rightarrow> clift kcrash
         | ShowHelp \<Rightarrow> cseq (print_help A m) (conf_string A n ind m r)
         | Take v \<Rightarrow> cbind (clift (sym_set_string_value r v)) (\<lambda>b.
             if b then cret () else conf_string A n ind m r)))"

section \<open>Tristates\<close>

datatype tri_answer = Set tristate | Again | Explain

definition tri_answer :: "tristate \<Rightarrow> string \<Rightarrow> tri_answer" where
  "tri_answer oldval l =
     (case l of
        [] \<Rightarrow> Set oldval
      | c # t \<Rightarrow>
          if c = CHR ''n'' \<or> c = CHR ''N'' then (if t = [] \<or> t = ''o'' then Set TNo else Again)
          else if c = CHR ''m'' \<or> c = CHR ''M'' then (if t = [] then Set TMod else Again)
          else if c = CHR ''y'' \<or> c = CHR ''Y'' then (if t = [] \<or> t = ''es'' then Set TYes else Again)
          else if c = CHR ''?'' then Explain
          else Again)"

definition tri_choices :: "kst \<Rightarrow> sref \<Rightarrow> bool \<Rightarrow> string" where
  "tri_choices st r help =
     (let oldval = sym_get_tristate_value st r;
          may = (\<lambda>t. oldval \<noteq> t \<and> sym_tristate_within_range st r t)
      in ''['' @ (case oldval of TNo \<Rightarrow> ''N'' | TMod \<Rightarrow> ''M'' | TYes \<Rightarrow> ''Y'') @
         (if may TNo then ''/n'' else []) @ (if may TMod then ''/m'' else []) @ (if may TYes then ''/y'' else []) @
         (if help then ''/?'' else []) @ ''] '')"

definition ask_tristate :: "asking \<Rightarrow> nat \<Rightarrow> menu \<Rightarrow> sref \<Rightarrow> (tristate \<times> bool \<times> string) cm" where
  "ask_tristate A ind m r =
     cbind (clift (prompt_text m)) (\<lambda>p.
     cbind (clift (ksym r)) (\<lambda>s.
     cseq (cprint (spaces (ind - 1) @ p @ '' '' @ (case s_name s of Some n \<Rightarrow> ''('' @ n @ '') '' | None \<Rightarrow> [])))
     (cbind (clift (kget (\<lambda>st. tri_choices st r (menu_has_help m)))) (\<lambda>t.
      cseq (cprint t)
     (cbind (clift (kget (\<lambda>st. sym_get_tristate_value st r))) (\<lambda>oldval.
      cbind (clift (get_string sym_calc r)) (\<lambda>def.
      cbind (conf_askvalue A r def) (\<lambda>(answered, l). cret (oldval, answered, strip l)))))))))"

fun conf_sym :: "asking \<Rightarrow> nat \<Rightarrow> nat \<Rightarrow> menu \<Rightarrow> sref \<Rightarrow> unit cm" where
  "conf_sym A 0 ind m r = cstuck"
| "conf_sym A (Suc n) ind m r =
     cbind (ask_tristate A ind m r) (\<lambda>(oldval, answered, l).
       if \<not> answered then cret ()
       else (case tri_answer oldval l of
           Again \<Rightarrow> conf_sym A n ind m r
         | Explain \<Rightarrow> cseq (print_help A m) (conf_sym A n ind m r)
         | Set v \<Rightarrow> cbind (clift (sym_set_tristate_value r v)) (\<lambda>b.
             if b then cret () else cseq (print_help A m) (conf_sym A n ind m r))))"


section \<open>Choices\<close>

text \<open>One line of the list of a choice; the number of symbols listed and that of the present value.\<close>

definition choice_line :: "nat \<Rightarrow> sref option \<Rightarrow> mtree \<Rightarrow> nat \<times> nat \<Rightarrow> (nat \<times> nat) cm" where
  "choice_line ind def_sym t acc =
     cbind (clift (menu_is_visible t)) (\<lambda>v.
       if \<not> v then cret acc
       else cbind (clift (kget (\<lambda>st. name_str (menu_get_prompt st (mt_menu t))))) (\<lambda>p.
         (case m_sym (mt_menu t) of
            None \<Rightarrow> cseq (cprint (spaces (ind - 1) @ ''* '' @ p @ newline)) (cret acc)
          | Some r \<Rightarrow>
              cbind (clift (ksym r)) (\<lambda>s.
              let cnt = fst acc + 1 in
              cseq (cprint (spaces (ind - 1) @ (if Some r = def_sym then ''>'' else '' '') @ '' '' @ nat_str cnt @ ''. '' @ p @
                      (case s_name s of Some n \<Rightarrow> '' ('' @ n @ '')'' | None \<Rightarrow> []) @
                      (if \<not> sym_has_value s then '' (NEW)'' else []) @ newline))
                (cret (cnt, if Some r = def_sym then cnt else snd acc))))))"

text \<open>What the answer means: a number, or the question is asked again, with the help before if \<open>True\<close>.\<close>

datatype choice_answer = Pick int | Repeat bool

definition choice_answer :: "nat \<Rightarrow> string \<Rightarrow> choice_answer" where
  "choice_answer def l =
     (case l of
        [] \<Rightarrow> Pick (int def)
      | c # t \<Rightarrow> if c = CHR ''?'' then Repeat True else if is_digit c then Pick (atoi l) else Repeat False)"

text \<open>The number and the text of the answer.\<close>

definition ask_choice :: "asking \<Rightarrow> nat \<Rightarrow> menu \<Rightarrow> bool \<Rightarrow> nat \<times> nat \<Rightarrow> (choice_answer \<times> string) cm" where
  "ask_choice A ind m is_new acc =
     (case acc of (cnt, def) \<Rightarrow>
        let read = cbind (xfgets [] 128) (\<lambda>l. cret (choice_answer def (strip l), strip l)) in
        cseq (cprint (spaces (ind - 1) @ ''choice''))
        (if cnt = 1 then cseq (cprint (''[1]: 1'' @ newline)) (cret (Pick 1, []))
         else
           cseq (cprint (''[1-'' @ nat_str cnt @ (if menu_has_help m then ''?'' else []) @ '']: ''))
           (if as_mode A = oldconfig \<or> as_mode A = silentoldconfig
            then if \<not> is_new then cseq (cprint (nat_str def @ newline)) (cret (Pick (int def), []))
                 else cseq (check_stdin A) read
            else if as_mode A = oldaskconfig then read
            else cret (Pick (int cnt), []))))"

text \<open>The visible symbol with the number \<open>cnt\<close>.\<close>

fun pick_child :: "int \<Rightarrow> mtree list \<Rightarrow> mtree option km" where
  "pick_child cnt [] = kret None"
| "pick_child cnt (t # ts) =
     (if m_sym (mt_menu t) = None then pick_child cnt ts
      else kbind (menu_is_visible t) (\<lambda>v.
        if \<not> v then pick_child cnt ts
        else if cnt - 1 = 0 then kret (Some t)
        else pick_child (cnt - 1) ts))"

text \<open>\<open>sym_get_choice_value\<close> and \<open>sym_set_choice_value\<close> of \<open>lkc.h\<close>.\<close>

definition sym_get_choice_value :: "kst \<Rightarrow> sref \<Rightarrow> sref option" where
  "sym_get_choice_value st r = (case s_val (sym_at st r) of VSym d \<Rightarrow> Some d | _ \<Rightarrow> None)"

definition sym_set_choice_value :: "sref \<Rightarrow> sref \<Rightarrow> bool km" where
  "sym_set_choice_value ch chval = sym_set_tristate_value chval TYes"

text \<open>The loop of \<open>conf_choice\<close>; the result is the chosen entry.\<close>

fun choice_loop :: "asking \<Rightarrow> nat \<Rightarrow> nat \<Rightarrow> mtree \<Rightarrow> sref \<Rightarrow> bool \<Rightarrow> mtree cm" where
  "choice_loop A 0 ind t r is_new = cstuck"
| "choice_loop A (Suc n) ind t r is_new =
     cbind (clift (kget (\<lambda>st. name_str (menu_get_prompt st (mt_menu t))))) (\<lambda>p.
     cseq (cprint (spaces (ind - 1) @ p @ newline))
     (cbind (clift (kget (\<lambda>st. sym_get_choice_value st r))) (\<lambda>def_sym.
      cbind (cfold (choice_line ind def_sym) (mt_list t) (0, 0)) (\<lambda>acc.
      cbind (ask_choice A ind (mt_menu t) is_new acc) (\<lambda>(ans, l).
        (case ans of
           Repeat h \<Rightarrow> cseq (cwhen h (print_help A (mt_menu t))) (choice_loop A n ind t r is_new)
         | Pick cnt \<Rightarrow>
             cbind (clift (pick_child cnt (mt_list t))) (\<lambda>ch. case ch of
               None \<Rightarrow> choice_loop A n ind t r is_new
             | Some c \<Rightarrow>
                 if l \<noteq> [] \<and> List.last l = CHR ''?''
                 then cseq (print_help A (mt_menu c)) (choice_loop A n ind t r is_new)
                 else (case m_sym (mt_menu c) of
                     None \<Rightarrow> cret c
                   | Some v \<Rightarrow> cbind (clift (sym_set_choice_value r v)) (\<lambda>_. cret c)))))))))"

text \<open>What \<open>conf_choice\<close> does before its loop: whether there is something to choose.\<close>

definition choice_open :: "asking \<Rightarrow> nat \<Rightarrow> nat \<Rightarrow> mtree \<Rightarrow> sref \<Rightarrow> bool cm" where
  "choice_open A n ind t r =
     cbind (clift (kget (\<lambda>st. sym_is_changable st r))) (\<lambda>changable.
     cseq (cwhen changable (cseq (conf_sym A n ind (mt_menu t) r) (clift (sym_calc r))))
     (cbind (clift (kget (\<lambda>st. (sym_get_tristate_value st r, name_str (menu_get_prompt st (mt_menu t)))))) (\<lambda>(v, p).
      cseq (cwhen (\<not> changable \<and> v = TMod) (cprint (spaces (ind - 1) @ p @ newline)))
        (cret (v = TYes)))))"

section \<open>The walk\<close>

definition is_menu :: "mtree \<Rightarrow> bool km" where
  "is_menu t = kget (\<lambda>st. case prompt_prop st (mt_menu t) of Some p \<Rightarrow> p_kind p = P_MENU | None \<Rightarrow> False)"

definition conf_heading :: "nat \<Rightarrow> mtree \<Rightarrow> unit cm" where
  "conf_heading ind t =
     cbind (clift (kget (\<lambda>st. (prompt_prop st (mt_menu t), menu_get_prompt st (mt_menu t))))) (\<lambda>(po, p).
       (case (po, p) of
          (Some q, Some txt) \<Rightarrow>
            cwhen (p_kind q = P_MENU \<or> p_kind q = P_COMMENT)
              (cprint (spaces (ind - 1) @ ''*'' @ newline @ spaces (ind - 1) @ ''* '' @ txt @ newline @
                       spaces (ind - 1) @ ''*'' @ newline))
        | _ \<Rightarrow> cret ()))"

text \<open>\<open>menu_get_parent_menu\<close> as an entry of the tree.\<close>

definition parent_menu :: "asking \<Rightarrow> mtree \<Rightarrow> mtree km" where
  "parent_menu A t =
     kget (\<lambda>st. case path_to (tree_id t) (as_root A) of
         None \<Rightarrow> as_root A
       | Some path \<Rightarrow>
           (case menu_get_parent_menu st (map mt_menu path) of
              None \<Rightarrow> as_root A
            | Some m \<Rightarrow> (case find (\<lambda>u. mt_menu u = m) path of Some u \<Rightarrow> u | None \<Rightarrow> as_root A)))"

text \<open>Whether \<open>check_conf\<close> treats the symbol of an entry as new.\<close>

definition needs_value :: "kst \<Rightarrow> sref \<Rightarrow> bool" where
  "needs_value st r \<longleftrightarrow> \<not> sym_has_value (sym_at st r) \<and>
     (sym_is_changable st r \<or> sym_is_choice (sym_at st r) \<and> sym_get_tristate_value st r = TYes)"

definition list_new :: "asking \<Rightarrow> sref \<Rightarrow> unit cm" where
  "list_new A r =
     cbind (clift (ksym r)) (\<lambda>s. case s_name s of
       None \<Rightarrow> cret ()
     | Some n \<Rightarrow> cwhen (\<not> sym_is_choice_value s) (cprint (as_prefix A @ n @ newline)))"

definition restart_message :: string where
  "restart_message = ''*'' @ newline @ ''* Restart config...'' @ newline @ ''*'' @ newline"

definition count_restart :: "unit cm" where
  "count_restart =
     cbind (cget co_cnt) (\<lambda>k. cseq (cmod (\<lambda>c. c\<lparr>co_cnt := k + 1\<rparr>)) (cwhen (k = 0) (cprint restart_message)))"

text \<open>The bodies of \<open>conf\<close> and \<open>check_conf\<close>, with the recursive calls as arguments.\<close>

definition conf_choice :: "asking \<Rightarrow> nat \<Rightarrow> (nat \<Rightarrow> mtree \<Rightarrow> unit cm) \<Rightarrow> nat \<Rightarrow> mtree \<Rightarrow> sref \<Rightarrow> bool \<Rightarrow> unit cm" where
  "conf_choice A n rec ind t r is_new =
     cbind (choice_open A n ind t r) (\<lambda>go.
       if go then cbind (choice_loop A n ind t r is_new) (\<lambda>c. cfor (mt_list c) (rec (ind + 2))) else cret ())"

definition conf_body ::
  "asking \<Rightarrow> nat \<Rightarrow> (nat \<Rightarrow> mtree \<Rightarrow> unit cm) \<Rightarrow> (nat \<Rightarrow> mtree \<Rightarrow> unit cm) \<Rightarrow> nat \<Rightarrow> mtree \<Rightarrow> unit cm" where
  "conf_body A n rec check ind t =
     cbind (clift (menu_is_visible t)) (\<lambda>v.
     if \<not> v then cret ()
     else
       cbind (clift (is_menu t)) (\<lambda>isMenu. cbind (cget co_root) (\<lambda>rootEntry.
       if isMenu \<and> as_mode A \<in> {silentoldconfig, listnewconfig, olddefconfig} \<and> rootEntry \<noteq> Some (tree_id t)
       then check ind t
       else cseq (conf_heading ind t)
         (case m_sym (mt_menu t) of
            None \<Rightarrow> cfor (mt_list t) (rec ind)
          | Some r \<Rightarrow>
              cbind (clift (ksym r)) (\<lambda>s.
              if sym_is_choice s then
                cseq (conf_choice A n rec ind t r (\<not> sym_has_value s))
                (cbind (clift (ksym r)) (\<lambda>s1.
                 if s_tri s1 \<noteq> TMod then cret () else cfor (mt_list t) (rec (ind + 2))))
              else
                cseq (if s_type s = S_INT \<or> s_type s = S_HEX \<or> s_type s = S_STRING
                      then conf_string A n ind (mt_menu t) r
                      else conf_sym A n ind (mt_menu t) r)
                     (cfor (mt_list t) (rec (ind + 2))))))))"

definition check_entry :: "asking \<Rightarrow> (nat \<Rightarrow> mtree \<Rightarrow> unit cm) \<Rightarrow> nat \<Rightarrow> mtree \<Rightarrow> sref \<Rightarrow> unit cm" where
  "check_entry A rec ind t r =
     cbind (clift (kget (\<lambda>st. needs_value st r))) (\<lambda>new.
       if \<not> new then cret ()
       else if as_mode A = listnewconfig then list_new A r
       else if as_mode A = olddefconfig then cret ()
       else cseq count_restart
         (cbind (clift (parent_menu A t)) (\<lambda>u.
          cseq (cmod (\<lambda>c. c\<lparr>co_root := Some (tree_id u)\<rparr>)) (rec ind u))))"

definition check_body ::
  "asking \<Rightarrow> (nat \<Rightarrow> mtree \<Rightarrow> unit cm) \<Rightarrow> (nat \<Rightarrow> mtree \<Rightarrow> unit cm) \<Rightarrow> nat \<Rightarrow> mtree \<Rightarrow> unit cm" where
  "check_body A rec check ind t =
     cbind (clift (menu_is_visible t)) (\<lambda>v.
     if \<not> v then cret ()
     else cseq (case m_sym (mt_menu t) of None \<Rightarrow> cret () | Some r \<Rightarrow> check_entry A rec ind t r)
            (cfor (mt_list t) (check ind)))"

fun conf :: "asking \<Rightarrow> nat \<Rightarrow> nat \<Rightarrow> mtree \<Rightarrow> unit cm"
  and check_conf :: "asking \<Rightarrow> nat \<Rightarrow> nat \<Rightarrow> mtree \<Rightarrow> unit cm" where
  "conf A 0 ind t = cstuck"
| "conf A (Suc n) ind t = conf_body A n (\<lambda>i u. conf A n i u) (\<lambda>i u. check_conf A n i u) ind t"
| "check_conf A 0 ind t = cstuck"
| "check_conf A (Suc n) ind t = check_body A (\<lambda>i u. conf A n i u) (\<lambda>i u. check_conf A n i u) ind t"

end
