(* ===== verification/KAuto.thy ===== *)
theory KAuto
  imports KWrite
begin

text \<open>
  What a build reads: \<open>conf_split_config\<close> and \<open>conf_write_autoconf\<close> of \<open>confdata.c\<close>, the list of read files and
  its dependency file of \<open>util.c\<close>.
\<close>

section \<open>One file per changed symbol\<close>

text \<open>Whether the value differs from the one in the old \<open>auto.conf\<close>.\<close>

definition config_changed :: "sref \<Rightarrow> bool km" where
  "config_changed r =
     kbind (ksym r) (\<lambda>s.
       if has_flag SYMBOL_WRITE s then
         (if has_flag SYMBOL_DEF_AUTO s then
            (if s_type s = S_BOOLEAN \<or> s_type s = S_TRISTATE then kret (s_tri s \<noteq> snd (s_def s ! 1))
             else if s_type s = S_STRING \<or> s_type s = S_HEX \<or> s_type s = S_INT
             then kbind (get_string sym_calc r) (\<lambda>v. kret (v \<noteq> val_str (fst (s_def s ! 1))))
             else kret True)
          else kret (\<not> ((s_type s = S_BOOLEAN \<or> s_type s = S_TRISTATE) \<and> s_tri s = TNo)))
       else kret (has_flag SYMBOL_DEF_AUTO s))"

definition symbol_path :: "string \<Rightarrow> string" where
  "symbol_path name = map (\<lambda>c. if to_lower c = CHR ''_'' then CHR ''/'' else to_lower c) name @ ''.h''"

text \<open>The directories of a path, outermost first, and their creation unless they exist.\<close>

fun dir_prefixes :: "string \<Rightarrow> string \<Rightarrow> string list" where
  "dir_prefixes d [] = []"
| "dir_prefixes d (c # p) = (if c = CHR ''/'' then d # dir_prefixes (d @ [c]) p else dir_prefixes (d @ [c]) p)"

fun make_dirs :: "wenv \<Rightarrow> string list \<Rightarrow> file_op list \<Rightarrow> bool \<times> file_op list" where
  "make_dirs W [] ops = (True, ops)"
| "make_dirs W (d # ds) ops =
     (if we_stat W ops d then make_dirs W ds ops
      else if we_mkdir W ops d then make_dirs W ds (ops @ [FMkdir d]) else (False, ops))"

text \<open>\<open>we_open\<close>: opened, no such directory (\<open>Some False\<close>), or another error.\<close>

definition touch_file :: "wenv \<Rightarrow> string \<Rightarrow> file_op list \<Rightarrow> bool \<times> file_op list" where
  "touch_file W path ops =
     (case we_open W ops path of
        Some True \<Rightarrow> (True, ops @ [FWrite path []])
      | None \<Rightarrow> (False, ops)
      | Some False \<Rightarrow>
          (case make_dirs W (dir_prefixes [] path) ops of
             (False, ops') \<Rightarrow> (False, ops')
           | (True, ops') \<Rightarrow>
               if we_open W ops' path = Some True then (True, ops' @ [FWrite path []]) else (False, ops')))"

fun split_loop :: "wenv \<Rightarrow> sref list \<Rightarrow> file_op list \<Rightarrow> (bool \<times> file_op list) km" where
  "split_loop W [] ops = kret (True, ops)"
| "split_loop W (r # rs) ops =
     kseq (sym_calc r) (kbind (ksym r) (\<lambda>s. case s_name s of
       None \<Rightarrow> split_loop W rs ops
     | Some name \<Rightarrow>
         if has_flag SYMBOL_AUTO s then split_loop W rs ops
         else kbind (config_changed r) (\<lambda>ch.
           if \<not> ch then split_loop W rs ops
           else (case touch_file W (symbol_path name) ops of
               (True, ops') \<Rightarrow> split_loop W rs ops'
             | (False, ops') \<Rightarrow> kret (False, ops')))))"

text \<open>The directory part of a path, as \<open>dirname\<close> cuts it off a file name.\<close>

definition dir_name :: "string \<Rightarrow> string" where
  "dir_name p = (case last_slash p of None \<Rightarrow> ''.'' | Some (d, _) \<Rightarrow> if d = ''/'' then d else butlast d)"

text \<open>
  The result is whether it failed. Without \<open>KCONFIG_AUTOCONFIG\<close> in the environment the name is \<open>NULL\<close>, which
  \<open>strdup\<close> follows.
\<close>

definition conf_split_config :: "wenv \<Rightarrow> file_op list \<Rightarrow> (bool \<times> file_op list) km" where
  "conf_split_config W ops =
     (let name = conf_get_autoconfig_name (we_env W) in
      kbind (conf_read_simple (we_env W) name 1) (\<lambda>_.
        case name of
          None \<Rightarrow> kcrash
        | Some n \<Rightarrow>
            if \<not> we_chdir W (dir_name n) then kret (True, ops)
            else kbind (kget all_symbols) (\<lambda>rs.
                 kbind (split_loop W rs (ops @ [FChdir (dir_name n)])) (\<lambda>(good, ops').
                   if we_chdir W (we_cwd W) then kret (\<not> good, ops' @ [FChdir (we_cwd W)])
                   else kret (True, ops')))))"

section \<open>The files a build includes\<close>

definition config_dir :: "kenv \<Rightarrow> string" where
  "config_dir e = (case last_slash (conf_get_configname e) of Some (d, _) \<Rightarrow> d | None \<Rightarrow> [])"

text \<open>\<open>file_lookup\<close>: the list of files, newest first; the given name is compared, the expanded one stored.\<close>

definition file_lookup :: "string \<Rightarrow> string list \<Rightarrow> (string \<times> string list) km" where
  "file_lookup name files =
     kbind (sym_expand_string_value name) (\<lambda>ex.
       if name \<in> set files then kret (name, files) else kret (ex, ex # files))"

fun dep_files :: "string list \<Rightarrow> string" where
  "dep_files [] = []"
| "dep_files [f] = CHR 0x09 # f @ newline"
| "dep_files (f # fs) = CHR 0x09 # f @ '' '' @ [CHR 0x5C] @ newline @ dep_files fs"

definition dquote :: string where "dquote = [CHR 0x22]"

definition env_dep :: "kenv \<Rightarrow> kst \<Rightarrow> sref \<Rightarrow> string" where
  "env_dep e st r =
     (case Option.bind (sym_get_env_prop (sym_at st r)) prop_get_symbol of
        None \<Rightarrow> []
      | Some es \<Rightarrow>
          (let n = name_str (s_name (sym_at st es));
               v = (case ke_getenv e n of Some v \<Rightarrow> v | None \<Rightarrow> [])
           in ''ifneq '' @ dquote @ ''$('' @ n @ '')'' @ dquote @ '' '' @ dquote @ v @ dquote @ newline @
              name_str (conf_get_autoconfig_name e) @ '': FORCE'' @ newline @ ''endif'' @ newline))"

definition dep_text :: "kenv \<Rightarrow> string list \<Rightarrow> kst \<Rightarrow> string" where
  "dep_text e files st =
     ''deps_config := '' @ [CHR 0x5C] @ newline @ dep_files files @
     newline @ name_str (conf_get_autoconfig_name e) @ '': '' @ [CHR 0x5C] @ newline @
     [CHR 0x09] @ ''$(deps_config)'' @ newline @ newline @
     concat (map (env_dep e st) (ks_env_list st)) @
     newline @ ''$(deps_config): ;'' @ newline"

definition file_write_dep :: "wenv \<Rightarrow> string list \<Rightarrow> string option \<Rightarrow> kst \<Rightarrow> bool \<times> file_op list" where
  "file_write_dep W files name st =
     (let n = (case name of Some n \<Rightarrow> n | None \<Rightarrow> ''.kconfig.d'');
          dir = config_dir (we_env W);
          tmp = dir @ ''..config.tmp''; new = dir @ n
      in if \<not> we_can_write W tmp then (True, [])
         else (False, FWrite tmp (dep_text (we_env W) files st) #
                      (if we_can_rename W tmp new then [FRename tmp new] else [])))"

definition env_or :: "kenv \<Rightarrow> string \<Rightarrow> string \<Rightarrow> string" where
  "env_or e v d = (case ke_getenv e v of Some x \<Rightarrow> x | None \<Rightarrow> d)"

text \<open>The renames at the end, in order, up to the first that fails.\<close>

fun rename_all :: "wenv \<Rightarrow> (string \<times> string) list \<Rightarrow> file_op list \<Rightarrow> bool \<times> file_op list" where
  "rename_all W [] ops = (False, ops)"
| "rename_all W ((a, b) # rs) ops =
     (if we_can_rename W a b then rename_all W rs (ops @ [FRename a b]) else (True, ops))"

text \<open>
  \<open>conf_write_autoconf\<close>. The name of the dependency file contains the directory, which \<open>file_write_dep\<close> puts
  in front once more. A name of \<open>auto.conf\<close> that is \<open>NULL\<close> never gets past \<open>conf_split_config\<close>.
\<close>

definition conf_write_autoconf :: "wenv \<Rightarrow> string list \<Rightarrow> string \<Rightarrow> (bool \<times> file_op list) km" where
  "conf_write_autoconf W files root_prompt =
     (let e = we_env W; dir = config_dir e;
          tc = dir @ ''.tmpconfig''; tt = dir @ ''.tmpconfig_tristate''; th = dir @ ''.tmpconfig.h''
      in kseq sym_clear_all_valid
         (kbind (kget (\<lambda>st. snd (file_write_dep W files (Some (dir @ ''.config.cmd'')) st))) (\<lambda>ops0.
          kbind (conf_split_config W ops0) (\<lambda>(failed, ops1).
          if failed \<or> \<not> we_can_write W tc then kret (True, ops1)
          else if \<not> we_can_write W tt then kret (True, ops1 @ [FWrite tc []])
          else if \<not> we_can_write W th then kret (True, ops1 @ [FWrite tc [], FWrite tt []])
          else kbind (autoconf_texts (CONFIG_prefix e) root_prompt) (\<lambda>(a, t, h).
            kret (rename_all W
              [(th, env_or e ''KCONFIG_AUTOHEADER'' ''include/generated/autoconf.h''),
               (tt, env_or e ''KCONFIG_TRISTATE'' ''include/config/tristate.conf''),
               (tc, name_str (conf_get_autoconfig_name e))]
              (ops1 @ [FWrite tc a, FWrite tt t, FWrite th h])))))))"

end
