(* ===== verification/KFront.thy ===== *)
theory KFront
  imports KAsk KAuto
begin

text \<open>
  \<open>main\<close> of \<open>buildroot/support/kconfig/conf.c\<close> from the point where the configuration files have been parsed: the
  options as \<open>getopt_long\<close> returns them, the configuration that is read, the values or questions of the chosen
  mode, and what is written. The environment, the random numbers and the outcome of file operations are
  parameters; the result is the exit status with the operations on files, \<open>Crash\<close>, or \<open>NoFuel\<close>.
\<close>

section \<open>Options\<close>

text \<open>An option with its argument, or the \<open>'?'\<close> for an unknown one.\<close>

datatype conf_opt = Opt input_mode "string option" | BadOpt

record conf_args =
  ca_mode :: input_mode
  ca_sync :: bool
  ca_file :: "string option"

definition no_args :: conf_args where
  "no_args = \<lparr>ca_mode = oldaskconfig, ca_sync = False, ca_file = None\<rparr>"

definition conf_option :: "input_mode \<Rightarrow> string option \<Rightarrow> conf_args \<Rightarrow> conf_args" where
  "conf_option m arg a =
     (let a1 = a\<lparr>ca_mode := m\<rparr>
      in if m = silentoldconfig then a1\<lparr>ca_sync := True\<rparr>
         else if m = defconfig \<or> m = savedefconfig then a1\<lparr>ca_file := arg\<rparr>
         else a1)"

text \<open>\<open>None\<close>: the usage is printed (which is left out) and the program exits.\<close>

fun conf_options :: "conf_opt list \<Rightarrow> conf_args \<Rightarrow> conf_args option" where
  "conf_options [] a = Some a"
| "conf_options (Opt m arg # os) a = conf_options os (conf_option m arg a)"
| "conf_options (BadOpt # os) a = None"

section \<open>Reading\<close>

definition allconfig_name :: "input_mode \<Rightarrow> string" where
  "allconfig_name m =
     (case m of allnoconfig \<Rightarrow> ''allno.config'' | allyesconfig \<Rightarrow> ''allyes.config'' | allmodconfig \<Rightarrow> ''allmod.config''
      | alldefconfig \<Rightarrow> ''alldef.config'' | randconfig \<Rightarrow> ''allrandom.config'' | _ \<Rightarrow> [])"

definition read_allconfig :: "kenv \<Rightarrow> input_mode \<Rightarrow> bool km" where
  "read_allconfig e m =
     (case ke_getenv e ''KCONFIG_ALLCONFIG'' of
        None \<Rightarrow> kret True
      | Some name \<Rightarrow>
          if name \<noteq> [] \<and> name \<noteq> ''1'' then kbind (conf_read_simple e (Some name) 0) (\<lambda>bad. kret (\<not> bad))
          else kbind (conf_read_simple e (Some (allconfig_name m)) 0) (\<lambda>bad.
            if \<not> bad then kret True
            else kbind (conf_read_simple e (Some ''all.config'') 0) (\<lambda>bad2. kret (\<not> bad2))))"

text \<open>Whether the program goes on.\<close>

definition read_phase :: "kenv \<Rightarrow> conf_args \<Rightarrow> bool km" where
  "read_phase e a =
     (case ca_mode a of
        defconfig \<Rightarrow>
          kbind (case ca_file a of Some f \<Rightarrow> kret f | None \<Rightarrow> conf_get_default_confname e) (\<lambda>f.
          kbind (conf_read e (Some f)) (\<lambda>bad. kret (\<not> bad)))
      | allnoconfig \<Rightarrow> read_allconfig e allnoconfig
      | allyesconfig \<Rightarrow> read_allconfig e allyesconfig
      | allmodconfig \<Rightarrow> read_allconfig e allmodconfig
      | alldefconfig \<Rightarrow> read_allconfig e alldefconfig
      | randconfig \<Rightarrow> read_allconfig e randconfig
      | _ \<Rightarrow> kbind (conf_read e None) (\<lambda>_. kret True))"

section \<open>Values\<close>

text \<open>\<open>while (conf_set_all_new_symbols(def_random))\<close>; \<open>rnd\<close> has the random numbers of each round.\<close>

fun random_rounds :: "kenv \<Rightarrow> (nat \<Rightarrow> nat \<Rightarrow> nat) \<Rightarrow> nat \<Rightarrow> nat \<Rightarrow> bool km" where
  "random_rounds e rnd 0 i = (\<lambda>st. NoFuel)"
| "random_rounds e rnd (Suc n) i =
     kbind (conf_set_all_new_symbols e (rnd i) def_random) (\<lambda>r. case r of
       None \<Rightarrow> kret False
     | Some changed \<Rightarrow> if changed then random_rounds e rnd n (i + 1) else kret True)"

definition set_new :: "kenv \<Rightarrow> conf_def_mode \<Rightarrow> bool cm" where
  "set_new e m = clift (kbind (conf_set_all_new_symbols e (\<lambda>_. 0) m) (\<lambda>r. kret (r \<noteq> None)))"

text \<open>The loop that asks until nothing changes any more.\<close>

fun check_rounds :: "asking \<Rightarrow> nat \<Rightarrow> unit cm" where
  "check_rounds A 0 = cstuck"
| "check_rounds A (Suc n) =
     cseq (cmod (\<lambda>c. c\<lparr>co_cnt := 0\<rparr>))
     (cseq (check_conf A n 1 (as_root A))
     (cbind (cget co_cnt) (\<lambda>k.
        if k \<noteq> 0 \<and> as_mode A \<noteq> listnewconfig \<and> as_mode A \<noteq> olddefconfig then check_rounds A n else cret ())))"

definition ask_all :: "asking \<Rightarrow> nat \<Rightarrow> unit cm" where
  "ask_all A n =
     (if as_mode A = oldaskconfig
      then cseq (cmod (\<lambda>c. c\<lparr>co_root := Some (tree_id (as_root A))\<rparr>))
             (cseq (conf A n 1 (as_root A)) (check_rounds (A\<lparr>as_mode := silentoldconfig\<rparr>) n))
      else check_rounds A n)"

definition value_phase :: "kenv \<Rightarrow> (nat \<Rightarrow> nat \<Rightarrow> nat) \<Rightarrow> asking \<Rightarrow> nat \<Rightarrow> bool cm" where
  "value_phase e rnd A n =
     (case as_mode A of
        allnoconfig \<Rightarrow> set_new e def_no
      | allyesconfig \<Rightarrow> set_new e def_yes
      | allmodconfig \<Rightarrow> set_new e def_mod
      | alldefconfig \<Rightarrow> set_new e def_default
      | defconfig \<Rightarrow> set_new e def_default
      | randconfig \<Rightarrow> clift (random_rounds e rnd n 0)
      | savedefconfig \<Rightarrow> cret True
      | _ \<Rightarrow> cseq (ask_all A n) (cret True))"

section \<open>Writing\<close>

text \<open>The exit status and the file operations. \<open>files\<close> are the configuration files that were parsed.\<close>

definition write_phase :: "wenv \<Rightarrow> string list \<Rightarrow> string \<Rightarrow> mtree \<Rightarrow> conf_args \<Rightarrow> (nat \<times> file_op list) km" where
  "write_phase W files title root a =
     (if ca_sync a then
        kbind (kget conf_get_changed) (\<lambda>changed.
        kbind (if changed then conf_write W None title (mt_list root) else kret (False, [])) (\<lambda>(bad, ops).
          if bad then kret (1, ops)
          else kbind (conf_write_autoconf W files title) (\<lambda>(bad2, ops2). kret (if bad2 then 1 else 0, ops @ ops2))))
      else if ca_mode a = savedefconfig then
        (case ca_file a of
           None \<Rightarrow> kcrash
         | Some f \<Rightarrow> kbind (conf_write_defconfig W f (mt_list root)) (\<lambda>(bad, ops). kret (if bad then 1 else 0, ops)))
      else if ca_mode a \<noteq> listnewconfig then
        kbind (conf_write W None title (mt_list root)) (\<lambda>(bad, ops). kret (if bad then 1 else 0, ops))
      else kret (0, []))"

section \<open>The program\<close>

text \<open>An update that has to be explicit: the configuration has changed and the environment forbids it.\<close>

definition update_refused :: "kenv \<Rightarrow> bool \<Rightarrow> bool" where
  "update_refused e changed \<longleftrightarrow>
     changed \<and> (case ke_getenv e ''KCONFIG_NOSILENTUPDATE'' of None \<Rightarrow> False | Some v \<Rightarrow> v \<noteq> [])"

definition conf_run ::
  "wenv \<Rightarrow> (nat \<Rightarrow> nat \<Rightarrow> nat) \<Rightarrow> string list \<Rightarrow> string \<Rightarrow> asking \<Rightarrow> nat \<Rightarrow> conf_args \<Rightarrow> (nat \<times> file_op list) cm" where
  "conf_run W rnd files title A n a =
     (let e = we_env W in
      if ca_sync a \<and> \<not> we_stat W [] (conf_get_configname e) then cret (1, [])
      else
        cbind (clift (read_phase e a)) (\<lambda>ok.
        cbind (clift (kget conf_get_changed)) (\<lambda>changed.
        if \<not> ok \<or> ca_sync a \<and> update_refused e changed then cret (1, [])
        else
          cbind (value_phase e rnd (A\<lparr>as_mode := ca_mode a,
                   as_valid_stdin := \<not> ca_sync a \<or> as_tty A\<rparr>) n) (\<lambda>ok2.
          if \<not> ok2 then cret (1, [])
          else clift (write_phase W files title (as_root A) a)))))"

text \<open>\<open>main\<close>: a run that ends in a question (\<open>None\<close>) has exit status 1.\<close>

definition conf_main ::
  "wenv \<Rightarrow> (nat \<Rightarrow> nat \<Rightarrow> nat) \<Rightarrow> string list \<Rightarrow> string \<Rightarrow> asking \<Rightarrow> nat \<Rightarrow> conf_opt list \<Rightarrow> bool \<Rightarrow> console \<Rightarrow>
     ((nat \<times> file_op list) \<times> console) km" where
  "conf_main W rnd files title A n os file_given c =
     (case conf_options os no_args of
        None \<Rightarrow> kret ((1, []), c)
      | Some a \<Rightarrow>
          if \<not> file_given then kret ((1, []), c)
          else kbind (conf_run W rnd files title A n a c) (\<lambda>(res, c').
            kret (case res of None \<Rightarrow> (1, []) | Some x \<Rightarrow> x, c')))"

end
