(* ===== verification/KHelpFacts.thy ===== *)
theory KHelpFacts
  imports KHelp KConfFacts "HOL-Library.Sublist"
begin

text \<open>
  Printing a help text comes to an end, only appends to the growable string, which always has room for
  its text and the terminator, and numbers the places to jump to in order.
\<close>

section \<open>Growable strings\<close>

definition gstr_ok :: "gstr \<Rightarrow> bool" where
  "gstr_ok g \<longleftrightarrow> length (gs_s g) < gs_len g"

definition grows :: "string \<Rightarrow> gstr \<Rightarrow> bool" where
  "grows s g \<longleftrightarrow> gstr_ok g \<and> prefix s (gs_s g)"

named_theorems grow_intros \<open>operations that only append\<close>

lemma gstr_ok_new: "gstr_ok str_new" "gstr_ok (str_assign s)"
  by (simp_all add: gstr_ok_def str_new_def str_assign_def)

lemma str_append_text: "gs_s (str_append g (Some t)) = gs_s g @ t"
  by (simp add: str_append_def Let_def)

lemma gstr_ok_append: "gstr_ok g \<Longrightarrow> gstr_ok (str_append g t)"
  by (auto simp: gstr_ok_def str_append_def Let_def split: option.splits)

lemma str_append_prefix: "prefix (gs_s g) (gs_s (str_append g t))"
  by (auto simp: str_append_def Let_def split: option.splits)

lemma grows_append [grow_intros]: "grows s g \<Longrightarrow> grows s (str_append g t)"
  unfolding grows_def using gstr_ok_append str_append_prefix prefix_order.trans by blast

lemma grows_printf [grow_intros]: "grows s g \<Longrightarrow> grows s (str_printf g t)"
  unfolding str_printf_def by (rule grows_append)

lemma grows_helper [grow_intros]: "grows s g \<Longrightarrow> grows s (expr_print_gstr_helper T str g tok)"
  by (auto simp: expr_print_gstr_helper_def Let_def split: prod.splits option.splits intro: grow_intros)

lemma grows_longer: "grows s g \<Longrightarrow> length s \<le> length (gs_s g)"
  by (auto simp: grows_def dest: prefix_length_le)

lemma expr_gstr_print_grows: "grows s g \<Longrightarrow> grows s (expr_gstr_print T str e g)"
proof -
  have "grows s g \<Longrightarrow> grows s (foldl (expr_print_gstr_helper T str) g toks)" for toks
    by (induction toks arbitrary: g) (auto intro: grow_intros)
  then show "grows s g \<Longrightarrow> ?thesis" by (simp add: expr_gstr_print_def)
qed

section \<open>Operations\<close>

lemma keeps_fold: "(\<And>x a. Q a \<Longrightarrow> keeps I (f x a) Q) \<Longrightarrow> Q a \<Longrightarrow> keeps I (kfold f xs a) Q"
  by (induction xs arbitrary: a) (auto intro!: keeps_ret keeps_bind [where Q = Q])

lemma keeps_get: "(\<And>st. I st \<Longrightarrow> R (f st)) \<Longrightarrow> keeps I (kget f) R"
  by (simp add: keeps_def kget_def)

lemma keep_string_of: "keep (in_order tys) (get_string sym_calc r)"
  by (rule keep_get_string) (rule keep_sym_calc_any)

lemma keep_expr_of: "keep (in_order tys) (expr_calc_value sym_calc e)"
  by (rule keep_expr_calc_value) (rule keep_sym_calc_any)

lemma keep_prompt_tri: "keep (in_order tys) (prompt_tri t)"
  unfolding prompt_tri_def
  by (auto split: option.splits intro!: keep_seq keep_bind keep_get keep_sym_calc_any keep_expr_of)

lemma keep_child_visible:
  "(\<And>c. c \<in> set cs \<Longrightarrow> keep (in_order tys) (menu_is_visible c)) \<Longrightarrow> keep (in_order tys) (child_visible r cs)"
  by (induction cs) (auto intro!: keep_if keep_bind keep_seq keep_ret keep_harmless_any harmless_set_flag simp: flag_defs)

lemma keep_visible: "keep (in_order tys) (menu_is_visible t)"
proof (induction t)
  case (MT m cs)
  have "keep (in_order tys) (child_visible r cs)" for r by (rule keep_child_visible) (rule MT)
  then show ?case
    by (auto simp: menu_is_visible.simps split: option.splits
        intro!: keep_if keep_bind keep_ret keep_expr_of keep_prompt_tri keep_sym)
qed

lemmas keep_help = keep_string_of keep_expr_of keep_prompt_tri keep_visible keep_sym keep_get


section \<open>Where a jump leads\<close>

text \<open>At the offset the text goes on with the line of a location.\<close>

definition points :: "gstr \<Rightarrow> nat \<Rightarrow> bool" where
  "points g i \<longleftrightarrow> (\<exists>j rest. drop i (gs_s g) = replicate j CHR '' '' @ ''-> '' @ rest)"

definition keys_ok :: "gstr \<Rightarrow> jump_key list option \<Rightarrow> bool" where
  "keys_ok g ks = (case ks of None \<Rightarrow> True
     | Some l \<Rightarrow> map jk_index l = [0..<length l] \<and> (\<forall>k \<in> set l. points g (jk_offset k)))"

lemma points_longer: "points g i \<Longrightarrow> prefix (gs_s g) (gs_s g') \<Longrightarrow> points g' i"
proof -
  assume "points g i" "prefix (gs_s g) (gs_s g')"
  then obtain j rest z where d: "drop i (gs_s g) = replicate j CHR '' '' @ ''-> '' @ rest" and z: "gs_s g' = gs_s g @ z"
    by (auto simp: points_def prefix_def)
  have "i < length (gs_s g)" using d by (cases "i < length (gs_s g)") auto
  then have "drop i (gs_s g') = replicate j CHR '' '' @ ''-> '' @ rest @ z" using d z by simp
  then show "points g' i" unfolding points_def by blast
qed

lemma keys_longer: "keys_ok g ks \<Longrightarrow> grows (gs_s g) g' \<Longrightarrow> keys_ok g' ks"
  by (auto simp: keys_ok_def grows_def split: option.splits intro: points_longer)

lemma grows_refl: "gstr_ok g \<Longrightarrow> grows (gs_s g) g"
  by (simp add: grows_def)

lemma grows_trans: "grows s g \<Longrightarrow> grows (gs_s g) g' \<Longrightarrow> grows s g'"
  by (auto simp: grows_def intro: prefix_order.trans)

lemma keeps_fold_in:
  "(\<And>x ys a. x \<in> set xs \<Longrightarrow> Q ys a \<Longrightarrow> keeps I (f x a) (Q (ys @ [x]))) \<Longrightarrow> Q zs a \<Longrightarrow>
     keeps I (kfold f xs a) (Q (zs @ xs))"
proof (induction xs arbitrary: a zs)
  case (Cons x xs)
  have "keeps I (f x a) (Q (zs @ [x]))" by (rule Cons.prems(1)) (use Cons.prems(2) in simp_all)
  moreover have "keeps I (kfold f xs b) (Q ((zs @ [x]) @ xs))" if "Q (zs @ [x]) b" for b
    by (rule Cons.IH [OF _ that]) (use Cons.prems(1) in simp)
  ultimately show ?case by (auto intro: keeps_bind)
qed (auto intro: keeps_ret)

section \<open>The printing functions\<close>

lemma keeps_token: "grows s g \<Longrightarrow> keeps (in_order tys) (print_token tok g) (grows s)"
  unfolding print_token_def
  by (rule keep_bind) (auto split: option.splits intro!: keep_ret keep_string_of keeps_get grow_intros)

lemma keeps_print: "grows s g \<Longrightarrow> keeps (in_order tys) (gstr_print e g) (grows s)"
  unfolding gstr_print_def by (intro keep_bind keep_get keeps_fold keeps_token)

lemma location_points:
  assumes "gstr_ok g" "j \<le> 18"
  shows "points (str_printf g (replicate j CHR '' '' @ ''-> '' @ n)) (length (gs_s g))"
proof -
  have "take 9999 (replicate j CHR '' '' @ ''-> '' @ n) = replicate j CHR '' '' @ ''-> '' @ take (9996 - j) n"
    using assms(2) by (simp add: take_Cons')
  then show ?thesis unfolding points_def str_printf_def str_append_text by auto
qed

definition lines_ok :: "mtree option \<Rightarrow> string \<Rightarrow> (nat \<times> mtree) list \<Rightarrow> gstr \<times> nat \<Rightarrow> bool" where
  "lines_ok loc s done acc \<longleftrightarrow> grows s (fst acc) \<and>
     (\<forall>l. loc = Some l \<and> tree_id l \<in> (tree_id \<circ> snd) ` set done \<longrightarrow> points (fst acc) (snd acc))"


lemma keeps_location_line:
  assumes "fst jt \<le> 18" "lines_ok loc s done acc"
  shows "keeps (in_order tys) (location_line loc jt acc) (lines_ok loc s (done @ [jt]))"
proof -
  obtain j t g off where e: "jt = (j, t)" "acc = (g, off)" by (cases jt, cases acc) auto
  define off1 where "off1 = (if map_option tree_id loc = Some (tree_id t) then length (gs_s g) else off)"
  have g: "grows s g" "gstr_ok g" using assms(2) by (auto simp: lines_ok_def e grows_def)
  have j: "j \<le> 18" using assms(1) by (simp add: e)
  define ok where "ok = (\<lambda>g'. grows s g' \<and> (\<forall>l. loc = Some l \<and> tree_id l \<in> (tree_id \<circ> snd) ` set (done @ [jt]) \<longrightarrow> points g' off1))"
  have first: "ok (str_printf g (replicate j CHR '' '' @ ''-> '' @ n))" for n
  proof -
    have "prefix (gs_s g) (gs_s (str_printf g (replicate j CHR '' '' @ ''-> '' @ n)))"
      unfolding str_printf_def by (rule str_append_prefix)
    then show ?thesis
      using assms(2) location_points [OF g(2) j, of n] grows_printf [OF g(1)] unfolding ok_def lines_ok_def off1_def e
      by (auto intro: points_longer)
  qed
  have more: "ok (str_append g' x)" if "ok g'" for g' x
    using that unfolding ok_def by (auto intro: grow_intros points_longer [OF _ str_append_prefix])
  have more2: "ok (str_printf g' x)" if "ok g'" for g' x
    unfolding str_printf_def using that by (rule more)
  show ?thesis unfolding location_line_def e prod.case Let_def
  proof (rule keeps_bind [where Q = ok])
    fix g1 assume g1: "ok g1"
    show "keeps (in_order tys) (kbind (case m_sym (mt_menu t) of None \<Rightarrow> kret g1 | Some r \<Rightarrow> kbind (get_string sym_calc r) (\<lambda>v. kbind (ksym r) (\<lambda>s.
                   kret (str_printf g1 ('' ('' @ (case s_name s of Some n \<Rightarrow> n | None \<Rightarrow> ''<choice>'') @ '' [='' @ v @ ''])'')))))
          (\<lambda>g2. kret (str_append g2 (Some newline), if map_option tree_id loc = Some (tree_id t) then length (gs_s g) else off)))
        (lines_ok loc s (done @ [(j, t)]))"
      by (rule keeps_bind [where Q = ok])
        (use g1 more2 in \<open>auto split: option.splits intro!: keeps_ret keep_bind keep_string_of keep_sym\<close>,
         use more in \<open>auto simp: ok_def lines_ok_def off1_def e\<close>)
  qed (rule keeps_get, rule first)
qed

lemma keeps_accessible: "keeps (in_order tys) (kfold first_accessible ts None) (\<lambda>l. set_option l \<subseteq> set ts)"
proof -
  have "keeps (in_order tys) (kfold first_accessible ts None) (\<lambda>l. set_option l \<subseteq> set ([] @ ts))"
    by (rule keeps_fold_in)
      (auto simp: first_accessible_def intro!: keep_bind [OF keep_visible] keeps_ret split: if_splits)
  then show ?thesis by simp
qed

definition out_ok :: "string \<Rightarrow> bool \<Rightarrow> help_out \<Rightarrow> bool" where
  "out_ok s h out \<longleftrightarrow> grows s (fst out) \<and> keys_ok (fst out) (snd out) \<and> (snd out = None \<longleftrightarrow> h)"

lemma keys_snoc:
  "keys_ok g (Some l) \<Longrightarrow> points g i \<Longrightarrow>
     keys_ok g (Some (l @ [\<lparr>jk_offset = i, jk_target = t, jk_index = next_index l\<rparr>]))"
proof -
  assume k: "keys_ok g (Some l)" and p: "points g i"
  have "next_index l = length l"
  proof (cases "l = []")
    case False
    have "map jk_index l ! (length l - 1) = length l - 1" using k False by (simp add: keys_ok_def)
    then show ?thesis using False by (simp add: next_index_def last_conv_nth)
  qed (simp add: next_index_def)
  then show ?thesis using k p by (simp add: keys_ok_def)
qed


lemma keeps_locations:
  assumes "grows s g" "length anc \<le> 8" "set_option loc \<subseteq> set anc"
  shows "keeps (in_order tys) (location_lines loc anc g)
     (\<lambda>(g', off). grows s g' \<and> (loc \<noteq> None \<longrightarrow> points g' off))"
proof (cases "anc = []")
  case True
  then show ?thesis using assms by (auto simp: location_lines_def intro!: keeps_ret)
next
  case False
  define jts where "jts = zip (map (\<lambda>k. 4 + 2 * k) [0..<length anc]) (rev anc)"
  have "keeps (in_order tys) (kfold (location_line loc) jts (str_printf g (''  Location:'' @ newline), 0))
          (lines_ok loc s ([] @ jts))"
  proof (rule keeps_fold_in)
    fix x ys a assume x: "x \<in> set jts" and a: "lines_ok loc s ys a"
    have "fst x \<in> (\<lambda>k. 4 + 2 * k) ` {0..<length anc}" using in_set_zipE [of "fst x" "snd x"] x unfolding jts_def by force
    then have "fst x \<le> 18" using assms(2) by auto
    then show "keeps (in_order tys) (location_line loc x a) (lines_ok loc s (ys @ [x]))"
      using a by (rule keeps_location_line)
  qed (use grows_printf [OF assms(1)] in \<open>simp add: lines_ok_def\<close>)
  moreover have "case x of (g', off) \<Rightarrow> grows s g' \<and> (loc \<noteq> None \<longrightarrow> points g' off)"
    if x: "lines_ok loc s ([] @ jts) x" for x
  proof -
    have anc: "snd ` set jts = set anc" unfolding jts_def by (metis image_set map_snd_zip length_map length_upt diff_zero length_rev set_rev)
    then have "tree_id l \<in> (tree_id \<circ> snd) ` set jts" if "loc = Some l" for l
      using that assms(3) unfolding image_comp [symmetric] anc by auto
    then show ?thesis using x by (auto simp: lines_ok_def split: prod.splits)
  qed
  ultimately have "keeps (in_order tys) (kfold (location_line loc) jts (str_printf g (''  Location:'' @ newline), 0))
      (\<lambda>(g', off). grows s g' \<and> (loc \<noteq> None \<longrightarrow> points g' off))"
    by (rule keeps_weaken)
  then show ?thesis using False unfolding location_lines_def jts_def by (simp only: if_False)
qed

lemma keeps_jump_place:
  "keeps (in_order tys) (jump_place head loc own) (\<lambda>j. \<forall>ks i. j = Some (ks, i) \<longrightarrow> head = Some ks \<and> loc \<noteq> None)"
  by (auto simp: jump_place_def jump_target_def split: option.splits intro!: keeps_ret keep_bind keep_visible)

lemma keeps_prompt_lines:
  assumes "out_ok s h out" "length anc \<le> 8"
  shows "keeps (in_order tys) (prompt_lines own anc out) (out_ok s h)"
proof -
  have g: "grows s (fst out)" "grows (gs_s (fst out)) (fst out)" "keys_ok (fst out) (snd out)" "snd out = None \<longleftrightarrow> h"
    using assms(1) by (auto simp: out_ok_def grows_def)
  have f: "out_ok s h (g', case j of None \<Rightarrow> snd out
       | Some (ks, i) \<Rightarrow> Some (ks @ [\<lparr>jk_offset = off, jk_target = i, jk_index = next_index ks\<rparr>]))"
    if "\<forall>ks i. j = Some (ks, i) \<longrightarrow> snd out = Some ks \<and> loc \<noteq> None"
       "grows (gs_s (fst out)) g' \<and> (loc \<noteq> None \<longrightarrow> points g' off)" for j g' off and loc :: "mtree option"
    using that g(4) grows_trans [OF g(1), of g'] keys_longer [OF g(3), of g']
    by (auto simp: out_ok_def split: option.splits intro!: keys_snoc)
  show ?thesis unfolding prompt_lines_def
  proof (rule keeps_bind [OF keeps_accessible])
    fix loc :: "mtree option" assume loc: "set_option loc \<subseteq> set anc"
    show "keeps (in_order tys) (kbind (jump_place (snd out) loc own) (\<lambda>jump.
       kbind (location_lines loc anc (fst out)) (\<lambda>(g, off).
       kret (g, case jump of
                  None \<Rightarrow> snd out
                | Some (ks, i) \<Rightarrow> Some (ks @ [\<lparr>jk_offset = off, jk_target = i, jk_index = next_index ks\<rparr>]))))) (out_ok s h)"
      by (rule keeps_bind [OF keeps_jump_place], rule keeps_bind [OF keeps_locations [OF g(2) assms(2) loc]])
        (auto intro!: keeps_ret f [where loc = loc] split del: option.split)
  qed
qed

lemma keeps_prompt: "out_ok s h out \<Longrightarrow> keeps (in_order tys) (get_prompt_str root p out) (out_ok s h)"
proof -
  assume o: "out_ok s h out"
  have "out_ok s h (str_printf (fst out) t, snd out)" for t
    using o grows_printf [of s "fst out" t] grows_printf [OF grows_refl, of "fst out" t]
    by (auto simp: out_ok_def grows_def intro: keys_longer [unfolded grows_def])
  then show ?thesis
    unfolding get_prompt_str_def by (auto split: option.splits list.splits intro!: keep_crash keeps_prompt_lines)
qed


lemma keeps_heading:
  assumes "grows s g"
  shows "keeps (in_order tys) (symbol_heading r g) (grows s)"
proof -
  have p: "keeps (in_order tys) (sym_get_range_prop sym_calc r) (\<lambda>_. True)"
    by (rule keeps_any, rule keep_default_prop(2)) (rule keep_sym_calc)
  have r: "keeps (in_order tys) (range_line r g') (grows s)" if "grows s g'" for g'
    unfolding range_line_def
    by (auto split: option.splits
        intro!: keep_bind keep_sym p keeps_ret keeps_bind [OF keeps_print] grow_intros that)
  show ?thesis using assms unfolding symbol_heading_def
    by (auto split: option.splits intro!: keep_bind keep_sym keep_string_of keeps_ret r grow_intros)
qed

lemma keeps_definition: "grows s g \<Longrightarrow> keeps (in_order tys) (definition_lines place sy g) (grows s)"
  unfolding definition_lines_def Let_def
  by (auto split: option.splits intro!: keep_crash keeps_ret keeps_bind [OF keeps_print] grow_intros)

lemma keeps_selects:
  assumes "grows s g"
  shows "keeps (in_order tys) (select_lines sy g) (grows s)"
proof -
  have "keeps (in_order tys) (select_item p a) (\<lambda>a. grows s (snd a))" if "grows s (snd a)" for p a
    unfolding select_item_def using that by (auto intro!: keeps_bind [OF keeps_print] keeps_ret grow_intros)
  then have "keeps (in_order tys) (kfold select_item ps (False, g)) (\<lambda>a. grows s (snd a))" for ps
    using assms by (intro keeps_fold) auto
  then show ?thesis unfolding select_lines_def by (rule keeps_bind) (auto intro!: keeps_ret grow_intros)
qed

lemma keeps_selected: "grows s g \<Longrightarrow> keeps (in_order tys) (selected_by sy g) (grows s)"
  unfolding selected_by_def by (auto split: option.splits intro!: keeps_ret keeps_bind [OF keeps_print] grow_intros)

lemma out_ok_grow: "out_ok s h (g, ks) \<Longrightarrow> grows (gs_s g) g' \<Longrightarrow> out_ok s h (g', ks)"
  by (auto simp: out_ok_def intro: grows_trans keys_longer)

lemma out_ok_refl: "out_ok s h (g, ks) \<Longrightarrow> grows (gs_s g) g"
  by (simp add: out_ok_def grows_def)

lemma keeps_symbol_str:
  assumes "out_ok s h out"
  shows "keeps (in_order tys) (get_symbol_str root place r out) (out_ok s h)"
proof -
  obtain g ks where o: "out = (g, ks)" by (cases out)
  have "keeps (in_order tys) (get_symbol_str root place r (g, ks)) (out_ok s h)" if "out_ok s h (g, ks)"
    unfolding get_symbol_str_def fst_conv snd_conv
  proof (rule keeps_bind [OF keeps_heading [OF out_ok_refl [OF that]]], rule keep_bind [OF keep_sym])
    fix g1 sy assume "grows (gs_s g) g1"
    then have o1: "out_ok s h (g1, ks)" using that by (rule out_ok_grow [rotated])
    show "keeps (in_order tys) (kbind (kfold (get_prompt_str root) (filter (\<lambda>p. p_text p \<noteq> None) (s_prop sy)) (g1, ks)) (\<lambda>(g2, ks).
     kbind (definition_lines place sy g2) (\<lambda>g3. kbind (select_lines sy g3) (\<lambda>g4. kbind (selected_by sy g4) (\<lambda>g5.
       kret (str_append g5 (Some (newline @ newline)), ks)))))) (out_ok s h)"
    proof (rule keeps_bind [OF keeps_fold [where Q = "out_ok s h", OF keeps_prompt o1]], assumption)
      fix x assume x: "out_ok s h x"
      obtain g2 ks2 where e: "x = (g2, ks2)" by (cases x)
      have "grows (gs_s g2) g2" using x e by (auto intro: out_ok_refl)
      then show "keeps (in_order tys) (case x of (g2, ks) \<Rightarrow> kbind (definition_lines place sy g2) (\<lambda>g3. kbind (select_lines sy g3) (\<lambda>g4.
         kbind (selected_by sy g4) (\<lambda>g5. kret (str_append g5 (Some (newline @ newline)), ks))))) (out_ok s h)"
        unfolding e prod.case
        by (intro keeps_bind [OF keeps_definition] keeps_bind [OF keeps_selects] keeps_bind [OF keeps_selected] keeps_ret
            out_ok_grow [OF x [unfolded e]] grows_append)
    qed
  qed
  then show ?thesis using assms o by simp
qed

lemma keeps_ext_help: "gstr_ok g \<Longrightarrow> keep (in_order tys) (menu_get_ext_help pre root place m g)"
proof -
  assume g: "gstr_ok g"
  have ok: "out_ok (gs_s g') True (g', None)" if "gstr_ok g'" for g'
    using that by (simp add: out_ok_def grows_def keys_ok_def)
  have p: "gstr_ok (str_printf g' t)" if "gstr_ok g'" for g' t
    unfolding str_printf_def using that by (rule gstr_ok_append)
  have f: "keeps (in_order tys) (if \<not> menu_has_help m then kret g
            else (case m_sym m of
                None \<Rightarrow> kcrash
              | Some r \<Rightarrow> kbind (ksym r) (\<lambda>s. kret (case s_name s of
                  None \<Rightarrow> g
                | Some n \<Rightarrow> str_printf g (pre @ n @ '':'' @ newline @ newline))))) gstr_ok"
    by (auto intro!: keeps_ret keep_crash keep_bind keep_sym g p split: option.split)
  show ?thesis unfolding menu_get_ext_help_def Let_def
    by (rule keeps_bind [OF f])
      (auto intro!: keep_ret keeps_bind [OF keeps_symbol_str [OF ok]] p split: option.split)
qed

text \<open>C31: Whatever symbols a search has found, describing them ends, leaves the symbol table in order, fits the
  allocated string, and every place to jump to, numbered from 0, is at the line of a location in the text.\<close>

theorem get_relations_str_ok:
  assumes "table_ok st"
  shows "case get_relations_str root place rs (Some []) st of
       Ret (g, ks) st' \<Rightarrow> table_ok st' \<and> gstr_ok g \<and>
         (\<exists>l. ks = Some l \<and> map jk_index l = [0..<length l] \<and> (\<forall>k \<in> set l. points g (jk_offset k)))
     | Crash \<Rightarrow> True | NoFuel \<Rightarrow> False"
proof -
  have n: "out_ok [] False (str_new, Some [])" by (simp add: out_ok_def grows_def keys_ok_def gstr_ok_new)
  have f: "keeps (in_order tys) (kfold (get_symbol_str root place) rs (str_new, Some [])) (out_ok [] False)" for tys
    by (rule keeps_fold [where Q = "out_ok [] False", OF keeps_symbol_str n])
  have "keeps table_ok (get_relations_str root place rs (Some [])) (\<lambda>out. out_ok [] False out)"
    unfolding get_relations_str_def
  proof (rule keeps_table, rule keeps_bind [OF f])
    fix tys x assume x: "out_ok [] False x"
    obtain g ks where e: "x = (g, ks)" by (cases x)
    have "out_ok [] False (str_append g t, ks)" for t
      using x e by (auto intro: out_ok_grow grows_append out_ok_refl)
    then show "keeps (in_order tys) (case x of (g, ks) \<Rightarrow>
        kret (if rs = [] then str_append g (Some (''No matches found.'' @ newline)) else g, ks)) (out_ok [] False)"
      using x by (simp add: e keeps_ret)
  qed
  note k = keepsD [OF this assms] keeps_fuel [OF this assms]
  show ?thesis
  proof (cases "get_relations_str root place rs (Some []) st")
    case (Ret x st')
    obtain g ks where e: "x = (g, ks)" by (cases x)
    then have "table_ok st' \<and> out_ok [] False (g, ks)" using k(1) Ret by blast
    then show ?thesis using Ret e by (auto simp: out_ok_def keys_ok_def grows_def)
  qed (use k(2) in auto)
qed

definition help_root :: mtree where
  "help_root = MT (new_menu 0 None) [MT ((new_menu 1 (Some (Sym 0)))\<lparr>m_prompt := Some (PIdx 0)\<rparr>) []]"

theorem get_relations_str_ok_witness:
  "case get_relations_str help_root (\<lambda>_. (''Config.in'', 1)) [Sym 0] (Some []) calc_table of
       Ret (g, ks) st' \<Rightarrow> table_ok st' \<and> gstr_ok g \<and>
         (\<exists>l. ks = Some l \<and> map jk_index l = [0..<length l] \<and> (\<forall>k \<in> set l. points g (jk_offset k)))
     | Crash \<Rightarrow> True | NoFuel \<Rightarrow> False"
  by (rule get_relations_str_ok [OF calc_table_ok(1)])

end
