(* ===== verification/KUser.thy ===== *)
theory KUser
  imports KConfFacts KWrite KNewSyms
begin

text \<open>
  What the user has chosen: calculating, printing and looking at symbols leaves the type and the user's value
  of every symbol alone, and every operation that sets a value of an \<open>int\<close> or a \<open>hex\<close> sets a valid one.
\<close>

section \<open>Operations that leave user values alone\<close>

definition user_values :: "kst \<Rightarrow> (symbol_type \<times> symval) list" where
  "user_values st = map (\<lambda>s. (s_type s, fst (s_def s ! 0))) (ks_syms st)"

definition same_user :: "'a km \<Rightarrow> bool" where
  "same_user m \<longleftrightarrow> (\<forall>st x st'. m st = Ret x st' \<longrightarrow> user_values st' = user_values st)"

named_theorems su_intros \<open>operations that leave user values alone\<close>

lemma su_ret [su_intros]: "same_user (kret x)"
  by (simp add: same_user_def kret_def)

lemma su_bind [su_intros]: "same_user m \<Longrightarrow> (\<And>x. same_user (f x)) \<Longrightarrow> same_user (kbind m f)"
  unfolding same_user_def kbind_def by (fastforce split: kres.splits)

lemma su_seq [su_intros]: "same_user m \<Longrightarrow> same_user m' \<Longrightarrow> same_user (kseq m m')"
  unfolding kseq_def by (rule su_bind)

lemma su_get [su_intros]: "same_user (kget f)"
  by (simp add: same_user_def kget_def)

lemma su_sym [su_intros]: "same_user (ksym r)"
  unfolding ksym_def by (rule su_get)

lemma su_crash [su_intros]: "same_user kcrash" "same_user (\<lambda>st. NoFuel)"
  by (simp_all add: same_user_def kcrash_def)

lemma su_when [su_intros]: "same_user m \<Longrightarrow> same_user (kwhen b m)"
  by (simp add: kwhen_def su_ret)

lemma su_for [su_intros]: "(\<And>x. same_user (f x)) \<Longrightarrow> same_user (kfor xs f)"
  by (induction xs) (auto intro: su_intros)

lemma su_fold [su_intros]: "(\<And>x a. same_user (f x a)) \<Longrightarrow> same_user (kfold f xs a)"
  by (induction xs arbitrary: a) (auto intro: su_intros)

lemma su_if [su_intros]: "same_user a \<Longrightarrow> same_user b \<Longrightarrow> same_user (if P then a else b)"
  by simp

lemma su_option [su_intros]: "same_user a \<Longrightarrow> (\<And>x. same_user (f x)) \<Longrightarrow> same_user (case q of None \<Rightarrow> a | Some x \<Rightarrow> f x)"
  by (cases q) auto

lemma su_pexpr [su_intros]:
  "(\<And>e. same_user (f e)) \<Longrightarrow> (\<And>l. same_user (g l)) \<Longrightarrow> (\<And>a b. same_user (h a b)) \<Longrightarrow>
     same_user (case q of PExpr e \<Rightarrow> f e | PList l \<Rightarrow> g l | PRange a b \<Rightarrow> h a b)"
  by (cases q) auto

lemma su_symval [su_intros]:
  "same_user a \<Longrightarrow> (\<And>s. same_user (f s)) \<Longrightarrow> (\<And>s. same_user (g s)) \<Longrightarrow>
     same_user (case q of VNull \<Rightarrow> a | VStr s \<Rightarrow> f s | VSym s \<Rightarrow> g s)"
  by (cases q) auto

lemma su_let [su_intros]: "(\<And>y. same_user (f y)) \<Longrightarrow> same_user (Let x f)"
  by (simp add: Let_def)

definition mild :: "(symbol \<Rightarrow> symbol) \<Rightarrow> bool" where
  "mild f \<longleftrightarrow> (\<forall>s. s_type (f s) = s_type s \<and> fst (s_def (f s) ! 0) = fst (s_def s ! 0))"

lemma su_upd [su_intros]: "mild f \<Longrightarrow> same_user (kupd r f)"
proof -
  assume m: "mild f"
  have "user_values (sym_upd r f st) = user_values st" for st
  proof (cases "sref_idx r < length (ks_syms st)")
    case True
    have "map (\<lambda>s. (s_type s, fst (s_def s ! 0))) ((ks_syms st)[sref_idx r := f (sym_at st r)]) =
        (map (\<lambda>s. (s_type s, fst (s_def s ! 0))) (ks_syms st))
          [sref_idx r := (\<lambda>s. (s_type s, fst (s_def s ! 0))) (ks_syms st ! sref_idx r)]"
      using m True by (simp add: map_update mild_def sym_at_def)
    then show ?thesis using True unfolding user_values_def by (simp add: sym_upd_def list_update_same_conv)
  qed (simp add: upd_beyond)
  then show ?thesis by (simp add: same_user_def kupd_def kmod_def)
qed

lemma mild_ops [su_intros]:
  "mild (set_flag f)" "mild (clear_flag f)" "mild (\<lambda>s. s\<lparr>s_val := v\<rparr>)" "mild (\<lambda>s. s\<lparr>s_tri := t\<rparr>)"
  "mild (\<lambda>s. s\<lparr>s_visible := t\<rparr>)" "mild (\<lambda>s. s\<lparr>s_dir_tri := t\<rparr>)" "mild (\<lambda>s. s\<lparr>s_rev_tri := t\<rparr>)"
  "mild (\<lambda>s. s\<lparr>s_flags := g s\<rparr>)" "mild (set_curr c)" "mild (set_prop_tri k t)"
  by (simp_all add: mild_def set_flag_def clear_flag_def set_curr_def set_prop_tri_def)

lemma mild_set_def_tri [su_intros]: "mild (set_def_tri d t)"
proof -
  have "fst (ds[d := (fst (ds ! d), t)] ! 0) = fst (ds ! 0)" for ds :: "(symval \<times> tristate) list"
    by (cases ds; cases d) auto
  then show ?thesis by (simp add: mild_def set_def_tri_def)
qed

lemma mild_set_def_val: "d \<noteq> 0 \<Longrightarrow> mild (set_def_val d v)"
  by (simp add: mild_def set_def_val_def)

lemma su_mod: "(\<And>st. ks_syms (f st) = ks_syms st) \<Longrightarrow> same_user (kmod f)"
  by (simp add: same_user_def kmod_def user_values_def)

section \<open>Calculations\<close>

lemma su_small [su_intros]:
  "same_user (sym_set_changed r)" "same_user sym_set_all_changed" "same_user (write_flag r)"
  "same_user (choice_of r)" "same_user (choice_values r)"
  unfolding sym_set_all_changed_def sym_set_changed_def write_flag_def choice_of_def choice_values_def
  by (intro su_intros su_mod; simp)+

lemma su_warn [su_intros]: "same_user (warn_unmet r)"
  unfolding warn_unmet_def by (intro su_intros su_mod; simp)

text \<open>What the helpers of \<open>sym_calc_value\<close> rely on: the nested call leaves user values alone.\<close>

locale quiet_calc =
  fixes calc :: "sref \<Rightarrow> unit km"
  assumes quiet: "\<And>r. same_user (calc r)"
begin

lemma su_get_string: "same_user (get_string calc r)"
  unfolding get_string_def by (intro su_intros quiet)

lemma su_expr: "same_user (expr_calc calc e)"
  by (induction e) (simp; intro su_intros quiet su_get_string; assumption)+

lemma su_expr_value: "same_user (expr_calc_value calc e)"
  by (cases e) (simp_all add: su_ret su_expr)

lemma su_prop_value: "same_user (prop_expr_value calc p)"
  unfolding prop_expr_value_def by (intro su_intros su_expr)

lemma su_prop_visible: "same_user (prop_visible calc r k)"
  unfolding prop_visible_def by (intro su_intros su_expr_value)

lemma su_first_visible: "same_user (first_visible calc r ks)"
  by (induction ks) (simp; intro su_intros su_prop_visible; assumption)+

lemma su_props: "same_user (sym_get_default_prop calc r)" "same_user (sym_get_range_prop calc r)"
  unfolding sym_get_default_prop_def sym_get_range_prop_def by (intro su_intros su_first_visible)+

lemma su_range_val: "same_user (sym_get_range_val calc r b)"
  unfolding sym_get_range_val_def by (intro su_intros quiet)

lemma su_validate: "same_user (sym_validate_range calc r)"
  unfolding sym_validate_range_def by (intro su_intros su_props su_range_val)

lemma su_prompts: "same_user (prompts_visible calc r ks t)"
  by (induction ks arbitrary: t) (simp; intro su_intros su_prop_visible; assumption)+

lemma su_change_if: "mild (put v) \<Longrightarrow> same_user (change_if r g put v)"
  unfolding change_if_def by (intro su_intros)

lemma su_visibility: "same_user (sym_calc_visibility calc r)"
  unfolding sym_calc_visibility_def by (intro su_intros su_prompts su_change_if su_expr_value su_expr)

lemma su_default_choice: "same_user (default_choice calc r ks)"
  by (induction ks) (simp; intro su_intros su_prop_visible; assumption)+

lemma su_choice_default: "same_user (sym_choice_default calc r)"
  unfolding sym_choice_default_def by (intro su_intros su_default_choice)

lemma su_choice_flags: "same_user (choice_flags calc ds fl)"
  by (induction ds arbitrary: fl) (simp; intro su_intros su_visibility; assumption)+

lemma su_calc_choice: "same_user (sym_calc_choice calc r)"
  unfolding sym_calc_choice_def by (intro su_intros su_choice_flags su_choice_default)

lemma su_default_tristate: "same_user (default_tristate calc r)"
  unfolding default_tristate_def by (intro su_intros su_props su_prop_value)

lemma su_plain_tristate: "same_user (plain_tristate calc r)"
  unfolding plain_tristate_def Let_def by (intro su_intros su_default_tristate su_warn)

lemma su_calc_tristate: "same_user (calc_tristate calc r)"
  unfolding calc_tristate_def by (intro su_intros su_plain_tristate)

lemma su_calc_string: "same_user (calc_string calc r)"
  unfolding calc_string_def by (intro su_intros su_props quiet)

lemma su_newval: "same_user (calc_newval calc r)"
  unfolding calc_newval_def by (intro su_intros su_calc_tristate su_calc_string)

end

lemma su_set_all_choice_values [su_intros]: "same_user (set_all_choice_values r)"
  unfolding set_all_choice_values_def by (intro su_intros)

lemma su_finish [su_intros]: "same_user (finish_changed r old)" "same_user (finish_choice r)" "same_user (finish_flags r)"
  unfolding finish_changed_def finish_choice_def finish_flags_def by (intro su_intros su_mod; simp)+

context quiet_calc
begin

lemma su_calc_body: "same_user (calc_body calc r)"
  unfolding calc_body_def calc_rest_def by (intro su_intros su_visibility su_newval su_calc_choice su_validate)

end

lemma quiet_value: "same_user (sym_calc_value n r)"
proof (induction n arbitrary: r)
  case (Suc n)
  have "quiet_calc (sym_calc_value n)" by (rule quiet_calc.intro) (rule Suc)
  then show ?case by (simp only: sym_calc_value.simps) (intro su_intros Suc quiet_calc.su_calc_body)
qed (simp add: su_crash)

lemma su_calc [su_intros]: "same_user (sym_calc r)"
  using quiet_value unfolding sym_calc_def same_user_def by blast

interpretation qc: quiet_calc sym_calc
  by unfold_locales (rule su_calc)

lemmas su_reads [su_intros] = qc.su_get_string qc.su_expr_value qc.su_expr qc.su_prop_value qc.su_props qc.su_range_val
  qc.su_visibility qc.su_choice_default

lemma su_clear_all_valid [su_intros]: "same_user sym_clear_all_valid" "same_user calc_modules"
  unfolding sym_clear_all_valid_def sym_add_change_count_def calc_modules_def by (intro su_intros su_mod; simp)+

lemma su_mark_user [su_intros]: "same_user (mark_user r)"
  unfolding mark_user_def by (intro su_intros)

lemma su_number [su_intros]: "same_user (number_within r b s)"
  unfolding number_within_def by (intro su_intros)

lemma su_within [su_intros]: "same_user (sym_string_within_range r s)"
  unfolding sym_string_within_range_def
  by (rule su_bind [OF su_sym]) (auto split: symbol_type.split option.split intro: su_intros)

lemma su_prompt_tri [su_intros]: "same_user (prompt_tri t)"
  unfolding prompt_tri_def by (intro su_intros)

lemma su_child_visible:
  "(\<And>c. c \<in> set cs \<Longrightarrow> same_user (menu_is_visible c)) \<Longrightarrow> same_user (child_visible r cs)"
  by (induction cs) (auto intro!: su_intros)

lemma su_visible [su_intros]: "same_user (menu_is_visible t)"
proof (induction t)
  case (MT m cs)
  have "same_user (child_visible r cs)" for r by (rule su_child_visible) (rule MT)
  then show ?case by (simp only: menu_is_visible.simps) (intro su_intros; assumption)
qed

section \<open>Values that fit the type\<close>

definition fits_type :: "symbol_type \<times> symval \<Rightarrow> bool" where
  "fits_type u \<longleftrightarrow> (fst u = S_INT \<or> fst u = S_HEX \<longrightarrow> (\<forall>v. snd u = VStr v \<longrightarrow> sym_string_valid (fst u) v))"

text \<open>The user's value of an \<open>int\<close> or \<open>hex\<close> symbol, if it has one, is a number of this kind.\<close>

definition user_typed :: "kst \<Rightarrow> bool" where
  "user_typed st \<longleftrightarrow> (\<forall>u \<in> set (user_values st). fits_type u)"

text \<open>Partial correctness: what holds after the operation when it returns.\<close>

definition triple :: "(kst \<Rightarrow> bool) \<Rightarrow> 'a km \<Rightarrow> (kst \<Rightarrow> bool) \<Rightarrow> bool" where
  "triple I m J \<longleftrightarrow> (\<forall>st x st'. I st \<longrightarrow> m st = Ret x st' \<longrightarrow> J st')"

abbreviation typed :: "'a km \<Rightarrow> bool" where
  "typed m \<equiv> triple user_typed m user_typed"

named_theorems typed_intros \<open>operations that keep user values typed\<close>

lemma typed_same: "same_user m \<Longrightarrow> typed m"
  by (simp add: same_user_def triple_def user_typed_def)

lemma triple_bind: "triple I m H \<Longrightarrow> (\<And>x. triple H (f x) J) \<Longrightarrow> triple I (kbind m f) J"
  unfolding triple_def kbind_def by (fastforce split: kres.splits)

lemma triple_seq: "triple I m H \<Longrightarrow> triple H m' J \<Longrightarrow> triple I (kseq m m') J"
  unfolding kseq_def by (rule triple_bind)

lemma triple_sym: "(\<And>s. triple (\<lambda>st. I st \<and> sym_at st r = s) (f s) J) \<Longrightarrow> triple I (kbind (ksym r) f) J"
  unfolding triple_def by (auto simp: kbind_def ksym_def kget_def)

lemma triple_upd: "(\<And>st. I st \<Longrightarrow> J (sym_upd r f st)) \<Longrightarrow> triple I (kupd r f) J"
  unfolding triple_def by (auto simp: kupd_def kmod_def)

lemma triple_weaken: "triple I m J \<Longrightarrow> (\<And>st. I' st \<Longrightarrow> I st) \<Longrightarrow> triple I' m J"
  unfolding triple_def by blast

lemma typed_bind [typed_intros]: "typed m \<Longrightarrow> (\<And>x. typed (f x)) \<Longrightarrow> typed (kbind m f)"
  by (rule triple_bind)

lemma typed_seq [typed_intros]: "typed m \<Longrightarrow> typed m' \<Longrightarrow> typed (kseq m m')"
  by (rule triple_seq)

lemma typed_when [typed_intros]: "typed m \<Longrightarrow> typed (kwhen b m)"
  by (simp add: kwhen_def typed_same su_ret)

lemma typed_for [typed_intros]: "(\<And>x. typed (f x)) \<Longrightarrow> typed (kfor xs f)"
  by (induction xs) (auto intro: typed_intros typed_same su_ret)

lemma typed_fold [typed_intros]: "(\<And>x a. typed (f x a)) \<Longrightarrow> typed (kfold f xs a)"
  by (induction xs arbitrary: a) (auto intro: typed_intros typed_same su_ret)

lemma typed_if [typed_intros]: "typed a \<Longrightarrow> typed b \<Longrightarrow> typed (if P then a else b)"
  by simp

lemma typed_option [typed_intros]: "typed a \<Longrightarrow> (\<And>x. typed (f x)) \<Longrightarrow> typed (case q of None \<Rightarrow> a | Some x \<Rightarrow> f x)"
  by (cases q) auto

lemma typed_let [typed_intros]: "(\<And>y. typed (f y)) \<Longrightarrow> typed (Let x f)"
  by (simp add: Let_def)

lemma user_typed_at: "user_typed st \<Longrightarrow> fits_type (s_type (sym_at st r), fst (s_def (sym_at st r) ! 0))"
  by (auto simp: user_typed_def user_values_def sym_at_def fits_type_def symbol_empty_def static_symbol_def)

lemma user_typed_upd:
  assumes "user_typed st" "fits_type (s_type (f (sym_at st r)), fst (s_def (f (sym_at st r)) ! 0))"
  shows "user_typed (sym_upd r f st)"
  using assms set_update_subset_insert [of "ks_syms st" "sref_idx r" "f (sym_at st r)"]
  unfolding user_typed_def user_values_def sym_upd_def by auto

lemma def_val_at: "fst (s_def (set_def_val d v s) ! 0) = v \<or> fst (s_def (set_def_val d v s) ! 0) = fst (s_def s ! 0)"
  by (cases "s_def s"; cases d) (auto simp: set_def_val_def)

lemma user_typed_def_val:
  assumes "user_typed st" "fits_type (s_type (sym_at st r), v)"
  shows "user_typed (sym_upd r (set_def_val d v) st)"
proof (rule user_typed_upd [OF assms(1)])
  have "s_type (set_def_val d v (sym_at st r)) = s_type (sym_at st r)" by (simp add: set_def_val_def)
  then show "fits_type (s_type (set_def_val d v (sym_at st r)), fst (s_def (set_def_val d v (sym_at st r)) ! 0))"
    using def_val_at [of d v "sym_at st r"] assms(2) user_typed_at [OF assms(1), of r] by auto
qed

lemma typed_choice_val [typed_intros]: "typed (kupd r (set_def_val d (VSym v)))"
  by (rule triple_upd) (auto intro: user_typed_def_val simp: fits_type_def)


section \<open>Setting a value\<close>

lemma su_type: "same_user m \<Longrightarrow> m st = Ret x st' \<Longrightarrow> s_type (sym_at st' r) = s_type (sym_at st r)"
proof -
  assume "same_user m" "m st = Ret x st'"
  then have u: "user_values st' = user_values st" by (simp add: same_user_def)
  then have "length (user_values st') = length (user_values st)" by simp
  then have l: "length (ks_syms st') = length (ks_syms st)" by (simp add: user_values_def)
  have "s_type (ks_syms st' ! i) = s_type (ks_syms st ! i)" if "i < length (ks_syms st)" for i
  proof -
    have "user_values st' ! i = user_values st ! i" using u by simp
    then show ?thesis using that l by (simp add: user_values_def)
  qed
  then show ?thesis using l by (simp add: sym_at_def)
qed

lemma typed_choose [typed_intros]: "typed (choose_value r)"
  unfolding choose_value_def by (intro typed_intros typed_same [OF su_upd] su_intros typed_same [OF su_sym] typed_same [OF su_small(4)] typed_same [OF su_small(5)])

lemmas typed_su = typed_same [OF su_ret] typed_same [OF su_get] typed_same [OF su_sym] typed_same [OF su_upd]
  typed_same [OF su_crash(1)] typed_same [OF su_clear_all_valid(1)] typed_same [OF su_clear_all_valid(2)]
  typed_same [OF su_mark_user] typed_same [OF su_small(4)] typed_same [OF su_small(5)] typed_same [OF su_calc]

lemma typed_set_tristate [typed_intros]: "typed (sym_set_tristate_value r t)"
  unfolding sym_set_tristate_value_def by (intro typed_intros typed_su su_intros)

lemma within_range_fits:
  assumes "sym_string_within_range r v st = Ret True st'"
  shows "fits_type (s_type (sym_at st r), VStr v)"
proof -
  have "s_type (sym_at st r) = S_INT \<Longrightarrow> sym_string_valid S_INT v" "s_type (sym_at st r) = S_HEX \<Longrightarrow> sym_string_valid S_HEX v"
    using assms by (auto simp: sym_string_within_range_def kbind_def ksym_def kget_def kret_def split: if_splits)
  then show ?thesis by (auto simp: fits_type_def)
qed

lemma hex_prefixed: "fits_type (S_HEX, VStr v) \<Longrightarrow> \<not> has_0x v \<Longrightarrow> fits_type (S_HEX, VStr (''0x'' @ v))"
  by (auto simp: fits_type_def sym_string_valid_def valid_hex_def has_0x_def Let_def)

lemma store_string_typed:
  "triple (\<lambda>st. user_typed st \<and> fits_type (s_type (sym_at st r), VStr v)) (store_string r v) user_typed"
proof -
  have s: "triple (\<lambda>st. (user_typed st \<and> fits_type (s_type (sym_at st r), VStr v)) \<and> sym_at st r = s)
      (kseq (kupd r (set_def_val 0 (VStr w))) (kseq sym_clear_all_valid (kret True))) user_typed"
    if "fits_type (s_type s, VStr v) \<Longrightarrow> fits_type (s_type s, VStr w)" for s :: symbol and w
    by (rule triple_seq [OF triple_upd [where J = user_typed]])
      (use that in \<open>auto intro!: user_typed_def_val typed_intros typed_su\<close>)
  show ?thesis unfolding store_string_def
  proof (rule triple_sym)
    fix s :: symbol
    have h: "fits_type (s_type s, VStr v) \<Longrightarrow> fits_type (s_type s, VStr (''0x'' @ v))" if "s_type s = S_HEX" "\<not> has_0x v"
      using hex_prefixed that by simp
    have r: "triple (\<lambda>st. (user_typed st \<and> fits_type (s_type (sym_at st r), VStr v)) \<and> sym_at st r = s) (kret True) user_typed"
      by (simp add: triple_def kret_def)
    show "triple (\<lambda>st. (user_typed st \<and> fits_type (s_type (sym_at st r), VStr v)) \<and> sym_at st r = s)
       (if s_type s = S_HEX \<and> \<not> has_0x v
        then kseq (kupd r (set_def_val 0 (VStr (''0x'' @ v)))) (kseq sym_clear_all_valid (kret True))
        else if fst (s_def s ! 0) = VStr v then kret True
        else kseq (kupd r (set_def_val 0 (VStr v))) (kseq sym_clear_all_valid (kret True))) user_typed"
      using s [OF h] s [of s v] r by (auto simp del: append_Cons)
  qed
qed

lemma typed_set_string [typed_intros]: "typed (sym_set_string_value r v)"
proof -
  have "triple (\<lambda>st. user_typed st \<and> sym_at st r = s) (kbind (sym_string_within_range r v) (\<lambda>b.
           if \<not> b then kret False else kseq (mark_user r) (store_string r v))) user_typed" for s :: symbol
    unfolding triple_def
  proof (intro allI impI)
    fix st x st'
    assume t: "user_typed st \<and> sym_at st r = s" and run: "kbind (sym_string_within_range r v) (\<lambda>b.
           if \<not> b then kret False else kseq (mark_user r) (store_string r v)) st = Ret x st'"
    then obtain b st1 where w: "sym_string_within_range r v st = Ret b st1"
      and rest: "(if \<not> b then kret False else kseq (mark_user r) (store_string r v)) st1 = Ret x st'"
      by (auto simp: kbind_def split: kres.splits)
    have t1: "user_typed st1" using typed_same [OF su_within] t w unfolding triple_def by blast
    show "user_typed st'"
    proof (cases b)
      case True
      then obtain st2 where m: "mark_user r st1 = Ret () st2" and so: "store_string r v st2 = Ret x st'"
        using rest by (auto simp: kseq_def kbind_def split: kres.splits)
      have "user_typed st2" using typed_same [OF su_mark_user] t1 m unfolding triple_def by blast
      moreover have "fits_type (s_type (sym_at st2 r), VStr v)"
        using within_range_fits [of r v st] w True su_type [OF su_within w, of r] su_type [OF su_mark_user m, of r] by simp
      ultimately show ?thesis using store_string_typed so unfolding triple_def by blast
    qed (use t1 rest in \<open>simp add: kret_def\<close>)
  qed
  then show ?thesis unfolding sym_set_string_value_def
    by (intro triple_sym) (auto split: option.split intro: triple_weaken [OF typed_set_tristate] triple_weaken [OF typed_su(1)])
qed

end
