(* ===== verification/KUserConf.thy ===== *)
theory KUserConf
  imports KUser
begin

text \<open>
  Reading a configuration file and giving values to new symbols keeps the user's values of \<open>int\<close> and \<open>hex\<close>
  symbols valid.
\<close>

section \<open>Lines of a file\<close>

lemma su_frame [su_intros]:
  "same_user (kmod (\<lambda>st. st\<lparr>ks_warnings := f st\<rparr>))" "same_user (kmod (\<lambda>st. st\<lparr>ks_conf_warnings := n st\<rparr>))"
  "same_user (kmod (\<lambda>st. st\<lparr>ks_conf_unsaved := n st\<rparr>))" "same_user (kmod (\<lambda>st. st\<lparr>ks_conf_lineno := n st\<rparr>))"
  "same_user (kmod (\<lambda>st. st\<lparr>ks_conf_filename := w\<rparr>))" "same_user (sym_add_change_count k)" "same_user (sym_set_change_count k)"
  unfolding sym_add_change_count_def sym_set_change_count_def by (rule su_mod, simp)+

lemma su_warning [su_intros]: "same_user (conf_warning w)"
  unfolding conf_warning_def by (intro su_intros)

lemma su_set_def [su_intros]: "same_user (set_def r d fl t)"
  unfolding set_def_def by (intro su_intros)

lemma su_invalid [su_intros]: "same_user (invalid_value r d p)"
  unfolding invalid_value_def by (intro su_intros)

lemma su_reassigned [su_intros]: "same_user (reassigned r fl)"
  unfolding reassigned_def by (intro su_intros)

lemma typed_checked [typed_intros]: "typed (set_checked r d fl p)"
  unfolding set_checked_def
proof (rule triple_sym)
  fix s :: symbol
  have v: "typed (kseq (kupd r (set_flag fl)) (kret False))" by (intro typed_same su_intros)
  show "triple (\<lambda>st. user_typed st \<and> sym_at st r = s) (if sym_string_valid (s_type s) p
      then kseq (kupd r (set_def_val d (VStr p))) (kseq (kupd r (set_flag fl)) (kret False)) else invalid_value r d p) user_typed"
  proof (cases "sym_string_valid (s_type s) p")
    case True
    then have "triple (\<lambda>st. user_typed st \<and> sym_at st r = s) (kupd r (set_def_val d (VStr p))) user_typed"
      by (intro triple_upd) (auto intro!: user_typed_def_val simp: fits_type_def)
    then show ?thesis using True v by (simp add: triple_seq)
  next
    case False
    have "typed (invalid_value r d p)" by (intro typed_same su_intros)
    then show ?thesis using False by (simp add: triple_weaken)
  qed
qed

lemma typed_quoted [typed_intros]: "typed (set_quoted r d fl p)"
  unfolding set_quoted_def by (intro typed_intros typed_same su_intros)

lemma typed_to_string: "triple (\<lambda>st. user_typed st \<and> sym_at st r = s) (kupd r (\<lambda>s. s\<lparr>s_type := S_STRING\<rparr>)) user_typed"
  by (rule triple_upd) (auto intro!: user_typed_upd simp: fits_type_def)

lemma typed_set_sym_val [typed_intros]: "typed (conf_set_sym_val r d fl p)"
  unfolding conf_set_sym_val_def Let_def
proof (rule triple_sym)
  fix s :: symbol
  have w: "triple (\<lambda>st. user_typed st \<and> sym_at st r = s) m user_typed" if "typed m" for m :: "bool km"
    using that by (rule triple_weaken) simp
  have c: "typed (set_checked r d fl q)" "typed (set_quoted r d fl q)" for q by (intro typed_intros)+
  have o: "triple (\<lambda>st. user_typed st \<and> sym_at st r = s)
      (kseq (kupd r (\<lambda>s. s\<lparr>s_type := S_STRING\<rparr>)) (set_checked r d fl p)) user_typed"
    by (rule triple_seq [OF typed_to_string c(1)])
  have l: "typed (kseq (set_def r d fl t) (kret b))" "typed (invalid_value r d p)" "typed (kret b)" for t and b :: bool
    by (intro typed_same su_intros)+
  show "triple (\<lambda>st. user_typed st \<and> sym_at st r = s)
     (case s_type s of
        S_UNKNOWN \<Rightarrow> kret False
      | S_BOOLEAN \<Rightarrow> if take 1 p = ''y'' then kseq (set_def r d fl TYes) (kret False)
          else if take 1 p = ''n'' then kseq (set_def r d fl TNo) (kret False) else invalid_value r d p
      | S_TRISTATE \<Rightarrow> if take 1 p = ''m'' then kseq (set_def r d fl TMod) (kret False)
          else if take 1 p = ''y'' then kseq (set_def r d fl TYes) (kret False)
          else if take 1 p = ''n'' then kseq (set_def r d fl TNo) (kret False) else invalid_value r d p
      | S_INT \<Rightarrow> set_checked r d fl p | S_HEX \<Rightarrow> set_checked r d fl p
      | S_STRING \<Rightarrow> if take 1 p = [CHR 0x22] then set_quoted r d fl (tl p) else kret False
      | S_OTHER \<Rightarrow> if take 1 p \<noteq> [CHR 0x22] then kseq (kupd r (\<lambda>s. s\<lparr>s_type := S_STRING\<rparr>)) (set_checked r d fl p)
          else set_quoted r d fl (tl p)) user_typed"
    by (cases "s_type s") (auto intro!: w c o l)
qed

lemma typed_set_choice [typed_intros]: "typed (set_choice r d fl)"
  unfolding set_choice_def
proof (intro typed_intros typed_su)
  fix s cs :: symbol and c
  have w: "typed (kwhen b (kseq (conf_warning x) (kupd c (clear_flag fl))))"
    "typed (kseq (kwhen b (conf_warning x)) (kupd c (set_def_val d (VSym r))))" for b x
    by (rule typed_same, intro su_intros) (intro typed_intros typed_same [OF su_warning])
  have m: "mild (\<lambda>x. set_def_tri d (EXPR_OR (snd (s_def x ! d)) t) x)" for t
    using mild_set_def_tri by (simp add: mild_def)
  show "typed (case snd (s_def s ! d) of
            TNo \<Rightarrow> kret ()
          | TMod \<Rightarrow> kwhen (snd (s_def cs ! d) = TYes)
              (kseq (conf_warning (name_str (s_name s) @ '' creates inconsistent choice state'')) (kupd c (clear_flag fl)))
          | TYes \<Rightarrow> kseq (kwhen (snd (s_def cs ! d) \<noteq> TNo)
                           (conf_warning (''override: '' @ name_str (s_name s) @ '' changes choice state'')))
                        (kupd c (set_def_val d (VSym r))))"
    by (cases "snd (s_def s ! d)") (use w typed_su(1) in simp_all)
  show "mild (\<lambda>x. set_def_tri d (EXPR_OR (snd (s_def x ! d)) (snd (s_def s ! d))) x)" by (rule m)
qed

lemma typed_add: "typed (add_symbol n fl h)"
  by (auto simp: triple_def add_symbol_def Let_def user_typed_def user_values_def fits_type_def new_symbol_def)

lemma typed_lookup [typed_intros]: "typed (sym_lookup n fl)"
  unfolding sym_lookup_def by (intro typed_intros typed_add typed_su)

lemma typed_line_symbol: "ty = S_BOOLEAN \<or> ty = S_OTHER \<Longrightarrow> typed (line_symbol d ty name)"
proof -
  assume ty: "ty = S_BOOLEAN \<or> ty = S_OTHER"
  have u: "typed (kupd r (\<lambda>s. s\<lparr>s_type := ty\<rparr>))" for r
    using ty by (intro triple_upd) (auto intro!: user_typed_upd simp: fits_type_def)
  show ?thesis unfolding line_symbol_def by (intro typed_intros u typed_same [OF su_frame(6)] typed_su)
qed

lemma typed_line [typed_intros]: "typed (conf_line_step pre d fl line)"
  unfolding conf_line_step_def
proof (rule typed_seq)
  show "typed (kmod (\<lambda>st. st\<lparr>ks_conf_lineno := ks_conf_lineno st + 1\<rparr>))" by (intro typed_same su_intros)
  have s: "typed (line_symbol d S_BOOLEAN n)" "typed (line_symbol d S_OTHER n)" for n by (simp_all add: typed_line_symbol)
  have r: "typed (reassigned q fl)" "typed (set_def q d fl t)" for q t by (intro typed_same su_intros)+
  show "typed (case classify pre line of
        LSkip \<Rightarrow> kret ()
      | LJunk \<Rightarrow> conf_warning ''unexpected data''
      | LUnset name \<Rightarrow>
          kbind (line_symbol d S_BOOLEAN name) (\<lambda>ro. case ro of
            None \<Rightarrow> kret ()
          | Some r \<Rightarrow>
              kseq (reassigned r fl)
              (kseq (kbind (ksym r) (\<lambda>s. kwhen (s_type s = S_BOOLEAN \<or> s_type s = S_TRISTATE) (set_def r d fl TNo)))
                    (set_choice r d fl)))
      | LSet name p \<Rightarrow>
          kbind (line_symbol d S_OTHER name) (\<lambda>ro. case ro of
            None \<Rightarrow> kret ()
          | Some r \<Rightarrow>
              kseq (reassigned r fl)
              (kbind (conf_set_sym_val r d fl p) (\<lambda>bad. kwhen (\<not> bad) (set_choice r d fl)))))"
    by (cases "classify pre line")
      (auto intro!: typed_intros typed_su s r intro: typed_same su_intros split: option.split)
qed


section \<open>A file\<close>

lemma typed_lines [typed_intros]: "typed (read_lines pre d fl n f)"
proof (induction pre d fl n f rule: read_lines.induct)
  case (1 pre d fl n f)
  show ?case
  proof (cases "compat_getline n f")
    case (Some x)
    obtain line m rest where e: "x = (line, m, rest)" by (cases x)
    have "typed (read_lines pre d fl m rest)" using 1 Some e by blast
    then have "typed (kseq (conf_line_step pre d fl line) (read_lines pre d fl m rest))" by (intro typed_intros)
    then show ?thesis by (subst read_lines.simps) (simp add: Some e)
  qed (subst read_lines.simps, simp add: typed_su)
qed

lemma typed_reset: "typed (reset_symbol d fl r)"
proof -
  have "fst ((s_def s)[d := (VNull, TNo)] ! 0) = VNull \<or> fst ((s_def s)[d := (VNull, TNo)] ! 0) = fst (s_def s ! 0)" for s :: symbol
    by (cases "s_def s"; cases d) auto
  then have "fits_type (s_type s, fst (s_def s ! 0)) \<Longrightarrow> fits_type (s_type s, fst ((s_def s)[d := (VNull, TNo)] ! 0))" for s :: symbol
    by (metis fits_type_def snd_conv fst_conv symval.distinct(1))
  then have u: "typed (kupd r (\<lambda>s. s\<lparr>s_def := (s_def s)[d := (VNull, TNo)]\<rparr>))"
    by (intro triple_upd user_typed_upd) (use user_typed_at in auto)
  show ?thesis unfolding reset_symbol_def by (intro typed_intros u) (intro typed_su su_intros)+
qed

lemma typed_load [typed_intros]: "typed (load_file pre name c d)"
  unfolding load_file_def Let_def by (intro typed_intros typed_reset typed_su typed_same [OF su_frame(3)] typed_same [OF su_frame(4)] typed_same [OF su_frame(5)] typed_same [OF su_frame(2)])

lemma typed_expand [typed_intros]: "typed (conf_expand res inp)"
proof (induction inp arbitrary: res rule: length_induct)
  case (1 inp)
  show ?case
  proof (cases "dropWhile (\<lambda>c. c \<noteq> CHR ''$'') inp")
    case Nil
    show ?thesis unfolding conf_expand.simps [of res inp] Nil list.case by (intro typed_intros typed_su)
  next
    case (Cons c src)
    show ?thesis unfolding conf_expand.simps [of res inp] Cons list.case Let_def
      by (intro typed_intros typed_su typed_same [OF su_reads(1)]) (use 1 dropWhile_shorter [OF Cons] in blast)
  qed
qed

lemma typed_default_file: "typed (default_file e r ks)"
proof (induction ks)
  case (Cons k ks)
  have n: "typed (kbind (conf_expand_value x) (\<lambda>name. case ke_files e name of Some c \<Rightarrow> kret (Some (name, c)) | None \<Rightarrow> default_file e r ks))" for x
    unfolding conf_expand_value_def by (intro typed_intros typed_su Cons)
  show ?case by (simp, intro typed_bind typed_su typed_same [OF su_reads(2)])
    (auto split: tristate.splits option.splits pexpr.splits expr.splits intro: typed_su Cons.IH n typed_bind)
qed (simp add: typed_su)

lemma typed_read_simple [typed_intros]: "typed (conf_read_simple e name d)"
proof -
  have l: "typed (kseq (load_file p n c d) (kret False))" for p n c by (intro typed_intros typed_su)
  have f: "typed (kbind (default_file e r ks) (\<lambda>x. case x of None \<Rightarrow> kret True | Some (n, c) \<Rightarrow> kseq (load_file p n c d) (kret False)))" for p r ks
    by (rule typed_bind [OF typed_default_file]) (auto split: option.splits intro: typed_su l)
  show ?thesis unfolding conf_read_simple_def Let_def
    by (intro typed_option l typed_seq typed_same [OF su_frame(6)] typed_bind [OF typed_su(2)] typed_bind [OF typed_su(3)] typed_su f)
qed

lemma typed_drop_hidden: "typed (drop_hidden r)"
  unfolding drop_hidden_def count_unsaved_def
  by (intro typed_intros typed_su su_intros typed_same [OF su_within] typed_same [OF su_frame(3)])

lemma typed_check_saved: "typed (check_saved r)"
  unfolding check_saved_def count_unsaved_def by (intro typed_intros typed_su typed_same [OF su_frame(3)])

lemma typed_read [typed_intros]: "typed (conf_read e name)"
  unfolding conf_read_def
  by (intro typed_intros typed_su typed_same [OF su_frame(6)] typed_same [OF su_frame(7)] typed_drop_hidden typed_check_saved)

section \<open>New symbols\<close>

lemma typed_randomize: "typed (randomize_choice_values rnd c k)"
  unfolding randomize_choice_values_def Let_def split_def by (intro typed_intros typed_su su_intros)

lemma typed_new_symbols [typed_intros]: "typed (conf_set_all_new_symbols e rnd mode)"
proof -
  have n: "typed (set_new_symbol rnd p mode r acc)" for p r acc
    unfolding set_new_symbol_def Let_def by (intro typed_same su_intros)
  have q: "typed (request_choice r)" for r unfolding request_choice_def by (intro typed_same su_intros)
  have s: "typed (settle_choice rnd mode r acc)" for r acc
    unfolding settle_choice_def by (intro typed_intros typed_su typed_randomize typed_same [OF su_set_all_choice_values])
  show ?thesis unfolding conf_set_all_new_symbols_def split_def by (intro typed_intros typed_su n q s)
qed

end
