(* ===== verification/KAskFacts.thy ===== *)
theory KAskFacts
  imports KAsk KHelpFacts KUserConf
begin

text \<open>
  The questions on the terminal keep what the operations on symbols keep: the locale \<open>question_invariant\<close> is
  interpreted for the order of the symbol table and for the user's values.
\<close>

section \<open>Invariants of questions\<close>

text \<open>Whatever is on the console, an operation that returns leaves a state with \<open>I\<close>.\<close>

definition csafe :: "(kst \<Rightarrow> bool) \<Rightarrow> ('c, 'a) rm \<Rightarrow> bool" where
  "csafe I m \<longleftrightarrow> (\<forall>c. triple I (m c) I)"

named_theorems csafe_intros \<open>operations on the console that keep an invariant\<close>

lemma triple_ret: "triple I (kret x) I"
  by (simp add: triple_def kret_def)

lemma csafe_ret [csafe_intros]: "csafe I (cret x)"
  by (simp add: csafe_def cret_def triple_ret)

lemma csafe_bind [csafe_intros]: "csafe I m \<Longrightarrow> (\<And>x. csafe I (f x)) \<Longrightarrow> csafe I (cbind m f)"
  unfolding csafe_def cbind_def split_def
  by (intro allI triple_bind [where H = I]) (auto split: option.split intro: triple_ret)

lemma csafe_seq [csafe_intros]: "csafe I m \<Longrightarrow> csafe I m' \<Longrightarrow> csafe I (cseq m m')"
  unfolding cseq_def by (rule csafe_bind)

lemma csafe_lift: "triple I m I \<Longrightarrow> csafe I (clift m)"
  unfolding csafe_def clift_def by (auto intro: triple_bind [where H = I] triple_ret)

lemma csafe_console [csafe_intros]: "csafe I (cget f)" "csafe I (cmod g)" "csafe I cexit"
  by (simp_all add: csafe_def cget_def cmod_def cexit_def triple_ret)

lemma csafe_stuck [csafe_intros]: "csafe I cstuck"
  by (simp add: csafe_def cstuck_def triple_def)

lemma csafe_print [csafe_intros]: "csafe I (cprint s)"
  unfolding cprint_def by (rule csafe_console)

lemma csafe_when [csafe_intros]: "csafe I m \<Longrightarrow> csafe I (cwhen b m)"
  by (simp add: cwhen_def csafe_ret)

lemma csafe_if [csafe_intros]: "csafe I a \<Longrightarrow> csafe I b \<Longrightarrow> csafe I (if P then a else b)"
  by simp

lemma csafe_let [csafe_intros]: "(\<And>y. csafe I (f y)) \<Longrightarrow> csafe I (Let x f)"
  by (simp add: Let_def)

lemma csafe_option [csafe_intros]: "csafe I a \<Longrightarrow> (\<And>x. csafe I (f x)) \<Longrightarrow> csafe I (case q of None \<Rightarrow> a | Some x \<Rightarrow> f x)"
  by (cases q) auto

lemma csafe_prod [csafe_intros]: "(\<And>x y. csafe I (f x y)) \<Longrightarrow> csafe I (case q of (x, y) \<Rightarrow> f x y)"
  by (cases q) auto

lemma csafe_for [csafe_intros]: "(\<And>x. csafe I (f x)) \<Longrightarrow> csafe I (cfor xs f)"
  by (induction xs) (auto intro: csafe_intros)

lemma csafe_fold [csafe_intros]: "(\<And>x a. csafe I (f x a)) \<Longrightarrow> csafe I (cfold f xs a)"
  by (induction xs arbitrary: a) (auto intro: csafe_intros)

lemma csafe_get [csafe_intros]: "csafe I (clift (kget f))" "csafe I (clift (ksym r))" "csafe I (clift kcrash)"
  by (rule csafe_lift, simp add: triple_def kget_def ksym_def kcrash_def)+

lemma csafe_fgets [csafe_intros]: "csafe I (xfgets old n)"
  unfolding xfgets_def by (intro csafe_intros)

lemma csafe_check_stdin [csafe_intros]: "csafe I (check_stdin A)"
  unfolding check_stdin_def by (intro csafe_intros)

lemma csafe_askvalue [csafe_intros]: "csafe I (conf_askvalue A r def)"
  unfolding conf_askvalue_def Let_def by (intro csafe_intros)

lemma csafe_prompt_text [csafe_intros]: "csafe I (clift (prompt_text m))"
  by (rule csafe_lift) (auto simp: prompt_text_def kbind_def kget_def kret_def kcrash_def triple_def split: option.splits)

lemma csafe_is_menu [csafe_intros]: "csafe I (clift (is_menu t))" "csafe I (clift (parent_menu A t))"
  unfolding is_menu_def parent_menu_def by (rule csafe_get)+

lemma csafe_heading [csafe_intros]: "csafe I (conf_heading ind t)"
  unfolding conf_heading_def by (intro csafe_intros)

lemma csafe_count [csafe_intros]: "csafe I count_restart"
  unfolding count_restart_def by (intro csafe_intros)

lemma csafe_list_new [csafe_intros]: "csafe I (list_new A r)"
  unfolding list_new_def by (intro csafe_intros)

text \<open>The operations on symbols that the questions use, each with the promise to keep the invariant.\<close>

locale question_invariant =
  fixes I :: "kst \<Rightarrow> bool"
  assumes visible: "triple I (menu_is_visible t) I"
    and string: "triple I (get_string sym_calc r) I"
    and calc: "triple I (sym_calc r) I"
    and set_tristate: "triple I (sym_set_tristate_value r v) I"
    and set_string: "triple I (sym_set_string_value r w) I"
    and help_text: "triple I (menu_get_ext_help pre root place m str_new) I"
begin

lemmas lifted = csafe_lift [OF visible] csafe_lift [OF string] csafe_lift [OF calc] csafe_lift [OF set_tristate]
  csafe_lift [OF set_string] csafe_lift [OF help_text]

lemma safe_help: "csafe I (print_help A m)"
  unfolding print_help_def by (intro csafe_intros lifted)

lemma safe_string: "csafe I (conf_string A n ind m r)"
proof (induction n)
  case (Suc n)
  have a: "csafe I (ask_string A ind m r)" unfolding ask_string_def by (intro csafe_intros lifted)
  have "csafe I (case string_answer def l of
           Overwrite \<Rightarrow> clift kcrash
         | ShowHelp \<Rightarrow> cseq (print_help A m) (conf_string A n ind m r)
         | Take v \<Rightarrow> cbind (clift (sym_set_string_value r v)) (\<lambda>b. if b then cret () else conf_string A n ind m r))" for def l
    by (cases "string_answer def l") (auto intro!: csafe_intros lifted safe_help Suc)
  then show ?case by (simp only: conf_string.simps) (intro csafe_intros a)
qed (simp add: csafe_stuck)

lemma safe_sym: "csafe I (conf_sym A n ind m r)"
proof (induction n)
  case (Suc n)
  have a: "csafe I (ask_tristate A ind m r)" unfolding ask_tristate_def by (intro csafe_intros lifted)
  have "csafe I (case tri_answer oldval l of
           Again \<Rightarrow> conf_sym A n ind m r
         | Explain \<Rightarrow> cseq (print_help A m) (conf_sym A n ind m r)
         | Set v \<Rightarrow> cbind (clift (sym_set_tristate_value r v)) (\<lambda>b.
             if b then cret () else cseq (print_help A m) (conf_sym A n ind m r)))" for oldval l
    by (cases "tri_answer oldval l") (auto intro!: csafe_intros lifted safe_help Suc)
  then show ?case by (simp only: conf_sym.simps) (intro csafe_intros a)
qed (simp add: csafe_stuck)

lemma safe_pick: "csafe I (clift (pick_child k ts))"
proof -
  have "triple I (pick_child k ts) I"
  proof (induction ts arbitrary: k)
    case (Cons t ts)
    have "triple I (kbind (menu_is_visible t) (\<lambda>v.
        if \<not> v then pick_child k ts else if k - 1 = 0 then kret (Some t) else pick_child (k - 1) ts)) I" for k
      by (rule triple_bind [OF visible]) (use Cons in \<open>auto intro: triple_ret\<close>)
    then show ?case using Cons by (simp only: pick_child.simps split: if_split) blast
  qed (simp add: triple_ret)
  then show ?thesis by (rule csafe_lift)
qed

lemma safe_choice_line: "csafe I (choice_line ind d t acc)"
  unfolding choice_line_def by (intro csafe_intros lifted)

lemma safe_choice_loop: "csafe I (choice_loop A n ind t r new)"
proof (induction n)
  case (Suc n)
  have a: "csafe I (ask_choice A ind m is_new acc)" for m is_new acc
    unfolding ask_choice_def Let_def by (intro csafe_intros)
  have s: "csafe I (clift (sym_set_choice_value r v))" for v
    unfolding sym_set_choice_value_def by (rule lifted)
  have "csafe I (case ans of
           Repeat h \<Rightarrow> cseq (cwhen h (print_help A (mt_menu t))) (choice_loop A n ind t r new)
         | Pick cnt \<Rightarrow>
             cbind (clift (pick_child cnt (mt_list t))) (\<lambda>ch. case ch of
               None \<Rightarrow> choice_loop A n ind t r new
             | Some c \<Rightarrow>
                 if l \<noteq> [] \<and> List.last l = CHR ''?''
                 then cseq (print_help A (mt_menu c)) (choice_loop A n ind t r new)
                 else (case m_sym (mt_menu c) of
                     None \<Rightarrow> cret c
                   | Some v \<Rightarrow> cbind (clift (sym_set_choice_value r v)) (\<lambda>_. cret c))))" for ans l
    by (cases ans) (simp_all only: choice_answer.case, (intro csafe_intros safe_help safe_pick s Suc)+)
  then show ?case by (simp only: choice_loop.simps) (intro csafe_intros safe_choice_line a)
qed (simp add: csafe_stuck)

lemma safe_conf: "csafe I (conf A n ind t)" "csafe I (check_conf A n ind t)"
proof (induction n arbitrary: ind t)
  case (Suc n)
  {
    case 1
    show ?case unfolding conf.simps conf_body_def conf_choice_def choice_open_def
      by (intro csafe_intros lifted safe_sym safe_string safe_choice_loop Suc)
  next
    case 2
    show ?case unfolding check_conf.simps check_body_def check_entry_def
      by (intro csafe_intros lifted Suc)
  }
qed (simp_all add: csafe_stuck)

end


section \<open>The symbol table and the user's values\<close>

lemma su_token: "same_user (print_token tok g)"
  unfolding print_token_def by (intro su_intros)

lemma su_print [su_intros]: "same_user (gstr_print e g)"
  unfolding gstr_print_def by (intro su_intros su_token)

lemma su_prompt_lines: "same_user (prompt_lines own anc out)"
proof -
  have l: "same_user (location_line loc jt acc)" for loc jt acc
    unfolding location_line_def Let_def split_def by (intro su_intros)
  have j: "same_user (jump_place head loc own)" for head loc
    by (auto simp: jump_place_def jump_target_def split: option.split intro!: su_intros)
  have a: "same_user (first_accessible t loc)" for t loc
    unfolding first_accessible_def by (intro su_intros)
  show ?thesis unfolding prompt_lines_def location_lines_def split_def by (intro su_intros l j a)
qed

lemma su_prompt_str [su_intros]: "same_user (get_prompt_str root p out)"
  unfolding get_prompt_str_def by (auto split: option.split list.split intro!: su_crash su_prompt_lines)

lemma su_symbol_str [su_intros]: "same_user (get_symbol_str root place r out)"
proof -
  have h: "same_user (symbol_heading r g)" for g
    unfolding symbol_heading_def range_line_def by (intro su_intros)
  have d: "same_user (definition_lines place s g)" "same_user (selected_by s g)" "same_user (select_lines s g)" for s g
    unfolding definition_lines_def selected_by_def select_lines_def select_item_def Let_def split_def by (intro su_intros)+
  show ?thesis unfolding get_symbol_str_def split_def by (intro su_intros h d)
qed

lemma su_ext_help [su_intros]: "same_user (menu_get_ext_help pre root place m g)"
  unfolding menu_get_ext_help_def by (intro su_intros)

interpretation typed_questions: question_invariant user_typed
  by unfold_locales (intro typed_intros typed_same su_intros)+

lemma triple_keep: "keep I m \<Longrightarrow> triple I m I"
  by (fastforce simp: keeps_def triple_def)

lemma table_keep: "(\<And>tys. keep (in_order tys) m) \<Longrightarrow> triple table_ok m table_ok"
  by (rule triple_keep) (rule keeps_table)

interpretation table_questions: question_invariant table_ok
  by unfold_locales
    (rule table_keep; intro keep_visible keep_string_of keep_sym_calc_any keep_set_tristate keep_set_string
      keeps_ext_help gstr_ok_new)+

end
