(* ===== verification/KAskEnds.thy ===== *)
theory KAskEnds
  imports KAskFacts
begin

text \<open>
  When the questions on the terminal come to an end: always for bool symbols, never at the end of the input for
  a number without a value, and without any question in the modes that ask nothing.
\<close>

section \<open>One round of a question\<close>

lemma capply:
  "cbind m f c st = (case m c st of
     Ret (x, c') st' \<Rightarrow> (case x of None \<Rightarrow> Ret (None, c') st' | Some y \<Rightarrow> f y c' st') | Crash \<Rightarrow> Crash | NoFuel \<Rightarrow> NoFuel)"
  "cseq n n' c st = (case n c st of
     Ret (x, c') st' \<Rightarrow> (case x of None \<Rightarrow> Ret (None, c') st' | Some y \<Rightarrow> n' c' st') | Crash \<Rightarrow> Crash | NoFuel \<Rightarrow> NoFuel)"
  "cret z c st = Ret (Some z, c) st" "cget g c st = Ret (Some (g c), c) st" "cmod h c st = Ret (Some (), h c) st"
  "cwhen b w c st = (if b then w c st else Ret (Some (), c) st)"
  "cprint s d st = Ret (Some (), d\<lparr>co_out := co_out d @ s\<rparr>) st"
  "clift k c st = (case k st of Ret x st' \<Rightarrow> Ret (Some x, c) st' | Crash \<Rightarrow> Crash | NoFuel \<Rightarrow> NoFuel)"
  by (simp_all add: cbind_def cseq_def cret_def cget_def cmod_def cwhen_def cprint_def clift_def kbind_def kret_def
      split: kres.split option.split prod.split)

lemma take_line_pos: "0 < n \<Longrightarrow> take_line n (c # s) = (if c = CHR 0x0A then ([c], s) else (case take_line (n - 1) s of (a, b) \<Rightarrow> (c # a, b)))"
  by (cases n) auto

lemma take_line_rest: "length (snd (take_line n s)) \<le> length s"
  by (induction n s rule: take_line.induct) (auto split: prod.splits)

lemma fgets_line:
  "\<exists>l c'. xfgets old 128 c st = Ret (Some l, c') st \<and> (co_in c = [] \<longrightarrow> l = old \<and> c' = c) \<and>
     (co_in c \<noteq> [] \<longrightarrow> length (co_in c') < length (co_in c))"
proof (cases "co_in c")
  case (Cons x s)
  show ?thesis using take_line_rest [of 126 s]
    by (auto simp: xfgets_def capply Cons take_line_pos split: prod.splits)
qed (simp add: xfgets_def capply)

definition gets_answer :: "asking \<Rightarrow> kst \<Rightarrow> sref \<Rightarrow> bool" where
  "gets_answer A st r \<longleftrightarrow> sym_is_changable st r \<and>
     (as_mode A = oldaskconfig \<or>
      as_mode A \<in> {oldconfig, silentoldconfig} \<and> \<not> sym_has_value (sym_at st r) \<and> as_valid_stdin A)"

text \<open>The state of the symbols stays, and an answer that is not empty has used up some of the input.\<close>

lemma askvalue_round:
  "\<exists>c' res. conf_askvalue A r def c st = Ret (res, c') st \<and>
     (\<forall>l. res = Some (True, l) \<longrightarrow> l = newline \<or> length (co_in c') < length (co_in c)) \<and>
     (gets_answer A st r \<longrightarrow> co_in c = [] \<longrightarrow> res = Some (True, newline) \<and> co_in c' = [])"
proof -
  have f: "\<exists>l c''. xfgets newline 128 c' st = Ret (Some l, c'') st \<and> (co_in c = [] \<longrightarrow> l = newline \<and> co_in c'' = []) \<and>
     (co_in c \<noteq> [] \<longrightarrow> length (co_in c'') < length (co_in c))" if "co_in c' = co_in c" for c'
    using fgets_line [of newline c' st] that by auto
  obtain l c1 where a: "xfgets newline 128 (c\<lparr>co_out := co_out c @ ''(NEW) ''\<rparr>) st = Ret (Some l, c1) st"
    "co_in c = [] \<longrightarrow> l = newline \<and> co_in c1 = []" "co_in c \<noteq> [] \<longrightarrow> length (co_in c1) < length (co_in c)"
    using f [of "c\<lparr>co_out := co_out c @ ''(NEW) ''\<rparr>"] by auto
  obtain k c2 where b: "xfgets newline 128 c st = Ret (Some k, c2) st"
    "co_in c = [] \<longrightarrow> k = newline \<and> co_in c2 = []" "co_in c \<noteq> [] \<longrightarrow> length (co_in c2) < length (co_in c)"
    using f [of c] by auto
  show ?thesis
    by (cases "co_in c = []"; cases "sym_is_changable st r"; cases "sym_has_value (sym_at st r)"; cases "as_mode A"; cases "as_valid_stdin A")
      (use a b in \<open>simp_all add: conf_askvalue_def check_stdin_def cexit_def capply kapply gets_answer_def\<close>)
qed


lemma get_string_pure: "s_tri (sym_at st r) \<noteq> TMod \<Longrightarrow> get_string sym_calc r st = Ret (sym_get_string_value st r) st"
  by (simp add: get_string_def kapply)

lemma ask_tristate_round:
  assumes "s_tri (sym_at st r) \<noteq> TMod"
  shows "ask_tristate A ind m r c st = Crash \<or>
    (\<exists>c' res. ask_tristate A ind m r c st = Ret (res, c') st \<and>
      (\<forall>old l. res = Some (old, True, l) \<longrightarrow> old = sym_get_tristate_value st r \<and> (l = [] \<or> length (co_in c') < length (co_in c))))"
proof (cases "prompt_prop st m")
  case None
  then show ?thesis by (simp add: ask_tristate_def capply kapply prompt_text_def kcrash_def)
next
  case (Some p)
  define c1 where "c1 = (let s = sym_at st r; a = c\<lparr>co_out := co_out c @ (spaces (ind - 1) @ name_str (p_text p) @ '' '' @
      (case s_name s of Some n \<Rightarrow> ''('' @ n @ '') '' | None \<Rightarrow> []))\<rparr>
    in a\<lparr>co_out := co_out a @ tri_choices st r (menu_has_help m)\<rparr>)"
  have i: "co_in c1 = co_in c" by (simp add: c1_def Let_def)
  obtain c' res where a: "conf_askvalue A r (sym_get_string_value st r) c1 st = Ret (res, c') st"
    "\<forall>l. res = Some (True, l) \<longrightarrow> l = newline \<or> length (co_in c') < length (co_in c1)"
    using askvalue_round [of A r "sym_get_string_value st r" c1 st] by blast
  have e: "strip newline = []" by code_simp
  have "ask_tristate A ind m r c st = (case res of None \<Rightarrow> Ret (None, c') st
      | Some (b, l) \<Rightarrow> Ret (Some (sym_get_tristate_value st r, b, strip l), c') st)"
    using a(1) assms Some
    by (simp add: ask_tristate_def capply kapply prompt_text_def get_string_pure c1_def Let_def split: option.split prod.split)
  then show ?thesis using a(2) i e by (cases res) auto
qed

lemma bool_not_mod: "in_order tys st \<Longrightarrow> s_type (sym_at st r) = S_BOOLEAN \<Longrightarrow> s_tri (sym_at st r) \<noteq> TMod"
  by (auto simp: in_order_def table_inv_def sym_at_def split: if_splits)

lemma in_order_type: "in_order tys st \<Longrightarrow> in_order tys st' \<Longrightarrow> s_type (sym_at st' r) = s_type (sym_at st r)"
  using type_at [of _ tys st r] type_at [of _ tys st' r] by (simp add: in_order_def)

lemma help_round:
  "in_order tys st \<Longrightarrow> print_help A m c st \<noteq> NoFuel \<and>
     (\<forall>x c' st'. print_help A m c st = Ret (x, c') st' \<longrightarrow> in_order tys st' \<and> x = Some () \<and> co_in c' = co_in c)"
  using keeps_fuel [OF keeps_ext_help [OF gstr_ok_new(1)]] keepsD [OF keeps_ext_help [OF gstr_ok_new(1)]]
  by (auto simp: print_help_def capply split: kres.split kres.splits)

lemma conf_sym_fuel:
  "in_order tys st \<Longrightarrow> s_type (sym_at st r) = S_BOOLEAN \<Longrightarrow> length (co_in c) < n \<Longrightarrow> conf_sym A n ind m r c st \<noteq> NoFuel"
proof (induction n arbitrary: c st)
  case (Suc n)
  note tri = bool_not_mod [OF Suc.prems(1,2)]
  have again: "conf_sym A n ind m r c' st' \<noteq> NoFuel"
    if "in_order tys st'" "length (co_in c') < length (co_in c)" for c' st'
    using Suc.IH [OF that(1)] in_order_type [OF Suc.prems(1) that(1), of r] Suc.prems that(2) by simp
  have helped: "cseq (print_help A m) (conf_sym A n ind m r) c' st' \<noteq> NoFuel"
    if "in_order tys st'" "length (co_in c') < length (co_in c)" for c' st'
    using help_round [OF that(1), of A m c'] again [of _ c'] that(2)
    by (cases "print_help A m c' st'") (auto simp: capply again)
  from ask_tristate_round [OF tri, of A ind m c] show ?case
  proof
    assume "\<exists>c' res. ask_tristate A ind m r c st = Ret (res, c') st \<and>
      (\<forall>old l. res = Some (old, True, l) \<longrightarrow> old = sym_get_tristate_value st r \<and> (l = [] \<or> length (co_in c') < length (co_in c)))"
    then obtain c' res where a: "ask_tristate A ind m r c st = Ret (res, c') st"
      "\<And>old l. res = Some (old, True, l) \<Longrightarrow> old = sym_get_tristate_value st r \<and> (l = [] \<or> length (co_in c') < length (co_in c))"
      by blast
    show ?case
    proof (cases "\<exists>old l. res = Some (old, True, l)")
      case True
      then obtain old l where res: "res = Some (old, True, l)" by blast
      note old = a(2) [OF res]
      have set: "cbind (clift (sym_set_tristate_value r v)) (\<lambda>b. if b then cret () else cseq (print_help A m) (conf_sym A n ind m r)) c' st \<noteq> NoFuel"
        if "v = old \<or> length (co_in c') < length (co_in c)" for v
      proof (cases "sym_set_tristate_value r v st")
        case (Ret b st2)
        have k: "in_order tys st2" using keepsD [OF keep_set_tristate Suc.prems(1) Ret] by simp
        show ?thesis
        proof (cases b)
          case False
          then have "v \<noteq> old" using set_tristate_accepts [OF Ret] old by auto
          then show ?thesis using that Ret False helped [OF k, of c'] by (simp add: capply)
        qed (use Ret in \<open>simp add: capply\<close>)
      next
        case NoFuel
        then show ?thesis using keeps_fuel [OF keep_set_tristate Suc.prems(1)] by blast
      qed (simp add: capply)
      have "conf_sym A (Suc n) ind m r c st = (case tri_answer old l of
           Again \<Rightarrow> conf_sym A n ind m r
         | Explain \<Rightarrow> cseq (print_help A m) (conf_sym A n ind m r)
         | Set v \<Rightarrow> cbind (clift (sym_set_tristate_value r v)) (\<lambda>b.
             if b then cret () else cseq (print_help A m) (conf_sym A n ind m r))) c' st"
        using a(1) res by (simp add: capply)
      moreover have "l = [] \<Longrightarrow> tri_answer old l = Set old" by (simp add: tri_answer_def)
      ultimately show ?thesis
        using old set again [OF Suc.prems(1)] helped [OF Suc.prems(1)]
        by (cases "l = []"; cases "tri_answer old l") simp_all
    next
      case False
      then show ?thesis using a(1) by (cases res) (auto simp: capply)
    qed
  qed (simp add: capply)
qed simp


text \<open>A terminal that asks for a number: the entry of an \<open>int\<close> symbol below the main menu.\<close>

definition number_symbol :: symbol where
  "number_symbol = (new_symbol (Some ''N'') SYMBOL_VALID)
     \<lparr>s_type := S_INT, s_val := VStr [], s_visible := TYes, s_prop := [a_prompt\<lparr>p_vis_tri := TYes\<rparr>]\<rparr>"

definition number_table :: kst where
  "number_table = kst_init\<lparr>ks_syms := ks_syms kst_init @ [number_symbol]\<rparr>"

definition number_menu :: menu where
  "number_menu = (new_menu 1 (Some (Sym 0)))\<lparr>m_prompt := Some (PIdx 0)\<rparr>"

definition main_menu :: mtree where
  "main_menu = MT ((new_menu 0 None)\<lparr>m_prompt := Some (POwn (a_prompt\<lparr>p_kind := P_MENU\<rparr>))\<rparr>) [MT number_menu []]"

definition terminal :: asking where
  "terminal = \<lparr>as_mode = oldaskconfig, as_tty = True, as_valid_stdin = True, as_prefix = ''CONFIG_'', as_root = main_menu,
     as_place = (\<lambda>_. (''Config.in'', 1))\<rparr>"

definition typing :: "string \<Rightarrow> console" where
  "typing s = \<lparr>co_in = s, co_out = [], co_cnt = 0, co_root = None\<rparr>"

definition bool_table :: kst where
  "bool_table = kst_init\<lparr>ks_syms := ks_syms kst_init @ [number_symbol\<lparr>s_type := S_BOOLEAN\<rparr>]\<rparr>"

lemma bool_table_ok: "table_ok bool_table"
proof -
  have "entries_ok bool_table" by code_simp
  then show ?thesis by (simp add: table_ok_iff chains_ok_def bool_table_def kst_init_def)
qed


section \<open>A question without end\<close>

lemma ask_string_round:
  assumes "gets_answer A st r" "co_in c = []" "prompt_prop st m = Some p" "s_tri (sym_at st r) \<noteq> TMod"
  shows "\<exists>c'. ask_string A ind m r c st = Ret (Some (sym_get_string_value st r, True, newline), c') st \<and> co_in c' = []"
proof -
  define c1 where "c1 = (let a = c\<lparr>co_out := co_out c @ (spaces (ind - 1) @ name_str (p_text p) @ '' ('' @
      name_str (s_name (sym_at st r)) @ '') '')\<rparr> in a\<lparr>co_out := co_out a @ (''['' @ sym_get_string_value st r @ ''] '')\<rparr>)"
  have "co_in c1 = []" using assms(2) by (simp add: c1_def Let_def)
  then obtain c' where "conf_askvalue A r (sym_get_string_value st r) c1 st = Ret (Some (True, newline), c') st" "co_in c' = []"
    using askvalue_round [of A r "sym_get_string_value st r" c1 st] assms(1) by auto
  then show ?thesis using assms(3,4)
    by (simp add: ask_string_def capply kapply prompt_text_def get_string_pure c1_def Let_def)
qed

text \<open>C27: At the end of the input the question for a number that has no valid value is repeated for ever: no bound on
  the rounds is enough, and the program never returns.\<close>

theorem conf_string_hangs:
  assumes "gets_answer A st r" "co_in c = []" "prompt_prop st m = Some p"
    "s_type (sym_at st r) = S_INT \<or> s_type (sym_at st r) = S_HEX"
    "\<not> sym_string_valid (s_type (sym_at st r)) (sym_get_string_value st r)" "s_tri (sym_at st r) \<noteq> TMod"
  shows "conf_string A n ind m r c st = NoFuel"
  using assms(2)
proof (induction n arbitrary: c)
  case (Suc n)
  obtain c' where a: "ask_string A ind m r c st = Ret (Some (sym_get_string_value st r, True, newline), c') st" "co_in c' = []"
    using ask_string_round [OF assms(1) Suc.prems assms(3,6)] by blast
  have "sym_set_string_value r (sym_get_string_value st r) st = Ret False st"
    using assms(4,5) by (auto simp: sym_set_string_value_def sym_string_within_range_def kapply)
  then show ?case using a Suc.IH [OF a(2)] by (simp add: capply string_answer_def newline_def)
qed (simp add: cstuck_def)

theorem conf_string_hangs_witness:
  "\<forall>n. conf_string terminal n 1 number_menu (Sym 0) (typing []) number_table = NoFuel"
proof -
  have at: "sym_at number_table (Sym 0) = number_symbol"
    by (simp add: number_table_def sym_at_def kst_init_def)
  have "gets_answer terminal number_table (Sym 0)" "prompt_prop number_table number_menu = Some (a_prompt\<lparr>p_vis_tri := TYes\<rparr>)"
    "co_in (typing []) = []" "s_type (sym_at number_table (Sym 0)) = S_INT"
    "\<not> sym_string_valid (s_type (sym_at number_table (Sym 0))) (sym_get_string_value number_table (Sym 0))"
    "s_tri (sym_at number_table (Sym 0)) \<noteq> TMod"
    by (simp_all add: at gets_answer_def sym_is_changable_def number_symbol_def new_symbol_def terminal_def less_tristate_def
        prompt_prop_def number_menu_def new_menu_def typing_def sym_string_valid_def valid_int_def sym_get_string_value_def)
  then show ?thesis using conf_string_hangs by blast
qed

section \<open>Modes that ask nothing\<close>

text \<open>The operation comes to an end without reading the input and leaves the user's values; with \<open>b\<close> it may print.\<close>

definition asks_nothing :: "symbol_type list \<Rightarrow> bool \<Rightarrow> 'a cm \<Rightarrow> bool" where
  "asks_nothing tys b m \<longleftrightarrow> (\<forall>c st. in_order tys st \<longrightarrow>
     (case m c st of
        Ret (x, c') st' \<Rightarrow> x \<noteq> None \<and> in_order tys st' \<and> user_values st' = user_values st \<and> co_in c' = co_in c \<and> (\<not> b \<longrightarrow> c' = c)
      | Crash \<Rightarrow> True | NoFuel \<Rightarrow> False))"

named_theorems mute_intros \<open>operations that ask nothing\<close>

lemma mute_ret [mute_intros]: "asks_nothing tys b (cret x)"
  by (simp add: asks_nothing_def capply)

lemma mute_get [mute_intros]: "asks_nothing tys b (cget f)"
  by (simp add: asks_nothing_def capply)

lemma mute_bind [mute_intros]:
  assumes "asks_nothing tys b m" "\<And>x. asks_nothing tys b (f x)"
  shows "asks_nothing tys b (cbind m f)"
  unfolding asks_nothing_def
proof (intro allI impI)
  fix c st assume i: "in_order tys st"
  show "case cbind m f c st of
      Ret (x, c') st' \<Rightarrow> x \<noteq> None \<and> in_order tys st' \<and> user_values st' = user_values st \<and> co_in c' = co_in c \<and> (\<not> b \<longrightarrow> c' = c)
    | Crash \<Rightarrow> True | NoFuel \<Rightarrow> False"
  proof (cases "m c st")
    case (Ret xc st1)
    obtain x c1 where xc: "xc = (x, c1)" by (cases xc)
    then have m: "x \<noteq> None" "in_order tys st1" "user_values st1 = user_values st" "co_in c1 = co_in c" "\<not> b \<longrightarrow> c1 = c"
      using assms(1) i Ret by (auto simp: asks_nothing_def dest!: spec [where x = c] spec [where x = st])
    then obtain y where y: "x = Some y" by blast
    have "case f y c1 st1 of
        Ret (x, c') st' \<Rightarrow> x \<noteq> None \<and> in_order tys st' \<and> user_values st' = user_values st1 \<and> co_in c' = co_in c1 \<and> (\<not> b \<longrightarrow> c' = c1)
      | Crash \<Rightarrow> True | NoFuel \<Rightarrow> False"
      using assms(2) m(2) unfolding asks_nothing_def by blast
    then show ?thesis using Ret xc y m by (auto simp: capply split: kres.splits)
  next
    case NoFuel
    have "case m c st of
        Ret (x, c') st' \<Rightarrow> x \<noteq> None \<and> in_order tys st' \<and> user_values st' = user_values st \<and> co_in c' = co_in c \<and> (\<not> b \<longrightarrow> c' = c)
      | Crash \<Rightarrow> True | NoFuel \<Rightarrow> False"
      using assms(1) i unfolding asks_nothing_def by blast
    then show ?thesis using NoFuel by simp
  qed (simp add: capply)
qed

lemma mute_seq [mute_intros]: "asks_nothing tys b m \<Longrightarrow> asks_nothing tys b m' \<Longrightarrow> asks_nothing tys b (cseq m m')"
  unfolding cseq_def by (rule mute_bind)

lemma mute_if [mute_intros]: "(P \<Longrightarrow> asks_nothing tys b m) \<Longrightarrow> (\<not> P \<Longrightarrow> asks_nothing tys b m') \<Longrightarrow> asks_nothing tys b (if P then m else m')"
  by simp

lemma mute_when [mute_intros]: "asks_nothing tys b m \<Longrightarrow> asks_nothing tys b (cwhen P m)"
  by (simp add: cwhen_def mute_ret)

lemma mute_option [mute_intros]:
  "asks_nothing tys b m \<Longrightarrow> (\<And>x. asks_nothing tys b (f x)) \<Longrightarrow> asks_nothing tys b (case q of None \<Rightarrow> m | Some x \<Rightarrow> f x)"
  by (cases q) auto

lemma mute_print [mute_intros]: "asks_nothing tys True (cprint s)"
  by (simp add: asks_nothing_def capply)

lemma mute_for: "(\<And>x. x \<in> set xs \<Longrightarrow> asks_nothing tys b (f x)) \<Longrightarrow> asks_nothing tys b (cfor xs f)"
  by (induction xs) (auto intro!: mute_intros)

lemma mute_lift: "keep (in_order tys) m \<Longrightarrow> same_user m \<Longrightarrow> asks_nothing tys b (clift m)"
  unfolding asks_nothing_def
proof (intro allI impI)
  fix c :: console and st assume k: "keep (in_order tys) m" and u: "same_user m" and i: "in_order tys st"
  show "case clift m c st of
      Ret (x, c') st' \<Rightarrow> x \<noteq> None \<and> in_order tys st' \<and> user_values st' = user_values st \<and> co_in c' = co_in c \<and> (\<not> b \<longrightarrow> c' = c)
    | Crash \<Rightarrow> True | NoFuel \<Rightarrow> False"
  proof (cases "m st")
    case (Ret x st')
    then show ?thesis using keepsD [OF k i Ret] u by (simp add: capply same_user_def)
  qed (use keeps_fuel [OF k i] in \<open>simp_all add: capply\<close>)
qed

lemma mute_symbols [mute_intros]: "asks_nothing tys b (clift (kget f))" "asks_nothing tys b (clift (ksym r))"
  by (intro mute_lift keep_get keep_sym su_get su_sym)+

lemma mute_check:
  "as_mode A = listnewconfig \<and> b \<or> as_mode A = olddefconfig \<Longrightarrow> mt_size t \<le> n \<Longrightarrow> asks_nothing tys b (check_conf A n ind t)"
proof (induction n arbitrary: t)
  case 0
  then show ?case by (cases t) simp
next
  case (Suc n)
  have c: "asks_nothing tys b (check_conf A n ind u)" if "u \<in> set (mt_list t)" for u
  proof (rule Suc.IH)
    have "mt_size u < mt_size t" using that by (cases t) (auto simp: less_Suc_eq_le intro: member_le_sum_list)
    then show "mt_size u \<le> n" using Suc.prems(2) by simp
  qed (use Suc.prems in simp)
  have e: "asks_nothing tys b (check_entry A (conf A n) ind t r)" for r
    unfolding check_entry_def list_new_def using Suc.prems(1)
    by (auto intro!: mute_intros)
  show ?case unfolding check_conf.simps check_body_def
    by (intro mute_intros mute_for mute_lift keep_visible su_visible c e)
qed

text \<open>Listing the new symbols and filling in defaults never asks: the check of a menu tree comes to an end with
  the size of the tree as bound, reads nothing from the terminal and leaves the user's values, and
  filling in defaults prints nothing either.\<close>

theorem check_conf_asks_nothing:
  assumes "table_ok st" "as_mode A = listnewconfig \<or> as_mode A = olddefconfig" "mt_size t \<le> n"
  shows "case check_conf A n ind t c st of
      Ret (x, c') st' \<Rightarrow> x = Some () \<and> table_ok st' \<and> user_values st' = user_values st \<and> co_in c' = co_in c \<and>
        (as_mode A = olddefconfig \<longrightarrow> c' = c)
    | Crash \<Rightarrow> True | NoFuel \<Rightarrow> False"
proof -
  have "asks_nothing (map s_type (ks_syms st)) (as_mode A \<noteq> olddefconfig) (check_conf A n ind t)"
    using assms by (intro mute_check) auto
  then have "case check_conf A n ind t c st of
      Ret (x, c') st' \<Rightarrow> x \<noteq> None \<and> in_order (map s_type (ks_syms st)) st' \<and> user_values st' = user_values st \<and> co_in c' = co_in c \<and>
        (\<not> as_mode A \<noteq> olddefconfig \<longrightarrow> c' = c)
    | Crash \<Rightarrow> True | NoFuel \<Rightarrow> False"
    using assms(1) unfolding asks_nothing_def table_in_order by blast
  then show ?thesis using in_order_types by (auto simp: table_in_order split: kres.splits)
qed

theorem check_conf_asks_nothing_witness:
  "case check_conf (terminal\<lparr>as_mode := olddefconfig\<rparr>) 9 1 main_menu (typing []) bool_table of
      Ret (x, c') st' \<Rightarrow> x = Some () \<and> table_ok st' \<and> user_values st' = user_values bool_table \<and> c' = typing []
    | Crash \<Rightarrow> True | NoFuel \<Rightarrow> False"
proof -
  have s: "mt_size main_menu \<le> 9" by (simp add: main_menu_def)
  show ?thesis
    using check_conf_asks_nothing [OF bool_table_ok _ s, of "terminal\<lparr>as_mode := olddefconfig\<rparr>" "typing []" 1]
    by (auto split: kres.splits)
qed

end
