(* ===== verification/KFrontFacts.thy ===== *)
theory KFrontFacts
  imports KFront KAskEnds KWriteFacts
begin

text \<open>
  A run of the front end: whatever is read, asked and written, the user's numbers are numbers.
\<close>

section \<open>Writing\<close>

lemma su_write_symbol [su_intros]: "same_user (conf_write_symbol p r)"
  unfolding conf_write_symbol_def by (intro su_intros)

lemma su_string_default [su_intros]: "same_user (sym_get_string_default r)"
proof -
  have "same_user (default_values r)" unfolding default_values_def by (intro su_intros)
  then show ?thesis unfolding sym_get_string_default_def split_def Let_def by (intro su_intros)
qed

lemma su_walk: "(\<And>t acc. same_user (body t acc)) \<Longrightarrow> same_user (walk body ts [] acc)"
  unfolding walk_kfold [of ts "[]", simplified] by (rule su_fold)

lemma su_conf_write [su_intros]: "same_user (conf_write W name title ts)"
proof -
  have e: "same_user (write_entry pre t out)" for pre t out
    unfolding write_entry_def set_symbol_line_def by (intro su_intros)
  have "same_user (conf_write_text W title ts)"
    unfolding conf_write_text_def by (intro su_intros su_walk e)
  then show ?thesis unfolding conf_write_def Let_def split_def by (intro su_intros)
qed

lemma su_conf_write_defconfig [su_intros]: "same_user (conf_write_defconfig W f ts)"
proof -
  have d: "same_user (is_choice_default r)" for r unfolding is_choice_default_def by (intro su_intros)
  have e: "same_user (defconfig_entry pre t out)" for pre t out
    unfolding defconfig_entry_def set_symbol_line_def by (intro su_intros d)
  show ?thesis unfolding conf_write_defconfig_def by (intro su_intros su_walk e)
qed

lemma su_split_loop: "same_user (split_loop W rs ops)"
proof (induction rs arbitrary: ops)
  case (Cons r rs)
  have "same_user (config_changed r)" unfolding config_changed_def by (intro su_intros)
  then show ?case by (auto intro!: su_intros Cons split: option.split prod.split bool.split)
qed (simp add: su_ret)

lemma typed_write_autoconf: "typed (conf_write_autoconf W files title)"
proof -
  have s: "typed (conf_split_config W ops)" for ops
    unfolding conf_split_config_def Let_def split_def
    by (intro typed_intros typed_su typed_same [OF su_split_loop])
  have t: "same_user (autoconf_symbol pre r)" for pre r
    unfolding autoconf_symbol_def by (intro su_intros)
  have l: "same_user (autoconf_loop pre rs out)" for pre rs out
    by (induction rs arbitrary: out) (simp; intro su_intros t; assumption)+
  show ?thesis unfolding conf_write_autoconf_def autoconf_texts_def Let_def split_def
    by (intro typed_intros typed_su s typed_same [OF l])
qed

section \<open>A run\<close>

lemma typed_read_phase: "typed (read_phase e a)"
proof -
  have d: "typed (conf_get_default_confname e)"
    unfolding conf_get_default_confname_def conf_expand_value_def by (intro typed_intros typed_su)
  have r: "typed (read_allconfig e m)" for m
    unfolding read_allconfig_def by (intro typed_intros typed_su)
  show ?thesis unfolding read_phase_def
    by (cases "ca_mode a") (simp_all, (intro typed_intros typed_su d r)+)
qed

lemma typed_rounds: "typed (random_rounds e rnd n i)"
proof (induction n arbitrary: i)
  case (Suc n)
  show ?case by (simp, intro typed_intros typed_su Suc)
qed (simp add: typed_same su_crash)

context question_invariant
begin

lemma safe_rounds: "csafe I (check_rounds A n)"
proof (induction n)
  case (Suc n)
  show ?case by (simp only: check_rounds.simps) (intro csafe_intros safe_conf Suc)
qed (simp add: csafe_stuck)

lemma safe_ask_all: "csafe I (ask_all A n)"
  unfolding ask_all_def by (intro csafe_intros safe_conf safe_rounds)

end

lemma safe_values: "csafe user_typed (value_phase e rnd A n)"
proof -
  have s: "csafe user_typed (set_new e m)" for m
    unfolding set_new_def by (intro csafe_lift typed_intros typed_su)
  show ?thesis unfolding value_phase_def
    by (cases "as_mode A") (simp_all, (intro csafe_intros s typed_questions.safe_ask_all csafe_lift typed_rounds)+)
qed

lemma typed_write_phase: "typed (write_phase W files title root a)"
  unfolding write_phase_def split_def
  by (intro typed_intros typed_su typed_same [OF su_conf_write] typed_same [OF su_conf_write_defconfig] typed_write_autoconf)

text \<open>C24: Whatever the options, the configuration files, the answers on the terminal and the random numbers are: when
  the front end has finished, the user's value of every \<open>int\<close> and \<open>hex\<close> symbol, if it has one, is a
  decimal or hexadecimal number, provided this was so when the menus had been parsed.\<close>

theorem conf_run_typed:
  assumes "user_typed st" "conf_run W rnd files title A n a c st = Ret x st'"
  shows "user_typed st'"
proof -
  have "csafe user_typed (conf_run W rnd files title A n a)"
    unfolding conf_run_def Let_def
    by (intro csafe_intros csafe_lift typed_read_phase safe_values typed_write_phase)
  then show ?thesis using assms unfolding csafe_def triple_def by blast
qed


definition no_files :: wenv where
  "no_files = \<lparr>we_env = \<lparr>ke_files = (\<lambda>_. None), ke_getenv = (\<lambda>_. None)\<rparr>, we_is_dir = (\<lambda>_. False), we_can_write = (\<lambda>_. False),
     we_can_rename = (\<lambda>_ _. False), we_pid = 1, we_open = (\<lambda>_ _. None), we_stat = (\<lambda>_ _. False), we_mkdir = (\<lambda>_ _. False),
     we_chdir = (\<lambda>_. False), we_cwd = []\<rparr>"

lemma all_symbols_none: "ks_hash st = (\<lambda>_. []) \<Longrightarrow> all_symbols st = []"
  by (simp add: all_symbols_def)

lemmas ask_ops =
  check_rounds.simps [THEN fun_cong, THEN fun_cong] ask_all_def [THEN fun_cong, THEN fun_cong]
  conf.simps [THEN fun_cong, THEN fun_cong] check_conf.simps [THEN fun_cong, THEN fun_cong]
  conf_body_def [THEN fun_cong, THEN fun_cong] check_body_def [THEN fun_cong, THEN fun_cong]
  check_entry_def [THEN fun_cong, THEN fun_cong] conf_heading_def [THEN fun_cong, THEN fun_cong]
  cfor.simps [THEN fun_cong, THEN fun_cong] conf_string.simps [THEN fun_cong, THEN fun_cong]
  ask_string_def [THEN fun_cong, THEN fun_cong] conf_askvalue_def [THEN fun_cong, THEN fun_cong]
  xfgets_def [THEN fun_cong, THEN fun_cong] list_new_def [THEN fun_cong, THEN fun_cong]

lemmas read_ops = menu_is_visible.simps [THEN fun_cong] prompt_tri_def [THEN fun_cong] is_menu_def prompt_text_def [THEN fun_cong]
  get_string_def [THEN fun_cong] expr_calc_value.simps [THEN fun_cong] child_visible.simps [THEN fun_cong]

lemmas ask_data = terminal_def typing_def main_menu_def number_menu_def new_menu_def has_prompt_def prompt_vis_def prompt_prop_def
  a_prompt_def number_table_def number_symbol_def tree_id_def new_symbol_def kst_init_def sym_at_def flag_defs has_flag_def
  symbol_yes_def symbol_mod_def symbol_no_def symbol_empty_def static_symbol_def

lemmas set_ops = sym_set_string_value_def [THEN fun_cong] sym_string_within_range_def [THEN fun_cong] number_within_def [THEN fun_cong]
  sym_get_range_prop_def [THEN fun_cong] first_visible.simps [THEN fun_cong] mark_user_def [THEN fun_cong]
  sym_set_changed_def [THEN fun_cong] store_string_def [THEN fun_cong] sym_clear_all_valid_def [THEN fun_cong]
  calc_modules_def [THEN fun_cong] sym_add_change_count_def [THEN fun_cong] kfor.simps [THEN fun_cong]
  sym_calc_def sym_calc_value.simps [THEN fun_cong]

lemmas set_data = menu_get_prompt_def sym_get_type_def sym_has_value_def sym_is_changable_def less_tristate_def
  sym_get_string_value_def take_line_pos string_answer_def prop_indices_def set_def_val_def set_flag_def needs_value_def newline_def
  spaces_def sym_upd_def sym_is_choice_def all_symbols_none sym_string_valid_def valid_int_def is_digit_def

lemmas unapplied = check_rounds.simps conf.simps check_conf.simps cfor.simps conf_string.simps menu_is_visible.simps
  expr_calc_value.simps child_visible.simps sym_calc_value.simps first_visible.simps kfor.simps

lemmas run_ops = conf_run_def [THEN fun_cong, THEN fun_cong] read_phase_def [THEN fun_cong] conf_read_def [THEN fun_cong]
  conf_read_simple_def [THEN fun_cong] value_phase_def [THEN fun_cong, THEN fun_cong] write_phase_def [THEN fun_cong]
  conf_write_def [THEN fun_cong] sym_set_change_count_def [THEN fun_cong]

lemmas run_data = no_files_def no_args_def update_refused_def split_name_def overwrite_config_def conf_get_configname_def
  conf_get_changed_def

lemma number_run:
  "(case conf_run no_files (\<lambda>_ _. 0) [] ''Main'' terminal (Suc (Suc (Suc (Suc (Suc 0))))) no_args (typing (''7'' @ newline)) number_table of
     Ret x st' \<Rightarrow> Some (fst (s_def (sym_at st' (Sym 0)) ! 0)) | _ \<Rightarrow> None) = Some (VStr ''7'')"
  by (simp add: ask_ops read_ops capply kapply ask_data set_ops set_data run_ops run_data Let_def del: unapplied)

theorem conf_run_typed_witness:
  "user_typed number_table \<and>
   (\<exists>x st'. conf_run no_files (\<lambda>_ _. 0) [] ''Main'' terminal (Suc (Suc (Suc (Suc (Suc 0))))) no_args
        (typing (''7'' @ newline)) number_table = Ret x st' \<and>
      fst (s_def (sym_at st' (Sym 0)) ! 0) = VStr ''7'' \<and> user_typed st')"
proof -
  have t: "user_typed number_table"
    by (auto simp: user_typed_def user_values_def fits_type_def ask_data)
  obtain x st' where r: "conf_run no_files (\<lambda>_ _. 0) [] ''Main'' terminal (Suc (Suc (Suc (Suc (Suc 0))))) no_args
        (typing (''7'' @ newline)) number_table = Ret x st'" "fst (s_def (sym_at st' (Sym 0)) ! 0) = VStr ''7''"
    using number_run by (auto split: kres.splits)
  show ?thesis using conf_run_typed [OF t r(1)] t r by blast
qed

text \<open>C25: Reading a configuration and asking all the questions of a run, whatever the files hold and the answers are,
  leaves the symbol table in order: a bool never has the value \<open>m\<close>, and the constants keep their
  values.\<close>

theorem ask_all_keeps:
  assumes "table_ok st" "cbind (clift (conf_read e name)) (\<lambda>_. ask_all A n) c st = Ret x st'"
  shows "table_ok st'"
proof -
  have "triple table_ok (conf_read e name) table_ok"
    by (rule triple_keep) (rule keep_table_read)
  then have "csafe table_ok (cbind (clift (conf_read e name)) (\<lambda>_. ask_all A n))"
    by (intro csafe_intros csafe_lift table_questions.safe_ask_all)
  then show ?thesis using assms unfolding csafe_def triple_def by blast
qed

lemma number_table_ok: "table_ok number_table"
proof -
  have "entries_ok number_table" by code_simp
  then show ?thesis by (simp add: table_ok_iff chains_ok_def number_table_def kst_init_def)
qed

theorem ask_all_keeps_witness:
  "table_ok number_table \<and>
   (\<exists>x st'. cbind (clift (conf_read (we_env no_files) None)) (\<lambda>_. ask_all terminal (Suc (Suc (Suc (Suc (Suc 0))))))
        (typing (''7'' @ newline)) number_table = Ret x st' \<and>
      fst (s_def (sym_at st' (Sym 0)) ! 0) = VStr ''7'' \<and> table_ok st')"
proof -
  have "(case cbind (clift (conf_read (we_env no_files) None)) (\<lambda>_. ask_all terminal (Suc (Suc (Suc (Suc (Suc 0))))))
       (typing (''7'' @ newline)) number_table of
     Ret x st' \<Rightarrow> Some (fst (s_def (sym_at st' (Sym 0)) ! 0)) | _ \<Rightarrow> None) = Some (VStr ''7'')"
    by (simp add: ask_ops read_ops capply kapply ask_data set_ops set_data run_ops run_data Let_def del: unapplied)
  then obtain x st' where r: "cbind (clift (conf_read (we_env no_files) None)) (\<lambda>_. ask_all terminal (Suc (Suc (Suc (Suc (Suc 0))))))
      (typing (''7'' @ newline)) number_table = Ret x st'"
    "fst (s_def (sym_at st' (Sym 0)) ! 0) = VStr ''7''"
    by (auto split: kres.splits)
  show ?thesis using ask_all_keeps [OF number_table_ok r(1)] number_table_ok r by blast
qed

end
