(* ===== verification/KDialog.thy ===== *)
theory KDialog
  imports Prelude "HOL-Library.Word"
begin

text \<open>
  The ground of the dialogs on the screen, \<open>buildroot/support/kconfig/lxdialog\<close>: what a dialog reads from curses
  (keys, the size of the screen), and the list of items of \<open>util.c\<close> with its current item. What is drawn is
  left out; what drawing reads is not, since it can follow a null pointer.
\<close>

section \<open>Keys\<close>

text \<open>
  What happens at the keyboard: a key is pressed, the screen is resized (curses delivers \<open>KEY_RESIZE\<close>), or
  nothing is there when a read does not wait. The codes are those of curses.
\<close>

datatype key_event = Press int | Resized int int | Pause

definition KEY_ESC :: int where "KEY_ESC = 27"
definition TAB :: int where "TAB = 9"
definition KEY_DOWN :: int where "KEY_DOWN = 258"
definition KEY_UP :: int where "KEY_UP = 259"
definition KEY_LEFT :: int where "KEY_LEFT = 260"
definition KEY_RIGHT :: int where "KEY_RIGHT = 261"
definition KEY_HOME :: int where "KEY_HOME = 262"
definition KEY_BACKSPACE :: int where "KEY_BACKSPACE = 263"
definition KEY_NPAGE :: int where "KEY_NPAGE = 338"
definition KEY_PPAGE :: int where "KEY_PPAGE = 339"
definition KEY_END :: int where "KEY_END = 360"
definition KEY_RESIZE :: int where "KEY_RESIZE = 410"
definition ERRDISPLAYTOOSMALL :: int where "ERRDISPLAYTOOSMALL = 512"
definition ERR :: int where "ERR = - 1"

lemmas key_defs = KEY_ESC_def TAB_def KEY_DOWN_def KEY_UP_def KEY_LEFT_def KEY_RIGHT_def KEY_HOME_def
  KEY_BACKSPACE_def KEY_NPAGE_def KEY_PPAGE_def KEY_END_def KEY_RESIZE_def ERRDISPLAYTOOSMALL_def ERR_def

text \<open>What is still to come from the keyboard, and the present size of the screen.\<close>

record keyboard =
  kb_events :: "key_event list"
  kb_height :: int
  kb_width :: int

text \<open>\<open>wgetch\<close>; \<open>None\<close>: it waits for ever.\<close>

fun wgetch_events :: "key_event list \<Rightarrow> int \<Rightarrow> int \<Rightarrow> (int \<times> keyboard) option" where
  "wgetch_events [] h w = None"
| "wgetch_events (Press k # es) h w = Some (k, \<lparr>kb_events = es, kb_height = h, kb_width = w\<rparr>)"
| "wgetch_events (Resized h' w' # es) h w = Some (KEY_RESIZE, \<lparr>kb_events = es, kb_height = h', kb_width = w'\<rparr>)"
| "wgetch_events (Pause # es) h w = wgetch_events es h w"

definition wgetch :: "keyboard \<Rightarrow> (int \<times> keyboard) option" where
  "wgetch kb = wgetch_events (kb_events kb) (kb_height kb) (kb_width kb)"

text \<open>\<open>wgetch\<close> after \<open>nodelay\<close>.\<close>

definition getch_now :: "keyboard \<Rightarrow> int \<times> keyboard" where
  "getch_now kb =
     (case kb_events kb of
        [] \<Rightarrow> (ERR, kb)
      | Press k # es \<Rightarrow> (k, kb\<lparr>kb_events := es\<rparr>)
      | Resized h w # es \<Rightarrow> (KEY_RESIZE, \<lparr>kb_events = es, kb_height = h, kb_width = w\<rparr>)
      | Pause # es \<Rightarrow> (ERR, kb\<lparr>kb_events := es\<rparr>))"

lemma getch_now_less: "getch_now kb = (k, kb') \<Longrightarrow> k \<noteq> ERR \<Longrightarrow> length (kb_events kb') < length (kb_events kb)"
  by (auto simp: getch_now_def split: list.splits key_event.splits)

lemma getch_now_le: "getch_now kb = (k, kb') \<Longrightarrow> length (kb_events kb') \<le> length (kb_events kb)"
  by (auto simp: getch_now_def split: list.splits key_event.splits)

text \<open>The loop of \<open>on_key_esc\<close> that drops all keys of a sequence.\<close>

function drop_keys :: "keyboard \<Rightarrow> keyboard" where
  "drop_keys kb = (case getch_now kb of (k, kb') \<Rightarrow> if k \<noteq> ERR then drop_keys kb' else kb')"
  by pat_completeness auto
termination by (relation "measure (\<lambda>kb. length (kb_events kb))") (auto dest: getch_now_less [OF sym])

declare drop_keys.simps [simp del]

definition on_key_esc :: "keyboard \<Rightarrow> int \<times> keyboard" where
  "on_key_esc kb =
     (let (key, kb1) = getch_now kb; (key2, kb2) = getch_now kb1; kb3 = drop_keys kb2 in
      if key = KEY_ESC \<and> key2 = ERR then (KEY_ESC, kb3)
      else if key \<noteq> ERR \<and> key \<noteq> KEY_ESC \<and> key2 = ERR then (- 1, kb3\<lparr>kb_events := Press key # kb_events kb3\<rparr>)
      else (- 1, kb3))"

lemma wgetch_less: "wgetch kb = Some (k, kb') \<Longrightarrow> length (kb_events kb') < length (kb_events kb)"
proof -
  have "wgetch_events es h w = Some (k, kb') \<Longrightarrow> length (kb_events kb') < length es" for es h w
    by (induction es h w rule: wgetch_events.induct) auto
  thus "wgetch kb = Some (k, kb') \<Longrightarrow> length (kb_events kb') < length (kb_events kb)"
    by (simp add: wgetch_def)
qed

lemma drop_keys_le: "length (kb_events (drop_keys kb)) \<le> length (kb_events kb)"
proof (induction kb rule: drop_keys.induct)
  case (1 kb)
  obtain k kb' where g: "getch_now kb = (k, kb')" by fastforce
  show ?case using 1 [OF g [symmetric]] getch_now_le [OF g] by (subst drop_keys.simps) (auto simp: g)
qed

lemma on_key_esc_le: "on_key_esc kb = (k, kb') \<Longrightarrow> length (kb_events kb') \<le> length (kb_events kb)"
proof -
  obtain a kb1 b kb2 where g: "getch_now kb = (a, kb1)" "getch_now kb1 = (b, kb2)" by fastforce
  assume "on_key_esc kb = (k, kb')"
  thus ?thesis
    using getch_now_le [OF g(1)] getch_now_less [OF g(1)] getch_now_le [OF g(2)] drop_keys_le [of kb2]
    by (auto simp: on_key_esc_def g Let_def split: if_splits)
qed

text \<open>
  How a dialog ends: with a result, never (it waits for a key), or with a crash: an access through a null pointer or
  outside of an array, or a division by zero.
\<close>

datatype 'a dialog = Got 'a | Waits | Crash

definition MAX_LEN :: nat where "MAX_LEN = 2048"

section \<open>Numbers of a loop\<close>

text \<open>The numbers from \<open>a\<close> up to, not including, \<open>b\<close>.\<close>

definition ints :: "int \<Rightarrow> int \<Rightarrow> int list" where "ints a b = map (\<lambda>i. a + int i) [0..<nat (b - a)]"

lemma set_ints [simp]: "set (ints a b) = {a..<b}"
proof -
  have "x \<in> (\<lambda>i. a + int i) ` {..<nat (b - a)}" if "a \<le> x" "x < b" for x
    by (rule image_eqI [of _ _ "nat (x - a)"]) (use that in auto)
  thus ?thesis by (auto simp: ints_def atLeast0LessThan)
qed

lemma ints_Cons: "a < b \<Longrightarrow> ints a b = a # ints (a + 1) b"
proof -
  assume "a < b"
  hence "nat (b - a) = Suc (nat (b - (a + 1)))" by simp
  thus ?thesis by (simp add: ints_def upt_conv_Cons flip: map_Suc_upt del: upt_Suc)
qed

lemma ints_snoc: "a \<le> b \<Longrightarrow> ints a (b + 1) = ints a b @ [b]"
proof -
  assume "a \<le> b"
  hence "nat (b + 1 - a) = Suc (nat (b - a))" by simp
  thus ?thesis using \<open>a \<le> b\<close> by (simp add: ints_def)
qed

lemma ints_Nil [simp]: "b \<le> a \<Longrightarrow> ints a b = []"
  by (simp add: ints_def)

section \<open>Items\<close>

definition MAXITEMSTR :: nat where "MAXITEMSTR = 200"

record item =
  it_str :: string
  it_tag :: char
  it_data :: "nat option"
  it_selected :: bool

definition no_item :: item where
  "no_item = \<lparr>it_str = [], it_tag = CHR 0x00, it_data = None, it_selected = False\<rparr>"

text \<open>The current item: \<open>item_nil\<close>, a member of the list, or no item at all (a null pointer).\<close>

datatype cursor = Nil_item | At nat | Null_item

record item_list =
  il_items :: "item list"
  il_cur :: cursor
  il_nil :: item

definition item_reset :: "item_list \<Rightarrow> item_list" where
  "item_reset l = l\<lparr>il_items := [], il_cur := Nil_item\<rparr>"

definition cur_item :: "item_list \<Rightarrow> item option" where
  "cur_item l = (case il_cur l of Nil_item \<Rightarrow> Some (il_nil l) | At i \<Rightarrow> Some (il_items l ! i) | Null_item \<Rightarrow> None)"

definition upd_item :: "(item \<Rightarrow> item) \<Rightarrow> item_list \<Rightarrow> item_list option" where
  "upd_item f l =
     (case il_cur l of
        Nil_item \<Rightarrow> Some (l\<lparr>il_nil := f (il_nil l)\<rparr>)
      | At i \<Rightarrow> Some (l\<lparr>il_items := (il_items l)[i := f (il_items l ! i)]\<rparr>)
      | Null_item \<Rightarrow> None)"

text \<open>A new item is put behind the current one, which is the last while a list is built.\<close>

definition item_make :: "string \<Rightarrow> item_list \<Rightarrow> item_list option" where
  "item_make s l =
     (let p = no_item\<lparr>it_str := take (MAXITEMSTR - 1) s\<rparr> in
      if il_items l = [] then Some (l\<lparr>il_items := [p], il_cur := At 0\<rparr>)
      else (case il_cur l of
              At i \<Rightarrow> Some (l\<lparr>il_items := take (i + 1) (il_items l) @ [p], il_cur := At (i + 1)\<rparr>)
            | Nil_item \<Rightarrow> Some l
            | Null_item \<Rightarrow> None))"

definition item_add_str :: "string \<Rightarrow> item_list \<Rightarrow> item_list option" where
  "item_add_str s = upd_item (\<lambda>i. i\<lparr>it_str := take (MAXITEMSTR - 1) (it_str i @ s)\<rparr>)"

definition item_set_tag :: "char \<Rightarrow> item_list \<Rightarrow> item_list option" where
  "item_set_tag c = upd_item (\<lambda>i. i\<lparr>it_tag := c\<rparr>)"

definition item_set_data :: "nat \<Rightarrow> item_list \<Rightarrow> item_list option" where
  "item_set_data d = upd_item (\<lambda>i. i\<lparr>it_data := Some d\<rparr>)"

definition item_set_selected :: "bool \<Rightarrow> item_list \<Rightarrow> item_list option" where
  "item_set_selected b = upd_item (\<lambda>i. i\<lparr>it_selected := b\<rparr>)"

definition item_count :: "item_list \<Rightarrow> int" where "item_count l = int (length (il_items l))"

text \<open>\<open>item_foreach\<close> with a stop: the cursor is left at the first item with \<open>P\<close>, or behind the last.\<close>

definition item_find :: "(nat \<Rightarrow> item \<Rightarrow> bool) \<Rightarrow> item_list \<Rightarrow> item_list" where
  "item_find P l =
     (if il_items l = [] then l
      else case find (\<lambda>i. P i (il_items l ! i)) [0..<length (il_items l)] of
             Some i \<Rightarrow> l\<lparr>il_cur := At i\<rparr> | None \<Rightarrow> l\<lparr>il_cur := Null_item\<rparr>)"

definition item_set :: "int \<Rightarrow> item_list \<Rightarrow> item_list" where "item_set n = item_find (\<lambda>i _. int i = n)"

definition item_activate_selected :: "item_list \<Rightarrow> bool \<times> item_list" where
  "item_activate_selected l = (\<exists>i \<in> set (il_items l). it_selected i, item_find (\<lambda>_ i. it_selected i) l)"

definition item_n :: "item_list \<Rightarrow> nat" where "item_n l = (case il_cur l of At i \<Rightarrow> i | _ \<Rightarrow> 0)"

text \<open>The loop that counts them, with the cursor set to each: the last item with \<open>P\<close>, if there is one.\<close>

definition last_with :: "(item \<Rightarrow> bool) \<Rightarrow> item_list \<Rightarrow> nat option" where
  "last_with P l = find (\<lambda>i. P (il_items l ! i)) (rev [0..<length (il_items l)])"

lemma item_set_items [simp]: "il_items (item_set n l) = il_items l"
  by (simp add: item_set_def item_find_def split: option.split)

lemma find_index: "find (\<lambda>i. int i = n) [0..<k] = (if 0 \<le> n \<and> n < int k then Some (nat n) else None)"
proof (cases "0 \<le> n \<and> n < int k")
  case True
  hence "find (\<lambda>i. int i = n) [0..<k] \<noteq> None" by (auto simp: find_None_iff intro!: exI [of _ "nat n"])
  then obtain i where "find (\<lambda>i. int i = n) [0..<k] = Some i" by auto
  thus ?thesis using True by (auto simp: find_Some_iff)
qed (auto simp: find_None_iff)

lemma item_set_cur: "il_cur (item_set n l) =
    (if il_items l = [] then il_cur l else if 0 \<le> n \<and> n < item_count l then At (nat n) else Null_item)"
  by (simp add: item_set_def item_find_def find_index item_count_def)

section \<open>Boxes with a list\<close>

text \<open>Printing an item makes it the current one and reads its text.\<close>

definition print_item :: "int \<Rightarrow> item_list \<Rightarrow> item_list option" where
  "print_item index l = (let l1 = item_set index l in if cur_item l1 = None then None else Some l1)"

fun print_items :: "int list \<Rightarrow> item_list \<Rightarrow> item_list option" where
  "print_items [] l = Some l"
| "print_items (i # is) l = (case print_item i l of None \<Rightarrow> None | Some l1 \<Rightarrow> print_items is l1)"

text \<open>
  What a key does in a menu or a list with the variables \<open>'b\<close>: the loop goes on, ends with \<open>ESC\<close> at once or after a
  look at the keys behind, starts again in the new size, or ends with a result.
\<close>

datatype 'b list_step =
    Stay 'b item_list
  | Escaped item_list
  | Look_esc 'b item_list
  | Again_sized 'b item_list
  | Chosen int 'b item_list
  | Bad

text \<open>The loop over the keys; the result is the code, the variables if an item was chosen, the items and the keyboard.\<close>

type_synonym 'b list_result = "int \<times> 'b option \<times> item_list \<times> keyboard"

function item_loop :: "(int \<Rightarrow> 'b \<Rightarrow> item_list \<Rightarrow> 'b list_step) \<Rightarrow> (keyboard \<Rightarrow> 'b \<Rightarrow> item_list \<Rightarrow> ('b \<times> item_list) dialog option)
    \<Rightarrow> keyboard \<Rightarrow> 'b \<Rightarrow> item_list \<Rightarrow> 'b list_result dialog" where
  "item_loop on_key again kb b l =
     (case wgetch kb of
        None \<Rightarrow> Waits
      | Some (key, kb1) \<Rightarrow>
          (case on_key key b l of
             Bad \<Rightarrow> Crash
           | Stay b1 l1 \<Rightarrow> item_loop on_key again kb1 b1 l1
           | Escaped l1 \<Rightarrow> Got (KEY_ESC, None, l1, kb1)
           | Look_esc b1 l1 \<Rightarrow>
               (let (k, kb2) = on_key_esc kb1 in
                if k = KEY_ESC then Got (KEY_ESC, None, l1, kb2) else item_loop on_key again kb2 b1 l1)
           | Again_sized b1 l1 \<Rightarrow>
               (case again kb1 b1 l1 of
                  None \<Rightarrow> Got (- ERRDISPLAYTOOSMALL, None, l1, kb1)
                | Some (Got (b2, l2)) \<Rightarrow> item_loop on_key again kb1 b2 l2
                | Some _ \<Rightarrow> Crash)
           | Chosen r b1 l1 \<Rightarrow> Got (r, Some b1, l1, kb1)))"
  by pat_completeness auto
termination
  by (relation "measure (\<lambda>(on_key, again, kb, b, l). length (kb_events kb))")
    (auto dest: wgetch_less on_key_esc_le wgetch_less [OF sym] on_key_esc_le [OF sym] intro: le_less_trans)

declare item_loop.simps [simp del]

section \<open>Letters\<close>

text \<open>The value of a \<open>char\<close>, which is signed, and the functions of \<open>ctype.h\<close> in the C locale.\<close>

definition char_int :: "char \<Rightarrow> int" where
  "char_int c = (if of_char c < (128 :: int) then of_char c else of_char c - 256)"

definition is_alpha :: "int \<Rightarrow> bool" where "is_alpha k \<longleftrightarrow> 65 \<le> k \<and> k \<le> 90 \<or> 97 \<le> k \<and> k \<le> 122"
definition lower_int :: "int \<Rightarrow> int" where "lower_int k = (if 65 \<le> k \<and> k \<le> 90 then k + 32 else k)"
definition upper_int :: "int \<Rightarrow> int" where "upper_int k = (if 97 \<le> k \<and> k \<le> 122 then k - 32 else k)"

text \<open>\<open>strchr (s, k)\<close>: only the lowest byte of \<open>k\<close> counts, and the end of the string is found too.\<close>

definition in_str :: "string \<Rightarrow> int \<Rightarrow> bool" where
  "in_str s k \<longleftrightarrow> (\<exists>c \<in> set s. of_char c = k mod 256) \<or> k mod 256 = 0"

fun first_alpha_from :: "string \<Rightarrow> nat \<Rightarrow> string \<Rightarrow> nat \<Rightarrow> nat" where
  "first_alpha_from exempt i [] paren = 0"
| "first_alpha_from exempt i (x # s) paren =
     (let c = lower_int (char_int x);
          p1 = (if in_str ''<[('' c then paren + 1 else paren);
          p2 = (if in_str ''>])'' c \<and> 0 < p1 then p1 - 1 else p1)
      in if p2 = 0 \<and> is_alpha c \<and> \<not> in_str exempt c then i else first_alpha_from exempt (i + 1) s p2)"

definition first_alpha :: "string \<Rightarrow> string \<Rightarrow> nat" where "first_alpha s exempt = first_alpha_from exempt 0 s 0"

end
