(* ===== verification/KMenuBox.thy ===== *)
theory KMenuBox
  imports KDialog
begin

text \<open>
  The menu of the screen front end, \<open>buildroot/support/kconfig/lxdialog/menubox.c\<close>: \<open>dialog_menu\<close> over the keys
  that are pressed. The windows are left out, but every item that is printed is looked up.
\<close>

definition MENUBOX_HEIGTH_MIN :: int where "MENUBOX_HEIGTH_MIN = 15"
definition MENUBOX_WIDTH_MIN :: int where "MENUBOX_WIDTH_MIN = 65"

text \<open>The variables of \<open>dialog_menu\<close>.\<close>

record menu_box =
  mb_choice :: int
  mb_scroll :: int
  mb_first :: int
  mb_max :: int
  mb_button :: int

section \<open>What is shown first\<close>

text \<open>
  From the label \<open>do_resize\<close> to the loop over the keys: \<open>None\<close> when the screen is too small. \<open>scroll0\<close> is the saved
  position \<open>*s_scroll\<close>, \<open>selected\<close> the entry that is to be the current one.
\<close>

definition menu_scroll :: "int \<Rightarrow> int \<Rightarrow> menu_box \<Rightarrow> menu_box" where
  "menu_scroll scroll0 count b =
     (let b1 = (if scroll0 \<le> mb_choice b \<and> mb_choice b < scroll0 + mb_max b \<and> 0 \<le> scroll0 \<and> scroll0 + mb_max b \<le> count
                then b\<lparr>mb_scroll := scroll0, mb_first := scroll0, mb_choice := mb_choice b - scroll0\<rparr>
                else b\<lparr>mb_scroll := 0\<rparr>)
      in if mb_max b1 \<le> mb_choice b1
         then (let s = (if count - mb_max b1 div 2 \<le> mb_choice b1 then count - mb_max b1 else mb_choice b1 - mb_max b1 div 2)
               in b1\<lparr>mb_scroll := s, mb_first := s, mb_choice := mb_choice b1 - s\<rparr>)
         else b1)"

definition menu_choice :: "nat option \<Rightarrow> item_list \<Rightarrow> menu_box \<Rightarrow> menu_box" where
  "menu_choice selected l b =
     (case selected of
        None \<Rightarrow> b
      | Some d \<Rightarrow> (case last_with (\<lambda>i. it_data i = Some d) l of None \<Rightarrow> b | Some i \<Rightarrow> b\<lparr>mb_choice := int i\<rparr>))"

definition menu_open :: "nat option \<Rightarrow> int \<Rightarrow> keyboard \<Rightarrow> menu_box \<Rightarrow> item_list \<Rightarrow> (menu_box \<times> item_list) dialog option" where
  "menu_open selected scroll0 kb b l =
     (if kb_height kb < MENUBOX_HEIGTH_MIN \<or> kb_width kb < MENUBOX_WIDTH_MIN then None
      else
        (let count = item_count l; menu_height = (kb_height kb - 4) - 10;
             b1 = menu_scroll scroll0 count (menu_choice selected l (b\<lparr>mb_max := min menu_height count\<rparr>))
         in case print_items (ints (mb_first b1) (mb_first b1 + mb_max b1)) (item_find (\<lambda>_ _. False) l) of
              None \<Rightarrow> Some Crash
            | Some l1 \<Rightarrow> Some (Got (b1, l1))))"

section \<open>Keys\<close>

text \<open>The letter of an item, and the search for the next item with the letter that was pressed.\<close>

definition item_letter :: "item \<Rightarrow> int" where
  "item_letter i =
     (let j = first_alpha (it_str i) ''YyNnMmHh'' in
      if j < length (it_str i) then lower_int (char_int (it_str i ! j)) else 0)"

fun find_letter :: "int \<Rightarrow> int \<Rightarrow> int list \<Rightarrow> item_list \<Rightarrow> (int option \<times> item_list) option" where
  "find_letter key scroll [] l = Some (None, l)"
| "find_letter key scroll (i # is) l =
     (let l1 = item_set (scroll + i) l in
      case cur_item l1 of
        None \<Rightarrow> None
      | Some it \<Rightarrow> if key = item_letter it then Some (Some i, l1) else find_letter key scroll is l1)"

definition hot_item :: "int \<Rightarrow> menu_box \<Rightarrow> item_list \<Rightarrow> (int option \<times> item_list) option" where
  "hot_item key b l =
     (if in_str ''ynmh '' key then Some (None, l)
      else case find_letter key (mb_scroll b) (ints (mb_choice b + 1) (mb_max b)) l of
             None \<Rightarrow> None
           | Some (Some i, l1) \<Rightarrow> Some (Some i, l1)
           | Some (None, l1) \<Rightarrow>
               if mb_max b < mb_choice b + 1 then Some (None, l1)
               else find_letter key (mb_scroll b) (ints 0 (mb_max b)) l1)"

text \<open>The loops of the page keys, \<open>n\<close> rounds; the scrolled in item is printed.\<close>

fun page_up :: "nat \<Rightarrow> menu_box \<Rightarrow> item_list \<Rightarrow> (menu_box \<times> item_list) option" where
  "page_up 0 b l = Some (b, l)"
| "page_up (Suc n) b l =
     (if 0 < mb_scroll b
      then (case print_item (mb_scroll b - 1) l of
              None \<Rightarrow> None | Some l1 \<Rightarrow> page_up n (b\<lparr>mb_scroll := mb_scroll b - 1\<rparr>) l1)
      else page_up n (if 0 < mb_choice b then b\<lparr>mb_choice := mb_choice b - 1\<rparr> else b) l)"

fun page_down :: "nat \<Rightarrow> menu_box \<Rightarrow> item_list \<Rightarrow> (menu_box \<times> item_list) option" where
  "page_down 0 b l = Some (b, l)"
| "page_down (Suc n) b l =
     (if mb_scroll b + mb_max b < item_count l
      then (case print_item (mb_scroll b + mb_max b) l of
              None \<Rightarrow> None | Some l1 \<Rightarrow> page_down n (b\<lparr>mb_scroll := mb_scroll b + 1\<rparr>) l1)
      else page_down n (if mb_choice b + 1 < mb_max b then b\<lparr>mb_choice := mb_choice b + 1\<rparr> else b) l)"

text \<open>A key that moves the highlighted line; \<open>hot\<close> is the item with the letter.\<close>

definition move_to :: "int \<Rightarrow> int option \<Rightarrow> menu_box \<Rightarrow> item_list \<Rightarrow> (menu_box \<times> item_list) option" where
  "move_to key hot b l =
     (if key = KEY_UP \<or> key = 45
      then if mb_choice b < 2 \<and> mb_scroll b \<noteq> 0
           then map_option (\<lambda>l1. (b\<lparr>mb_scroll := mb_scroll b - 1\<rparr>, l1)) (print_item (mb_scroll b - 1) l)
           else Some (b\<lparr>mb_choice := max (mb_choice b - 1) 0\<rparr>, l)
      else if key = KEY_DOWN \<or> key = 43
      then (case print_item (mb_scroll b + mb_choice b) l of
              None \<Rightarrow> None
            | Some l1 \<Rightarrow>
                if mb_max b - 3 < mb_choice b \<and> mb_scroll b + mb_max b < item_count l
                then map_option (\<lambda>l2. (b\<lparr>mb_scroll := mb_scroll b + 1\<rparr>, l2)) (print_item (mb_scroll b + mb_max b) l1)
                else Some (b\<lparr>mb_choice := min (mb_choice b + 1) (mb_max b - 1)\<rparr>, l1))
      else if key = KEY_PPAGE then page_up (nat (mb_max b)) b l
      else if key = KEY_NPAGE then page_down (nat (mb_max b)) b l
      else (case hot of Some i \<Rightarrow> Some (b\<lparr>mb_choice := i\<rparr>, l) | None \<Rightarrow> Some (b, l)))"

definition move_item :: "int \<Rightarrow> int option \<Rightarrow> menu_box \<Rightarrow> item_list \<Rightarrow> (menu_box \<times> item_list) option" where
  "move_item key hot b l =
     (case print_item (mb_scroll b + mb_choice b) l of
        None \<Rightarrow> None
      | Some l1 \<Rightarrow>
          (case move_to key hot b l1 of
             None \<Rightarrow> None
           | Some (b1, l2) \<Rightarrow> map_option (\<lambda>l3. (b1, l3)) (print_item (mb_scroll b1 + mb_choice b1) l2)))"

definition menu_code :: "int \<Rightarrow> int \<Rightarrow> int" where
  "menu_code key button =
     (if key = 104 \<or> key = 63 then 2 else if key = 115 \<or> key = 121 then 5 else if key = 110 then 6
      else if key = 109 then 7 else if key = 32 then 8 else if key = 47 then 9 else if key = 122 then 10 else button)"

definition menu_act :: "int \<Rightarrow> int option \<Rightarrow> menu_box \<Rightarrow> item_list \<Rightarrow> menu_box list_step" where
  "menu_act key hot b l =
     (if item_count l \<noteq> 0 \<and> (hot \<noteq> None \<or> key \<in> {KEY_UP, KEY_DOWN, 45, 43, KEY_PPAGE, KEY_NPAGE})
      then (case move_item key hot b l of None \<Rightarrow> Bad | Some (b1, l1) \<Rightarrow> Stay b1 l1)
      else if key \<in> {KEY_LEFT, TAB, KEY_RIGHT}
      then (let n = (if key = KEY_LEFT then mb_button b - 1 else mb_button b + 1)
            in Stay (b\<lparr>mb_button := if n < 0 then 4 else if 4 < n then 0 else n\<rparr>) l)
      else if key \<in> {32, 115, 121, 110, 109, 47, 104, 63, 122, 10}
      then (case item_set_selected True (item_set (mb_scroll b + mb_choice b) l) of
              None \<Rightarrow> Bad
            | Some l1 \<Rightarrow> Chosen (menu_code key (mb_button b)) b l1)
      else if key = 101 \<or> key = 120 then Escaped l
      else if key = KEY_ESC then Look_esc b l
      else if key = KEY_RESIZE then Again_sized b l
      else Stay b l)"

definition menu_key :: "int \<Rightarrow> menu_box \<Rightarrow> item_list \<Rightarrow> menu_box list_step" where
  "menu_key key0 b l =
     (let key = (if key0 < 256 \<and> is_alpha key0 then lower_int key0 else key0) in
      case hot_item key b l of
        None \<Rightarrow> Bad
      | Some (hot, l1) \<Rightarrow> menu_act key hot b l1)"

section \<open>The dialog\<close>

text \<open>The position \<open>*s_scroll\<close> is saved when an item was chosen.\<close>

type_synonym menu_result = "int \<times> item_list \<times> int \<times> keyboard"

definition fresh_box :: menu_box where
  "fresh_box = \<lparr>mb_choice = 0, mb_scroll = 0, mb_first = 0, mb_max = 0, mb_button = 0\<rparr>"

definition dialog_menu :: "nat option \<Rightarrow> int \<Rightarrow> keyboard \<Rightarrow> item_list \<Rightarrow> menu_result dialog" where
  "dialog_menu selected scroll0 kb l =
     (case menu_open selected scroll0 kb fresh_box l of
        None \<Rightarrow> Got (- ERRDISPLAYTOOSMALL, l, scroll0, kb)
      | Some (Got (b, l1)) \<Rightarrow>
          map_dialog (\<lambda>(r, b1, l2, kb1). (r, l2, (case b1 of None \<Rightarrow> scroll0 | Some b2 \<Rightarrow> mb_scroll b2), kb1))
            (item_loop menu_key (menu_open selected scroll0) kb b l1)
      | Some _ \<Rightarrow> Crash)"

end
