(* ===== verification/KItems.thy ===== *)
theory KItems
  imports KDialog
begin

text \<open>
  The list of items under a dialog: only the current item changes while keys are read, and every item that is looked up
  is there as long as the lines shown are lines of the list. The contract of the boxes with a list, and what it
  gives for the loop over the keys.
\<close>

section \<open>The items\<close>

text \<open>Only the current item may differ, and there is one.\<close>

definition same_items :: "item_list \<Rightarrow> item_list \<Rightarrow> bool" where
  "same_items l l1 \<longleftrightarrow> il_items l1 = il_items l \<and> (il_items l = [] \<longrightarrow> il_cur l1 = il_cur l)"

lemma same_items_refl [simp]: "same_items l l"
  by (simp add: same_items_def)

lemma same_items_trans: "same_items l l1 \<Longrightarrow> same_items l1 l2 \<Longrightarrow> same_items l l2"
  by (auto simp: same_items_def)

lemma same_items_set [simp]: "same_items l (item_set n l)"
  by (simp add: same_items_def item_set_cur)

lemma same_count: "same_items l l1 \<Longrightarrow> item_count l1 = item_count l"
  by (simp add: same_items_def item_count_def)

lemma same_items_find [simp]: "same_items l (item_find P l)"
  by (simp add: same_items_def item_find_def split: option.split)

text \<open>An empty list has \<open>item_nil\<close> as its current item.\<close>

definition has_cursor :: "item_list \<Rightarrow> bool" where
  "has_cursor l \<longleftrightarrow> (il_items l = [] \<longrightarrow> il_cur l \<noteq> Null_item)"

lemma has_cursor_same: "has_cursor l \<Longrightarrow> same_items l l1 \<Longrightarrow> has_cursor l1"
  by (simp add: has_cursor_def same_items_def)

definition on_item :: "item_list \<Rightarrow> int \<Rightarrow> bool" where
  "on_item l n \<longleftrightarrow> il_items l = [] \<or> 0 \<le> n \<and> n < item_count l"

lemma cur_item_set: "has_cursor l \<Longrightarrow> on_item l n \<Longrightarrow> cur_item (item_set n l) \<noteq> None"
  by (auto simp: cur_item_def item_set_cur has_cursor_def on_item_def split: cursor.splits)

lemma on_item_same: "same_items l l1 \<Longrightarrow> on_item l1 n = on_item l n"
  by (simp add: on_item_def same_items_def item_count_def)

lemma print_item_ok: "has_cursor l \<Longrightarrow> on_item l n \<Longrightarrow> \<exists>l1. print_item n l = Some l1 \<and> same_items l l1"
  using cur_item_set by (auto simp: print_item_def Let_def)

lemma print_items_ok:
  "has_cursor l \<Longrightarrow> \<forall>i \<in> set is. on_item l i \<Longrightarrow> \<exists>l1. print_items is l = Some l1 \<and> same_items l l1"
proof (induction "is" arbitrary: l)
  case (Cons i "is")
  then obtain l1 where 1: "print_item i l = Some l1" "same_items l l1" using print_item_ok by fastforce
  moreover have "\<exists>l2. print_items is l1 = Some l2 \<and> same_items l1 l2"
    using Cons.IH [of l1] Cons.prems 1 by (auto simp: on_item_same has_cursor_same)
  ultimately show ?case using same_items_trans [OF 1(2)] by auto
qed simp

section \<open>A screen that keeps its size\<close>

text \<open>The screen keeps its size.\<close>

fun steady :: "key_event \<Rightarrow> bool" where
  "steady (Press k) = (k \<noteq> KEY_RESIZE)"
| "steady (Resized h w) = False"
| "steady Pause = True"

definition steady_keys :: "keyboard \<Rightarrow> bool" where "steady_keys kb \<longleftrightarrow> (\<forall>e \<in> set (kb_events kb). steady e)"

lemma steady_wgetch: "wgetch kb = Some (k, kb1) \<Longrightarrow> steady_keys kb \<Longrightarrow> k \<noteq> KEY_RESIZE \<and> steady_keys kb1"
proof -
  have "wgetch_events es h w = Some (k, kb1) \<Longrightarrow> \<forall>e \<in> set es. steady e \<Longrightarrow> k \<noteq> KEY_RESIZE \<and> steady_keys kb1" for es h w
    by (induction es h w rule: wgetch_events.induct) (auto simp: steady_keys_def)
  thus "wgetch kb = Some (k, kb1) \<Longrightarrow> steady_keys kb \<Longrightarrow> k \<noteq> KEY_RESIZE \<and> steady_keys kb1"
    by (simp add: wgetch_def steady_keys_def)
qed

lemma steady_now: "getch_now kb = (k, kb1) \<Longrightarrow> steady_keys kb \<Longrightarrow> k \<noteq> KEY_RESIZE \<and> steady_keys kb1"
  by (auto simp: getch_now_def steady_keys_def key_defs split: list.splits key_event.splits)

lemma steady_drop: "steady_keys kb \<Longrightarrow> steady_keys (drop_keys kb)"
proof (induction kb rule: drop_keys.induct)
  case (1 kb)
  obtain k kb1 where g: "getch_now kb = (k, kb1)" by fastforce
  show ?case using 1(1) [OF g [symmetric]] steady_now [OF g 1(2)] by (subst drop_keys.simps) (simp add: g)
qed

lemma steady_esc: "on_key_esc kb = (k, kb1) \<Longrightarrow> steady_keys kb \<Longrightarrow> steady_keys kb1"
proof -
  obtain a kb2 b kb3 where g: "getch_now kb = (a, kb2)" "getch_now kb2 = (b, kb3)" by fastforce
  assume "on_key_esc kb = (k, kb1)" "steady_keys kb"
  moreover from this(2) have "a \<noteq> KEY_RESIZE" "steady_keys (drop_keys kb3)"
    using steady_now [OF g(1)] steady_now [OF g(2)] steady_drop by auto
  ultimately show ?thesis
    by (auto simp: on_key_esc_def g Let_def steady_keys_def split: if_splits)
qed

section \<open>Choosing\<close>

section \<open>The contract of a box\<close>

text \<open>
  \<open>I\<close> is the invariant of the variables for a list of that many items, \<open>codes\<close> are the results of a choice and
  \<open>pick\<close> relates the items before and after it.
\<close>

definition good_step :: "(int \<Rightarrow> 'b \<Rightarrow> bool) \<Rightarrow> (int \<Rightarrow> bool) \<Rightarrow> (item_list \<Rightarrow> item_list \<Rightarrow> bool) \<Rightarrow> item_list \<Rightarrow> 'b list_step \<Rightarrow> bool" where
  "good_step I codes pick l q \<longleftrightarrow> (case q of
     Stay b1 l1 \<Rightarrow> same_items l l1 \<and> I (item_count l) b1
   | Escaped l1 \<Rightarrow> same_items l l1
   | Look_esc b1 l1 \<Rightarrow> same_items l l1 \<and> I (item_count l) b1
   | Again_sized b1 l1 \<Rightarrow> same_items l l1 \<and> I (item_count l) b1
   | Chosen r b1 l1 \<Rightarrow> codes r \<and> pick l l1
   | Bad \<Rightarrow> False)"

definition good_open :: "(int \<Rightarrow> 'b \<Rightarrow> bool) \<Rightarrow> item_list \<Rightarrow> ('b \<times> item_list) dialog option \<Rightarrow> bool" where
  "good_open I l q \<longleftrightarrow> q = None \<or> (\<exists>b l1. q = Some (Got (b, l1)) \<and> same_items l l1 \<and> I (item_count l) b)"

definition good_result :: "(int \<Rightarrow> bool) \<Rightarrow> (item_list \<Rightarrow> item_list \<Rightarrow> bool) \<Rightarrow> item_list \<Rightarrow> 'b list_result dialog \<Rightarrow> bool" where
  "good_result codes pick l q \<longleftrightarrow> (case q of
     Waits \<Rightarrow> True
   | Crash \<Rightarrow> False
   | Got (r, b, l1, kb) \<Rightarrow>
       if b = None then (r = KEY_ESC \<or> r = - ERRDISPLAYTOOSMALL) \<and> same_items l l1 else codes r \<and> pick l l1)"

text \<open>The choice does not depend on the current item.\<close>

definition cursor_free :: "(item_list \<Rightarrow> item_list \<Rightarrow> bool) \<Rightarrow> bool" where
  "cursor_free pick \<longleftrightarrow> (\<forall>l l1 l2. same_items l l1 \<longrightarrow> pick l1 l2 \<longrightarrow> pick l l2)"

lemma cursor_freeD: "cursor_free pick \<Longrightarrow> same_items l l1 \<Longrightarrow> pick l1 l2 \<Longrightarrow> pick l l2"
  by (auto simp: cursor_free_def)

lemma good_step_same:
  "cursor_free pick \<Longrightarrow> same_items l l1 \<Longrightarrow> good_step I codes pick l1 q \<Longrightarrow> good_step I codes pick l q"
  using same_items_trans [of l l1] same_count [of l l1] cursor_freeD [of pick l l1]
  by (auto simp: good_step_def split: list_step.splits)

lemma good_result_same:
  "cursor_free pick \<Longrightarrow> same_items l l1 \<Longrightarrow> good_result codes pick l1 q \<Longrightarrow> good_result codes pick l q"
  using same_items_trans [of l l1] cursor_freeD [of pick l l1]
  by (auto simp: good_result_def split: dialog.splits if_splits)

locale list_box =
  fixes on_key :: "int \<Rightarrow> 'b \<Rightarrow> item_list \<Rightarrow> 'b list_step"
    and again :: "keyboard \<Rightarrow> 'b \<Rightarrow> item_list \<Rightarrow> ('b \<times> item_list) dialog option"
    and I :: "int \<Rightarrow> 'b \<Rightarrow> bool" and codes :: "int \<Rightarrow> bool" and pick :: "item_list \<Rightarrow> item_list \<Rightarrow> bool"
  assumes key_ok: "has_cursor l \<Longrightarrow> I (item_count l) b \<Longrightarrow> good_step I codes pick l (on_key key b l)"
    and sized: "on_key key b l = Again_sized b1 l1 \<Longrightarrow> key = KEY_RESIZE"
    and free: "cursor_free pick"
begin

lemma loop_ok_if:
  "has_cursor l \<Longrightarrow> I (item_count l) b \<Longrightarrow>
   steady_keys kb \<or> (\<forall>kb b l. has_cursor l \<longrightarrow> I (item_count l) b \<longrightarrow> good_open I l (again kb b l)) \<Longrightarrow>
   good_result codes pick l (item_loop on_key again kb b l)"
proof (induction "length (kb_events kb)" arbitrary: kb b l rule: less_induct)
  case less
  note IH = less.hyps and hc = less.prems(1) and I = less.prems(2) and safe = less.prems(3)
  show ?case
  proof (cases "wgetch kb")
    case None
    thus ?thesis by (subst item_loop.simps) (simp add: good_result_def)
  next
    case (Some q)
    obtain key kb1 where q: "q = (key, kb1)" by fastforce
    note w = Some [unfolded q] and ok = key_ok [OF hc I, of key] and lt = wgetch_less [OF w]
    have safe1: "steady_keys kb1 \<or> (\<forall>kb b l. has_cursor l \<longrightarrow> I (item_count l) b \<longrightarrow> good_open I l (again kb b l))"
      and key: "key = KEY_RESIZE \<Longrightarrow> \<forall>kb b l. has_cursor l \<longrightarrow> I (item_count l) b \<longrightarrow> good_open I l (again kb b l)"
      using steady_wgetch [OF w] safe by blast+
    have go: "good_result codes pick l (item_loop on_key again kb2 b1 l1)"
      if "same_items l l1" "I (item_count l) b1" "length (kb_events kb2) < length (kb_events kb)" "steady_keys kb1 \<Longrightarrow> steady_keys kb2"
      for kb2 b1 l1
    proof (rule good_result_same [OF free that(1) IH [OF that(3) has_cursor_same [OF hc that(1)]]])
      show "I (item_count l1) b1" using that(2) same_count [OF that(1)] by simp
      show "steady_keys kb2 \<or> (\<forall>kb b l. has_cursor l \<longrightarrow> I (item_count l) b \<longrightarrow> good_open I l (again kb b l))"
        using safe1 that(4) by blast
    qed
    show ?thesis
    proof (cases "on_key key b l")
      case (Stay b1 l1)
      with ok go [OF _ _ lt] show ?thesis by (subst item_loop.simps) (simp add: w good_step_def)
    next
      case (Look_esc b1 l1)
      obtain k2 kb2 where e: "on_key_esc kb1 = (k2, kb2)" by fastforce
      have "length (kb_events kb2) < length (kb_events kb)" using on_key_esc_le [OF e] lt by simp
      with ok Look_esc go [OF _ _ this steady_esc [OF e]] show ?thesis
        by (subst item_loop.simps) (auto simp: w e good_step_def good_result_def)
    next
      case (Again_sized b1 l1)
      hence s: "same_items l l1" "I (item_count l) b1" using ok by (simp_all add: good_step_def)
      have "good_open I l1 (again kb1 b1 l1)"
        using key [OF sized [OF Again_sized]] has_cursor_same [OF hc s(1)] s(2) same_count [OF s(1)] by simp
      then consider "again kb1 b1 l1 = None" | b2 l2 where "again kb1 b1 l1 = Some (Got (b2, l2))" "same_items l1 l2" "I (item_count l1) b2"
        by (auto simp: good_open_def)
      thus ?thesis
      proof cases
        case 1
        thus ?thesis using s(1) by (subst item_loop.simps) (simp add: w Again_sized good_result_def)
      next
        case 2
        with go [OF same_items_trans [OF s(1) 2(2)] _ lt] same_count [OF s(1)] show ?thesis
          by (subst item_loop.simps) (simp add: w Again_sized)
      qed
    qed (use ok in \<open>subst item_loop.simps; simp add: w good_step_def good_result_def\<close>)+
  qed
qed

lemma loop_ok_steady:
  "has_cursor l \<Longrightarrow> I (item_count l) b \<Longrightarrow> steady_keys kb \<Longrightarrow> good_result codes pick l (item_loop on_key again kb b l)"
  using loop_ok_if by blast

end

text \<open>A box that can be opened again in every state.\<close>

locale resizable_box = list_box +
  assumes again_ok: "has_cursor l \<Longrightarrow> I (item_count l) b \<Longrightarrow> good_open I l (again kb b l)"
begin

lemma loop_ok: "has_cursor l \<Longrightarrow> I (item_count l) b \<Longrightarrow> good_result codes pick l (item_loop on_key again kb b l)"
  using loop_ok_if again_ok by blast

end

end
