(* ===== verification/KMenuBoxFacts.thy ===== *)
theory KMenuBoxFacts
  imports KMenuBox KItems
begin

text \<open>
  The highlighted line of a menu stays on an item as long as the screen keeps its size; after it was resized,
  the first line printed can be a stale one, behind which there are too few items.
\<close>

section \<open>The lines of the box\<close>

text \<open>\<open>n\<close> items, of which \<open>mb_max\<close> are shown from \<open>mb_scroll\<close> on; the highlighted one is among them.\<close>

definition in_box :: "int \<Rightarrow> menu_box \<Rightarrow> bool" where
  "in_box n b \<longleftrightarrow> 0 \<le> mb_scroll b \<and> 0 \<le> mb_max b \<and> mb_scroll b + mb_max b \<le> n \<and>
     0 \<le> mb_choice b \<and> (if n = 0 then mb_choice b = 0 else mb_choice b < mb_max b) \<and>
     0 \<le> mb_button b \<and> mb_button b \<le> 4"

lemma find_letter_ok:
  "has_cursor l \<Longrightarrow> \<forall>i \<in> set is. on_item l (scroll + i) \<Longrightarrow>
   \<exists>r l1. find_letter key scroll is l = Some (r, l1) \<and> same_items l l1 \<and> (\<forall>i. r = Some i \<longrightarrow> i \<in> set is)"
proof (induction "is" arbitrary: l)
  case (Cons i "is")
  let ?l = "item_set (scroll + i) l"
  obtain it where it: "cur_item ?l = Some it" using cur_item_set [of l "scroll + i"] Cons.prems by auto
  have "\<exists>r l1. find_letter key scroll is ?l = Some (r, l1) \<and> same_items ?l l1 \<and> (\<forall>i. r = Some i \<longrightarrow> i \<in> set is)"
    using Cons.IH [of ?l] Cons.prems by (auto simp: on_item_same [OF same_items_set] has_cursor_same [OF _ same_items_set])
  then show ?case using it same_items_trans [OF same_items_set] by (auto simp: Let_def)
qed simp

lemma in_box_on: "in_box (item_count l) b \<Longrightarrow> 0 \<le> i \<Longrightarrow> i < mb_max b \<Longrightarrow> on_item l (mb_scroll b + i)"
  by (auto simp: in_box_def on_item_def)

lemma in_box_choice: "in_box (item_count l) b \<Longrightarrow> on_item l (mb_scroll b + mb_choice b)"
  by (auto simp: in_box_def on_item_def item_count_def split: if_splits)

lemma hot_item_ok:
  assumes "has_cursor l" "in_box (item_count l) b"
  shows "\<exists>r l1. hot_item key b l = Some (r, l1) \<and> same_items l l1 \<and> (\<forall>i. r = Some i \<longrightarrow> 0 \<le> i \<and> i < mb_max b)"
proof (cases "in_str ''ynmh '' key")
  case False
  have c: "0 \<le> mb_choice b" using assms(2) by (simp add: in_box_def)
  have "\<forall>i \<in> set (ints (mb_choice b + 1) (mb_max b)). on_item l (mb_scroll b + i)"
    using in_box_on [OF assms(2)] c by auto
  from find_letter_ok [OF assms(1) this, of key] obtain r l1 where
    1: "find_letter key (mb_scroll b) (ints (mb_choice b + 1) (mb_max b)) l = Some (r, l1)" "same_items l l1"
    "\<forall>i. r = Some i \<longrightarrow> mb_choice b + 1 \<le> i \<and> i < mb_max b" by auto
  have "\<forall>i \<in> set (ints 0 (mb_max b)). on_item l1 (mb_scroll b + i)"
    using in_box_on [OF assms(2)] on_item_same [OF 1(2)] by auto
  from find_letter_ok [OF has_cursor_same [OF assms(1) 1(2)] this, of key] obtain r2 l2 where
    2: "find_letter key (mb_scroll b) (ints 0 (mb_max b)) l1 = Some (r2, l2)" "same_items l1 l2"
    "\<forall>i. r2 = Some i \<longrightarrow> 0 \<le> i \<and> i < mb_max b" by auto
  show ?thesis
    using 1 2 c same_items_trans [OF 1(2) 2(2)] False
    by (cases r) (fastforce simp: hot_item_def)+
qed (simp add: hot_item_def)

section \<open>Moving\<close>

definition good_move :: "item_list \<Rightarrow> (menu_box \<times> item_list) option \<Rightarrow> bool" where
  "good_move l q \<longleftrightarrow> (\<exists>b l1. q = Some (b, l1) \<and> same_items l l1 \<and> in_box (item_count l) b)"

lemma good_move_same: "same_items l l1 \<Longrightarrow> good_move l1 q \<Longrightarrow> good_move l q"
  using same_items_trans [of l l1] same_count [of l l1] by (auto simp: good_move_def)

lemma good_move_print:
  assumes "has_cursor l" "on_item l n" "in_box (item_count l) b"
  shows "good_move l (map_option (\<lambda>l1. (b, l1)) (print_item n l))"
  using print_item_ok [OF assms(1,2)] assms(3) by (auto simp: good_move_def)

lemma page_up_ok: "has_cursor l \<Longrightarrow> in_box (item_count l) b \<Longrightarrow> good_move l (page_up n b l)"
proof (induction n arbitrary: b l)
  case (Suc n)
  show ?case
  proof (cases "0 < mb_scroll b")
    case True
    have "on_item l (mb_scroll b - 1)" using Suc.prems True by (auto simp: on_item_def in_box_def)
    then obtain l1 where 1: "print_item (mb_scroll b - 1) l = Some l1" "same_items l l1"
      using print_item_ok Suc.prems(1) by blast
    have "in_box (item_count l1) (b\<lparr>mb_scroll := mb_scroll b - 1\<rparr>)"
      using Suc.prems(2) True by (simp add: in_box_def same_count [OF 1(2)])
    from good_move_same [OF 1(2) Suc.IH [OF has_cursor_same [OF Suc.prems(1) 1(2)] this]] show ?thesis
      using True 1 by simp
  next
    case False
    have "in_box (item_count l) (if 0 < mb_choice b then b\<lparr>mb_choice := mb_choice b - 1\<rparr> else b)"
      using Suc.prems(2) by (auto simp: in_box_def)
    from Suc.IH [OF Suc.prems(1) this] False show ?thesis by simp
  qed
qed (simp add: good_move_def)

lemma page_down_ok: "has_cursor l \<Longrightarrow> in_box (item_count l) b \<Longrightarrow> good_move l (page_down n b l)"
proof (induction n arbitrary: b l)
  case (Suc n)
  show ?case
  proof (cases "mb_scroll b + mb_max b < item_count l")
    case True
    have "on_item l (mb_scroll b + mb_max b)" using Suc.prems True by (auto simp: on_item_def in_box_def)
    then obtain l1 where 1: "print_item (mb_scroll b + mb_max b) l = Some l1" "same_items l l1"
      using print_item_ok Suc.prems(1) by blast
    have "in_box (item_count l1) (b\<lparr>mb_scroll := mb_scroll b + 1\<rparr>)"
      using Suc.prems(2) True by (auto simp: in_box_def same_count [OF 1(2)])
    from good_move_same [OF 1(2) Suc.IH [OF has_cursor_same [OF Suc.prems(1) 1(2)] this]] show ?thesis
      using True 1 by simp
  next
    case False
    have "in_box (item_count l) (if mb_choice b + 1 < mb_max b then b\<lparr>mb_choice := mb_choice b + 1\<rparr> else b)"
      using Suc.prems(2) by (auto simp: in_box_def)
    from Suc.IH [OF Suc.prems(1) this] False show ?thesis by simp
  qed
qed (simp add: good_move_def)

lemma move_up_ok:
  assumes "has_cursor l" "in_box (item_count l) b" "item_count l \<noteq> 0" "key = KEY_UP \<or> key = 45"
  shows "good_move l (move_to key hot b l)"
proof (cases "mb_choice b < 2 \<and> mb_scroll b \<noteq> 0")
  case True
  have o: "on_item l (mb_scroll b - 1)" using assms True by (auto simp: in_box_def on_item_def)
  have b: "in_box (item_count l) (b\<lparr>mb_scroll := mb_scroll b - 1\<rparr>)" using assms(2) True by (auto simp: in_box_def)
  show ?thesis using good_move_print [OF assms(1) o b] True assms(4) by (auto simp: move_to_def)
next
  case False
  have "in_box (item_count l) (b\<lparr>mb_choice := max (mb_choice b - 1) 0\<rparr>)" using assms by (auto simp: in_box_def)
  thus ?thesis using False assms(4) by (auto simp: move_to_def good_move_def)
qed

lemma move_down_ok:
  assumes "has_cursor l" "in_box (item_count l) b" "item_count l \<noteq> 0" "key = KEY_DOWN \<or> key = 43"
  shows "good_move l (move_to key hot b l)"
proof -
  have k: "\<not> (key = KEY_UP \<or> key = 45)" using assms(4) by (auto simp: key_defs)
  obtain l1 where 1: "print_item (mb_scroll b + mb_choice b) l = Some l1" "same_items l l1"
    using print_item_ok [OF assms(1) in_box_choice [OF assms(2)]] by blast
  note c1 = has_cursor_same [OF assms(1) 1(2)] and n1 = same_count [OF 1(2)]
  show ?thesis
  proof (cases "mb_max b - 3 < mb_choice b \<and> mb_scroll b + mb_max b < item_count l")
    case True
    have o: "on_item l1 (mb_scroll b + mb_max b)" using assms True by (auto simp: in_box_def on_item_def n1)
    have b: "in_box (item_count l1) (b\<lparr>mb_scroll := mb_scroll b + 1\<rparr>)" using assms(2) True by (auto simp: in_box_def n1)
    show ?thesis
      using good_move_same [OF 1(2) good_move_print [OF c1 o b]] True assms(4) k 1(1) n1 by (auto simp: move_to_def)
  next
    case False
    have "in_box (item_count l) (b\<lparr>mb_choice := min (mb_choice b + 1) (mb_max b - 1)\<rparr>)"
      using assms by (auto simp: in_box_def)
    thus ?thesis using False assms(4) k 1 n1 by (auto simp: move_to_def good_move_def)
  qed
qed

lemma move_to_ok:
  assumes "has_cursor l" "in_box (item_count l) b" "item_count l \<noteq> 0"
    and "\<forall>i. hot = Some i \<longrightarrow> 0 \<le> i \<and> i < mb_max b"
  shows "good_move l (move_to key hot b l)"
proof (cases "key = KEY_UP \<or> key = 45 \<or> key = KEY_DOWN \<or> key = 43")
  case False
  show ?thesis
  proof (cases "key = KEY_PPAGE \<or> key = KEY_NPAGE")
    case True
    with False show ?thesis
      using page_up_ok [OF assms(1,2)] page_down_ok [OF assms(1,2)] by (auto simp: move_to_def key_defs)
  next
    case n: False
    have "in_box (item_count l) (b\<lparr>mb_choice := i\<rparr>)" if "hot = Some i" for i
      using assms that by (auto simp: in_box_def)
    with False n show ?thesis using assms(2) by (auto simp: move_to_def good_move_def split: option.split)
  qed
qed (use assms move_up_ok move_down_ok in blast)

lemma move_item_ok:
  assumes "has_cursor l" "in_box (item_count l) b" "item_count l \<noteq> 0"
    and "\<forall>i. hot = Some i \<longrightarrow> 0 \<le> i \<and> i < mb_max b"
  shows "good_move l (move_item key hot b l)"
proof -
  obtain l1 where 1: "print_item (mb_scroll b + mb_choice b) l = Some l1" "same_items l l1"
    using print_item_ok [OF assms(1) in_box_choice [OF assms(2)]] by blast
  note c1 = has_cursor_same [OF assms(1) 1(2)] and n1 = same_count [OF 1(2)]
  have "good_move l1 (move_to key hot b l1)" using move_to_ok [OF c1 _ _ assms(4)] assms n1 by simp
  then obtain b2 l2 where 2: "move_to key hot b l1 = Some (b2, l2)" "same_items l1 l2" "in_box (item_count l1) b2"
    by (auto simp: good_move_def)
  have c2: "has_cursor l2" and b2: "in_box (item_count l2) b2"
    using has_cursor_same [OF c1 2(2)] 2(3) same_count [OF 2(2)] by simp_all
  have "good_move l (map_option (\<lambda>l3. (b2, l3)) (print_item (mb_scroll b2 + mb_choice b2) l2))"
    by (rule good_move_same [OF same_items_trans [OF 1(2) 2(2)] good_move_print [OF c2 in_box_choice [OF b2] b2]])
  thus ?thesis using 1(1) 2(1) by (simp add: move_item_def)
qed

section \<open>Opening\<close>

lemma menu_scroll_ok:
  assumes "0 \<le> mb_choice b" "if n = 0 then mb_choice b = 0 \<and> mb_max b = 0 else mb_choice b < n \<and> 0 < mb_max b"
    and "0 \<le> mb_max b" "mb_max b \<le> n" "0 \<le> mb_button b" "mb_button b \<le> 4"
  shows "in_box n (menu_scroll s n b)"
proof -
  have d: "2 * (mb_max b div 2) \<le> mb_max b" "mb_max b \<le> 2 * (mb_max b div 2) + 1" by presburger+
  show ?thesis
    using assms d by (auto simp: menu_scroll_def Let_def in_box_def split: if_splits)
qed

lemma menu_scroll_first: "mb_first b = 0 \<Longrightarrow> mb_first (menu_scroll s n b) = mb_scroll (menu_scroll s n b)"
  by (simp add: menu_scroll_def Let_def)

lemma last_with_less: "last_with P l = Some i \<Longrightarrow> int i < item_count l"
  by (auto simp: last_with_def item_count_def find_Some_iff rev_nth)

lemma menu_open_ok:
  assumes "has_cursor l"
  shows "good_open in_box l (menu_open sel s kb fresh_box l)"
proof (cases "kb_height kb < MENUBOX_HEIGTH_MIN \<or> kb_width kb < MENUBOX_WIDTH_MIN")
  case False
  define c where "c = menu_choice sel l (fresh_box\<lparr>mb_max := min ((kb_height kb - 4) - 10) (item_count l)\<rparr>)"
  define b where "b = menu_scroll s (item_count l) c"
  have n: "0 \<le> item_count l" by (simp add: item_count_def)
  have h: "1 \<le> (kb_height kb - 4) - 10" using False by (simp add: MENUBOX_HEIGTH_MIN_def)
  have c: "mb_max c = min ((kb_height kb - 4) - 10) (item_count l)" "mb_button c = 0" "mb_first c = 0"
    by (simp_all add: c_def menu_choice_def fresh_box_def split: option.split)
  have ch: "0 \<le> mb_choice c" "mb_choice c = 0 \<or> mb_choice c < item_count l"
    by (auto simp: c_def menu_choice_def fresh_box_def dest: last_with_less split: option.split)
  have b: "in_box (item_count l) b"
    unfolding b_def by (rule menu_scroll_ok) (use c ch h n in \<open>auto split: if_splits\<close>)
  have f: "mb_first b = mb_scroll b" unfolding b_def by (rule menu_scroll_first) (rule c(3))
  let ?l = "item_find (\<lambda>_ _. False) l"
  have "\<forall>i \<in> set (ints (mb_first b) (mb_first b + mb_max b)). on_item ?l i"
    using b f by (auto simp: on_item_same [OF same_items_find] on_item_def in_box_def same_count [OF same_items_find])
  from print_items_ok [OF has_cursor_same [OF assms same_items_find] this] obtain l1 where
    1: "print_items (ints (mb_first b) (mb_first b + mb_max b)) ?l = Some l1" "same_items ?l l1" by blast
  have "menu_open sel s kb fresh_box l =
      (case print_items (ints (mb_first b) (mb_first b + mb_max b)) ?l of None \<Rightarrow> Some Crash | Some l1 \<Rightarrow> Some (Got (b, l1)))"
    unfolding menu_open_def b_def c_def Let_def if_not_P [OF False] ..
  thus ?thesis using 1 b same_items_trans [OF same_items_find 1(2)] by (simp add: good_open_def)
qed (simp add: menu_open_def good_open_def)

section \<open>Keys\<close>

text \<open>What is chosen: one item is marked and it is the current one.\<close>

definition picked :: "item_list \<Rightarrow> item_list \<Rightarrow> bool" where
  "picked l l1 \<longleftrightarrow> (if il_items l = [] then il_items l1 = []
     else \<exists>i < length (il_items l). il_cur l1 = At i \<and> il_items l1 = (il_items l)[i := (il_items l ! i)\<lparr>it_selected := True\<rparr>])"

lemma picked_free: "cursor_free picked"
proof -
  have "picked l l2" if "same_items l l1" "picked l1 l2" for l l1 l2
  proof -
    have "il_items l1 = il_items l" using that(1) by (simp add: same_items_def)
    thus ?thesis using that(2) by (simp only: picked_def)
  qed
  thus ?thesis by (simp add: cursor_free_def)
qed

lemma select_ok:
  assumes "has_cursor l" "on_item l n"
  shows "\<exists>l1. item_set_selected True (item_set n l) = Some l1 \<and> picked l l1"
proof (cases "il_items l = []")
  case True
  thus ?thesis using assms(1)
    by (auto simp: item_set_selected_def upd_item_def item_set_cur has_cursor_def picked_def split: cursor.split)
next
  case False
  hence n: "0 \<le> n" "n < item_count l" using assms(2) by (auto simp: on_item_def)
  have "nat n < length (il_items l)" using n by (simp add: item_count_def)
  thus ?thesis using n False
    by (auto simp: item_set_selected_def upd_item_def item_set_cur picked_def)
qed

definition menu_codes :: "int \<Rightarrow> bool" where "menu_codes r \<longleftrightarrow> 0 \<le> r \<and> r \<le> 10"

abbreviation good_menu_step :: "item_list \<Rightarrow> menu_box list_step \<Rightarrow> bool" where
  "good_menu_step \<equiv> good_step in_box menu_codes picked"

lemma menu_act_ok:
  assumes "has_cursor l" "in_box (item_count l) b" "\<forall>i. hot = Some i \<longrightarrow> 0 \<le> i \<and> i < mb_max b"
  shows "good_menu_step l (menu_act key hot b l)"
proof (cases "item_count l \<noteq> 0 \<and> (hot \<noteq> None \<or> key \<in> {KEY_UP, KEY_DOWN, 45, 43, KEY_PPAGE, KEY_NPAGE})")
  case True
  hence "good_move l (move_item key hot b l)" using move_item_ok [OF assms(1,2) _ assms(3)] by blast
  then obtain b1 l1 where "move_item key hot b l = Some (b1, l1)" "same_items l l1" "in_box (item_count l) b1"
    by (auto simp: good_move_def)
  thus ?thesis unfolding menu_act_def if_P [OF True] by (simp add: good_step_def)
next
  case False
  obtain l1 where "item_set_selected True (item_set (mb_scroll b + mb_choice b) l) = Some l1" "picked l l1"
    using select_ok [OF assms(1) in_box_choice [OF assms(2)]] by blast
  moreover have "menu_codes (menu_code key (mb_button b))"
    using assms(2) by (auto simp: menu_codes_def menu_code_def in_box_def)
  moreover have "in_box (item_count l) (b\<lparr>mb_button := if n < 0 then 4 else if 4 < n then 0 else n\<rparr>)" for n
    using assms(2) by (auto simp: in_box_def)
  ultimately show ?thesis
    unfolding menu_act_def if_not_P [OF False] Let_def using assms(2)
    by (simp add: good_step_def split: if_split del: insert_iff)
qed

lemma menu_key_ok:
  assumes "has_cursor l" "in_box (item_count l) b"
  shows "good_menu_step l (menu_key key0 b l)"
proof -
  define key where "key = (if key0 < 256 \<and> is_alpha key0 then lower_int key0 else key0)"
  obtain hot l1 where 1: "hot_item key b l = Some (hot, l1)" "same_items l l1"
    "\<forall>i. hot = Some i \<longrightarrow> 0 \<le> i \<and> i < mb_max b"
    using hot_item_ok [OF assms, of key] by blast
  have "in_box (item_count l1) b" using assms(2) same_count [OF 1(2)] by simp
  from good_step_same [OF picked_free 1(2) menu_act_ok [OF has_cursor_same [OF assms(1) 1(2)] this 1(3)]] show ?thesis
    by (simp add: menu_key_def key_def [symmetric] 1(1))
qed

lemma menu_act_stays_sized: "key \<noteq> KEY_RESIZE \<Longrightarrow> menu_act key hot b l \<noteq> Again_sized b1 l1"
  by (simp add: menu_act_def Let_def split: option.split if_split del: insert_iff)

lemma menu_key_stays_sized: "key \<noteq> KEY_RESIZE \<Longrightarrow> menu_key key b l \<noteq> Again_sized b1 l1"
  using menu_act_stays_sized [of key]  menu_act_stays_sized [of "lower_int key"]
  by (auto simp: menu_key_def Let_def key_defs lower_int_def split: option.split)

interpretation mb: list_box menu_key "menu_open sel s" in_box menu_codes picked for sel s
  by unfold_locales (use menu_key_ok menu_key_stays_sized picked_free in blast)+

text \<open>The result of a menu: \<open>ESC\<close> or a screen that is too small, or a choice.\<close>

definition good_menu :: "item_list \<Rightarrow> menu_result dialog \<Rightarrow> bool" where
  "good_menu l q \<longleftrightarrow> (case q of
     Waits \<Rightarrow> True
   | Crash \<Rightarrow> False
   | Got (r, l1, s, kb) \<Rightarrow>
       (r = KEY_ESC \<or> r = - ERRDISPLAYTOOSMALL) \<and> same_items l l1 \<or> 0 \<le> r \<and> r \<le> 10 \<and> picked l l1)"


section \<open>Examples\<close>

definition three_items :: item_list where
  "three_items = \<lparr>il_items = map (\<lambda>(s, d). no_item\<lparr>it_str := s, it_data := Some d\<rparr>) [(''Build'', 0), (''Target'', 1), (''Kernel'', 2)],
     il_cur = At 2, il_nil = no_item\<rparr>"


text \<open>A menu box opened on a small screen: when the screen grows, the line printed first is
  still the one of the small screen, and the items behind the last are looked up.\<close>

lemma dialog_menu_resized:
  "dialog_menu (Some 1) 1 \<lparr>kb_events = [Resized 24 80], kb_height = 15, kb_width = 80\<rparr> three_items = Crash"
  by code_simp

end
