(* ===== verification/KCheckList.thy ===== *)
theory KCheckList
  imports KDialog
begin

text \<open>
  The list of the screen front end in which one item is chosen, \<open>buildroot/support/kconfig/lxdialog/checklist.c\<close>, and
  its question with two buttons, \<open>yesno.c\<close>, over the keys that are pressed.
\<close>

definition CHECKLIST_HEIGTH_MIN :: int where "CHECKLIST_HEIGTH_MIN = 6"
definition CHECKLIST_WIDTH_MIN :: int where "CHECKLIST_WIDTH_MIN = 6"

record check_box =
  cb_choice :: int
  cb_scroll :: int
  cb_max :: int
  cb_button :: int

section \<open>What is shown first\<close>

text \<open>The line that is highlighted: the first selected item, else the last one with the tag \<open>X\<close>, else the first.\<close>

definition check_start :: "item_list \<Rightarrow> int" where
  "check_start l =
     (case find (\<lambda>i. it_selected (il_items l ! i)) [0..<length (il_items l)] of
        Some i \<Rightarrow> int i
      | None \<Rightarrow> (case last_with (\<lambda>i. it_tag i = CHR ''X'') l of Some i \<Rightarrow> int i | None \<Rightarrow> 0))"

text \<open>From the label \<open>do_resize\<close> on: \<open>None\<close> when the screen is too small.\<close>

definition check_open :: "int \<Rightarrow> int \<Rightarrow> int \<Rightarrow> keyboard \<Rightarrow> check_box \<Rightarrow> item_list \<Rightarrow> (check_box \<times> item_list) dialog option" where
  "check_open height width list_height kb b l =
     (if kb_height kb < height + CHECKLIST_HEIGTH_MIN \<or> kb_width kb < width + CHECKLIST_WIDTH_MIN then None
      else
        (let b1 = b\<lparr>cb_max := min list_height (item_count l)\<rparr>;
             l1 = item_find (\<lambda>_ _. False) l;
             b2 = (if list_height \<le> cb_choice b1
                   then (let s = cb_choice b1 - list_height + 1 in b1\<lparr>cb_scroll := s, cb_choice := cb_choice b1 - s\<rparr>)
                   else b1)
         in case print_items (map ((+) (cb_scroll b2)) (ints 0 (cb_max b2))) l1 of
              None \<Rightarrow> Some Crash
            | Some l2 \<Rightarrow> Some (Got (b2, l2))))"

section \<open>Keys\<close>

text \<open>The first line whose item begins with the letter.\<close>

definition first_letter :: "item \<Rightarrow> int" where
  "first_letter i = (case it_str i of [] \<Rightarrow> 0 | c # s \<Rightarrow> upper_int (char_int c))"

fun check_find :: "int \<Rightarrow> int \<Rightarrow> int list \<Rightarrow> item_list \<Rightarrow> (int option \<times> item_list) option" where
  "check_find key scroll [] l = Some (None, l)"
| "check_find key scroll (i # is) l =
     (let l1 = item_set (i + scroll) l in
      case cur_item l1 of
        None \<Rightarrow> None
      | Some it \<Rightarrow> if upper_int key = first_letter it then Some (Some i, l1) else check_find key scroll is l1)"

text \<open>The lines scroll by one: the item that was at the edge is printed again unless it is the only line.\<close>

definition check_scroll :: "int \<Rightarrow> int \<Rightarrow> int \<Rightarrow> int \<Rightarrow> check_box \<Rightarrow> item_list \<Rightarrow> (check_box \<times> item_list) option" where
  "check_scroll list_height off by edge b l =
     (case (if 1 < list_height then print_item off l else Some l) of
        None \<Rightarrow> None
      | Some l1 \<Rightarrow> map_option (\<lambda>l2. (b\<lparr>cb_scroll := cb_scroll b + by\<rparr>, l2)) (print_item (cb_scroll b + by + edge) l1))"

text \<open>The highlighted line changes.\<close>

definition check_goto :: "int \<Rightarrow> check_box \<Rightarrow> item_list \<Rightarrow> (check_box \<times> item_list) option" where
  "check_goto i b l =
     (if i \<noteq> cb_choice b
      then (case print_item (cb_scroll b + cb_choice b) l of
              None \<Rightarrow> None
            | Some l1 \<Rightarrow> map_option (\<lambda>l2. (b\<lparr>cb_choice := i\<rparr>, l2)) (print_item (cb_scroll b + i) l1))
      else Some (b, l))"

definition check_move :: "int \<Rightarrow> int \<Rightarrow> int option \<Rightarrow> check_box \<Rightarrow> item_list \<Rightarrow> (check_box \<times> item_list) option" where
  "check_move list_height key hot b l =
     (if key = KEY_UP \<or> key = 45
      then (if cb_choice b = 0
            then (if cb_scroll b = 0 then Some (b, l) else check_scroll list_height (cb_scroll b) (- 1) 0 b l)
            else check_goto (cb_choice b - 1) b l)
      else if key = KEY_DOWN \<or> key = 43
      then (if cb_choice b = cb_max b - 1
            then (if item_count l - 1 \<le> cb_scroll b + cb_choice b then Some (b, l)
                  else check_scroll list_height (cb_scroll b + cb_max b - 1) 1 (cb_max b - 1) b l)
            else check_goto (cb_choice b + 1) b l)
      else (case hot of Some i \<Rightarrow> check_goto i b l | None \<Rightarrow> Some (b, l)))"

text \<open>\<open>item_foreach () item_set_selected (0)\<close>.\<close>

definition unselect_all :: "item_list \<Rightarrow> item_list" where
  "unselect_all l =
     item_find (\<lambda>_ _. False) (l\<lparr>il_items := map (\<lambda>i. i\<lparr>it_selected := False\<rparr>) (il_items l)\<rparr>)"

definition check_act :: "int \<Rightarrow> int \<Rightarrow> int option \<Rightarrow> check_box \<Rightarrow> item_list \<Rightarrow> check_box list_step" where
  "check_act list_height key hot b l =
     (if hot \<noteq> None \<or> key \<in> {KEY_UP, KEY_DOWN, 43, 45}
      then (case check_move list_height key hot b l of None \<Rightarrow> Bad | Some (b1, l1) \<Rightarrow> Stay b1 l1)
      else if key \<in> {72, 104, 63, 83, 115, 32, 10}
      then (case item_set_selected True (item_set (cb_scroll b + cb_choice b) (unselect_all l)) of
              None \<Rightarrow> Bad
            | Some l1 \<Rightarrow> Chosen (if key \<in> {72, 104, 63} then 1 else cb_button b) b l1)
      else if key \<in> {TAB, KEY_LEFT, KEY_RIGHT}
      then (let n = (if key = KEY_LEFT then cb_button b - 1 else cb_button b + 1)
            in Stay (b\<lparr>cb_button := if n < 0 then 1 else if 1 < n then 0 else n\<rparr>) l)
      else if key = 88 \<or> key = 120 then Escaped l
      else if key = KEY_ESC then Look_esc b l
      else if key = KEY_RESIZE then Again_sized b l
      else Stay b l)"

definition check_key :: "int \<Rightarrow> int \<Rightarrow> check_box \<Rightarrow> item_list \<Rightarrow> check_box list_step" where
  "check_key list_height key b l =
     (case check_find key (cb_scroll b) (ints 0 (cb_max b)) l of
        None \<Rightarrow> Bad
      | Some (hot, l1) \<Rightarrow> check_act list_height key hot b l1)"

section \<open>The dialogs\<close>

definition dialog_checklist :: "int \<Rightarrow> int \<Rightarrow> int \<Rightarrow> keyboard \<Rightarrow> item_list \<Rightarrow> (int \<times> item_list \<times> keyboard) dialog" where
  "dialog_checklist height width list_height kb l =
     (let b = \<lparr>cb_choice = check_start l, cb_scroll = 0, cb_max = 0, cb_button = 0\<rparr> in
      case check_open height width list_height kb b l of
        None \<Rightarrow> Got (- ERRDISPLAYTOOSMALL, l, kb)
      | Some (Got (b1, l1)) \<Rightarrow>
          map_dialog (\<lambda>(r, _, l2, kb1). (r, l2, kb1))
            (item_loop (check_key list_height) (check_open height width list_height) kb b1 l1)
      | Some _ \<Rightarrow> Crash)"

definition YESNO_HEIGTH_MIN :: int where "YESNO_HEIGTH_MIN = 4"
definition YESNO_WIDTH_MIN :: int where "YESNO_WIDTH_MIN = 4"

definition yesno_small :: "int \<Rightarrow> int \<Rightarrow> keyboard \<Rightarrow> bool" where
  "yesno_small height width kb \<longleftrightarrow> kb_height kb < height + YESNO_HEIGTH_MIN \<or> kb_width kb < width + YESNO_WIDTH_MIN"

function yesno_loop :: "int \<Rightarrow> int \<Rightarrow> keyboard \<Rightarrow> int \<Rightarrow> (int \<times> keyboard) dialog" where
  "yesno_loop height width kb button =
     (case wgetch kb of
        None \<Rightarrow> Waits
      | Some (key, kb1) \<Rightarrow>
          if key = 89 \<or> key = 121 then Got (0, kb1)
          else if key = 78 \<or> key = 110 then Got (1, kb1)
          else if key = TAB \<or> key = KEY_LEFT \<or> key = KEY_RIGHT
          then (let n = (if key = KEY_LEFT then button - 1 else button + 1)
                in yesno_loop height width kb1 (if n < 0 then 1 else if 1 < n then 0 else n))
          else if key = 32 \<or> key = 10 then Got (button, kb1)
          else if key = KEY_ESC
          then (let (k, kb2) = on_key_esc kb1 in
                if k = KEY_ESC then Got (KEY_ESC, kb2) else yesno_loop height width kb2 button)
          else if key = KEY_RESIZE \<and> yesno_small height width kb1 then Got (- ERRDISPLAYTOOSMALL, kb1)
          else yesno_loop height width kb1 button)"
  by pat_completeness auto
termination
  by (relation "measure (\<lambda>(height, width, kb, button). length (kb_events kb))")
    (auto dest: wgetch_less on_key_esc_le wgetch_less [OF sym] on_key_esc_le [OF sym] intro: le_less_trans)

declare yesno_loop.simps [simp del]

definition dialog_yesno :: "int \<Rightarrow> int \<Rightarrow> keyboard \<Rightarrow> (int \<times> keyboard) dialog" where
  "dialog_yesno height width kb =
     (if yesno_small height width kb then Got (- ERRDISPLAYTOOSMALL, kb) else yesno_loop height width kb 0)"

end
