(* ===== verification/KCheckListFacts.thy ===== *)
theory KCheckListFacts
  imports KCheckList KItems
begin

text \<open>
  The list in which one item is chosen keeps its highlighted line on an item, whatever keys are pressed and whatever
  size the screen gets.
\<close>

section \<open>The lines\<close>

text \<open>\<open>n\<close> items, of which \<open>cb_max\<close> are shown; without items the line does not matter.\<close>

definition in_check :: "int \<Rightarrow> int \<Rightarrow> check_box \<Rightarrow> bool" where
  "in_check lh n b \<longleftrightarrow> 0 \<le> cb_scroll b \<and> 0 \<le> cb_choice b \<and> cb_max b = min lh n \<and>
     (n = 0 \<or> cb_choice b < cb_max b \<and> cb_scroll b + cb_max b \<le> n) \<and> 0 \<le> cb_button b \<and> cb_button b \<le> 1"

lemma item_count_0: "item_count l = 0 \<longleftrightarrow> il_items l = []"
  by (simp add: item_count_def)

lemma in_check_on: "in_check lh (item_count l) b \<Longrightarrow> 0 \<le> i \<Longrightarrow> i < cb_max b \<Longrightarrow> on_item l (cb_scroll b + i)"
  by (auto simp: in_check_def on_item_def item_count_0)

lemma in_check_choice: "in_check lh (item_count l) b \<Longrightarrow> on_item l (cb_scroll b + cb_choice b)"
  by (auto simp: in_check_def on_item_def item_count_0)

section \<open>Opening\<close>

lemma check_start_range: "0 \<le> check_start l" "il_items l \<noteq> [] \<Longrightarrow> check_start l < item_count l"
  by (auto simp: check_start_def last_with_def item_count_def find_Some_iff rev_nth split: option.split)

text \<open>Opening needs a line in the list and variables that are in the list or fresh.\<close>

lemma check_open_ok:
  assumes "has_cursor l" "1 \<le> lh" "0 \<le> cb_choice b" "0 \<le> cb_scroll b" "0 \<le> cb_button b" "cb_button b \<le> 1"
    and "il_items l = [] \<or> cb_choice b + cb_scroll b < item_count l \<and> (cb_choice b < lh \<longrightarrow> cb_scroll b + min lh (item_count l) \<le> item_count l)
      \<and> (lh \<le> cb_choice b \<longrightarrow> cb_scroll b = 0)"
  shows "good_open (in_check lh) l (check_open h w lh kb b l)"
proof (cases "kb_height kb < h + CHECKLIST_HEIGTH_MIN \<or> kb_width kb < w + CHECKLIST_WIDTH_MIN")
  case False
  define b1 where "b1 = b\<lparr>cb_max := min lh (item_count l)\<rparr>"
  define b2 where "b2 = (if lh \<le> cb_choice b1
    then (let s = cb_choice b1 - lh + 1 in b1\<lparr>cb_scroll := s, cb_choice := cb_choice b1 - s\<rparr>) else b1)"
  let ?l = "item_find (\<lambda>_ _. False) l"
  have b2: "in_check lh (item_count l) b2"
    using assms(2-) by (auto simp: in_check_def b2_def b1_def item_count_0 item_count_def Let_def)
  have "\<forall>i \<in> set (map ((+) (cb_scroll b2)) (ints 0 (cb_max b2))). on_item ?l i"
  proof
    fix i
    assume "i \<in> set (map ((+) (cb_scroll b2)) (ints 0 (cb_max b2)))"
    thus "on_item ?l i"
      using in_check_on [OF b2, of "i - cb_scroll b2"] by (simp add: on_item_same [OF same_items_find])
  qed
  from print_items_ok [OF has_cursor_same [OF assms(1) same_items_find] this] obtain l2 where
    "print_items (map ((+) (cb_scroll b2)) (ints 0 (cb_max b2))) ?l = Some l2" "same_items ?l l2" by blast
  moreover have "check_open h w lh kb b l = (case print_items (map ((+) (cb_scroll b2)) (ints 0 (cb_max b2))) ?l of
      None \<Rightarrow> Some Crash | Some l2 \<Rightarrow> Some (Got (b2, l2)))"
    unfolding check_open_def if_not_P [OF False] b2_def b1_def Let_def ..
  ultimately show ?thesis using b2 same_items_trans [OF same_items_find] by (auto simp: good_open_def)
qed (simp add: check_open_def good_open_def)

lemma check_again_ok:
  "has_cursor l \<Longrightarrow> in_check lh (item_count l) b \<Longrightarrow> 1 \<le> lh \<Longrightarrow> good_open (in_check lh) l (check_open h w lh kb b l)"
  by (rule check_open_ok) (auto simp: in_check_def item_count_0)

section \<open>Keys\<close>

lemma check_find_ok:
  "has_cursor l \<Longrightarrow> \<forall>i \<in> set is. on_item l (scroll + i) \<Longrightarrow>
   \<exists>r l1. check_find key scroll is l = Some (r, l1) \<and> same_items l l1 \<and> (\<forall>i. r = Some i \<longrightarrow> i \<in> set is)"
proof (induction "is" arbitrary: l)
  case (Cons i "is")
  let ?l = "item_set (i + scroll) l"
  obtain it where it: "cur_item ?l = Some it"
    using cur_item_set [of l "scroll + i"] Cons.prems by (auto simp: add.commute)
  have "\<exists>r l1. check_find key scroll is ?l = Some (r, l1) \<and> same_items ?l l1 \<and> (\<forall>i. r = Some i \<longrightarrow> i \<in> set is)"
    using Cons.IH [of ?l] Cons.prems by (auto simp: on_item_same [OF same_items_set] has_cursor_same [OF _ same_items_set])
  then show ?case using it same_items_trans [OF same_items_set] by (auto simp: Let_def)
qed simp

text \<open>A move ends on the list.\<close>

definition check_moved :: "int \<Rightarrow> item_list \<Rightarrow> (check_box \<times> item_list) option \<Rightarrow> bool" where
  "check_moved lh l q \<longleftrightarrow> (\<exists>b l1. q = Some (b, l1) \<and> same_items l l1 \<and> in_check lh (item_count l) b)"

lemma check_scroll_ok:
  assumes "has_cursor l" "on_item l off" "on_item l (cb_scroll b + by + edge)"
    and "in_check lh (item_count l) (b\<lparr>cb_scroll := cb_scroll b + by\<rparr>)"
  shows "check_moved lh l (check_scroll h off by edge b l)"
proof -
  obtain l1 where 1: "(if 1 < h then print_item off l else Some l) = Some l1" "same_items l l1"
    using print_item_ok [OF assms(1,2)] by (cases "1 < h") auto
  obtain l2 where "print_item (cb_scroll b + by + edge) l1 = Some l2" "same_items l1 l2"
    using print_item_ok [OF has_cursor_same [OF assms(1) 1(2)]] on_item_same [OF 1(2)] assms(3) by blast
  thus ?thesis using 1 same_items_trans [OF 1(2)] assms(4) by (auto simp: check_moved_def check_scroll_def)
qed

lemma check_goto_ok:
  assumes "has_cursor l" "in_check lh (item_count l) b" "in_check lh (item_count l) (b\<lparr>cb_choice := i\<rparr>)"
  shows "check_moved lh l (check_goto i b l)"
proof (cases "i = cb_choice b")
  case False
  obtain l1 where 1: "print_item (cb_scroll b + cb_choice b) l = Some l1" "same_items l l1"
    using print_item_ok [OF assms(1) in_check_choice [OF assms(2)]] by blast
  have "on_item l (cb_scroll b + i)" using in_check_choice [OF assms(3)] by simp
  hence "on_item l1 (cb_scroll b + i)" by (simp only: on_item_same [OF 1(2)])
  then obtain l2 where "print_item (cb_scroll b + i) l1 = Some l2" "same_items l1 l2"
    using print_item_ok [OF has_cursor_same [OF assms(1) 1(2)]] by blast
  thus ?thesis using 1 False same_items_trans [OF 1(2)] assms(3) by (auto simp: check_moved_def check_goto_def)
qed (use assms in \<open>simp add: check_moved_def check_goto_def\<close>)

lemma check_stays: "in_check lh (item_count l) b \<Longrightarrow> check_moved lh l (Some (b, l))"
  by (simp add: check_moved_def)

lemma check_up_ok:
  assumes "has_cursor l" "in_check lh (item_count l) b" "key = KEY_UP \<or> key = 45"
  shows "check_moved lh l (check_move h key hot b l)"
proof -
  have "check_moved lh l (check_scroll h (cb_scroll b) (- 1) 0 b l)" if "cb_choice b = 0" "cb_scroll b \<noteq> 0"
    by (rule check_scroll_ok [OF assms(1)])
      (use assms(2) that in_check_choice [OF assms(2)] in \<open>auto simp: in_check_def on_item_def item_count_0\<close>)
  moreover have "check_moved lh l (check_goto (cb_choice b - 1) b l)" if "cb_choice b \<noteq> 0"
    by (rule check_goto_ok [OF assms(1,2)]) (use assms(2) that in \<open>auto simp: in_check_def\<close>)
  ultimately show ?thesis using assms(3) check_stays [OF assms(2)] by (simp add: check_move_def)
qed

lemma check_down_ok:
  assumes "has_cursor l" "in_check lh (item_count l) b" "key = KEY_DOWN \<or> key = 43" "1 \<le> lh"
  shows "check_moved lh l (check_move h key hot b l)"
proof -
  have k: "\<not> (key = KEY_UP \<or> key = 45)" using assms(3) by (auto simp: key_defs)
  have "check_moved lh l (check_scroll h (cb_scroll b + cb_max b - 1) 1 (cb_max b - 1) b l)"
    if "cb_choice b = cb_max b - 1" "\<not> item_count l - 1 \<le> cb_scroll b + cb_choice b"
    by (rule check_scroll_ok [OF assms(1)])
      (use assms(2,4) that in \<open>auto simp: in_check_def on_item_def item_count_0\<close>)
  moreover have "check_moved lh l (check_goto (cb_choice b + 1) b l)" if "cb_choice b \<noteq> cb_max b - 1"
    by (rule check_goto_ok [OF assms(1,2)]) (use assms(2) that in \<open>auto simp: in_check_def\<close>)
  ultimately show ?thesis using assms(3) k check_stays [OF assms(2)] by (simp add: check_move_def)
qed

lemma check_move_ok:
  assumes "has_cursor l" "in_check lh (item_count l) b" "1 \<le> lh" "\<forall>i. hot = Some i \<longrightarrow> 0 \<le> i \<and> i < cb_max b"
  shows "check_moved lh l (check_move h key hot b l)"
proof (cases "key = KEY_UP \<or> key = 45 \<or> key = KEY_DOWN \<or> key = 43")
  case True
  thus ?thesis using check_up_ok [OF assms(1,2)] check_down_ok [OF assms(1,2) _ assms(3)] by blast
next
  case False
  have "check_moved lh l (check_goto i b l)" if "hot = Some i" for i
    by (rule check_goto_ok [OF assms(1,2)]) (use assms that in \<open>auto simp: in_check_def\<close>)
  thus ?thesis using False check_stays [OF assms(2)] by (simp add: check_move_def split: option.split)
qed

section \<open>Choosing\<close>

text \<open>Exactly one item is marked, and it is the current one.\<close>

definition picked_only :: "item_list \<Rightarrow> item_list \<Rightarrow> bool" where
  "picked_only l l1 \<longleftrightarrow> (if il_items l = [] then il_items l1 = []
     else \<exists>i < length (il_items l). il_cur l1 = At i \<and>
       il_items l1 = (map (\<lambda>i. i\<lparr>it_selected := False\<rparr>) (il_items l))[i := (il_items l ! i)\<lparr>it_selected := True\<rparr>])"

lemma picked_only_free: "cursor_free picked_only"
proof -
  have "picked_only l l2" if "same_items l l1" "picked_only l1 l2" for l l1 l2
  proof -
    have "il_items l1 = il_items l" using that(1) by (simp add: same_items_def)
    thus ?thesis using that(2) by (simp only: picked_only_def)
  qed
  thus ?thesis by (simp add: cursor_free_def)
qed

lemma check_select_ok:
  assumes "has_cursor l" "on_item l n"
  shows "\<exists>l1. item_set_selected True (item_set n (unselect_all l)) = Some l1 \<and> picked_only l l1"
proof (cases "il_items l = []")
  case True
  thus ?thesis using assms(1)
    by (auto simp: item_set_selected_def upd_item_def item_set_cur has_cursor_def picked_only_def unselect_all_def
        item_find_def split: cursor.split)
next
  case False
  have i: "il_items (unselect_all l) = map (\<lambda>i. i\<lparr>it_selected := False\<rparr>) (il_items l)"
    by (simp add: unselect_all_def item_find_def split: option.split)
  have n: "0 \<le> n" "n < item_count l" using assms(2) False by (auto simp: on_item_def)
  hence "nat n < length (il_items l)" by (simp add: item_count_def)
  thus ?thesis using n False
    by (auto simp: item_set_selected_def upd_item_def item_set_cur picked_only_def i item_count_def)
qed

definition check_codes :: "int \<Rightarrow> bool" where "check_codes r \<longleftrightarrow> r = 0 \<or> r = 1"

abbreviation good_check_step :: "int \<Rightarrow> item_list \<Rightarrow> check_box list_step \<Rightarrow> bool" where
  "good_check_step lh \<equiv> good_step (in_check lh) check_codes picked_only"

lemma check_act_ok:
  assumes "has_cursor l" "in_check lh (item_count l) b" "1 \<le> lh" "\<forall>i. hot = Some i \<longrightarrow> 0 \<le> i \<and> i < cb_max b"
  shows "good_check_step lh l (check_act lh key hot b l)"
proof (cases "hot \<noteq> None \<or> key \<in> {KEY_UP, KEY_DOWN, 43, 45}")
  case True
  obtain b1 l1 where "check_move lh key hot b l = Some (b1, l1)" "same_items l l1" "in_check lh (item_count l) b1"
    using check_move_ok [OF assms, of lh key] by (auto simp: check_moved_def)
  thus ?thesis unfolding check_act_def if_P [OF True] by (simp add: good_step_def)
next
  case False
  obtain l1 where "item_set_selected True (item_set (cb_scroll b + cb_choice b) (unselect_all l)) = Some l1" "picked_only l l1"
    using check_select_ok [OF assms(1) in_check_choice [OF assms(2)]] by blast
  moreover have "check_codes (if P then 1 else cb_button b)" for P
    using assms(2) by (auto simp: check_codes_def in_check_def)
  moreover have "in_check lh (item_count l) (b\<lparr>cb_button := if n < 0 then 1 else if 1 < n then 0 else n\<rparr>)" for n
    using assms(2) by (auto simp: in_check_def)
  ultimately show ?thesis
    unfolding check_act_def if_not_P [OF False] Let_def using assms(2)
    by (simp add: good_step_def split: if_split del: insert_iff)
qed

lemma check_key_ok:
  assumes "has_cursor l" "in_check lh (item_count l) b" "1 \<le> lh"
  shows "good_check_step lh l (check_key lh key b l)"
proof -
  have "\<forall>i \<in> set (ints 0 (cb_max b)). on_item l (cb_scroll b + i)" using in_check_on [OF assms(2)] by simp
  from check_find_ok [OF assms(1) this, of key] obtain hot l1 where
    1: "check_find key (cb_scroll b) (ints 0 (cb_max b)) l = Some (hot, l1)" "same_items l l1"
      "\<forall>i. hot = Some i \<longrightarrow> 0 \<le> i \<and> i < cb_max b" by auto
  have "in_check lh (item_count l1) b" using assms(2) same_count [OF 1(2)] by simp
  from good_step_same [OF picked_only_free 1(2) check_act_ok [OF has_cursor_same [OF assms(1) 1(2)] this assms(3) 1(3)]]
  show ?thesis by (simp add: check_key_def 1(1))
qed

lemma check_key_stays_sized: "check_key lh key b l = Again_sized b1 l1 \<Longrightarrow> key = KEY_RESIZE"
proof (rule ccontr)
  assume k: "key \<noteq> KEY_RESIZE" and "check_key lh key b l = Again_sized b1 l1"
  moreover have "check_act lh key hot b l2 \<noteq> Again_sized b1 l1" for hot l2
    using k by (simp add: check_act_def Let_def split: option.split if_split del: insert_iff)
  ultimately show False by (auto simp: check_key_def split: option.splits)
qed

section \<open>The dialog\<close>

text \<open>The list of \<open>conf_choice\<close> has six lines, the list of any caller at least one.\<close>

lemma check_box_contract: "1 \<le> lh \<Longrightarrow> resizable_box (check_key lh) (check_open h w lh) (in_check lh) check_codes picked_only"
  by unfold_locales (use check_key_ok check_key_stays_sized picked_only_free check_again_ok in blast)+

interpretation cb: resizable_box "check_key CHECKLIST_HEIGTH_MIN" "check_open h w CHECKLIST_HEIGTH_MIN"
  "in_check CHECKLIST_HEIGTH_MIN" check_codes picked_only for h w
  by (rule check_box_contract) (simp add: CHECKLIST_HEIGTH_MIN_def)

definition good_check :: "item_list \<Rightarrow> (int \<times> item_list \<times> keyboard) dialog \<Rightarrow> bool" where
  "good_check l q \<longleftrightarrow> (case q of
     Waits \<Rightarrow> True
   | Crash \<Rightarrow> False
   | Got (r, l1, kb) \<Rightarrow> (r = KEY_ESC \<or> r = - ERRDISPLAYTOOSMALL) \<and> same_items l l1 \<or> (r = 0 \<or> r = 1) \<and> picked_only l l1)"


definition two_choices :: item_list where
  "two_choices = \<lparr>il_items = [no_item\<lparr>it_str := ''i386''\<rparr>, no_item\<lparr>it_str := ''x86_64'', it_tag := CHR ''X''\<rparr>],
     il_cur = At 1, il_nil = no_item\<rparr>"


lemma yesno_codes: "yesno_loop h w kb b = Got (r, kb1) \<Longrightarrow> b = 0 \<or> b = 1 \<Longrightarrow> r \<in> {0, 1, KEY_ESC, - ERRDISPLAYTOOSMALL}"
proof (induction h w kb b rule: yesno_loop.induct)
  case (1 h w kb b)
  show ?case
    using 1(4,5) 1(1-3) by (subst (asm) yesno_loop.simps) (auto split: option.splits prod.splits if_splits simp: Let_def)
qed

end
