(* ===== verification/KInputBox.thy ===== *)
theory KInputBox
  imports KDialog
begin

text \<open>
  The input line of the screen front end, \<open>buildroot/support/kconfig/lxdialog/inputbox.c\<close>: \<open>dialog_inputbox\<close> over the
  keys that are pressed, with the array \<open>dialog_input_result\<close> and the cells of the field on the screen. Every
  access to the array is checked. A byte takes one cell.
\<close>

definition INPUTBOX_HEIGTH_MIN :: int where "INPUTBOX_HEIGTH_MIN = 2"
definition INPUTBOX_WIDTH_MIN :: int where "INPUTBOX_WIDTH_MIN = 2"

section \<open>The array\<close>

definition get_char :: "string \<Rightarrow> int \<Rightarrow> char option" where
  "get_char t i = (if 0 \<le> i \<and> i < int (length t) then Some (t ! nat i) else None)"

definition put_char :: "string \<Rightarrow> int \<Rightarrow> char \<Rightarrow> string option" where
  "put_char t i c = (if 0 \<le> i \<and> i < int (length t) then Some (t[nat i := c]) else None)"

text \<open>The loops that move characters: each pair is an assignment \<open>instr[i] = instr[j]\<close>.\<close>

fun copy_chars :: "(int \<times> int) list \<Rightarrow> string \<Rightarrow> string option" where
  "copy_chars [] t = Some t"
| "copy_chars ((i, j) # ps) t =
     Option.bind (get_char t j) (\<lambda>c. Option.bind (put_char t i c) (\<lambda>t1. copy_chars ps t1))"

definition c_string :: "string \<Rightarrow> string" where "c_string t = takeWhile (\<lambda>c. c \<noteq> CHR 0x00) t"

definition c_strlen :: "string \<Rightarrow> int option" where
  "c_strlen t = (if CHR 0x00 \<in> set t then Some (int (length (c_string t))) else None)"

text \<open>\<open>strcpy\<close> into the array.\<close>

definition copy_init :: "string option \<Rightarrow> string \<Rightarrow> string option" where
  "copy_init init t =
     (let s = (case init of None \<Rightarrow> [] | Some s \<Rightarrow> s) in
      if length s < length t then Some (s @ CHR 0x00 # drop (length s + 1) t) else None)"

section \<open>The field\<close>

record input_box =
  ib_text :: string
  ib_len :: int
  ib_pos :: int
  ib_show :: int
  ib_inx :: int
  ib_button :: int
  ib_cells :: string

text \<open>The characters that are drawn from position \<open>i\<close> on, at most \<open>n\<close>; a blank is drawn for the end of the text.\<close>

fun show_line :: "nat \<Rightarrow> int \<Rightarrow> string \<Rightarrow> string option" where
  "show_line 0 i t = Some []"
| "show_line (Suc n) i t =
     (case get_char t i of
        None \<Rightarrow> None
      | Some c \<Rightarrow> if c = CHR 0x00 then Some '' '' else map_option ((#) c) (show_line n (i + 1) t))"

definition overlay :: "string \<Rightarrow> string \<Rightarrow> string" where "overlay s cells = s @ drop (length s) cells"

definition redraw :: "int \<Rightarrow> input_box \<Rightarrow> input_box option" where
  "redraw w b =
     map_option (\<lambda>s. b\<lparr>ib_cells := overlay s (ib_cells b)\<rparr>) (show_line (nat w) (ib_show b) (ib_text b))"

text \<open>What is set up at the label \<open>do_resize\<close>, in a field of \<open>w\<close> cells.\<close>

fun draw_chars :: "int list \<Rightarrow> string \<Rightarrow> string option" where
  "draw_chars [] t = Some []"
| "draw_chars (i # is) t = Option.bind (get_char t i) (\<lambda>c. map_option ((#) c) (draw_chars is t))"

definition input_open :: "int \<Rightarrow> input_box \<Rightarrow> input_box option" where
  "input_open w b =
     Option.bind (c_strlen (ib_text b)) (\<lambda>len.
       let blank = replicate (nat w) CHR '' ''; b1 = b\<lparr>ib_len := len, ib_pos := len\<rparr> in
       if w \<le> len
       then map_option (\<lambda>s. b1\<lparr>ib_show := len - w + 1, ib_inx := w - 1, ib_cells := overlay s blank\<rparr>)
              (draw_chars (map ((+) (len - w + 1)) (ints 0 (w - 1))) (ib_text b))
       else Some (b1\<lparr>ib_show := 0, ib_inx := len, ib_cells := overlay (c_string (ib_text b)) blank\<rparr>))"

section \<open>Keys\<close>

text \<open>\<open>isprint\<close> of the C locale, which for single bytes is that of a UTF-8 locale.\<close>

definition is_print :: "int \<Rightarrow> bool" where "is_print k \<longleftrightarrow> 32 \<le> k \<and> k < 127"

definition input_backspace :: "int \<Rightarrow> input_box \<Rightarrow> input_box option" where
  "input_backspace w b =
     (if ib_pos b = 0 then Some b
      else
        (let b1 = (if ib_inx b = 0 then b\<lparr>ib_show := ib_show b - 1\<rparr> else b\<lparr>ib_inx := ib_inx b - 1\<rparr>);
             moves = (if ib_pos b < ib_len b then map (\<lambda>i. (i, i + 1)) (ints (ib_pos b - 1) (ib_len b)) else [])
         in Option.bind (copy_chars moves (ib_text b)) (\<lambda>t1.
            Option.bind (put_char t1 (ib_len b - 1) CHR 0x00) (\<lambda>t2.
              redraw w (b1\<lparr>ib_text := t2, ib_pos := ib_pos b - 1, ib_len := ib_len b - 1\<rparr>)))))"

definition input_left :: "int \<Rightarrow> input_box \<Rightarrow> input_box option" where
  "input_left w b =
     (if 0 < ib_pos b
      then map_option (\<lambda>b1. b1\<lparr>ib_pos := ib_pos b - 1\<rparr>)
             (if 0 < ib_inx b then Some (b\<lparr>ib_inx := ib_inx b - 1\<rparr>)
              else if ib_inx b = 0 then redraw w (b\<lparr>ib_show := ib_show b - 1\<rparr>)
              else Some b)
      else Some b)"

definition input_right :: "int \<Rightarrow> input_box \<Rightarrow> input_box option" where
  "input_right w b =
     (if ib_pos b < ib_len b
      then map_option (\<lambda>b1. b1\<lparr>ib_pos := ib_pos b + 1\<rparr>)
             (if ib_inx b < w - 1 then Some (b\<lparr>ib_inx := ib_inx b + 1\<rparr>)
              else if ib_inx b = w - 1 then redraw w (b\<lparr>ib_show := ib_show b + 1\<rparr>)
              else Some b)
      else Some b)"

definition input_insert :: "int \<Rightarrow> int \<Rightarrow> input_box \<Rightarrow> input_box option" where
  "input_insert w key b =
     (if ib_len b < int MAX_LEN
      then
        (let moves = (if ib_pos b < ib_len b then map (\<lambda>i. (i, i - 1)) (rev (ints (ib_pos b + 1) (ib_len b + 1))) else []);
             at = (if ib_pos b < ib_len b then ib_pos b else ib_len b)
         in Option.bind (copy_chars moves (ib_text b)) (\<lambda>t1.
            Option.bind (put_char t1 at (char_of key)) (\<lambda>t2.
            Option.bind (put_char t2 (ib_len b + 1) CHR 0x00) (\<lambda>t3.
              redraw w
                (let b1 = b\<lparr>ib_text := t3, ib_pos := ib_pos b + 1, ib_len := ib_len b + 1\<rparr>
                 in if ib_inx b = w - 1 then b1\<lparr>ib_show := ib_show b + 1\<rparr> else b1\<lparr>ib_inx := ib_inx b + 1\<rparr>)))))
      else Some b)"

text \<open>What a key does to the field when the field has the focus; \<open>None\<close>: it is a key for the buttons.\<close>

definition input_edit :: "int \<Rightarrow> int \<Rightarrow> input_box \<Rightarrow> input_box option option" where
  "input_edit w key b =
     (if key = TAB \<or> key = KEY_UP \<or> key = KEY_DOWN then None
      else if key = KEY_BACKSPACE \<or> key = 127 then Some (input_backspace w b)
      else if key = KEY_LEFT then Some (input_left w b)
      else if key = KEY_RIGHT then Some (input_right w b)
      else if key < 256 \<and> is_print key then Some (input_insert w key b)
      else None)"

text \<open>The keys for the buttons: the field is \<open>-1\<close>, \<open>Ok\<close> is \<open>0\<close> and \<open>Help\<close> is \<open>1\<close>.\<close>

datatype button_step = To_button int | Result int | Look_escape | Sized

definition button_key :: "int \<Rightarrow> int \<Rightarrow> button_step" where
  "button_key key button =
     (if key = 79 \<or> key = 111 then Result 0
      else if key = 72 \<or> key = 104 then Result 1
      else if key = KEY_UP \<or> key = KEY_LEFT
      then To_button (if button = - 1 then 1 else if button = 0 then - 1 else if button = 1 then 0 else button)
      else if key = TAB \<or> key = KEY_DOWN \<or> key = KEY_RIGHT
      then To_button (if button = - 1 then 0 else if button = 0 then 1 else if button = 1 then - 1 else button)
      else if key = 32 \<or> key = 10 then Result (if button = - 1 then 0 else button)
      else if key = 88 \<or> key = 120 then Result KEY_ESC
      else if key = KEY_ESC then Look_escape
      else if key = KEY_RESIZE then Sized
      else To_button button)"

section \<open>The dialog\<close>

type_synonym input_result = "int \<times> string \<times> keyboard"

definition too_small :: "int \<Rightarrow> int \<Rightarrow> keyboard \<Rightarrow> bool" where
  "too_small height width kb \<longleftrightarrow>
     kb_height kb \<le> height - INPUTBOX_HEIGTH_MIN \<or> kb_width kb \<le> width - INPUTBOX_WIDTH_MIN"

function input_loop :: "int \<Rightarrow> int \<Rightarrow> keyboard \<Rightarrow> input_box \<Rightarrow> input_result dialog" where
  "input_loop height width kb b =
     (case wgetch kb of
        None \<Rightarrow> Waits
      | Some (key, kb1) \<Rightarrow>
          (case (if ib_button b = - 1 then input_edit (width - 6) key b else None) of
             Some None \<Rightarrow> Crash
           | Some (Some b1) \<Rightarrow> input_loop height width kb1 b1
           | None \<Rightarrow>
               (case button_key key (ib_button b) of
                  To_button n \<Rightarrow> input_loop height width kb1 (b\<lparr>ib_button := n\<rparr>)
                | Result r \<Rightarrow> Got (r, ib_text b, kb1)
                | Look_escape \<Rightarrow>
                    (let (k, kb2) = on_key_esc kb1 in
                     if k = KEY_ESC then Got (KEY_ESC, ib_text b, kb2) else input_loop height width kb2 b)
                | Sized \<Rightarrow>
                    if too_small height width kb1 then Got (- ERRDISPLAYTOOSMALL, ib_text b, kb1)
                    else (case input_open (width - 6) b of
                            None \<Rightarrow> Crash
                          | Some b1 \<Rightarrow> input_loop height width kb1 b1))))"
  by pat_completeness auto
termination
  by (relation "measure (\<lambda>(height, width, kb, b). length (kb_events kb))")
    (auto dest: wgetch_less on_key_esc_le wgetch_less [OF sym] on_key_esc_le [OF sym] intro: le_less_trans)

declare input_loop.simps [simp del]

definition dialog_inputbox :: "int \<Rightarrow> int \<Rightarrow> string option \<Rightarrow> string \<Rightarrow> keyboard \<Rightarrow> input_result dialog" where
  "dialog_inputbox height width init t kb =
     (case copy_init init t of
        None \<Rightarrow> Crash
      | Some t1 \<Rightarrow>
          if too_small height width kb then Got (- ERRDISPLAYTOOSMALL, t1, kb)
          else (case input_open (width - 6)
                  \<lparr>ib_text = t1, ib_len = 0, ib_pos = 0, ib_show = 0, ib_inx = 0, ib_button = - 1, ib_cells = []\<rparr> of
                  None \<Rightarrow> Crash
                | Some b \<Rightarrow> input_loop height width kb b))"

end
