(* ===== verification/KInputBoxFacts.thy ===== *)
theory KInputBoxFacts
  imports KInputBox
begin

text \<open>
  The input line is an editor of a text with a cursor: the array, its length and the two positions stand for the text
  before and the text behind the cursor, no access leaves the array, and the field on the screen always shows the
  text from its first visible character on.
\<close>

section \<open>The array\<close>

lemma get_char_at: "get_char (p @ c # r) (int (length p)) = Some c"
  by (simp add: get_char_def)

lemma put_char_at: "put_char (p @ c # r) (int (length p)) d = Some (p @ d # r)"
  by (simp add: put_char_def)

lemma put_char_after: "put_char (p @ c # q @ d # r) (int (length p) + 1 + int (length q)) e = Some (p @ c # q @ e # r)"
  using put_char_at [of "p @ c # q" d r e] by (simp add: algebra_simps)

text \<open>The characters from \<open>p\<close> on are moved one place to the left: the first of them is gone.\<close>

lemma copy_left:
  "copy_chars (map (\<lambda>i. (i, i + 1)) (ints (int (length p)) (int (length p) + int (length q)))) (p @ c # q @ r)
     = Some (p @ q @ (if q = [] then c else List.last q) # r)"
proof (induction q arbitrary: p c)
  case (Cons d q)
  have g: "get_char (p @ c # (d # q) @ r) (int (length p) + 1) = Some d"
    using get_char_at [of "p @ [c]" d "q @ r"] by (simp add: add.commute)
  have s: "put_char (p @ c # (d # q) @ r) (int (length p)) d = Some (p @ d # (d # q) @ r)"
    by (rule put_char_at)
  show ?case
    using Cons.IH [of "p @ [d]" d] g s
    by (subst ints_Cons) (auto simp: algebra_simps)
qed simp

text \<open>And one place to the right, over the character \<open>x\<close> behind them: the first of them is there twice.\<close>

lemma copy_right:
  "copy_chars (map (\<lambda>i. (i, i - 1)) (rev (ints (int (length p) + 1) (int (length p) + int (length q) + 1)))) (p @ q @ x # r)
     = Some (p @ (if q = [] then x else hd q) # q @ r)"
proof (induction q arbitrary: x r rule: rev_induct)
  case (snoc z q)
  let ?n = "int (length p) + int (length q) + 1"
  have g: "get_char (p @ (q @ [z]) @ x # r) (?n - 1) = Some z"
    using get_char_at [of "p @ q" z "x # r"] by simp
  have s: "put_char (p @ (q @ [z]) @ x # r) ?n z = Some (p @ q @ z # z # r)"
    using put_char_at [of "p @ q @ [z]" x r z] by (simp add: algebra_simps)
  have i: "ints (int (length p) + 1) (?n + 1) = ints (int (length p) + 1) ?n @ [?n]"
    by (rule ints_snoc) simp
  have "copy_chars (map (\<lambda>i. (i, i - 1)) (rev (ints (int (length p) + 1) (?n + 1)))) (p @ (q @ [z]) @ x # r) =
      copy_chars (map (\<lambda>i. (i, i - 1)) (rev (ints (int (length p) + 1) ?n))) (p @ q @ z # z # r)"
    unfolding i using g s by simp
  also have "\<dots> = Some (p @ (if q = [] then z else hd q) # q @ z # r)" by (rule snoc.IH)
  finally show ?case by (simp add: algebra_simps)
qed simp

lemma c_string_at: "CHR 0x00 \<notin> set s \<Longrightarrow> c_string (s @ CHR 0x00 # r) = s"
  by (induction s) (auto simp: c_string_def)

lemma c_strlen_at: "CHR 0x00 \<notin> set s \<Longrightarrow> c_strlen (s @ CHR 0x00 # r) = Some (int (length s))"
  by (simp add: c_strlen_def c_string_at)

section \<open>The field\<close>

lemma show_line_at:
  assumes "CHR 0x00 \<notin> set q"
  shows "show_line n (int (length p)) (p @ q @ CHR 0x00 # r) = Some (take n (q @ '' ''))"
  using assms
proof (induction n arbitrary: p q)
  case (Suc n)
  show ?case
  proof (cases q)
    case Nil
    thus ?thesis using get_char_at [of p "CHR 0x00" r] by simp
  next
    case (Cons c q1)
    have "show_line n (int (length (p @ [c]))) ((p @ [c]) @ q1 @ CHR 0x00 # r) = Some (take n (q1 @ '' ''))"
      by (rule Suc.IH) (use Suc.prems Cons in simp)
    thus ?thesis using get_char_at [of p c "q1 @ CHR 0x00 # r"] Suc.prems Cons
      by (auto simp: add.commute)
  qed
qed simp

lemma draw_chars_at:
  "draw_chars (map ((+) (int (length p))) (ints 0 (int (length q)))) (p @ q @ r) = Some q"
proof -
  have "draw_chars (ints (int (length p)) (int (length p) + int (length q))) (p @ q @ r) = Some q"
  proof (induction q arbitrary: p)
    case (Cons c q)
    show ?case using Cons.IH [of "p @ [c]"] get_char_at [of p c "q @ r"]
      by (subst ints_Cons) (auto simp: algebra_simps)
  qed simp
  moreover have "map ((+) a) (ints 0 n) = ints a (a + n)" for a n
    by (simp add: ints_def)
  ultimately show ?thesis by simp
qed

text \<open>What the cells of the field show: the text from \<open>i\<close> on, and blanks behind it.\<close>

definition field :: "int \<Rightarrow> int \<Rightarrow> string \<Rightarrow> string" where
  "field w i s = take (nat w) (drop (nat i) s @ replicate (nat w) CHR '' '')"

lemma length_field [simp]: "length (field w i s) = nat w"
  by (simp add: field_def)

lemma length_overlay: "length (overlay s cells) = max (length s) (length cells)"
  by (auto simp: overlay_def)

lemma field_blank: "j < nat w \<Longrightarrow> length (drop (nat i) s) \<le> j \<Longrightarrow> field w i s ! j = CHR '' ''"
  by (simp add: field_def nth_append less_diff_conv2)

text \<open>Drawing is enough when all cells behind the drawn ones are blank.\<close>

lemma overlay_field:
  assumes "length cells = nat w" "\<forall>j < nat w. length (drop (nat i) s) < j \<longrightarrow> cells ! j = CHR '' ''"
  shows "overlay (take (nat w) (drop (nat i) s @ '' '')) cells = field w i s"
proof (rule nth_equalityI)
  have n: "length (overlay (take (nat w) (drop (nat i) s @ '' '')) cells) = nat w"
    unfolding length_overlay length_take assms(1) by (rule max.absorb2) (rule min.cobounded2)
  show "length (overlay (take (nat w) (drop (nat i) s @ '' '')) cells) = length (field w i s)"
    by (simp only: n length_field)
  fix j
  assume "j < length (overlay (take (nat w) (drop (nat i) s @ '' '')) cells)"
  hence j: "j < nat w" by (simp only: n)
  let ?d = "drop (nat i) s" and ?l = "overlay (take (nat w) (drop (nat i) s @ '' '')) cells"
  consider "j < length ?d" | "j = length ?d" | "length ?d < j" by linarith
  thus "?l ! j = field w i s ! j"
  proof cases
    case 1
    thus ?thesis using j by (simp add: overlay_def field_def nth_append)
  next
    case 2
    have "take (nat w) (?d @ '' '') = ?d @ '' ''" using j 2 by simp
    hence "?l = ?d @ '' '' @ drop (length ?d + 1) cells" by (simp add: overlay_def)
    hence "?l ! j = CHR '' ''" using 2 by (simp only: nth_append_length append_Cons append_Nil)
    thus ?thesis using field_blank j 2 by simp
  next
    case 3
    have "take (nat w) (?d @ '' '') = ?d @ '' ''" using j 3 by simp
    hence "?l = (?d @ '' '') @ drop (length (?d @ '' '')) cells" by (simp add: overlay_def)
    hence "?l ! j = cells ! j" using 3 j assms(1) by (simp add: nth_append)
    thus ?thesis using field_blank [of j w i s] assms(2) j 3 by simp
  qed
qed

text \<open>After a step the visible part of the text is at most one character shorter.\<close>

lemma redraw_field:
  assumes "CHR 0x00 \<notin> set s" "ib_text b = s @ CHR 0x00 # r" "0 \<le> ib_show b" "nat (ib_show b) \<le> length s"
    and "ib_cells b = field w iold sold" "length sold - nat iold \<le> Suc (length s - nat (ib_show b))"
  shows "redraw w b = Some (b\<lparr>ib_cells := field w (ib_show b) s\<rparr>)"
proof -
  let ?p = "take (nat (ib_show b)) s" and ?q = "drop (nat (ib_show b)) s"
  have "show_line (nat w) (int (length ?p)) (?p @ ?q @ CHR 0x00 # r) = Some (take (nat w) (?q @ '' ''))"
    by (rule show_line_at) (use assms(1) in_set_dropD in fast)
  moreover have "int (length ?p) = ib_show b" using assms(3,4) by simp
  moreover have "?p @ ?q @ CHR 0x00 # r = ib_text b" using assms(2) by simp
  ultimately have l: "show_line (nat w) (ib_show b) (ib_text b) = Some (take (nat w) (?q @ '' ''))" by simp
  have "overlay (take (nat w) (?q @ '' '')) (ib_cells b) = field w (ib_show b) s"
    by (rule overlay_field) (use assms(5,6) in \<open>auto intro!: field_blank\<close>)
  thus ?thesis by (simp add: redraw_def l)
qed

section \<open>The text and its cursor\<close>

text \<open>The abstract editor: the text before and behind the cursor, and the button with the focus.\<close>

record editor =
  ed_before :: string
  ed_after :: string
  ed_button :: int

definition ed_text :: "editor \<Rightarrow> string" where "ed_text e = ed_before e @ ed_after e"

definition edit_key :: "int \<Rightarrow> editor \<Rightarrow> editor option" where
  "edit_key key e =
     (if key = TAB \<or> key = KEY_UP \<or> key = KEY_DOWN then None
      else if key = KEY_BACKSPACE \<or> key = 127 then Some (e\<lparr>ed_before := butlast (ed_before e)\<rparr>)
      else if key = KEY_LEFT
      then Some (if ed_before e = [] then e
                 else e\<lparr>ed_before := butlast (ed_before e), ed_after := List.last (ed_before e) # ed_after e\<rparr>)
      else if key = KEY_RIGHT
      then Some (case ed_after e of [] \<Rightarrow> e | c # s \<Rightarrow> e\<lparr>ed_before := ed_before e @ [c], ed_after := s\<rparr>)
      else if key < 256 \<and> is_print key
      then Some (if length (ed_text e) < MAX_LEN then e\<lparr>ed_before := ed_before e @ [char_of key]\<rparr> else e)
      else None)"

text \<open>How the variables of \<open>dialog_inputbox\<close> stand for it, in a field of \<open>w\<close> cells.\<close>

definition edits :: "int \<Rightarrow> input_box \<Rightarrow> editor \<Rightarrow> bool" where
  "edits w b e \<longleftrightarrow>
     (\<exists>r. ib_text b = ed_text e @ CHR 0x00 # r) \<and> length (ib_text b) = MAX_LEN + 1 \<and> CHR 0x00 \<notin> set (ed_text e) \<and>
     ib_len b = int (length (ed_text e)) \<and> ib_pos b = int (length (ed_before e)) \<and>
     ib_pos b = ib_show b + ib_inx b \<and> 0 \<le> ib_show b \<and> 0 \<le> ib_inx b \<and> ib_inx b < w \<and>
     ib_cells b = field w (ib_show b) (ed_text e) \<and> ib_button b = ed_button e"

lemma edits_redraw:
  assumes "ib_text b = ed_text e @ CHR 0x00 # r" "length (ib_text b) = MAX_LEN + 1" "CHR 0x00 \<notin> set (ed_text e)"
    and "ib_len b = int (length (ed_text e))" "ib_pos b = int (length (ed_before e))"
    and "ib_pos b = ib_show b + ib_inx b" "0 \<le> ib_show b" "0 \<le> ib_inx b" "ib_inx b < w" "ib_button b = ed_button e"
    and "ib_cells b = field w iold sold" "length sold - nat iold \<le> Suc (length (ed_text e) - nat (ib_show b))"
  shows "\<exists>b1. redraw w b = Some b1 \<and> edits w b1 e \<and> b1 = b\<lparr>ib_cells := field w (ib_show b) (ed_text e)\<rparr>"
proof -
  have "nat (ib_show b) \<le> length (ed_text e)" using assms(5-8) by (simp add: ed_text_def)
  from redraw_field [OF assms(3,1,7) this assms(11,12)] show ?thesis
    using assms by (auto simp: edits_def)
qed

text \<open>A step: no access outside, and the new variables stand for the new text.\<close>

definition edited :: "int \<Rightarrow> input_box option \<Rightarrow> editor \<Rightarrow> bool" where
  "edited w q e \<longleftrightarrow> (\<exists>b. q = Some b \<and> edits w b e)"

lemma input_backspace_ok:
  assumes e: "edits w b e"
  shows "edited w (input_backspace w b) (e\<lparr>ed_before := butlast (ed_before e)\<rparr>)"
proof (cases "ed_before e" rule: rev_cases)
  case Nil
  hence eq: "e\<lparr>ed_before := butlast (ed_before e)\<rparr> = e" by (cases e) simp
  show ?thesis unfolding eq using e Nil by (simp add: edited_def input_backspace_def edits_def)
next
  case (snoc p c)
  let ?q = "ed_after e" and ?e = "e\<lparr>ed_before := p\<rparr>"
  obtain r where t: "ib_text b = p @ c # ?q @ CHR 0x00 # r"
    and l: "ib_pos b = int (length p) + 1" "ib_len b = int (length p) + 1 + int (length ?q)"
    using e snoc by (auto simp: edits_def ed_text_def)
  define moves where
    "moves = (if ib_pos b < ib_len b then map (\<lambda>i. (i, i + 1)) (ints (ib_pos b - 1) (ib_len b)) else [])"
  obtain t1 where t1: "copy_chars moves (ib_text b) = Some t1" "put_char t1 (ib_len b - 1) CHR 0x00 = Some (p @ ?q @ CHR 0x00 # CHR 0x00 # r)"
  proof (cases "?q = []")
    case True
    hence "copy_chars moves (ib_text b) = Some (ib_text b)" by (simp add: moves_def l)
    moreover have "put_char (ib_text b) (ib_len b - 1) CHR 0x00 = Some (p @ ?q @ CHR 0x00 # CHR 0x00 # r)"
      using put_char_at [of p c "CHR 0x00 # r"] True by (simp add: t l)
    ultimately show ?thesis by (rule that)
  next
    case False
    have "copy_chars moves (ib_text b) = Some (p @ ?q @ CHR 0x00 # CHR 0x00 # r)"
      using copy_left [of p "?q @ [CHR 0x00]" c r] False by (simp add: moves_def l t algebra_simps)
    moreover have "put_char (p @ ?q @ CHR 0x00 # CHR 0x00 # r) (ib_len b - 1) CHR 0x00 = Some (p @ ?q @ CHR 0x00 # CHR 0x00 # r)"
      using put_char_at [of "p @ ?q" "CHR 0x00" "CHR 0x00 # r" "CHR 0x00"] by (simp add: l)
    ultimately show ?thesis by (rule that)
  qed
  define b1 where "b1 = (if ib_inx b = 0 then b\<lparr>ib_show := ib_show b - 1\<rparr> else b\<lparr>ib_inx := ib_inx b - 1\<rparr>)"
  let ?b = "b1\<lparr>ib_text := p @ ?q @ CHR 0x00 # CHR 0x00 # r, ib_pos := ib_pos b - 1, ib_len := ib_len b - 1\<rparr>"
  have "\<exists>b2. redraw w ?b = Some b2 \<and> edits w b2 ?e \<and> b2 = ?b\<lparr>ib_cells := field w (ib_show ?b) (ed_text ?e)\<rparr>"
    by (rule edits_redraw [where iold = "ib_show b" and sold = "ed_text e"])
      (use e t l snoc in \<open>auto simp: b1_def edits_def ed_text_def\<close>)
  moreover have "input_backspace w b = redraw w ?b"
    unfolding input_backspace_def Let_def moves_def [symmetric] b1_def [symmetric] using t1 l(1) by simp
  ultimately show ?thesis using snoc by (auto simp: edited_def)
qed

lemma input_left_ok:
  assumes e: "edits w b e"
  shows "edited w (input_left w b) (if ed_before e = [] then e
    else e\<lparr>ed_before := butlast (ed_before e), ed_after := List.last (ed_before e) # ed_after e\<rparr>)"
proof (cases "ed_before e" rule: rev_cases)
  case Nil
  thus ?thesis using e by (simp add: edited_def input_left_def edits_def)
next
  case (snoc p c)
  let ?e = "e\<lparr>ed_before := p, ed_after := c # ed_after e\<rparr>"
  have te: "ed_text ?e = ed_text e" using snoc by (simp add: ed_text_def)
  have l: "ib_pos b = int (length p) + 1" using e snoc by (simp add: edits_def)
  show ?thesis
  proof (cases "ib_inx b = 0")
    case False
    have "edits w (b\<lparr>ib_inx := ib_inx b - 1, ib_pos := ib_pos b - 1\<rparr>) ?e"
      using e False l by (auto simp: edits_def te simp del: ed_text_def)
    thus ?thesis using False e l snoc by (auto simp: edited_def input_left_def edits_def)
  next
    case True
    let ?b = "b\<lparr>ib_show := ib_show b - 1\<rparr>"
    have r: "redraw w ?b = Some (?b\<lparr>ib_cells := field w (ib_show ?b) (ed_text e)\<rparr>)"
    proof -
      obtain r where "ib_text ?b = ed_text e @ CHR 0x00 # r" using e by (auto simp: edits_def)
      thus ?thesis
        by (rule redraw_field [rotated, where iold = "ib_show b" and sold = "ed_text e"])
          (use e True l in \<open>auto simp: edits_def ed_text_def\<close>)
    qed
    have "edits w (b\<lparr>ib_show := ib_show b - 1, ib_cells := field w (ib_show b - 1) (ed_text e), ib_pos := ib_pos b - 1\<rparr>) ?e"
      using e True l by (auto simp: edits_def te)
    thus ?thesis using True l snoc r by (auto simp: edited_def input_left_def)
  qed
qed

lemma input_right_ok:
  assumes e: "edits w b e"
  shows "edited w (input_right w b)
    (case ed_after e of [] \<Rightarrow> e | c # s \<Rightarrow> e\<lparr>ed_before := ed_before e @ [c], ed_after := s\<rparr>)"
proof (cases "ed_after e")
  case Nil
  thus ?thesis using e by (simp add: edited_def input_right_def edits_def ed_text_def)
next
  case (Cons c s)
  let ?e = "e\<lparr>ed_before := ed_before e @ [c], ed_after := s\<rparr>"
  have te: "ed_text ?e = ed_text e" using Cons by (simp add: ed_text_def)
  have l: "ib_pos b < ib_len b" using e Cons by (simp add: edits_def ed_text_def)
  show ?thesis
  proof (cases "ib_inx b = w - 1")
    case False
    have "edits w (b\<lparr>ib_inx := ib_inx b + 1, ib_pos := ib_pos b + 1\<rparr>) ?e"
      using e False by (auto simp: edits_def te)
    thus ?thesis using False e l Cons by (auto simp: edited_def input_right_def edits_def)
  next
    case True
    let ?b = "b\<lparr>ib_show := ib_show b + 1\<rparr>"
    have r: "redraw w ?b = Some (?b\<lparr>ib_cells := field w (ib_show ?b) (ed_text e)\<rparr>)"
    proof -
      obtain r where "ib_text ?b = ed_text e @ CHR 0x00 # r" using e by (auto simp: edits_def)
      thus ?thesis
        by (rule redraw_field [rotated, where iold = "ib_show b" and sold = "ed_text e"])
          (use e True Cons in \<open>auto simp: edits_def ed_text_def\<close>)
    qed
    have "edits w (b\<lparr>ib_show := ib_show b + 1, ib_cells := field w (ib_show b + 1) (ed_text e), ib_pos := ib_pos b + 1\<rparr>) ?e"
      using e True by (auto simp: edits_def te)
    thus ?thesis using True l Cons r by (auto simp: edited_def input_right_def)
  qed
qed

lemma print_char: "is_print key \<Longrightarrow> (char_of key :: char) \<noteq> CHR 0x00"
proof
  assume p: "is_print key" and "(char_of key :: char) = CHR 0x00"
  hence "(of_char (char_of key :: char) :: int) = 0" by simp
  thus False using p by (simp add: is_print_def)
qed

lemma input_insert_ok:
  assumes e: "edits w b e" and key: "is_print key"
  shows "edited w (input_insert w key b)
    (if length (ed_text e) < MAX_LEN then e\<lparr>ed_before := ed_before e @ [char_of key]\<rparr> else e)"
proof (cases "length (ed_text e) < MAX_LEN")
  case False
  thus ?thesis using e by (simp add: edited_def input_insert_def edits_def)
next
  case True
  let ?p = "ed_before e" and ?q = "ed_after e" and ?c = "char_of key :: char"
  obtain r where t: "ib_text b = ?p @ ?q @ CHR 0x00 # r" and n: "length (ib_text b) = MAX_LEN + 1"
    and l: "ib_pos b = int (length ?p)" "ib_len b = int (length ?p) + int (length ?q)"
    using e by (auto simp: edits_def ed_text_def)
  obtain x r1 where r: "r = x # r1" using t n True by (cases r) (auto simp: ed_text_def)
  define moves where "moves = (if ib_pos b < ib_len b
    then map (\<lambda>i. (i, i - 1)) (rev (ints (ib_pos b + 1) (ib_len b + 1))) else [])"
  define at where "at = (if ib_pos b < ib_len b then ib_pos b else ib_len b)"
  have "at = int (length ?p)" by (auto simp: at_def l)
  moreover have "\<exists>y. copy_chars moves (ib_text b) = Some (?p @ y # ?q @ r)"
    using copy_right [of ?p ?q "CHR 0x00" r] by (cases "?q = []") (auto simp: moves_def t l)
  ultimately obtain t1 where t1: "copy_chars moves (ib_text b) = Some t1" "put_char t1 at ?c = Some (?p @ ?c # ?q @ r)"
    using put_char_at [of ?p] by blast
  have t3: "put_char (?p @ ?c # ?q @ r) (ib_len b + 1) CHR 0x00 = Some (?p @ ?c # ?q @ CHR 0x00 # r1)"
    using put_char_after [of ?p ?c ?q x r1 "CHR 0x00"] by (simp add: l r algebra_simps)
  let ?e = "e\<lparr>ed_before := ?p @ [?c]\<rparr>"
  define b1 where "b1 = b\<lparr>ib_text := ?p @ ?c # ?q @ CHR 0x00 # r1, ib_pos := ib_pos b + 1, ib_len := ib_len b + 1\<rparr>"
  define b2 where "b2 = (if ib_inx b = w - 1 then b1\<lparr>ib_show := ib_show b + 1\<rparr> else b1\<lparr>ib_inx := ib_inx b + 1\<rparr>)"
  have "\<exists>b3. redraw w b2 = Some b3 \<and> edits w b3 ?e \<and> b3 = b2\<lparr>ib_cells := field w (ib_show b2) (ed_text ?e)\<rparr>"
    by (rule edits_redraw [where iold = "ib_show b" and sold = "ed_text e"])
      (use e t l n r print_char [OF key] in \<open>auto simp: b1_def b2_def edits_def ed_text_def\<close>)
  moreover have "ib_len b < int MAX_LEN" using True l by (simp add: ed_text_def)
  hence "input_insert w key b = redraw w b2"
    using t1 t3 by (simp add: input_insert_def Let_def moves_def [symmetric] at_def [symmetric] b1_def [symmetric] b2_def)
  ultimately show ?thesis using True by (auto simp: edited_def)
qed

lemma input_edit_ok:
  assumes "edits w b e"
  shows "case edit_key key e of None \<Rightarrow> input_edit w key b = None
    | Some e1 \<Rightarrow> (\<exists>b1. input_edit w key b = Some (Some b1) \<and> edits w b1 e1)"
  using input_backspace_ok [OF assms] input_left_ok [OF assms] input_right_ok [OF assms] input_insert_ok [OF assms]
  unfolding edited_def edit_key_def input_edit_def by simp

text \<open>Opening puts the cursor behind the text.\<close>

lemma input_open_ok:
  assumes t: "ib_text b = s @ CHR 0x00 # r" and n: "length (ib_text b) = MAX_LEN + 1" and z: "CHR 0x00 \<notin> set s"
    and w: "1 \<le> w"
  shows "edited w (input_open w b) \<lparr>ed_before = s, ed_after = [], ed_button = ib_button b\<rparr>"
proof (cases "w \<le> int (length s)")
  case False
  hence "overlay s (replicate (nat w) CHR '' '') = field w 0 s"
    using w by (simp add: overlay_def field_def min_def)
  thus ?thesis
    using False t n z w by (simp add: edited_def input_open_def c_strlen_at c_string_at edits_def ed_text_def Let_def)
next
  case True
  let ?k = "nat (int (length s) - w + 1)"
  let ?p = "take ?k s" and ?q = "drop ?k s"
  have k: "int (length ?p) = int (length s) - w + 1" "int (length ?q) = w - 1" using True w by auto
  have d: "draw_chars (map ((+) (int (length s) - w + 1)) (ints 0 (w - 1))) (ib_text b) = Some ?q"
    using draw_chars_at [of ?p ?q "CHR 0x00 # r"] unfolding k by (simp add: t flip: append_assoc)
  have "overlay ?q (replicate (nat w) CHR '' '') = field w (int (length s) - w + 1) s"
    using k(2) w by (simp add: overlay_def field_def take_replicate)
  thus ?thesis
    using True t n z w d by (simp add: edited_def input_open_def c_strlen_at edits_def ed_text_def Let_def)
qed

section \<open>The dialog\<close>

text \<open>The same dialog on the abstract editor: when the screen gets a new size the cursor goes behind the text.\<close>

function edit_loop :: "int \<Rightarrow> int \<Rightarrow> keyboard \<Rightarrow> editor \<Rightarrow> input_result dialog" where
  "edit_loop height width kb e =
     (case wgetch kb of
        None \<Rightarrow> Waits
      | Some (key, kb1) \<Rightarrow>
          (case (if ed_button e = - 1 then edit_key key e else None) of
             Some e1 \<Rightarrow> edit_loop height width kb1 e1
           | None \<Rightarrow>
               (case button_key key (ed_button e) of
                  To_button n \<Rightarrow> edit_loop height width kb1 (e\<lparr>ed_button := n\<rparr>)
                | Result r \<Rightarrow> Got (r, ed_text e, kb1)
                | Look_escape \<Rightarrow>
                    (let (k, kb2) = on_key_esc kb1 in
                     if k = KEY_ESC then Got (KEY_ESC, ed_text e, kb2) else edit_loop height width kb2 e)
                | Sized \<Rightarrow>
                    if too_small height width kb1 then Got (- ERRDISPLAYTOOSMALL, ed_text e, kb1)
                    else edit_loop height width kb1 (e\<lparr>ed_before := ed_text e, ed_after := []\<rparr>))))"
  by pat_completeness auto
termination
  by (relation "measure (\<lambda>(height, width, kb, e). length (kb_events kb))")
    (auto dest: wgetch_less on_key_esc_le wgetch_less [OF sym] on_key_esc_le [OF sym] intro: le_less_trans)

declare edit_loop.simps [simp del]

definition edit_dialog :: "int \<Rightarrow> int \<Rightarrow> string \<Rightarrow> keyboard \<Rightarrow> input_result dialog" where
  "edit_dialog height width s kb =
     (if too_small height width kb then Got (- ERRDISPLAYTOOSMALL, s, kb)
      else edit_loop height width kb \<lparr>ed_before = s, ed_after = [], ed_button = - 1\<rparr>)"

definition as_text :: "input_result \<Rightarrow> input_result" where "as_text = (\<lambda>(r, t, kb). (r, c_string t, kb))"

lemma edits_text: "edits w b e \<Longrightarrow> c_string (ib_text b) = ed_text e"
  by (auto simp: edits_def c_string_at)

lemma edits_button: "edits w b e \<Longrightarrow> ib_button b = ed_button e" "edits w b e \<Longrightarrow> edits w (b\<lparr>ib_button := n\<rparr>) (e\<lparr>ed_button := n\<rparr>)"
  by (auto simp: edits_def ed_text_def)

lemma edits_sized:
  assumes "edits w b e"
  shows "edited w (input_open w b) (e\<lparr>ed_before := ed_text e, ed_after := []\<rparr>)"
proof -
  obtain r where "ib_text b = ed_text e @ CHR 0x00 # r" using assms by (auto simp: edits_def)
  moreover have eq: "e\<lparr>ed_before := ed_text e, ed_after := []\<rparr> = \<lparr>ed_before = ed_text e, ed_after = [], ed_button = ib_button b\<rparr>"
    using assms by (cases e) (simp add: edits_def)
  ultimately show ?thesis unfolding eq using input_open_ok [of b "ed_text e" r w] assms by (simp add: edits_def)
qed

lemma input_loop_refines:
  "edits (width - 6) b e \<Longrightarrow> map_dialog as_text (input_loop height width kb b) = edit_loop height width kb e"
proof (induction height width kb e arbitrary: b rule: edit_loop.induct)
  case (1 height width kb e)
  show ?case
  proof (cases "wgetch kb")
    case None
    thus ?thesis by (subst input_loop.simps, subst edit_loop.simps) simp
  next
    case (Some q)
    obtain key kb1 where q: "q = (key, kb1)" by fastforce
    note w = Some [unfolded q] and bt = edits_button(1) [OF 1(5)] and tx = edits_text [OF 1(5)]
    show ?thesis
    proof (cases "if ed_button e = - 1 then edit_key key e else None")
      case s: (Some e1)
      then obtain b1 where b1: "input_edit (width - 6) key b = Some (Some b1)" "edits (width - 6) b1 e1"
        using input_edit_ok [OF 1(5), of key] by (auto split: if_splits)
      have f: "ed_button e = - 1" "edit_key key e = Some e1" using s by (auto split: if_splits)
      show ?thesis
        using 1(4) [OF w refl s b1(2)] by (subst input_loop.simps, subst edit_loop.simps) (simp add: w bt f b1)
    next
      case n: None
      hence f: "(if ed_button e = - 1 then input_edit (width - 6) key b else None) = None"
        using input_edit_ok [OF 1(5), of key] bt by (auto split: if_splits)
      show ?thesis
      proof (cases "button_key key (ed_button e)")
        case (To_button m)
        from 1(1) [OF w refl n this edits_button(2) [OF 1(5)]] show ?thesis
          by (subst input_loop.simps, subst edit_loop.simps) (simp only: w option.case prod.case f n bt To_button button_step.case)
      next
        case (Result r)
        show ?thesis
          by (subst input_loop.simps, subst edit_loop.simps)
            (simp only: w option.case prod.case f n bt Result button_step.case dialog.map as_text_def tx)
      next
        case Look_escape
        obtain k kb2 where k: "on_key_esc kb1 = (k, kb2)" by fastforce
        from 1(2) [OF w refl n Look_escape k [symmetric] refl _ 1(5)] show ?thesis
          by (subst input_loop.simps, subst edit_loop.simps)
            (simp add: w f n bt Look_escape k as_text_def tx del: if_split_asm)
      next
        case Sized
        obtain b1 where "input_open (width - 6) b = Some b1"
          "edits (width - 6) b1 (e\<lparr>ed_before := ed_text e, ed_after := []\<rparr>)"
          using edits_sized [OF 1(5)] by (auto simp: edited_def)
        with 1(3) [OF w refl n Sized] show ?thesis
          by (subst input_loop.simps, subst edit_loop.simps) (simp add: w f n bt Sized as_text_def tx)
      qed
    qed
  qed
qed



text \<open>What the editor makes of these keys: \<open>y\<close>, \<open>z\<close> behind it, and \<open>q\<close> between them.\<close>

lemma edit_dialog_example:
  "edit_dialog 10 75 ''y'' \<lparr>kb_events = [Press 122, Press KEY_LEFT, Press 113, Press 10], kb_height = 24, kb_width = 80\<rparr>
     = Got (0, ''yqz'', \<lparr>kb_events = [], kb_height = 24, kb_width = 80\<rparr>)"
  by code_simp

text \<open>The editor never fails, so neither does the input line.\<close>

lemma edit_loop_never_fails: "edit_loop height width kb e \<noteq> Crash"
proof (induction height width kb e rule: edit_loop.induct)
  case (1 height width kb e)
  show ?case
    by (subst edit_loop.simps) (use 1 in \<open>auto split: option.split prod.split button_step.split simp: Let_def\<close>)
qed

end
