(* ===== verification/KTextBox.thy ===== *)
theory KTextBox
  imports KDialog
begin

text \<open>
  The box with a text of the screen front end, \<open>buildroot/support/kconfig/lxdialog/textbox.c\<close>, over the keys that are
  pressed, with the lines it shows. The text is a C string: its end is the null byte. The callback that fills in the
  text of a page is a parameter with a state \<open>'d\<close> of its own.
\<close>

definition TEXTBOX_HEIGTH_MIN :: int where "TEXTBOX_HEIGTH_MIN = 8"
definition TEXTBOX_WIDTH_MIN :: int where "TEXTBOX_WIDTH_MIN = 8"

abbreviation nl_char :: char where "nl_char \<equiv> CHR 0x0A"

text \<open>A text of lines that each end with a newline.\<close>

definition join_lines :: "string list \<Rightarrow> string" where "join_lines L = concat (map (\<lambda>l. l @ [nl_char]) L)"

text \<open>The static variables of the file: \<open>page\<close> is an offset in \<open>buf\<close>.\<close>

record text_box =
  tb_buf :: string
  tb_page :: nat
  tb_begin :: bool
  tb_end :: bool
  tb_length :: int
  tb_hscroll :: int
  tb_shown :: "string list"

type_synonym 'd update_text = "(string \<Rightarrow> nat \<Rightarrow> nat \<Rightarrow> 'd \<Rightarrow> string \<times> 'd) option"

section \<open>Lines\<close>

text \<open>
  \<open>get_line\<close>: the characters up to the end of the line or of the text, of which \<open>MAX_LEN\<close> are kept; \<open>i\<close> is the number
  of characters so far. The result is the line, the number of characters passed, and whether the text ended.
\<close>

fun line_chars :: "string \<Rightarrow> nat \<Rightarrow> string \<times> nat \<times> bool" where
  "line_chars [] i = ([], 0, True)"
| "line_chars (c # s) i =
     (if c = nl_char then ([], 0, False)
      else (let (l, n, e) = line_chars s (if i \<le> MAX_LEN then i + 1 else i)
            in (if i < MAX_LEN then c # l else l, n + 1, e)))"

definition get_line :: "text_box \<Rightarrow> string \<times> text_box" where
  "get_line b =
     (let (l, n, e) = line_chars (drop (tb_page b) (tb_buf b)) 0
      in (l, b\<lparr>tb_end := e, tb_page := tb_page b + n + (if e then 0 else 1)\<rparr>))"

text \<open>The inner loop of \<open>back_lines\<close>, from a page that was moved back by one: the beginning of the text is \<open>True\<close>.\<close>

fun back_scan :: "string \<Rightarrow> nat \<Rightarrow> nat \<times> bool" where
  "back_scan buf 0 = (0, True)"
| "back_scan buf (Suc p) = (if buf ! p = nl_char then (Suc p, False) else back_scan buf p)"

fun back_loop :: "nat \<Rightarrow> text_box \<Rightarrow> text_box" where
  "back_loop 0 b = b"
| "back_loop (Suc n) b =
     (if tb_page b = length (tb_buf b) \<and> tb_end b then back_loop n (b\<lparr>tb_end := False\<rparr>)
      else if tb_page b = 0 then b\<lparr>tb_begin := True\<rparr>
      else (case back_scan (tb_buf b) (tb_page b - 1) of
              (p, True) \<Rightarrow> b\<lparr>tb_page := p, tb_begin := True\<rparr>
            | (p, False) \<Rightarrow> back_loop n (b\<lparr>tb_page := p\<rparr>)))"

definition back_lines :: "int \<Rightarrow> text_box \<Rightarrow> text_box" where
  "back_lines n b = back_loop (nat n) (b\<lparr>tb_begin := False\<rparr>)"

section \<open>A page\<close>

fun skip_lines :: "nat \<Rightarrow> text_box \<Rightarrow> text_box" where
  "skip_lines 0 b = b"
| "skip_lines (Suc n) b = skip_lines n (snd (get_line b))"

text \<open>
  \<open>print_line\<close>: what is left of a line after scrolling; its length and the width are compared as unsigned numbers, so
  that a width below 2 cuts nothing off.
\<close>

definition shown_line :: "int \<Rightarrow> int \<Rightarrow> string \<Rightarrow> string" where
  "shown_line hscroll width l =
     (let l1 = drop (nat hscroll) l in if width < 2 then l1 else take (nat (width - 2)) l1)"

fun print_lines :: "nat \<Rightarrow> bool \<Rightarrow> int \<Rightarrow> text_box \<Rightarrow> text_box" where
  "print_lines 0 passed_end width b = b"
| "print_lines (Suc n) passed_end width b =
     (let (l, b1) = get_line b
      in print_lines n (passed_end \<or> tb_end b1) width
           (b1\<lparr>tb_shown := tb_shown b1 @ [shown_line (tb_hscroll b1) width l],
               tb_length := (if passed_end then tb_length b1 else tb_length b1 + 1)\<rparr>))"

definition print_page :: "int \<Rightarrow> int \<Rightarrow> 'd update_text \<Rightarrow> 'd \<Rightarrow> text_box \<Rightarrow> text_box \<times> 'd" where
  "print_page height width update d b =
     (let (b2, d2) =
        (case update of
           None \<Rightarrow> (b, d)
         | Some u \<Rightarrow>
             (let b1 = skip_lines (nat height) b; b2 = back_lines height b1;
                  (buf, d1) = u (tb_buf b2) (tb_page b2) (tb_page b1) d
              in (b2\<lparr>tb_buf := buf\<rparr>, d1)))
      in (print_lines (nat height) False width (b2\<lparr>tb_length := 0, tb_shown := []\<rparr>), d2))"

text \<open>\<open>refresh_text_box\<close>: the position is a percentage of the length of the text, \<open>None\<close> for an empty one.\<close>

definition text_position :: "text_box \<Rightarrow> nat option" where
  "text_position b = (if tb_buf b = [] then None else Some (tb_page b * 100 div length (tb_buf b)))"

definition refresh_text_box :: "int \<Rightarrow> int \<Rightarrow> 'd update_text \<Rightarrow> 'd \<Rightarrow> text_box \<Rightarrow> (text_box \<times> 'd) option" where
  "refresh_text_box boxh boxw update d b =
     (let (b1, d1) = print_page boxh boxw update d b in map_option (\<lambda>_. (b1, d1)) (text_position b1))"

section \<open>Keys\<close>

datatype text_step = Rest | Fresh text_box | Finished | Look_for_esc | Size_change | Other_key

definition text_key :: "int \<Rightarrow> int \<Rightarrow> text_box \<Rightarrow> text_step" where
  "text_key boxh key b =
     (if key \<in> {69, 101, 88, 120, 113, 10} then Finished
      else if key = 103 \<or> key = KEY_HOME
      then (if tb_begin b then Rest else Fresh (b\<lparr>tb_begin := True, tb_page := 0\<rparr>))
      else if key = 71 \<or> key = KEY_END
      then Fresh (back_lines boxh (b\<lparr>tb_end := True, tb_page := length (tb_buf b)\<rparr>))
      else if key \<in> {75, 107, KEY_UP}
      then (if tb_begin b then Rest else Fresh (back_lines (tb_length b + 1) b))
      else if key \<in> {66, 98, 117, KEY_PPAGE}
      then (if tb_begin b then Rest else Fresh (back_lines (tb_length b + boxh) b))
      else if key \<in> {74, 106, KEY_DOWN}
      then (if tb_end b then Rest else Fresh (back_lines (tb_length b - 1) b))
      else if key \<in> {KEY_NPAGE, 32, 100}
      then (if tb_end b then Rest else Fresh (b\<lparr>tb_begin := False\<rparr>))
      else if key \<in> {48, 72, 104, KEY_LEFT}
      then (if tb_hscroll b \<le> 0 then Rest
            else Fresh (back_lines (tb_length b) (b\<lparr>tb_hscroll := (if key = 48 then 0 else tb_hscroll b - 1)\<rparr>)))
      else if key \<in> {76, 108, KEY_RIGHT}
      then (if int MAX_LEN \<le> tb_hscroll b then Rest
            else Fresh (back_lines (tb_length b) (b\<lparr>tb_hscroll := tb_hscroll b + 1\<rparr>)))
      else if key = KEY_ESC then Look_for_esc
      else if key = KEY_RESIZE then Size_change
      else Other_key)"

section \<open>The dialog\<close>

text \<open>The size of the box in the present screen, given the sizes that were asked for (\<open>0\<close>: as large as possible).\<close>

definition text_size :: "int \<Rightarrow> int \<Rightarrow> keyboard \<Rightarrow> (int \<times> int) option" where
  "text_size initial_height initial_width kb =
     (if kb_height kb < TEXTBOX_HEIGTH_MIN \<or> kb_width kb < TEXTBOX_WIDTH_MIN then None
      else Some (if initial_height \<noteq> 0 then initial_height else if 4 < kb_height kb then kb_height kb - 4 else 0,
                 if initial_width \<noteq> 0 then initial_width else if 5 < kb_width kb then kb_width kb - 5 else 0))"

text \<open>What the loop works with: the sizes asked for, the callback and the keys that end the box.\<close>

record 'd text_conf =
  tc_height :: int
  tc_width :: int
  tc_update :: "'d update_text"
  tc_keys :: "'d \<Rightarrow> int list"

function text_loop :: "'d text_conf \<Rightarrow> int \<Rightarrow> int \<Rightarrow> keyboard \<Rightarrow> 'd \<Rightarrow> text_box \<Rightarrow> ((int \<times> bool) \<times> text_box \<times> 'd \<times> keyboard) dialog" where
  "text_loop C height width kb d b =
     (case wgetch kb of
        None \<Rightarrow> Waits
      | Some (key, kb1) \<Rightarrow>
          (case text_key (height - 4) key b of
             Rest \<Rightarrow> text_loop C height width kb1 d b
           | Fresh b1 \<Rightarrow>
               (case refresh_text_box (height - 4) (width - 2) (tc_update C) d b1 of
                  None \<Rightarrow> Crash
                | Some (b2, d2) \<Rightarrow> text_loop C height width kb1 d2 b2)
           | Finished \<Rightarrow> Got ((key, True), b, d, kb1)
           | Look_for_esc \<Rightarrow>
               (let (k, kb2) = on_key_esc kb1 in
                if k = KEY_ESC then Got ((key, True), b, d, kb2) else text_loop C height width kb2 d b)
           | Size_change \<Rightarrow>
               (let b1 = back_lines height b in
                case text_size (tc_height C) (tc_width C) kb1 of
                  None \<Rightarrow> Got ((- ERRDISPLAYTOOSMALL, False), b1, d, kb1)
                | Some (h, w) \<Rightarrow>
                    (case refresh_text_box (h - 4) (w - 2) (tc_update C) d b1 of
                       None \<Rightarrow> Crash
                     | Some (b2, d2) \<Rightarrow> text_loop C h w kb1 d2 b2))
           | Other_key \<Rightarrow>
               if key \<in> set (tc_keys C d) then Got ((key, True), b, d, kb1) else text_loop C height width kb1 d b))"
  by pat_completeness auto
termination
  by (relation "measure (\<lambda>(C, height, width, kb, d, b). length (kb_events kb))")
    (auto dest: wgetch_less on_key_esc_le wgetch_less [OF sym] on_key_esc_le [OF sym] intro: le_less_trans)

declare text_loop.simps [simp del]

text \<open>The loop that counts the lines above the page.\<close>

function count_above :: "string \<Rightarrow> nat \<Rightarrow> nat" where
  "count_above s n =
     (if n = 0 then 0
      else case dropWhile (\<lambda>c. c \<noteq> nl_char) s of
             [] \<Rightarrow> 0
           | _ # t \<Rightarrow> Suc (count_above t (n - (length s - length t))))"
  by pat_completeness auto
termination
proof (relation "measure (\<lambda>(s, n). length s)", goal_cases)
  case (2 s n c t)
  have "length (dropWhile (\<lambda>c. c \<noteq> nl_char) s) \<le> length s" by (rule length_dropWhile_le)
  thus ?case using 2(2) by simp
qed simp

declare count_above.simps [simp del]

text \<open>The result is the key, the text, the two positions to come back to, the state of the callback and the keyboard.\<close>

type_synonym 'd text_result = "int \<times> string \<times> nat \<times> int \<times> 'd \<times> keyboard"

definition text_end :: "nat \<Rightarrow> int \<Rightarrow> (int \<times> bool) \<times> text_box \<times> 'd \<times> keyboard \<Rightarrow> 'd text_result" where
  "text_end vscroll hscroll = (\<lambda>((r, save), b, d, kb).
     if save
     then (let b1 = back_lines (tb_length b) b
           in (r, tb_buf b, count_above (tb_buf b) (tb_page b1), tb_hscroll b, d, kb))
     else (r, tb_buf b, vscroll, hscroll, d, kb))"

definition dialog_textbox :: "'d text_conf \<Rightarrow> string \<Rightarrow> nat \<Rightarrow> int \<Rightarrow> 'd \<Rightarrow> keyboard \<Rightarrow> 'd text_result dialog" where
  "dialog_textbox C tbuf vscroll hscroll d kb =
     (let b = skip_lines vscroll
        \<lparr>tb_buf = tbuf, tb_page = 0, tb_begin = (vscroll = 0), tb_end = False, tb_length = 0, tb_hscroll = hscroll, tb_shown = []\<rparr>
      in case text_size (tc_height C) (tc_width C) kb of
           None \<Rightarrow> Got (- ERRDISPLAYTOOSMALL, tbuf, vscroll, hscroll, d, kb)
         | Some (h, w) \<Rightarrow>
             (case refresh_text_box (h - 4) (w - 2) (tc_update C) d b of
                None \<Rightarrow> Crash
              | Some (b1, d1) \<Rightarrow> map_dialog (text_end vscroll hscroll) (text_loop C h w kb d1 b1)))"

text \<open>The box of \<open>show_textbox\<close>: no callback, no other keys.\<close>

definition plain_box :: "int \<Rightarrow> int \<Rightarrow> unit text_conf" where
  "plain_box r c = \<lparr>tc_height = r, tc_width = c, tc_update = None, tc_keys = (\<lambda>_. [])\<rparr>"

end
