(* ===== verification/KTextBoxFacts.thy ===== *)
theory KTextBoxFacts
  imports KTextBox
begin

text \<open>
  The box with a text is a window on its lines: the offset of the page, the flags for both ends and the number of lines
  shown stand for the number of the first line, as long as the text ends with a newline.
\<close>

section \<open>Texts as lists of lines\<close>

definition plain :: "string list \<Rightarrow> bool" where "plain L \<longleftrightarrow> (\<forall>l \<in> set L. nl_char \<notin> set l)"

fun text_lines :: "string \<Rightarrow> string list" where
  "text_lines [] = []"
| "text_lines (c # s) =
     (if c = nl_char then [] # text_lines s
      else (case text_lines s of [] \<Rightarrow> [[c]] | l # ls \<Rightarrow> (c # l) # ls))"

lemma join_lines_Nil [simp]: "join_lines [] = []"
  by (simp add: join_lines_def)

lemma join_lines_Cons [simp]: "join_lines (l # L) = l @ nl_char # join_lines L"
  by (simp add: join_lines_def)

lemma join_lines_append [simp]: "join_lines (L @ M) = join_lines L @ join_lines M"
  by (simp add: join_lines_def)

lemma text_lines_line: "nl_char \<notin> set l \<Longrightarrow> text_lines (l @ nl_char # s) = l # text_lines s"
  by (induction l) auto

lemma text_lines_join: "plain L \<Longrightarrow> text_lines (join_lines L) = L"
  by (induction L) (auto simp: plain_def text_lines_line)

text \<open>The offset of line \<open>k\<close>, and of the end behind the last line.\<close>

definition lpos :: "string list \<Rightarrow> nat \<Rightarrow> nat" where "lpos L k = length (join_lines (take k L))"

lemma lpos_0 [simp]: "lpos L 0 = 0"
  by (simp add: lpos_def)

lemma lpos_end: "length L \<le> k \<Longrightarrow> lpos L k = length (join_lines L)"
  by (simp add: lpos_def)

lemma lpos_Suc: "k < length L \<Longrightarrow> lpos L (Suc k) = lpos L k + length (L ! k) + 1"
  by (simp add: lpos_def take_Suc_conv_app_nth)

lemma lpos_Cons: "lpos (l # L) (Suc k) = length l + 1 + lpos L k"
  by (simp add: lpos_def)

lemma lpos_0_iff: "L \<noteq> [] \<Longrightarrow> lpos L k = 0 \<longleftrightarrow> k = 0"
  by (cases k; cases L) (simp_all add: lpos_Cons)

lemma drop_lpos: "drop (lpos L k) (join_lines L) = join_lines (drop k L)"
proof -
  have "join_lines L = join_lines (take k L) @ join_lines (drop k L)" by (simp flip: join_lines_append)
  thus ?thesis by (simp add: lpos_def)
qed

lemma lpos_le: "lpos L k \<le> length (join_lines L)"
proof -
  have "join_lines L = join_lines (take k L) @ join_lines (drop k L)" by (simp flip: join_lines_append)
  hence "length (join_lines L) = length (join_lines (take k L)) + length (join_lines (drop k L))" by (metis length_append)
  thus ?thesis by (simp add: lpos_def)
qed

lemma lpos_end_iff: "lpos L k = length (join_lines L) \<longleftrightarrow> length L \<le> k"
proof
  assume a: "lpos L k = length (join_lines L)"
  show "length L \<le> k"
  proof (rule ccontr)
    assume "\<not> length L \<le> k"
    hence "lpos L (Suc k) = lpos L k + length (L ! k) + 1" by (simp add: lpos_Suc)
    thus False using a lpos_le [of L "Suc k"] by simp
  qed
qed (rule lpos_end)

lemma lpos_lengths: "map length L = map length M \<Longrightarrow> lpos L k = lpos M k"
proof (induction L arbitrary: M k)
  case (Cons l L)
  then obtain m M1 where "M = m # M1" "length l = length m" "map length L = map length M1" by (cases M) auto
  thus ?case using Cons.IH by (cases k) (auto simp: lpos_Cons)
qed simp

section \<open>Reading a line\<close>

definition line_of :: "string list \<Rightarrow> nat \<Rightarrow> string" where
  "line_of L v = (if v < length L then take MAX_LEN (L ! v) else [])"

lemma line_chars_at: "nl_char \<notin> set l \<Longrightarrow> line_chars (l @ nl_char # r) i = (take (MAX_LEN - i) l, length l, False)"
proof (induction l arbitrary: i)
  case (Cons c l)
  have "MAX_LEN - Suc i = 0" "MAX_LEN - i = 0" if "\<not> i < MAX_LEN" using that by simp_all
  moreover have "take (MAX_LEN - i) (c # l) = c # take (MAX_LEN - Suc i) l" if "i < MAX_LEN"
    using that by (metis Suc_diff_Suc take_Suc_Cons)
  ultimately show ?case using Cons by auto
qed simp

text \<open>Line \<open>v\<close> comes next; line \<open>length L + 1\<close> is the end once it was read.\<close>

definition page_at :: "string list \<Rightarrow> nat \<Rightarrow> text_box \<Rightarrow> bool" where
  "page_at L v b \<longleftrightarrow> tb_buf b = join_lines L \<and> tb_page b = lpos L (min v (length L))"

definition at_line :: "string list \<Rightarrow> nat \<Rightarrow> text_box \<Rightarrow> bool" where
  "at_line L v b \<longleftrightarrow> page_at L v b \<and> v \<le> length L + 1 \<and> (tb_end b \<longleftrightarrow> v = length L + 1)"

lemma get_line_at:
  assumes "plain L" "page_at L v b"
  shows "get_line b = (line_of L v, b\<lparr>tb_end := (length L \<le> v), tb_page := lpos L (min (v + 1) (length L))\<rparr>)"
proof (cases "v < length L")
  case True
  have "drop (tb_page b) (tb_buf b) = L ! v @ nl_char # join_lines (drop (Suc v) L)"
    using assms(2) True by (simp add: page_at_def drop_lpos Cons_nth_drop_Suc [symmetric])
  moreover have "nl_char \<notin> set (L ! v)" using assms(1) True by (simp add: plain_def)
  ultimately show ?thesis
    using assms(2) True by (simp add: get_line_def line_chars_at line_of_def page_at_def lpos_Suc min_absorb1)
next
  case False
  hence "drop (tb_page b) (tb_buf b) = []" using assms(2) by (simp add: page_at_def lpos_end)
  thus ?thesis using False assms(2) by (simp add: get_line_def line_of_def page_at_def min_def)
qed

lemma skip_lines_at:
  "plain L \<Longrightarrow> page_at L v b \<Longrightarrow>
   skip_lines n b = b\<lparr>tb_end := (if n = 0 then tb_end b else length L < v + n), tb_page := lpos L (min (v + n) (length L))\<rparr>"
proof (induction n arbitrary: v b)
  case 0
  thus ?case by (simp add: page_at_def)
next
  case (Suc n)
  have "page_at L (v + 1) (b\<lparr>tb_end := (length L \<le> v), tb_page := lpos L (min (v + 1) (length L))\<rparr>)"
    using Suc.prems(2) by (simp add: page_at_def)
  from Suc.IH [OF Suc.prems(1) this] show ?case
    by (simp add: get_line_at [OF Suc.prems] less_Suc_eq_le)
qed

text \<open>The lines printed; those up to the end of the text are counted.\<close>

lemma print_lines_at:
  "plain L \<Longrightarrow> page_at L v b \<Longrightarrow> v \<le> length L + 1 \<Longrightarrow> passed = (v = length L + 1) \<Longrightarrow>
   print_lines n passed w b =
     b\<lparr>tb_end := (if n = 0 then tb_end b else length L < v + n), tb_page := lpos L (min (v + n) (length L)),
       tb_shown := tb_shown b @ map (\<lambda>i. shown_line (tb_hscroll b) w (line_of L (v + i))) [0..<n],
       tb_length := tb_length b + int (min n (length L + 1 - v))\<rparr>"
proof (induction n arbitrary: v b passed)
  case 0
  thus ?case by (simp add: page_at_def)
next
  case (Suc n)
  let ?v = "min (v + 1) (length L + 1)"
  define b1 where "b1 = b\<lparr>tb_end := (length L \<le> v), tb_page := lpos L (min (v + 1) (length L)),
    tb_shown := tb_shown b @ [shown_line (tb_hscroll b) w (line_of L v)],
    tb_length := (if passed then tb_length b else tb_length b + 1)\<rparr>"
  have p: "page_at L ?v b1" using Suc.prems(2) by (simp add: page_at_def b1_def min_def)
  have "(passed \<or> length L \<le> v) = (?v = length L + 1)" using Suc.prems(3,4) by auto
  from Suc.IH [OF Suc.prems(1) p _ this]
  have 1: "print_lines n (passed \<or> length L \<le> v) w b1 =
      b1\<lparr>tb_end := (if n = 0 then tb_end b1 else length L < ?v + n), tb_page := lpos L (min (?v + n) (length L)),
         tb_shown := tb_shown b1 @ map (\<lambda>i. shown_line (tb_hscroll b1) w (line_of L (?v + i))) [0..<n],
         tb_length := tb_length b1 + int (min n (length L + 1 - ?v))\<rparr>" by simp
  have 2: "print_lines (Suc n) passed w b = print_lines n (passed \<or> length L \<le> v) w b1"
    by (simp add: get_line_at [OF Suc.prems(1,2)] b1_def Let_def)
  have 3: "line_of L (?v + i) = line_of L (v + Suc i)" for i by (simp add: line_of_def min_def)
  have 4: "map (\<lambda>i. shown_line h w (line_of L (v + i))) [0..<Suc n] =
      shown_line h w (line_of L v) # map (\<lambda>i. shown_line h w (line_of L (v + Suc i))) [0..<n]" for h
    by (simp add: upt_conv_Cons map_Suc_upt [symmetric] del: upt_Suc)
  have 5: "min (?v + n) (length L) = min (v + Suc n) (length L)" by simp
  have 6: "(if passed then tb_length b else tb_length b + 1) + int (min n (length L + 1 - ?v)) =
      tb_length b + int (min (Suc n) (length L + 1 - v))"
    using Suc.prems(3,4) by (auto simp: min_def)
  have 7: "(if n = 0 then length L \<le> v else length L < ?v + n) = (length L < v + Suc n)" by auto
  have b1: "tb_end b1 = (length L \<le> v)" "tb_hscroll b1 = tb_hscroll b" "tb_length b1 = (if passed then tb_length b else tb_length b + 1)"
    "tb_shown b1 = tb_shown b @ [shown_line (tb_hscroll b) w (line_of L v)]"
    by (simp_all add: b1_def)
  show ?case
    unfolding 2 1 3 4 5 b1 6 7 append_assoc append_Cons append_Nil by (rule text_box.equality) (simp_all add: b1_def)
qed

section \<open>Going back\<close>

lemma back_scan_at:
  "nl_char \<notin> set l \<Longrightarrow> p \<noteq> [] \<longrightarrow> List.last p = nl_char \<Longrightarrow>
   back_scan (p @ l @ r) (length p + length l) = (length p, p = [])"
proof (induction l arbitrary: r rule: rev_induct)
  case Nil
  show ?case
  proof (cases p rule: rev_cases)
    case (snoc q c)
    with Nil show ?thesis by (simp add: nth_append)
  qed simp
next
  case (snoc c l)
  have "(p @ (l @ [c]) @ r) ! (length p + length l) = c" by (simp add: nth_append)
  thus ?case using snoc.IH [of "c # r"] snoc.prems by auto
qed

lemma back_scan_line:
  assumes "plain L" "v < length L"
  shows "back_scan (join_lines L) (lpos L (Suc v) - 1) = (lpos L v, v = 0)"
proof -
  let ?p = "join_lines (take v L)"
  have e: "join_lines L = ?p @ L ! v @ nl_char # join_lines (drop (Suc v) L)"
    using id_take_nth_drop [OF assms(2)] by (metis join_lines_append join_lines_Cons)
  have n: "?p \<noteq> [] \<longrightarrow> List.last ?p = nl_char"
    by (cases "take v L" rule: rev_cases) auto
  have z: "?p = [] \<longleftrightarrow> v = 0" using assms(2) by (cases v; cases L) simp_all
  have "back_scan (?p @ L ! v @ nl_char # join_lines (drop (Suc v) L)) (length ?p + length (L ! v)) = (length ?p, ?p = [])"
    by (rule back_scan_at) (use assms n in \<open>simp_all add: plain_def\<close>)
  thus ?thesis using assms(2) by (simp add: e [symmetric] lpos_Suc z) (simp add: lpos_def)
qed

lemma back_loop_at:
  "plain L \<Longrightarrow> L \<noteq> [] \<Longrightarrow> at_line L v b \<Longrightarrow>
   back_loop n b = b\<lparr>tb_page := lpos L (min (v - n) (length L)), tb_end := (v - n = length L + 1),
     tb_begin := (tb_begin b \<or> 0 < n \<and> v \<le> n)\<rparr>"
proof (induction n arbitrary: v b)
  case 0
  thus ?case by (simp add: at_line_def page_at_def)
next
  case (Suc n)
  note pl = Suc.prems(1) and ne = Suc.prems(2) and at = Suc.prems(3)
  have end_iff: "tb_page b = length (tb_buf b) \<and> tb_end b \<longleftrightarrow> v = length L + 1"
    using at by (auto simp: at_line_def page_at_def lpos_end)
  have zero: "tb_page b = 0 \<longleftrightarrow> v = 0" using at ne by (auto simp: at_line_def page_at_def lpos_0_iff min_def)
  have pos: "length L \<le> m \<Longrightarrow> 0 < m" for m using ne by (cases m) auto
  consider "v = length L + 1" | "v = 0" | u where "v = Suc u" "u < length L"
    using at by (cases v) (auto simp: at_line_def le_less)
  thus ?case
  proof cases
    case 1
    have "at_line L (length L) (b\<lparr>tb_end := False\<rparr>)" using at 1 by (simp add: at_line_def page_at_def)
    from Suc.IH [OF pl ne this] show ?thesis using end_iff 1 pos by (cases b) auto
  next
    case 2
    thus ?thesis using end_iff zero at by (cases b) (auto simp: at_line_def page_at_def)
  next
    case 3
    have p: "back_scan (tb_buf b) (tb_page b - 1) = (lpos L u, u = 0)"
      using back_scan_line [OF pl 3(2)] at 3 by (simp add: at_line_def page_at_def min_absorb1 Suc_leI)
    have "at_line L u (b\<lparr>tb_page := lpos L u\<rparr>)" using at 3 by (simp add: at_line_def page_at_def min_absorb1)
    from Suc.IH [OF pl ne this] show ?thesis
      using end_iff zero p 3 at by (cases b; cases "u = 0") (auto simp: at_line_def)
  qed
qed

lemma back_lines_at:
  assumes "plain L" "L \<noteq> []" "at_line L v b"
  shows "back_lines n b = b\<lparr>tb_page := lpos L (min (v - nat n) (length L)), tb_end := (v - nat n = length L + 1),
     tb_begin := (0 < n \<and> v \<le> nat n)\<rparr>"
proof -
  have "at_line L v (b\<lparr>tb_begin := False\<rparr>)" using assms(3) by (simp add: at_line_def page_at_def)
  from back_loop_at [OF assms(1,2) this, of "nat n"] show ?thesis by (cases b) (auto simp: back_lines_def)
qed

lemma back_lines_placed: "plain L \<Longrightarrow> L \<noteq> [] \<Longrightarrow> at_line L v b \<Longrightarrow> page_at L (v - nat n) (back_lines n b)"
  by (simp add: back_lines_at) (simp add: at_line_def page_at_def)

section \<open>The window on the lines\<close>

text \<open>
  The abstract pager: the number of the first line shown and the columns scrolled. The callback is given the text and
  the offsets of the first line of the page and of the line behind it; with a callback the last page is filled.
\<close>

type_synonym 'd view = "string list \<times> nat \<times> 'd"

definition view_refresh :: "int \<Rightarrow> 'd update_text \<Rightarrow> 'd view \<Rightarrow> 'd view" where
  "view_refresh h update = (\<lambda>(L, t, d).
     case update of
       None \<Rightarrow> (L, t, d)
     | Some u \<Rightarrow>
         (let t1 = min t (length L + 1 - nat h);
              (buf, d1) = u (join_lines L) (lpos L t1) (lpos L (min (t + nat h) (length L))) d
          in (text_lines buf, t1, d1)))"

datatype view_step = Keep | Go nat int | Leave | Ask_esc | New_size | Other

definition view_key :: "int \<Rightarrow> int \<Rightarrow> nat \<Rightarrow> nat \<Rightarrow> int \<Rightarrow> view_step" where
  "view_key h key n t hs =
     (if key \<in> {69, 101, 88, 120, 113, 10} then Leave
      else if key = 103 \<or> key = KEY_HOME then (if t = 0 then Keep else Go 0 hs)
      else if key = 71 \<or> key = KEY_END then Go (n + 1 - nat h) hs
      else if key \<in> {75, 107, KEY_UP} then (if t = 0 then Keep else Go (t - 1) hs)
      else if key \<in> {66, 98, 117, KEY_PPAGE} then (if t = 0 then Keep else Go (t - nat h) hs)
      else if key \<in> {74, 106, KEY_DOWN} then (if n < t + nat h then Keep else Go (t + 1) hs)
      else if key \<in> {KEY_NPAGE, 32, 100} then (if n < t + nat h then Keep else Go (t + nat h) hs)
      else if key \<in> {48, 72, 104, KEY_LEFT} then (if hs \<le> 0 then Keep else Go t (if key = 48 then 0 else hs - 1))
      else if key \<in> {76, 108, KEY_RIGHT} then (if int MAX_LEN \<le> hs then Keep else Go t (hs + 1))
      else if key = KEY_ESC then Ask_esc
      else if key = KEY_RESIZE then New_size
      else Other)"

text \<open>How the variables of the box stand for the lines from \<open>t\<close> on, in a box of \<open>h\<close> lines and \<open>w\<close> columns.\<close>

definition views :: "int \<Rightarrow> int \<Rightarrow> string list \<Rightarrow> nat \<Rightarrow> int \<Rightarrow> text_box \<Rightarrow> bool" where
  "views h w L t hs b \<longleftrightarrow>
     plain L \<and> L \<noteq> [] \<and> t \<le> length L \<and> at_line L (t + min (nat h) (length L + 1 - t)) b \<and>
     tb_length b = int (min (nat h) (length L + 1 - t)) \<and> (tb_begin b \<longleftrightarrow> t = 0) \<and> tb_hscroll b = hs \<and>
     tb_shown b = map (\<lambda>i. shown_line hs w (line_of L (t + i))) [0..<nat h]"

text \<open>What holds before a page is printed: line \<open>t\<close> comes next.\<close>

definition ready :: "string list \<Rightarrow> nat \<Rightarrow> int \<Rightarrow> text_box \<Rightarrow> bool" where
  "ready L t hs b \<longleftrightarrow> plain L \<and> L \<noteq> [] \<and> t \<le> length L \<and> page_at L t b \<and> (tb_begin b \<longleftrightarrow> t = 0) \<and> tb_hscroll b = hs"

text \<open>\<open>update_text () may not add or remove any newline\<close>, says the code; nor does it change the length.\<close>

definition keeps_lines :: "'d update_text \<Rightarrow> bool" where
  "keeps_lines update \<longleftrightarrow> (\<forall>u L a z d. update = Some u \<longrightarrow> plain L \<longrightarrow>
     (\<exists>M d1. u (join_lines L) a z d = (join_lines M, d1) \<and> plain M \<and> map length M = map length L))"

lemma views_printed:
  assumes "plain L" "L \<noteq> []" "t \<le> length L" "page_at L t b" "tb_begin b \<longleftrightarrow> t = 0" "1 \<le> h"
  shows "views h w L t (tb_hscroll b) (print_lines (nat h) False w (b\<lparr>tb_length := 0, tb_shown := []\<rparr>))"
proof -
  let ?b = "b\<lparr>tb_length := 0, tb_shown := []\<rparr>" and ?pl = "min (nat h) (length L + 1 - t)"
  have p: "page_at L t ?b" using assms(4) by (simp add: page_at_def)
  have v: "min (t + ?pl) (length L) = min (t + nat h) (length L)"
    "(t + ?pl = length L + 1) = (length L < t + nat h)" "t + ?pl \<le> length L + 1"
    using assms(3) by (auto simp: min_def)
  have h: "nat h \<noteq> 0" using assms(6) by simp
  have e: "print_lines (nat h) False w ?b = ?b\<lparr>tb_end := (length L < t + nat h), tb_page := lpos L (min (t + nat h) (length L)),
      tb_shown := map (\<lambda>i. shown_line (tb_hscroll b) w (line_of L (t + i))) [0..<nat h], tb_length := int ?pl\<rparr>"
    using print_lines_at [OF assms(1) p, of False "nat h" w] assms(3) h by simp
  show ?thesis
    unfolding e views_def at_line_def page_at_def v using assms by (simp add: page_at_def v)
qed

lemma skip_placed:
  assumes "plain L" "page_at L t b" "t \<le> length L" "1 \<le> h"
  shows "at_line L (min (t + nat h) (length L + 1)) (skip_lines (nat h) b)"
    and "tb_hscroll (skip_lines (nat h) b) = tb_hscroll b"
proof -
  have h: "nat h \<noteq> 0" using assms(4) by simp
  have m: "min (min (t + nat h) (length L + 1)) (length L) = min (t + nat h) (length L)"
    "(length L < t + nat h) = (min (t + nat h) (length L + 1) = length L + 1)" by auto
  show "at_line L (min (t + nat h) (length L + 1)) (skip_lines (nat h) b)"
    unfolding skip_lines_at [OF assms(1,2)] at_line_def page_at_def m using assms(2) h m(2) by (simp add: page_at_def)
  show "tb_hscroll (skip_lines (nat h) b) = tb_hscroll b"
    by (simp add: skip_lines_at [OF assms(1,2)])
qed

lemma back_lines_fields:
  assumes "plain L" "L \<noteq> []" "at_line L v b" "0 < n" "v - nat n = t" "t \<le> length L" "tb_hscroll b = hs"
  shows "tb_buf (back_lines n b) = join_lines L" "tb_page (back_lines n b) = lpos L t" "tb_begin (back_lines n b) \<longleftrightarrow> t = 0"
    and "tb_hscroll (back_lines n b) = hs"
proof -
  have b: "tb_buf b = join_lines L" using assms(3) by (simp add: at_line_def page_at_def)
  have z: "(0 < n \<and> v \<le> nat n) = (t = 0)" using assms(4,5) by auto
  show "tb_buf (back_lines n b) = join_lines L" "tb_page (back_lines n b) = lpos L t" "tb_begin (back_lines n b) \<longleftrightarrow> t = 0"
    "tb_hscroll (back_lines n b) = hs"
    unfolding back_lines_at [OF assms(1-3)] z assms(5) using b assms(6,7) by (simp_all add: min_absorb1)
qed

lemma back_lines_ready:
  assumes "plain L" "L \<noteq> []" "at_line L v b" "0 < n" "v - nat n = t" "t \<le> length L" "tb_hscroll b = hs"
  shows "ready L t hs (back_lines n b)"
  using back_lines_fields [OF assms] assms(1,2,6) by (simp add: ready_def page_at_def min_absorb1)

text \<open>A page that is printed shows the lines of the abstract pager.\<close>

lemma refresh_ok:
  assumes r: "ready L t hs b" and h: "1 \<le> h" and u: "keeps_lines update"
    and v: "view_refresh h update (L, t, d) = (M, t1, d1)"
  shows "\<exists>b1. refresh_text_box h w update d b = Some (b1, d1) \<and> views h w M t1 hs b1"
proof -
  have pl: "plain L" "L \<noteq> []" "t \<le> length L" "page_at L t b" "tb_begin b \<longleftrightarrow> t = 0" "tb_hscroll b = hs"
    using r by (auto simp: ready_def)
  have shown: "\<exists>b1. refresh_text_box h w update d b = Some (b1, d1) \<and> views h w M t1 hs b1"
    if "(case update of None \<Rightarrow> (b, d) | Some u \<Rightarrow> (let b1 = skip_lines (nat h) b; b2 = back_lines h b1;
           (buf, d1) = u (tb_buf b2) (tb_page b2) (tb_page b1) d in (b2\<lparr>tb_buf := buf\<rparr>, d1))) = (b2, d1)"
      "ready M t1 hs b2" for b2
  proof -
    have m: "plain M" "M \<noteq> []" "t1 \<le> length M" "page_at M t1 b2" "tb_begin b2 \<longleftrightarrow> t1 = 0" "tb_hscroll b2 = hs"
      using that(2) by (auto simp: ready_def)
    have vw: "views h w M t1 hs (print_lines (nat h) False w (b2\<lparr>tb_length := 0, tb_shown := []\<rparr>))"
      using views_printed [OF m(1-5) h] m(6) by simp
    hence "tb_buf (print_lines (nat h) False w (b2\<lparr>tb_length := 0, tb_shown := []\<rparr>)) \<noteq> []"
      by (cases M) (auto simp: views_def at_line_def page_at_def)
    thus ?thesis using vw that(1) by (simp add: refresh_text_box_def print_page_def text_position_def)
  qed
  show ?thesis
  proof (cases update)
    case None
    with v r show ?thesis by (intro shown [of b]) (simp_all add: view_refresh_def)
  next
    case (Some f)
    let ?b1 = "skip_lines (nat h) b" and ?v = "min (t + nat h) (length L + 1)"
    let ?t = "min t (length L + 1 - nat h)" and ?b2 = "back_lines h (skip_lines (nat h) b)"
    have at: "at_line L ?v ?b1" and hs: "tb_hscroll ?b1 = hs" using skip_placed [OF pl(1,4,3) h] pl(6) by simp_all
    have "min (a + k) n - k = min a (n - k)" for a k n :: nat by arith
    hence t: "?v - nat h = ?t" .
    have tl: "?t \<le> length L" using pl(3) by simp
    have b2: "tb_buf ?b2 = join_lines L" "tb_page ?b2 = lpos L ?t" "tb_begin ?b2 \<longleftrightarrow> ?t = 0" "tb_hscroll ?b2 = hs"
      by (rule back_lines_fields [OF pl(1,2) at _ t tl hs], use h in simp)+
    have p1: "tb_page ?b1 = lpos L (min (t + nat h) (length L))"
      using at by (simp add: at_line_def page_at_def)
    obtain N where n: "f (join_lines L) (lpos L ?t) (lpos L (min (t + nat h) (length L))) d = (join_lines N, d1)" "plain N"
      "map length N = map length L" "M = N" "t1 = ?t"
    proof -
      obtain N d2 where "f (join_lines L) (lpos L ?t) (lpos L (min (t + nat h) (length L))) d = (join_lines N, d2)" "plain N"
        "map length N = map length L" using u Some pl(1) by (fastforce simp: keeps_lines_def)
      thus ?thesis using that v by (simp add: view_refresh_def Some Let_def text_lines_join)
    qed
    have len: "length N = length L" using n(3) map_eq_imp_length_eq by blast
    show ?thesis
    proof (rule shown)
      show "(case update of None \<Rightarrow> (b, d) | Some u \<Rightarrow> (let b1 = skip_lines (nat h) b; b2 = back_lines h b1;
           (buf, d1) = u (tb_buf b2) (tb_page b2) (tb_page b1) d in (b2\<lparr>tb_buf := buf\<rparr>, d1))) = (?b2\<lparr>tb_buf := join_lines N\<rparr>, d1)"
        unfolding Some option.case Let_def b2(1,2) p1 n(1) prod.case ..
      show "ready M t1 hs (?b2\<lparr>tb_buf := join_lines N\<rparr>)"
        using b2 n len pl(2) tl lpos_lengths [OF n(3), of ?t] by (auto simp: ready_def page_at_def min_absorb1)
    qed
  qed
qed

section \<open>Keys\<close>

text \<open>A key asks for the page the abstract pager asks for.\<close>

fun as_view :: "string list \<Rightarrow> text_step \<Rightarrow> view_step \<Rightarrow> bool" where
  "as_view L Rest Keep = True"
| "as_view L (Fresh b) (Go t hs) = ready L t hs b"
| "as_view L Finished Leave = True"
| "as_view L Look_for_esc Ask_esc = True"
| "as_view L Size_change New_size = True"
| "as_view L Other_key Other = True"
| "as_view L _ _ = False"

lemma as_view_if:
  "(P \<Longrightarrow> as_view L x y) \<Longrightarrow> (\<not> P \<Longrightarrow> as_view L x1 y1) \<Longrightarrow> as_view L (if P then x else x1) (if P then y else y1)"
  by simp

lemma text_key_ok:
  assumes v: "views h w L t hs b" and h: "1 \<le> h"
  shows "as_view L (text_key h key b) (view_key h key (length L) t hs)"
proof -
  obtain pl where pl: "pl = min (nat h) (length L + 1 - t)" by blast
  have a: "plain L" "L \<noteq> []" "t \<le> length L" "at_line L (t + pl) b" "tb_length b = int pl" "tb_begin b \<longleftrightarrow> t = 0"
    "tb_hscroll b = hs" using v by (simp_all add: views_def pl)
  have p: "0 < pl" "pl \<le> nat h" "t + pl = length L + 1 \<longleftrightarrow> length L < t + nat h"
    using h a(3) unfolding pl by arith+
  have e: "tb_end b \<longleftrightarrow> length L < t + nat h" using a(4) p(3) by (simp add: at_line_def)
  have home: "ready L 0 hs (b\<lparr>tb_begin := True, tb_page := 0\<rparr>)"
    using a by (simp add: ready_def page_at_def at_line_def)
  have "at_line L (length L + 1) (b\<lparr>tb_end := True, tb_page := length (tb_buf b)\<rparr>)"
    using a(4) by (simp add: at_line_def page_at_def lpos_end)
  hence final: "ready L (length L + 1 - nat h) hs (back_lines h (b\<lparr>tb_end := True, tb_page := length (tb_buf b)\<rparr>))"
    by (rule back_lines_ready [OF a(1,2)]) (use h a(7) in auto)
  have n: "nat (int pl + 1) = pl + 1" "nat (int pl + h) = pl + nat h" "nat (int pl - 1) = pl - 1" using h by arith+
  have up: "ready L (t - 1) hs (back_lines (tb_length b + 1) b)"
    by (rule back_lines_ready [OF a(1,2,4)]) (use a(3,7) in \<open>simp_all add: a(5) n\<close>)
  have page_up: "ready L (t - nat h) hs (back_lines (tb_length b + h) b)"
    by (rule back_lines_ready [OF a(1,2,4)]) (use a(3,7) h in \<open>simp_all add: a(5) n\<close>)
  have "\<not> length L < t + nat h \<Longrightarrow> pl = nat h" unfolding pl by arith
  note full = this
  have down: "ready L (t + 1) hs (back_lines (tb_length b - 1) b)" if "\<not> length L < t + nat h"
  proof -
    have m: "t + pl - (pl - 1) = t + 1" "\<not> t + pl \<le> pl - 1" "t + 1 \<le> length L" using p(1,2) that by arith+
    show ?thesis
      unfolding back_lines_at [OF a(1,2,4)] a(5) n m(1) ready_def page_at_def
      using a m(2,3) by (simp add: at_line_def page_at_def min_absorb1)
  qed
  have page_down: "ready L (t + nat h) hs (b\<lparr>tb_begin := False\<rparr>)" if "\<not> length L < t + nat h"
    using a that h full [OF that] p(1) by (simp add: ready_def page_at_def at_line_def)
  have side: "ready L t k (back_lines (tb_length b) (b\<lparr>tb_hscroll := k\<rparr>))" for k
    by (rule back_lines_ready [OF a(1,2), of "t + pl"]) (use a p(1) in \<open>simp_all add: at_line_def page_at_def\<close>)
  show ?thesis
    unfolding text_key_def view_key_def e a(6,7)
    by (intro as_view_if; simp only: as_view.simps home final up page_up down page_down side if_P not_False_eq_True)
qed

section \<open>The dialog\<close>

text \<open>The heights the screen has or gets.\<close>

definition heights :: "keyboard \<Rightarrow> int set" where
  "heights kb = insert (kb_height kb) {h. \<exists>w. Resized h w \<in> set (kb_events kb)}"

lemma heights_wgetch: "wgetch kb = Some (k, kb1) \<Longrightarrow> heights kb1 \<subseteq> heights kb"
proof -
  have "wgetch_events es h w = Some (k, kb1) \<Longrightarrow> heights kb1 \<subseteq> insert h {h. \<exists>w. Resized h w \<in> set es}" for es h w
    by (induction es h w rule: wgetch_events.induct) (auto simp: heights_def)
  thus "wgetch kb = Some (k, kb1) \<Longrightarrow> heights kb1 \<subseteq> heights kb" by (simp add: wgetch_def heights_def)
qed

lemma heights_now: "getch_now kb = (k, kb1) \<Longrightarrow> heights kb1 \<subseteq> heights kb"
  by (auto simp: getch_now_def heights_def split: list.splits key_event.splits)

lemma heights_drop: "heights (drop_keys kb) \<subseteq> heights kb"
proof (induction kb rule: drop_keys.induct)
  case (1 kb)
  obtain k kb1 where g: "getch_now kb = (k, kb1)" by fastforce
  show ?case using 1 [OF g [symmetric]] heights_now [OF g] by (subst drop_keys.simps) (auto simp: g)
qed

lemma heights_esc: "on_key_esc kb = (k, kb1) \<Longrightarrow> heights kb1 \<subseteq> heights kb"
proof -
  obtain a kb2 b kb3 where g: "getch_now kb = (a, kb2)" "getch_now kb2 = (b, kb3)" by fastforce
  assume "on_key_esc kb = (k, kb1)"
  moreover have "heights (kb\<lparr>kb_events := Press a # kb_events kb\<rparr>) = heights kb" for kb by (simp add: heights_def)
  moreover have "heights (drop_keys kb3) \<subseteq> heights kb"
    using heights_drop [of kb3] heights_now [OF g(1)] heights_now [OF g(2)] by order
  ultimately show ?thesis
    by (simp add: on_key_esc_def g Let_def split: if_splits) (metis (no_types))
qed

text \<open>The box has a line for the text: it was asked to be high enough, or no screen has just eight lines.\<close>

definition roomy :: "int \<Rightarrow> keyboard \<Rightarrow> bool" where
  "roomy ih kb \<longleftrightarrow> 5 \<le> ih \<or> ih = 0 \<and> 8 \<notin> heights kb"

lemma roomy_less: "roomy ih kb \<Longrightarrow> heights kb1 \<subseteq> heights kb \<Longrightarrow> roomy ih kb1"
  by (auto simp: roomy_def)

lemma text_size_room: "roomy ih kb \<Longrightarrow> text_size ih iw kb = Some (h, w) \<Longrightarrow> 1 \<le> h - 4"
  by (auto simp: roomy_def text_size_def heights_def TEXTBOX_HEIGTH_MIN_def split: if_splits)

text \<open>The same dialog on the abstract pager. A new size first goes back by the old height of the box.\<close>

function view_loop :: "'d text_conf \<Rightarrow> int \<Rightarrow> keyboard \<Rightarrow> 'd view \<Rightarrow> int \<Rightarrow> ((int \<times> bool) \<times> 'd view \<times> int \<times> keyboard) dialog" where
  "view_loop C height kb V hs =
     (case wgetch kb of
        None \<Rightarrow> Waits
      | Some (key, kb1) \<Rightarrow>
          (case V of (L, t, d) \<Rightarrow>
             (case view_key (height - 4) key (length L) t hs of
                Keep \<Rightarrow> view_loop C height kb1 V hs
              | Go t1 hs1 \<Rightarrow> view_loop C height kb1 (view_refresh (height - 4) (tc_update C) (L, t1, d)) hs1
              | Leave \<Rightarrow> Got ((key, True), V, hs, kb1)
              | Ask_esc \<Rightarrow>
                  (let (k, kb2) = on_key_esc kb1 in
                   if k = KEY_ESC then Got ((key, True), V, hs, kb2) else view_loop C height kb2 V hs)
              | New_size \<Rightarrow>
                  (case text_size (tc_height C) (tc_width C) kb1 of
                     None \<Rightarrow> Got ((- ERRDISPLAYTOOSMALL, False), V, hs, kb1)
                   | Some (h, w) \<Rightarrow>
                       view_loop C h kb1 (view_refresh (h - 4) (tc_update C)
                         (L, t + min (nat (height - 4)) (length L + 1 - t) - nat height, d)) hs)
              | Other \<Rightarrow> if key \<in> set (tc_keys C d) then Got ((key, True), V, hs, kb1) else view_loop C height kb1 V hs)))"
  by pat_completeness auto
termination
  by (relation "measure (\<lambda>(C, height, kb, V, hs). length (kb_events kb))")
    (auto dest: wgetch_less on_key_esc_le wgetch_less [OF sym] on_key_esc_le [OF sym] intro: le_less_trans)

declare view_loop.simps [simp del]

text \<open>What the caller gets: the key, the text, and the first line and column to come back to.\<close>

definition view_end :: "nat \<Rightarrow> int \<Rightarrow> (int \<times> bool) \<times> 'd view \<times> int \<times> keyboard \<Rightarrow> 'd text_result" where
  "view_end vscroll hscroll = (\<lambda>((r, save), (L, t, d), hs, kb).
     if save then (r, join_lines L, t, hs, d, kb) else (r, join_lines L, vscroll, hscroll, d, kb))"

definition view_dialog :: "'d text_conf \<Rightarrow> string list \<Rightarrow> nat \<Rightarrow> int \<Rightarrow> 'd \<Rightarrow> keyboard \<Rightarrow> 'd text_result dialog" where
  "view_dialog C L vscroll hscroll d kb =
     (case text_size (tc_height C) (tc_width C) kb of
        None \<Rightarrow> Got (- ERRDISPLAYTOOSMALL, join_lines L, vscroll, hscroll, d, kb)
      | Some (h, w) \<Rightarrow>
          map_dialog (view_end vscroll hscroll)
            (view_loop C h kb (view_refresh (h - 4) (tc_update C) (L, vscroll, d)) hscroll))"

lemma count_above_lines: "plain L \<Longrightarrow> t \<le> length L \<Longrightarrow> count_above (join_lines L) (lpos L t) = t"
proof (induction L arbitrary: t)
  case Nil
  thus ?case by (subst count_above.simps) simp
next
  case (Cons l L)
  show ?case
  proof (cases t)
    case 0
    thus ?thesis by (subst count_above.simps) simp
  next
    case (Suc k)
    have "nl_char \<notin> set l" using Cons.prems(1) by (simp add: plain_def)
    hence "dropWhile (\<lambda>c. c \<noteq> nl_char) (join_lines (l # L)) = nl_char # join_lines L" by (induction l) auto
    moreover have "count_above (join_lines L) (lpos L k) = k" using Cons.IH [of k] Cons.prems Suc by (simp add: plain_def)
    ultimately show ?thesis using Suc by (subst count_above.simps) (simp add: lpos_Cons)
  qed
qed

lemma text_end_ok:
  assumes "views h w L t hs b" "1 \<le> h"
  shows "text_end vs h0 ((r, True), b, d, kb) = view_end vs h0 ((r, True), (L, t, d), hs, kb)"
proof -
  obtain pl where pl: "pl = min (nat h) (length L + 1 - t)" by blast
  have a: "plain L" "L \<noteq> []" "t \<le> length L" "at_line L (t + pl) b" "tb_length b = int pl" "tb_hscroll b = hs"
    using assms(1) by (simp_all add: views_def pl)
  have p: "0 < pl" using assms(2) a(3) unfolding pl by arith
  have "ready L t hs (back_lines (tb_length b) b)"
    by (rule back_lines_ready [OF a(1,2,4)]) (use a p in simp_all)
  hence "tb_page (back_lines (tb_length b) b) = lpos L t" using a(3) by (simp add: ready_def page_at_def min_absorb1)
  moreover have "tb_buf b = join_lines L" using a(4) by (simp add: at_line_def page_at_def)
  ultimately show ?thesis
    using count_above_lines [OF a(1,3)] a(6) by (simp add: text_end_def view_end_def Let_def)
qed

lemma views_sized:
  assumes "views (height - 4) w L t hs b" "1 \<le> height - 4"
  shows "ready L (t + min (nat (height - 4)) (length L + 1 - t) - nat height) hs (back_lines height b)"
proof -
  obtain pl where pl: "pl = min (nat (height - 4)) (length L + 1 - t)" by blast
  have a: "plain L" "L \<noteq> []" "t \<le> length L" "at_line L (t + pl) b" "tb_hscroll b = hs"
    using assms(1) by (simp_all add: views_def pl)
  have "t + pl - nat height \<le> length L" "0 < height" using a(3) assms(2) unfolding pl by arith+
  thus ?thesis unfolding pl [symmetric] by (intro back_lines_ready [OF a(1,2,4)]) (use a(5) in simp_all)
qed

lemma views_join: "views h w L t hs b \<Longrightarrow> tb_buf (back_lines n b) = join_lines L"
proof -
  assume "views h w L t hs b"
  hence a: "plain L" "L \<noteq> []" "at_line L (t + min (nat h) (length L + 1 - t)) b" by (simp_all add: views_def)
  have "tb_buf b = join_lines L" using a(3) by (simp add: at_line_def page_at_def)
  thus ?thesis unfolding back_lines_at [OF a] by simp
qed

lemma refresh_view:
  assumes "ready L t hs b" "1 \<le> h" "keeps_lines update"
  obtains b1 M t1 d1 where "view_refresh h update (L, t, d) = (M, t1, d1)"
    "refresh_text_box h w update d b = Some (b1, d1)" "views h w M t1 hs b1"
proof -
  obtain M t1 d1 where v: "view_refresh h update (L, t, d) = (M, t1, d1)" using prod_cases3 by blast
  from refresh_ok [OF assms v] v show ?thesis using that by blast
qed

lemma text_loop_refines:
  "views (height - 4) (width - 2) L t hs b \<Longrightarrow> 1 \<le> height - 4 \<Longrightarrow> keeps_lines (tc_update C) \<Longrightarrow> roomy (tc_height C) kb \<Longrightarrow>
   map_dialog (text_end vs h0) (text_loop C height width kb d b) = map_dialog (view_end vs h0) (view_loop C height kb (L, t, d) hs)"
proof (induction "length (kb_events kb)" arbitrary: height width L t hs b d kb rule: less_induct)
  case less
  note IH = less.hyps and v = less.prems(1) and h = less.prems(2) and u = less.prems(3) and room = less.prems(4)
  show ?case
  proof (cases "wgetch kb")
    case None
    thus ?thesis by (subst text_loop.simps, subst view_loop.simps) simp
  next
    case (Some q)
    obtain key kb1 where q: "q = (key, kb1)" by fastforce
    note w = Some [unfolded q] and lt = wgetch_less [OF w [unfolded q]]
    have room1: "roomy (tc_height C) kb1" by (rule roomy_less [OF room heights_wgetch [OF w]])
    note step = text_loop.simps [of C height width kb d b, unfolded w option.case prod.case]
      view_loop.simps [of C height kb "(L, t, d)" hs, unfolded w option.case prod.case]
    note ok = text_key_ok [OF v h, of key]
    show ?thesis
    proof (cases "text_key (height - 4) key b")
      case Rest
      with ok have k: "view_key (height - 4) key (length L) t hs = Keep" by (cases "view_key (height - 4) key (length L) t hs") auto
      show ?thesis unfolding step Rest k text_step.case view_step.case by (rule IH [OF lt v h u room1])
    next
      case (Fresh b1)
      with ok obtain t1 hs1 where k: "view_key (height - 4) key (length L) t hs = Go t1 hs1" "ready L t1 hs1 b1"
        by (cases "view_key (height - 4) key (length L) t hs") auto
      obtain b2 M t2 d2 where r: "view_refresh (height - 4) (tc_update C) (L, t1, d) = (M, t2, d2)"
        "refresh_text_box (height - 4) (width - 2) (tc_update C) d b1 = Some (b2, d2)"
        "views (height - 4) (width - 2) M t2 hs1 b2" by (rule refresh_view [OF k(2) h u])
      show ?thesis unfolding step Fresh k(1) text_step.case view_step.case r(1,2) option.case prod.case
        by (rule IH [OF lt r(3) h u room1])
    next
      case Finished
      with ok have k: "view_key (height - 4) key (length L) t hs = Leave" by (cases "view_key (height - 4) key (length L) t hs") auto
      show ?thesis unfolding step Finished k text_step.case view_step.case by (simp add: text_end_ok [OF v h])
    next
      case Look_for_esc
      with ok have k: "view_key (height - 4) key (length L) t hs = Ask_esc" by (cases "view_key (height - 4) key (length L) t hs") auto
      obtain k2 kb2 where e: "on_key_esc kb1 = (k2, kb2)" by fastforce
      have "length (kb_events kb2) < length (kb_events kb)" using on_key_esc_le [OF e] lt by simp
      note go = IH [OF this v h u roomy_less [OF room1 heights_esc [OF e]]]
      show ?thesis unfolding step Look_for_esc k text_step.case view_step.case e Let_def prod.case
        by (simp add: text_end_ok [OF v h] go)
    next
      case Size_change
      with ok have k: "view_key (height - 4) key (length L) t hs = New_size" by (cases "view_key (height - 4) key (length L) t hs") auto
      show ?thesis
      proof (cases "text_size (tc_height C) (tc_width C) kb1")
        case None
        show ?thesis unfolding step Size_change k text_step.case view_step.case None option.case Let_def
          by (simp add: text_end_def view_end_def views_join [OF v])
      next
        case (Some p)
        obtain h1 w1 where p: "p = (h1, w1)" by fastforce
        note z = Some [unfolded p]
        have h1: "1 \<le> h1 - 4" by (rule text_size_room [OF room1 z])
        let ?t = "t + min (nat (height - 4)) (length L + 1 - t) - nat height"
        obtain b2 M t2 d2 where r: "view_refresh (h1 - 4) (tc_update C) (L, ?t, d) = (M, t2, d2)"
          "refresh_text_box (h1 - 4) (w1 - 2) (tc_update C) d (back_lines height b) = Some (b2, d2)"
          "views (h1 - 4) (w1 - 2) M t2 hs b2" by (rule refresh_view [OF views_sized [OF v h] h1 u])
        show ?thesis unfolding step Size_change k text_step.case view_step.case z option.case prod.case Let_def r(1,2)
          by (rule IH [OF lt r(3) h1 u room1])
      qed
    next
      case Other_key
      with ok have k: "view_key (height - 4) key (length L) t hs = Other" by (cases "view_key (height - 4) key (length L) t hs") auto
      show ?thesis unfolding step Other_key k text_step.case view_step.case
        by (simp add: text_end_ok [OF v h] IH [OF lt v h u room1])
    qed
  qed
qed



text \<open>Without a newline at the end the page is lost: the only line of a message is gone after one step to the right.\<close>

lemma message_lost:
  "text_key 1 108 (fst (print_page 1 41 None () \<lparr>tb_buf = ''Sorry'', tb_page = 0, tb_begin = True, tb_end = False,
       tb_length = 0, tb_hscroll = 0, tb_shown = []\<rparr>))
     = Fresh \<lparr>tb_buf = ''Sorry'', tb_page = 5, tb_begin = False, tb_end = False, tb_length = 1, tb_hscroll = 1, tb_shown = [''Sorry'']\<rparr>"
  by code_simp

end
