(* ===== verification/KMconfTexts.thy ===== *)
theory KMconfTexts
  imports KTextBox
begin

text \<open>
  The pages of help that \<open>buildroot/support/kconfig/mconf.c\<close> shows in boxes with a text. They are not translated.
\<close>

definition mconf_readme_lines :: "string list" where
  "mconf_readme_lines = [
    ''Overview'',
    ''--------'',
    ''This interface lets you select features and parameters for the build.'',
    ''Features can either be built-in, modularized, or ignored. Parameters'',
    ''must be entered in as decimal or hexadecimal numbers or text.'',
    [],
    ''Menu items beginning with following braces represent features that'',
    ''  [ ] can be built in or removed'',
    ''  < > can be built in, modularized or removed'',
    ''  { } can be built in or modularized (selected by other feature)'',
    ''  - - are selected by other feature,'',
    ''while *, M or whitespace inside braces means to build in, build as'',
    ''a module or to exclude the feature respectively.'',
    [],
    ''To change any of these features, highlight it with the cursor'',
    ''keys and press <Y> to build it in, <M> to make it a module or'',
    ''<N> to remove it.  You may also press the <Space Bar> to cycle'',
    ''through the available options (i.e. Y->N->M->Y).'',
    [],
    ''Some additional keyboard hints:'',
    [],
    ''Menus'',
    ''----------'',
    ''o  Use the Up/Down arrow keys (cursor keys) to highlight the item you'',
    ''   wish to change or the submenu you wish to select and press <Enter>.'',
    ''   Submenus are designated by \"--->\", empty ones by \"----\".'',
    [],
    ''   Shortcut: Press the option's highlighted letter (hotkey).'',
    ''             Pressing a hotkey more than once will sequence'',
    ''             through all visible items which use that hotkey.'',
    [],
    ''   You may also use the <PAGE UP> and <PAGE DOWN> keys to scroll'',
    ''   unseen options into view.'',
    [],
    ''o  To exit a menu use the cursor keys to highlight the <Exit> button'',
    ''   and press <ENTER>.'',
    [],
    ''   Shortcut: Press <ESC><ESC> or <E> or <X> if there is no hotkey'',
    ''             using those letters.  You may press a single <ESC>, but'',
    ''             there is a delayed response which you may find annoying.'',
    [],
    ''   Also, the <TAB> and cursor keys will cycle between <Select>,'',
    ''   <Exit>, <Help>, <Save>, and <Load>.'',
    [],
    ''o  To get help with an item, use the cursor keys to highlight <Help>'',
    ''   and press <ENTER>.'',
    [],
    ''   Shortcut: Press <H> or <?>.'',
    [],
    ''o  To toggle the display of hidden options, press <Z>.'',
    [],
    [],
    ''Radiolists  (Choice lists)'',
    ''-----------'',
    ''o  Use the cursor keys to select the option you wish to set and press'',
    ''   <S> or the <SPACE BAR>.'',
    [],
    ''   Shortcut: Press the first letter of the option you wish to set then'',
    ''             press <S> or <SPACE BAR>.'',
    [],
    ''o  To see available help for the item, use the cursor keys to highlight'',
    ''   <Help> and Press <ENTER>.'',
    [],
    ''   Shortcut: Press <H> or <?>.'',
    [],
    ''   Also, the <TAB> and cursor keys will cycle between <Select> and'',
    ''   <Help>'',
    [],
    [],
    ''Data Entry'',
    ''-----------'',
    ''o  Enter the requested information and press <ENTER>'',
    ''   If you are entering hexadecimal values, it is not necessary to'',
    ''   add the '0x' prefix to the entry.'',
    [],
    ''o  For help, use the <TAB> or cursor keys to highlight the help option'',
    ''   and press <ENTER>.  You can try <TAB><H> as well.'',
    [],
    [],
    ''Text Box    (Help Window)'',
    ''--------'',
    ''o  Use the cursor keys to scroll up/down/left/right.  The VI editor'',
    ''   keys h,j,k,l function here as do <u>, <d>, <SPACE BAR> and <B> for'',
    ''   those who are familiar with less and lynx.'',
    [],
    ''o  Press <E>, <X>, <q>, <Enter> or <Esc><Esc> to exit.'',
    [],
    [],
    ''Alternate Configuration Files'',
    ''-----------------------------'',
    ''Menuconfig supports the use of alternate configuration files for'',
    ''those who, for various reasons, find it necessary to switch'',
    ''between different configurations.'',
    [],
    ''The <Save> button will let you save the current configuration to'',
    ''a file of your choosing.  Use the <Load> button to load a previously'',
    ''saved alternate configuration.'',
    [],
    ''Even if you don't use alternate configuration files, but you find'',
    ''during a Menuconfig session that you have completely messed up your'',
    ''settings, you may use the <Load> button to restore your previously'',
    ''saved settings from \".config\" without restarting Menuconfig.'',
    [],
    ''Other information'',
    ''-----------------'',
    ''If you use Menuconfig in an XTERM window, make sure you have your'',
    ''$TERM variable set to point to an xterm definition which supports'',
    ''color.  Otherwise, Menuconfig will look rather bad.  Menuconfig will'',
    ''not display correctly in an RXVT window because rxvt displays only one'',
    ''intensity of color, bright.'',
    [],
    ''Menuconfig will display larger menus on screens or xterms which are'',
    ''set to display more than the standard 25 row by 80 column geometry.'',
    ''In order for this to work, the \"stty size\" command must be able to'',
    ''display the screen's current row and column geometry.  I STRONGLY'',
    ''RECOMMEND that you make sure you do NOT have the shell variables'',
    ''LINES and COLUMNS exported into your environment.  Some distributions'',
    ''export those variables via /etc/profile.  Some ncurses programs can'',
    ''become confused when those variables (LINES & COLUMNS) don't reflect'',
    ''the true screen size.'',
    [],
    ''Optional personality available'',
    ''------------------------------'',
    ''If you prefer to have all of the options listed in a single menu,'',
    ''rather than the default multimenu hierarchy, run the menuconfig with'',
    ''MENUCONFIG_MODE environment variable set to single_menu. Example:'',
    [],
    ''make MENUCONFIG_MODE=single_menu menuconfig'',
    [],
    ''<Enter> will then unroll the appropriate category, or enfold it if it'',
    ''is already unrolled.'',
    [],
    ''Note that this mode can eventually be a little more CPU expensive'',
    ''(especially with a larger number of unrolled categories) than the'',
    ''default mode.'',
    [],
    ''Different color themes available'',
    ''--------------------------------'',
    ''It is possible to select different color themes using the variable'',
    ''MENUCONFIG_COLOR. To select a theme use:'',
    [],
    ''make MENUCONFIG_COLOR=<theme> menuconfig'',
    [],
    ''Available themes are'',
    '' mono       => selects colors suitable for monochrome displays'',
    '' blackbg    => selects a color scheme with black background'',
    '' classic    => theme with blue background. The classic look'',
    '' bluetitle  => an LCD friendly version of classic. (default)'',
    []]"

definition mconf_readme :: string where "mconf_readme = join_lines mconf_readme_lines"

definition setmod_text :: string where
  "setmod_text = join_lines [''This feature depends on another which has been configured as a module.''] @ ''As a result, this feature will be built as a module.''"

definition load_config_help_lines :: "string list" where
  "load_config_help_lines = [
    [],
    ''For various reasons, one may wish to keep several different'',
    ''configurations available on a single machine.'',
    [],
    ''If you have saved a previous configuration in a file other than the'',
    ''default one, entering its name here will allow you to modify that'',
    ''configuration.'',
    [],
    ''If you are uncertain, then you have probably never used alternate'',
    ''configuration files. You should therefore leave this blank to abort.'']"

definition load_config_help :: string where "load_config_help = join_lines load_config_help_lines"

definition save_config_help_lines :: "string list" where
  "save_config_help_lines = [
    [],
    ''For various reasons, one may wish to keep different configurations'',
    ''available on a single machine.'',
    [],
    ''Entering a file name here will allow you to later retrieve, modify'',
    ''and use the current configuration as an alternate to whatever'',
    ''configuration options you have selected at that time.'',
    [],
    ''If you are uncertain what all this means then you should probably'',
    ''leave this blank.'']"

definition save_config_help :: string where "save_config_help = join_lines save_config_help_lines"

definition search_help_lines :: "string list" where
  "search_help_lines = [
    [],
    ''Search for symbols and display their relations.'',
    ''Regular expressions are allowed.'',
    ''Example: search for \"^FOO\"'',
    ''Result:'',
    ''-----------------------------------------------------------------'',
    ''Symbol: FOO [=m]'',
    ''Type  : tristate'',
    ''Prompt: Foo bus is used to drive the bar HW'',
    ''  Location:'',
    ''    -> Bus options (PCI, PCMCIA, EISA, ISA)'',
    ''      -> PCI support (PCI [=y])'',
    ''(1)     -> PCI access mode (<choice> [=y])'',
    ''  Defined at drivers/pci/Kconfig:47'',
    ''  Depends on: X86_LOCAL_APIC && X86_IO_APIC || IA64'',
    ''  Selects: LIBCRC32'',
    ''  Selected by: BAR [=n]'',
    ''-----------------------------------------------------------------'',
    ''o The line 'Type:' shows the type of the configuration option for'',
    ''  this symbol (boolean, tristate, string, ...)'',
    ''o The line 'Prompt:' shows the text used in the menu structure for'',
    ''  this symbol'',
    ''o The 'Defined at' line tells at what file / line number the symbol'',
    ''  is defined'',
    ''o The 'Depends on:' line tells what symbols need to be defined for'',
    ''  this symbol to be visible in the menu (selectable)'',
    ''o The 'Location:' lines tells where in the menu structure this symbol'',
    ''  is located'',
    ''    A location followed by a [=y] indicates that this is a'',
    ''    selectable menu item - and the current value is displayed inside'',
    ''    brackets.'',
    ''    Press the key in the (#) prefix to jump directly to that'',
    ''    location. You will be returned to the current search results'',
    ''    after exiting this new menu.'',
    ''o The 'Selects:' line tells what symbols will be automatically'',
    ''  selected if this symbol is selected (y or m)'',
    ''o The 'Selected by' line tells what symbol has selected this symbol'',
    [],
    ''Only relevant lines are shown.'',
    [],
    [],
    ''Search examples:'',
    ''Examples: USB	=> find all symbols containing USB'',
    ''          ^USB => find all symbols starting with USB'',
    ''          USB$ => find all symbols ending with USB'',
    []]"

definition search_help :: string where "search_help = join_lines search_help_lines"

end
