(* ===== verification/KMconf.thy ===== *)
theory KMconf
  imports KAsk KAuto KSearch KMconfTexts KMenuBox KCheckList KInputBox
begin

text \<open>
  The front end on the screen, \<open>buildroot/support/kconfig/mconf.c\<close>: the list of a menu, the menus and their keys, the
  choices, the input of values and file names, the search, and \<open>main\<close> from the point where the configuration
  files have been parsed. An operation takes the session and the state of the symbols; a session that waits for a key for
  ever stops in \<open>None\<close>. The loops take a bound on their rounds. Instructions, titles and subtitles are only
  drawn and left out, and so is the handler of a signal.
\<close>

record ui =
  ui_kb :: keyboard
  ui_items :: item_list
  ui_input :: string
  ui_current :: "nat option"
  ui_count :: nat
  ui_all :: bool
  ui_exit :: bool
  ui_open :: "nat list"
  ui_file :: string
  ui_ops :: "file_op list"

text \<open>What does not change: the outside world after the operations on files so far, and the finished menus.\<close>

record menuconf =
  mc_world :: "file_op list \<Rightarrow> wenv"
  mc_title :: string
  mc_prefix :: string
  mc_root :: mtree
  mc_place :: "nat \<Rightarrow> string \<times> nat"
  mc_regcomp :: "string \<Rightarrow> (string \<Rightarrow> (nat \<times> nat) option) option"
  mc_single :: bool

type_synonym 'a um = "(ui, 'a) rm"

section \<open>Dialogs in a session\<close>

definition run_dialog :: "(ui \<Rightarrow> ('a \<times> ui) dialog) \<Rightarrow> 'a um" where
  "run_dialog f = (\<lambda>u. case f u of Got (x, u1) \<Rightarrow> kret (Some x, u1) | Waits \<Rightarrow> kret (None, u) | Crash \<Rightarrow> kcrash)"

definition run_items :: "(item_list \<Rightarrow> item_list option) \<Rightarrow> unit um" where
  "run_items f = (\<lambda>u. case f (ui_items u) of None \<Rightarrow> kcrash | Some l \<Rightarrow> kret (Some (), u\<lparr>ui_items := l\<rparr>))"

definition ui_menu :: "nat option \<Rightarrow> int \<Rightarrow> (int \<times> int) um" where
  "ui_menu active scroll =
     run_dialog (\<lambda>u. map_dialog (\<lambda>(r, l, s, kb). ((r, s), u\<lparr>ui_items := l, ui_kb := kb\<rparr>))
       (dialog_menu active scroll (ui_kb u) (ui_items u)))"

definition ui_checklist :: "int \<Rightarrow> int \<Rightarrow> int \<Rightarrow> int um" where
  "ui_checklist h w n =
     run_dialog (\<lambda>u. map_dialog (\<lambda>(r, l, kb). (r, u\<lparr>ui_items := l, ui_kb := kb\<rparr>))
       (dialog_checklist h w n (ui_kb u) (ui_items u)))"

definition ui_inputbox :: "int \<Rightarrow> int \<Rightarrow> string \<Rightarrow> int um" where
  "ui_inputbox h w init =
     run_dialog (\<lambda>u. map_dialog (\<lambda>(r, t, kb). (r, u\<lparr>ui_input := t, ui_kb := kb\<rparr>))
       (dialog_inputbox h w (Some init) (ui_input u) (ui_kb u)))"

definition ui_yesno :: "int \<Rightarrow> int \<Rightarrow> int um" where
  "ui_yesno h w = run_dialog (\<lambda>u. map_dialog (\<lambda>(r, kb). (r, u\<lparr>ui_kb := kb\<rparr>)) (dialog_yesno h w (ui_kb u)))"

definition show_textbox_ext :: "'d text_conf \<Rightarrow> string \<Rightarrow> nat \<Rightarrow> int \<Rightarrow> 'd \<Rightarrow> (int \<times> nat \<times> int \<times> 'd) um" where
  "show_textbox_ext C text vscroll hscroll d =
     run_dialog (\<lambda>u. map_dialog (\<lambda>(r, _, vs, hs, d1, kb). ((r, vs, hs, d1), u\<lparr>ui_kb := kb\<rparr>))
       (dialog_textbox C text vscroll hscroll d (ui_kb u)))"

definition show_textbox :: "string \<Rightarrow> int \<Rightarrow> int \<Rightarrow> unit um" where
  "show_textbox text r c = cbind (show_textbox_ext (plain_box r c) text 0 0 ()) (\<lambda>_. cret ())"

definition show_helptext :: "string \<Rightarrow> unit um" where "show_helptext text = show_textbox text 0 0"

text \<open>\<open>show_help\<close>: lines are broken at the width of the screen.\<close>

definition show_help :: "menuconf \<Rightarrow> mtree \<Rightarrow> unit um" where
  "show_help M t =
     cbind (cget (\<lambda>u. nat (kb_width (ui_kb u) - 10))) (\<lambda>w.
     cbind (clift (menu_get_ext_help (mc_prefix M) (mc_root M) (mc_place M) (mt_menu t) (str_new\<lparr>gs_max_width := w\<rparr>)))
       (\<lambda>help. show_helptext (str_get help)))"

text \<open>\<open>conf_message_callback\<close>, into a buffer of \<open>PATH_MAX + 1\<close> bytes; after \<open>save_and_exit\<close> it prints to the terminal.\<close>

definition conf_message_callback :: "string \<Rightarrow> unit um" where
  "conf_message_callback text =
     cbind (cget ui_exit) (\<lambda>e. if e then cret () else show_textbox (take 4096 text) 6 60)"

section \<open>The list of a menu\<close>

text \<open>\<open>%*c\<close> with a blank: at least one.\<close>

definition pad :: "int \<Rightarrow> string" where "pad n = replicate (max 1 (nat n)) CHR '' ''"

definition add_entry :: "string \<Rightarrow> char \<Rightarrow> mtree \<Rightarrow> unit um" where
  "add_entry text tag t =
     cseq (run_items (item_make text)) (cseq (run_items (item_set_tag tag)) (run_items (item_set_data (tree_id t))))"

definition mark_entry :: "char \<Rightarrow> mtree \<Rightarrow> unit um" where
  "mark_entry tag t = cseq (run_items (item_set_tag tag)) (run_items (item_set_data (tree_id t)))"

definition count_child :: "unit um" where "count_child = cmod (\<lambda>u. u\<lparr>ui_count := ui_count u + 1\<rparr>)"

definition entry_prompt :: "mtree \<Rightarrow> string um" where
  "entry_prompt t = clift (kget (\<lambda>st. name_str (menu_get_prompt st (mt_menu t))))"

definition tri_char :: "tristate \<Rightarrow> char" where
  "tri_char v = (case v of TYes \<Rightarrow> CHR ''*'' | TMod \<Rightarrow> CHR ''M'' | TNo \<Rightarrow> CHR '' '')"

definition bool_char :: "tristate \<Rightarrow> char" where "bool_char v = (if v = TNo then CHR '' '' else CHR ''*'')"

text \<open>
  The parts of \<open>build_conf\<close> for an entry that is shown. The result is what follows: nothing, or the children with so
  much more indentation.
\<close>

datatype childs = Return | Childs int

definition build_menu :: "menuconf \<Rightarrow> int \<Rightarrow> mtree \<Rightarrow> property \<Rightarrow> childs um" where
  "build_menu M ind t p =
     cbind (entry_prompt t) (\<lambda>prompt.
     cbind (cget (\<lambda>u. tree_id t \<in> set (ui_open u))) (\<lambda>opened.
       (if p_kind p = P_MENU then
          cseq count_child
          (cseq (if mc_single M
                 then add_entry ((if opened then ''-->'' else ''++>'') @ pad (ind + 1) @ prompt) CHR ''m'' t
                 else cbind (clift (menu_is_empty t)) (\<lambda>e.
                   add_entry (''   '' @ pad (ind + 1) @ prompt @ ''  '' @ (if e then ''----'' else ''--->'')) CHR ''m'' t))
            (cret (if mc_single M \<and> opened then Childs 2 else Return)))
        else cbind (clift (kget (\<lambda>st. menu_get_prompt st (mt_menu t)))) (\<lambda>po.
          cseq (cwhen (po \<noteq> None)
                  (cseq count_child
                    (if p_kind p = P_COMMENT
                     then add_entry (''   '' @ pad (ind + 1) @ ''*** '' @ prompt @ '' ***'') CHR '':'' t
                     else add_entry (''---'' @ pad (ind + 1) @ prompt) CHR '':'' t)))
            (cret (Childs 2))))))"

text \<open>The last visible member of a choice that is its value.\<close>

definition choice_member :: "sref option \<Rightarrow> mtree \<Rightarrow> mtree option \<Rightarrow> mtree option um" where
  "choice_member def_sym c acc =
     cbind (clift (menu_is_visible c)) (\<lambda>v. cret (if v \<and> m_sym (mt_menu c) = def_sym then Some c else acc))"

text \<open>A choice, with the recursive calls for its members.\<close>

definition build_choice :: "int \<Rightarrow> mtree \<Rightarrow> (int \<Rightarrow> mtree \<Rightarrow> unit um) \<Rightarrow> sref \<Rightarrow> childs um" where
  "build_choice ind t rec r =
     cbind (clift (kget (\<lambda>st. sym_get_type st r))) (\<lambda>ty.
     cbind (clift (kget (\<lambda>st. sym_get_choice_value st r))) (\<lambda>def_sym.
     cseq count_child
     (cbind (cfold (choice_member def_sym) (mt_list t) None) (\<lambda>def_menu.
      cbind (clift (kget (\<lambda>st. (sym_get_tristate_value st r, sym_is_changable st r)))) (\<lambda>(val, changable).
      cseq (if changable
            then cseq (if ty = S_BOOLEAN then run_items (item_make [CHR ''['', bool_char val, CHR '']''])
                       else if ty = S_TRISTATE then run_items (item_make [CHR ''<'', tri_char val, CHR ''>''])
                       else cret ())
                   (mark_entry CHR ''t'' t)
            else add_entry ''   '' (if def_menu \<noteq> None then CHR ''t'' else CHR '':'') t)
     (cbind (entry_prompt t) (\<lambda>prompt.
      cseq (run_items (item_add_str (pad (ind + 1) @ prompt)))
        (if val = TYes
         then cseq (case def_menu of
                      None \<Rightarrow> cret ()
                    | Some d \<Rightarrow>
                        cbind (entry_prompt d) (\<lambda>dp.
                        cseq (run_items (item_add_str ('' ('' @ dp @ '')'')))
                        (cseq (run_items (item_add_str ''  --->''))
                          (cwhen (mt_list d \<noteq> []) (rec (ind + 2) d)))))
                   (cret Return)
         else cret (Childs 2)))))))))"

definition new_mark :: "kst \<Rightarrow> sref \<Rightarrow> string" where
  "new_mark st r = (if sym_has_value (sym_at st r) \<or> \<not> sym_is_changable st r then [] else '' (NEW)'')"

text \<open>The brackets of a symbol that is \<open>bool\<close> or \<open>tristate\<close>.\<close>

definition tri_mark :: "kst \<Rightarrow> symbol_type \<Rightarrow> sref \<Rightarrow> tristate \<Rightarrow> string" where
  "tri_mark st ty r val =
     (if ty = S_BOOLEAN
      then (if sym_is_changable st r then [CHR ''['', bool_char val, CHR '']''] else [CHR ''-'', bool_char val, CHR ''-''])
      else if \<not> sym_is_changable st r then [CHR ''-'', tri_char val, CHR ''-'']
      else if s_rev_tri (sym_at st r) = TMod then [CHR ''{'', tri_char val, CHR ''}'']
      else [CHR ''<'', tri_char val, CHR ''>''])"

definition build_symbol :: "int \<Rightarrow> mtree \<Rightarrow> sref \<Rightarrow> childs um" where
  "build_symbol ind t r =
     cbind (clift (kget (\<lambda>st. sym_get_type st r))) (\<lambda>ty.
     cbind (entry_prompt t) (\<lambda>prompt.
     cbind (cget (\<lambda>u. ui_current u = Some (tree_id t))) (\<lambda>current.
     if current then cseq (add_entry (''---'' @ pad (ind + 1) @ prompt) CHR '':'' t) (cret (Childs 2))
     else
       cseq count_child
       (cbind (clift (kget (\<lambda>st. (sym_get_tristate_value st r, sym_is_choice_value (sym_at st r), new_mark st r)))) (\<lambda>(val, member, mark).
        if \<not> (member \<and> val = TYes) \<and> ty \<noteq> S_BOOLEAN \<and> ty \<noteq> S_TRISTATE
        then cbind (clift (get_string sym_calc r)) (\<lambda>v.
             cseq (run_items (item_make (''('' @ v @ '')'')))
             (cseq (run_items (item_add_str (pad (max 0 (ind - (2 + int (length v)) + 4)) @ prompt @ mark)))
             (cseq (mark_entry CHR ''s'' t) (cret (Childs 2)))))
        else
          cseq (if member \<and> val = TYes then add_entry ''   '' CHR '':'' t
                else cbind (clift (kget (\<lambda>st. tri_mark st ty r val))) (\<lambda>b. add_entry b CHR ''t'' t))
          (cseq (run_items (item_add_str (pad (ind + 1) @ prompt @ mark)))
          (cbind (clift (kget (\<lambda>st. prompt_prop st (mt_menu t)))) (\<lambda>po. case po of
             None \<Rightarrow> clift kcrash
           | Some p \<Rightarrow>
               if p_kind p = P_MENU
               then cbind (clift (menu_is_empty t)) (\<lambda>e.
                 cseq (run_items (item_add_str (''  '' @ (if e then ''----'' else ''--->'')))) (cret Return))
               else cret (Childs 2)))))))))"

text \<open>\<open>build_conf\<close>; \<open>recs\<close> are the recursive calls for the entries of the list, in its order.\<close>

definition call_child :: "mtree list \<Rightarrow> (int \<Rightarrow> unit um) list \<Rightarrow> int \<Rightarrow> mtree \<Rightarrow> unit um" where
  "call_child cs recs i c = (case find (\<lambda>p. fst p = c) (zip cs recs) of Some p \<Rightarrow> snd p i | None \<Rightarrow> cret ())"

definition build_body :: "menuconf \<Rightarrow> mtree \<Rightarrow> (int \<Rightarrow> unit um) list \<Rightarrow> int \<Rightarrow> unit um" where
  "build_body M t recs ind =
     cbind (clift (menu_is_visible t)) (\<lambda>visible.
     cbind (cget ui_all) (\<lambda>all.
     if all \<and> \<not> menu_has_prompt (mt_menu t) \<or> \<not> all \<and> \<not> visible then cret ()
     else
       cbind (case m_sym (mt_menu t) of
                None \<Rightarrow>
                  cbind (clift (kget (\<lambda>st. prompt_prop st (mt_menu t)))) (\<lambda>po.
                  cbind (cget (\<lambda>u. ui_current u = Some (tree_id t))) (\<lambda>current.
                    case po of
                      None \<Rightarrow> cret (Childs 0)
                    | Some p \<Rightarrow> if current then cret (Childs 0) else build_menu M ind t p))
              | Some r \<Rightarrow>
                  cbind (clift (ksym r)) (\<lambda>s.
                    if sym_is_choice s then build_choice ind t (call_child (mt_list t) recs) r
                    else build_symbol ind t r))
         (\<lambda>next. case next of Return \<Rightarrow> cret () | Childs doint \<Rightarrow> cfor recs (\<lambda>f. f (ind + doint)))))"

primrec build_conf :: "menuconf \<Rightarrow> mtree \<Rightarrow> int \<Rightarrow> unit um" where
  "build_conf M (MT m cs) = build_body M (MT m cs) (map (build_conf M) cs)"

section \<open>Choices, values and files\<close>

text \<open>One member in the list of a choice.\<close>

definition choice_entry :: "sref \<Rightarrow> sref option \<Rightarrow> mtree \<Rightarrow> unit um" where
  "choice_entry r active c =
     cbind (clift (menu_is_visible c)) (\<lambda>v.
     cwhen v
       (cbind (entry_prompt c) (\<lambda>prompt.
        cseq (if m_sym (mt_menu c) \<noteq> None then run_items (item_make prompt)
              else cseq (run_items (item_make (''*** '' @ prompt @ '' ***''))) (run_items (item_set_tag CHR '':'')))
        (cseq (run_items (item_set_data (tree_id c)))
        (cseq (cwhen (m_sym (mt_menu c) = active) (run_items (item_set_selected True)))
        (cbind (clift (kget (\<lambda>st. sym_get_choice_value st r))) (\<lambda>d.
          cwhen (m_sym (mt_menu c) = d) (run_items (item_set_tag CHR ''X'')))))))))"

text \<open>The entry a selected item stands for, and whether an item is selected.\<close>

definition ui_selected :: "bool um" where
  "ui_selected = (\<lambda>u. let (b, l) = item_activate_selected (ui_items u) in kret (Some b, u\<lparr>ui_items := l\<rparr>))"

definition current_item :: "item um" where
  "current_item = (\<lambda>u. case cur_item (ui_items u) of None \<Rightarrow> kcrash | Some i \<Rightarrow> kret (Some i, u))"

definition entry_at :: "menuconf \<Rightarrow> nat \<Rightarrow> mtree um" where
  "entry_at M i = (case path_to i (mc_root M) of Some (t # _) \<Rightarrow> cret t | _ \<Rightarrow> clift kcrash)"

definition selected_entry :: "menuconf \<Rightarrow> mtree um" where
  "selected_entry M = cbind current_item (\<lambda>i. case it_data i of None \<Rightarrow> clift kcrash | Some d \<Rightarrow> entry_at M d)"

definition reset_items :: "mtree \<Rightarrow> unit um" where
  "reset_items t = cmod (\<lambda>u. u\<lparr>ui_items := item_reset (ui_items u), ui_current := Some (tree_id t)\<rparr>)"

fun choice_rounds :: "menuconf \<Rightarrow> nat \<Rightarrow> mtree \<Rightarrow> sref \<Rightarrow> sref option \<Rightarrow> unit um" where
  "choice_rounds M 0 t r active = cstuck"
| "choice_rounds M (Suc n) t r active =
     cseq (reset_items t)
     (cseq (cfor (mt_list t) (choice_entry r active))
     (cbind (ui_checklist MENUBOX_HEIGTH_MIN MENUBOX_WIDTH_MIN CHECKLIST_HEIGTH_MIN) (\<lambda>res.
      cbind ui_selected (\<lambda>selected.
        if res = 0 then
          (if \<not> selected then cret ()
           else cbind (selected_entry M) (\<lambda>c. case m_sym (mt_menu c) of
             None \<Rightarrow> choice_rounds M n t r active
           | Some v \<Rightarrow> cbind (clift (sym_set_tristate_value v TYes)) (\<lambda>_. cret ())))
        else if res = 1 then
          (if selected
           then cbind (selected_entry M) (\<lambda>c. cseq (show_help M c) (choice_rounds M n t r (m_sym (mt_menu c))))
           else cseq (show_help M t) (choice_rounds M n t r active))
        else if res = KEY_ESC \<or> res = - ERRDISPLAYTOOSMALL then cret ()
        else choice_rounds M n t r active))))"

definition mconf_choice :: "menuconf \<Rightarrow> nat \<Rightarrow> mtree \<Rightarrow> sref \<Rightarrow> unit um" where
  "mconf_choice M n t r =
     cbind (clift (kget (\<lambda>st. sym_get_choice_value st r))) (\<lambda>active. choice_rounds M n t r active)"

definition input_text :: "string um" where "input_text = cget (\<lambda>u. c_string (ui_input u))"

fun mconf_string :: "menuconf \<Rightarrow> nat \<Rightarrow> mtree \<Rightarrow> sref \<Rightarrow> unit um" where
  "mconf_string M 0 t r = cstuck"
| "mconf_string M (Suc n) t r =
     cbind (clift (get_string sym_calc r)) (\<lambda>v.
     cbind (ui_inputbox 10 75 v) (\<lambda>res.
       if res = 0 then
         cbind input_text (\<lambda>w.
         cbind (clift (sym_set_string_value r w)) (\<lambda>ok.
           if ok then cret ()
           else cseq (show_textbox ''You have made an invalid entry.'' 5 43) (mconf_string M n t r)))
       else if res = 1 then cseq (show_help M t) (mconf_string M n t r)
       else if res = KEY_ESC then cret ()
       else mconf_string M n t r))"

text \<open>\<open>set_config_filename\<close>: the name is cut to the buffer.\<close>

definition set_config_filename :: "string \<Rightarrow> unit um" where
  "set_config_filename name = cmod (\<lambda>u. u\<lparr>ui_file := take 4096 name\<rparr>)"

definition ui_world :: "menuconf \<Rightarrow> wenv um" where "ui_world M = cget (\<lambda>u. mc_world M (ui_ops u))"

fun conf_load :: "menuconf \<Rightarrow> nat \<Rightarrow> unit um" where
  "conf_load M 0 = cstuck"
| "conf_load M (Suc n) =
     cbind (cget ui_file) (\<lambda>name.
     cbind (ui_inputbox 11 55 name) (\<lambda>res.
       if res = 0 then
         cbind input_text (\<lambda>w.
           if w = [] then cret ()
           else cbind (ui_world M) (\<lambda>W.
             cbind (clift (conf_read (we_env W) (Some w))) (\<lambda>bad.
               if \<not> bad then cseq (set_config_filename w) (clift (sym_set_change_count 1))
               else cseq (show_textbox ''File does not exist!'' 5 38) (conf_load M n))))
       else if res = 1 then cseq (show_helptext load_config_help) (conf_load M n)
       else if res = KEY_ESC then cret ()
       else conf_load M n))"

text \<open>Writing a file: the operations are done, and success is reported. The result is whether it failed.\<close>

definition write_file :: "menuconf \<Rightarrow> string \<Rightarrow> bool um" where
  "write_file M name =
     cbind (ui_world M) (\<lambda>W.
     cbind (clift (conf_write W (Some name) (mc_title M) (mt_list (mc_root M)))) (\<lambda>(bad, ops).
     cseq (cmod (\<lambda>u. u\<lparr>ui_ops := ui_ops u @ ops\<rparr>))
     (cseq (cwhen (\<not> bad) (conf_message_callback
              (''configuration written to '' @ (let (dir, base) = split_name W name in dir @ base))))
       (cret bad))))"

fun conf_save :: "menuconf \<Rightarrow> nat \<Rightarrow> unit um" where
  "conf_save M 0 = cstuck"
| "conf_save M (Suc n) =
     cbind (cget ui_file) (\<lambda>name.
     cbind (ui_inputbox 11 55 name) (\<lambda>res.
       if res = 0 then
         cbind input_text (\<lambda>w.
           if w = [] then cret ()
           else cbind (write_file M w) (\<lambda>bad.
             if \<not> bad then set_config_filename w
             else cseq (show_textbox ''Can't create file!  Probably a nonexistent directory.'' 5 60) (conf_save M n)))
       else if res = 1 then cseq (show_helptext save_config_help) (conf_save M n)
       else if res = KEY_ESC then cret ()
       else conf_save M n))"

section \<open>The search\<close>

definition JUMP_NB :: nat where "JUMP_NB = 9"

text \<open>
  \<open>update_text\<close>: the places on the page get their key in front, nine at most. The keys with their places are filled in
  by the first call; before they are not set.
\<close>

definition put_text :: "nat \<Rightarrow> string \<Rightarrow> string \<Rightarrow> string" where
  "put_text off h buf = take off buf @ h @ drop (off + length h) buf"

definition jump_char :: "jump_key \<Rightarrow> nat" where "jump_char j = 48 + jk_index j mod JUMP_NB + 1"

fun update_places :: "jump_key list \<Rightarrow> nat \<Rightarrow> nat \<Rightarrow> string \<Rightarrow> (nat \<times> nat) list \<Rightarrow> string \<times> (nat \<times> nat) list" where
  "update_places [] a z buf ks = (buf, ks)"
| "update_places (j # js) a z buf ks =
     (if a \<le> jk_offset j \<and> jk_offset j < z
      then if length ks < JUMP_NB
           then update_places js a z (put_text (jk_offset j) [CHR ''('', char_of (jump_char j), CHR '')''] buf)
                  (ks @ [(jump_char j, jk_target j)])
           else update_places js a z (put_text (jk_offset j) ''   '' buf) ks
      else update_places js a z buf ks)"

definition update_text :: "jump_key list \<Rightarrow> ((nat \<times> nat) list option) update_text" where
  "update_text js = Some (\<lambda>buf a z d. let (buf1, ks) = update_places js a z buf [] in (buf1, Some ks))"

definition search_box :: "jump_key list \<Rightarrow> (nat \<times> nat) list option text_conf" where
  "search_box js = \<lparr>tc_height = 0, tc_width = 0, tc_update = update_text js,
     tc_keys = (\<lambda>d. case d of None \<Rightarrow> [] | Some ks \<Rightarrow> map (int \<circ> fst) ks)\<rparr>"

text \<open>The pattern that is asked for, without the prefix of the variables; \<open>None\<close>: no search.\<close>

fun search_pattern :: "menuconf \<Rightarrow> nat \<Rightarrow> string option um" where
  "search_pattern M 0 = cstuck"
| "search_pattern M (Suc n) =
     cbind (ui_inputbox 10 75 []) (\<lambda>res.
       if res = 0 then
         cbind input_text (\<lambda>w.
           cret (Some (if map to_lower (take (length (mc_prefix M)) w) = map to_lower (mc_prefix M)
                       then drop (length (mc_prefix M)) w else w)))
       else if res = 1 then cseq (show_helptext search_help) (search_pattern M n)
       else cret None)"

text \<open>The keys that are read after the box has ended; they are not set if it was too small from the start.\<close>

definition jump_keys :: "(nat \<times> nat) list option \<Rightarrow> (nat \<times> nat) list um" where
  "jump_keys d = (case d of None \<Rightarrow> clift kcrash | Some ks \<Rightarrow> cret ks)"

definition parent_of :: "menuconf \<Rightarrow> nat \<Rightarrow> mtree um" where
  "parent_of M i = (case path_to i (mc_root M) of Some (_ # p # _) \<Rightarrow> cret p | _ \<Rightarrow> clift kcrash)"

fun search_rounds :: "menuconf \<Rightarrow> (mtree \<Rightarrow> nat option \<Rightarrow> unit um) \<Rightarrow> nat \<Rightarrow> sref list \<Rightarrow> nat \<Rightarrow> int \<Rightarrow> unit um" where
  "search_rounds M menu 0 rs vscroll hscroll = cstuck"
| "search_rounds M menu (Suc n) rs vscroll hscroll =
     cbind (clift (get_relations_str (mc_root M) (mc_place M) rs (Some []))) (\<lambda>(res, head).
     let js = (case head of None \<Rightarrow> [] | Some js \<Rightarrow> js) in
     cbind (show_textbox_ext (search_box js) (str_get res) vscroll hscroll None) (\<lambda>(dres, vs, hs, d).
     cbind (jump_keys d) (\<lambda>ks.
       let hits = filter (\<lambda>k. dres = int (fst k)) ks in
       cseq (cfor hits (\<lambda>k. cbind (parent_of M (snd k)) (\<lambda>p. menu p (Some (snd k)))))
         (if hits \<noteq> [] then search_rounds M menu n rs vs hs else cret ()))))"

definition search_conf :: "menuconf \<Rightarrow> (mtree \<Rightarrow> nat option \<Rightarrow> unit um) \<Rightarrow> nat \<Rightarrow> unit um" where
  "search_conf M menu n =
     cbind (search_pattern M n) (\<lambda>po. case po of
       None \<Rightarrow> cret ()
     | Some pat \<Rightarrow>
         cbind (clift (sym_re_search (mc_regcomp M) pat)) (\<lambda>found.
           search_rounds M menu n (case found of None \<Rightarrow> [] | Some rs \<Rightarrow> rs) 0 0))"

section \<open>Menus\<close>

text \<open>What the button \<open>Select\<close> does with the entry of an item, by the tag of the item.\<close>

definition select_entry :: "menuconf \<Rightarrow> (mtree \<Rightarrow> nat option \<Rightarrow> unit um) \<Rightarrow> nat \<Rightarrow> char \<Rightarrow> mtree \<Rightarrow> unit um" where
  "select_entry M menu n tag t =
     (if tag = CHR ''m'' then
        (if mc_single M
         then cmod (\<lambda>u. u\<lparr>ui_open := (if tree_id t \<in> set (ui_open u) then removeAll (tree_id t) (ui_open u)
                                       else tree_id t # ui_open u)\<rparr>)
         else menu t None)
      else if tag = CHR ''t'' then
        (case m_sym (mt_menu t) of
           None \<Rightarrow> clift kcrash
         | Some r \<Rightarrow>
             cbind (clift (kget (\<lambda>st. sym_is_choice (sym_at st r) \<and> sym_get_tristate_value st r = TYes))) (\<lambda>b.
               if b then mconf_choice M n t r
               else cbind (clift (kget (\<lambda>st. prompt_prop st (mt_menu t)))) (\<lambda>po. case po of
                 None \<Rightarrow> clift kcrash
               | Some p \<Rightarrow> cwhen (p_kind p = P_MENU) (menu t None))))
      else if tag = CHR ''s'' then
        (case m_sym (mt_menu t) of None \<Rightarrow> clift kcrash | Some r \<Rightarrow> mconf_string M n t r)
      else cret ())"

text \<open>An operation on the symbol of an entry with the tag \<open>t\<close>.\<close>

definition on_symbol :: "char \<Rightarrow> mtree option \<Rightarrow> (sref \<Rightarrow> unit um) \<Rightarrow> unit um" where
  "on_symbol tag t f =
     cwhen (tag = CHR ''t'') (case t of
       None \<Rightarrow> clift kcrash
     | Some t1 \<Rightarrow> (case m_sym (mt_menu t1) of None \<Rightarrow> clift kcrash | Some r \<Rightarrow> f r))"

text \<open>The result of the dialog for the current item, whose entry is \<open>t\<close>.\<close>

definition menu_command :: "menuconf \<Rightarrow> (mtree \<Rightarrow> nat option \<Rightarrow> unit um) \<Rightarrow> nat \<Rightarrow> int \<Rightarrow> char \<Rightarrow> mtree option \<Rightarrow> unit um" where
  "menu_command M menu n res tag t =
     (if res = 0 then (case t of None \<Rightarrow> cret () | Some t1 \<Rightarrow> select_entry M menu n tag t1)
      else if res = 2 then
        (case t of
           None \<Rightarrow> show_helptext mconf_readme
         | Some t1 \<Rightarrow> if m_sym (mt_menu t1) \<noteq> None then show_help M t1 else show_helptext mconf_readme)
      else if res = 3 then conf_save M n
      else if res = 4 then conf_load M n
      else if res = 5 then
        on_symbol tag t (\<lambda>r.
          cbind (clift (sym_set_tristate_value r TYes)) (\<lambda>ok. cwhen (\<not> ok)
            (cbind (clift (sym_set_tristate_value r TMod)) (\<lambda>ok2. cwhen ok2 (show_textbox setmod_text 6 74)))))
      else if res = 6 then on_symbol tag t (\<lambda>r. cbind (clift (sym_set_tristate_value r TNo)) (\<lambda>_. cret ()))
      else if res = 7 then on_symbol tag t (\<lambda>r. cbind (clift (sym_set_tristate_value r TMod)) (\<lambda>_. cret ()))
      else if res = 8 then
        (if tag = CHR ''m'' then (case t of None \<Rightarrow> clift kcrash | Some t1 \<Rightarrow> menu t1 None)
         else on_symbol tag t (\<lambda>r. cbind (clift (sym_toggle_tristate_value r)) (\<lambda>_. cret ())))
      else if res = 9 then search_conf M menu n
      else if res = 10 then cmod (\<lambda>u. u\<lparr>ui_all := \<not> ui_all u\<rparr>)
      else cret ())"

text \<open>The entry the result is about: \<open>None\<close>, to go on with the next round; else the tag and the entry, if there is one.\<close>

definition chosen_item :: "menuconf \<Rightarrow> (char \<times> mtree option) option um" where
  "chosen_item M =
     cbind (cget (\<lambda>u. item_count (ui_items u))) (\<lambda>k.
     cbind (if k \<noteq> 0 then ui_selected else cret True) (\<lambda>selected.
       if \<not> selected then cret None
       else cbind current_item (\<lambda>i.
         if k \<noteq> 0 \<and> it_tag i = CHR 0x00 then cret None
         else (case it_data i of
                 None \<Rightarrow> cret (Some (it_tag i, None))
               | Some d \<Rightarrow> cbind (entry_at M d) (\<lambda>t. cret (Some (it_tag i, Some t)))))))"

fun mconf_conf :: "menuconf \<Rightarrow> nat \<Rightarrow> mtree \<Rightarrow> nat option \<Rightarrow> int \<Rightarrow> unit um" where
  "mconf_conf M 0 t active scroll = cstuck"
| "mconf_conf M (Suc n) t active scroll =
     cseq (reset_items t)
     (cseq (build_conf M t 0)
     (cbind (cget ui_count) (\<lambda>count.
        if count = 0 then cret ()
        else cbind (ui_menu active scroll) (\<lambda>(res, scroll1).
          if res = 1 \<or> res = KEY_ESC \<or> res = - ERRDISPLAYTOOSMALL then cret ()
          else cbind (chosen_item M) (\<lambda>chosen. case chosen of
            None \<Rightarrow> mconf_conf M n t active scroll1
          | Some (tag, entry) \<Rightarrow>
              cseq (menu_command M (\<lambda>t1 a. mconf_conf M n t1 a 0) n res tag entry)
                (mconf_conf M n t (map_option tree_id entry) scroll1))))))"

section \<open>The program\<close>

definition WINDOW_HEIGTH_MIN :: int where "WINDOW_HEIGTH_MIN = 19"
definition WINDOW_WIDTH_MIN :: int where "WINDOW_WIDTH_MIN = 80"

text \<open>\<open>handle_exit\<close>: the exit status, or \<open>ESC\<close> to go on.\<close>

definition handle_exit :: "menuconf \<Rightarrow> int um" where
  "handle_exit M =
     cseq (cmod (\<lambda>u. u\<lparr>ui_exit := True\<rparr>))
     (cbind (clift (kget conf_get_changed)) (\<lambda>changed.
      cbind (if changed then ui_yesno 6 60 else cret (- 1)) (\<lambda>res.
        if res = 0 then
          cbind (cget ui_file) (\<lambda>name. cbind (write_file M name) (\<lambda>bad. cret (if bad then 1 else 0)))
        else if res = - 1 then cret 0
        else cret (if res \<noteq> KEY_ESC then 0 else res))))"

fun exit_rounds :: "menuconf \<Rightarrow> nat \<Rightarrow> int um" where
  "exit_rounds M 0 = cstuck"
| "exit_rounds M (Suc n) =
     cseq (mconf_conf M n (mc_root M) None 0)
     (cbind (handle_exit M) (\<lambda>res. if res = KEY_ESC then exit_rounds M n else cret res))"

definition mconf_main :: "menuconf \<Rightarrow> nat \<Rightarrow> int um" where
  "mconf_main M n =
     cbind (ui_world M) (\<lambda>W.
     cseq (cbind (clift (conf_read (we_env W) None)) (\<lambda>_. cret ()))
     (let mode = ke_getenv (we_env W) ''MENUCONFIG_MODE'';
          M1 = M\<lparr>mc_single := (case mode of None \<Rightarrow> False | Some s \<Rightarrow> map to_lower s = ''single_menu'')\<rparr>
      in cbind (cget (\<lambda>u. kb_height (ui_kb u) < WINDOW_HEIGTH_MIN \<or> kb_width (ui_kb u) < WINDOW_WIDTH_MIN)) (\<lambda>small.
           if small then cret 1
           else cseq (set_config_filename (conf_get_configname (we_env W))) (exit_rounds M1 n))))"

end
