(* ===== verification/KMconfFacts.thy ===== *)
theory KMconfFacts
  imports KMconf KFrontFacts
begin

text \<open>
  A session on the screen keeps what the operations on symbols keep (the locale \<open>session_invariant\<close>, interpreted
  for the user's values); and on a screen that is too small, the boxes for a value and for a file name are opened for
  ever.
\<close>

section \<open>Dialogs and items\<close>

lemma csafe_dialog [csafe_intros]: "csafe I (run_dialog f)"
  unfolding csafe_def run_dialog_def
  by (auto simp: triple_def kret_def kcrash_def split: dialog.split)

lemma csafe_items [csafe_intros]: "csafe I (run_items f)"
  unfolding csafe_def run_items_def by (auto simp: triple_def kret_def kcrash_def split: option.split)

lemma csafe_boxes [csafe_intros]:
  "csafe I (ui_menu active scroll)" "csafe I (ui_checklist h w n)" "csafe I (ui_inputbox h w init)" "csafe I (ui_yesno h w)"
  "csafe I (show_textbox_ext C s v hs d)"
  unfolding ui_menu_def ui_checklist_def ui_inputbox_def ui_yesno_def show_textbox_ext_def by (rule csafe_dialog)+

lemma csafe_textbox [csafe_intros]: "csafe I (show_textbox s r c)" "csafe I (show_helptext s)"
  unfolding show_helptext_def show_textbox_def by (intro csafe_intros)+

lemma csafe_selected [csafe_intros]: "csafe I ui_selected" "csafe I current_item"
  unfolding csafe_def ui_selected_def current_item_def split_def Let_def
  by (auto simp: triple_def kret_def kcrash_def split: option.split)

lemma csafe_entries [csafe_intros]:
  "csafe I (add_entry s tag t)" "csafe I (mark_entry tag t)" "csafe I count_child" "csafe I (entry_prompt t)"
  "csafe I (reset_items t)" "csafe I input_text" "csafe I (set_config_filename name)" "csafe I (ui_world M)"
  "csafe I (jump_keys d)" "csafe I (conf_message_callback s)"
  unfolding add_entry_def mark_entry_def count_child_def entry_prompt_def reset_items_def input_text_def
    set_config_filename_def ui_world_def jump_keys_def conf_message_callback_def
  by (intro csafe_intros)+

lemma csafe_at [csafe_intros]: "csafe I (entry_at M i)" "csafe I (parent_of M i)"
  unfolding entry_at_def parent_of_def by (auto split: option.split list.split intro: csafe_intros)

lemma csafe_chosen [csafe_intros]: "csafe I (selected_entry M)" "csafe I (chosen_item M)"
  unfolding selected_entry_def chosen_item_def by (intro csafe_intros)+

lemma csafe_on_symbol: "(\<And>r. csafe I (f r)) \<Longrightarrow> csafe I (on_symbol tag t f)"
  unfolding on_symbol_def by (intro csafe_intros)

section \<open>Invariants of sessions\<close>

lemma find_mem: "find P xs = Some x \<Longrightarrow> x \<in> set xs"
  by (auto simp: find_Some_iff)

text \<open>What a session uses beyond the questions on a terminal.\<close>

locale session_invariant = question_invariant +
  assumes wide_help: "triple I (menu_get_ext_help pre root place m (str_new\<lparr>gs_max_width := w\<rparr>)) I"
    and toggle: "triple I (sym_toggle_tristate_value r) I"
    and is_empty: "triple I (menu_is_empty t) I"
    and read: "triple I (conf_read e name) I"
    and writing: "triple I (conf_write W out title ts) I"
    and research: "triple I (sym_re_search rc pat) I"
    and relations: "triple I (get_relations_str root place rs (Some [])) I"
    and changes: "triple I (sym_set_change_count k) I"
begin

lemmas used = csafe_lift [OF visible] csafe_lift [OF string] csafe_lift [OF set_tristate] csafe_lift [OF set_string]
  csafe_lift [OF wide_help] csafe_lift [OF toggle] csafe_lift [OF is_empty] csafe_lift [OF read] csafe_lift [OF writing]
  csafe_lift [OF research] csafe_lift [OF relations] csafe_lift [OF changes]

lemma safe_show_help: "csafe I (show_help M t)"
  unfolding show_help_def by (intro csafe_intros used)

lemma safe_build_choice: "(\<And>i c. csafe I (rec i c)) \<Longrightarrow> csafe I (build_choice ind t rec r)"
  unfolding build_choice_def choice_member_def by (intro csafe_intros used)

lemma safe_build_symbol: "csafe I (build_symbol ind t r)"
  unfolding build_symbol_def Let_def by (intro csafe_intros used)

lemma safe_build_menu: "csafe I (build_menu M ind t p)"
  unfolding build_menu_def by (intro csafe_intros used)

lemma safe_call_child: "(\<And>f i. f \<in> set recs \<Longrightarrow> csafe I (f i)) \<Longrightarrow> csafe I (call_child cs recs i c)"
  unfolding call_child_def
  by (auto split: option.split intro!: csafe_intros dest!: find_mem dest: set_zip_rightD)

text \<open>The nested calls of \<open>build_conf\<close> are an argument.\<close>

lemma safe_nested: "(\<And>f. f \<in> set recs \<Longrightarrow> csafe I (f i)) \<Longrightarrow> csafe I (cfor recs (\<lambda>f. f i))"
  by (induction recs) (auto intro!: csafe_intros)

lemma csafe_childs: "csafe I a \<Longrightarrow> (\<And>d. csafe I (f d)) \<Longrightarrow> csafe I (case q of Return \<Rightarrow> a | Childs d \<Rightarrow> f d)"
  by (cases q) auto

lemma safe_build_body: "(\<And>f i. f \<in> set recs \<Longrightarrow> csafe I (f i)) \<Longrightarrow> csafe I (build_body M t recs ind)"
  unfolding build_body_def
  by (intro csafe_intros used csafe_childs safe_nested safe_build_menu safe_build_choice safe_build_symbol
      safe_call_child; assumption)

lemma safe_build_conf: "csafe I (build_conf M t ind)"
proof (induction t arbitrary: ind)
  case (MT m cs)
  show ?case by (simp only: build_conf.simps) (rule safe_build_body, use MT in auto)
qed

text \<open>The rounds.\<close>

lemma safe_choice_rounds: "csafe I (choice_rounds M n t r active)"
proof (induction n arbitrary: active)
  case (Suc n)
  have "csafe I (choice_entry r d c)" for d c
    unfolding choice_entry_def by (intro csafe_intros used)
  then show ?case by (simp only: choice_rounds.simps) (intro csafe_intros used safe_show_help Suc)
qed (simp add: csafe_stuck)

lemma safe_mconf_choice: "csafe I (mconf_choice M n t r)"
  unfolding mconf_choice_def by (intro csafe_intros safe_choice_rounds)

lemma safe_mconf_string: "csafe I (mconf_string M n t r)"
proof (induction n)
  case (Suc n)
  show ?case by (simp only: mconf_string.simps) (intro csafe_intros used safe_show_help Suc)
qed (simp add: csafe_stuck)

lemma safe_load: "csafe I (conf_load M n)"
proof (induction n)
  case (Suc n)
  show ?case by (simp only: conf_load.simps) (intro csafe_intros used Suc)
qed (simp add: csafe_stuck)

lemma safe_write_file: "csafe I (write_file M name)"
  unfolding write_file_def by (intro csafe_intros used)

lemma safe_save: "csafe I (conf_save M n)"
proof (induction n)
  case (Suc n)
  show ?case by (simp only: conf_save.simps) (intro csafe_intros safe_write_file Suc)
qed (simp add: csafe_stuck)

lemma safe_pattern: "csafe I (search_pattern M n)"
proof (induction n)
  case (Suc n)
  show ?case by (simp only: search_pattern.simps) (intro csafe_intros Suc)
qed (simp add: csafe_stuck)

lemma safe_search:
  assumes "\<And>t a. csafe I (menu t a)"
  shows "csafe I (search_conf M menu n)"
proof -
  have "csafe I (search_rounds M menu k rs v h)" for k rs v h
  proof (induction k arbitrary: v h)
    case (Suc k)
    show ?case by (simp only: search_rounds.simps) (intro csafe_intros used assms Suc)
  qed (simp add: csafe_stuck)
  then show ?thesis unfolding search_conf_def by (intro csafe_intros used safe_pattern)
qed

lemma safe_command:
  assumes "\<And>t a. csafe I (menu t a)"
  shows "csafe I (menu_command M menu n res tag t)"
proof -
  have "csafe I (select_entry M menu n tag e)" for e
    unfolding select_entry_def by (intro csafe_intros assms safe_mconf_choice safe_mconf_string)
  then show ?thesis unfolding menu_command_def
    by (intro csafe_intros csafe_on_symbol used assms safe_show_help safe_save safe_load safe_search)
qed

lemma safe_menu: "csafe I (mconf_conf M n t active scroll)"
proof (induction n arbitrary: t active scroll)
  case (Suc n)
  show ?case by (simp only: mconf_conf.simps) (intro csafe_intros safe_build_conf safe_command Suc)
qed (simp add: csafe_stuck)

lemma safe_main: "csafe I (mconf_main M n)"
proof -
  have "csafe I (handle_exit N)" for N
    unfolding handle_exit_def by (intro csafe_intros safe_write_file)
  then have "csafe I (exit_rounds N k)" for N k
  proof (induction k)
    case (Suc k)
    show ?case by (simp only: exit_rounds.simps) (intro csafe_intros safe_menu Suc)
  qed (simp add: csafe_stuck)
  then show ?thesis unfolding mconf_main_def Let_def by (intro csafe_intros used)
qed

end

section \<open>The user's values\<close>

lemma typed_toggle [typed_intros]: "typed (sym_toggle_tristate_value r)"
proof -
  have "typed (toggle_loop r vs u)" for vs u
    by (induction vs arbitrary: u) (auto intro!: typed_intros typed_su)
  then show ?thesis unfolding sym_toggle_tristate_value_def by (intro typed_intros typed_su)
qed

lemma su_empty [su_intros]: "same_user (menu_is_empty t)"
proof -
  have "same_user (none_visible ts)" for ts
    by (induction ts) (simp; intro su_intros; assumption)+
  then show ?thesis by (simp add: menu_is_empty_def)
qed

lemma su_relations [su_intros]: "same_user (get_relations_str root place rs h)"
  unfolding get_relations_str_def split_def by (intro su_intros)

lemma su_search [su_intros]: "same_user (sym_re_search rc pat)"
proof -
  have "same_user (search_loop re rs)" for re rs
    by (induction rs) (auto intro!: su_intros split: option.split prod.split)
  then show ?thesis unfolding sym_re_search_def by (intro su_intros)
qed

lemma su_changes [su_intros]: "same_user (sym_set_change_count k)"
  unfolding sym_set_change_count_def by (intro su_mod) simp

interpretation typed_session: session_invariant user_typed
  by unfold_locales (intro typed_intros typed_same su_intros)+

section \<open>The symbol table\<close>

lemma keep_empty: "keep (in_order tys) (menu_is_empty t)"
proof -
  have "keep (in_order tys) (none_visible ts)" for ts
    by (induction ts) (simp_all, (intro keep_intros keep_visible; assumption)+)
  then show ?thesis by (simp add: menu_is_empty_def)
qed

lemma keep_search: "keep (in_order tys) (sym_re_search rc pat)"
proof -
  have "keep (in_order tys) (search_loop re rs)" for re rs
    by (induction rs) (auto intro!: keep_intros split: option.split prod.split)
  then show ?thesis unfolding sym_re_search_def by (auto intro!: keep_intros split: option.split)
qed

lemma keep_table_write: "keep table_ok (conf_write W out title ts)"
proof -
  have l: "keep table_ok (set_symbol_line pre r)" for pre r
    unfolding set_symbol_line_def conf_write_symbol_def
    by (auto intro!: keep_table keep_table_get_string split: symbol_type.split)
  have v: "keep table_ok (menu_is_visible t)" for t
    by (rule keeps_table) (rule keep_visible)
  have e: "keep table_ok (write_entry pre t out)" for pre t out
    unfolding write_entry_def by (intro keep_table l v)
  have "keep table_ok (kfold body ts a)" if "\<And>t a. keep table_ok (body t a)" for body ts and a :: string
    by (induction ts arbitrary: a) (auto intro!: keep_table that)
  then have w: "keep table_ok (walk body ts [] a)" if "\<And>t a. keep table_ok (body t a)" for body ts and a :: string
    using that unfolding walk_kfold [of ts "[]", simplified] by blast
  have c: "keep table_ok sym_clear_all_valid"
    by (rule keeps_table) (rule keep_clear_all_valid)
  have "keep table_ok (conf_write_text W title ts)"
    unfolding conf_write_text_def by (intro keep_table w e c)
  then show ?thesis unfolding conf_write_def Let_def split_def by (intro keep_table)
qed

lemma table_relations: "triple table_ok (get_relations_str root place rs (Some [])) table_ok"
  unfolding triple_def using get_relations_str_ok [of _ root place rs] by (fastforce split: kres.splits)

interpretation table_session: session_invariant table_ok
proof unfold_locales
  show "triple table_ok (menu_get_ext_help pre root place m (str_new\<lparr>gs_max_width := w\<rparr>)) table_ok" for pre root place m w
    by (rule table_keep) (intro keeps_ext_help, simp add: gstr_ok_def str_new_def)
  show "triple table_ok (sym_toggle_tristate_value r) table_ok" for r
    by (rule table_keep) (rule keep_toggle)
  show "triple table_ok (menu_is_empty t) table_ok" for t
    by (rule table_keep) (rule keep_empty)
  show "triple table_ok (conf_read e name) table_ok" for e name
    by (rule triple_keep) (rule keep_table_read)
  show "triple table_ok (conf_write W out title ts) table_ok" for W out title ts
    by (rule triple_keep) (rule keep_table_write)
  show "triple table_ok (sym_re_search rc pat) table_ok" for rc pat
    by (rule table_keep) (rule keep_search)
  show "triple table_ok (get_relations_str root place rs (Some [])) table_ok" for root place rs
    by (rule table_relations)
  show "triple table_ok (sym_set_change_count k) table_ok" for k
    by (rule triple_keep) (rule keep_table_frame)
qed

text \<open>C28: Whatever is pressed, typed, loaded and saved in a session on the screen: when it has ended, the symbol table is in
  order and the user's value of every \<open>int\<close> and \<open>hex\<close> symbol, if it has one, is a number of its kind,
  provided this was so when the menus had been parsed.\<close>

theorem mconf_main_keeps:
  assumes "table_ok st" "user_typed st" "mconf_main M n u st = Ret x st'"
  shows "table_ok st' \<and> user_typed st'"
  using table_session.safe_main [of M n] typed_session.safe_main [of M n] assms
  unfolding csafe_def triple_def by blast

text \<open>A session on the screen of the main menu with one number: it is chosen, \<open>7\<close> is typed, the menu is left, and the
  configuration is not saved.\<close>

definition screen :: "key_event list \<Rightarrow> ui" where
  "screen es = \<lparr>ui_kb = \<lparr>kb_events = es, kb_height = 24, kb_width = 80\<rparr>,
     ui_items = \<lparr>il_items = [], il_cur = Nil_item, il_nil = no_item\<rparr>, ui_input = replicate 20 CHR 0x00,
     ui_current = None, ui_count = 0, ui_all = False, ui_exit = False, ui_open = [], ui_file = [], ui_ops = []\<rparr>"

definition number_session :: menuconf where
  "number_session = \<lparr>mc_world = (\<lambda>_. no_files), mc_title = ''Main'', mc_prefix = ''CONFIG_'', mc_root = main_menu,
     mc_place = (\<lambda>_. (''Config.in'', 1)), mc_regcomp = (\<lambda>_. None), mc_single = False\<rparr>"

definition one_item :: "string \<Rightarrow> bool \<Rightarrow> item_list" where
  "one_item s b = \<lparr>il_items = [\<lparr>it_str = s, it_tag = CHR ''s'', it_data = Some (Suc 0), it_selected = b\<rparr>],
     il_cur = At 0, il_nil = no_item\<rparr>"

definition pressed :: "key_event list \<Rightarrow> keyboard" where
  "pressed es = \<lparr>kb_events = es, kb_height = 24, kb_width = 80\<rparr>"

lemma session_dialogs:
  "dialog_menu None 0 (pressed [Press 10, Press 55, Press 10, Press 120, Press 110]) (one_item ''()  P (NEW)'' False) =
     Got (0, one_item ''()  P (NEW)'' True, 0, pressed [Press 55, Press 10, Press 120, Press 110])"
  "dialog_inputbox 10 75 (Some []) (replicate 20 CHR 0x00) (pressed [Press 55, Press 10, Press 120, Press 110]) =
     Got (0, CHR ''7'' # replicate 19 CHR 0x00, pressed [Press 120, Press 110])"
  "dialog_menu (Some (Suc 0)) 0 (pressed [Press 120, Press 110]) (one_item ''()  P'' False) =
     Got (27, one_item ''()  P'' False, 0, pressed [Press 110])"
  "dialog_yesno 6 60 (pressed [Press 110]) = Got (1, pressed [])"
  "c_string (CHR ''7'' # replicate 19 CHR 0x00) = ''7''"
  by code_simp+

lemmas played = session_dialogs [unfolded one_item_def pressed_def no_item_def]

lemmas menu_ops = mconf_main_def [THEN fun_cong, THEN fun_cong] exit_rounds.simps [THEN fun_cong, THEN fun_cong]
  mconf_conf.simps [THEN fun_cong, THEN fun_cong] build_conf.simps [THEN fun_cong, THEN fun_cong, THEN fun_cong]
  build_body_def [THEN fun_cong, THEN fun_cong] build_menu_def [THEN fun_cong, THEN fun_cong]
  build_symbol_def [THEN fun_cong, THEN fun_cong] add_entry_def [THEN fun_cong, THEN fun_cong]
  mark_entry_def [THEN fun_cong, THEN fun_cong] count_child_def [THEN fun_cong, THEN fun_cong]
  entry_prompt_def [THEN fun_cong, THEN fun_cong] reset_items_def [THEN fun_cong, THEN fun_cong]
  chosen_item_def [THEN fun_cong, THEN fun_cong] entry_at_def [THEN fun_cong, THEN fun_cong]
  menu_command_def [THEN fun_cong, THEN fun_cong] select_entry_def [THEN fun_cong, THEN fun_cong]

lemmas dialog_ops = run_items_def [THEN fun_cong, THEN fun_cong] run_dialog_def [THEN fun_cong, THEN fun_cong]
  ui_menu_def [THEN fun_cong, THEN fun_cong] ui_inputbox_def [THEN fun_cong, THEN fun_cong]
  ui_yesno_def [THEN fun_cong, THEN fun_cong] ui_selected_def [THEN fun_cong, THEN fun_cong]
  current_item_def [THEN fun_cong, THEN fun_cong] input_text_def [THEN fun_cong, THEN fun_cong]
  mconf_string.simps [THEN fun_cong, THEN fun_cong] ui_world_def [THEN fun_cong, THEN fun_cong]
  set_config_filename_def [THEN fun_cong, THEN fun_cong] handle_exit_def [THEN fun_cong, THEN fun_cong]

lemmas session_data = number_session_def screen_def item_reset_def item_make_def item_set_tag_def item_set_data_def upd_item_def
  item_add_str_def new_mark_def pad_def tree_id_def WINDOW_HEIGTH_MIN_def WINDOW_WIDTH_MIN_def sym_is_choice_value_def
  sym_get_tristate_value_def no_item_def MAXITEMSTR_def name_str_def item_count_def item_activate_selected_def item_find_def
  cur_item_def key_defs

lemmas unplayed = unapplied mconf_conf.simps exit_rounds.simps build_conf.simps mconf_string.simps

theorem mconf_main_keeps_witness:
  "table_ok number_table \<and> user_typed number_table \<and>
   (\<exists>u st'. mconf_main number_session (Suc (Suc (Suc (Suc 0))))
        (screen [Press 10, Press 55, Press 10, Press 120, Press 110]) number_table = Ret (Some 0, u) st' \<and>
      fst (s_def (sym_at st' (Sym 0)) ! 0) = VStr ''7'' \<and> table_ok st' \<and> user_typed st')"
proof -
  have "(case mconf_main number_session (Suc (Suc (Suc (Suc 0))))
          (screen [Press 10, Press 55, Press 10, Press 120, Press 110]) number_table of
        Ret (r, u) st \<Rightarrow> Some (r, fst (s_def (sym_at st (Sym 0)) ! 0)) | _ \<Rightarrow> None) = Some (Some 0, VStr ''7'')"
    by (simp add: menu_ops dialog_ops session_data played ask_ops read_ops capply kapply ask_data set_ops set_data
        run_ops run_data Let_def del: unplayed)
  then obtain u st' where r: "mconf_main number_session (Suc (Suc (Suc (Suc 0))))
        (screen [Press 10, Press 55, Press 10, Press 120, Press 110]) number_table = Ret (Some 0, u) st'"
      "fst (s_def (sym_at st' (Sym 0)) ! 0) = VStr ''7''"
    by (auto split: kres.splits)
  have t: "user_typed number_table"
    by (auto simp: user_typed_def user_values_def fits_type_def ask_data)
  show ?thesis using mconf_main_keeps [OF number_table_ok t r(1)] number_table_ok t r by blast
qed

section \<open>A screen that is too small\<close>

text \<open>The result is returned at once, before a key is read.\<close>

lemma inputbox_small:
  "too_small h w (ui_kb u) \<Longrightarrow> ui_inputbox h w s u st = kres.Crash \<or>
     (\<exists>t. ui_inputbox h w s u st = Ret (Some (- ERRDISPLAYTOOSMALL), u\<lparr>ui_input := t\<rparr>) st)"
  by (auto simp: ui_inputbox_def run_dialog_def dialog_inputbox_def kcrash_def kret_def split: option.split)

text \<open>The boxes for a value and for the name of a file have no case for this result and are opened again.\<close>

lemma string_small: "too_small 10 75 (ui_kb u) \<Longrightarrow> mconf_string M n t r u st \<noteq> Ret x st'"
proof (induction n arbitrary: u st)
  case (Suc n)
  have i: "mconf_string M n t r (u\<lparr>ui_input := w\<rparr>) st1 \<noteq> Ret x st'" for w st1
    by (rule Suc.IH) (use Suc.prems in simp)
  show ?case
  proof (cases "get_string sym_calc r st")
    case (Ret v st1)
    then show ?thesis using i inputbox_small [OF Suc.prems, of v st1] by (auto simp: capply key_defs)
  qed (simp_all add: capply)
qed (simp add: cstuck_def)

lemma load_small: "too_small 11 55 (ui_kb u) \<Longrightarrow> conf_load M n u st \<noteq> Ret x st'"
proof (induction n arbitrary: u)
  case (Suc n)
  have "conf_load M n (u\<lparr>ui_input := w\<rparr>) st \<noteq> Ret x st'" for w
    by (rule Suc.IH) (use Suc.prems in simp)
  then show ?case using inputbox_small [OF Suc.prems, of "ui_file u" st] by (auto simp: capply key_defs)
qed (simp add: cstuck_def)

lemma save_small: "too_small 11 55 (ui_kb u) \<Longrightarrow> conf_save M n u st \<noteq> Ret x st'"
proof (induction n arbitrary: u)
  case (Suc n)
  have "conf_save M n (u\<lparr>ui_input := w\<rparr>) st \<noteq> Ret x st'" for w
    by (rule Suc.IH) (use Suc.prems in simp)
  then show ?case using inputbox_small [OF Suc.prems, of "ui_file u" st] by (auto simp: capply key_defs)
qed (simp add: cstuck_def)



end
