(* ===== verification/KMconfList.thy ===== *)
theory KMconfList
  imports KMconfFacts "HOL-Library.Sublist"
begin

text \<open>
  The list of a menu: while \<open>build_conf\<close> goes down the tree, the items are put behind each other, and each stands
  for an entry in the order of the file.
\<close>

section \<open>Operations on the screen\<close>

text \<open>What holds after an operation that returns a value.\<close>

definition leaves :: "(ui \<Rightarrow> bool) \<Rightarrow> 'a um \<Rightarrow> ('a \<Rightarrow> ui \<Rightarrow> bool) \<Rightarrow> bool" where
  "leaves P m Q \<longleftrightarrow> (\<forall>u st x u' st'. P u \<longrightarrow> m u st = Ret (Some x, u') st' \<longrightarrow> Q x u')"

lemma leaves_bind: "leaves P m Q \<Longrightarrow> (\<And>x. leaves (Q x) (f x) R) \<Longrightarrow> leaves P (cbind m f) R"
  unfolding leaves_def by (fastforce simp: cbind_def kbind_def kret_def split: kres.splits option.splits)

lemma leaves_seq: "leaves P m (\<lambda>_. Q) \<Longrightarrow> leaves Q m' R \<Longrightarrow> leaves P (cseq m m') R"
  unfolding cseq_def by (rule leaves_bind)

lemma leaves_ret: "(\<And>u. P u \<Longrightarrow> Q x u) \<Longrightarrow> leaves P (cret x) Q"
  by (simp add: leaves_def cret_def kret_def)

lemma leaves_look: "leaves P (clift m) (\<lambda>_. P)" "leaves P (cget f) (\<lambda>_. P)"
  by (auto simp: leaves_def clift_def cget_def kbind_def kret_def split: kres.splits)

lemma leaves_after: "(\<And>x. leaves P (f x) R) \<Longrightarrow> leaves P (cbind (clift m) f) R" "(\<And>y. leaves P (g y) R) \<Longrightarrow> leaves P (cbind (cget k) g) R"
  by (rule leaves_bind, rule leaves_look, assumption)+

lemma leaves_weaken: "leaves P m Q \<Longrightarrow> (\<And>u. P' u \<Longrightarrow> P u) \<Longrightarrow> (\<And>x u. Q x u \<Longrightarrow> Q' x u) \<Longrightarrow> leaves P' m Q'"
  unfolding leaves_def by blast

lemma leaves_if: "(c \<Longrightarrow> leaves P a Q) \<Longrightarrow> (\<not> c \<Longrightarrow> leaves P b Q) \<Longrightarrow> leaves P (if c then a else b) Q"
  by simp

lemma leaves_when: "leaves P m (\<lambda>_. Q) \<Longrightarrow> (\<And>u. P u \<Longrightarrow> Q u) \<Longrightarrow> leaves P (cwhen b m) (\<lambda>_. Q)"
  by (simp add: cwhen_def leaves_ret)

lemma leaves_option: "leaves P a Q \<Longrightarrow> (\<And>x. leaves P (f x) Q) \<Longrightarrow> leaves P (case q of None \<Rightarrow> a | Some x \<Rightarrow> f x) Q"
  by (cases q) auto

lemma leaves_prod: "(\<And>x y. leaves P (f x y) Q) \<Longrightarrow> leaves P (case q of (x, y) \<Rightarrow> f x y) Q"
  by (cases q) auto

lemma leaves_crash: "leaves P (clift kcrash) Q"
  by (simp add: leaves_def clift_def kbind_def kcrash_def)

lemma leaves_fold: "(\<And>x a. leaves P (f x a) (\<lambda>_. P)) \<Longrightarrow> leaves P (cfold f xs a) (\<lambda>_. P)"
  by (induction xs arbitrary: a) (auto intro: leaves_ret leaves_bind)

section \<open>The items of a list that is built\<close>

definition entry_tags :: "char set" where "entry_tags = {CHR ''m'', CHR ''t'', CHR ''s'', CHR '':''}"

definition stand_for :: "item list \<Rightarrow> nat list \<Rightarrow> bool" where
  "stand_for items ids \<longleftrightarrow> subseq (map it_data items) (map Some ids) \<and> it_tag ` set items \<subseteq> entry_tags"

definition at_end :: "item_list \<Rightarrow> bool" where
  "at_end l \<longleftrightarrow> (il_items l \<noteq> [] \<longrightarrow> il_cur l = At (length (il_items l) - 1))"

text \<open>Every item stands for an entry; or all but the last, which is not finished.\<close>

definition shown :: "nat list \<Rightarrow> ui \<Rightarrow> bool" where
  "shown ids u \<longleftrightarrow> at_end (ui_items u) \<and> stand_for (il_items (ui_items u)) ids"

definition unfinished :: "nat list \<Rightarrow> ui \<Rightarrow> bool" where
  "unfinished ids u \<longleftrightarrow> at_end (ui_items u) \<and> (\<exists>items i. il_items (ui_items u) = items @ [i] \<and> stand_for items ids)"

lemma stand_for_more: "stand_for items ids \<Longrightarrow> stand_for items (ids @ ds)"
  by (auto simp: stand_for_def intro: subseq_order.trans)

lemma shown_more: "shown ids u \<Longrightarrow> shown (ids @ ds) u"
  by (auto simp: shown_def intro: stand_for_more)

lemma stand_for_snoc:
  "stand_for items ids \<Longrightarrow> it_data i = Some d \<Longrightarrow> it_tag i \<in> entry_tags \<Longrightarrow> stand_for (items @ [i]) (ids @ [d])"
  by (auto simp: stand_for_def intro: list_emb_append_mono)

lemma stand_for_butlast: "stand_for (items @ [i]) ids \<Longrightarrow> stand_for items ids"
  unfolding stand_for_def using subseq_order.trans [of "map it_data items" "map it_data items @ [it_data i]"] by auto

text \<open>Such a list is a list being built whose last item may be changed, unless it is empty.\<close>

lemma shown_cases: "shown ids u \<Longrightarrow> il_items (ui_items u) = [] \<or> unfinished ids u"
  by (cases "il_items (ui_items u)" rule: rev_cases) (auto simp: shown_def unfinished_def dest: stand_for_butlast)

section \<open>Adding an item\<close>

lemma leaves_items:
  "(\<And>u l. P u \<Longrightarrow> f (ui_items u) = Some l \<Longrightarrow> Q (u\<lparr>ui_items := l\<rparr>)) \<Longrightarrow> leaves P (run_items f) (\<lambda>_. Q)"
  by (auto simp: leaves_def run_items_def kret_def kcrash_def split: option.splits)

lemma leaves_make: "leaves (shown ids) (run_items (item_make s)) (\<lambda>_. unfinished ids)"
  by (rule leaves_items) (auto simp: shown_def unfinished_def at_end_def item_make_def Let_def split: if_splits)

lemma upd_end:
  assumes "at_end l" "il_items l = ys @ [i]" "upd_item f l = Some l1"
  shows "at_end l1 \<and> il_items l1 = ys @ [f i]"
  using assms by (auto simp: at_end_def upd_item_def)

lemma upd_none:
  assumes "il_items l = []" "upd_item f l = Some l1"
  shows "at_end l1 \<and> il_items l1 = []"
  using assms by (auto simp: at_end_def upd_item_def split: cursor.splits)

text \<open>A change of the last item that leaves its tag and its data alone.\<close>

lemma leaves_str:
  "leaves (shown ids) (run_items (item_add_str s)) (\<lambda>_. shown ids)"
  "leaves (unfinished ids) (run_items (item_add_str s)) (\<lambda>_. unfinished ids)"
proof -
  show "leaves (shown ids) (run_items (item_add_str s)) (\<lambda>_. shown ids)"
  proof (rule leaves_items)
    fix u l assume m: "shown ids u" and l: "item_add_str s (ui_items u) = Some l"
    show "shown ids (u\<lparr>ui_items := l\<rparr>)"
    proof (cases "il_items (ui_items u)" rule: rev_cases)
      case Nil
      then show ?thesis using upd_none [OF Nil l [unfolded item_add_str_def]] m by (simp add: shown_def)
    next
      case (snoc ys i)
      then show ?thesis using upd_end [OF _ snoc l [unfolded item_add_str_def]] m
        by (auto simp: shown_def stand_for_def)
    qed
  qed
  show "leaves (unfinished ids) (run_items (item_add_str s)) (\<lambda>_. unfinished ids)"
    by (rule leaves_items) (auto simp: unfinished_def item_add_str_def dest: upd_end)
qed

lemma leaves_mark:
  assumes "tag \<in> entry_tags"
  shows "leaves (\<lambda>u. shown ids u \<or> unfinished ids u) (mark_entry tag t) (\<lambda>_. shown (ids @ [tree_id t]))"
proof -
  let ?tagged = "\<lambda>u :: ui. at_end (ui_items u) \<and>
    (il_items (ui_items u) = [] \<or> (\<exists>items i. il_items (ui_items u) = items @ [i] \<and> stand_for items ids \<and> it_tag i = tag))"
  have "leaves (\<lambda>u. shown ids u \<or> unfinished ids u) (run_items (item_set_tag tag)) (\<lambda>_. ?tagged)"
  proof (rule leaves_items)
    fix u l assume "shown ids u \<or> unfinished ids u" and l: "item_set_tag tag (ui_items u) = Some l"
    then consider "il_items (ui_items u) = []" | "unfinished ids u" using shown_cases by blast
    then show "?tagged (u\<lparr>ui_items := l\<rparr>)"
    proof cases
      case 1
      then show ?thesis using upd_none [OF 1 l [unfolded item_set_tag_def]] by simp
    next
      case 2
      then obtain items i where "at_end (ui_items u)" "il_items (ui_items u) = items @ [i]" "stand_for items ids"
        by (auto simp: unfinished_def)
      then show ?thesis using upd_end [OF _ _ l [unfolded item_set_tag_def]] by auto
    qed
  qed
  moreover have "leaves ?tagged (run_items (item_set_data (tree_id t))) (\<lambda>_. shown (ids @ [tree_id t]))"
  proof (rule leaves_items)
    fix u l assume m: "?tagged u" and l: "item_set_data (tree_id t) (ui_items u) = Some l"
    then consider "il_items (ui_items u) = []"
      | items i where "il_items (ui_items u) = items @ [i]" "stand_for items ids" "it_tag i = tag" by blast
    then show "shown (ids @ [tree_id t]) (u\<lparr>ui_items := l\<rparr>)"
    proof cases
      case 1
      then show ?thesis using l upd_none [OF 1] by (auto simp: item_set_data_def shown_def stand_for_def)
    next
      case 2
      have "stand_for (items @ [i\<lparr>it_data := Some (tree_id t)\<rparr>]) (ids @ [tree_id t])"
        by (rule stand_for_snoc [OF 2(2)]) (use 2(3) assms in simp_all)
      then show ?thesis using m l upd_end [OF _ 2(1)] by (auto simp: item_set_data_def shown_def)
    qed
  qed
  ultimately show ?thesis unfolding mark_entry_def by (rule leaves_seq)
qed

lemma leaves_mark_new:
  "tag \<in> entry_tags \<Longrightarrow> leaves (unfinished ids) (mark_entry tag t) (\<lambda>_. shown (ids @ [tree_id t]))"
  by (rule leaves_weaken [OF leaves_mark]) auto

lemma leaves_add: "tag \<in> entry_tags \<Longrightarrow> leaves (shown ids) (add_entry s tag t) (\<lambda>_. shown (ids @ [tree_id t]))"
  using leaves_seq [OF leaves_make leaves_mark_new [unfolded mark_entry_def]] unfolding add_entry_def by blast

lemma leaves_count: "leaves (shown ids) count_child (\<lambda>_. shown ids)"
  by (simp add: leaves_def count_child_def cmod_def kret_def shown_def)

lemma leaves_prompt: "leaves P (entry_prompt t) (\<lambda>_. P)"
  unfolding entry_prompt_def by (rule leaves_look)

lemma tags [simp]: "CHR ''m'' \<in> entry_tags" "CHR ''t'' \<in> entry_tags" "CHR ''s'' \<in> entry_tags" "CHR '':'' \<in> entry_tags"
  by (simp_all add: entry_tags_def)

section \<open>The entries\<close>

text \<open>The numbers of the entries of a list and below it, in the order of the file.\<close>

definition below_ids :: "mtree list \<Rightarrow> nat list" where "below_ids ts = map tree_id (preorder ts)"

lemma below_ids_simps [simp]: "below_ids [] = []" "below_ids (MT m cs # ts) = m_id m # below_ids cs @ below_ids ts"
  by (simp_all add: below_ids_def tree_id_def)

text \<open>What an entry leaves: with its children, if they are not gone through, or for itself.\<close>

definition entry_done :: "nat list \<Rightarrow> mtree \<Rightarrow> childs \<Rightarrow> ui \<Rightarrow> bool" where
  "entry_done ids t q =
     (case q of Return \<Rightarrow> shown (ids @ tree_id t # below_ids (mt_list t)) | Childs _ \<Rightarrow> shown (ids @ [tree_id t]))"

lemma done_own: "shown (ids @ [tree_id t]) u \<Longrightarrow> entry_done ids t q u"
  using shown_more [of "ids @ [tree_id t]" u] by (auto simp: entry_done_def split: childs.split)

lemma done_shown: "shown ids u \<Longrightarrow> entry_done ids t q u"
  by (rule done_own) (rule shown_more)

lemmas leaves_intros = leaves_after leaves_if leaves_option leaves_prod leaves_seq [OF leaves_count]
  leaves_bind [OF leaves_prompt] leaves_crash

lemma done_add:
  "tag \<in> entry_tags \<Longrightarrow> leaves (shown ids) (cseq (add_entry s tag t) (cret q)) (entry_done ids t)"
  by (rule leaves_seq [OF leaves_add]) (auto intro: leaves_ret done_own)

lemma leaves_build_menu: "leaves (shown ids) (build_menu M ind t p) (entry_done ids t)"
proof -
  have "leaves (shown ids) (cseq (cwhen b (cseq count_child (if c then add_entry s CHR '':'' t else add_entry s' CHR '':'' t)))
      (cret (Childs 2))) (entry_done ids t)" for b c s s'
    by (rule leaves_seq [where Q = "shown (ids @ [tree_id t])"])
      (auto intro!: leaves_when leaves_intros leaves_ret leaves_add simp: shown_more entry_done_def)
  moreover have "leaves (shown ids) (cseq (if b then add_entry s CHR ''m'' t else
      cbind (clift e) (\<lambda>x. add_entry (s' x) CHR ''m'' t)) (cret q)) (entry_done ids t)" for b s s' q and e :: "bool km"
    by (rule leaves_seq [where Q = "shown (ids @ [tree_id t])"])
      (auto intro!: leaves_intros leaves_ret leaves_add done_own)
  ultimately show ?thesis unfolding build_menu_def by (intro leaves_intros)
qed

lemma leaves_build_symbol: "leaves (shown ids) (build_symbol ind t r) (entry_done ids t)"
proof -
  let ?m = "shown (ids @ [tree_id t])"
  have string: "leaves (shown ids) (cseq (run_items (item_make s)) (cseq (run_items (item_add_str s'))
      (cseq (mark_entry CHR ''s'' t) (cret q)))) (entry_done ids t)" for s s' q
    by (intro leaves_seq [OF leaves_make] leaves_seq [OF leaves_str(2)] leaves_seq [OF leaves_mark_new])
      (auto intro: leaves_ret done_own)
  have tail: "leaves ?m (cbind (clift e) (\<lambda>x. cseq (run_items (item_add_str (f x))) (cret q))) (entry_done ids t)" for f q and e :: "bool km"
    by (intro leaves_after leaves_seq [OF leaves_str(1)] leaves_ret done_own)
  have ret: "leaves ?m (cret q) (entry_done ids t)" for q by (intro leaves_ret done_own)
  have head: "leaves (shown ids) (if b then add_entry s CHR '':'' t else cbind (clift e) (\<lambda>x. add_entry (f x) CHR ''t'' t)) (\<lambda>_. ?m)"
    for b s f and e :: "string km"
    by (intro leaves_if leaves_after leaves_add) simp_all
  show ?thesis unfolding build_symbol_def
    by (intro leaves_intros done_add string tail ret leaves_seq [OF head] leaves_seq [OF leaves_str(1)]) simp_all
qed

text \<open>A choice that has neither of the two types gives the last item to itself; that item still stands for an entry.\<close>

lemma leaves_build_choice:
  assumes rec: "\<And>i c ids. leaves (shown ids) (rec i c) (\<lambda>_. shown (ids @ below_ids (mt_list t)))"
  shows "leaves (shown ids) (build_choice ind t rec r) (entry_done ids t)"
proof -
  let ?m = "shown (ids @ [tree_id t])"
  have member: "leaves P (choice_member d c a) (\<lambda>_. P)" for P d c a
    unfolding choice_member_def by (intro leaves_after leaves_ret)
  have own: "leaves (shown ids) (if b then cseq (if c then run_items (item_make s) else if d then run_items (item_make s') else cret ())
        (mark_entry CHR ''t'' t) else add_entry s'' tag t) (\<lambda>_. ?m)" if "tag \<in> entry_tags" for b c d s s' s'' tag
  proof (rule leaves_if)
    let ?p = "\<lambda>u. shown ids u \<or> unfinished ids u"
    have "leaves (shown ids) (run_items (item_make s)) (\<lambda>_. ?p)" for s
      by (rule leaves_weaken [OF leaves_make]) auto
    then show "leaves (shown ids) (cseq (if c then run_items (item_make s) else if d then run_items (item_make s') else cret ())
        (mark_entry CHR ''t'' t)) (\<lambda>_. ?m)"
      by (intro leaves_seq [where Q = ?p] leaves_mark leaves_if leaves_ret) simp_all
  qed (rule leaves_add [OF that])
  let ?all = "shown ((ids @ [tree_id t]) @ below_ids (mt_list t))"
  have member_menu: "leaves ?m (case d of None \<Rightarrow> cret () | Some c \<Rightarrow> cbind (entry_prompt c) (\<lambda>p.
      cseq (run_items (item_add_str ('' ('' @ p @ '')''))) (cseq (run_items (item_add_str ''  --->''))
        (cwhen (mt_list c \<noteq> []) (rec i c))))) (\<lambda>_. ?all)" for d i
    by (intro leaves_option leaves_ret leaves_bind [OF leaves_prompt] leaves_seq [OF leaves_str(1)] leaves_when rec)
      (simp_all only: shown_more)
  have returned: "leaves ?all (cret Return) (entry_done ids t)"
    by (rule leaves_ret) (simp add: entry_done_def)
  show ?thesis unfolding build_choice_def
    by (intro leaves_after leaves_seq [OF leaves_count] leaves_bind [OF leaves_fold [OF member]] leaves_prod leaves_seq [OF own]
        leaves_bind [OF leaves_prompt] leaves_seq [OF leaves_str(1)] leaves_if leaves_seq [OF member_menu] returned
        leaves_ret done_own) simp_all
qed

lemma leaves_nested:
  assumes "list_all2 (\<lambda>f c. \<forall>i ids. leaves (shown ids) (f i) (\<lambda>_. shown (ids @ below_ids [c]))) recs cs"
  shows "leaves (shown ids) (cfor recs (\<lambda>f. f i)) (\<lambda>_. shown (ids @ below_ids cs))"
  using assms
proof (induction arbitrary: ids rule: list_all2_induct)
  case (Cons f fs c cs)
  have "leaves (shown ids) (f i) (\<lambda>_. shown (ids @ below_ids [c]))" using Cons(1) by blast
  moreover have "leaves (shown (ids @ below_ids [c])) (cfor fs (\<lambda>f. f i)) (\<lambda>_. shown (ids @ below_ids (c # cs)))"
    using Cons(3) [of "ids @ below_ids [c]"] by (cases c) simp
  ultimately show ?case by (simp add: leaves_seq)
qed (simp add: leaves_ret)

lemma below_ids_append: "below_ids (as @ bs) = below_ids as @ below_ids bs"
  by (simp add: below_ids_def preorder_def)

lemma shown_within: "shown (ids @ below_ids [c]) u \<Longrightarrow> c \<in> set cs \<Longrightarrow> shown (ids @ below_ids cs) u"
proof -
  assume s: "shown (ids @ below_ids [c]) u" and "c \<in> set cs"
  then obtain as bs where "cs = as @ [c] @ bs" using split_list by fastforce
  then have "subseq (ids @ below_ids [c]) (ids @ below_ids cs)"
    by (simp only: below_ids_append) (intro list_emb_append_mono, auto)
  then have "subseq (map Some (ids @ below_ids [c])) (map Some (ids @ below_ids cs))" by (rule subseq_map)
  then show ?thesis using s subseq_order.trans unfolding shown_def stand_for_def by blast
qed

lemma leaves_call:
  assumes "list_all2 (\<lambda>f c. \<forall>i ids. leaves (shown ids) (f i) (\<lambda>_. shown (ids @ below_ids [c]))) recs cs"
  shows "leaves (shown ids) (call_child cs recs i c) (\<lambda>_. shown (ids @ below_ids cs))"
proof (cases "find (\<lambda>p. fst p = c) (zip cs recs)")
  case (Some p)
  then have p: "p \<in> set (zip cs recs)" "fst p = c" unfolding find_Some_iff using nth_mem by metis+
  have c: "c \<in> set cs" by (metis p prod.collapse set_zip_leftD)
  have "leaves (shown ids) (snd p i) (\<lambda>_. shown (ids @ below_ids [c]))"
    using assms p by (fastforce simp: list_all2_conv_all_nth set_zip)
  then show ?thesis using Some c by (auto simp: call_child_def intro: leaves_weaken shown_within)
qed (simp add: call_child_def leaves_ret shown_more)

lemma leaves_build_body:
  assumes "list_all2 (\<lambda>f c. \<forall>i ids. leaves (shown ids) (f i) (\<lambda>_. shown (ids @ below_ids [c]))) recs (mt_list t)"
  shows "leaves (shown ids) (build_body M t recs ind) (\<lambda>_. shown (ids @ below_ids [t]))"
proof -
  have b: "below_ids [t] = tree_id t # below_ids (mt_list t)" by (cases t) (simp add: tree_id_def)
  have none: "leaves (shown ids) (case po of None \<Rightarrow> cret (Childs 0) | Some p \<Rightarrow>
      if c then cret (Childs 0) else build_menu M ind t p) (entry_done ids t)" for po c
    by (intro leaves_option leaves_if leaves_ret leaves_build_menu done_shown)
  have childs: "leaves (entry_done ids t q) (case q of Return \<Rightarrow> cret () | Childs d \<Rightarrow> cfor recs (\<lambda>f. f (ind + d)))
      (\<lambda>_. shown (ids @ below_ids [t]))" for q
    using leaves_nested [OF assms, of "ids @ [tree_id t]"]
    by (cases q) (auto simp: entry_done_def b intro: leaves_ret)
  show ?thesis unfolding build_body_def
    by (intro leaves_after leaves_if leaves_ret shown_more leaves_bind [OF _ childs] leaves_option none
        leaves_build_choice leaves_call [OF assms] leaves_build_symbol)
qed

lemma leaves_build_conf: "leaves (shown ids) (build_conf M t ind) (\<lambda>_. shown (ids @ below_ids [t]))"
proof (induction t arbitrary: ids ind)
  case (MT m cs)
  show ?case unfolding build_conf.simps
    by (rule leaves_build_body) (use MT in \<open>auto simp: list_all2_conv_all_nth\<close>)
qed

text \<open>C29: Each item of the list that \<open>build_conf\<close> builds for a menu stands for an entry of its own, of the menu or below it,
  in the order of the file, and has one of the four tags that \<open>conf\<close> knows.\<close>

theorem build_conf_lists:
  assumes "cseq (reset_items t) (build_conf M t ind) u st = Ret (Some x, u') st'"
  shows "subseq (map it_data (il_items (ui_items u'))) (map (Some \<circ> tree_id) (preorder [t])) \<and>
    (\<forall>i \<in> set (il_items (ui_items u')). it_tag i \<in> {CHR ''m'', CHR ''t'', CHR ''s'', CHR '':''})"
proof -
  have r: "leaves (\<lambda>_. True) (reset_items t) (\<lambda>_. shown [])"
    by (simp add: leaves_def reset_items_def cmod_def kret_def shown_def at_end_def stand_for_def item_reset_def)
  have "leaves (\<lambda>_. True) (cseq (reset_items t) (build_conf M t ind)) (\<lambda>_. shown ([] @ below_ids [t]))"
    by (rule leaves_seq [OF r leaves_build_conf])
  then have "shown (below_ids [t]) u'" using assms unfolding leaves_def by fastforce
  then show ?thesis
    by (auto simp: shown_def stand_for_def below_ids_def entry_tags_def comp_def)
qed

theorem build_conf_lists_witness:
  "\<exists>u' st'. cseq (reset_items main_menu) (build_conf number_session main_menu 0) (screen []) number_table = Ret (Some (), u') st' \<and>
     il_items (ui_items u') \<noteq> [] \<and>
     subseq (map it_data (il_items (ui_items u'))) (map (Some \<circ> tree_id) (preorder [main_menu])) \<and>
     (\<forall>i \<in> set (il_items (ui_items u')). it_tag i \<in> {CHR ''m'', CHR ''t'', CHR ''s'', CHR '':''})"
proof -
  have "(case cseq (reset_items main_menu) (build_conf number_session main_menu 0) (screen []) number_table of
      Ret (x, u') st' \<Rightarrow> Some (x, il_items (ui_items u') \<noteq> []) | _ \<Rightarrow> None) = Some (Some (), True)"
    by (simp add: menu_ops dialog_ops session_data ask_ops read_ops capply kapply ask_data set_ops set_data run_data Let_def
        del: unplayed)
  then obtain u' st' where r: "cseq (reset_items main_menu) (build_conf number_session main_menu 0) (screen []) number_table =
      Ret (Some (), u') st'" "il_items (ui_items u') \<noteq> []"
    by (auto split: kres.splits)
  show ?thesis using build_conf_lists [OF r(1)] r by blast
qed

end
