(* ===== verification/Md5.thy ===== *)
theory Md5
  imports Prelude "HOL-Library.Word"
begin

text \<open>
  The message digest of \<open>buildroot/package/x11r7/mcookie/mcookie.c\<close> (MD5, for a little-endian machine
  with 32-bit \<open>uint32\<close>): \<open>MD5Init\<close>, \<open>MD5Update\<close>, \<open>MD5Final\<close>, \<open>MD5Transform\<close>; and the digest as RFC 1321
  defines it, which \<open>Md5Facts\<close> shows to be what the code computes.
\<close>

unbundle bit_operations_syntax

type_synonym byte = "8 word"
type_synonym u32 = "32 word"
type_synonym regs = "u32 \<times> u32 \<times> u32 \<times> u32"

section \<open>Bytes and words in memory\<close>

text \<open>The array \<open>in\<close> is filled as bytes and read as 32-bit words, lowest byte first.\<close>

definition bytes_of :: "u32 \<Rightarrow> byte list" where
  "bytes_of w = [ucast w, ucast (drop_bit 8 w), ucast (drop_bit 16 w), ucast (drop_bit 24 w)]"

fun word_of :: "byte list \<Rightarrow> u32" where
  "word_of (b0 # b1 # b2 # b3 # _) =
     ucast b0 OR push_bit 8 (ucast b1) OR push_bit 16 (ucast b2) OR push_bit 24 (ucast b3)"
| "word_of _ = 0"

definition words_in :: "byte list \<Rightarrow> nat \<Rightarrow> u32" where "words_in xs j = word_of (drop (4 * j) xs)"

text \<open>\<open>memcpy (xs + t, ys, length ys)\<close>.\<close>

definition put_bytes :: "nat \<Rightarrow> 'a list \<Rightarrow> 'a list \<Rightarrow> 'a list" where
  "put_bytes t ys xs = take t xs @ ys @ drop (t + length ys) xs"

section \<open>The four rounds\<close>

definition F1 :: "u32 \<Rightarrow> u32 \<Rightarrow> u32 \<Rightarrow> u32" where "F1 x y z = z XOR (x AND (y XOR z))"
definition F2 :: "u32 \<Rightarrow> u32 \<Rightarrow> u32 \<Rightarrow> u32" where "F2 x y z = F1 z x y"
definition F3 :: "u32 \<Rightarrow> u32 \<Rightarrow> u32 \<Rightarrow> u32" where "F3 x y z = x XOR y XOR z"
definition F4 :: "u32 \<Rightarrow> u32 \<Rightarrow> u32 \<Rightarrow> u32" where "F4 x y z = y XOR (x OR NOT z)"

definition MD5STEP :: "(u32 \<Rightarrow> u32 \<Rightarrow> u32 \<Rightarrow> u32) \<Rightarrow> u32 \<Rightarrow> u32 \<Rightarrow> u32 \<Rightarrow> u32 \<Rightarrow> u32 \<Rightarrow> nat \<Rightarrow> u32" where
  "MD5STEP f w x y z data s =
     (let w1 = w + (f x y z + data) in (push_bit s w1 OR drop_bit (32 - s) w1) + x)"

text \<open>A step that assigns to \<open>a\<close>, \<open>d\<close>, \<open>c\<close> or \<open>b\<close>.\<close>

definition step_a :: "(u32 \<Rightarrow> u32 \<Rightarrow> u32 \<Rightarrow> u32) \<Rightarrow> u32 \<Rightarrow> nat \<Rightarrow> regs \<Rightarrow> regs" where
  "step_a f data s = (\<lambda>(a, b, c, d). (MD5STEP f a b c d data s, b, c, d))"
definition step_d :: "(u32 \<Rightarrow> u32 \<Rightarrow> u32 \<Rightarrow> u32) \<Rightarrow> u32 \<Rightarrow> nat \<Rightarrow> regs \<Rightarrow> regs" where
  "step_d f data s = (\<lambda>(a, b, c, d). (a, b, c, MD5STEP f d a b c data s))"
definition step_c :: "(u32 \<Rightarrow> u32 \<Rightarrow> u32 \<Rightarrow> u32) \<Rightarrow> u32 \<Rightarrow> nat \<Rightarrow> regs \<Rightarrow> regs" where
  "step_c f data s = (\<lambda>(a, b, c, d). (a, b, MD5STEP f c d a b data s, d))"
definition step_b :: "(u32 \<Rightarrow> u32 \<Rightarrow> u32 \<Rightarrow> u32) \<Rightarrow> u32 \<Rightarrow> nat \<Rightarrow> regs \<Rightarrow> regs" where
  "step_b f data s = (\<lambda>(a, b, c, d). (a, MD5STEP f b c d a data s, c, d))"

definition round1 :: "(nat \<Rightarrow> u32) \<Rightarrow> regs \<Rightarrow> regs" where
  "round1 inp r =
     (let r = step_a F1 (inp 0 + 0xd76aa478) 7 r;
          r = step_d F1 (inp 1 + 0xe8c7b756) 12 r;
          r = step_c F1 (inp 2 + 0x242070db) 17 r;
          r = step_b F1 (inp 3 + 0xc1bdceee) 22 r;
          r = step_a F1 (inp 4 + 0xf57c0faf) 7 r;
          r = step_d F1 (inp 5 + 0x4787c62a) 12 r;
          r = step_c F1 (inp 6 + 0xa8304613) 17 r;
          r = step_b F1 (inp 7 + 0xfd469501) 22 r;
          r = step_a F1 (inp 8 + 0x698098d8) 7 r;
          r = step_d F1 (inp 9 + 0x8b44f7af) 12 r;
          r = step_c F1 (inp 10 + 0xffff5bb1) 17 r;
          r = step_b F1 (inp 11 + 0x895cd7be) 22 r;
          r = step_a F1 (inp 12 + 0x6b901122) 7 r;
          r = step_d F1 (inp 13 + 0xfd987193) 12 r;
          r = step_c F1 (inp 14 + 0xa679438e) 17 r;
          r = step_b F1 (inp 15 + 0x49b40821) 22 r in r)"

definition round2 :: "(nat \<Rightarrow> u32) \<Rightarrow> regs \<Rightarrow> regs" where
  "round2 inp r =
     (let r = step_a F2 (inp 1 + 0xf61e2562) 5 r;
          r = step_d F2 (inp 6 + 0xc040b340) 9 r;
          r = step_c F2 (inp 11 + 0x265e5a51) 14 r;
          r = step_b F2 (inp 0 + 0xe9b6c7aa) 20 r;
          r = step_a F2 (inp 5 + 0xd62f105d) 5 r;
          r = step_d F2 (inp 10 + 0x02441453) 9 r;
          r = step_c F2 (inp 15 + 0xd8a1e681) 14 r;
          r = step_b F2 (inp 4 + 0xe7d3fbc8) 20 r;
          r = step_a F2 (inp 9 + 0x21e1cde6) 5 r;
          r = step_d F2 (inp 14 + 0xc33707d6) 9 r;
          r = step_c F2 (inp 3 + 0xf4d50d87) 14 r;
          r = step_b F2 (inp 8 + 0x455a14ed) 20 r;
          r = step_a F2 (inp 13 + 0xa9e3e905) 5 r;
          r = step_d F2 (inp 2 + 0xfcefa3f8) 9 r;
          r = step_c F2 (inp 7 + 0x676f02d9) 14 r;
          r = step_b F2 (inp 12 + 0x8d2a4c8a) 20 r in r)"

definition round3 :: "(nat \<Rightarrow> u32) \<Rightarrow> regs \<Rightarrow> regs" where
  "round3 inp r =
     (let r = step_a F3 (inp 5 + 0xfffa3942) 4 r;
          r = step_d F3 (inp 8 + 0x8771f681) 11 r;
          r = step_c F3 (inp 11 + 0x6d9d6122) 16 r;
          r = step_b F3 (inp 14 + 0xfde5380c) 23 r;
          r = step_a F3 (inp 1 + 0xa4beea44) 4 r;
          r = step_d F3 (inp 4 + 0x4bdecfa9) 11 r;
          r = step_c F3 (inp 7 + 0xf6bb4b60) 16 r;
          r = step_b F3 (inp 10 + 0xbebfbc70) 23 r;
          r = step_a F3 (inp 13 + 0x289b7ec6) 4 r;
          r = step_d F3 (inp 0 + 0xeaa127fa) 11 r;
          r = step_c F3 (inp 3 + 0xd4ef3085) 16 r;
          r = step_b F3 (inp 6 + 0x04881d05) 23 r;
          r = step_a F3 (inp 9 + 0xd9d4d039) 4 r;
          r = step_d F3 (inp 12 + 0xe6db99e5) 11 r;
          r = step_c F3 (inp 15 + 0x1fa27cf8) 16 r;
          r = step_b F3 (inp 2 + 0xc4ac5665) 23 r in r)"

definition round4 :: "(nat \<Rightarrow> u32) \<Rightarrow> regs \<Rightarrow> regs" where
  "round4 inp r =
     (let r = step_a F4 (inp 0 + 0xf4292244) 6 r;
          r = step_d F4 (inp 7 + 0x432aff97) 10 r;
          r = step_c F4 (inp 14 + 0xab9423a7) 15 r;
          r = step_b F4 (inp 5 + 0xfc93a039) 21 r;
          r = step_a F4 (inp 12 + 0x655b59c3) 6 r;
          r = step_d F4 (inp 3 + 0x8f0ccc92) 10 r;
          r = step_c F4 (inp 10 + 0xffeff47d) 15 r;
          r = step_b F4 (inp 1 + 0x85845dd1) 21 r;
          r = step_a F4 (inp 8 + 0x6fa87e4f) 6 r;
          r = step_d F4 (inp 15 + 0xfe2ce6e0) 10 r;
          r = step_c F4 (inp 6 + 0xa3014314) 15 r;
          r = step_b F4 (inp 13 + 0x4e0811a1) 21 r;
          r = step_a F4 (inp 4 + 0xf7537e82) 6 r;
          r = step_d F4 (inp 11 + 0xbd3af235) 10 r;
          r = step_c F4 (inp 2 + 0x2ad7d2bb) 15 r;
          r = step_b F4 (inp 9 + 0xeb86d391) 21 r in r)"

definition MD5Transform :: "regs \<Rightarrow> (nat \<Rightarrow> u32) \<Rightarrow> regs" where
  "MD5Transform buf inp =
     (case (buf, round4 inp (round3 inp (round2 inp (round1 inp buf)))) of
        ((b0, b1, b2, b3), (a, b, c, d)) \<Rightarrow> (b0 + a, b1 + b, b2 + c, b3 + d))"

section \<open>The context\<close>

record md5_context =
  mc_buf :: regs
  mc_bits0 :: u32
  mc_bits1 :: u32
  mc_in :: "byte list"

definition MD5Init :: "md5_context \<Rightarrow> md5_context" where
  "MD5Init ctx = ctx\<lparr>mc_buf := (0x67452301, 0xefcdab89, 0x98badcfe, 0x10325476), mc_bits0 := 0, mc_bits1 := 0\<rparr>"

definition transform_in :: "md5_context \<Rightarrow> md5_context" where
  "transform_in ctx = ctx\<lparr>mc_buf := MD5Transform (mc_buf ctx) (words_in (mc_in ctx))\<rparr>"

text \<open>The loop over chunks of 64 bytes and the remaining bytes after it.\<close>

function update_chunks :: "md5_context \<Rightarrow> byte list \<Rightarrow> md5_context" where
  "update_chunks ctx buf =
     (if 64 \<le> length buf
      then update_chunks (transform_in (ctx\<lparr>mc_in := put_bytes 0 (take 64 buf) (mc_in ctx)\<rparr>)) (drop 64 buf)
      else ctx\<lparr>mc_in := put_bytes 0 buf (mc_in ctx)\<rparr>)"
  by pat_completeness auto
termination by (relation "measure (\<lambda>(_, buf). length buf)") auto

declare update_chunks.simps [simp del]

definition count_bits :: "nat \<Rightarrow> md5_context \<Rightarrow> md5_context" where
  "count_bits len ctx =
     (let t = mc_bits0 ctx; n = word_of_nat len; b0 = t + push_bit 3 n;
          b1 = (if b0 < t then mc_bits1 ctx + 1 else mc_bits1 ctx) + drop_bit 29 n
      in ctx\<lparr>mc_bits0 := b0, mc_bits1 := b1\<rparr>)"

definition bytes_held :: "u32 \<Rightarrow> nat" where "bytes_held bits0 = unat (drop_bit 3 bits0 AND 0x3f)"

definition MD5Update :: "md5_context \<Rightarrow> byte list \<Rightarrow> md5_context" where
  "MD5Update ctx0 buf =
     (let ctx = count_bits (length buf) ctx0; t = bytes_held (mc_bits0 ctx0) in
      if t = 0 then update_chunks ctx buf
      else if length buf < 64 - t then ctx\<lparr>mc_in := put_bytes t buf (mc_in ctx)\<rparr>
      else update_chunks (transform_in (ctx\<lparr>mc_in := put_bytes t (take (64 - t) buf) (mc_in ctx)\<rparr>))
             (drop (64 - t) buf))"

text \<open>
  \<open>MD5Final\<close> gives the digest and the context it leaves. Its last statement clears \<open>sizeof (ctx)\<close> bytes,
  which is the size of a pointer: with 8 bytes, the first two words of \<open>buf\<close>.
\<close>

definition pad_block :: "md5_context \<Rightarrow> md5_context" where
  "pad_block ctx =
     (let n = bytes_held (mc_bits0 ctx);
          c1 = ctx\<lparr>mc_in := put_bytes n [0x80] (mc_in ctx)\<rparr>;
          count = 64 - 1 - n
      in if count < 8
         then (let c2 = transform_in (c1\<lparr>mc_in := put_bytes (n + 1) (replicate count 0) (mc_in c1)\<rparr>)
               in c2\<lparr>mc_in := put_bytes 0 (replicate 56 0) (mc_in c2)\<rparr>)
         else c1\<lparr>mc_in := put_bytes (n + 1) (replicate (count - 8) 0) (mc_in c1)\<rparr>)"

definition regs_bytes :: "regs \<Rightarrow> byte list" where
  "regs_bytes = (\<lambda>(a, b, c, d). bytes_of a @ bytes_of b @ bytes_of c @ bytes_of d)"

definition clear_pointer_size :: "md5_context \<Rightarrow> md5_context" where
  "clear_pointer_size ctx = (case mc_buf ctx of (a, b, c, d) \<Rightarrow> ctx\<lparr>mc_buf := (0, 0, c, d)\<rparr>)"

definition MD5Final :: "md5_context \<Rightarrow> byte list \<times> md5_context" where
  "MD5Final ctx =
     (let c1 = pad_block ctx;
          c2 = c1\<lparr>mc_in := put_bytes 56 (bytes_of (mc_bits0 c1) @ bytes_of (mc_bits1 c1)) (mc_in c1)\<rparr>;
          c3 = transform_in c2
      in (regs_bytes (mc_buf c3), clear_pointer_size c3))"

section \<open>The digest of RFC 1321\<close>

text \<open>
  Step \<open>i\<close> of a block uses a round function, the word with number \<open>rfc_index i\<close>, the constant \<open>rfc_T i\<close> and
  a rotation by \<open>rfc_shift i\<close>; the four registers move on by one place.
\<close>

definition rfc_F :: "nat \<Rightarrow> u32 \<Rightarrow> u32 \<Rightarrow> u32 \<Rightarrow> u32" where
  "rfc_F i x y z =
     (if i < 16 then (x AND y) OR (NOT x AND z)
      else if i < 32 then (x AND z) OR (y AND NOT z)
      else if i < 48 then x XOR y XOR z
      else y XOR (x OR NOT z))"

definition rfc_index :: "nat \<Rightarrow> nat" where
  "rfc_index i =
     (if i < 16 then i else if i < 32 then (5 * i + 1) mod 16 else if i < 48 then (3 * i + 5) mod 16
      else 7 * i mod 16)"

definition rfc_shift :: "nat \<Rightarrow> nat" where
  "rfc_shift i = [[7, 12, 17, 22], [5, 9, 14, 20], [4, 11, 16, 23], [6, 10, 15, 21]] ! (i div 16) ! (i mod 4)"

definition rfc_T :: "u32 list" where
  "rfc_T = [
    0xd76aa478, 0xe8c7b756, 0x242070db, 0xc1bdceee, 0xf57c0faf, 0x4787c62a, 0xa8304613, 0xfd469501,
    0x698098d8, 0x8b44f7af, 0xffff5bb1, 0x895cd7be, 0x6b901122, 0xfd987193, 0xa679438e, 0x49b40821,
    0xf61e2562, 0xc040b340, 0x265e5a51, 0xe9b6c7aa, 0xd62f105d, 0x02441453, 0xd8a1e681, 0xe7d3fbc8,
    0x21e1cde6, 0xc33707d6, 0xf4d50d87, 0x455a14ed, 0xa9e3e905, 0xfcefa3f8, 0x676f02d9, 0x8d2a4c8a,
    0xfffa3942, 0x8771f681, 0x6d9d6122, 0xfde5380c, 0xa4beea44, 0x4bdecfa9, 0xf6bb4b60, 0xbebfbc70,
    0x289b7ec6, 0xeaa127fa, 0xd4ef3085, 0x04881d05, 0xd9d4d039, 0xe6db99e5, 0x1fa27cf8, 0xc4ac5665,
    0xf4292244, 0x432aff97, 0xab9423a7, 0xfc93a039, 0x655b59c3, 0x8f0ccc92, 0xffeff47d, 0x85845dd1,
    0x6fa87e4f, 0xfe2ce6e0, 0xa3014314, 0x4e0811a1, 0xf7537e82, 0xbd3af235, 0x2ad7d2bb, 0xeb86d391]"

definition rotate_left :: "nat \<Rightarrow> u32 \<Rightarrow> u32" where "rotate_left s w = word_rotl s w"

definition rfc_step :: "(nat \<Rightarrow> u32) \<Rightarrow> nat \<Rightarrow> regs \<Rightarrow> regs" where
  "rfc_step X i = (\<lambda>(a, b, c, d).
     (d, b + rotate_left (rfc_shift i) (a + rfc_F i b c d + X (rfc_index i) + rfc_T ! i), b, c))"

definition add_regs :: "regs \<Rightarrow> regs \<Rightarrow> regs" where
  "add_regs = (\<lambda>(a, b, c, d) (a', b', c', d'). (a + a', b + b', c + c', d + d'))"

definition rfc_compress :: "regs \<Rightarrow> byte list \<Rightarrow> regs" where
  "rfc_compress r block = add_regs r (fold (rfc_step (words_in block)) [0..<64] r)"

text \<open>All complete blocks of a message.\<close>

function rfc_blocks :: "regs \<Rightarrow> byte list \<Rightarrow> regs" where
  "rfc_blocks r xs = (if 64 \<le> length xs then rfc_blocks (rfc_compress r (take 64 xs)) (drop 64 xs) else r)"
  by pat_completeness auto
termination by (relation "measure (\<lambda>(_, xs). length xs)") auto

declare rfc_blocks.simps [simp del]

text \<open>The padding: a byte 0x80, zeros up to 56 modulo 64, and the number of bits in 8 bytes, lowest first.\<close>

definition bit_length :: "byte list \<Rightarrow> 64 word" where "bit_length xs = word_of_nat (8 * length xs)"

definition rfc_pad :: "byte list \<Rightarrow> byte list" where
  "rfc_pad xs = xs @ [0x80] @ replicate ((119 - length xs mod 64) mod 64) 0 @
     bytes_of (ucast (bit_length xs)) @ bytes_of (ucast (drop_bit 32 (bit_length xs)))"

definition rfc_md5 :: "byte list \<Rightarrow> byte list" where
  "rfc_md5 xs = regs_bytes (rfc_blocks (0x67452301, 0xefcdab89, 0x98badcfe, 0x10325476) (rfc_pad xs))"

end
