(* ===== verification/Md5Facts.thy ===== *)
theory Md5Facts
  imports Md5
begin

lemma F1_choose: "F1 x y z = (x AND y) OR (NOT x AND z)"
  by (rule bit_word_eqI) (auto simp: F1_def bit_simps)

lemma F2_choose: "F2 x y z = (x AND z) OR (y AND NOT z)"
  by (rule bit_word_eqI) (auto simp: F2_def F1_def bit_simps)

lemma rotate_left_shifts:
  assumes "0 < s" "s < 32"
  shows "push_bit s w OR drop_bit (32 - s) w = rotate_left s (w :: u32)"
proof (rule bit_word_eqI)
  fix n assume "n < LENGTH(32)"
  hence n: "n < 32" by simp
  show "bit (push_bit s w OR drop_bit (32 - s) w) n = bit (rotate_left s w) n"
  proof (cases "n < s")
    case True
    hence "(n + (32 - s)) mod 32 = 32 - s + n" using assms by simp
    thus ?thesis using True assms n by (simp add: rotate_left_def bit_simps)
  next
    case False
    hence "(n + (32 - s)) mod 32 = n - s" using assms n by (simp add: mod_if)
    moreover have "\<not> bit w (32 - s + n)" using False assms by (auto dest: bit_imp_le_length)
    ultimately show ?thesis using False assms n by (simp add: rotate_left_def bit_simps)
  qed
qed

section \<open>A block\<close>

text \<open>The reference passes the registers on by one place in every step.\<close>

definition turn :: "regs \<Rightarrow> regs" where "turn = (\<lambda>(a, b, c, d). (d, a, b, c))"

definition step_rfc :: "(u32 \<Rightarrow> u32 \<Rightarrow> u32 \<Rightarrow> u32) \<Rightarrow> u32 \<Rightarrow> nat \<Rightarrow> regs \<Rightarrow> regs" where
  "step_rfc f x s = (\<lambda>(a, b, c, d). (d, b + rotate_left s (a + f b c d + x), b, c))"

lemma MD5STEP_rotate: "0 < s \<Longrightarrow> s < 32 \<Longrightarrow> MD5STEP f w x y z data s = x + rotate_left s (w + f x y z + data)"
  by (simp add: MD5STEP_def Let_def rotate_left_shifts ac_simps)

lemma step_rfc_turn: "0 < s \<Longrightarrow> s < 32 \<Longrightarrow> step_rfc f x s r = turn (step_a f x s r)"
  by (cases r; simp add: step_rfc_def turn_def step_a_def MD5STEP_rotate)

lemma step_turns:
  "step_a f x s (turn r) = turn (step_d f x s r)" "step_d f x s (turn r) = turn (step_c f x s r)"
  "step_c f x s (turn r) = turn (step_b f x s r)" "step_b f x s (turn r) = turn (step_a f x s r)"
  "turn (turn (turn (turn r))) = r"
  by (cases r; simp add: turn_def step_a_def step_b_def step_c_def step_d_def)+

lemma rfc_F_round:
  "i < 16 \<Longrightarrow> rfc_F i = F1" "16 \<le> i \<Longrightarrow> i < 32 \<Longrightarrow> rfc_F i = F2"
  "32 \<le> i \<Longrightarrow> i < 48 \<Longrightarrow> rfc_F i = F3" "48 \<le> i \<Longrightarrow> rfc_F i = F4"
  by (auto simp: fun_eq_iff rfc_F_def F1_choose F2_choose F3_def F4_def)

lemma rfc_step_by: "rfc_step X i = step_rfc (rfc_F i) (X (rfc_index i) + rfc_T ! i) (rfc_shift i)"
  by (auto simp: fun_eq_iff rfc_step_def step_rfc_def ac_simps)

lemma upt_16: "[0..<16] = [0, 1, 2, 3, 4, 5, 6, 7, 8, 9, 10, 11, 12, 13, 14, 15]"
  "[16..<32] = [16, 17, 18, 19, 20, 21, 22, 23, 24, 25, 26, 27, 28, 29, 30, 31]"
  "[32..<48] = [32, 33, 34, 35, 36, 37, 38, 39, 40, 41, 42, 43, 44, 45, 46, 47]"
  "[48..<64] = [48, 49, 50, 51, 52, 53, 54, 55, 56, 57, 58, 59, 60, 61, 62, 63]"
  by (simp_all add: upt_rec)

lemma upt_64: "[0..<64] = [0..<16] @ [16..<32] @ [32..<48] @ [48..<64 :: nat]"
  by (simp add: upt_rec)

lemma round1_rfc: "fold (rfc_step X) [0..<16] r = round1 X r"
  by (simp add: upt_16 rfc_step_by rfc_F_round rfc_index_def rfc_shift_def rfc_T_def step_rfc_turn step_turns round1_def Let_def)

lemma round2_rfc: "fold (rfc_step X) [16..<32] r = round2 X r"
  by (simp add: upt_16 rfc_step_by rfc_F_round rfc_index_def rfc_shift_def rfc_T_def step_rfc_turn step_turns round2_def Let_def)

lemma round3_rfc: "fold (rfc_step X) [32..<48] r = round3 X r"
  by (simp add: upt_16 rfc_step_by rfc_F_round rfc_index_def rfc_shift_def rfc_T_def step_rfc_turn step_turns round3_def Let_def)

lemma round4_rfc: "fold (rfc_step X) [48..<64] r = round4 X r"
  by (simp add: upt_16 rfc_step_by rfc_F_round rfc_index_def rfc_shift_def rfc_T_def step_rfc_turn step_turns round4_def Let_def)

lemma fold_64: "fold (rfc_step X) [0..<64] r = round4 X (round3 X (round2 X (round1 X r)))"
  by (simp only: upt_64 fold_append o_apply round1_rfc round2_rfc round3_rfc round4_rfc)

lemma transform_compress: "MD5Transform r (words_in block) = rfc_compress r block"
  by (simp add: MD5Transform_def rfc_compress_def fold_64 add_regs_def split: prod.split)

section \<open>Blocks of a message\<close>

lemma rfc_blocks_short [simp]: "length xs < 64 \<Longrightarrow> rfc_blocks r xs = r"
  by (simp add: rfc_blocks.simps)

lemma rfc_blocks_block [simp]: "length b = 64 \<Longrightarrow> rfc_blocks r (b @ xs) = rfc_blocks (rfc_compress r b) xs"
  by (subst rfc_blocks.simps) simp

lemma rfc_blocks_append: "length xs mod 64 = 0 \<Longrightarrow> rfc_blocks r (xs @ ys) = rfc_blocks (rfc_blocks r xs) ys"
proof (induction r xs rule: rfc_blocks.induct)
  case (1 r xs)
  show ?case
  proof (cases "64 \<le> length xs")
    case True
    hence "rfc_blocks r (xs @ ys) = rfc_blocks (rfc_compress r (take 64 xs)) (drop 64 xs @ ys)"
      by (subst rfc_blocks.simps) simp
    moreover have "rfc_blocks r xs = rfc_blocks (rfc_compress r (take 64 xs)) (drop 64 xs)"
      using True by (subst rfc_blocks.simps) simp
    moreover have "(length xs - 64) mod 64 = 0" using True "1.prems" by presburger
    ultimately show ?thesis using "1.IH" True by simp
  next
    case False
    thus ?thesis using "1.prems" by (simp add: mod_if)
  qed
qed

text \<open>The complete blocks of a message and the bytes behind them.\<close>

definition full :: "'a list \<Rightarrow> 'a list" where "full xs = take (64 * (length xs div 64)) xs"
definition rest :: "'a list \<Rightarrow> 'a list" where "rest xs = drop (64 * (length xs div 64)) xs"

lemma full_rest: "full xs @ rest xs = xs"
  by (simp add: full_def rest_def)

lemma length_rest [simp]: "length (rest xs) = length xs mod 64"
  by (simp add: rest_def minus_mult_div_eq_mod)

lemma length_full [simp]: "length (full xs) = 64 * (length xs div 64)"
  by (simp add: full_def)

lemma rfc_blocks_full: "rfc_blocks r (xs @ ys) = rfc_blocks (rfc_blocks r xs) (rest xs @ ys)"
proof -
  have "rfc_blocks r xs = rfc_blocks (rfc_blocks r (full xs)) (rest xs)"
    by (subst full_rest [of xs, symmetric], rule rfc_blocks_append) simp
  hence "rfc_blocks r xs = rfc_blocks r (full xs)" by simp
  moreover have "rfc_blocks r (xs @ ys) = rfc_blocks (rfc_blocks r (full xs)) (rest xs @ ys)"
    by (subst full_rest [of xs, symmetric], subst append_assoc, rule rfc_blocks_append) simp
  ultimately show ?thesis by simp
qed

lemma rest_append: "rest (xs @ ys) = rest (rest xs @ ys)"
proof -
  have "(length xs mod 64 + length ys + (length xs div 64) * 64) div 64 =
        length xs div 64 + (length xs mod 64 + length ys) div 64"
    by (rule div_mult_self1) simp
  moreover have "length xs mod 64 + length ys + (length xs div 64) * 64 = length (xs @ ys)"
    using div_mult_mod_eq [of "length xs" 64] by simp
  ultimately have "length (xs @ ys) div 64 = length xs div 64 + (length xs mod 64 + length ys) div 64"
    by simp
  hence "rest (xs @ ys) = drop (64 * ((length xs mod 64 + length ys) div 64)) (drop (64 * (length xs div 64)) (xs @ ys))"
    by (simp add: rest_def distrib_left add.commute del: drop_append)
  also have "drop (64 * (length xs div 64)) (xs @ ys) = rest xs @ ys"
    by (simp add: rest_def)
  also have "(length xs mod 64 + length ys) div 64 = length (rest xs @ ys) div 64"
    by simp
  finally show ?thesis by (simp only: rest_def)
qed

section \<open>Copying into the buffer\<close>

lemma length_put [simp]: "t + length ys \<le> length xs \<Longrightarrow> length (put_bytes t ys xs) = length xs"
  by (simp add: put_bytes_def)

lemma put_all [simp]: "length ys = length xs \<Longrightarrow> put_bytes 0 ys xs = ys"
  by (simp add: put_bytes_def)

lemma take_put: "t \<le> length xs \<Longrightarrow> take (t + length ys) (put_bytes t ys xs) = take t xs @ ys"
  by (simp add: put_bytes_def)

lemma take_put_front [simp]: "n = length ys \<Longrightarrow> take n (put_bytes 0 ys xs) = ys"
  by (simp add: put_bytes_def)

lemma put_end: "t + length ys = length xs \<Longrightarrow> put_bytes t ys xs = take t xs @ ys"
  by (simp add: put_bytes_def)

section \<open>The counter of bits\<close>

lemma ucast_of_nat: "(ucast (word_of_nat n :: 64 word) :: u32) = word_of_nat n"
  by (simp only: unsigned_of_nat word_of_nat_eq_iff) simp

lemma drop_of_nat:
  "k \<le> LENGTH('a) \<Longrightarrow> unat (drop_bit k (word_of_nat n :: 'a::len word)) = take_bit (LENGTH('a) - k) (n div 2 ^ k)"
  by (simp only: unsigned_drop_bit_eq unsigned_of_nat)
    (simp flip: drop_bit_eq_div add: drop_bit_take_bit)

lemma low_bits: "ucast (bit_length m) = (word_of_nat (8 * length m) :: u32)"
  by (simp only: bit_length_def ucast_of_nat)

lemma high_bits: "ucast (drop_bit 32 (bit_length m)) = (word_of_nat (8 * length m div 2 ^ 32) :: u32)"
  unfolding bit_length_def
  by (rule word_unat_eq_iff [THEN iffD2], simp only: unsigned_ucast_eq, subst drop_of_nat, simp,
      simp only: unsigned_of_nat) simp

lemma unat_and_63: "unat (w AND 0x3f) = unat (w :: u32) mod 64"
proof -
  have "w AND 0x3f = take_bit 6 w" by (simp add: take_bit_eq_mask mask_eq_exp_minus_1)
  thus ?thesis by (simp only: unsigned_take_bit_eq) (simp add: take_bit_eq_mod)
qed

lemma held_bytes: "bytes_held (word_of_nat (8 * n)) = n mod 64"
proof -
  have "bytes_held (word_of_nat (8 * n)) = take_bit 29 n mod 64"
    unfolding bytes_held_def unat_and_63 by (subst drop_of_nat) simp_all
  also have "\<dots> = take_bit 6 (take_bit 29 n)" unfolding take_bit_eq_mod [of 6] by simp
  also have "\<dots> = n mod 64" by (simp only: take_bit_take_bit) (simp add: take_bit_eq_mod)
  finally show ?thesis .
qed

lemma sum_overflows:
  fixes a b M :: nat
  assumes "a < M" "b < M"
  shows "(a + b) mod M < a \<longleftrightarrow> M \<le> a + b" "(a + b) div M = (if M \<le> a + b then 1 else 0)"
proof -
  have "M \<le> a + b \<Longrightarrow> (a + b) mod M = a + b - M" "M \<le> a + b \<Longrightarrow> (a + b) div M = 1"
    using assms by (simp_all add: le_mod_geq le_div_geq)
  thus "(a + b) mod M < a \<longleftrightarrow> M \<le> a + b" "(a + b) div M = (if M \<le> a + b then 1 else 0)"
    using assms by (cases "M \<le> a + b"; simp)+
qed

definition bits_counted :: "nat \<Rightarrow> md5_context \<Rightarrow> bool" where
  "bits_counted n ctx \<longleftrightarrow> mc_bits0 ctx = word_of_nat (8 * n) \<and> mc_bits1 ctx = word_of_nat (8 * n div 2 ^ 32)"

lemma carry_iff:
  "(word_of_nat (i + j) :: u32) < word_of_nat i \<longleftrightarrow> 2 ^ 32 \<le> i mod 2 ^ 32 + j mod 2 ^ 32"
proof -
  have "(word_of_nat (i + j) :: u32) < word_of_nat i \<longleftrightarrow> (i mod 2 ^ 32 + j mod 2 ^ 32) mod 2 ^ 32 < i mod 2 ^ 32"
    by (simp only: word_less_nat_alt unat_of_nat mod_add_eq) simp
  also have "\<dots> \<longleftrightarrow> 2 ^ 32 \<le> i mod 2 ^ 32 + j mod 2 ^ 32" by (rule sum_overflows) simp_all
  finally show ?thesis .
qed

lemma div_carry:
  "(i + j) div 2 ^ 32 = i div 2 ^ 32 + j div 2 ^ 32 + (if 2 ^ 32 \<le> i mod 2 ^ 32 + j mod 2 ^ 32 then 1 else 0 :: nat)"
  by (subst div_add1_eq, subst sum_overflows(2)) simp_all

lemma bits_counted_count:
  assumes "bits_counted n ctx" "len < 2 ^ 32"
  shows "bits_counted (n + len) (count_bits len ctx)"
proof -
  have b: "mc_bits0 ctx = word_of_nat (8 * n)" "mc_bits1 ctx = word_of_nat (8 * n div 2 ^ 32)"
    using assms(1) by (simp_all only: bits_counted_def)
  have p: "mc_bits0 ctx + push_bit 3 (word_of_nat len) = word_of_nat (8 * n + 8 * len)"
    unfolding b by (simp add: push_bit_eq_mult)
  have d: "drop_bit 29 (word_of_nat len :: u32) = word_of_nat (8 * len div 2 ^ 32)"
    by (rule word_unat_eq_iff [THEN iffD2], subst drop_of_nat, simp, simp only: unat_of_nat)
      (use assms(2) in \<open>simp add: take_bit_eq_mod\<close>)
  have "mc_bits0 (count_bits len ctx) = word_of_nat (8 * (n + len))"
    by (simp only: count_bits_def Let_def p distrib_left) simp
  moreover have "mc_bits1 (count_bits len ctx) = word_of_nat (8 * (n + len) div 2 ^ 32)"
    unfolding count_bits_def Let_def p d distrib_left div_carry
    by (simp only: b carry_iff md5_context.simps) simp
  ultimately show ?thesis by (simp only: bits_counted_def)
qed

lemma count_bits_rest [simp]:
  "mc_buf (count_bits len ctx) = mc_buf ctx" "mc_in (count_bits len ctx) = mc_in ctx"
  by (simp_all add: count_bits_def Let_def)

lemma bits_counted_upd [simp]:
  "bits_counted n (ctx\<lparr>mc_in := x\<rparr>) = bits_counted n ctx" "bits_counted n (ctx\<lparr>mc_buf := y\<rparr>) = bits_counted n ctx"
  by (simp_all add: bits_counted_def)

section \<open>What a context holds\<close>

text \<open>The message so far: its complete blocks are in \<open>buf\<close>, the bytes behind them in \<open>in\<close>.\<close>

definition md5_start :: regs where "md5_start = (0x67452301, 0xefcdab89, 0x98badcfe, 0x10325476)"

definition holds :: "byte list \<Rightarrow> md5_context \<Rightarrow> bool" where
  "holds m ctx \<longleftrightarrow> length (mc_in ctx) = 64 \<and> bits_counted (length m) ctx \<and>
     mc_buf ctx = rfc_blocks md5_start m \<and> take (length m mod 64) (mc_in ctx) = rest m"

lemma transform_in_simps [simp]:
  "mc_in (transform_in ctx) = mc_in ctx" "bits_counted n (transform_in ctx) = bits_counted n ctx"
  "mc_buf (transform_in ctx) = rfc_compress (mc_buf ctx) (mc_in ctx)"
  "mc_bits0 (transform_in ctx) = mc_bits0 ctx" "mc_bits1 (transform_in ctx) = mc_bits1 ctx"
  by (simp_all add: transform_in_def transform_compress)

lemma rest_short [simp]: "length xs < 64 \<Longrightarrow> rest xs = xs"
  by (simp add: rest_def)

lemma rest_drop: "64 \<le> length xs \<Longrightarrow> rest (drop 64 xs) = rest xs"
  using rest_append [of "take 64 xs" "drop 64 xs"] by (simp add: rest_def)

lemma chunks_hold:
  assumes "length (mc_in ctx) = 64"
  shows "length (mc_in (update_chunks ctx b)) = 64 \<and> bits_counted n (update_chunks ctx b) = bits_counted n ctx \<and>
     mc_buf (update_chunks ctx b) = rfc_blocks (mc_buf ctx) b \<and>
     take (length b mod 64) (mc_in (update_chunks ctx b)) = rest b"
  using assms
proof (induction ctx b rule: update_chunks.induct)
  case (1 ctx b)
  show ?case
  proof (cases "64 \<le> length b")
    case True
    have "length (drop 64 b) mod 64 = length b mod 64" using True by (simp add: le_mod_geq)
    moreover have "update_chunks ctx b = update_chunks (transform_in (ctx\<lparr>mc_in := take 64 b\<rparr>)) (drop 64 b)"
      using True "1.prems" by (subst update_chunks.simps) simp
    moreover have "rfc_blocks (mc_buf ctx) b = rfc_blocks (rfc_compress (mc_buf ctx) (take 64 b)) (drop 64 b)"
      using True by (subst rfc_blocks.simps) simp
    ultimately show ?thesis using "1.IH" True "1.prems" by (simp add: rest_drop)
  next
    case False
    thus ?thesis using "1.prems" take_put [of 0 "mc_in ctx" b]
      by (subst (1 2 3 4) update_chunks.simps) simp
  qed
qed

lemma holds_init: "length (mc_in ctx) = 64 \<Longrightarrow> holds [] (MD5Init ctx)"
  by (simp add: holds_def MD5Init_def bits_counted_def md5_start_def)

lemma held: "bits_counted n ctx \<Longrightarrow> bytes_held (mc_bits0 ctx) = n mod 64"
  by (simp only: bits_counted_def held_bytes)

lemma holds_update:
  assumes "holds m ctx" "length b < 2 ^ 32"
  shows "holds (m @ b) (MD5Update ctx b)"
proof -
  define t where "t = length m mod 64"
  define c where "c = count_bits (length b) ctx"
  have c: "length (mc_in c) = 64" "bits_counted (length (m @ b)) c" "mc_buf c = rfc_blocks md5_start m"
    "take t (mc_in c) = rest m"
    using assms by (simp_all add: c_def holds_def bits_counted_count t_def)
  have t: "bytes_held (mc_bits0 ctx) = t" "length (rest m) = t" "t < 64"
    using assms(1) held by (auto simp: holds_def t_def)
  have blocks: "rfc_blocks md5_start (m @ b) = rfc_blocks (mc_buf c) (rest m @ b)"
    unfolding c(3) by (rule rfc_blocks_full)
  have tail: "length (m @ b) mod 64 = length (rest m @ b) mod 64" by (simp add: mod_add_left_eq)
  show ?thesis
  proof (cases "t = 0")
    case True
    hence r: "rest m = []" using t(2) by (metis length_0_conv)
    have "MD5Update ctx b = update_chunks c b" using True t(1) by (simp add: MD5Update_def c_def)
    thus ?thesis
      unfolding holds_def blocks tail rest_append [of m] r
      using chunks_hold [OF c(1), of b "length (m @ b)"] c(2) by simp
  next
    case nz: False
    show ?thesis
    proof (cases "length b < 64 - t")
      case True
      hence "MD5Update ctx b = c\<lparr>mc_in := put_bytes t b (mc_in c)\<rparr>"
        using nz t(1) by (simp add: MD5Update_def c_def Let_def)
      thus ?thesis
        unfolding holds_def blocks tail rest_append [of m]
        using True c t take_put [of t "mc_in c" b] by simp
    next
      case False
      define d where "d = transform_in (c\<lparr>mc_in := rest m @ take (64 - t) b\<rparr>)"
      have "put_bytes t (take (64 - t) b) (mc_in c) = rest m @ take (64 - t) b"
        using False c t by (subst put_end) simp_all
      hence u: "MD5Update ctx b = update_chunks d (drop (64 - t) b)"
        using False nz t(1) by (simp add: MD5Update_def c_def d_def Let_def)
      have d: "length (mc_in d) = 64" "bits_counted (length (m @ b)) d"
        "mc_buf d = rfc_compress (mc_buf c) (rest m @ take (64 - t) b)"
        using False c t by (simp_all add: d_def)
      have whole: "rest m @ b = (rest m @ take (64 - t) b) @ drop (64 - t) b" by simp
      have l: "length (rest m @ take (64 - t) b) = 64" using False t by simp
      have m: "length (rest m @ b) mod 64 = length (drop (64 - t) b) mod 64"
        unfolding whole length_append [of "rest m @ take (64 - t) b"] l by simp
      have r: "rest (rest m @ b) = rest (drop (64 - t) b)"
        unfolding whole rest_append [of "rest m @ take (64 - t) b"] using l by (simp add: rest_def)
      have k: "rfc_blocks (mc_buf c) (rest m @ b) = rfc_blocks (mc_buf d) (drop (64 - t) b)"
        unfolding d(3) by (subst whole, rule rfc_blocks_block [OF l])
      show ?thesis
        unfolding holds_def blocks tail rest_append [of m] u m r k
        using chunks_hold [OF d(1), of "drop (64 - t) b" "length (m @ b)"] d by simp
    qed
  qed
qed

section \<open>The digest\<close>

lemma length_bytes_of [simp]: "length (bytes_of w) = 4"
  by (simp add: bytes_of_def)

lemma pad_zeros: "(119 - n) mod 64 = (if n < 56 then 55 - n else 119 - n)" if "n < 64" for n :: nat
  using that by (auto simp: le_mod_geq)

lemma pad_block_holds:
  assumes "length (mc_in ctx) = 64" "take n (mc_in ctx) = r" "n = bytes_held (mc_bits0 ctx)" "n < 64"
  shows "length (mc_in (pad_block ctx)) = 64 \<and> mc_bits0 (pad_block ctx) = mc_bits0 ctx \<and>
    mc_bits1 (pad_block ctx) = mc_bits1 ctx \<and>
    (\<forall>ls. length ls = 8 \<longrightarrow>
       rfc_compress (mc_buf (pad_block ctx)) (take 56 (mc_in (pad_block ctx)) @ ls) =
       rfc_blocks (mc_buf ctx) (r @ [0x80] @ replicate ((119 - n) mod 64) 0 @ ls))"
proof -
  define c where "c = put_bytes n [0x80] (mc_in ctx)"
  have c: "length c = 64" "take (n + 1) c = r @ [0x80]"
    using assms take_put [of n "mc_in ctx" "[0x80]"] by (simp_all add: c_def)
  have r: "length r = n" using assms by auto
  show ?thesis
  proof (cases "n < 56")
    case True
    hence p: "mc_in (pad_block ctx) = put_bytes (n + 1) (replicate (55 - n) 0) c" "mc_buf (pad_block ctx) = mc_buf ctx"
      "mc_bits0 (pad_block ctx) = mc_bits0 ctx" "mc_bits1 (pad_block ctx) = mc_bits1 ctx"
      using assms(3) by (auto simp: pad_block_def c_def Let_def)
    have "take 56 (mc_in (pad_block ctx)) = r @ [0x80] @ replicate (55 - n) 0"
      using take_put [of "n + 1" c "replicate (55 - n) 0"] True c unfolding p by simp
    moreover have "rfc_blocks b (r @ [0x80] @ replicate (55 - n) 0 @ ls) =
        rfc_compress b (r @ [0x80] @ replicate (55 - n) 0 @ ls)" if "length ls = 8" for b ls
      using rfc_blocks_block [of "r @ [0x80] @ replicate (55 - n) 0 @ ls" b "[]"] r True that by simp
    ultimately show ?thesis using p c True by (simp add: pad_zeros)
  next
    case False
    define z where "z = put_bytes (n + 1) (replicate (63 - n) (0 :: byte)) c"
    have "mc_in (pad_block ctx) = put_bytes 0 (replicate 56 0) z"
      "mc_buf (pad_block ctx) = rfc_compress (mc_buf ctx) z"
      "mc_bits0 (pad_block ctx) = mc_bits0 ctx" "mc_bits1 (pad_block ctx) = mc_bits1 ctx"
      using False assms(3) by (auto simp: pad_block_def c_def z_def Let_def)
    moreover have z: "z = r @ [0x80] @ replicate (63 - n) 0"
      unfolding z_def using False assms(4) c by (subst put_end) simp_all
    moreover have "length z = 64" unfolding z using r assms(4) by simp
    moreover have "rfc_blocks b (r @ [0x80] @ replicate (119 - n) 0 @ ls) =
        rfc_compress (rfc_compress b (r @ [0x80] @ replicate (63 - n) 0)) (replicate 56 0 @ ls)" if "length ls = 8" for b ls
    proof -
      define x where "x = r @ [0x80] @ replicate (63 - n) 0"
      have "replicate (119 - n) (0 :: byte) = replicate (63 - n) 0 @ replicate 56 0"
        using assms(4) by (simp flip: replicate_add)
      hence "r @ [0x80] @ replicate (119 - n) 0 @ ls = x @ (replicate 56 0 @ ls) @ []"
        by (simp add: x_def)
      moreover have "length x = 64" "length (replicate 56 0 @ ls) = 64"
        using r False assms(4) that by (simp_all add: x_def)
      ultimately show ?thesis unfolding x_def [symmetric]
        by (simp only: rfc_blocks_block rfc_blocks_short list.size)
    qed
    ultimately show ?thesis using False assms(4) r by (simp add: pad_zeros)
  qed
qed

lemma final_digest:
  assumes "holds m ctx"
  shows "fst (MD5Final ctx) = rfc_md5 m"
proof -
  define n where "n = length m mod 64"
  define ls where "ls = bytes_of (mc_bits0 ctx) @ bytes_of (mc_bits1 ctx)"
  have h: "length (mc_in ctx) = 64" "take n (mc_in ctx) = rest m" "n = bytes_held (mc_bits0 ctx)" "n < 64"
    "mc_buf ctx = rfc_blocks md5_start m" "length ls = 8"
    using assms held by (auto simp: holds_def n_def ls_def)
  have ls: "ls = bytes_of (ucast (bit_length m)) @ bytes_of (ucast (drop_bit 32 (bit_length m)))"
    using assms unfolding holds_def bits_counted_def ls_def low_bits high_bits by simp
  note p = pad_block_holds [OF h(1-4)]
  have "rfc_md5 m = regs_bytes (rfc_blocks md5_start (m @ [0x80] @ replicate ((119 - n) mod 64) 0 @ ls))"
    by (simp only: rfc_md5_def rfc_pad_def md5_start_def n_def ls)
  also have "\<dots> = regs_bytes (rfc_compress (mc_buf (pad_block ctx)) (take 56 (mc_in (pad_block ctx)) @ ls))"
    by (simp only: rfc_blocks_full [of _ m] h(5)[symmetric] p h(6))
  also have "\<dots> = fst (MD5Final ctx)"
    using p h(6) by (simp add: MD5Final_def Let_def put_end ls_def)
  finally show ?thesis ..
qed

section \<open>Streaming\<close>

text \<open>
  What a client of a digest relies on: the context holds the message given to it so far, whatever the pieces,
  as long as the size of each piece is a 32-bit number, and \<open>final\<close> gives the digest of the message.
\<close>

locale streaming_digest =
  fixes start :: "'c \<Rightarrow> 'c" and update :: "'c \<Rightarrow> byte list \<Rightarrow> 'c" and final :: "'c \<Rightarrow> byte list \<times> 'c"
    and digest :: "byte list \<Rightarrow> byte list" and room :: "'c \<Rightarrow> bool" and has :: "byte list \<Rightarrow> 'c \<Rightarrow> bool"
  assumes has_start: "room c \<Longrightarrow> has [] (start c)"
    and has_update: "has m c \<Longrightarrow> length b < 2 ^ 32 \<Longrightarrow> has (m @ b) (update c b)"
    and final_has: "has m c \<Longrightarrow> fst (final c) = digest m"
begin

lemma has_updates:
  "has m c \<Longrightarrow> \<forall>b \<in> set bs. length b < 2 ^ 32 \<Longrightarrow> has (m @ concat bs) (fold (\<lambda>b c. update c b) bs c)"
proof (induction bs arbitrary: m c)
  case (Cons b bs)
  hence "has ((m @ b) @ concat bs) (fold (\<lambda>b c. update c b) bs (update c b))"
    by (intro Cons.IH has_update) simp_all
  thus ?case by simp
qed simp

lemma digest_of_pieces:
  "room c \<Longrightarrow> \<forall>b \<in> set bs. length b < 2 ^ 32 \<Longrightarrow>
   fst (final (fold (\<lambda>b c. update c b) bs (start c))) = digest (concat bs)"
  using final_has [OF has_updates [OF has_start]] by simp

end

interpretation md5: streaming_digest MD5Init MD5Update MD5Final rfc_md5 "\<lambda>c. length (mc_in c) = 64" holds
  by unfold_locales (simp_all add: holds_init holds_update final_digest)

text \<open>C36: Whatever the pieces of a message, \<open>MD5Init\<close>, \<open>MD5Update\<close> and \<open>MD5Final\<close> give its digest as RFC 1321
  defines it, for messages of any length (the length is bits_counted modulo \<open>2 ^ 64\<close> bits, as in the RFC).\<close>

theorem MD5_rfc:
  assumes "length (mc_in ctx) = 64" and "\<forall>b \<in> set bs. length b < 2 ^ 32"
  shows "fst (MD5Final (fold (\<lambda>b c. MD5Update c b) bs (MD5Init ctx))) = rfc_md5 (concat bs)"
  using assms by (rule md5.digest_of_pieces)

theorem MD5_rfc_witness:
  "fst (MD5Final (fold (\<lambda>b c. MD5Update c b) [[97], [98, 99]]
     (MD5Init \<lparr>mc_buf = md5_start, mc_bits0 = 7, mc_bits1 = 9, mc_in = replicate 64 5\<rparr>))) = rfc_md5 [97, 98, 99]"
  using MD5_rfc [of "\<lparr>mc_buf = md5_start, mc_bits0 = 7, mc_bits1 = 9, mc_in = replicate 64 5\<rparr>" "[[97], [98, 99]]"]
  by simp

end
