(* ===== verification/Mcookie.thy ===== *)
theory Mcookie
  imports Md5Facts
begin

text \<open>
  The program \<open>buildroot/package/x11r7/mcookie/mcookie.c\<close> over the digest of \<open>Md5\<close>: \<open>hash_file\<close> and
  \<open>main\<close>. What the kernel and the C library give (the parsed options, time, process numbers, the contents
  of the sources, the success of the last writes) is an argument; a file is the list of what it still has
  to give in one piece each, and reading it ends at an empty piece or at the end of the list.
\<close>

section \<open>Reading\<close>

type_synonym source = "byte list list"

text \<open>\<open>read (fd, buf, n)\<close>: at most \<open>n\<close> bytes of the next piece.\<close>

definition read_piece :: "nat \<Rightarrow> source \<Rightarrow> byte list \<times> source" where
  "read_piece n src =
     (case src of [] \<Rightarrow> ([], [])
      | p # ps \<Rightarrow> if length p \<le> n then (p, ps) else (take n p, drop n p # ps))"

definition BUFFERSIZE :: nat where "BUFFERSIZE = 4096"

lemma read_piece_less: "read_piece n src = (r, src') \<Longrightarrow> r \<noteq> [] \<Longrightarrow> 
    sum_list (map length src') < sum_list (map length src)"
  by (auto simp: read_piece_def split: list.splits if_splits)

text \<open>The loop of \<open>hash_file\<close>, with the number of bytes.\<close>

function hash_loop :: "md5_context \<Rightarrow> nat \<Rightarrow> source \<Rightarrow> md5_context \<times> nat" where
  "hash_loop ctx count src =
     (let (r, src') = read_piece BUFFERSIZE src in
      if r = [] then (ctx, count) else hash_loop (MD5Update ctx r) (count + length r) src')"
  by pat_completeness auto
termination
  by (relation "measure (\<lambda>(_, _, src). sum_list (map length src))") (auto simp: read_piece_less dest: sym)

declare hash_loop.simps [simp del]

definition hash_file :: "md5_context \<Rightarrow> source \<Rightarrow> md5_context \<times> nat" where
  "hash_file ctx src = (case hash_loop ctx 0 src of (c, count) \<Rightarrow> (MD5Update c [0], count))"

section \<open>The program\<close>

record rng =
  rng_path :: string
  rng_min :: nat
  rng_max :: nat

definition rngs :: "rng list" where
  "rngs = [\<lparr>rng_path = ''/dev/random'', rng_min = 16, rng_max = 16\<rparr>,
     \<lparr>rng_path = ''/proc/interrupts'', rng_min = 0, rng_max = 0\<rparr>,
     \<lparr>rng_path = ''/proc/slabinfo'', rng_min = 0, rng_max = 0\<rparr>,
     \<lparr>rng_path = ''/proc/stat'', rng_min = 0, rng_max = 0\<rparr>,
     \<lparr>rng_path = ''/dev/urandom'', rng_min = 32, rng_max = 64\<rparr>]"

record cookie_env =
  ce_options :: "(char \<times> string) list"
  ce_time :: "u32 list"
  ce_ppid :: u32
  ce_pid :: u32
  ce_stdin :: source
  ce_open :: "string \<Rightarrow> source option"
  ce_flushed :: bool
  ce_closed :: bool

definition getopts :: "(char \<times> string) list \<Rightarrow> nat \<times> string option" where
  "getopts os =
     fold (\<lambda>(c, arg) (verbose, file).
         if c = CHR ''v'' then (verbose + 1, file) else if c = CHR ''f'' then (verbose, Some arg) else (verbose, file))
       os (0, None)"

definition got :: "bool \<Rightarrow> nat \<Rightarrow> string \<Rightarrow> string list" where
  "got verbose n path = (if verbose then [''Got '' @ nat_str n @ '' bytes from '' @ path @ [char_of (10 :: nat)]] else [])"

definition not_opened :: "string \<Rightarrow> string" where
  "not_opened path = ''Could not open '' @ path @ [char_of (10 :: nat)]"

definition hash_user_file :: "cookie_env \<Rightarrow> bool \<Rightarrow> string option \<Rightarrow> md5_context \<Rightarrow> md5_context \<times> string list" where
  "hash_user_file env verbose file ctx =
     (case file of
        None \<Rightarrow> (ctx, [])
      | Some path \<Rightarrow>
          (case (if path = ''-'' then Some (ce_stdin env) else ce_open env path) of
             None \<Rightarrow> (ctx, [not_opened path])
           | Some src \<Rightarrow> (case hash_file ctx src of (c, count) \<Rightarrow> (c, got verbose count path))))"

definition read_source :: "rng \<Rightarrow> source \<Rightarrow> byte list" where
  "read_source g src =
     (let count = (if rng_max g \<noteq> 0 \<and> BUFFERSIZE > rng_max g then rng_max g else BUFFERSIZE)
      in fst (read_piece count src))"

text \<open>The loop over the sources; it is left at a source that gave as many bytes as are enough.\<close>

fun gather :: "cookie_env \<Rightarrow> bool \<Rightarrow> rng list \<Rightarrow> md5_context \<Rightarrow> md5_context \<times> string list" where
  "gather env verbose [] ctx = (ctx, [])"
| "gather env verbose (g # gs) ctx =
     (case ce_open env (rng_path g) of
        None \<Rightarrow>
          (case gather env verbose gs ctx of
             (c, msgs) \<Rightarrow> (c, (if verbose then [not_opened (rng_path g)] else []) @ msgs))
      | Some src \<Rightarrow>
          (let r = read_source g src;
               c = (if r \<noteq> [] then MD5Update ctx r else ctx);
               msg = got verbose (length r) (rng_path g)
           in if rng_min g \<noteq> 0 \<and> length r \<ge> rng_min g then (c, msg)
              else (case gather env verbose gs c of (c', msgs) \<Rightarrow> (c', msg @ msgs))))"

definition hex_char :: "nat \<Rightarrow> char" where "hex_char d = ''0123456789abcdef'' ! d"

definition hex_byte :: "byte \<Rightarrow> string" where
  "hex_byte b = [hex_char (unat b div 16), hex_char (unat b mod 16)]"

text \<open>Standard output, standard error, the exit status and the context that is left in memory.\<close>

definition mcookie_main :: "md5_context \<Rightarrow> cookie_env \<Rightarrow> string \<times> string list \<times> nat \<times> md5_context" where
  "mcookie_main ctx0 env =
     (let (verbose, file) = getopts (ce_options env);
          c1 = MD5Init ctx0;
          c2 = MD5Update c1 (concat (map bytes_of (ce_time env)));
          c3 = MD5Update c2 (bytes_of (ce_ppid env));
          c4 = MD5Update c3 (bytes_of (ce_pid env));
          (c5, msgs1) = hash_user_file env (0 < verbose) file c4;
          (c6, msgs2) = gather env (0 < verbose) rngs c5;
          (digest, c7) = MD5Final c6
      in (concat (map hex_byte digest) @ [char_of (10 :: nat)], msgs1 @ msgs2,
          if \<not> ce_flushed env \<or> \<not> ce_closed env then 1 else 0, c7))"

section \<open>What is hashed\<close>

text \<open>All that a file gives until the first empty piece.\<close>

definition contents :: "source \<Rightarrow> byte list" where "contents src = concat (takeWhile (\<lambda>p. p \<noteq> []) src)"

definition file_part :: "cookie_env \<Rightarrow> byte list" where
  "file_part env =
     (case snd (getopts (ce_options env)) of
        None \<Rightarrow> []
      | Some path \<Rightarrow>
          (case (if path = ''-'' then Some (ce_stdin env) else ce_open env path) of
             None \<Rightarrow> [] | Some src \<Rightarrow> contents src @ [0]))"

definition first_bytes :: "cookie_env \<Rightarrow> rng \<Rightarrow> byte list" where
  "first_bytes env g =
     (case ce_open env (rng_path g) of
        Some (p # _) \<Rightarrow> take (if rng_max g = 0 then BUFFERSIZE else min BUFFERSIZE (rng_max g)) p
      | _ \<Rightarrow> [])"

fun gathered :: "cookie_env \<Rightarrow> rng list \<Rightarrow> byte list" where
  "gathered env [] = []"
| "gathered env (g # gs) = first_bytes env g @
     (if rng_min g \<noteq> 0 \<and> length (first_bytes env g) \<ge> rng_min g then [] else gathered env gs)"

definition entropy :: "cookie_env \<Rightarrow> byte list" where
  "entropy env = concat (map bytes_of (ce_time env)) @ bytes_of (ce_ppid env) @ bytes_of (ce_pid env) @
     file_part env @ gathered env rngs"

lemma read_piece_contents:
  "read_piece n src = (r, src') \<Longrightarrow> 0 < n \<Longrightarrow> contents src = r @ (if r = [] then [] else contents src') \<and> length r \<le> n"
  by (auto simp: read_piece_def contents_def split: list.splits if_splits)

lemma hash_loop_holds:
  "holds m ctx \<Longrightarrow> holds (m @ contents src) (fst (hash_loop ctx count src))"
proof (induction ctx count src arbitrary: m rule: hash_loop.induct)
  case (1 ctx count src)
  obtain r src' where r: "read_piece BUFFERSIZE src = (r, src')" by fastforce
  note c = read_piece_contents [OF r]
  show ?case
  proof (cases "r = []")
    case True
    thus ?thesis using 1(2) r c by (subst hash_loop.simps) (simp add: BUFFERSIZE_def)
  next
    case False
    have "length r < 2 ^ 32" using c by (simp add: BUFFERSIZE_def)
    hence "holds ((m @ r) @ contents src') (fst (hash_loop (MD5Update ctx r) (count + length r) src'))"
      by (intro 1(1) [OF r [symmetric] refl False] md5.has_update 1(2))
    thus ?thesis using r c False by (subst hash_loop.simps) (simp add: BUFFERSIZE_def)
  qed
qed

lemma hash_file_holds: "holds m ctx \<Longrightarrow> holds (m @ contents src @ [0]) (fst (hash_file ctx src))"
  using md5.has_update [OF hash_loop_holds, of m ctx "[0]" src 0] by (simp add: hash_file_def case_prod_beta)

lemma hash_user_file_holds:
  "holds m ctx \<Longrightarrow> holds (m @ file_part env) (fst (hash_user_file env v (snd (getopts (ce_options env))) ctx))"
  using hash_file_holds [of m ctx]
  by (simp add: hash_user_file_def file_part_def case_prod_beta split: option.split)

lemma read_first: "fst (read_piece n (p # ps)) = take n p"
  by (simp add: read_piece_def)

lemma gather_holds: "holds m ctx \<Longrightarrow> holds (m @ gathered env gs) (fst (gather env v gs ctx))"
proof (induction gs arbitrary: m ctx)
  case (Cons g gs)
  show ?case
  proof (cases "ce_open env (rng_path g)")
    case None
    moreover have "gathered env (g # gs) = gathered env gs" using None by (auto simp: first_bytes_def)
    ultimately show ?thesis using Cons by (simp add: case_prod_beta del: gathered.simps)
  next
    case (Some src)
    define r where "r = read_source g src"
    have r: "first_bytes env g = r"
      by (cases src) (auto simp: r_def read_source_def Let_def first_bytes_def Some read_first read_piece_def min_def)
    define c where "c = (if r \<noteq> [] then MD5Update ctx r else ctx)"
    have "length r < 2 ^ 32"
      by (cases src) (auto simp: r_def read_source_def Let_def read_first read_piece_def BUFFERSIZE_def)
    hence c: "holds (m @ r) c" using md5.has_update [OF Cons.prems] Cons.prems by (simp add: c_def)
    show ?thesis
      using c Cons.IH [OF c] by (simp add: Some r Let_def r_def [symmetric] c_def [symmetric] case_prod_beta)
  qed
qed simp

text \<open>C37: The cookie that \<open>main\<close> prints is the MD5 digest, in hexadecimal, of the time, the process
  numbers, the file given with \<open>-f\<close> and the sources up to the first that gave enough bytes.\<close>

theorem mcookie_digest:
  assumes "length (mc_in ctx) = 64" and "length (ce_time env) < 2 ^ 28"
  shows "fst (mcookie_main ctx env) = concat (map hex_byte (rfc_md5 (entropy env))) @ [char_of (10 :: nat)]"
proof -
  let ?v = "0 < fst (getopts (ce_options env))" and ?f = "snd (getopts (ce_options env))"
  let ?t = "concat (map bytes_of (ce_time env))"
  define c4 where "c4 = fold (\<lambda>b c. MD5Update c b) [?t, bytes_of (ce_ppid env), bytes_of (ce_pid env)] (MD5Init ctx)"
  have "length ?t = 4 * length (ce_time env)" by (induction "ce_time env") (simp_all add: length_concat o_def sum_list_triv)
  hence "holds ([] @ concat [?t, bytes_of (ce_ppid env), bytes_of (ce_pid env)]) c4"
    unfolding c4_def using assms by (intro md5.has_updates md5.has_start) auto
  from gather_holds [OF hash_user_file_holds [OF this, of env ?v], of env rngs ?v]
  have "holds (entropy env) (fst (gather env ?v rngs (fst (hash_user_file env ?v ?f c4))))"
    by (simp add: entropy_def)
  from md5.final_has [OF this] show ?thesis
    by (simp add: mcookie_main_def c4_def Let_def case_prod_beta)
qed

definition cookie_demo :: cookie_env where
  "cookie_demo = \<lparr>ce_options = [(CHR ''f'', ''seed'')], ce_time = [1, 2], ce_ppid = 3, ce_pid = 4, ce_stdin = [],
     ce_open = (\<lambda>p. if p = ''seed'' then Some [[5], []] else if p = ''/proc/stat'' then Some [[6, 7]] else None),
     ce_flushed = True, ce_closed = True\<rparr>"

theorem mcookie_digest_witness:
  "fst (mcookie_main \<lparr>mc_buf = (1, 2, 3, 4), mc_bits0 = 5, mc_bits1 = 6, mc_in = replicate 64 7\<rparr> cookie_demo) =
     concat (map hex_byte (rfc_md5 (entropy cookie_demo))) @ [char_of (10 :: nat)] \<and>
   entropy cookie_demo = [1, 0, 0, 0, 2, 0, 0, 0, 3, 0, 0, 0, 4, 0, 0, 0, 5, 0, 6, 7]"
proof
  show "fst (mcookie_main \<lparr>mc_buf = (1, 2, 3, 4), mc_bits0 = 5, mc_bits1 = 6, mc_in = replicate 64 7\<rparr> cookie_demo) =
     concat (map hex_byte (rfc_md5 (entropy cookie_demo))) @ [char_of (10 :: nat)]"
    by (rule mcookie_digest) (simp_all add: cookie_demo_def)
  show "entropy cookie_demo = [1, 0, 0, 0, 2, 0, 0, 0, 3, 0, 0, 0, 4, 0, 0, 0, 5, 0, 6, 7]"
    by (simp add: entropy_def cookie_demo_def file_part_def getopts_def contents_def rngs_def first_bytes_def
        bytes_of_def BUFFERSIZE_def)
qed

text \<open>The clearing at the end leaves the last block and half of the digest in memory.\<close>

lemma mcookie_leaves_digest:
  "MD5Final ctx = (digest, ctx') \<Longrightarrow>
   drop 8 (regs_bytes (mc_buf ctx')) = drop 8 digest \<and> mc_bits0 ctx' = mc_bits0 (pad_block ctx)"
  by (cases "mc_buf ctx'"; auto simp: MD5Final_def Let_def clear_pointer_size_def regs_bytes_def bytes_of_def split: prod.splits)

end
