(* ===== verification/Wrapper.thy ===== *)
theory Wrapper
  imports CNum
begin

text \<open>
  The compiler wrapper \<open>buildroot/toolchain/toolchain-external/ext-toolchain-wrapper.c\<close>: it finds the
  tool chain from its own path, adds the arguments that were fixed when it was built, warns of unsafe paths
  and executes the compiler. The \<open>BR_\<close> macros are the record \<open>wrap_config\<close>, what the C library and the
  kernel answer is \<open>wrap_env\<close>. The texts of \<open>perror\<close> are left out.
\<close>

record wrap_config =
  br_abi :: "string option"
  br_fpu :: "string option"
  br_softfloat :: bool
  br_mode :: "string option"
  br_64 :: bool
  br_flat :: bool
  br_little :: bool
  br_big :: bool
  br_cflags :: "string list"
  br_float_abi :: "string option"
  br_arch :: "string option"
  br_cpu :: "string option"
  br_cross_rel :: "string option"
  br_cross_abs :: string
  br_sysroot :: string

record wrap_env =
  we_name :: string
  we_malloc :: "nat \<Rightarrow> bool"
  we_realpath :: "string \<Rightarrow> string option"
  we_self :: "string option"
  we_getenv :: "string \<Rightarrow> string option"
  we_execv :: bool

definition PATH_MAX :: nat where "PATH_MAX = 4096"
definition EXCLUSIVE_ARGS :: nat where "EXCLUSIVE_ARGS = 3"

definition opt_arg :: "string \<Rightarrow> string option \<Rightarrow> string list" where
  "opt_arg p v = (case v of None \<Rightarrow> [] | Some s \<Rightarrow> [p @ s])"

definition flag_arg :: "string \<Rightarrow> bool \<Rightarrow> string list" where "flag_arg s b = (if b then [s] else [])"

definition predef_args :: "wrap_config \<Rightarrow> string \<Rightarrow> string \<Rightarrow> string list" where
  "predef_args c path sysroot =
     [path, ''--sysroot'', sysroot] @ opt_arg ''-mabi='' (br_abi c) @ opt_arg ''-mfpu='' (br_fpu c) @
     flag_arg ''-msoft-float'' (br_softfloat c) @ opt_arg ''-m'' (br_mode c) @ flag_arg ''-m64'' (br_64 c) @
     flag_arg ''-Wl,-elf2flt'' (br_flat c) @ flag_arg ''-EL'' (br_little c) @ flag_arg ''-EB'' (br_big c) @
     br_cflags c"

section \<open>Unsafe paths\<close>

definition unsafe_paths :: "string list" where
  "unsafe_paths = [''/lib'', ''/usr/include'', ''/usr/lib'', ''/usr/local/include'', ''/usr/local/lib'']"

definition unsafe_message :: "string \<Rightarrow> bool \<Rightarrow> string \<Rightarrow> string" where
  "unsafe_message name paranoid p =
     name @ '': '' @ (if paranoid then ''ERROR'' else ''WARNING'') @
     '': unsafe header/library path used in cross-compilation: '' @ [char_of (39 :: nat)] @ p @
     [char_of (39 :: nat), char_of (10 :: nat)]"

text \<open>The messages, and whether the program exits.\<close>

fun check_paths :: "string \<Rightarrow> string \<Rightarrow> bool \<Rightarrow> string list \<Rightarrow> string list \<times> bool" where
  "check_paths name p paranoid [] = ([], False)"
| "check_paths name p paranoid (c # cs) =
     (if starts_with p c
      then if paranoid then ([unsafe_message name paranoid p], True)
           else (case check_paths name p paranoid cs of (m, e) \<Rightarrow> (unsafe_message name paranoid p # m, e))
      else check_paths name p paranoid cs)"

definition check_unsafe_path :: "string \<Rightarrow> string \<Rightarrow> bool \<Rightarrow> string list \<times> bool" where
  "check_unsafe_path name p paranoid = check_paths name p paranoid unsafe_paths"

text \<open>One check behind another.\<close>

definition and_then :: "string list \<times> bool \<Rightarrow> string list \<times> bool \<Rightarrow> string list \<times> bool" where
  "and_then a b = (if snd a then a else (fst a @ fst b, snd b))"

text \<open>The loop over the arguments; an option without its path takes the next argument.\<close>

fun check_args :: "string \<Rightarrow> bool \<Rightarrow> string list \<Rightarrow> string list \<times> bool" where
  "check_args name paranoid [] = ([], False)"
| "check_args name paranoid (a # as) =
     (if \<not> starts_with a ''-I'' \<and> \<not> starts_with a ''-L'' then check_args name paranoid as
      else if length a = 2
      then (case as of
              [] \<Rightarrow> ([], False)
            | p # as' \<Rightarrow> and_then (check_unsafe_path name p paranoid) (check_args name paranoid as'))
      else and_then (check_unsafe_path name (drop 2 a) paranoid) (check_args name paranoid as))"

section \<open>Where the tool chain is\<close>

text \<open>\<open>strrchr (progpath, '/')\<close>: the directory, if there is one, and the name.\<close>

definition split_prog :: "string \<Rightarrow> string option \<times> string" where
  "split_prog p =
     (if CHR ''/'' \<in> set p
      then (Some (rev (drop 1 (dropWhile (\<lambda>c. c \<noteq> CHR ''/'') (rev p)))),
            rev (takeWhile (\<lambda>c. c \<noteq> CHR ''/'') (rev p)))
      else (None, p))"

text \<open>The loop from the end that replaces slashes by the end of the string; the first character is not looked at.\<close>

fun strip_last :: "nat \<Rightarrow> nat \<Rightarrow> string \<Rightarrow> string" where
  "strip_last 0 count s = s"
| "strip_last (Suc i) count s =
     (if Suc i < length s \<and> s ! Suc i = CHR ''/''
      then if count + 1 = 3 then take (Suc i) s else strip_last i (count + 1) (take (Suc i) s)
      else strip_last i count s)"

text \<open>\<open>Inl\<close> is the exit status.\<close>

definition find_base :: "wrap_env \<Rightarrow> string option \<Rightarrow> nat + string" where
  "find_base e dir =
     (case dir of
        Some d \<Rightarrow>
          if \<not> we_malloc e 0 then Inl 2
          else (case we_realpath e (d @ ''/../..'') of None \<Rightarrow> Inl 2 | Some b \<Rightarrow> Inr b)
      | None \<Rightarrow>
          (case (if we_malloc e 0 then we_self e else None) of
             None \<Rightarrow> Inl 2
           | Some l \<Rightarrow> let s = take PATH_MAX l in Inr (strip_last (length s) 0 s)))"

definition tool_path :: "wrap_config \<Rightarrow> string \<Rightarrow> string \<Rightarrow> string" where
  "tool_path c base name =
     (case br_cross_rel c of Some r \<Rightarrow> base @ ''/'' @ r @ ''/'' @ name | None \<Rightarrow> br_cross_abs c @ ''/'' @ name)"

definition sysroot_path :: "wrap_config \<Rightarrow> string \<Rightarrow> string" where
  "sysroot_path c base = base @ ''/'' @ br_sysroot c"

section \<open>Arguments\<close>

definition float_given :: "string \<Rightarrow> bool" where
  "float_given a \<longleftrightarrow> starts_with a ''-mfloat-abi='' \<or> a = ''-msoft-float'' \<or> a = ''-mhard-float''"

definition cpu_given :: "string \<Rightarrow> bool" where
  "cpu_given a \<longleftrightarrow> starts_with a ''-march='' \<or> starts_with a ''-mcpu=''"

definition float_args :: "wrap_config \<Rightarrow> string list \<Rightarrow> string list" where
  "float_args c args = (if \<exists>a \<in> set args. float_given a then [] else opt_arg ''-mfloat-abi='' (br_float_abi c))"

definition cpu_args :: "wrap_config \<Rightarrow> string list \<Rightarrow> string list" where
  "cpu_args c args =
     (if \<exists>a \<in> set args. cpu_given a then [] else opt_arg ''-march='' (br_arch c) @ opt_arg ''-mcpu='' (br_cpu c))"

definition wrapped_args :: "wrap_config \<Rightarrow> string \<Rightarrow> string \<Rightarrow> string list \<Rightarrow> string list" where
  "wrapped_args c path sysroot args =
     predef_args c path sysroot @ float_args c args @ cpu_args c args @ args"

text \<open>The pointers that \<open>malloc\<close> is asked for.\<close>

definition args_room :: "wrap_config \<Rightarrow> string \<Rightarrow> string \<Rightarrow> nat \<Rightarrow> nat" where
  "args_room c path sysroot argc = length (predef_args c path sysroot) + (argc + EXCLUSIVE_ARGS)"

definition debug_text :: "wrap_env \<Rightarrow> string list \<Rightarrow> string list" where
  "debug_text e args =
     (case we_getenv e ''BR2_DEBUG_WRAPPER'' of
        None \<Rightarrow> []
      | Some v \<Rightarrow>
          if atoi v > 0
          then [''Toolchain wrapper executing:'' @
                concat (map (\<lambda>a. (if atoi v = 2 then char_of (10 :: nat) # ''    '' else '' '') @
                  [char_of (39 :: nat)] @ a @ [char_of (39 :: nat)]) args) @ [char_of (10 :: nat)]]
          else [])"

definition paranoid :: "wrap_env \<Rightarrow> bool" where
  "paranoid e = (case we_getenv e ''BR_COMPILER_PARANOID_UNSAFE_PATH'' of None \<Rightarrow> False | Some s \<Rightarrow> 0 < length s)"

text \<open>
  What is written to standard error, and the exit status (\<open>Inl\<close>) or the program and the arguments that
  replace the process (\<open>Inr\<close>).
\<close>

type_synonym wrap_result = "string list \<times> (nat + string \<times> string list)"

definition wrapper_exec :: "wrap_config \<Rightarrow> wrap_env \<Rightarrow> string \<Rightarrow> string \<Rightarrow> string list \<Rightarrow> wrap_result" where
  "wrapper_exec c e path sysroot args =
     (if \<not> we_malloc e 1 then ([], Inl 2)
      else (case check_args (we_name e) (paranoid e) args of
              (m, True) \<Rightarrow> (m, Inl 1)
            | (m, False) \<Rightarrow>
                (let as = wrapped_args c path sysroot args in
                 (m @ debug_text e as, if we_execv e then Inr (path, as) else Inl 2))))"

definition wrapper_main :: "wrap_config \<Rightarrow> wrap_env \<Rightarrow> string \<Rightarrow> string list \<Rightarrow> wrap_result" where
  "wrapper_main c e prog args =
     (case split_prog prog of (dir, name) \<Rightarrow>
        (case find_base e dir of
           Inl r \<Rightarrow> ([], Inl r)
         | Inr base \<Rightarrow>
             (let path = tool_path c base name; sysroot = sysroot_path c base in
              if length path \<ge> PATH_MAX \<or> length sysroot \<ge> PATH_MAX then ([], Inl 3)
              else wrapper_exec c e path sysroot args)))"

section \<open>Theorems\<close>

text \<open>The paths that \<open>-I\<close> and \<open>-L\<close> name among the arguments.\<close>

fun searched :: "string list \<Rightarrow> string list" where
  "searched [] = []"
| "searched (a # as) =
     (if take 2 a \<in> {''-I'', ''-L''}
      then if length a = 2 then (case as of [] \<Rightarrow> [] | p # as' \<Rightarrow> p # searched as') else drop 2 a # searched as
      else searched as)"

definition is_unsafe :: "string \<Rightarrow> bool" where "is_unsafe p \<longleftrightarrow> (\<exists>u \<in> set unsafe_paths. starts_with p u)"

lemma snd_and_then [simp]: "snd (and_then a b) \<longleftrightarrow> snd a \<or> snd b"
  by (simp add: and_then_def)

lemma check_paths_exits: "snd (check_paths name p par cs) \<longleftrightarrow> par \<and> (\<exists>u \<in> set cs. starts_with p u)"
  by (induction cs) (auto simp: case_prod_beta)

lemma check_unsafe_path_exits: "snd (check_unsafe_path name p par) \<longleftrightarrow> par \<and> is_unsafe p"
  by (simp add: check_unsafe_path_def check_paths_exits is_unsafe_def)

lemma starts_with_take: "length u = 2 \<Longrightarrow> starts_with a u \<longleftrightarrow> take 2 a = u"
  by (auto simp: starts_with_def)

lemma check_args_exits: "snd (check_args name par as) \<longleftrightarrow> par \<and> (\<exists>p \<in> set (searched as). is_unsafe p)"
  by (induction as rule: searched.induct) (auto simp: starts_with_take check_unsafe_path_exits split: list.split)

lemma length_opt_arg: "length (opt_arg p v) \<le> 1"
  by (simp add: opt_arg_def split: option.split)

lemma args_fit: "length (wrapped_args c path sysroot args) + 1 \<le> args_room c path sysroot (length args + 1)"
  using length_opt_arg [of "''-mfloat-abi=''" "br_float_abi c"] length_opt_arg [of "''-march=''" "br_arch c"]
    length_opt_arg [of "''-mcpu=''" "br_cpu c"]
  by (simp add: wrapped_args_def args_room_def EXCLUSIVE_ARGS_def float_args_def cpu_args_def)

lemma extra_float: "\<exists>a \<in> set args. float_given a \<Longrightarrow> x \<in> set (float_args c args @ cpu_args c args) \<Longrightarrow> \<not> float_given x"
  by (auto simp: float_args_def cpu_args_def opt_arg_def float_given_def starts_with_def split: option.splits if_splits)

lemma extra_cpu: "\<exists>a \<in> set args. cpu_given a \<Longrightarrow> x \<in> set (float_args c args @ cpu_args c args) \<Longrightarrow> \<not> cpu_given x"
  by (auto simp: float_args_def cpu_args_def opt_arg_def cpu_given_def starts_with_def split: option.splits if_splits)

lemma wrapper_exec_executes:
  "wrapper_exec c e p sr args = (msgs, Inr (path, as)) \<Longrightarrow>
   path = p \<and> as = wrapped_args c p sr args \<and> \<not> snd (check_args (we_name e) (paranoid e) args)"
  by (auto simp: wrapper_exec_def Let_def split: if_splits prod.splits bool.splits)

text \<open>C38: The compiler is executed only with the fixed arguments followed by those of the user in their
  order, which fit into the array with the null pointer behind them; an argument that is added by itself
  contradicts none of the user; and in paranoid mode no searched path is unsafe.\<close>

theorem wrapper_executes:
  assumes "wrapper_main c e prog args = (msgs, Inr (path, as))"
  shows "\<exists>sysroot extra. as = predef_args c path sysroot @ extra @ args \<and>
     length as + 1 \<le> args_room c path sysroot (length args + 1) \<and>
     length path < PATH_MAX \<and> length sysroot < PATH_MAX \<and>
     ((\<exists>a \<in> set args. float_given a) \<longrightarrow> (\<forall>x \<in> set extra. \<not> float_given x)) \<and>
     ((\<exists>a \<in> set args. cpu_given a) \<longrightarrow> (\<forall>x \<in> set extra. \<not> cpu_given x)) \<and>
     (paranoid e \<longrightarrow> (\<forall>p \<in> set (searched args). \<not> is_unsafe p))"
proof -
  obtain base where b: "find_base e (fst (split_prog prog)) = Inr base"
    using assms by (auto simp: wrapper_main_def case_prod_beta split: sum.splits)
  define p where "p = tool_path c base (snd (split_prog prog))"
  define sr where "sr = sysroot_path c base"
  have x: "wrapper_exec c e p sr args = (msgs, Inr (path, as))" "length p < PATH_MAX" "length sr < PATH_MAX"
    using assms b by (auto simp: wrapper_main_def case_prod_beta Let_def p_def sr_def split: if_splits)
  note w = wrapper_exec_executes [OF x(1)]
  show ?thesis
  proof (intro exI conjI impI)
    show "as = predef_args c path sr @ (float_args c args @ cpu_args c args) @ args"
      using w by (simp add: wrapped_args_def)
  qed (use w x(2,3) extra_float extra_cpu args_fit check_args_exits in blast)+
qed

definition wrap_demo :: wrap_config where
  "wrap_demo = \<lparr>br_abi = Some ''aapcs'', br_fpu = None, br_softfloat = False, br_mode = None, br_64 = False,
     br_flat = False, br_little = False, br_big = False, br_cflags = [], br_float_abi = Some ''hard'',
     br_arch = Some ''armv6'', br_cpu = None, br_cross_rel = Some ''opt'', br_cross_abs = [], br_sysroot = ''usr''\<rparr>"

definition wrap_demo_env :: wrap_env where
  "wrap_demo_env = \<lparr>we_name = ''gcc'', we_malloc = (\<lambda>_. True), we_realpath = (\<lambda>_. Some ''/host''), we_self = None,
     we_getenv = (\<lambda>v. if v = ''BR_COMPILER_PARANOID_UNSAFE_PATH'' then Some ''1'' else None), we_execv = True\<rparr>"

lemmas wrap_run = wrapper_main_def wrapper_exec_def wrap_demo_def wrap_demo_env_def split_prog_def find_base_def
  tool_path_def sysroot_path_def Let_def PATH_MAX_def paranoid_def starts_with_def debug_text_def
  wrapped_args_def predef_args_def opt_arg_def flag_arg_def float_args_def cpu_args_def float_given_def
  cpu_given_def and_then_def check_unsafe_path_def unsafe_paths_def

lemma wrap_demo_runs:
  "wrapper_main wrap_demo wrap_demo_env ''/host/usr/bin/gcc'' [''-mcpu=x'', ''-I'', ''inc''] =
     ([], Inr (''/host/opt/gcc'', [''/host/opt/gcc'', ''--sysroot'', ''/host/usr'', ''-mabi=aapcs'',
       ''-mfloat-abi=hard'', ''-mcpu=x'', ''-I'', ''inc'']))"
  by (simp add: wrap_run)

theorem wrapper_executes_witness:
  "\<exists>sysroot extra. [''/host/opt/gcc'', ''--sysroot'', ''/host/usr'', ''-mabi=aapcs'', ''-mfloat-abi=hard'',
       ''-mcpu=x'', ''-I'', ''inc''] =
     predef_args wrap_demo ''/host/opt/gcc'' sysroot @ extra @ [''-mcpu=x'', ''-I'', ''inc'']"
  using wrapper_executes [OF wrap_demo_runs] by blast

text \<open>An unsafe path that is given stops the wrapper in paranoid mode only.\<close>

lemma wrapper_refuses:
  assumes "find_base e (fst (split_prog prog)) = Inr base" "we_malloc e 1" "paranoid e"
    and "length (tool_path c base (snd (split_prog prog))) < PATH_MAX" "length (sysroot_path c base) < PATH_MAX"
    and "p \<in> set (searched args)" "is_unsafe p"
  shows "snd (wrapper_main c e prog args) = Inl 1"
proof -
  have "snd (check_args (we_name e) (paranoid e) args)" using assms check_args_exits by blast
  thus ?thesis using assms
    by (cases "check_args (we_name e) (paranoid e) args") (simp add: wrapper_main_def wrapper_exec_def case_prod_beta Let_def)
qed

end
