(* ===== verification/Makedevs.thy ===== *)
theory Makedevs
  imports CNum
begin

text \<open>
  The program \<open>buildroot/package/makedevs/makedevs.c\<close>, which makes directories and device files from a
  table. System calls are appended to a log; what the kernel answers is a function of the log so far and the
  call. Numbers keep the 32 bits of \<open>unsigned int\<close>. Messages are left out.
\<close>

unbundle bit_operations_syntax

type_synonym uint = "32 word"

datatype dev_call =
    Umask uint
  | Mkdir string uint
  | Stat_dir string
  | Stat_reg string
  | Chmod string uint
  | Chown string uint uint
  | Mknod string uint uint uint

datatype answer = Yes | Exists | No

type_synonym kernel = "dev_call list \<Rightarrow> dev_call \<Rightarrow> answer"

record dev_state =
  ds_log :: "dev_call list"
  ds_umask :: uint
  ds_failed :: bool

definition call :: "kernel \<Rightarrow> dev_call \<Rightarrow> dev_state \<Rightarrow> answer \<times> dev_state" where
  "call k c st = (k (ds_log st) c, st\<lparr>ds_log := ds_log st @ [c]\<rparr>)"

definition set_umask :: "kernel \<Rightarrow> uint \<Rightarrow> dev_state \<Rightarrow> dev_state" where
  "set_umask k m st = (snd (call k (Umask m) st))\<lparr>ds_umask := m\<rparr>"

definition S_IFDIR :: uint where "S_IFDIR = 0x4000"
definition S_IFCHR :: uint where "S_IFCHR = 0x2000"
definition S_IFBLK :: uint where "S_IFBLK = 0x6000"
definition S_IFIFO :: uint where "S_IFIFO = 0x1000"

section \<open>Directories\<close>

text \<open>
  Where the path is cut next: behind the first name at or behind position \<open>i\<close> and the slashes that follow it;
  no cut when there is no slash. A cut at the end of the path leaves all of it.
\<close>

definition next_cut :: "string \<Rightarrow> nat \<Rightarrow> nat option" where
  "next_cut path i =
     (let rest = drop i path; name = takeWhile (\<lambda>c. c \<noteq> CHR ''/'') rest;
          slashes = takeWhile (\<lambda>c. c = CHR ''/'') (drop (length name) rest);
          j = i + length name + length slashes
      in if slashes = [] \<or> length path \<le> j then None else Some j)"

lemma next_cut_less: "next_cut path i = Some j \<Longrightarrow> i < j \<and> j < length path"
  by (auto simp: next_cut_def Let_def split: if_splits)

text \<open>\<open>mkdir\<close> of a part of the path: the answer, and whether the directory can be used.\<close>

definition try_mkdir :: "kernel \<Rightarrow> string \<Rightarrow> bool \<Rightarrow> dev_state \<Rightarrow> answer \<times> bool \<times> dev_state" where
  "try_mkdir k dir recur st =
     (case call k (Mkdir dir 0x1ff) st of
        (a, st1) \<Rightarrow>
          if a = Exists \<and> recur then (case call k (Stat_dir dir) st1 of (b, st2) \<Rightarrow> (a, b = Yes, st2))
          else (a, a = Yes, st1))"

function make_dirs_loop :: "kernel \<Rightarrow> string \<Rightarrow> uint \<Rightarrow> uint \<Rightarrow> bool \<Rightarrow> nat \<Rightarrow> dev_state \<Rightarrow> bool \<times> dev_state" where
  "make_dirs_loop k path mode um recur i st =
     (case (if recur then next_cut path i else None) of
        Some j \<Rightarrow>
          (case try_mkdir k (take j path) recur st of
             (a, usable, st1) \<Rightarrow>
               if \<not> usable then (False, set_umask k um st1) else make_dirs_loop k path mode um recur j st1)
      | None \<Rightarrow>
          (case try_mkdir k path recur st of
             (a, usable, st1) \<Rightarrow>
               if \<not> usable then (False, set_umask k um st1)
               else if a \<noteq> Yes then (True, set_umask k um st1)
               else (case call k (Chmod path mode) (set_umask k um st1) of (b, st2) \<Rightarrow> (b = Yes, st2))))"
  by pat_completeness auto
termination
  by (relation "measure (\<lambda>(k, path, mode, um, recur, i, st). length path - i)")
    (auto dest!: next_cut_less [OF sym] next_cut_less split: if_splits)

declare make_dirs_loop.simps [simp del]

text \<open>The \<open>mode\<close> is a \<open>long\<close> made of a 32-bit number, which is never \<open>-1\<close>; \<open>True\<close> is the return value 0.\<close>

definition bb_make_directory :: "kernel \<Rightarrow> string \<Rightarrow> uint \<Rightarrow> bool \<Rightarrow> dev_state \<Rightarrow> bool \<times> dev_state" where
  "bb_make_directory k path mode recur st =
     (let um = ds_umask st;
          st1 = set_umask k (um AND NOT 0xc0) (set_umask k 0 st)
      in make_dirs_loop k path mode um recur 0 st1)"

section \<open>Lines of the table\<close>

text \<open>
  \<open>private_get_line_from_file\<close> with \<open>c = 1\<close>: the loop keeps the buffer and its size. It ends behind a newline,
  which is taken off, behind a null character, and at the end of the file.
\<close>

fun get_line_loop :: "string \<Rightarrow> nat \<Rightarrow> string \<Rightarrow> string \<times> nat \<times> bool \<times> string" where
  "get_line_loop buf sz [] = (buf, sz, True, [])"
| "get_line_loop buf sz (ch # file) =
     (let sz1 = (if int (length buf) > int sz - 2 then sz + 80 else sz) in
      if ch = char_of (0 :: nat) \<or> ch = char_of (10 :: nat) then (buf, sz1, False, file)
      else get_line_loop (buf @ [ch]) sz1 file)"

text \<open>\<open>ok\<close> is false when the file ends with a read error: the line before it is dropped.\<close>

definition get_chomped_line :: "bool \<Rightarrow> string \<Rightarrow> (string \<times> string) option" where
  "get_chomped_line ok file =
     (case get_line_loop [] 0 file of
        (buf, sz, True, rest) \<Rightarrow> if buf = [] \<or> \<not> ok then None else Some (buf, rest)
      | (buf, sz, False, rest) \<Rightarrow> Some (buf, rest))"

text \<open>The conversions of \<open>sscanf\<close> the program uses; \<open>None\<close> when nothing matches.\<close>

definition scan_word :: "nat \<Rightarrow> string \<Rightarrow> (string \<times> string) option" where
  "scan_word n s =
     (let t = dropWhile is_space s; w = take n (takeWhile (\<lambda>c. \<not> is_space c) t)
      in if w = [] then None else Some (w, drop (length w) t))"

definition is_octal :: "char \<Rightarrow> bool" where "is_octal c \<longleftrightarrow> is_digit c \<and> digit_val c < 8"

definition scan_base :: "nat \<Rightarrow> string \<Rightarrow> (uint \<times> string) option" where
  "scan_base base s =
     (let t = dropWhile is_space s; neg = take 1 t = ''-'';
          u = (if neg \<or> take 1 t = ''+'' then drop 1 t else t);
          ds = takeWhile (if base = 8 then is_octal else is_digit) u;
          v = foldl (\<lambda>n c. base * n + digit_val c) 0 ds;
          w = (if v < 2 ^ 64 then if neg then - (word_of_nat v) else word_of_nat v else - 1 :: 64 word)
      in if ds = [] then None else Some (ucast w, drop (length ds) u))"

record dev_line =
  dl_name :: string
  dl_type :: char
  dl_mode :: uint
  dl_user :: string
  dl_group :: string
  dl_numbers :: "uint list"

text \<open>Up to \<open>n\<close> numbers; the first that does not match ends the scan.\<close>

fun scan_numbers :: "nat \<Rightarrow> string \<Rightarrow> uint list" where
  "scan_numbers 0 s = []"
| "scan_numbers (Suc n) s = (case scan_base 10 s of None \<Rightarrow> [] | Some (v, r) \<Rightarrow> v # scan_numbers n r)"

text \<open>
  \<open>sscanf (line, "%4095s %c %o %40s %40s %u %u %u %u %u")\<close>. What is not assigned keeps its initial value; the
  arrays \<open>user\<close> and \<open>group\<close> have none, so what they hold, \<open>ju\<close> and \<open>jg\<close>, is a parameter. \<open>None\<close>: fewer than
  two values.
\<close>

definition scan_owner :: "string \<Rightarrow> string \<Rightarrow> string \<Rightarrow> string \<times> string \<times> uint list" where
  "scan_owner ju jg s =
     (case scan_word 40 s of
        None \<Rightarrow> (ju, jg, [])
      | Some (u, r) \<Rightarrow> (case scan_word 40 r of None \<Rightarrow> (u, jg, []) | Some (g, r1) \<Rightarrow> (u, g, scan_numbers 5 r1)))"

definition scan_line :: "string \<Rightarrow> string \<Rightarrow> string \<Rightarrow> dev_line option" where
  "scan_line ju jg line =
     (case scan_word 4095 line of
        None \<Rightarrow> None
      | Some (name, r) \<Rightarrow>
          (case dropWhile is_space r of
             [] \<Rightarrow> None
           | t # r1 \<Rightarrow>
               (case scan_base 8 r1 of
                  None \<Rightarrow> Some \<lparr>dl_name = name, dl_type = t, dl_mode = 0x1ed, dl_user = ju, dl_group = jg, dl_numbers = []\<rparr>
                | Some (m, r2) \<Rightarrow>
                    (case scan_owner ju jg r2 of
                       (u, g, ns) \<Rightarrow> Some \<lparr>dl_name = name, dl_type = t, dl_mode = m, dl_user = u, dl_group = g,
                         dl_numbers = ns\<rparr>))))"

definition dl_number :: "nat \<Rightarrow> dev_line \<Rightarrow> uint" where
  "dl_number i d = (if i < length (dl_numbers d) then dl_numbers d ! i else 0)"

definition dl_major :: "dev_line \<Rightarrow> uint" where "dl_major = dl_number 0"
definition dl_minor :: "dev_line \<Rightarrow> uint" where "dl_minor = dl_number 1"
definition dl_start :: "dev_line \<Rightarrow> uint" where "dl_start = dl_number 2"
definition dl_increment :: "dev_line \<Rightarrow> uint" where "dl_increment = dl_number 3"
definition dl_count :: "dev_line \<Rightarrow> uint" where "dl_count = dl_number 4"

definition too_big :: "dev_line \<Rightarrow> bool" where
  "too_big d \<longleftrightarrow> (dl_major d OR dl_minor d OR dl_start d OR dl_count d OR dl_increment d) > 0xfffff"

section \<open>Owners and names\<close>

text \<open>\<open>get_ug_id\<close>: a number, or the entry of the name; \<open>None\<close> is the exit for an unknown name.\<close>

definition get_ug_id :: "(string \<Rightarrow> 64 word option) \<Rightarrow> string \<Rightarrow> uint option" where
  "get_ug_id lookup s =
     (case strtoul10 s of
        Some (r, []) \<Rightarrow> Some (ucast r)
      | _ \<Rightarrow> map_option ucast (lookup s))"

definition concat_path_file :: "string \<Rightarrow> string \<Rightarrow> string" where
  "concat_path_file path filename =
     path @ (if ends_with path ''/'' then [] else ''/'') @ dropWhile (\<lambda>c. c = CHR ''/'') filename"

section \<open>The entries of a line\<close>

record users =
  us_passwd :: "string \<Rightarrow> 64 word option"
  us_group :: "string \<Rightarrow> 64 word option"
  us_uid :: uint
  us_gid :: uint

definition fail_if :: "bool \<Rightarrow> dev_state \<Rightarrow> dev_state" where
  "fail_if b st = (if b then st\<lparr>ds_failed := True\<rparr> else st)"

text \<open>\<open>chown\<close> and \<open>chmod\<close> of a directory or a file; the second is not reached when the first fails.\<close>

definition set_owner :: "kernel \<Rightarrow> string \<Rightarrow> uint \<Rightarrow> uint \<Rightarrow> uint \<Rightarrow> dev_state \<Rightarrow> dev_state" where
  "set_owner k name mode uid gid st =
     (case call k (Chown name uid gid) st of
        (a, st1) \<Rightarrow>
          if a \<noteq> Yes then fail_if True st1
          else if mode \<noteq> - 1 then (case call k (Chmod name mode) st1 of (b, st2) \<Rightarrow> fail_if (b \<noteq> Yes) st2)
          else st1)"

definition make_node :: "kernel \<Rightarrow> string \<Rightarrow> uint \<Rightarrow> uint \<Rightarrow> uint \<Rightarrow> uint \<Rightarrow> uint \<Rightarrow> dev_state \<Rightarrow> dev_state" where
  "make_node k name mode maj mnr uid gid st =
     (let st2 =
        (case call k (Mknod name mode maj mnr) st of
           (a, st1) \<Rightarrow>
             if a \<noteq> Yes then fail_if True st1
             else (case call k (Chown name uid gid) st1 of (b, s) \<Rightarrow> fail_if (b \<noteq> Yes) s))
      in if mode \<noteq> - 1 then (case call k (Chmod name mode) st2 of (c, st3) \<Rightarrow> fail_if (c \<noteq> Yes) st3) else st2)"

text \<open>\<open>sprintf (full_name_inc, "%s%d", full_name, start + i)\<close> into \<open>strlen (full_name) + 8\<close> bytes.\<close>

definition node_name :: "string \<Rightarrow> uint \<Rightarrow> nat \<Rightarrow> string" where
  "node_name name start i = name @ int_str (sint (start + word_of_nat i))"

definition node_room :: "string \<Rightarrow> nat" where "node_room name = length name + 8"

fun make_nodes :: "kernel \<Rightarrow> string \<Rightarrow> uint \<Rightarrow> dev_line \<Rightarrow> uint \<Rightarrow> uint \<Rightarrow> nat list \<Rightarrow> dev_state \<Rightarrow> dev_state" where
  "make_nodes k name mode d uid gid [] st = st"
| "make_nodes k name mode d uid gid (i # is) st =
     make_nodes k name mode d uid gid is
       (make_node k (node_name name (dl_start d) i) mode (dl_major d) (dl_minor d + word_of_nat i * dl_increment d)
          uid gid st)"

definition device_mode :: "char \<Rightarrow> uint \<Rightarrow> uint option" where
  "device_mode t mode =
     (if t = CHR ''p'' then Some (mode OR S_IFIFO) else if t = CHR ''c'' then Some (mode OR S_IFCHR)
      else if t = CHR ''b'' then Some (mode OR S_IFBLK) else None)"

definition make_entry :: "kernel \<Rightarrow> string \<Rightarrow> dev_line \<Rightarrow> uint \<Rightarrow> uint \<Rightarrow> dev_state \<Rightarrow> dev_state" where
  "make_entry k name d uid gid st =
     (if dl_type d = CHR ''d''
      then set_owner k name (dl_mode d) uid gid (snd (bb_make_directory k name (dl_mode d OR S_IFDIR) True st))
      else if dl_type d = CHR ''f''
      then (case call k (Stat_reg name) st of
              (a, st1) \<Rightarrow> if a \<noteq> Yes then fail_if True st1 else set_owner k name (dl_mode d) uid gid st1)
      else (case device_mode (dl_type d) (dl_mode d) of
              None \<Rightarrow> fail_if True st
            | Some mode \<Rightarrow>
                if dl_count d > 0 then make_nodes k name mode d uid gid [0..<unat (dl_count d)] st
                else make_node k name mode (dl_major d) (dl_minor d) uid gid st))"

text \<open>One round of the loop; \<open>None\<close> is the exit for an unknown user or group.\<close>

definition table_line :: "kernel \<Rightarrow> users \<Rightarrow> string \<Rightarrow> string \<times> string \<Rightarrow> string \<Rightarrow> dev_state \<Rightarrow> dev_state option" where
  "table_line k us root junk line st =
     (case scan_line (fst junk) (snd junk) line of
        None \<Rightarrow> Some (fail_if (\<not> (line = [] \<or> hd line = CHR ''#'' \<or> is_space (hd line))) st)
      | Some d \<Rightarrow>
          if too_big d then Some (fail_if (\<not> (line = [] \<or> hd line = CHR ''#'' \<or> is_space (hd line))) st)
          else if hd (dl_name d) = CHR ''#'' then Some st
          else (case (if dl_group d \<noteq> [] then get_ug_id (us_group us) (dl_group d) else Some (us_gid us)) of
                  None \<Rightarrow> None
                | Some gid \<Rightarrow>
                    (case (if dl_user d \<noteq> [] then get_ug_id (us_passwd us) (dl_user d) else Some (us_uid us)) of
                       None \<Rightarrow> None
                     | Some uid \<Rightarrow> Some (make_entry k (concat_path_file root (dl_name d)) d uid gid st))))"

lemma get_line_loop_shorter: "get_line_loop buf sz xs = (b, s, e, rest) \<Longrightarrow> xs \<noteq> [] \<Longrightarrow> length rest < length xs"
proof (induction buf sz xs arbitrary: b s e rest rule: get_line_loop.induct)
  case (2 buf sz ch xs)
  thus ?case by (cases "xs = []") (fastforce simp: Let_def split: if_splits)+
qed simp

lemma get_chomped_line_shorter: "get_chomped_line ok xs = Some (line, rest) \<Longrightarrow> length rest < length xs"
  by (cases "xs = []") (auto simp: get_chomped_line_def dest: get_line_loop_shorter split: prod.splits bool.splits if_splits)

text \<open>The loop over the lines; \<open>junk n\<close> is what the arrays hold at line \<open>n\<close>.\<close>

function table_loop :: "kernel \<Rightarrow> users \<Rightarrow> string \<Rightarrow> (nat \<Rightarrow> string \<times> string) \<Rightarrow> bool \<Rightarrow> nat \<Rightarrow> string \<Rightarrow> dev_state \<Rightarrow>
    dev_state option" where
  "table_loop k us root junk ok n file st =
     (case get_chomped_line ok file of
        None \<Rightarrow> Some st
      | Some (line, rest) \<Rightarrow>
          (case table_line k us root (junk n) line st of
             None \<Rightarrow> None
           | Some st1 \<Rightarrow> table_loop k us root junk ok (n + 1) rest st1))"
  by pat_completeness auto
termination
  by (relation "measure (\<lambda>(k, us, root, junk, ok, n, file, st). length file)") (auto dest: get_chomped_line_shorter)

declare table_loop.simps [simp del]

text \<open>
  \<open>main\<close>: the options are those \<open>getopt\<close> found (\<open>None\<close> for an unknown one), with the arguments behind them. The
  result is the exit status and the calls that were made. \<open>chdir\<close> comes before them.
\<close>

definition makedevs_main ::
    "kernel \<Rightarrow> users \<Rightarrow> (nat \<Rightarrow> string \<times> string) \<Rightarrow> (string \<Rightarrow> (string \<times> bool) option) \<Rightarrow> string \<times> bool \<Rightarrow>
     (string \<Rightarrow> bool) \<Rightarrow> string option list \<Rightarrow> string list \<Rightarrow> nat \<times> dev_call list" where
  "makedevs_main k us junk fopen input chdir opts args =
     (if \<exists>opt \<in> set opts. opt = None \<or> fopen (the opt) = None then (1, [])
      else case args of
             [] \<Rightarrow> (1, [])
           | root # _ \<Rightarrow>
               if \<not> chdir root then (1, [])
               else (let (file, ok) = (if opts = [] then input else the (fopen (the (last opts))));
                         st = set_umask k 0 \<lparr>ds_log = [], ds_umask = 0x12, ds_failed = False\<rparr>
                     in case table_loop k us root junk ok 1 file st of
                          None \<Rightarrow> (1, [])
                        | Some st1 \<Rightarrow> (if ds_failed st1 then 1 else 0, ds_log st1)))"

section \<open>Numbered nodes\<close>

lemma or_bounds: "unat x \<le> unat (x OR y)" "unat y \<le> unat (x OR y)" for x y :: uint
  by (metis le_word_or2 or.commute word_le_nat_alt)+

lemma not_too_big:
  assumes "\<not> too_big d"
  shows "unat (dl_start d) \<le> 0xfffff" "unat (dl_count d) \<le> 0xfffff"
proof -
  have "unat (dl_major d OR dl_minor d OR dl_start d OR dl_count d OR dl_increment d) \<le> 0xfffff"
    using assms by (simp add: too_big_def word_le_nat_alt not_less)
  thus "unat (dl_start d) \<le> 0xfffff" "unat (dl_count d) \<le> 0xfffff"
    using or_bounds by (meson le_trans)+
qed

lemma nat_str_length: "n < 10 ^ k \<Longrightarrow> 0 < k \<Longrightarrow> length (nat_str n) \<le> k"
proof (induction n arbitrary: k rule: nat_str.induct)
  case (1 n)
  show ?case
  proof (cases "n < 10")
    case False
    moreover have "1 < k" using 1(2,3) False by (cases "k = 1") auto
    moreover have "n div 10 < 10 ^ (k - 1)"
      using 1(2) \<open>1 < k\<close> by (cases k) (auto simp: less_mult_imp_div_less)
    ultimately show ?thesis using 1(1) [of "k - 1"] by (subst nat_str.simps) simp
  qed (use 1 in \<open>subst nat_str.simps, simp\<close>)
qed

lemma node_number:
  assumes "\<not> too_big d" "i < unat (dl_count d)"
  shows "sint (dl_start d + word_of_nat i) = int (unat (dl_start d) + i)" "unat (dl_start d) + i < 10 ^ 7"
proof -
  have i: "i < 0xfffff" "unat (dl_start d) \<le> 0xfffff" using not_too_big [OF assms(1)] assms(2) by simp_all
  hence "unat (dl_start d + word_of_nat i) = unat (dl_start d) + i"
    by (simp add: unat_word_ariths unat_of_nat)
  hence "uint (dl_start d + word_of_nat i) = int (unat (dl_start d) + i)" by (metis int_nat_eq of_nat_unat)
  moreover have "unat (dl_start d) + i < 2 ^ 31" using i by simp
  ultimately show "sint (dl_start d + word_of_nat i) = int (unat (dl_start d) + i)"
    by (simp only: sint_uint) (simp add: signed_take_bit_int_eq_self del: of_nat_add)
  show "unat (dl_start d) + i < 10 ^ 7" using i by simp
qed

lemma node_name_number:
  assumes "\<not> too_big d" "i < unat (dl_count d)"
  shows "node_name name (dl_start d) i = name @ nat_str (unat (dl_start d) + i)"
    and "length (node_name name (dl_start d) i) + 1 \<le> node_room name"
proof -
  show n: "node_name name (dl_start d) i = name @ nat_str (unat (dl_start d) + i)"
    by (simp only: node_name_def node_number(1) [OF assms]) (simp add: int_str_def del: of_nat_add)
  show "length (node_name name (dl_start d) i) + 1 \<le> node_room name"
    using nat_str_length [OF node_number(2) [OF assms]] by (simp add: n node_room_def)
qed

text \<open>The nodes a log asks for.\<close>

fun is_node :: "dev_call \<Rightarrow> bool" where
  "is_node (Mknod _ _ _ _) = True"
| "is_node _ = False"

definition nodes :: "dev_state \<Rightarrow> dev_call list" where "nodes st = filter is_node (ds_log st)"

lemma nodes_call [simp]: "nodes (snd (call k c st)) = nodes st @ (if is_node c then [c] else [])"
  by (simp add: nodes_def call_def)

lemma nodes_fail_if [simp]: "nodes (fail_if b st) = nodes st"
  by (simp add: nodes_def fail_if_def)

lemma nodes_make_node: "nodes (make_node k name mode maj mnr uid gid st) = nodes st @ [Mknod name mode maj mnr]"
  by (simp add: make_node_def case_prod_beta Let_def)

lemma nodes_make_nodes:
  "nodes (make_nodes k name mode d uid gid is st) =
   nodes st @ map (\<lambda>i. Mknod (node_name name (dl_start d) i) mode (dl_major d) (dl_minor d + word_of_nat i * dl_increment d)) is"
  by (induction "is" arbitrary: st) (simp_all add: nodes_make_node)

text \<open>C39: A line for numbered devices asks the kernel for exactly one node per number, in order, whatever it
  answers, with the minor numbers the increment gives; every name fits into the memory it is printed to.\<close>

theorem makedevs_nodes:
  assumes "\<not> too_big d" "device_mode (dl_type d) (dl_mode d) = Some mode" "0 < dl_count d"
    and "dl_type d \<noteq> CHR ''d''" "dl_type d \<noteq> CHR ''f''"
  shows "nodes (make_entry k name d uid gid st) =
      nodes st @ map (\<lambda>i. Mknod (name @ nat_str (unat (dl_start d) + i)) mode (dl_major d)
        (dl_minor d + word_of_nat i * dl_increment d)) [0..<unat (dl_count d)] \<and>
    (\<forall>i < unat (dl_count d). length (name @ nat_str (unat (dl_start d) + i)) + 1 \<le> node_room name)"
  using assms node_name_number [OF assms(1), of _ name]
  by (simp add: make_entry_def nodes_make_nodes cong: map_cong)

section \<open>Success\<close>

text \<open>The calls whose failure must not be passed over, and the logs in which none of them failed.\<close>

fun must_work :: "dev_call \<Rightarrow> bool" where
  "must_work (Mknod _ _ _ _) = True"
| "must_work (Chown _ _ _) = True"
| "must_work (Stat_reg _) = True"
| "must_work _ = False"

definition all_worked :: "kernel \<Rightarrow> dev_call list \<Rightarrow> bool" where
  "all_worked k log \<longleftrightarrow> (\<forall>i < length log. must_work (log ! i) \<longrightarrow> k (take i log) (log ! i) = Yes)"

lemma all_worked_snoc [simp]: "all_worked k (log @ [c]) \<longleftrightarrow> all_worked k log \<and> (must_work c \<longrightarrow> k log c = Yes)"
  unfolding all_worked_def by (simp add: all_conj_distrib less_Suc_eq nth_append imp_conjR)

definition honest :: "kernel \<Rightarrow> dev_state \<Rightarrow> bool" where
  "honest k st \<longleftrightarrow> ds_failed st \<or> all_worked k (ds_log st)"

lemma honest_failed [simp]: "honest k (fail_if True st)"
  by (simp add: honest_def fail_if_def)

lemma honest_fail_if: "honest k st \<Longrightarrow> honest k (fail_if b st)"
  by (simp add: honest_def fail_if_def)

lemma honest_call [simp]: "honest k st \<Longrightarrow> \<not> must_work c \<Longrightarrow> honest k (snd (call k c st))"
  by (auto simp: honest_def call_def)

lemma honest_call_yes: "honest k st \<Longrightarrow> fst (call k c st) = Yes \<Longrightarrow> honest k (snd (call k c st))"
  by (auto simp: honest_def call_def)

lemma honest_call_fail [simp]: "honest k st \<Longrightarrow> honest k (fail_if (fst (call k c st) \<noteq> Yes) (snd (call k c st)))"
  by (auto simp: honest_def call_def fail_if_def)

lemma honest_set_umask [simp]: "honest k st \<Longrightarrow> honest k (set_umask k m st)"
  by (auto simp: honest_def set_umask_def call_def)

lemma honest_try_mkdir [simp]: "honest k st \<Longrightarrow> honest k (snd (snd (try_mkdir k dir r st)))"
  by (simp add: try_mkdir_def case_prod_beta)

lemma honest_make_dirs [simp]: "honest k st \<Longrightarrow> honest k (snd (make_dirs_loop k path mode um r i st))"
proof (induction k path mode um r i st rule: make_dirs_loop.induct)
  case (1 k path mode um r i st)
  show ?case
  proof (cases "if r then next_cut path i else None")
    case None
    thus ?thesis using "1.prems" by (subst make_dirs_loop.simps) (simp add: case_prod_beta)
  next
    case (Some j)
    obtain a u st1 where t: "try_mkdir k (take j path) r st = (a, u, st1)" by (cases "try_mkdir k (take j path) r st")
    have h: "honest k st1" using honest_try_mkdir [OF "1.prems", of "take j path" r] t by simp
    have "u \<Longrightarrow> honest k (snd (make_dirs_loop k path mode um r j st1))"
      by (rule "1.IH" [OF Some t [symmetric] refl]) (use h in simp_all)
    thus ?thesis using h t Some by (subst make_dirs_loop.simps) simp
  qed
qed

lemma honest_set_owner [simp]: "honest k st \<Longrightarrow> honest k (set_owner k name mode uid gid st)"
  by (auto simp: set_owner_def case_prod_beta honest_call_yes honest_fail_if)

lemma honest_make_node [simp]: "honest k st \<Longrightarrow> honest k (make_node k name mode maj mnr uid gid st)"
  by (auto simp: make_node_def case_prod_beta Let_def honest_call_yes honest_fail_if)

lemma honest_make_nodes [simp]: "honest k st \<Longrightarrow> honest k (make_nodes k name mode d uid gid is st)"
  by (induction "is" arbitrary: st) simp_all

lemma honest_make_entry: "honest k st \<Longrightarrow> honest k (make_entry k name d uid gid st)"
  by (auto simp: make_entry_def bb_make_directory_def Let_def case_prod_beta honest_call_yes split: option.split)

lemma honest_table_line: "honest k st \<Longrightarrow> table_line k us root junk line st = Some st' \<Longrightarrow> honest k st'"
  by (auto simp: table_line_def honest_make_entry honest_fail_if split: option.splits if_splits)

lemma honest_table_loop: "honest k st \<Longrightarrow> table_loop k us root junk ok n fl st = Some st' \<Longrightarrow> honest k st'"
proof (induction k us root junk ok n fl st rule: table_loop.induct)
  case (1 k us root junk ok n fl st)
  note loop = "1.prems"(2) [unfolded table_loop.simps [of k us root junk ok n fl st]]
  show ?case
  proof (cases "get_chomped_line ok fl")
    case (Some p)
    obtain line rest where p: "p = (line, rest)" by (cases p)
    with Some loop obtain st1 where l: "table_line k us root (junk n) line st = Some st1"
      and r: "table_loop k us root junk ok (n + 1) rest st1 = Some st'"
      by (auto split: option.splits)
    show ?thesis by (rule "1.IH" [OF Some p [symmetric] l honest_table_line [OF "1.prems"(1) l] r])
  qed (use loop "1.prems"(1) in simp)
qed


text \<open>Runs on one line; a kernel that allows everything.\<close>

definition dev_users :: users where
  "dev_users = \<lparr>us_passwd = (\<lambda>_. None), us_group = (\<lambda>_. None), us_uid = 1, us_gid = 2\<rparr>"

definition dev_run :: "string \<times> string \<Rightarrow> string \<Rightarrow> nat \<times> dev_call list" where
  "dev_run junk line = makedevs_main (\<lambda>_ _. Yes) dev_users (\<lambda>_. junk) (\<lambda>_. None) (line, True) (\<lambda>_. True) [] [''/t'']"

lemmas dl_number_defs = dl_major_def dl_minor_def dl_start_def dl_increment_def dl_count_def dl_number_def

text \<open>The owner of a node is what memory held when the line names none.\<close>

lemma control_chars: "char_of (0 :: nat) = CHR 0x00" "char_of (10 :: nat) = CHR 0x0A"
  by code_simp+

lemma dev_fifo_line: "get_chomped_line True ''/x p'' = Some (''/x p'', [])" "get_chomped_line True [] = None"
  by (simp_all add: get_chomped_line_def control_chars Let_def)

lemma dev_fifo_scan: "scan_line u g ''/x p'' =
    Some \<lparr>dl_name = ''/x'', dl_type = CHR ''p'', dl_mode = 0x1ed, dl_user = u, dl_group = g, dl_numbers = []\<rparr>"
  by (simp add: scan_line_def scan_word_def scan_base_def is_space_def Let_def)

lemma dev_fifo_ids: "get_ug_id f ''7'' = Some 7" "get_ug_id f ''8'' = Some 8"
  by (simp_all add: get_ug_id_def strtoul10_def is_space_def is_digit_def digits_val_def digit_val_def Let_def)

lemma dev_fifo_entry: "table_line (\<lambda>_ _. Yes) dev_users ''/t'' (''7'', ''8'') ''/x p'' st =
    Some (make_node (\<lambda>_ _. Yes) ''/t/x'' 0x11ed 0 0 7 8 st)"
  by (simp add: table_line_def dev_fifo_scan dev_fifo_ids too_big_def dl_number_defs concat_path_file_def ends_with_def
      make_entry_def device_mode_def S_IFIFO_def)

lemma dev_run_fifo: "dev_run (''7'', ''8'') ''/x p'' =
    (0, [Umask 0, Mknod ''/t/x'' 0x11ed 0 0, Chown ''/t/x'' 7 8, Chmod ''/t/x'' 0x11ed])"
  by (simp add: dev_run_def makedevs_main_def table_loop.simps [of _ _ _ _ _ _ "''/x p''"] table_loop.simps [of _ _ _ _ _ _ "[]"]
      dev_fifo_line dev_fifo_entry make_node_def set_umask_def call_def fail_if_def Let_def)


definition dev_demo :: dev_line where
  "dev_demo = \<lparr>dl_name = ''/dev/hda'', dl_type = CHR ''b'', dl_mode = 0x1a0, dl_user = ''0'', dl_group = ''0'',
     dl_numbers = [3, 1, 9, 1, 2]\<rparr>"

theorem makedevs_nodes_witness:
  "nodes (make_entry (\<lambda>_ _. Yes) ''/t/dev/hda'' dev_demo 0 0 \<lparr>ds_log = [], ds_umask = 0, ds_failed = False\<rparr>) =
     [Mknod ''/t/dev/hda9'' 0x61a0 3 1, Mknod ''/t/dev/hda10'' 0x61a0 3 2]"
proof -
  have "\<not> too_big dev_demo" "device_mode (dl_type dev_demo) (dl_mode dev_demo) = Some 0x61a0" "0 < dl_count dev_demo"
    "dl_type dev_demo \<noteq> CHR ''d''" "dl_type dev_demo \<noteq> CHR ''f''"
    by (simp_all add: dev_demo_def too_big_def dl_number_defs device_mode_def S_IFBLK_def)
  note makedevs_nodes [OF this, of "\<lambda>_ _. Yes" "''/t/dev/hda''" 0 0 "\<lparr>ds_log = [], ds_umask = 0, ds_failed = False\<rparr>"]
  moreover have "char_of (57 :: nat) = CHR ''9''" "char_of (49 :: nat) = CHR ''1''" "char_of (48 :: nat) = CHR ''0''"
    by code_simp+
  ultimately show ?thesis by (simp add: dev_demo_def dl_number_defs nodes_def nat_str.simps upt_rec)
qed

end
