(* ===== verification/Spec2Isabelle.thy ===== *)
theory Spec2Isabelle
  imports BootManager WebFacts KExprFacts KMenuFacts KWriteFacts KCheckFacts KSearch KFrontFacts KMenuBoxFacts KCheckListFacts KInputBoxFacts KTextBoxFacts KMconfList
    Mcookie Wrapper Makedevs
begin

text \<open>
  A verification development of the NOOBS4IoT repository: the recovery program that installs and
  boots operating systems on a card, under \<open>src/recovery\<close>; the configuration tool of the build
  system, \<open>src/buildroot/support/kconfig\<close>; and three programs that the build system brings along.

  \<^bold>\<open>The recovery program.\<close> \<open>BootManager::run\<close> decides between booting and setup mode. In setup mode it
  prepares the card (\<open>PreSetup\<close>), starts an HTTP server (\<open>WebServer\<close> on \<open>WebMessage\<close>) and serves four
  requests; one of them describes an operating system in JSON (\<open>OSInfo\<close>, \<open>PartitionInfo\<close>), which
  \<open>InstallManager\<close> plans, writes to the card and makes bootable. The operating system below is a
  parameter: every external program, file access and device operation is an event appended to the
  log of an explicit \<open>world\<close>, and its result is a function of that log. Qt containers, QJson and
  the network are parameters too.

  \<^item> \<open>Prelude\<close>: strings, decimal numbers, \<open>QString::replace\<close>, shared automation. \<open>OrdMap\<close>: \<open>QMap\<close> as an
    ordered association list.
  \<^item> \<open>SysUtil\<close> (\<open>Utility_Sys.cpp\<close>): the world, files, mounting. \<open>JsonUtil\<close> (\<open>Utility_Json.cpp\<close>).
  \<^item> \<open>PartInfo\<close> (\<open>PartitionInfo.cpp\<close>) and \<open>OsInfo\<close> (\<open>OSInfo.cpp\<close>): the constructors. \<open>mkOSInfo_ready\<close> is
    the invariant the installer relies on.
  \<^item> \<open>Install\<close> (\<open>InstallManager.cpp\<close>, planning): \<open>checkImage\<close>, \<open>calculateSpaceRequirements\<close>, \<open>prepareImage\<close>.
    \<open>InstallCheck\<close> describes what the checks leave, \<open>InstallLayout\<close> refines the loop that places the
    partitions to a function on lists, and \<open>InstallPlan\<close> has the theorems: partitions are disjoint, aligned,
    within the card. Sector numbers are unbounded integers; C++ division is \<open>sdiv\<close> and \<open>smod\<close>.
  \<^item> \<open>InstallWrite\<close> (\<open>InstallManager_Utility.cpp\<close> and the writing half of \<open>InstallManager.cpp\<close>):
    partition table, file systems, images, labels, setup script. \<open>InstallTable\<close>: the table describes the
    plan. \<open>InstallRun\<close>: what an installation does to the card and what its result depends on.
  \<^item> \<open>BootPart\<close>, \<open>PreSetup\<close>, \<open>BootManager\<close> (the files of these names): default partition, reboot, preparation
    of the card, REST handlers, the local menu and \<open>run\<close>.
  \<^item> \<open>WebMsg\<close>, \<open>WebServer\<close>, \<open>WebClient\<close> (\<open>libs/Web\<close>): messages, routes, requests. A read is a list of the
    outcomes of \<open>select\<close> and \<open>read\<close>. \<open>WebFacts\<close>: round trip of messages, routing, and when \<open>receive\<close> hangs.

  \<^bold>\<open>The configuration tool.\<close> The parser builds a tree of menus over a table of symbols whose
  dependencies are expressions over tristate values; \<open>menu_finalize\<close> completes the tree,
  \<open>sym_calc_value\<close> computes values, \<open>conf_read\<close> reads a saved configuration. Symbols are references
  into the table \<open>kst\<close>; expressions are values, so sharing of nodes is not represented.

  \<^item> \<open>KTypes\<close> (\<open>expr.h\<close>), \<open>KExpr\<close>, \<open>KDups\<close> (\<open>expr.c\<close>): data and rewriting. \<open>KValue\<close> states in the locale
    \<open>symbol_values\<close> what rewriting needs to know about values and proves that it keeps them;
    \<open>KTable\<close> interprets it on the symbol table, \<open>KMenuFacts\<close> on a table that is calculated later.
    \<open>KDupsFacts\<close> and \<open>KExprFacts\<close>: termination and value of each rewriting, and where values are lost.
  \<^item> \<open>KSymbol\<close> (\<open>symbol.c\<close>): values, visibility, choices, as functions that return a value with the new
    state, follow a null pointer (\<open>Crash\<close>) or use up the bound on nested calls (\<open>NoFuel\<close>). The bound is
    \<open>todo\<close> of the state, the symbols not yet valid and pending requests of choices, plus one;
    \<open>KSymbolFacts\<close> proves that it is enough and that the table stays in order.
  \<^item> \<open>KSymTab\<close> (\<open>symbol.c\<close>): the hash table, which refines a map from names (locale \<open>symbol_store\<close>).
    \<open>KSymSet\<close>: setting, checking and toggling values, with \<open>KSymSetFacts\<close>.
  \<^item> \<open>KConf\<close> (\<open>confdata.c\<close>): reading configurations and the printers; \<open>KConfFacts\<close>: a printed line is read
    back, no buffer overflows, reading keeps the table in order. \<open>KWrite\<close> (\<open>confdata.c\<close>, \<open>menu.c\<close>): visible
    menus, the walk over the finished tree, \<open>conf_write\<close> and \<open>conf_write_defconfig\<close> as lists of operations on
    files; \<open>KWriteFacts\<close>: every entry is visited once, a file of printed lines is read back. \<open>KAuto\<close>:
    \<open>conf_split_config\<close>, \<open>conf_write_autoconf\<close>, the list of read files. \<open>KNewSyms\<close>: values for new symbols; the
    random numbers are a parameter.
  \<^item> \<open>KMenu\<close> (\<open>menu.c\<close>): the tree under construction and \<open>menu_finalize\<close>. \<open>KMenuFacts\<close>: twice the number of
    entries bounds its nested calls, entries keep their order, dependencies have the value they should.
  \<^item> \<open>KCheck\<close> (\<open>symbol.c\<close>): the search for recursive dependencies. Its nested calls are bounded by twice the
    symbols that are not marked, plus two; \<open>KCheckFacts\<close>: a search that reports nothing has seen no cycle.
  \<^item> \<open>KSearch\<close> (\<open>symbol.c\<close>): the search by a regular expression, \<open>regcomp\<close> and \<open>regexec\<close> a parameter.
    \<open>KHelp\<close> (\<open>menu.c\<close>): the help texts; \<open>KHelpFacts\<close>: they fit their strings, and the places to jump to are where
    they are said to be.

  \<^bold>\<open>The front end on a terminal.\<close> \<open>KAsk\<close> and \<open>KFront\<close> (\<open>conf.c\<close>) ask about the entries of the menus and run
  a whole session over the console: what is left of the input, what was printed, or the end of the program. Loops that
  ask again take a bound on their rounds.

  \<^item> \<open>KUser\<close>, \<open>KUserConf\<close>: which operations leave the user's values alone (the locale \<open>quiet_calc\<close> for the
    helpers of a calculation), and that those that set values set numbers for numbers.
  \<^item> \<open>KAskFacts\<close>: the locale \<open>question_invariant\<close> says what operations on symbols have to keep for the questions to
    keep it; it is interpreted for the order of the table and for the user's values. \<open>KFrontFacts\<close>: a run.
  \<^item> \<open>KAskEnds\<close>: the question for a bool ends, one round more than there are characters is enough; the one for a
    number without a valid value is asked for ever at the end of the input. In the modes that ask nothing the size of the
    tree is enough. Other questions have no bound.

  \<^bold>\<open>The front end on a screen.\<close> The dialogs of \<open>lxdialog\<close> read keys and the size of the screen from a list
  of events, in place of curses; they wait for ever (\<open>Waits\<close>) when it is used up, so their loops need no other
  bound. What is drawn is left out, but not what drawing reads.

  \<^item> \<open>KDialog\<close> (\<open>util.c\<close>): keys, items, the loop of a list. \<open>KItems\<close>: the locales \<open>list_box\<close> and
    \<open>resizable_box\<close>, the contract of a box with a list and what it gives for its loop.
  \<^item> \<open>KMenuBox\<close> (\<open>menubox.c\<close>), \<open>KCheckList\<close> (\<open>checklist.c\<close>, \<open>yesno.c\<close>) with \<open>KMenuBoxFacts\<close> and
    \<open>KCheckListFacts\<close>, which interpret these locales: no null pointer is followed, one item is selected at the end. For a
    menu this holds as long as the screen keeps its size; \<open>dialog_menu_resized\<close> is the crash otherwise.
  \<^item> \<open>KInputBox\<close> (\<open>inputbox.c\<close>) refines an editor of a text with a cursor (\<open>KInputBoxFacts\<close>), \<open>KTextBox\<close>
    (\<open>textbox.c\<close>) a pager that knows the line shown first (\<open>KTextBoxFacts\<close>).
  \<^item> \<open>KMconf\<close> with \<open>KMconfTexts\<close> (\<open>mconf.c\<close>): a session, as operations on the screen (\<open>ui\<close>) and the symbols, in the
    monad of the terminal front end. The outside world is a function of the operations on files done so far.
    \<open>KMconfFacts\<close> extends \<open>question_invariant\<close> to the locale \<open>session_invariant\<close>, with the same two
    interpretations, and shows that the boxes for values and file names are opened for ever on a screen that is too small.
    \<open>KMconfList\<close>: what the items of a menu stand for. A session ends or not as the user likes, so its rounds
    have no bound.

  \<^bold>\<open>Programs of the build system.\<close> \<open>CNum\<close> holds the C numbers they share.

  \<^item> \<open>Md5\<close> (\<open>package/x11r7/mcookie/mcookie.c\<close>): the digest on 32-bit words. \<open>Md5Facts\<close>: the locale
    \<open>streaming_digest\<close> for any cut of a message into pieces, and that the result is the digest of RFC 1321. \<open>Mcookie\<close>:
    reading the sources and \<open>main\<close>.
  \<^item> \<open>Wrapper\<close> (\<open>toolchain/toolchain-external/ext-toolchain-wrapper.c\<close>): the arguments of the compiler that is
    executed.
  \<^item> \<open>Makedevs\<close> (\<open>package/makedevs/makedevs.c\<close>): lines of the device table and the calls they lead to; the answers
    of the system are a parameter.

  \<^bold>\<open>Not modelled.\<close> In the recovery program logging and printing to the screen, the QR code of the address and the
  vendored logging library. In the configuration tool the scanner and the parser (generated, with their inputs), the
  front ends \<open>nconf\<close>, \<open>gconf\<close> and \<open>qconf\<close>, drawing and colours of \<open>lxdialog\<close>, signals, the translation of
  messages, options of the command line (\<open>getopt_long\<close>), and what is printed to the standard error output. Of the other
  packages of buildroot, which it downloads or compiles for the target, nothing is modelled.
\<close>

end
